(* ===== verification/Prelude.thy ===== *)
theory Prelude
  imports Main "HOL-Library.Char_ord" "HOL-Library.List_Lexorder" "HOL-Library.Sublist"
begin

text \<open>
  Shared material of the development: the result and state-and-result types that stand for
  Rust's \<^verbatim>\<open>Result\<close> and the \<^verbatim>\<open>?\<close> operator, the parts of the Rust standard library's
  \<^verbatim>\<open>str\<close> and slice interface that the components use, and the generic lemmas about them.

  A Rust \<^verbatim>\<open>String\<close>, \<^verbatim>\<open>&str\<close> or \<^verbatim>\<open>Vec<u8>\<close> is the list of its bytes: an Isabelle
  \<^typ>\<open>string\<close> is a list of 8-bit characters, so \<open>length\<close> is Rust's \<^verbatim>\<open>len()\<close> (which
  counts bytes) and a Rust \<^verbatim>\<open>String\<close> is a value for which \<open>is_utf8\<close> holds.  The order on
  strings is the lexicographic order of their bytes, which is Rust's order on \<^verbatim>\<open>str\<close>.
\<close>

named_theorems result_iff \<open>when a computation with errors returns a value\<close>

type_synonym bytes = "char list"

section \<open>Results\<close>

type_synonym ('e, 'a) result = "'e + 'a"

definition try_res :: "('e, 'a) result \<Rightarrow> ('a \<Rightarrow> ('e, 'b) result) \<Rightarrow> ('e, 'b) result" where
  "try_res r f = (case r of Inl e \<Rightarrow> Inl e | Inr x \<Rightarrow> f x)"

text \<open>A computation on a state that may fail; the state is kept on both paths.\<close>

type_synonym ('e, 'a, 's) outcome = "('e, 'a) result \<times> 's"

definition try_io ::
  "('e, 'a, 's) outcome \<Rightarrow> ('a \<Rightarrow> 's \<Rightarrow> ('e, 'b, 's) outcome) \<Rightarrow> ('e, 'b, 's) outcome" where
  "try_io r f = (case r of (Inl e, s) \<Rightarrow> (Inl e, s) | (Inr x, s) \<Rightarrow> f x s)"

text \<open>\<^verbatim>\<open>Option::ok_or\<close> and \<^verbatim>\<open>Result::ok\<close>.\<close>

definition ok_or :: "'e \<Rightarrow> 'a option \<Rightarrow> ('e, 'a) result" where
  "ok_or e r = (case r of None \<Rightarrow> Inl e | Some x \<Rightarrow> Inr x)"

definition ok_opt :: "('e, 'a) result \<Rightarrow> 'a option" where
  "ok_opt r = (case r of Inl _ \<Rightarrow> None | Inr x \<Rightarrow> Some x)"

lemma try_res_simps [simp]:
  "try_res (Inl e) f = Inl e"
  "try_res (Inr x) f = f x"
  by (simp_all add: try_res_def)

lemma try_io_simps [simp]:
  "try_io (Inl e, s) f = (Inl e, s)"
  "try_io (Inr x, s) f = f x s"
  by (simp_all add: try_io_def)

lemma try_res_Inr_iff [result_iff]:
  "try_res r f = Inr y \<longleftrightarrow> (\<exists>x. r = Inr x \<and> f x = Inr y)"
  by (cases r) auto

lemma try_io_Inr_iff [result_iff]:
  "try_io r f = (Inr y, t) \<longleftrightarrow> (\<exists>x s. r = (Inr x, s) \<and> f x s = (Inr y, t))"
  by (cases r; cases "fst r") (auto simp: try_io_def split: sum.splits)

lemma try_io_Inl_iff:
  "try_io r f = (Inl e, t) \<longleftrightarrow> r = (Inl e, t) \<or> (\<exists>x s. r = (Inr x, s) \<and> f x s = (Inl e, t))"
  by (cases r; cases "fst r") (auto simp: try_io_def split: sum.splits)

lemma ok_or_simps [simp]:
  "ok_or e None = Inl e"
  "ok_or e (Some x) = Inr x"
  by (simp_all add: ok_or_def)

lemma ok_or_Inr_iff [result_iff]: "ok_or e r = Inr x \<longleftrightarrow> r = Some x"
  by (cases r) auto

lemma ok_opt_simps [simp]:
  "ok_opt (Inl e) = None"
  "ok_opt (Inr x) = Some x"
  by (simp_all add: ok_opt_def)

lemma ok_opt_Some_iff [result_iff]: "ok_opt r = Some x \<longleftrightarrow> r = Inr x"
  by (cases r) auto

lemma ok_opt_None_iff: "ok_opt r = None \<longleftrightarrow> (\<exists>e. r = Inl e)"
  by (cases r) auto

section \<open>Splitting and joining\<close>

text \<open>\<^verbatim>\<open>str::split\<close> on one character and \<^verbatim>\<open>slice::join\<close>.\<close>

fun split_on :: "'a \<Rightarrow> 'a list \<Rightarrow> 'a list list" where
  "split_on c [] = [[]]"
| "split_on c (x # xs) =
     (if x = c then [] # split_on c xs
      else (case split_on c xs of [] \<Rightarrow> [[x]] | y # ys \<Rightarrow> (x # y) # ys))"

fun join_with :: "'a list \<Rightarrow> 'a list list \<Rightarrow> 'a list" where
  "join_with sep [] = []"
| "join_with sep [x] = x"
| "join_with sep (x # y # ys) = x @ sep @ join_with sep (y # ys)"

lemma split_on_not_Nil [simp]: "split_on c s \<noteq> []"
  by (cases s) (auto split: list.splits)

lemma join_with_Cons: "ys \<noteq> [] \<Longrightarrow> join_with sep (x # ys) = x @ sep @ join_with sep ys"
  by (cases ys) auto

lemma join_split [simp]: "join_with [c] (split_on c s) = s"
proof (induction s)
  case (Cons x xs)
  then show ?case
    by (cases "split_on c xs"; cases "tl (split_on c xs)") (auto simp: join_with_Cons)
qed simp

lemma split_on_free: "c \<notin> set s \<Longrightarrow> split_on c s = [s]"
  by (induction s) auto

lemma split_on_append: "c \<notin> set s \<Longrightarrow> split_on c (s @ c # t) = s # split_on c t"
  by (induction s) auto

lemma split_join:
  "xs \<noteq> [] \<Longrightarrow> \<forall>x \<in> set xs. c \<notin> set x \<Longrightarrow> split_on c (join_with [c] xs) = xs"
proof (induction xs)
  case (Cons x xs)
  then show ?case
    by (cases "xs = []") (simp_all add: join_with_Cons split_on_append split_on_free)
qed simp

lemma split_on_parts: "x \<in> set (split_on c s) \<Longrightarrow> c \<notin> set x"
  by (induction s arbitrary: x) (auto split: if_splits list.splits)

lemma split_on_chars: "x \<in> set (split_on c s) \<Longrightarrow> set x \<subseteq> set s"
  by (induction s arbitrary: x) (fastforce split: if_splits list.splits)+

lemma split_on_length: "x \<in> set (split_on c s) \<Longrightarrow> length x \<le> length s"
  by (induction s arbitrary: x) (fastforce split: if_splits list.splits)+

lemma join_with_append_last:
  "xs \<noteq> [] \<Longrightarrow> join_with sep xs @ t = join_with sep (butlast xs @ [last xs @ t])"
  by (induction sep xs rule: join_with.induct) (auto simp: join_with_Cons)

lemma set_join_with: "set (join_with sep xs) \<subseteq> set sep \<union> (\<Union>x \<in> set xs. set x)"
  by (induction sep xs rule: join_with.induct) auto

lemma join_with_eq_Nil: "[] \<notin> set xs \<Longrightarrow> join_with sep xs = [] \<longleftrightarrow> xs = []"
  by (cases xs; cases "tl xs") (auto simp: join_with_Cons)

lemma join_with_snoc: "xs \<noteq> [] \<Longrightarrow> join_with sep (xs @ [x]) = join_with sep xs @ sep @ x"
  by (induction sep xs rule: join_with.induct) auto

lemma last_join_with:
  "xs \<noteq> [] \<Longrightarrow> last xs \<noteq> [] \<Longrightarrow> \<exists>pre. join_with sep xs = pre @ last xs"
  by (induction sep xs rule: join_with.induct) auto

section \<open>Prefixes, suffixes and searching\<close>

text \<open>\<^verbatim>\<open>strip_prefix\<close>, \<^verbatim>\<open>strip_suffix\<close>, \<^verbatim>\<open>starts_with\<close>, \<^verbatim>\<open>ends_with\<close>, \<^verbatim>\<open>find\<close> of a pattern
  (the first offset where it occurs) and \<^verbatim>\<open>contains\<close>.\<close>

definition strip_prefix :: "'a list \<Rightarrow> 'a list \<Rightarrow> 'a list option" where
  "strip_prefix p s = (if prefix p s then Some (drop (length p) s) else None)"

definition strip_suffix :: "'a list \<Rightarrow> 'a list \<Rightarrow> 'a list option" where
  "strip_suffix p s = (if suffix p s then Some (take (length s - length p) s) else None)"

fun find_sub :: "'a list \<Rightarrow> 'a list \<Rightarrow> nat option" where
  "find_sub p [] = (if p = [] then Some 0 else None)"
| "find_sub p (x # xs) =
     (if prefix p (x # xs) then Some 0 else map_option Suc (find_sub p xs))"

abbreviation find_char :: "'a \<Rightarrow> 'a list \<Rightarrow> nat option" where
  "find_char c \<equiv> find_sub [c]"

definition contains_sub :: "'a list \<Rightarrow> 'a list \<Rightarrow> bool" where
  "contains_sub p s = (find_sub p s \<noteq> None)"

lemma strip_prefix_append [simp]: "strip_prefix p (p @ s) = Some s"
  by (simp add: strip_prefix_def)

lemma strip_suffix_append [simp]: "strip_suffix p (s @ p) = Some s"
  by (simp add: strip_suffix_def suffix_def)

lemma strip_prefix_Some_iff [result_iff]: "strip_prefix p s = Some t \<longleftrightarrow> s = p @ t"
  by (auto simp: strip_prefix_def prefix_def)

lemma strip_suffix_Some_iff [result_iff]: "strip_suffix p s = Some t \<longleftrightarrow> s = t @ p"
  by (auto simp: strip_suffix_def suffix_def)

lemma strip_prefix_None_iff: "strip_prefix p s = None \<longleftrightarrow> \<not> prefix p s"
  by (simp add: strip_prefix_def)

lemma strip_suffix_None_iff: "strip_suffix p s = None \<longleftrightarrow> \<not> suffix p s"
  by (simp add: strip_suffix_def)

lemma find_sub_Some:
  "find_sub p s = Some n \<Longrightarrow>
     n \<le> length s \<and> prefix p (drop n s) \<and> (\<forall>m < n. \<not> prefix p (drop m s))"
proof (induction s arbitrary: n)
  case (Cons x xs)
  then show ?case
  proof (cases "prefix p (x # xs)")
    case False
    with Cons.prems obtain k where k: "find_sub p xs = Some k" "n = Suc k" by auto
    with Cons.IH have IH: "k \<le> length xs \<and> prefix p (drop k xs) \<and> (\<forall>m < k. \<not> prefix p (drop m xs))"
      by blast
    have "\<not> prefix p (drop m (x # xs))" if "m < n" for m
      using that IH False k by (cases m) auto
    with IH k show ?thesis by auto
  qed auto
qed (auto split: if_splits)

lemma find_sub_None: "find_sub p s = None \<longleftrightarrow> (\<forall>n. \<not> prefix p (drop n s))"
proof (induction s)
  case (Cons x xs)
  have "(\<forall>n. \<not> prefix p (drop n (x # xs))) \<longleftrightarrow>
          \<not> prefix p (x # xs) \<and> (\<forall>n. \<not> prefix p (drop n xs))"
    by (metis drop0 drop_Suc_Cons not0_implies_Suc)
  with Cons show ?case by auto
qed auto

lemma find_sub_bound: "find_sub p s = Some n \<Longrightarrow> n + length p \<le> length s"
  by (metis add.commute find_sub_Some le_diff_conv length_drop ordered_cancel_comm_monoid_diff_class.le_diff_conv2 prefix_length_le)

lemma find_sub_first:
  "prefix p (drop n s) \<Longrightarrow> \<forall>m < n. \<not> prefix p (drop m s) \<Longrightarrow> n \<le> length s \<Longrightarrow> find_sub p s = Some n"
  by (metis find_sub_None find_sub_Some linorder_neqE_nat not_None_eq)

lemma contains_sub_iff: "contains_sub p s \<longleftrightarrow> (\<exists>u v. s = u @ p @ v)"
proof
  assume "contains_sub p s"
  then obtain n where "find_sub p s = Some n" by (auto simp: contains_sub_def)
  then have "prefix p (drop n s)" using find_sub_Some by blast
  then show "\<exists>u v. s = u @ p @ v" by (metis append_take_drop_id prefix_def)
next
  assume "\<exists>u v. s = u @ p @ v"
  then obtain u v where "s = u @ p @ v" by blast
  then have "prefix p (drop (length u) s)" by simp
  then show "contains_sub p s" by (auto simp: contains_sub_def find_sub_None)
qed

lemma find_char_append [simp]: "c \<notin> set s \<Longrightarrow> find_char c (s @ c # t) = Some (length s)"
  by (induction s) auto

lemma find_char_None_iff [simp]: "find_char c s = None \<longleftrightarrow> c \<notin> set s"
  by (induction s) auto

lemma find_char_Some_iff:
  "find_char c s = Some n \<longleftrightarrow> n < length s \<and> s ! n = c \<and> c \<notin> set (take n s)"
proof (induction s arbitrary: n)
  case (Cons x xs)
  then show ?case by (cases n) auto
qed simp

lemma find_char_split:
  "find_char c s = Some n \<Longrightarrow> s = take n s @ c # drop (Suc n) s \<and> c \<notin> set (take n s)"
  by (metis find_char_Some_iff id_take_nth_drop)

end
