(* ===== verification/Rust_Str.thy ===== *)
theory Rust_Str
  imports Prelude
begin

text \<open>
  The text functions of the Rust standard library whose behaviour depends on the encoding:
  UTF-8 validity (\<^verbatim>\<open>std::str::from_utf8\<close>), \<^verbatim>\<open>char::is_control\<close>, and \<^verbatim>\<open>trim\<close> with its
  Unicode \<^verbatim>\<open>White_Space\<close> set, all on the byte representation; decimal rendering of numbers; and
  formatted messages.

  A message built by \<^verbatim>\<open>format!\<close> is kept as the list of its pieces.  \<open>Dbg s\<close> is the place
  where the standard library's \<^verbatim>\<open>Debug\<close> rendering of a string (\<^verbatim>\<open>{:?}\<close>) goes, and
  \<open>Ext s\<close> is text that an error value of another library renders.
\<close>

section \<open>UTF-8\<close>

definition byte_val :: "char \<Rightarrow> nat" where
  "byte_val c = of_char c"

definition is_cont :: "char \<Rightarrow> bool" where
  "is_cont c = (0x80 \<le> byte_val c \<and> byte_val c \<le> 0xBF)"

definition in_range :: "nat \<Rightarrow> nat \<Rightarrow> char \<Rightarrow> bool" where
  "in_range lo hi c = (lo \<le> byte_val c \<and> byte_val c \<le> hi)"

fun is_utf8 :: "bytes \<Rightarrow> bool" where
  "is_utf8 [] = True"
| "is_utf8 (b # s) =
     (if byte_val b < 0x80 then is_utf8 s
      else if in_range 0xC2 0xDF b then
        (case s of c # s' \<Rightarrow> is_cont c \<and> is_utf8 s' | _ \<Rightarrow> False)
      else if in_range 0xE0 0xEF b then
        (case s of c # d # s' \<Rightarrow>
           (if byte_val b = 0xE0 then in_range 0xA0 0xBF c
            else if byte_val b = 0xED then in_range 0x80 0x9F c else is_cont c)
           \<and> is_cont d \<and> is_utf8 s' | _ \<Rightarrow> False)
      else if in_range 0xF0 0xF4 b then
        (case s of c # d # e # s' \<Rightarrow>
           (if byte_val b = 0xF0 then in_range 0x90 0xBF c
            else if byte_val b = 0xF4 then in_range 0x80 0x8F c else is_cont c)
           \<and> is_cont d \<and> is_cont e \<and> is_utf8 s' | _ \<Rightarrow> False)
      else False)"

definition from_utf8 :: "bytes \<Rightarrow> string option" where
  "from_utf8 s = (if is_utf8 s then Some s else None)"

lemma is_utf8_append: "is_utf8 s \<Longrightarrow> is_utf8 (s @ t) = is_utf8 t"
  by (induction s rule: is_utf8.induct) (auto split: if_splits list.splits)

lemma is_utf8_ascii: "\<forall>c \<in> set s. byte_val c < 0x80 \<Longrightarrow> is_utf8 s"
  by (induction s) auto

lemma is_utf8_appendI [intro]: "is_utf8 s \<Longrightarrow> is_utf8 t \<Longrightarrow> is_utf8 (s @ t)"
  by (simp add: is_utf8_append)

section \<open>Control characters\<close>

text \<open>U+0000--U+001F and U+007F are one byte; U+0080--U+009F are \<^verbatim>\<open>C2 80\<close>--\<^verbatim>\<open>C2 9F\<close>.\<close>

fun has_control :: "string \<Rightarrow> bool" where
  "has_control [] = False"
| "has_control (b # s) =
     (byte_val b < 0x20 \<or> byte_val b = 0x7F \<or>
      (byte_val b = 0xC2 \<and> (case s of [] \<Rightarrow> False | c # _ \<Rightarrow> in_range 0x80 0x9F c)) \<or>
      has_control s)"

lemma has_control_no_newline: "\<not> has_control s \<Longrightarrow> CHR 0x0A \<notin> set s"
  by (induction s) (auto simp: byte_val_def)

section \<open>Trimming\<close>

definition ws_seqs :: "string list" where
  "ws_seqs =
     [[CHR 0x09], [CHR 0x0A], [CHR 0x0B], [CHR 0x0C], [CHR 0x0D], [CHR 0x20],
      [CHR 0xC2, CHR 0x85], [CHR 0xC2, CHR 0xA0],
      [CHR 0xE1, CHR 0x9A, CHR 0x80],
      [CHR 0xE2, CHR 0x80, CHR 0x80], [CHR 0xE2, CHR 0x80, CHR 0x81],
      [CHR 0xE2, CHR 0x80, CHR 0x82], [CHR 0xE2, CHR 0x80, CHR 0x83],
      [CHR 0xE2, CHR 0x80, CHR 0x84], [CHR 0xE2, CHR 0x80, CHR 0x85],
      [CHR 0xE2, CHR 0x80, CHR 0x86], [CHR 0xE2, CHR 0x80, CHR 0x87],
      [CHR 0xE2, CHR 0x80, CHR 0x88], [CHR 0xE2, CHR 0x80, CHR 0x89],
      [CHR 0xE2, CHR 0x80, CHR 0x8A],
      [CHR 0xE2, CHR 0x80, CHR 0xA8], [CHR 0xE2, CHR 0x80, CHR 0xA9],
      [CHR 0xE2, CHR 0x80, CHR 0xAF], [CHR 0xE2, CHR 0x81, CHR 0x9F],
      [CHR 0xE3, CHR 0x80, CHR 0x80]]"

lemma ws_seqs_not_Nil: "[] \<notin> set ws_seqs"
  by (simp add: ws_seqs_def)

lemma find_ws_length: "find P ws_seqs = Some w \<Longrightarrow> 0 < length w"
  using ws_seqs_not_Nil by (auto simp: find_Some_iff) (metis nth_mem)

function trim_start :: "string \<Rightarrow> string" where
  "trim_start s =
     (if s = [] then [] else
      (case find (\<lambda>w. prefix w s) ws_seqs of
         None \<Rightarrow> s | Some w \<Rightarrow> trim_start (drop (length w) s)))"
  by pat_completeness auto
termination
  by (relation "measure length") (auto dest: find_ws_length)

function trim_end :: "string \<Rightarrow> string" where
  "trim_end s =
     (if s = [] then [] else
      (case find (\<lambda>w. suffix w s) ws_seqs of
         None \<Rightarrow> s | Some w \<Rightarrow> trim_end (take (length s - length w) s)))"
  by pat_completeness auto
termination
  by (relation "measure length") (auto dest: find_ws_length)

declare trim_start.simps [simp del] trim_end.simps [simp del]

definition trim :: "string \<Rightarrow> string" where
  "trim s = trim_end (trim_start s)"

definition ws_start :: "string \<Rightarrow> bool" where
  "ws_start s = list_ex (\<lambda>w. prefix w s) ws_seqs"

definition ws_end :: "string \<Rightarrow> bool" where
  "ws_end s = list_ex (\<lambda>w. suffix w s) ws_seqs"

lemma trim_start_id: "\<not> ws_start s \<Longrightarrow> trim_start s = s"
  by (subst trim_start.simps) (auto simp: ws_start_def list_ex_iff find_None_iff split: option.split
      dest!: find_Some_iff [THEN iffD1])

lemma trim_end_id: "\<not> ws_end s \<Longrightarrow> trim_end s = s"
  by (subst trim_end.simps) (auto simp: ws_end_def list_ex_iff find_None_iff split: option.split
      dest!: find_Some_iff [THEN iffD1])

lemma trim_id: "\<not> ws_start s \<Longrightarrow> \<not> ws_end s \<Longrightarrow> trim s = s"
  by (simp add: trim_def trim_start_id trim_end_id)

lemma ws_Nil [simp]: "\<not> ws_start []" "\<not> ws_end []"
  using ws_seqs_not_Nil by (auto simp: ws_start_def ws_end_def list_ex_iff)

lemma find_ws_None:
  "find (\<lambda>w. prefix w s) ws_seqs = None \<longleftrightarrow> \<not> ws_start s"
  "find (\<lambda>w. suffix w s) ws_seqs = None \<longleftrightarrow> \<not> ws_end s"
  by (auto simp: ws_start_def ws_end_def list_ex_iff find_None_iff)

lemma not_ws_start_trim_start: "\<not> ws_start (trim_start s)"
proof (induction s rule: trim_start.induct)
  case (1 s)
  show ?case
  proof (cases "find (\<lambda>w. prefix w s) ws_seqs")
    case None
    then show ?thesis
      using find_ws_None(1) [of s] by (simp add: trim_start_id)
  next
    case (Some w)
    then show ?thesis using "1.IH" [OF _ Some]
      by (subst trim_start.simps) auto
  qed
qed

lemma not_ws_end_trim_end: "\<not> ws_end (trim_end s)"
proof (induction s rule: trim_end.induct)
  case (1 s)
  show ?case
  proof (cases "find (\<lambda>w. suffix w s) ws_seqs")
    case None
    then show ?thesis
      using find_ws_None(2) [of s] by (simp add: trim_end_id)
  next
    case (Some w)
    then show ?thesis using "1.IH" [OF _ Some]
      by (subst trim_end.simps) auto
  qed
qed

lemma trim_end_prefix: "prefix (trim_end s) s"
proof (induction s rule: trim_end.induct)
  case (1 s)
  show ?case
  proof (cases "find (\<lambda>w. suffix w s) ws_seqs")
    case (Some w)
    then have "s \<noteq> [] \<Longrightarrow> prefix (trim_end (take (length s - length w) s)) s"
      using "1.IH" [OF _ Some] by (meson prefix_order.trans take_is_prefix)
    with Some show ?thesis by (subst trim_end.simps) auto
  qed (subst trim_end.simps; simp)
qed

lemma ws_start_prefix: "prefix s t \<Longrightarrow> ws_start s \<Longrightarrow> ws_start t"
  by (auto simp: ws_start_def list_ex_iff intro: prefix_order.trans)

lemma trim_idem: "trim (trim s) = trim s"
proof (rule trim_id)
  show "\<not> ws_start (trim s)"
    unfolding trim_def using trim_end_prefix not_ws_start_trim_start ws_start_prefix by blast
  show "\<not> ws_end (trim s)"
    by (simp add: trim_def not_ws_end_trim_end)
qed

section \<open>Numbers and messages\<close>

definition digit_char :: "nat \<Rightarrow> char" where
  "digit_char d = char_of (48 + d)"

fun show_nat :: "nat \<Rightarrow> string" where
  "show_nat n = (if n < 10 then [digit_char n] else show_nat (n div 10) @ [digit_char (n mod 10)])"

declare show_nat.simps [simp del]

datatype piece = Txt string | Dbg string | Ext string

type_synonym message = "piece list"

abbreviation lit :: "string \<Rightarrow> message" where
  "lit s \<equiv> [Txt s]"

end
