(* ===== verification/Rust_Map.thy ===== *)
theory Rust_Map
  imports Rust_Str
begin

text \<open>
  Standard collections of the client service: \<^verbatim>\<open>BTreeMap<String, V>\<close> as the list of its entries in
  key order, sets of strings as sorted lists, \<^verbatim>\<open>str::lines\<close>, \<^verbatim>\<open>split_once\<close> and JSON values.
\<close>

section \<open>Maps\<close>

type_synonym 'v btree = "(string \<times> 'v) list"

fun btree_insert :: "string \<Rightarrow> 'v \<Rightarrow> 'v btree \<Rightarrow> 'v btree" where
  "btree_insert k v [] = [(k, v)]"
| "btree_insert k v ((k', v') # m) =
     (if k = k' then (k, v) # m
      else if k < k' then (k, v) # (k', v') # m
      else (k', v') # btree_insert k v m)"

definition btree_remove :: "string \<Rightarrow> 'v btree \<Rightarrow> 'v btree" where
  "btree_remove k m = filter (\<lambda>(k', _). k' \<noteq> k) m"

abbreviation btree_get :: "'v btree \<Rightarrow> string \<Rightarrow> 'v option" where
  "btree_get m k \<equiv> map_of m k"

definition contains_key :: "'v btree \<Rightarrow> string \<Rightarrow> bool" where
  "contains_key m k \<longleftrightarrow> map_of m k \<noteq> None"

text \<open>Collecting an iterator of entries: a later entry replaces an earlier one.\<close>

definition btree_of :: "(string \<times> 'v) list \<Rightarrow> 'v btree" where
  "btree_of es = foldl (\<lambda>m (k, v). btree_insert k v m) [] es"

definition btree_extend :: "'v btree \<Rightarrow> 'v btree \<Rightarrow> 'v btree" where
  "btree_extend m es = foldl (\<lambda>m (k, v). btree_insert k v m) m es"

text \<open>What the type guarantees: the keys are strictly increasing.\<close>

definition btree_ok :: "'v btree \<Rightarrow> bool" where
  "btree_ok m \<longleftrightarrow> sorted_wrt (<) (map fst m)"

lemma map_of_btree_insert [simp]: "map_of (btree_insert k v m) = (map_of m)(k \<mapsto> v)"
  by (induction m) auto

lemma set_btree_insert: "fst ` set (btree_insert k v m) = insert k (fst ` set m)"
  by (simp add: dom_map_of_conv_image_fst [symmetric])

lemma btree_ok_simps [simp]:
  "btree_ok []"
  "btree_ok ((k, v) # m) \<longleftrightarrow> (\<forall>k' \<in> set (map fst m). k < k') \<and> btree_ok m"
  by (simp_all add: btree_ok_def)

lemma btree_ok_insert [simp]: "btree_ok m \<Longrightarrow> btree_ok (btree_insert k v m)"
proof (induction m)
  case (Cons e m)
  obtain k' v' where e: "e = (k', v')" by (cases e)
  show ?case using Cons set_btree_insert [of k v m] by (simp add: e) force
qed simp

lemma btree_extend_append: "btree_extend m (xs @ ys) = btree_extend (btree_extend m xs) ys"
  by (simp add: btree_extend_def)

lemma map_of_btree_extend: "map_of (btree_extend m es) = map_of m ++ map_of (rev es)"
  by (induction es arbitrary: m) (auto simp: btree_extend_def)

lemma btree_ok_extend: "btree_ok m \<Longrightarrow> btree_ok (btree_extend m es)"
  by (induction es arbitrary: m) (auto simp: btree_extend_def)

lemma map_of_btree_of: "map_of (btree_of es) = map_of (rev es)"
  using map_of_btree_extend [of "[]" es] by (simp add: btree_of_def btree_extend_def)

lemma btree_ok_of [simp]: "btree_ok (btree_of es)"
  using btree_ok_extend [of "[]" es] by (simp add: btree_of_def btree_extend_def)

lemma map_of_btree_remove [simp]: "map_of (btree_remove k m) = (map_of m)(k := None)"
  by (induction m) (auto simp: btree_remove_def fun_eq_iff)

lemma btree_ok_remove [simp]: "btree_ok m \<Longrightarrow> btree_ok (btree_remove k m)"
  by (induction m) (auto simp: btree_remove_def)

lemma btree_ok_distinct: "btree_ok m \<Longrightarrow> distinct (map fst m)"
  by (simp add: btree_ok_def strict_sorted_iff)

text \<open>Two maps with the same entries are the same list.\<close>

lemma btree_eqI:
  assumes "btree_ok m" "btree_ok m'" "map_of m = map_of m'"
  shows "m = m'"
proof (rule map_sorted_distinct_set_unique [where f = fst])
  have d: "distinct (map fst m)" "distinct (map fst m')" using assms(1,2) by (simp_all add: btree_ok_distinct)
  show eq: "set m = set m'"
  proof (rule set_eqI)
    fix e :: "string \<times> 'a"
    obtain k v where e: "e = (k, v)" by (cases e)
    show "e \<in> set m \<longleftrightarrow> e \<in> set m'"
      using map_of_eq_Some_iff [OF d(1), of k v] map_of_eq_Some_iff [OF d(2), of k v] assms(3) by (simp add: e)
  qed
  show "inj_on fst (set m \<union> set m')" using d(1) eq by (simp add: distinct_map)
qed (use assms in \<open>simp_all add: btree_ok_def strict_sorted_iff\<close>)

section \<open>Sets of strings\<close>

text \<open>Collecting strings into a \<^verbatim>\<open>BTreeSet\<close> and listing it.\<close>

definition collect_set :: "string list \<Rightarrow> string list" where
  "collect_set xs = remdups_adj (sort xs)"

lemma set_collect_set [simp]: "set (collect_set xs) = set xs"
  by (simp add: collect_set_def)

section \<open>Text\<close>

text \<open>\<^verbatim>\<open>str::lines\<close>: a final line without a line feed keeps a carriage return.\<close>

definition strip_cr :: "string \<Rightarrow> string" where
  "strip_cr s = (case strip_suffix [CHR 0x0D] s of Some t \<Rightarrow> t | None \<Rightarrow> s)"

definition lines_of :: "string \<Rightarrow> string list" where
  "lines_of s =
     (let parts = split_on (CHR 0x0A) s
      in map strip_cr (butlast parts) @ (if last parts = [] then [] else [last parts]))"

definition split_once :: "char \<Rightarrow> string \<Rightarrow> (string \<times> string) option" where
  "split_once c s = (case find_char c s of None \<Rightarrow> None | Some i \<Rightarrow> Some (take i s, drop (Suc i) s))"

definition is_ascii_lowercase :: "char \<Rightarrow> bool" where "is_ascii_lowercase c = in_range 0x61 0x7A c"
definition is_ascii_uppercase :: "char \<Rightarrow> bool" where "is_ascii_uppercase c = in_range 0x41 0x5A c"
definition is_ascii_digit :: "char \<Rightarrow> bool" where "is_ascii_digit c = in_range 0x30 0x39 c"
definition is_ascii_alphabetic :: "char \<Rightarrow> bool" where
  "is_ascii_alphabetic c \<longleftrightarrow> is_ascii_lowercase c \<or> is_ascii_uppercase c"

section \<open>JSON values\<close>

text \<open>An object is the list of its members in the order they are written; the program never writes
  a member twice.\<close>

datatype json = JNull | JBool bool | JNum int | JStr string | JArr "json list" | JObj "(string \<times> json) list"

definition json_opt :: "('a \<Rightarrow> json) \<Rightarrow> 'a option \<Rightarrow> json" where
  "json_opt f x = (case x of None \<Rightarrow> JNull | Some y \<Rightarrow> f y)"

text \<open>\<^verbatim>\<open>skip_serializing_if\<close>: the member is left out.\<close>

definition json_skip_none :: "string \<Rightarrow> ('a \<Rightarrow> json) \<Rightarrow> 'a option \<Rightarrow> (string \<times> json) list" where
  "json_skip_none k f x = (case x of None \<Rightarrow> [] | Some y \<Rightarrow> [(k, f y)])"

end
