(* ===== verification/Client_Models.thy ===== *)
theory Client_Models
  imports Rust_Map
begin

text \<open>
  The part of the client service's models (\<^verbatim>\<open>services/client_service_rs/src/models.rs\<close>) and errors
  (\<^verbatim>\<open>errors.rs\<close>) that the configuration uses: the enumerations with their names, identity checks,
  the \<^verbatim>\<open>.env\<close> parser and the records shown to the web client.
\<close>

section \<open>Errors\<close>

datatype validation_error =
    InvalidAgentId string
  | InvalidConnectionId string
  | InvalidGatewayId string
  | InvalidSkillId string
  | InvalidWorkspaceId string
  | InvalidWorkspaceStatus string
  | InvalidConnectionApiFlavor string
  | InvalidHarnessName string
  | InvalidCliHarnessName string
  | InvalidInteractionMode string
  | InvalidRuntimeStatus string
  | InvalidGatewayType string

fun display_validation_error :: "validation_error \<Rightarrow> message" where
  "display_validation_error (InvalidAgentId v) = [Txt ''agent_id must use lowercase letters and single dashes only, got '', Dbg v]"
| "display_validation_error (InvalidConnectionId v) = [Txt ''connection_id must use lowercase letters and single dashes only, got '', Dbg v]"
| "display_validation_error (InvalidGatewayId v) = [Txt ''gateway_id must use lowercase letters and single dashes only, got '', Dbg v]"
| "display_validation_error (InvalidSkillId v) = [Txt ''skill_id must use lowercase letters, digits, and single dashes only, got '', Dbg v]"
| "display_validation_error (InvalidWorkspaceId v) = [Txt ''workspace_id must use lowercase letters, digits, and single dashes only, got '', Dbg v]"
| "display_validation_error (InvalidWorkspaceStatus v) = [Txt ''workspace status must be creating, ready, or failed, got '', Dbg v]"
| "display_validation_error (InvalidConnectionApiFlavor v) = [Txt ''connection api_flavor must be chat_completions or responses, got '', Dbg v]"
| "display_validation_error (InvalidHarnessName v) = [Txt ''unsupported harness name '', Dbg v]"
| "display_validation_error (InvalidCliHarnessName v) = [Txt ''unsupported CLI harness name '', Dbg v]"
| "display_validation_error (InvalidInteractionMode v) = [Txt ''interaction_mode must be chat or cli, got '', Dbg v]"
| "display_validation_error (InvalidRuntimeStatus v) = [Txt ''unsupported runtime status '', Dbg v]"
| "display_validation_error (InvalidGatewayType v) = [Txt ''unsupported gateway type '', Dbg v]"

datatype store_error =
    AgentAlreadyExists string
  | AgentNotFound string
  | ConnectionAlreadyExists string
  | ConnectionNotFound string
  | GatewayAlreadyExists string
  | GatewayNotFound string
  | WorkspaceAlreadyExists string
  | WorkspaceNotFound string
  | SessionAlreadyExists string
  | SessionNotFound string
  | LockPoisoned string
  | Persistence string message

fun display_store_error :: "store_error \<Rightarrow> message" where
  "display_store_error (AgentAlreadyExists i) = [Txt ''agent '', Dbg i, Txt '' already exists'']"
| "display_store_error (AgentNotFound i) = [Txt ''agent '', Dbg i, Txt '' not found'']"
| "display_store_error (ConnectionAlreadyExists i) = [Txt ''connection '', Dbg i, Txt '' already exists'']"
| "display_store_error (ConnectionNotFound i) = [Txt ''connection '', Dbg i, Txt '' not found'']"
| "display_store_error (GatewayAlreadyExists i) = [Txt ''gateway '', Dbg i, Txt '' already exists'']"
| "display_store_error (GatewayNotFound i) = [Txt ''gateway '', Dbg i, Txt '' not found'']"
| "display_store_error (WorkspaceAlreadyExists i) = [Txt ''workspace '', Dbg i, Txt '' already exists'']"
| "display_store_error (WorkspaceNotFound i) = [Txt ''workspace '', Dbg i, Txt '' not found'']"
| "display_store_error (SessionAlreadyExists i) = [Txt ''session '', Dbg i, Txt '' already exists'']"
| "display_store_error (SessionNotFound i) = [Txt ''session '', Dbg i, Txt '' not found'']"
| "display_store_error (LockPoisoned s) = [Txt s, Txt '' store lock is poisoned'']"
| "display_store_error (Persistence s detail) = Txt s # Txt '' store persistence error: '' # detail"

section \<open>Enumerations\<close>

datatype harness_name = Acp | CopilotCli | Codex | Opencode | ClaudeCode | Echo

fun harness_str :: "harness_name \<Rightarrow> string" where
  "harness_str Acp = ''acp''"
| "harness_str CopilotCli = ''copilot-cli''"
| "harness_str Codex = ''codex''"
| "harness_str Opencode = ''opencode''"
| "harness_str ClaudeCode = ''claude-code''"
| "harness_str Echo = ''echo''"

definition harness_from_str :: "string \<Rightarrow> (validation_error, harness_name) result" where
  "harness_from_str v =
     (if v = ''acp'' then Inr Acp
      else if v = ''copilot-cli'' then Inr CopilotCli
      else if v = ''codex'' then Inr Codex
      else if v = ''opencode'' then Inr Opencode
      else if v = ''claude-code'' then Inr ClaudeCode
      else if v = ''echo'' then Inr Echo
      else Inl (InvalidHarnessName v))"

datatype cli_harness_name = CliCopilot

fun cli_harness_str :: "cli_harness_name \<Rightarrow> string" where
  "cli_harness_str CliCopilot = ''copilot-cli''"

definition cli_harness_from_str :: "string \<Rightarrow> (validation_error, cli_harness_name) result" where
  "cli_harness_from_str v = (if v = ''copilot-cli'' then Inr CliCopilot else Inl (InvalidCliHarnessName v))"

datatype gateway_type = GatewayEcho | GatewayDiscord

fun gateway_type_str :: "gateway_type \<Rightarrow> string" where
  "gateway_type_str GatewayEcho = ''echo''"
| "gateway_type_str GatewayDiscord = ''discord''"

definition gateway_type_from_str :: "string \<Rightarrow> (validation_error, gateway_type) result" where
  "gateway_type_from_str v =
     (if v = ''echo'' then Inr GatewayEcho else if v = ''discord'' then Inr GatewayDiscord
      else Inl (InvalidGatewayType v))"

datatype api_flavor = ChatCompletions | Responses

fun api_flavor_str :: "api_flavor \<Rightarrow> string" where
  "api_flavor_str ChatCompletions = ''chat_completions''"
| "api_flavor_str Responses = ''responses''"

definition api_flavor_from_str :: "string \<Rightarrow> (validation_error, api_flavor) result" where
  "api_flavor_from_str v =
     (if v = ''chat_completions'' then Inr ChatCompletions else if v = ''responses'' then Inr Responses
      else Inl (InvalidConnectionApiFlavor v))"

section \<open>Identities\<close>

definition validate_dash_id :: "string \<Rightarrow> (char \<Rightarrow> bool) \<Rightarrow> bool" where
  "validate_dash_id v allowed \<longleftrightarrow>
     v \<noteq> [] \<and> list_all (\<lambda>seg. seg \<noteq> [] \<and> list_all allowed seg) (split_on (CHR ''-'') v)"

definition validate_alpha_dash_id :: "string \<Rightarrow> bool" where
  "validate_alpha_dash_id v = validate_dash_id v is_ascii_lowercase"

definition validate_alphanumeric_dash_id :: "string \<Rightarrow> bool" where
  "validate_alphanumeric_dash_id v = validate_dash_id v (\<lambda>c. is_ascii_lowercase c \<or> is_ascii_digit c)"

definition validate_agent_id :: "string \<Rightarrow> (validation_error, unit) result" where
  "validate_agent_id v = (if validate_alpha_dash_id v then Inr () else Inl (InvalidAgentId v))"

definition validate_connection_id :: "string \<Rightarrow> (validation_error, unit) result" where
  "validate_connection_id v = (if validate_alpha_dash_id v then Inr () else Inl (InvalidConnectionId v))"

definition validate_gateway_id :: "string \<Rightarrow> (validation_error, unit) result" where
  "validate_gateway_id v = (if validate_alpha_dash_id v then Inr () else Inl (InvalidGatewayId v))"

definition validate_skill_id :: "string \<Rightarrow> (validation_error, unit) result" where
  "validate_skill_id v = (if validate_alphanumeric_dash_id v then Inr () else Inl (InvalidSkillId v))"

definition validate_workspace_id :: "string \<Rightarrow> (validation_error, unit) result" where
  "validate_workspace_id v = (if validate_alphanumeric_dash_id v then Inr () else Inl (InvalidWorkspaceId v))"

section \<open>Environment text\<close>

definition trim_matching_quotes :: "string \<Rightarrow> string" where
  "trim_matching_quotes v =
     (if length v \<ge> 2 \<and> ((hd v = CHR 0x27 \<and> last v = CHR 0x27) \<or> (hd v = CHR 0x22 \<and> last v = CHR 0x22))
      then butlast (tl v) else v)"

text \<open>The body of the loop: what one line contributes.\<close>

definition env_entry :: "string \<Rightarrow> (string \<times> string) option" where
  "env_entry raw_line =
     (let line = trim raw_line in
      if line = [] \<or> prefix ''#'' line then None
      else (let (key, value) = (case split_once (CHR ''='') line of Some kv \<Rightarrow> kv | None \<Rightarrow> (line, []));
                key = trim key in
            if key = [] then None else Some (key, trim_matching_quotes (trim value))))"

definition parse_env_vars :: "string \<Rightarrow> string btree" where
  "parse_env_vars raw = btree_of (List.map_filter env_entry (lines_of raw))"

section \<open>Records\<close>

record agent_cli_record =
  acr_harness :: cli_harness_name
  acr_connection_id :: "string option"

datatype workspace_mount_mode = ReadWrite | ReadOnly

fun mount_mode_str :: "workspace_mount_mode \<Rightarrow> string" where
  "mount_mode_str ReadWrite = ''rw''"
| "mount_mode_str ReadOnly = ''ro''"

record workspace_mount_record =
  wm_workspace_id :: string
  wm_mode :: workspace_mount_mode
  wm_volume_name :: "string option"

definition mount_path :: "workspace_mount_record \<Rightarrow> string" where
  "mount_path m = ''/workspace/'' @ wm_workspace_id m"

definition mount_summary :: "workspace_mount_record \<Rightarrow> json" where
  "mount_summary m = JObj
     [(''workspace_id'', JStr (wm_workspace_id m)), (''mode'', JStr (mount_mode_str (wm_mode m))),
      (''mount_path'', JStr (mount_path m)), (''volume_name'', json_opt JStr (wm_volume_name m))]"

record agent_record =
  ar_agent_id :: string
  ar_name :: string
  ar_harness :: harness_name
  ar_system_prompt :: string
  ar_skills :: "string list"
  ar_env_vars :: string
  ar_connection_id :: "string option"
  ar_cli :: "agent_cli_record option"
  ar_workspace_mounts :: "workspace_mount_record list"
  ar_created_at :: string
  ar_updated_at :: string

definition agent_summary :: "agent_record \<Rightarrow> json" where
  "agent_summary r = JObj
     [(''agent_id'', JStr (ar_agent_id r)), (''name'', JStr (ar_name r)),
      (''harness'', JStr (harness_str (ar_harness r))), (''system_prompt'', JStr (ar_system_prompt r)),
      (''skills'', JArr (map JStr (ar_skills r))), (''env_vars'', JStr (ar_env_vars r)),
      (''connection_id'', json_opt JStr (ar_connection_id r)),
      (''cli'', json_opt (\<lambda>c. JObj [(''harness'', JStr (cli_harness_str (acr_harness c))),
         (''connection_id'', json_opt JStr (acr_connection_id c))]) (ar_cli r)),
      (''workspace_mounts'', JArr (map mount_summary (ar_workspace_mounts r))),
      (''created_at'', JStr (ar_created_at r)), (''updated_at'', JStr (ar_updated_at r))]"

record kernel_config_record =
  kr_harness :: harness_name
  kr_env_vars :: string
  kr_updated_at :: string

definition kernel_summary :: "kernel_config_record \<Rightarrow> json" where
  "kernel_summary r = JObj
     [(''harness'', JStr (harness_str (kr_harness r))), (''env_vars'', JStr (kr_env_vars r)),
      (''updated_at'', JStr (kr_updated_at r))]"

text \<open>\<^verbatim>\<open>SecretName\<close>, a string that \<^verbatim>\<open>SecretName::new\<close> has accepted (theory \<open>Config_Document\<close>).\<close>

type_synonym secret_name = string

record connection_record =
  cr_connection_id :: string
  cr_name :: string
  cr_url :: string
  cr_api_flavor :: api_flavor
  cr_api_key :: string
  cr_api_key_secret :: "secret_name option"
  cr_created_at :: string
  cr_updated_at :: string

definition has_api_key :: "connection_record \<Rightarrow> bool" where
  "has_api_key r \<longleftrightarrow> cr_api_key r \<noteq> [] \<or> cr_api_key_secret r \<noteq> None"

definition connection_summary :: "connection_record \<Rightarrow> bool \<Rightarrow> json" where
  "connection_summary r include_api_key = JObj
     ([(''connection_id'', JStr (cr_connection_id r)), (''name'', JStr (cr_name r)), (''url'', JStr (cr_url r)),
       (''api_flavor'', JStr (api_flavor_str (cr_api_flavor r))), (''has_api_key'', JBool (has_api_key r)),
       (''api_key_secret'', json_opt JStr (cr_api_key_secret r)),
       (''created_at'', JStr (cr_created_at r)), (''updated_at'', JStr (cr_updated_at r))] @
      (if include_api_key then [(''api_key'', JStr (cr_api_key r))] else []))"

record gateway_record =
  gr_gateway_id :: string
  gr_name :: string
  gr_gateway_type :: gateway_type
  gr_agent_id :: string
  gr_enabled :: bool
  gr_env_vars :: string
  gr_secrets :: "string btree"
  gr_status :: string
  gr_last_error :: "string option"
  gr_container_name :: "string option"
  gr_created_at :: string
  gr_updated_at :: string

definition gateway_summary :: "gateway_record \<Rightarrow> bool \<Rightarrow> json" where
  "gateway_summary r include_secrets = JObj
     ([(''gateway_id'', JStr (gr_gateway_id r)), (''name'', JStr (gr_name r)),
       (''gateway_type'', JStr (gateway_type_str (gr_gateway_type r))), (''agent_id'', JStr (gr_agent_id r)),
       (''enabled'', JBool (gr_enabled r)), (''env_vars'', JStr (gr_env_vars r)), (''status'', JStr (gr_status r)),
       (''last_error'', json_opt JStr (gr_last_error r)), (''container_name'', json_opt JStr (gr_container_name r)),
       (''created_at'', JStr (gr_created_at r)), (''updated_at'', JStr (gr_updated_at r)),
       (''secret_keys'', JArr (map (JStr \<circ> fst) (gr_secrets r)))] @
      (if include_secrets then [(''secrets'', JObj (map (\<lambda>(k, v). (k, JStr v)) (gr_secrets r)))] else []))"

definition effective_env :: "gateway_record \<Rightarrow> string btree" where
  "effective_env r = btree_extend (parse_env_vars (gr_env_vars r)) (gr_secrets r)"

section \<open>Facts\<close>

lemma harness_from_str_str [simp]: "harness_from_str (harness_str h) = Inr h"
  by (cases h) (simp_all add: harness_from_str_def)

lemma harness_str_inj [simp]: "harness_str h = harness_str h' \<longleftrightarrow> h = h'"
  using harness_from_str_str by (metis sum.inject(2))

lemma btree_ok_parse_env [simp]: "btree_ok (parse_env_vars raw)"
  by (simp add: parse_env_vars_def)

end
