(* ===== verification/Memory_Error.thy ===== *)
theory Memory_Error
  imports Rust_Str
begin

text \<open>
  The error type of the memory service (\<^verbatim>\<open>services/memory_rs/src/error.rs\<close>): one constructor per
  variant of \<^verbatim>\<open>MemoryError\<close>, its machine-readable kind and its \<^verbatim>\<open>Display\<close> text, and the two
  tables that turn an error into an HTTP status (\<^verbatim>\<open>server.rs\<close>) and a process exit code
  (\<^verbatim>\<open>cli.rs\<close>).
\<close>

text \<open>\<^verbatim>\<open>std::io::Error\<close>: its kind, as far as the code looks at it, and the text it renders.\<close>

datatype io_kind = IoNotFound | IoNotADirectory | IoIsADirectory | IoOther

datatype io_error = IoErr (io_error_kind: io_kind) (io_error_text: string)

datatype memory_error =
    InvalidPath string message
  | NotFound string
  | AlreadyExists string
  | Conflict string "string option" string
  | InvalidFrontmatter string message
  | TooLarge string nat
  | CommandNotAllowed string
  | RunTimedOut
  | RunOutputLimitExceeded
  | RunCancelled
  | RunLaunchFailed message
  | Lock message
  | NotImplemented message
  | Unavailable message
  | MalformedResponse message
  | Internal message
  | Io io_error
  | Yaml string

definition MISSING_COMMAND :: string where
  "MISSING_COMMAND = ''<missing>''"

fun kind :: "memory_error \<Rightarrow> string" where
  "kind (InvalidPath _ _) = ''invalid_path''"
| "kind (NotFound _) = ''not_found''"
| "kind (AlreadyExists _) = ''already_exists''"
| "kind (Conflict _ _ _) = ''conflict''"
| "kind (InvalidFrontmatter _ _) = ''invalid_frontmatter''"
| "kind (TooLarge _ _) = ''too_large''"
| "kind (CommandNotAllowed _) = ''command_not_allowed''"
| "kind RunTimedOut = ''run_timed_out''"
| "kind RunOutputLimitExceeded = ''run_output_limit_exceeded''"
| "kind RunCancelled = ''run_cancelled''"
| "kind (RunLaunchFailed _) = ''run_launch_failed''"
| "kind (Lock _) = ''lock''"
| "kind (NotImplemented _) = ''not_implemented''"
| "kind (Unavailable _) = ''unavailable''"
| "kind (MalformedResponse _) = ''malformed_response''"
| "kind (Internal _) = ''internal''"
| "kind (Io _) = ''io''"
| "kind (Yaml _) = ''yaml''"

fun display_error :: "memory_error \<Rightarrow> message" where
  "display_error (InvalidPath path reason) =
     [Txt ''invalid page path '', Dbg path, Txt '': ''] @ reason"
| "display_error (NotFound path) = [Txt ''page not found: '', Txt path]"
| "display_error (AlreadyExists path) = [Txt ''page already exists: '', Txt path]"
| "display_error (Conflict path (Some expected) actual) =
     [Txt ''revision conflict for '', Txt path, Txt '': expected '', Txt expected,
      Txt '', found '', Txt actual]"
| "display_error (Conflict path None actual) =
     [Txt ''revision conflict for '', Txt path, Txt '': page already exists with revision '',
      Txt actual]"
| "display_error (InvalidFrontmatter path reason) =
     [Txt ''invalid frontmatter in '', Txt path, Txt '': ''] @ reason"
| "display_error (TooLarge what limit) =
     [Txt what, Txt '' exceeds the configured limit of '', Txt (show_nat limit), Txt '' bytes'']"
| "display_error (CommandNotAllowed command) =
     (if command = MISSING_COMMAND then [Txt ''command is required'']
      else [Txt ''command '', Dbg command, Txt '' is not in the allowlist''])"
| "display_error RunTimedOut = [Txt ''command timed out'']"
| "display_error RunOutputLimitExceeded =
     [Txt ''command output exceeded the configured limit'']"
| "display_error RunCancelled = [Txt ''command was cancelled'']"
| "display_error (RunLaunchFailed message) = Txt ''command failed to launch: '' # message"
| "display_error (Lock message) = Txt ''failed to lock memory store: '' # message"
| "display_error (NotImplemented feature) = feature @ [Txt '' is not implemented yet'']"
| "display_error (Unavailable message) = Txt ''memory service is unavailable: '' # message"
| "display_error (MalformedResponse message) =
     Txt ''memory service returned a malformed response: '' # message"
| "display_error (Internal message) = Txt ''internal error: '' # message"
| "display_error (Io source) = [Txt ''I/O error: '', Ext (io_error_text source)]"
| "display_error (Yaml source) = [Txt ''YAML error: '', Ext source]"

text \<open>\<^verbatim>\<open>server.rs\<close>: the HTTP status that reports an error.\<close>

fun status_for :: "memory_error \<Rightarrow> nat" where
  "status_for (InvalidPath _ _) = 400"
| "status_for (InvalidFrontmatter _ _) = 400"
| "status_for (TooLarge _ _) = 400"
| "status_for (CommandNotAllowed _) = 400"
| "status_for (NotFound _) = 404"
| "status_for (Conflict _ _ _) = 409"
| "status_for (AlreadyExists _) = 409"
| "status_for (NotImplemented _) = 501"
| "status_for (Lock _) = 503"
| "status_for (Unavailable _) = 503"
| "status_for RunTimedOut = 500"
| "status_for RunOutputLimitExceeded = 500"
| "status_for RunCancelled = 500"
| "status_for (RunLaunchFailed _) = 500"
| "status_for (MalformedResponse _) = 500"
| "status_for (Internal _) = 500"
| "status_for (Io _) = 500"
| "status_for (Yaml _) = 500"

text \<open>\<^verbatim>\<open>cli.rs\<close>: the process exit code that reports an error.\<close>

fun exit_code_for :: "memory_error \<Rightarrow> int" where
  "exit_code_for (InvalidPath _ _) = 2"
| "exit_code_for (InvalidFrontmatter _ _) = 2"
| "exit_code_for (TooLarge _ _) = 2"
| "exit_code_for (CommandNotAllowed _) = 2"
| "exit_code_for (NotFound _) = 3"
| "exit_code_for (Conflict _ _ _) = 4"
| "exit_code_for (AlreadyExists _) = 4"
| "exit_code_for (NotImplemented _) = 5"
| "exit_code_for RunTimedOut = 6"
| "exit_code_for RunOutputLimitExceeded = 7"
| "exit_code_for RunCancelled = 8"
| "exit_code_for (RunLaunchFailed _) = 9"
| "exit_code_for (Unavailable _) = 10"
| "exit_code_for (MalformedResponse _) = 11"
| "exit_code_for (Lock _) = 1"
| "exit_code_for (Io _) = 1"
| "exit_code_for (Yaml _) = 1"
| "exit_code_for (Internal _) = 1"

text \<open>A status outside the error range or the exit code of success would report a failure as a
  success.\<close>

lemma status_for_error: "status_for e \<in> {400, 404, 409, 500, 501, 503}"
  by (cases e) auto

lemma exit_code_for_nonzero: "exit_code_for e \<noteq> 0"
  by (cases e) auto

lemma kind_inj_on_status: "kind e = kind e' \<Longrightarrow> status_for e = status_for e'"
  by (cases e; cases e') auto

lemma kind_inj_on_exit_code: "kind e = kind e' \<Longrightarrow> exit_code_for e = exit_code_for e'"
  by (cases e; cases e') auto

end
