(* ===== verification/Page_Path.thy ===== *)
theory Page_Path
  imports Memory_Error
begin

text \<open>
  Page paths (\<^verbatim>\<open>services/memory_rs/src/path.rs\<close>): parsing and validation of a root-relative page
  path, its logical form, its parent, and the file it names below the store root.  The
  resolution against a real directory tree (\<^verbatim>\<open>resolve_within\<close>) is in theory \<open>Fs_Store\<close>.
\<close>

section \<open>Definitions\<close>

definition MAX_PATH_SEGMENTS :: nat where "MAX_PATH_SEGMENTS = 32"
definition MAX_PATH_LENGTH :: nat where "MAX_PATH_LENGTH = 512"
definition MAX_SEGMENT_LENGTH :: nat where "MAX_SEGMENT_LENGTH = 128"

definition MARKDOWN_EXTENSION :: string where "MARKDOWN_EXTENSION = ''.md''"

datatype page_path = PagePath (segments: "string list")

text \<open>The derived \<^verbatim>\<open>Ord\<close>: the order of the segment vectors.\<close>

instantiation page_path :: linorder
begin

definition less_eq_page_path :: "page_path \<Rightarrow> page_path \<Rightarrow> bool" where
  "less_eq_page_path p q = (segments p \<le> segments q)"

definition less_page_path :: "page_path \<Rightarrow> page_path \<Rightarrow> bool" where
  "less_page_path p q = (segments p < segments q)"

instance
  by standard (auto simp: less_eq_page_path_def less_page_path_def page_path.expand)

end

text \<open>The body of the loop over the segments: the checks in the order of the code.\<close>

definition check_segment :: "string \<Rightarrow> string \<Rightarrow> (memory_error, unit) result" where
  "check_segment input seg =
     (if seg = [] then Inl (InvalidPath input (lit ''path segments must not be empty''))
      else if seg = ''.'' \<or> seg = ''..'' then
        Inl (InvalidPath input (lit ''path must not contain '.' or '..' segments''))
      else if length seg > MAX_SEGMENT_LENGTH then
        Inl (InvalidPath input
          [Txt ''segment '', Dbg seg, Txt '' exceeds '', Txt (show_nat MAX_SEGMENT_LENGTH),
           Txt '' bytes''])
      else if has_control seg then
        Inl (InvalidPath input (lit ''path must not contain control characters''))
      else Inr ())"

fun check_segments :: "string \<Rightarrow> string list \<Rightarrow> (memory_error, string list) result" where
  "check_segments input [] = Inr []"
| "check_segments input (seg # rest) =
     try_res (check_segment input seg) (\<lambda>_.
     try_res (check_segments input rest) (\<lambda>segs. Inr (seg # segs)))"

definition page_path_parse :: "string \<Rightarrow> (memory_error, page_path) result" where
  "page_path_parse input =
     (if input = [] then Inl (InvalidPath input (lit ''path must not be empty''))
      else if length input > MAX_PATH_LENGTH then
        Inl (InvalidPath input
          [Txt ''path exceeds '', Txt (show_nat MAX_PATH_LENGTH), Txt '' bytes''])
      else if prefix ''/'' input then
        Inl (InvalidPath input (lit ''absolute paths are not allowed''))
      else if CHR 0x5C \<in> set input then
        Inl (InvalidPath input (lit ''backslash is not a valid path separator''))
      else
        (let trimmed = (case strip_suffix MARKDOWN_EXTENSION input of Some t \<Rightarrow> t | None \<Rightarrow> input)
         in try_res (check_segments input (split_on (CHR ''/'') trimmed)) (\<lambda>segs.
              if length segs > MAX_PATH_SEGMENTS then
                Inl (InvalidPath input
                  [Txt ''path exceeds '', Txt (show_nat MAX_PATH_SEGMENTS), Txt '' segments''])
              else Inr (PagePath segs))))"

definition as_str :: "page_path \<Rightarrow> string" where
  "as_str p = join_with ''/'' (segments p)"

definition file_stem :: "page_path \<Rightarrow> string" where
  "file_stem p = (if segments p = [] then [] else last (segments p))"

definition parent :: "page_path \<Rightarrow> page_path option" where
  "parent p = (if length (segments p) \<le> 1 then None
     else Some (PagePath (take (length (segments p) - 1) (segments p))))"

text \<open>The components of the page's file below the store root: the directories, then
  \<^verbatim>\<open><stem>.md\<close> (the \<^verbatim>\<open>remaining\<close> vector of \<^verbatim>\<open>resolve_within\<close>).\<close>

definition file_components :: "page_path \<Rightarrow> string list" where
  "file_components p = butlast (segments p) @ [file_stem p @ ''.md'']"

text \<open>\<^verbatim>\<open>relative_to_logical\<close> of \<^verbatim>\<open>fs_store.rs\<close>: a relative file path as logical text; components
  that are not UTF-8 are left out.\<close>

definition relative_to_logical :: "bytes list \<Rightarrow> string" where
  "relative_to_logical comps = join_with ''/'' (filter is_utf8 comps)"

section \<open>Well-formed paths\<close>

definition wf_segment :: "string \<Rightarrow> bool" where
  "wf_segment seg \<longleftrightarrow> seg \<noteq> [] \<and> seg \<noteq> ''.'' \<and> seg \<noteq> ''..'' \<and> length seg \<le> MAX_SEGMENT_LENGTH \<and>
     \<not> has_control seg \<and> CHR ''/'' \<notin> set seg \<and> CHR 0x5C \<notin> set seg"

definition wf_page_path :: "page_path \<Rightarrow> bool" where
  "wf_page_path p \<longleftrightarrow> segments p \<noteq> [] \<and> length (segments p) \<le> MAX_PATH_SEGMENTS \<and>
     (\<forall>seg \<in> set (segments p). wf_segment seg)"

lemma wf_segmentD:
  assumes "wf_segment seg"
  shows "seg \<noteq> []" "seg \<noteq> ''.''" "seg \<noteq> ''..''" "CHR ''/'' \<notin> set seg" "CHR 0x5C \<notin> set seg"
    "\<not> has_control seg"
  using assms by (simp_all add: wf_segment_def)

lemma wf_page_pathD:
  assumes "wf_page_path p"
  shows "segments p \<noteq> []" "seg \<in> set (segments p) \<Longrightarrow> wf_segment seg"
    "seg \<in> set (butlast (segments p)) \<Longrightarrow> wf_segment seg" "wf_segment (file_stem p)"
  using assms by (auto simp: wf_page_path_def file_stem_def dest: in_set_butlastD)

lemma check_segment_Inr_iff [result_iff]:
  "check_segment input seg = Inr u \<longleftrightarrow> seg \<noteq> [] \<and> seg \<noteq> ''.'' \<and> seg \<noteq> ''..'' \<and>
     length seg \<le> MAX_SEGMENT_LENGTH \<and> \<not> has_control seg"
  by (auto simp: check_segment_def)

lemma check_segments_Inr_iff [result_iff]:
  "check_segments input segs = Inr ss \<longleftrightarrow> ss = segs \<and> (\<forall>seg \<in> set segs. check_segment input seg = Inr ())"
  by (induction segs arbitrary: ss) (auto simp: try_res_Inr_iff)

lemma wf_segments_join:
  "segs \<noteq> [] \<Longrightarrow> \<forall>seg \<in> set segs. wf_segment seg \<Longrightarrow> split_on (CHR ''/'') (join_with ''/'' segs) = segs"
  by (rule split_join) (auto simp: wf_segment_def)

lemma as_str_not_Nil: "wf_page_path p \<Longrightarrow> as_str p \<noteq> []"
proof -
  assume wf: "wf_page_path p"
  then have "[] \<notin> set (segments p)" by (auto simp: wf_page_path_def wf_segment_def)
  with wf show ?thesis by (simp add: as_str_def join_with_eq_Nil wf_page_path_def)
qed

lemma as_str_no_backslash: "wf_page_path p \<Longrightarrow> CHR 0x5C \<notin> set (as_str p)"
  using set_join_with [of "''/''" "segments p"]
  by (auto simp: as_str_def wf_page_path_def wf_segment_def)

lemma as_str_not_absolute: "wf_page_path p \<Longrightarrow> \<not> prefix ''/'' (as_str p)"
proof -
  assume wf: "wf_page_path p"
  then obtain seg rest where segs: "segments p = seg # rest" by (cases "segments p") (auto simp: wf_page_path_def)
  with wf have "seg \<noteq> []" "CHR ''/'' \<notin> set seg" by (auto simp: wf_page_path_def wf_segment_def)
  then show ?thesis
    by (cases seg; cases rest) (auto simp: as_str_def segs)
qed

lemma as_str_inj: "wf_page_path p \<Longrightarrow> wf_page_path q \<Longrightarrow> as_str p = as_str q \<Longrightarrow> p = q"
  by (metis as_str_def page_path.expand wf_page_path_def wf_segments_join)

lemma parse_trimmed:
  assumes "CHR 0x5C \<notin> set t"
  shows "(\<exists>segs. check_segments input (split_on (CHR ''/'') t) = Inr segs \<and> length segs \<le> MAX_PATH_SEGMENTS
            \<and> p = PagePath segs) \<longleftrightarrow> wf_page_path p \<and> t = as_str p"
proof
  assume "\<exists>segs. check_segments input (split_on (CHR ''/'') t) = Inr segs \<and> length segs \<le> MAX_PATH_SEGMENTS
            \<and> p = PagePath segs"
  then have segs: "segments p = split_on (CHR ''/'') t" "length (segments p) \<le> MAX_PATH_SEGMENTS"
    and ok: "\<forall>seg \<in> set (segments p). check_segment input seg = Inr ()"
    by (auto simp: check_segments_Inr_iff)
  have "wf_segment seg" if "seg \<in> set (segments p)" for seg
    using that ok segs(1) assms split_on_parts [of seg "CHR ''/''" t] split_on_chars [of seg "CHR ''/''" t]
    by (auto simp: wf_segment_def check_segment_Inr_iff)
  with segs show "wf_page_path p \<and> t = as_str p"
    by (simp add: wf_page_path_def as_str_def)
next
  assume "wf_page_path p \<and> t = as_str p"
  then show "\<exists>segs. check_segments input (split_on (CHR ''/'') t) = Inr segs \<and> length segs \<le> MAX_PATH_SEGMENTS
            \<and> p = PagePath segs"
    by (intro exI [of _ "segments p"])
       (auto simp: check_segments_Inr_iff check_segment_Inr_iff wf_page_path_def as_str_def
          wf_segments_join wf_segment_def)
qed

text \<open>The whole behaviour of the parser on its accepting branch: it accepts exactly the logical
  forms of well-formed paths, with or without one \<^verbatim>\<open>.md\<close>, up to the length limit.\<close>

lemma parse_Inr_iff:
  "page_path_parse input = Inr p \<longleftrightarrow>
     wf_page_path p \<and> length input \<le> MAX_PATH_LENGTH \<and>
     (input = as_str p @ ''.md'' \<or> input = as_str p \<and> \<not> suffix ''.md'' input)"
proof (cases "strip_suffix ''.md'' input")
  case None
  then have "\<not> suffix ''.md'' input" by (simp add: strip_suffix_None_iff)
  then have no: "input \<noteq> as_str p @ ''.md''" by (auto simp: suffix_def)
  have "page_path_parse input = Inr p \<longleftrightarrow> input \<noteq> [] \<and> length input \<le> MAX_PATH_LENGTH \<and>
      \<not> prefix ''/'' input \<and> CHR 0x5C \<notin> set input \<and>
      (\<exists>segs. check_segments input (split_on (CHR ''/'') input) = Inr segs \<and> length segs \<le> MAX_PATH_SEGMENTS
            \<and> p = PagePath segs)"
    using None by (auto simp: page_path_parse_def MARKDOWN_EXTENSION_def try_res_Inr_iff not_less)
  also have "\<dots> \<longleftrightarrow> wf_page_path p \<and> length input \<le> MAX_PATH_LENGTH \<and> input = as_str p"
    using parse_trimmed [of input input p] as_str_not_Nil [of p] as_str_no_backslash [of p]
      as_str_not_absolute [of p]
    by (cases "CHR 0x5C \<in> set input") auto
  finally show ?thesis using no \<open>\<not> suffix ''.md'' input\<close> by auto
next
  case (Some t)
  then have input: "input = t @ ''.md''" by (simp add: result_iff)
  have pre: "prefix ''/'' input \<longleftrightarrow> prefix ''/'' t" using input by (cases t) auto
  have "page_path_parse input = Inr p \<longleftrightarrow> length input \<le> MAX_PATH_LENGTH \<and>
      \<not> prefix ''/'' t \<and> CHR 0x5C \<notin> set t \<and>
      (\<exists>segs. check_segments input (split_on (CHR ''/'') t) = Inr segs \<and> length segs \<le> MAX_PATH_SEGMENTS
            \<and> p = PagePath segs)"
    using Some pre input
    by (auto simp: page_path_parse_def MARKDOWN_EXTENSION_def try_res_Inr_iff not_less)
  also have "\<dots> \<longleftrightarrow> wf_page_path p \<and> length input \<le> MAX_PATH_LENGTH \<and> t = as_str p"
    using parse_trimmed [of t input p] as_str_no_backslash [of p] as_str_not_absolute [of p]
    by (cases "CHR 0x5C \<in> set t") auto
  finally show ?thesis using input by (auto simp: suffix_def)
qed

lemma parse_wf [dest]: "page_path_parse input = Inr p \<Longrightarrow> wf_page_path p"
  by (simp add: parse_Inr_iff)

section \<open>Files of pages\<close>

lemma file_components_inj:
  assumes "wf_page_path p" "wf_page_path q" "file_components p = file_components q"
  shows "p = q"
proof -
  have "segments p \<noteq> []" "segments q \<noteq> []" using assms by (auto simp: wf_page_path_def)
  moreover from this assms(3) have "butlast (segments p) = butlast (segments q)" "last (segments p) = last (segments q)"
    by (auto simp: file_components_def file_stem_def)
  ultimately have "segments p = segments q" by (metis append_butlast_last_id)
  then show ?thesis by (rule page_path.expand)
qed

lemma join_file_components: "wf_page_path p \<Longrightarrow> join_with ''/'' (file_components p) = as_str p @ ''.md''"
  by (auto simp: wf_page_path_def as_str_def file_components_def file_stem_def join_with_append_last)

lemma file_components_safe:
  assumes "wf_page_path p" "c \<in> set (file_components p)"
  shows "c \<noteq> [] \<and> c \<noteq> ''.'' \<and> c \<noteq> ''..'' \<and> CHR ''/'' \<notin> set c"
proof -
  have segs: "\<forall>seg \<in> set (segments p). wf_segment seg" "segments p \<noteq> []"
    using assms(1) by (auto simp: wf_page_path_def)
  from assms(2) consider "c \<in> set (butlast (segments p))" | "c = file_stem p @ ''.md''"
    by (auto simp: file_components_def)
  then show ?thesis
  proof cases
    case 1
    then show ?thesis using segs by (auto simp: wf_segment_def dest: in_set_butlastD)
  next
    case 2
    have "wf_segment (file_stem p)" using segs by (simp add: file_stem_def)
    then show ?thesis using 2 by (auto simp: wf_segment_def Cons_eq_append_conv)
  qed
qed

section \<open>Properties\<close>



text \<open>
  Round trip of a page path through its file form: a parsed path is parsed again from its
  logical form with the extension, as long as that fits the length limit, and from its logical form
  alone unless that form itself ends in \<^verbatim>\<open>.md\<close>.
\<close>

theorem page_path_round_trip:
  assumes "page_path_parse input = Inr p" "length (as_str p) + 3 \<le> MAX_PATH_LENGTH"
  shows "page_path_parse (as_str p @ ''.md'') = Inr p \<and>
    (\<not> suffix ''.md'' (as_str p) \<longrightarrow> page_path_parse (as_str p) = Inr p)"
  using assms by (auto simp: parse_Inr_iff)

theorem page_path_round_trip_witness:
  "page_path_parse ''people/alice.md'' = Inr (PagePath [''people'', ''alice'']) \<and>
   page_path_parse ''people/alice'' = Inr (PagePath [''people'', ''alice''])"
proof -
  let ?p = "PagePath [''people'', ''alice'']"
  have "page_path_parse ''people/alice.md'' = Inr ?p" "length (as_str ?p) + 3 \<le> MAX_PATH_LENGTH"
    "\<not> suffix ''.md'' (as_str ?p)" "as_str ?p = ''people/alice''"
    by code_simp+
  then show ?thesis using page_path_round_trip [of "''people/alice.md''" ?p] by simp
qed

text \<open>
  A page whose own name ends in \<^verbatim>\<open>.md\<close> is not found again under its logical form: parsing
  that form strips the extension and yields a different page.
\<close>

theorem page_path_md_stem_unstable:
  assumes "wf_page_path p" "suffix ''.md'' (as_str p)"
  shows "page_path_parse (as_str p) \<noteq> Inr p"
  using assms by (auto simp: parse_Inr_iff)

theorem page_path_md_stem_unstable_witness:
  "page_path_parse ''notes/a.md.md'' = Inr (PagePath [''notes'', ''a.md'']) \<and>
   page_path_parse (as_str (PagePath [''notes'', ''a.md''])) \<noteq> Inr (PagePath [''notes'', ''a.md''])"
proof -
  have "page_path_parse ''notes/a.md.md'' = Inr (PagePath [''notes'', ''a.md''])"
    "wf_page_path (PagePath [''notes'', ''a.md''])" "suffix ''.md'' (as_str (PagePath [''notes'', ''a.md'']))"
    by code_simp+
  then show ?thesis using page_path_md_stem_unstable by blast
qed

end
