(* ===== verification/Frontmatter.thy ===== *)
theory Frontmatter
  imports Page_Path "HOL-Library.AList"
begin

text \<open>
  Page documents (\<^verbatim>\<open>services/memory_rs/src/frontmatter.rs\<close>) and the domain types of
  \<^verbatim>\<open>model.rs\<close>: parsing a stored document into its YAML frontmatter and Markdown body, rendering it
  again, and the revision digest of its bytes.

  The YAML library, the RFC 3339 functions of the date library and SHA-256 are not part of the
  program.  They are the fields of a record \<open>deps\<close> that the definitions take as an argument; the
  documented behaviour a property relies on is a hypothesis of that property.  Timestamps are the
  number of nanoseconds since the epoch.
\<close>

section \<open>Definitions\<close>

text \<open>\<^verbatim>\<open>serde_yaml_ng::Value\<close>: the variants the code distinguishes, and every other value by
  its text.  A mapping is the list of its entries.\<close>

datatype yaml =
    YString string
  | YSequence "yaml list"
  | YMapping "(yaml \<times> yaml) list"
  | YScalar string

type_synonym ymap = "(yaml \<times> yaml) list"
type_synonym datetime = int
type_synonym revision = string

record deps =
  yaml_from_str :: "string \<Rightarrow> (string, yaml) result"
  yaml_to_string :: "yaml \<Rightarrow> (string, string) result"
  value_from_u64 :: "nat \<Rightarrow> yaml"
  value_as_u64 :: "yaml \<Rightarrow> nat option"
  mapping_insert :: "ymap \<Rightarrow> yaml \<Rightarrow> yaml \<Rightarrow> ymap"
  mapping_remove :: "ymap \<Rightarrow> yaml \<Rightarrow> yaml option \<times> ymap"
  parse_rfc3339 :: "string \<Rightarrow> (string, datetime) result"
  to_rfc3339 :: "datetime \<Rightarrow> string"
  sha256 :: "bytes \<Rightarrow> bytes"
  to_lowercase :: "string \<Rightarrow> string"

definition SCHEMA_VERSION :: nat where "SCHEMA_VERSION = 1"

definition REVISION_HEX :: string where "REVISION_HEX = ''0123456789abcdef''"

definition revision_of :: "deps \<Rightarrow> bytes \<Rightarrow> revision" where
  "revision_of d bs =
     concat (map (\<lambda>b. [REVISION_HEX ! (byte_val b div 16), REVISION_HEX ! (byte_val b mod 16)]) (sha256 d bs))"

record page_metadata =
  schema_version :: nat
  title :: string
  tags :: "string list"
  created_at :: datetime
  updated_at :: datetime
  created_by :: "string option"
  updated_by :: "string option"
  extra :: ymap

record page =
  page_path_of :: page_path
  metadata :: page_metadata
  body :: string
  page_revision :: revision

definition FRONTMATTER_DELIMITER :: string where "FRONTMATTER_DELIMITER = ''---''"

abbreviation LF :: char where "LF \<equiv> CHR 0x0A"
abbreviation CR :: char where "CR \<equiv> CHR 0x0D"

text \<open>\<^verbatim>\<open>s.strip_prefix("\r\n").or_else(|| s.strip_prefix('\n'))\<close>.\<close>

definition strip_line_end :: "string \<Rightarrow> string option" where
  "strip_line_end s = (case strip_prefix [CR, LF] s of Some t \<Rightarrow> Some t | None \<Rightarrow> strip_prefix [LF] s)"

definition strip_opening_delimiter :: "string \<Rightarrow> string option" where
  "strip_opening_delimiter s =
     (case strip_prefix (''---'' @ [CR, LF]) s of Some t \<Rightarrow> Some t | None \<Rightarrow> strip_prefix (''---'' @ [LF]) s)"

function split_frontmatter_from :: "string \<Rightarrow> nat \<Rightarrow> (string \<times> string) option" where
  "split_frontmatter_from after_open search_start =
     (case find_sub (LF # ''---'') (drop search_start after_open) of
        None \<Rightarrow> None
      | Some relative \<Rightarrow>
          (let marker_index = search_start + relative;
               rest = drop (marker_index + 4) after_open in
           (case strip_line_end rest of
              None \<Rightarrow>
                (if rest = [] then Some (take marker_index after_open, [])
                 else split_frontmatter_from after_open (marker_index + 4))
            | Some after_delimiter_line \<Rightarrow>
                Some (take marker_index after_open,
                      case strip_line_end after_delimiter_line of
                        Some t \<Rightarrow> t | None \<Rightarrow> after_delimiter_line))))"
  by pat_completeness auto
termination
proof (relation "measure (\<lambda>(after_open, search_start). length after_open - search_start)", simp, goal_cases)
  case (1 after_open search_start relative)
  then show ?case using find_sub_bound [OF 1(1)] by auto
qed

declare split_frontmatter_from.simps [simp del]

definition split_frontmatter :: "string \<Rightarrow> (string \<times> string) option" where
  "split_frontmatter after_open = split_frontmatter_from after_open 0"

definition take_u64 :: "deps \<Rightarrow> ymap \<Rightarrow> string \<Rightarrow> nat option \<times> ymap" where
  "take_u64 d m key =
     (case mapping_remove d m (YString key) of (v, m') \<Rightarrow> (Option.bind v (value_as_u64 d), m'))"

definition as_string :: "yaml option \<Rightarrow> string option" where
  "as_string v = (case v of Some (YString s) \<Rightarrow> Some s | _ \<Rightarrow> None)"

definition take_string :: "deps \<Rightarrow> ymap \<Rightarrow> string \<Rightarrow> string option \<times> ymap" where
  "take_string d m key =
     (case mapping_remove d m (YString key) of (v, m') \<Rightarrow> (as_string v, m'))"

text \<open>\<^verbatim>\<open>collect::<Option<Vec<_>>>\<close>: one element that is not a string makes the whole \<open>None\<close>.\<close>

fun collect_strings :: "yaml list \<Rightarrow> string list option" where
  "collect_strings [] = Some []"
| "collect_strings (v # vs) =
     (case v of YString s \<Rightarrow> map_option (Cons s) (collect_strings vs) | _ \<Rightarrow> None)"

definition take_string_sequence :: "deps \<Rightarrow> ymap \<Rightarrow> string \<Rightarrow> string list option \<times> ymap" where
  "take_string_sequence d m key =
     (case mapping_remove d m (YString key) of
        (Some (YSequence items), m') \<Rightarrow> (collect_strings items, m')
      | (_, m') \<Rightarrow> (None, m'))"

definition take_datetime ::
  "deps \<Rightarrow> ymap \<Rightarrow> string \<Rightarrow> string \<Rightarrow> (memory_error, datetime option \<times> ymap) result" where
  "take_datetime d m key path_hint =
     (case mapping_remove d m (YString key) of
        (None, m') \<Rightarrow> Inr (None, m')
      | (Some v, m') \<Rightarrow>
          (let raw = (case v of
                 YString raw \<Rightarrow> raw
               | other \<Rightarrow> trim (case yaml_to_string d other of Inr s \<Rightarrow> s | Inl _ \<Rightarrow> []))
           in (case parse_rfc3339 d raw of
                 Inl e \<Rightarrow> Inl (InvalidFrontmatter path_hint
                            [Txt ''field '', Dbg key, Txt '' is not RFC 3339: '', Ext e])
               | Inr t \<Rightarrow> Inr (Some t, m'))))"

definition missing_field :: "string \<Rightarrow> string \<Rightarrow> memory_error" where
  "missing_field path_hint key =
     InvalidFrontmatter path_hint (lit (''missing required field '' @ [CHR 0x27] @ key @ [CHR 0x27]))"

definition parse_metadata :: "deps \<Rightarrow> string \<Rightarrow> string \<Rightarrow> (memory_error, page_metadata) result" where
  "parse_metadata d yaml_text path_hint =
     (case yaml_from_str d yaml_text of
        Inl e \<Rightarrow> Inl (Yaml e)
      | Inr (YMapping m0) \<Rightarrow>
          (let (sv, m1) = take_u64 d m0 ''schema_version'' in
           try_res (ok_or (missing_field path_hint ''schema_version'') sv) (\<lambda>sv.
           let (ti, m2) = take_string d m1 ''title'' in
           try_res (ok_or (missing_field path_hint ''title'') ti) (\<lambda>ti.
           let (tg, m3) = take_string_sequence d m2 ''tags'' in
           try_res (ok_or (missing_field path_hint ''tags'') tg) (\<lambda>tg.
           try_res (take_datetime d m3 ''created_at'' path_hint) (\<lambda>(ca, m4).
           try_res (ok_or (missing_field path_hint ''created_at'') ca) (\<lambda>ca.
           try_res (take_datetime d m4 ''updated_at'' path_hint) (\<lambda>(ua, m5).
           try_res (ok_or (missing_field path_hint ''updated_at'') ua) (\<lambda>ua.
           let (cb, m6) = take_string d m5 ''created_by'';
               (ub, m7) = take_string d m6 ''updated_by'' in
           Inr \<lparr>schema_version = sv, title = ti, tags = tg, created_at = ca, updated_at = ua,
                created_by = cb, updated_by = ub, extra = m7\<rparr>))))))))
      | Inr _ \<Rightarrow> Inl (InvalidFrontmatter path_hint (lit ''frontmatter must be a YAML mapping'')))"

definition parse_document ::
  "deps \<Rightarrow> bytes \<Rightarrow> string \<Rightarrow> (memory_error, page_metadata \<times> string) result" where
  "parse_document d bs path_hint =
     try_res (ok_or (InvalidFrontmatter path_hint (lit ''content must be UTF-8'')) (from_utf8 bs)) (\<lambda>txt.
     try_res (ok_or (InvalidFrontmatter path_hint (lit ''missing opening '---' frontmatter delimiter''))
                (strip_opening_delimiter txt)) (\<lambda>after_open.
     try_res (ok_or (InvalidFrontmatter path_hint (lit ''missing closing '---' frontmatter delimiter''))
                (split_frontmatter after_open)) (\<lambda>(yaml_text, bd).
     try_res (parse_metadata d yaml_text path_hint) (\<lambda>md. Inr (md, bd)))))"

text \<open>\<^verbatim>\<open>trim_end_matches('\n')\<close>.\<close>

definition trim_newlines :: "string \<Rightarrow> string" where
  "trim_newlines s = rev (dropWhile (\<lambda>c. c = LF) (rev s))"

definition normalize_body :: "string \<Rightarrow> string" where
  "normalize_body s = (let trimmed = trim_newlines s in if trimmed = [] then [] else trimmed @ [LF])"

definition insert_opt :: "deps \<Rightarrow> string \<Rightarrow> string option \<Rightarrow> ymap \<Rightarrow> ymap" where
  "insert_opt d key v m = (case v of None \<Rightarrow> m | Some s \<Rightarrow> mapping_insert d m (YString key) (YString s))"

definition metadata_mapping :: "deps \<Rightarrow> page_metadata \<Rightarrow> ymap" where
  "metadata_mapping d md =
     (let m1 = mapping_insert d [] (YString ''schema_version'') (value_from_u64 d (schema_version md));
          m2 = mapping_insert d m1 (YString ''title'') (YString (title md));
          m3 = mapping_insert d m2 (YString ''tags'') (YSequence (map YString (tags md)));
          m4 = mapping_insert d m3 (YString ''created_at'') (YString (to_rfc3339 d (created_at md)));
          m5 = mapping_insert d m4 (YString ''updated_at'') (YString (to_rfc3339 d (updated_at md)));
          m6 = insert_opt d ''created_by'' (created_by md) m5;
          m7 = insert_opt d ''updated_by'' (updated_by md) m6
      in foldl (\<lambda>m (k, v). mapping_insert d m k v) m7 (extra md))"

definition render_document :: "deps \<Rightarrow> page_metadata \<Rightarrow> string \<Rightarrow> (memory_error, bytes) result" where
  "render_document d md bd =
     (case yaml_to_string d (YMapping (metadata_mapping d md)) of
        Inl e \<Rightarrow> Inl (Yaml e)
      | Inr yml \<Rightarrow>
          (let normalized_body = normalize_body bd in
           Inr (FRONTMATTER_DELIMITER @ [LF] @ yml @ FRONTMATTER_DELIMITER @ [LF]
                @ (if normalized_body = [] then [] else LF # normalized_body))))"

section \<open>The document frame\<close>

definition doc_marker :: string where "doc_marker = LF # ''---''"

lemma marker_overlap:
  assumes "prefix doc_marker (z @ doc_marker @ r)" "z \<noteq> []"
  shows "prefix doc_marker z"
proof -
  consider a where "z = [a]" | a b where "z = [a, b]" | a b c where "z = [a, b, c]"
    | a b c e z' where "z = a # b # c # e # z'"
    using assms(2) by (cases z; cases "tl z"; cases "tl (tl z)"; cases "tl (tl (tl z))") auto
  then show ?thesis using assms(1) by cases (auto simp: doc_marker_def)
qed

lemma find_marker:
  assumes "\<not> contains_sub doc_marker y"
  shows "find_sub doc_marker (y @ doc_marker @ r) = Some (length y)"
proof (rule find_sub_first)
  have "\<not> prefix doc_marker (drop m (y @ doc_marker @ r))" if "m < length y" for m
  proof
    assume "prefix doc_marker (drop m (y @ doc_marker @ r))"
    then have "prefix doc_marker (drop m y @ doc_marker @ r)" using that by simp
    from marker_overlap [OF this] that have "prefix doc_marker (drop m y)" by simp
    then obtain v where "drop m y = doc_marker @ v" by (auto simp: prefix_def)
    then have "y = take m y @ doc_marker @ v" by (metis append_take_drop_id)
    then have "contains_sub doc_marker y" by (auto simp: contains_sub_iff)
    with assms show False by blast
  qed
  then show "\<forall>m<length y. \<not> prefix doc_marker (drop m (y @ doc_marker @ r))" by blast
qed auto

lemma split_frontmatter_frame:
  assumes "\<not> contains_sub doc_marker y"
  shows "split_frontmatter (y @ doc_marker @ LF # r) =
     Some (y, case strip_line_end r of Some t \<Rightarrow> t | None \<Rightarrow> r)"
proof -
  have "find_sub (LF # ''---'') (y @ LF # ''---'' @ LF # r) = Some (length y)"
    using find_marker [OF assms, of "LF # r"] by (simp add: doc_marker_def)
  then show ?thesis
    by (simp add: split_frontmatter_def split_frontmatter_from.simps [of _ 0] doc_marker_def strip_line_end_def
        strip_prefix_def)
qed

lemma strip_line_end_LF [simp]: "strip_line_end (LF # s) = Some s" "strip_line_end [] = None"
  by (simp_all add: strip_line_end_def strip_prefix_def)

lemma strip_opening_frame [simp]: "strip_opening_delimiter (''---'' @ LF # s) = Some s"
  by (simp add: strip_opening_delimiter_def strip_prefix_def)

section \<open>Bodies\<close>

lemma trim_newlines_decomp: "\<exists>n. s = trim_newlines s @ replicate n LF"
proof -
  have "rev s = takeWhile (\<lambda>c. c = LF) (rev s) @ rev (trim_newlines s)"
    by (simp add: trim_newlines_def)
  moreover have "takeWhile (\<lambda>c. c = LF) (rev s) = replicate (length (takeWhile (\<lambda>c. c = LF) (rev s))) LF"
    by (rule replicate_length_same [symmetric]) (auto dest: set_takeWhileD)
  ultimately have "rev (rev s) = rev (replicate (length (takeWhile (\<lambda>c. c = LF) (rev s))) LF @ rev (trim_newlines s))"
    by simp
  then show ?thesis by auto
qed

lemma trim_newlines_last: "trim_newlines s \<noteq> [] \<Longrightarrow> last (trim_newlines s) \<noteq> LF"
proof -
  assume "trim_newlines s \<noteq> []"
  then have "dropWhile (\<lambda>c. c = LF) (rev s) \<noteq> []" by (simp add: trim_newlines_def)
  then show ?thesis using hd_dropWhile [of "\<lambda>c. c = LF" "rev s"] by (simp add: trim_newlines_def last_rev)
qed

lemma trim_newlines_append: "trim_newlines (s @ [LF]) = trim_newlines s"
  by (simp add: trim_newlines_def)

lemma trim_newlines_fixed: "s \<noteq> [] \<Longrightarrow> last s \<noteq> LF \<Longrightarrow> trim_newlines s = s"
  by (cases s rule: rev_cases) (auto simp: trim_newlines_def)

lemma trim_newlines_Nil [simp]: "trim_newlines [] = []"
  by (simp add: trim_newlines_def)

lemma normalize_body_idem: "normalize_body (normalize_body s) = normalize_body s"
proof (cases "trim_newlines s = []")
  case False
  then have "trim_newlines (trim_newlines s) = trim_newlines s"
    by (intro trim_newlines_fixed trim_newlines_last)
  with False show ?thesis by (simp add: normalize_body_def trim_newlines_append)
qed (simp add: normalize_body_def)

lemma is_utf8_ascii_tail: "byte_val c < 0x80 \<Longrightarrow> is_utf8 (s @ [c]) = is_utf8 s"
  by (induction s rule: is_utf8.induct)
     (auto simp: is_cont_def in_range_def split: list.splits)

lemma is_utf8_newlines: "is_utf8 (s @ replicate n LF) = is_utf8 s"
proof (induction n)
  case (Suc n)
  have "s @ replicate (Suc n) LF = (s @ replicate n LF) @ [LF]" by (simp add: replicate_append_same)
  also have "is_utf8 \<dots> = is_utf8 s" using Suc by (subst is_utf8_ascii_tail) (simp_all add: byte_val_def)
  finally show ?case .
qed simp

lemma is_utf8_normalize_body: "is_utf8 s \<Longrightarrow> is_utf8 (normalize_body s)"
proof -
  assume s: "is_utf8 s"
  obtain n where "s = trim_newlines s @ replicate n LF" using trim_newlines_decomp by blast
  then have "is_utf8 (trim_newlines s)" using s is_utf8_newlines by metis
  then show ?thesis by (simp add: normalize_body_def Let_def is_utf8_ascii_tail byte_val_def)
qed

section \<open>Metadata\<close>

text \<open>What the code relies on in the libraries: a mapping keeps its keys distinct and behaves as a
  finite map under insertion and removal.\<close>

definition mapping_laws :: "deps \<Rightarrow> bool" where
  "mapping_laws d \<longleftrightarrow>
     (\<forall>m k v. distinct (map fst m) \<longrightarrow>
        distinct (map fst (mapping_insert d m k v)) \<and> map_of (mapping_insert d m k v) = (map_of m)(k \<mapsto> v) \<and>
        fst (mapping_remove d m k) = map_of m k \<and>
        distinct (map fst (snd (mapping_remove d m k))) \<and>
        map_of (snd (mapping_remove d m k)) = (map_of m)(k := None))"

lemma mapping_insertD:
  assumes "mapping_laws d" "distinct (map fst m)"
  shows "distinct (map fst (mapping_insert d m k v))" "map_of (mapping_insert d m k v) = (map_of m)(k \<mapsto> v)"
  using assms by (auto simp: mapping_laws_def)

lemma mapping_removeD:
  assumes "mapping_laws d" "distinct (map fst m)" "mapping_remove d m k = (v, m')"
  shows "v = map_of m k" "distinct (map fst m')" "map_of m' = (map_of m)(k := None)"
  using assms unfolding mapping_laws_def by (metis fst_conv snd_conv)+

definition reserved_keys :: "string list" where
  "reserved_keys = [''schema_version'', ''title'', ''tags'', ''created_at'', ''updated_at'', ''created_by'', ''updated_by'']"

text \<open>A document's mapping, read as a finite map, determines the metadata.\<close>

definition metadata_of_map :: "deps \<Rightarrow> (yaml \<rightharpoonup> yaml) \<Rightarrow> page_metadata \<Rightarrow> bool" where
  "metadata_of_map d f md \<longleftrightarrow>
     Option.bind (f (YString ''schema_version'')) (value_as_u64 d) = Some (schema_version md) \<and>
     f (YString ''title'') = Some (YString (title md)) \<and>
     f (YString ''tags'') = Some (YSequence (map YString (tags md))) \<and>
     (\<exists>s. f (YString ''created_at'') = Some (YString s) \<and> parse_rfc3339 d s = Inr (created_at md)) \<and>
     (\<exists>s. f (YString ''updated_at'') = Some (YString s) \<and> parse_rfc3339 d s = Inr (updated_at md)) \<and>
     as_string (f (YString ''created_by'')) = created_by md \<and>
     as_string (f (YString ''updated_by'')) = updated_by md"

lemma as_string_simps [simp]: "as_string None = None" "as_string (Some (YString s)) = Some s"
  by (simp_all add: as_string_def)

lemma collect_strings_map [simp]: "collect_strings (map YString ss) = Some ss"
  by (induction ss) auto

lemma parse_metadata_of_map:
  assumes d: "mapping_laws d" and m: "distinct (map fst m)" and y: "yaml_from_str d yml = Inr (YMapping m)"
    and md: "metadata_of_map d (map_of m) md"
  shows "\<exists>ex. parse_metadata d yml hint = Inr (md\<lparr>extra := ex\<rparr>) \<and>
     map_of ex = map_of m |` (- YString ` set reserved_keys)"
proof -
  obtain v1 m1 where r1: "mapping_remove d m (YString ''schema_version'') = (v1, m1)" by force
  note f1 = mapping_removeD [OF d m r1]
  obtain v2 m2 where r2: "mapping_remove d m1 (YString ''title'') = (v2, m2)" by force
  note f2 = mapping_removeD [OF d f1(2) r2]
  obtain v3 m3 where r3: "mapping_remove d m2 (YString ''tags'') = (v3, m3)" by force
  note f3 = mapping_removeD [OF d f2(2) r3]
  obtain v4 m4 where r4: "mapping_remove d m3 (YString ''created_at'') = (v4, m4)" by force
  note f4 = mapping_removeD [OF d f3(2) r4]
  obtain v5 m5 where r5: "mapping_remove d m4 (YString ''updated_at'') = (v5, m5)" by force
  note f5 = mapping_removeD [OF d f4(2) r5]
  obtain v6 m6 where r6: "mapping_remove d m5 (YString ''created_by'') = (v6, m6)" by force
  note f6 = mapping_removeD [OF d f5(2) r6]
  obtain v7 m7 where r7: "mapping_remove d m6 (YString ''updated_by'') = (v7, m7)" by force
  note f7 = mapping_removeD [OF d f6(2) r7]
  note maps = f1(3) f2(3) f3(3) f4(3) f5(3) f6(3) f7(3) and vals = f1(1) f2(1) f3(1) f4(1) f5(1) f6(1) f7(1)
  have "parse_metadata d yml hint = Inr (md\<lparr>extra := m7\<rparr>)"
    using md by (auto simp: parse_metadata_def y take_u64_def r1 take_string_def r2 take_string_sequence_def r3
        take_datetime_def r4 r5 r6 r7 vals maps metadata_of_map_def)
  moreover have "map_of m7 = map_of m |` (- YString ` set reserved_keys)"
    by (rule ext) (auto simp: maps reserved_keys_def restrict_map_def)
  ultimately show ?thesis by blast
qed

text \<open>The mapping that rendering builds, as a finite map.\<close>

lemma foldl_insert:
  assumes "mapping_laws d" "distinct (map fst m)" "distinct (map fst xs)"
  shows "distinct (map fst (foldl (\<lambda>m (k, v). mapping_insert d m k v) m xs)) \<and>
    map_of (foldl (\<lambda>m (k, v). mapping_insert d m k v) m xs) = map_of m ++ map_of xs"
  using assms(2,3)
proof (induction xs arbitrary: m)
  case (Cons x xs)
  obtain k v where x: "x = (k, v)" by (cases x)
  let ?m' = "mapping_insert d m k v"
  have m': "distinct (map fst ?m')" "map_of ?m' = (map_of m)(k \<mapsto> v)"
    using Cons.prems(1) by (simp_all add: mapping_insertD [OF assms(1)])
  have "map_of xs k = None" using Cons.prems(2) by (simp add: x map_of_eq_None_iff)
  then have upd: "map_of ?m' ++ map_of xs = map_of m ++ map_of (x # xs)"
    by (auto simp: m'(2) x map_add_def fun_eq_iff split: option.splits)
  have step: "foldl (\<lambda>m (k, v). mapping_insert d m k v) m (x # xs) = foldl (\<lambda>m (k, v). mapping_insert d m k v) ?m' xs"
    by (simp add: x)
  show ?case unfolding step upd [symmetric] using Cons.prems(2) by (intro Cons.IH m'(1)) simp
qed simp

lemma insert_opt_map:
  assumes "mapping_laws d" "distinct (map fst m)"
  shows "distinct (map fst (insert_opt d key v m)) \<and>
    map_of (insert_opt d key v m) = (map_of m)(YString key := (case v of None \<Rightarrow> map_of m (YString key) | Some s \<Rightarrow> Some (YString s)))"
  using assms by (auto simp: insert_opt_def mapping_insertD split: option.splits)

definition known_fields :: "deps \<Rightarrow> page_metadata \<Rightarrow> (yaml \<rightharpoonup> yaml)" where
  "known_fields d md =
     [YString ''schema_version'' \<mapsto> value_from_u64 d (schema_version md),
      YString ''title'' \<mapsto> YString (title md),
      YString ''tags'' \<mapsto> YSequence (map YString (tags md)),
      YString ''created_at'' \<mapsto> YString (to_rfc3339 d (created_at md)),
      YString ''updated_at'' \<mapsto> YString (to_rfc3339 d (updated_at md))]
     (YString ''created_by'' := map_option YString (created_by md),
      YString ''updated_by'' := map_option YString (updated_by md))"

lemma metadata_mapping_map:
  assumes "mapping_laws d" "distinct (map fst (extra md))"
  shows "distinct (map fst (metadata_mapping d md)) \<and>
    map_of (metadata_mapping d md) = known_fields d md ++ map_of (extra md)"
proof -
  let ?m1 = "mapping_insert d [] (YString ''schema_version'') (value_from_u64 d (schema_version md))"
  let ?m2 = "mapping_insert d ?m1 (YString ''title'') (YString (title md))"
  let ?m3 = "mapping_insert d ?m2 (YString ''tags'') (YSequence (map YString (tags md)))"
  let ?m4 = "mapping_insert d ?m3 (YString ''created_at'') (YString (to_rfc3339 d (created_at md)))"
  let ?m5 = "mapping_insert d ?m4 (YString ''updated_at'') (YString (to_rfc3339 d (updated_at md)))"
  let ?m6 = "insert_opt d ''created_by'' (created_by md) ?m5"
  let ?m7 = "insert_opt d ''updated_by'' (updated_by md) ?m6"
  have dist: "distinct (map fst ?m5)" by (intro mapping_insertD(1) [OF assms(1)]) simp
  have "distinct (map fst ?m7) \<and> map_of ?m7 = known_fields d md"
    using dist insert_opt_map [OF assms(1), of ?m5] insert_opt_map [OF assms(1), of ?m6]
    by (auto simp: known_fields_def fun_eq_iff mapping_insertD [OF assms(1)] split: option.splits)
  then show ?thesis
    using foldl_insert [OF assms(1), of ?m7 "extra md"] assms(2)
    by (simp add: metadata_mapping_def Let_def)
qed

text \<open>Whatever a document holds, the fields kept aside as \<^verbatim>\<open>extra\<close> never include a reserved
  one.\<close>

lemma parse_metadata_extra:
  assumes d: "mapping_laws d" and y: "\<And>m. yaml_from_str d yml = Inr (YMapping m) \<Longrightarrow> distinct (map fst m)"
    and md: "parse_metadata d yml hint = Inr md"
  shows "distinct (map fst (extra md)) \<and> fst ` set (extra md) \<inter> YString ` set reserved_keys = {}"
proof -
  obtain m where m: "yaml_from_str d yml = Inr (YMapping m)"
    using md by (auto simp: parse_metadata_def split: sum.splits yaml.splits)
  note dist = y [OF m]
  obtain v1 m1 where r1: "mapping_remove d m (YString ''schema_version'') = (v1, m1)" by force
  note f1 = mapping_removeD [OF d dist r1]
  obtain v2 m2 where r2: "mapping_remove d m1 (YString ''title'') = (v2, m2)" by force
  note f2 = mapping_removeD [OF d f1(2) r2]
  obtain v3 m3 where r3: "mapping_remove d m2 (YString ''tags'') = (v3, m3)" by force
  note f3 = mapping_removeD [OF d f2(2) r3]
  obtain v4 m4 where r4: "mapping_remove d m3 (YString ''created_at'') = (v4, m4)" by force
  note f4 = mapping_removeD [OF d f3(2) r4]
  obtain v5 m5 where r5: "mapping_remove d m4 (YString ''updated_at'') = (v5, m5)" by force
  note f5 = mapping_removeD [OF d f4(2) r5]
  obtain v6 m6 where r6: "mapping_remove d m5 (YString ''created_by'') = (v6, m6)" by force
  note f6 = mapping_removeD [OF d f5(2) r6]
  obtain v7 m7 where r7: "mapping_remove d m6 (YString ''updated_by'') = (v7, m7)" by force
  note f7 = mapping_removeD [OF d f6(2) r7]
  have "extra md = m7"
    using md by (auto simp: parse_metadata_def m take_u64_def r1 take_string_def r2 take_string_sequence_def r3
        take_datetime_def r4 r5 r6 r7 try_res_Inr_iff Let_def
        split: sum.splits option.splits yaml.splits prod.splits)
  moreover have "map_of m7 (YString k) = None" if "k \<in> set reserved_keys" for k
    using that by (auto simp: reserved_keys_def f1(3) f2(3) f3(3) f4(3) f5(3) f6(3) f7(3))
  ultimately show ?thesis using f7(2) by (force simp: map_of_eq_None_iff)
qed

section \<open>Properties\<close>

text \<open>What the code relies on for one value: the emitted text ends in a newline and has no line that starts
  with the document marker, and the parser gives the value back.  The parser is handed the text without its final
  newline, since that newline is the one before the closing marker; so this is a condition on the value, and more than
  the documented round trip of the library.  A value whose text depends on its final newline, for example one whose last
  string is written as a block scalar that ends in newlines, does not meet it.\<close>

definition yaml_round_trips :: "deps \<Rightarrow> yaml \<Rightarrow> bool" where
  "yaml_round_trips d v \<longleftrightarrow>
     (case yaml_to_string d v of
        Inl _ \<Rightarrow> False
      | Inr out \<Rightarrow> out \<noteq> [] \<and> last out = LF \<and> is_utf8 (butlast out) \<and> \<not> contains_sub doc_marker (butlast out) \<and>
          yaml_from_str d (butlast out) = Inr v)"

text \<open>The same for the two date functions and the number of the schema version.\<close>

definition fields_round_trip :: "deps \<Rightarrow> page_metadata \<Rightarrow> bool" where
  "fields_round_trip d md \<longleftrightarrow>
     value_as_u64 d (value_from_u64 d (schema_version md)) = Some (schema_version md) \<and>
     parse_rfc3339 d (to_rfc3339 d (created_at md)) = Inr (created_at md) \<and>
     parse_rfc3339 d (to_rfc3339 d (updated_at md)) = Inr (updated_at md)"

definition wf_extra :: "page_metadata \<Rightarrow> bool" where
  "wf_extra md \<longleftrightarrow> distinct (map fst (extra md)) \<and> list_all (\<lambda>k. YString k \<notin> fst ` set (extra md)) reserved_keys"

lemma metadata_of_map_cong:
  "\<forall>k \<in> set reserved_keys. f (YString k) = g (YString k) \<Longrightarrow> metadata_of_map d f md = metadata_of_map d g md"
  by (simp add: metadata_of_map_def reserved_keys_def)

lemma as_string_map_option [simp]: "as_string (map_option YString v) = v"
  by (cases v) auto

lemma metadata_of_known_fields: "fields_round_trip d md \<Longrightarrow> metadata_of_map d (known_fields d md) md"
  by (simp add: metadata_of_map_def known_fields_def fields_round_trip_def)

lemma known_fields_None: "k \<notin> YString ` set reserved_keys \<Longrightarrow> known_fields d md k = None"
  by (auto simp: known_fields_def reserved_keys_def)

lemma render_parse_document:
  assumes d: "mapping_laws d" and y: "yaml_round_trips d (YMapping (metadata_mapping d md))"
    and f: "fields_round_trip d md" and ex: "wf_extra md" and utf8: "is_utf8 bd"
  shows "\<exists>bs e. render_document d md bd = Inr bs \<and>
    parse_document d bs hint = Inr (md\<lparr>extra := e\<rparr>, normalize_body bd) \<and> map_of e = map_of (extra md)"
proof -
  let ?m = "metadata_mapping d md"
  obtain yml where yml: "yaml_to_string d (YMapping ?m) = Inr (yml @ [LF])"
    and yok: "is_utf8 yml" "\<not> contains_sub doc_marker yml" "yaml_from_str d yml = Inr (YMapping ?m)"
    using y by (auto simp: yaml_round_trips_def split: sum.splits) (metis append_butlast_last_id)
  let ?tail = "if normalize_body bd = [] then [] else LF # normalize_body bd"
  let ?bs = "''---'' @ LF # (yml @ doc_marker @ LF # ?tail)"
  have render: "render_document d md bd = Inr ?bs"
    by (simp add: render_document_def yml FRONTMATTER_DELIMITER_def Let_def doc_marker_def)
  have "is_utf8 ?tail"
    using is_utf8_normalize_body [OF utf8] by (auto simp: byte_val_def)
  then have bs_utf8: "is_utf8 ?bs"
    using is_utf8_append [OF yok(1)] by (simp add: doc_marker_def byte_val_def)
  have body: "(case strip_line_end ?tail of Some t \<Rightarrow> t | None \<Rightarrow> ?tail) = normalize_body bd" by simp
  have maps: "distinct (map fst ?m)" "map_of ?m = known_fields d md ++ map_of (extra md)"
    using metadata_mapping_map [OF d, of md] ex by (auto simp: wf_extra_def)
  have none: "map_of (extra md) (YString k) = None" if "k \<in> set reserved_keys" for k
    using ex that by (auto simp: wf_extra_def map_of_eq_None_iff list_all_iff)
  have "metadata_of_map d (map_of ?m) md \<longleftrightarrow> metadata_of_map d (known_fields d md) md"
    by (rule metadata_of_map_cong) (simp add: maps(2) map_add_def none)
  then have "metadata_of_map d (map_of ?m) md" using metadata_of_known_fields [OF f] by simp
  then obtain e where e: "parse_metadata d yml hint = Inr (md\<lparr>extra := e\<rparr>)"
      "map_of e = map_of ?m |` (- YString ` set reserved_keys)"
    using parse_metadata_of_map [OF d maps(1) yok(3)] by blast
  have "map_of e k = map_of (extra md) k" for k
  proof (cases "k \<in> YString ` set reserved_keys")
    case True
    then show ?thesis using none by (auto simp: e(2))
  next
    case False
    then show ?thesis
      by (simp add: e(2) maps(2) map_add_def known_fields_None split: option.splits)
  qed
  then have "map_of e = map_of (extra md)" by (rule ext)
  moreover have "parse_document d ?bs hint = Inr (md\<lparr>extra := e\<rparr>, normalize_body bd)"
    using bs_utf8 split_frontmatter_frame [OF yok(2), of ?tail] body e(1)
    by (simp add: parse_document_def from_utf8_def del: append_Cons)
  ultimately show ?thesis using render by blast
qed

text \<open>An instance of the libraries that handles one document: mappings are association lists and the
  YAML functions know one value and its text.\<close>

definition table_deps :: "yaml \<Rightarrow> string \<Rightarrow> deps" where
  "table_deps v out = \<lparr>
     yaml_from_str = (\<lambda>s. if s = butlast out then Inr v else Inl ''unknown document''),
     yaml_to_string = (\<lambda>u. if u = v then Inr out else Inl ''unknown value''),
     value_from_u64 = (\<lambda>n. YScalar (replicate n CHR 0x31)),
     value_as_u64 = (\<lambda>u. case u of YScalar s \<Rightarrow> Some (length s) | _ \<Rightarrow> None),
     mapping_insert = (\<lambda>m k x. AList.update k x m),
     mapping_remove = (\<lambda>m k. (map_of m k, AList.delete k m)),
     parse_rfc3339 = (\<lambda>s. Inr (int (length s))),
     to_rfc3339 = (\<lambda>t. replicate (nat t) CHR 0x30),
     sha256 = (\<lambda>bs. bs),
     to_lowercase = (\<lambda>s. s)\<rparr>"

lemma table_deps_mapping_laws: "mapping_laws (table_deps v out)"
  by (auto simp: mapping_laws_def table_deps_def update_conv' delete_conv' distinct_update distinct_delete)

definition sample_metadata :: page_metadata where
  "sample_metadata = \<lparr>schema_version = 1, title = ''Alice'', tags = [''person''], created_at = 3, updated_at = 5,
     created_by = Some ''agent'', updated_by = None, extra = [(YString ''source'', YString ''import'')]\<rparr>"

definition sample_yaml :: string where
  "sample_yaml = ''schema_version: 1'' @ [LF] @ ''title: Alice'' @ [LF] @ ''tags: [person]'' @ [LF]
     @ ''created_at: 3'' @ [LF] @ ''updated_at: 5'' @ [LF] @ ''created_by: agent'' @ [LF] @ ''source: import'' @ [LF]"

definition sample_mapping :: ymap where
  "sample_mapping = [(YString ''schema_version'', YScalar ''1''), (YString ''title'', YString ''Alice''),
     (YString ''tags'', YSequence [YString ''person'']), (YString ''created_at'', YString ''000''),
     (YString ''updated_at'', YString ''00000''), (YString ''created_by'', YString ''agent''),
     (YString ''source'', YString ''import'')]"

definition sample_deps :: deps where
  "sample_deps = table_deps (YMapping sample_mapping) sample_yaml"

text \<open>
  (C15) Rendering a page and parsing the bytes again gives back the metadata and the body in its
  normal form; the unknown fields come back as the same finite map.
\<close>

theorem document_round_trip:
  assumes "mapping_laws d" "yaml_round_trips d (YMapping (metadata_mapping d md))"
    and "fields_round_trip d md" "wf_extra md" "is_utf8 bd"
  shows "\<exists>bs e. render_document d md bd = Inr bs \<and>
    parse_document d bs hint = Inr (md\<lparr>extra := e\<rparr>, normalize_body bd) \<and> map_of e = map_of (extra md)"
  using assms by (rule render_parse_document)

theorem document_round_trip_witness:
  "\<exists>bs e. render_document sample_deps sample_metadata ''hello'' = Inr bs \<and>
    parse_document sample_deps bs ''people/alice'' = Inr (sample_metadata\<lparr>extra := e\<rparr>, ''hello'' @ [LF]) \<and>
    map_of e = map_of [(YString ''source'', YString ''import'')]"
proof -
  have m: "metadata_mapping sample_deps sample_metadata = sample_mapping" by code_simp
  have laws: "mapping_laws sample_deps" by (simp add: sample_deps_def table_deps_mapping_laws)
  have "yaml_to_string sample_deps (YMapping sample_mapping) = Inr sample_yaml"
    "yaml_from_str sample_deps (butlast sample_yaml) = Inr (YMapping sample_mapping)"
    by (simp_all add: sample_deps_def table_deps_def)
  moreover have "sample_yaml \<noteq> []" "last sample_yaml = LF" "is_utf8 (butlast sample_yaml)"
    "\<not> contains_sub doc_marker (butlast sample_yaml)" by code_simp+
  ultimately have y: "yaml_round_trips sample_deps (YMapping (metadata_mapping sample_deps sample_metadata))"
    by (simp add: m yaml_round_trips_def)
  have f: "fields_round_trip sample_deps sample_metadata" "wf_extra sample_metadata" "is_utf8 ''hello''"
    "normalize_body ''hello'' = ''hello'' @ [LF]" "extra sample_metadata = [(YString ''source'', YString ''import'')]"
    by code_simp+
  show ?thesis
    using document_round_trip [OF laws y f(1-3), of "''people/alice''"] unfolding f(4,5) .
qed

text \<open>
  The stored form of a body ends in exactly one newline or is empty, is a fixed point of the
  normalisation, and differs from the given body only in trailing newlines.
\<close>

theorem normalize_body_canonical:
  "normalize_body (normalize_body s) = normalize_body s \<and>
   (normalize_body s = [] \<or> (\<exists>t. normalize_body s = t @ [LF] \<and> t \<noteq> [] \<and> last t \<noteq> LF)) \<and>
   (\<exists>t m n. s = t @ replicate m LF \<and> normalize_body s = t @ replicate n LF)"
proof -
  obtain m where m: "s = trim_newlines s @ replicate m LF" using trim_newlines_decomp by blast
  have "\<exists>t m n. s = t @ replicate m LF \<and> normalize_body s = t @ replicate n LF"
    by (intro exI [of _ "trim_newlines s"] exI [of _ m] exI [of _ "if trim_newlines s = [] then 0 else 1"])
       (use m in \<open>auto simp: normalize_body_def Let_def\<close>)
  moreover have "normalize_body s = [] \<or> (\<exists>t. normalize_body s = t @ [LF] \<and> t \<noteq> [] \<and> last t \<noteq> LF)"
    using trim_newlines_last [of s] by (auto simp: normalize_body_def Let_def)
  ultimately show ?thesis using normalize_body_idem [of s] by blast
qed

end
