(* ===== verification/Config_Document.thy ===== *)
theory Config_Document
  imports Client_Models Frontmatter
begin

text \<open>
  The configuration document of the client service (\<^verbatim>\<open>services/client_service_rs/src/config\<close>, files
  \<^verbatim>\<open>value.rs\<close>, \<^verbatim>\<open>document.rs\<close>, \<^verbatim>\<open>canonical.rs\<close> and \<^verbatim>\<open>error.rs\<close>): secret names, literal-or-secret
  values, the resources, their canonical order, and the errors.

  The YAML, JSON and hash libraries, with the (de)serialisers that \<^verbatim>\<open>serde\<close> derives, are the fields of the
  record \<open>codecs\<close>.
\<close>

section \<open>Values\<close>

text \<open>\<^verbatim>\<open>InvalidSecretName\<close> carries the rejected text.\<close>

datatype invalid_secret_name = InvalidSecretName string

definition display_invalid_secret_name :: "invalid_secret_name \<Rightarrow> message" where
  "display_invalid_secret_name e =
     (case e of InvalidSecretName v \<Rightarrow> [Txt ''secret name must match [A-Z][A-Z0-9_]*, got '', Dbg v])"

fun secret_name_valid :: "string \<Rightarrow> bool" where
  "secret_name_valid [] = False"
| "secret_name_valid (c # s) \<longleftrightarrow>
     is_ascii_uppercase c \<and> list_all (\<lambda>b. is_ascii_uppercase b \<or> is_ascii_digit b \<or> b = CHR ''_'') s"

definition secret_name_new :: "string \<Rightarrow> (invalid_secret_name, secret_name) result" where
  "secret_name_new v = (if secret_name_valid v then Inr v else Inl (InvalidSecretName v))"

datatype 'a config_value = Literal 'a | Secret secret_name

fun as_literal :: "'a config_value \<Rightarrow> 'a option" where
  "as_literal (Literal v) = Some v"
| "as_literal (Secret _) = None"

fun secret_name_of :: "'a config_value \<Rightarrow> secret_name option" where
  "secret_name_of (Secret n) = Some n"
| "secret_name_of (Literal _) = None"

fun is_secret :: "'a config_value \<Rightarrow> bool" where
  "is_secret (Secret _) = True"
| "is_secret (Literal _) = False"

text \<open>\<^verbatim>\<open>impl Serialize\<close> and \<^verbatim>\<open>impl Deserialize\<close> for \<^verbatim>\<open>ConfigValue<T>\<close>, given those of \<^verbatim>\<open>T\<close>.\<close>

fun config_value_to_yaml :: "('a \<Rightarrow> yaml) \<Rightarrow> 'a config_value \<Rightarrow> yaml" where
  "config_value_to_yaml ser (Literal v) = ser v"
| "config_value_to_yaml ser (Secret n) = YMapping [(YString ''secretRef'', YString n)]"

definition yaml_as_str :: "yaml \<Rightarrow> string option" where
  "yaml_as_str v = (case v of YString s \<Rightarrow> Some s | _ \<Rightarrow> None)"

definition config_value_of_yaml :: "(yaml \<Rightarrow> (string, 'a) result) \<Rightarrow> yaml \<Rightarrow> (message, 'a config_value) result" where
  "config_value_of_yaml de v =
     (case (case v of YMapping m \<Rightarrow> map_of m (YString ''secretRef'') | _ \<Rightarrow> None) of
        Some secret_value \<Rightarrow>
          (if (case v of YMapping m \<Rightarrow> length m | _ \<Rightarrow> 0) \<noteq> 1 then
             Inl (lit ''a secretRef object must contain only the 'secretRef' key'')
           else (case yaml_as_str secret_value of
               None \<Rightarrow> Inl (lit ''secretRef value must be a string secret name'')
             | Some name \<Rightarrow>
                 (case secret_name_new name of
                    Inl e \<Rightarrow> Inl (display_invalid_secret_name e)
                  | Inr n \<Rightarrow> Inr (Secret n))))
      | None \<Rightarrow> (case de v of Inl e \<Rightarrow> Inl [Ext e] | Inr x \<Rightarrow> Inr (Literal x)))"

section \<open>Resources\<close>

definition API_VERSION :: string where "API_VERSION = ''agentspace.dev/v1alpha1''"
definition KIND_AGGREGATE :: string where "KIND_AGGREGATE = ''AgentSpaceConfig''"
definition DEFAULT_METADATA_NAME :: string where "DEFAULT_METADATA_NAME = ''local''"

type_synonym env_map = "string config_value btree"

record secret_declaration =
  sd_name :: secret_name
  sd_description :: "string option"

record kernel_config =
  kc_harness :: harness_name
  kc_env :: "env_map option"
  kc_env_text :: "string option"

record connection =
  cn_id :: string
  cn_name :: string
  cn_url :: "string config_value"
  cn_api_flavor :: api_flavor
  cn_api_key :: "string config_value option"

record skill =
  sk_id :: string
  sk_files :: "string btree"

record agent_cli_config =
  ac_harness :: cli_harness_name
  ac_connection :: "string option"

record agent =
  ag_id :: string
  ag_name :: string
  ag_harness :: harness_name
  ag_connection :: "string option"
  ag_cli :: "agent_cli_config option"
  ag_system_prompt :: "string config_value"
  ag_skills :: "string list"
  ag_env :: "env_map option"
  ag_env_text :: "string option"

record gateway =
  gw_id :: string
  gw_name :: string
  gw_type :: gateway_type
  gw_agent :: string
  gw_enabled :: bool
  gw_env :: "env_map option"
  gw_env_text :: "string option"
  gw_secrets :: env_map

record config_spec =
  cs_secrets :: "secret_declaration list"
  cs_kernel_configs :: "kernel_config list"
  cs_connections :: "connection list"
  cs_skills :: "skill list"
  cs_agents :: "agent list"
  cs_gateways :: "gateway list"

definition default_spec :: config_spec where
  "default_spec = \<lparr>cs_secrets = [], cs_kernel_configs = [], cs_connections = [], cs_skills = [], cs_agents = [],
     cs_gateways = []\<rparr>"

record aggregate_manifest =
  am_api_version :: string
  am_kind :: string
  am_metadata_name :: string
  am_spec :: config_spec

record config_document =
  metadata_name :: string
  spec :: config_spec

definition default_document :: config_document where
  "default_document = \<lparr>metadata_name = DEFAULT_METADATA_NAME, spec = default_spec\<rparr>"

definition into_aggregate :: "config_document \<Rightarrow> aggregate_manifest" where
  "into_aggregate doc = \<lparr>am_api_version = API_VERSION, am_kind = KIND_AGGREGATE,
     am_metadata_name = metadata_name doc, am_spec = spec doc\<rparr>"

definition find_connection :: "config_document \<Rightarrow> string \<Rightarrow> connection option" where
  "find_connection doc i = find (\<lambda>c. cn_id c = i) (cs_connections (spec doc))"

definition find_gateway :: "config_document \<Rightarrow> string \<Rightarrow> gateway option" where
  "find_gateway doc i = find (\<lambda>g. gw_id g = i) (cs_gateways (spec doc))"

definition secret_declared :: "config_document \<Rightarrow> string \<Rightarrow> bool" where
  "secret_declared doc name = list_ex (\<lambda>s. sd_name s = name) (cs_secrets (spec doc))"

definition literal_lines :: "env_map \<Rightarrow> string list" where
  "literal_lines env = List.map_filter (\<lambda>(k, v). case v of Literal l \<Rightarrow> Some (k @ ''='' @ l) | Secret _ \<Rightarrow> None) env"

definition env_to_text :: "env_map option \<Rightarrow> string option \<Rightarrow> string" where
  "env_to_text env env_text =
     (case env_text of
        Some t \<Rightarrow> t
      | None \<Rightarrow> (case env of None \<Rightarrow> [] | Some m \<Rightarrow> join_with [CHR 0x0A] (literal_lines m)))"

section \<open>Errors\<close>

record validation_issue =
  vi_code :: string
  vi_detail :: message
  vi_resource :: "string option"
  vi_field :: "string option"

definition issue :: "string \<Rightarrow> message \<Rightarrow> validation_issue" where
  "issue code detail = \<lparr>vi_code = code, vi_detail = detail, vi_resource = None, vi_field = None\<rparr>"

definition with_resource :: "string \<Rightarrow> validation_issue \<Rightarrow> validation_issue" where
  "with_resource r i = i\<lparr>vi_resource := Some r\<rparr>"

definition with_field :: "string \<Rightarrow> validation_issue \<Rightarrow> validation_issue" where
  "with_field f i = i\<lparr>vi_field := Some f\<rparr>"

datatype config_error =
    ParseError message
  | UnsupportedApiVersion string
  | UnsupportedKind string
  | DuplicateResource string string
  | UnsupportedBundle
  | BundleError message
  | Validation "validation_issue list"
  | SerializeError message
  | SecretDeclarationRemovalBlocked "string list"
  | CanonicalDrift
  | GenerationConflict int "int option"

definition show_int :: "int \<Rightarrow> string" where
  "show_int i = (if i < 0 then ''-'' @ show_nat (nat (- i)) else show_nat (nat i))"

fun join_details :: "validation_issue list \<Rightarrow> message" where
  "join_details [] = []"
| "join_details [i] = vi_detail i"
| "join_details (i # j # is) = vi_detail i @ Txt ''; '' # join_details (j # is)"

fun display_config_error :: "config_error \<Rightarrow> message" where
  "display_config_error (ParseError d) = Txt ''failed to parse configuration: '' # d"
| "display_config_error (UnsupportedApiVersion v) = [Txt ''unsupported apiVersion '', Dbg v]"
| "display_config_error (UnsupportedKind v) = [Txt ''unsupported kind '', Dbg v]"
| "display_config_error (DuplicateResource k i) = [Txt ''duplicate '', Txt k, Txt '' identity '', Dbg i]"
| "display_config_error UnsupportedBundle =
     lit ''config-set bundles are not supported yet; submit a single YAML document''"
| "display_config_error (BundleError d) = Txt ''invalid config-set bundle: '' # d"
| "display_config_error (Validation is) = Txt ''configuration is invalid: '' # join_details is"
| "display_config_error (SerializeError d) = Txt ''failed to serialize configuration: '' # d"
| "display_config_error (SecretDeclarationRemovalBlocked ns) =
     [Txt ''cannot remove secret declaration(s) with set values: '', Txt (join_with '', '' ns)]"
| "display_config_error CanonicalDrift = lit ''canonical projection did not round-trip to an equal document''"
| "display_config_error (GenerationConflict e a) =
     [Txt ''configuration generation conflict: expected active generation '', Txt (show_int e),
      Txt '', but the active generation is '', Txt (case a of None \<Rightarrow> ''none'' | Some g \<Rightarrow> show_int g)]"

section \<open>Libraries\<close>

text \<open>The manifest of a single resource (\<^verbatim>\<open>Standalone\<close> of \<^verbatim>\<open>loader.rs\<close>) and the specs it can have.\<close>

record 's standalone =
  sa_api_version :: string
  sa_kind :: string
  sa_name :: string
  sa_spec :: 's

record env_spec =
  es_env :: "env_map option"
  es_env_text :: "string option"

record connection_spec =
  cns_name :: string
  cns_url :: "string config_value"
  cns_api_flavor :: api_flavor
  cns_api_key :: "string config_value option"

record skill_spec =
  sks_files :: "string btree option"
  sks_source_path :: "string option"

record agent_spec =
  ags_name :: string
  ags_harness :: harness_name
  ags_connection :: "string option"
  ags_cli :: "agent_cli_config option"
  ags_system_prompt :: "string config_value"
  ags_skills :: "string list"
  ags_env :: "env_map option"
  ags_env_text :: "string option"

record gateway_spec =
  gws_name :: string
  gws_type :: gateway_type
  gws_agent :: string
  gws_enabled :: bool
  gws_env :: "env_map option"
  gws_env_text :: "string option"
  gws_secrets :: env_map

text \<open>The metadata file of a skill (\<^verbatim>\<open>agentspace.json\<close>).\<close>

datatype volume_mode = Ro | Rw

record volume_declaration =
  vd_id :: string
  vd_mount_path :: string
  vd_advertise :: bool
  vd_mode :: volume_mode

record skill_metadata =
  sm_schema_version :: nat
  sm_volumes :: "volume_declaration list"

record codecs =
  yaml_documents :: "string \<Rightarrow> (string, yaml) result list"
  yaml_is_null :: "yaml \<Rightarrow> bool"
  aggregate_of_yaml :: "yaml \<Rightarrow> (string, aggregate_manifest) result"
  secret_of_yaml :: "yaml \<Rightarrow> (string, string option standalone) result"
  env_of_yaml :: "yaml \<Rightarrow> (string, env_spec standalone) result"
  connection_of_yaml :: "yaml \<Rightarrow> (string, connection_spec standalone) result"
  skill_of_yaml :: "yaml \<Rightarrow> (string, skill_spec standalone) result"
  agent_of_yaml :: "yaml \<Rightarrow> (string, agent_spec standalone) result"
  gateway_of_yaml :: "yaml \<Rightarrow> (string, gateway_spec standalone) result"
  aggregate_to_yaml :: "aggregate_manifest \<Rightarrow> (string, string) result"
  skill_metadata_of_json :: "string \<Rightarrow> (string, skill_metadata) result"
  sha256_digest :: "bytes \<Rightarrow> bytes"

section \<open>Canonical form\<close>

definition sha256_hex :: "codecs \<Rightarrow> bytes \<Rightarrow> string" where
  "sha256_hex cd bs =
     concat (map (\<lambda>b. [REVISION_HEX ! (byte_val b div 16), REVISION_HEX ! (byte_val b mod 16)]) (sha256_digest cd bs))"

definition canonical_spec :: "config_spec \<Rightarrow> config_spec" where
  "canonical_spec s = \<lparr>cs_secrets = sort_key sd_name (cs_secrets s),
     cs_kernel_configs = sort_key (harness_str \<circ> kc_harness) (cs_kernel_configs s),
     cs_connections = sort_key cn_id (cs_connections s), cs_skills = sort_key sk_id (cs_skills s),
     cs_agents = sort_key ag_id (cs_agents s), cs_gateways = sort_key gw_id (cs_gateways s)\<rparr>"

definition canonical_document :: "config_document \<Rightarrow> config_document" where
  "canonical_document doc = \<lparr>metadata_name = metadata_name doc, spec = canonical_spec (spec doc)\<rparr>"

definition to_canonical_yaml :: "codecs \<Rightarrow> config_document \<Rightarrow> (config_error, string) result" where
  "to_canonical_yaml cd doc =
     (case aggregate_to_yaml cd (into_aggregate (canonical_document doc)) of
        Inl e \<Rightarrow> Inl (SerializeError [Ext e])
      | Inr t \<Rightarrow> Inr t)"

definition semantic_hash :: "codecs \<Rightarrow> config_document \<Rightarrow> (config_error, string) result" where
  "semantic_hash cd doc = try_res (to_canonical_yaml cd doc) (\<lambda>t. Inr (sha256_hex cd t))"

definition typed_equal :: "config_document \<Rightarrow> config_document \<Rightarrow> bool" where
  "typed_equal l r \<longleftrightarrow> canonical_document l = canonical_document r"

section \<open>Facts\<close>

text \<open>Identities are unique in a document that the loader accepts and the mutations keep.\<close>

definition unique_ids :: "config_document \<Rightarrow> bool" where
  "unique_ids doc \<longleftrightarrow>
     distinct (map sd_name (cs_secrets (spec doc))) \<and> distinct (map kc_harness (cs_kernel_configs (spec doc))) \<and>
     distinct (map cn_id (cs_connections (spec doc))) \<and> distinct (map sk_id (cs_skills (spec doc))) \<and>
     distinct (map ag_id (cs_agents (spec doc))) \<and> distinct (map gw_id (cs_gateways (spec doc)))"

lemma canonical_spec_simps [simp]:
  "cs_secrets (canonical_spec s) = sort_key sd_name (cs_secrets s)"
  "cs_kernel_configs (canonical_spec s) = sort_key (harness_str \<circ> kc_harness) (cs_kernel_configs s)"
  "cs_connections (canonical_spec s) = sort_key cn_id (cs_connections s)"
  "cs_skills (canonical_spec s) = sort_key sk_id (cs_skills s)"
  "cs_agents (canonical_spec s) = sort_key ag_id (cs_agents s)"
  "cs_gateways (canonical_spec s) = sort_key gw_id (cs_gateways s)"
  by (simp_all add: canonical_spec_def)

lemma canonical_document_simps [simp]:
  "metadata_name (canonical_document doc) = metadata_name doc"
  "spec (canonical_document doc) = canonical_spec (spec doc)"
  by (simp_all add: canonical_document_def)

lemma canonical_document_idem [simp]: "canonical_document (canonical_document doc) = canonical_document doc"
  by (simp add: canonical_document_def canonical_spec_def sort_key_id_if_sorted)

lemma typed_equal_canonical [simp]: "typed_equal (canonical_document doc) doc"
  by (simp add: typed_equal_def)

lemma typed_equal_equiv:
  "typed_equal doc doc" "typed_equal a b \<Longrightarrow> typed_equal b a"
  "typed_equal a b \<Longrightarrow> typed_equal b c \<Longrightarrow> typed_equal a c"
  by (simp_all add: typed_equal_def)

lemma distinct_map_sort_key [simp]: "distinct (map f (sort_key g xs)) = distinct (map f xs)"
  by (simp add: distinct_map)

lemma unique_ids_canonical [simp]: "unique_ids (canonical_document doc) = unique_ids doc"
  by (simp add: unique_ids_def)

lemma unique_ids_typed_equal: "typed_equal a b \<Longrightarrow> unique_ids a = unique_ids b"
  using unique_ids_canonical by (metis typed_equal_def)

lemma secret_declared_canonical [simp]: "secret_declared (canonical_document doc) = secret_declared doc"
  by (simp add: secret_declared_def list_ex_iff fun_eq_iff)

lemma secret_declared_typed_equal: "typed_equal a b \<Longrightarrow> secret_declared a = secret_declared b"
  using secret_declared_canonical by (metis typed_equal_def)

end
