(* ===== verification/Config_Loader.thy ===== *)
theory Config_Loader
  imports Config_Document
begin

text \<open>
  Loading configuration documents (\<^verbatim>\<open>config/loader.rs\<close>): merging the parsed YAML documents of one or
  more sources, the expansion of skill sources by a resolver, and the uniqueness of identities.

  A resolver may keep a state of its own (the bundle reader records the directories it is asked for), so
  it is a state-passing function.
\<close>

section \<open>Definitions\<close>

type_synonym 's resolver = "string \<Rightarrow> 's \<Rightarrow> (config_error, string btree, 's) outcome"

record accumulator =
  acc_metadata_name :: "string option"
  acc_spec :: config_spec

definition empty_accumulator :: accumulator where
  "empty_accumulator = \<lparr>acc_metadata_name = None, acc_spec = default_spec\<rparr>"

definition parse_error :: "string \<Rightarrow> config_error" where
  "parse_error e = ParseError [Ext e]"

definition from_value :: "(yaml \<Rightarrow> (string, 'a) result) \<Rightarrow> yaml \<Rightarrow> (config_error, 'a) result" where
  "from_value de v = (case de v of Inl e \<Rightarrow> Inl (parse_error e) | Inr x \<Rightarrow> Inr x)"

text \<open>\<^verbatim>\<open>Value::get\<close> with a string index.\<close>

definition yaml_get :: "yaml \<Rightarrow> string \<Rightarrow> yaml option" where
  "yaml_get v f = (case v of YMapping m \<Rightarrow> map_of m (YString f) | _ \<Rightarrow> None)"

definition read_str_field :: "yaml \<Rightarrow> string \<Rightarrow> (config_error, string) result" where
  "read_str_field v f =
     ok_or (ParseError [Txt ''document is missing required string field '', Dbg f]) (Option.bind (yaml_get v f) yaml_as_str)"

definition parse_skill :: "'s resolver \<Rightarrow> skill_spec standalone \<Rightarrow> 's \<Rightarrow> (config_error, skill, 's) outcome" where
  "parse_skill resolve m s =
     try_io
       (case (sks_files (sa_spec m), sks_source_path (sa_spec m)) of
          (Some files, None) \<Rightarrow> (Inr files, s)
        | (None, Some path) \<Rightarrow> resolve path s
        | (Some _, Some _) \<Rightarrow>
            (Inl (ParseError [Txt ''Skill '', Dbg (sa_name m),
               Txt '' sets both spec.files and spec.source; exactly one is required'']), s)
        | (None, None) \<Rightarrow>
            (Inl (ParseError [Txt ''Skill '', Dbg (sa_name m),
               Txt '' must set exactly one of spec.files or spec.source'']), s))
       (\<lambda>files s. (Inr \<lparr>sk_id = sa_name m, sk_files = files\<rparr>, s))"

definition merge_spec :: "config_spec \<Rightarrow> config_spec \<Rightarrow> config_spec" where
  "merge_spec target source = \<lparr>cs_secrets = cs_secrets target @ cs_secrets source,
     cs_kernel_configs = cs_kernel_configs target @ cs_kernel_configs source,
     cs_connections = cs_connections target @ cs_connections source, cs_skills = cs_skills target @ cs_skills source,
     cs_agents = cs_agents target @ cs_agents source, cs_gateways = cs_gateways target @ cs_gateways source\<rparr>"

text \<open>The arms of \<^verbatim>\<open>merge_document\<close> that do not involve the resolver.\<close>

definition merge_secret :: "string option standalone \<Rightarrow> config_spec \<Rightarrow> (config_error, config_spec) result" where
  "merge_secret m sp =
     (case secret_name_new (sa_name m) of
        Inl e \<Rightarrow> Inl (ParseError (display_invalid_secret_name e))
      | Inr n \<Rightarrow> Inr (sp\<lparr>cs_secrets := cs_secrets sp @ [\<lparr>sd_name = n, sd_description = sa_spec m\<rparr>]\<rparr>))"

definition merge_kernel :: "env_spec standalone \<Rightarrow> config_spec \<Rightarrow> (config_error, config_spec) result" where
  "merge_kernel m sp =
     (case harness_from_str (sa_name m) of
        Inl e \<Rightarrow> Inl (ParseError (display_validation_error e))
      | Inr h \<Rightarrow> Inr (sp\<lparr>cs_kernel_configs := cs_kernel_configs sp @
          [\<lparr>kc_harness = h, kc_env = es_env (sa_spec m), kc_env_text = es_env_text (sa_spec m)\<rparr>]\<rparr>))"

definition merge_connection :: "connection_spec standalone \<Rightarrow> config_spec \<Rightarrow> config_spec" where
  "merge_connection m sp = sp\<lparr>cs_connections := cs_connections sp @
     [\<lparr>cn_id = sa_name m, cn_name = cns_name (sa_spec m), cn_url = cns_url (sa_spec m),
       cn_api_flavor = cns_api_flavor (sa_spec m), cn_api_key = cns_api_key (sa_spec m)\<rparr>]\<rparr>"

definition merge_agent :: "agent_spec standalone \<Rightarrow> config_spec \<Rightarrow> config_spec" where
  "merge_agent m sp = sp\<lparr>cs_agents := cs_agents sp @
     [\<lparr>ag_id = sa_name m, ag_name = ags_name (sa_spec m), ag_harness = ags_harness (sa_spec m),
       ag_connection = ags_connection (sa_spec m), ag_cli = ags_cli (sa_spec m),
       ag_system_prompt = ags_system_prompt (sa_spec m), ag_skills = ags_skills (sa_spec m),
       ag_env = ags_env (sa_spec m), ag_env_text = ags_env_text (sa_spec m)\<rparr>]\<rparr>"

definition merge_gateway :: "gateway_spec standalone \<Rightarrow> config_spec \<Rightarrow> config_spec" where
  "merge_gateway m sp = sp\<lparr>cs_gateways := cs_gateways sp @
     [\<lparr>gw_id = sa_name m, gw_name = gws_name (sa_spec m), gw_type = gws_type (sa_spec m),
       gw_agent = gws_agent (sa_spec m), gw_enabled = gws_enabled (sa_spec m), gw_env = gws_env (sa_spec m),
       gw_env_text = gws_env_text (sa_spec m), gw_secrets = gws_secrets (sa_spec m)\<rparr>]\<rparr>"

definition merge_document ::
  "codecs \<Rightarrow> 's resolver \<Rightarrow> string \<Rightarrow> yaml \<Rightarrow> accumulator \<Rightarrow> 's \<Rightarrow> (config_error, accumulator, 's) outcome" where
  "merge_document cd resolve k v acc s =
     (let sp = acc_spec acc in
      if k = KIND_AGGREGATE then
        (try_res (from_value (aggregate_of_yaml cd) v) (\<lambda>m.
           Inr \<lparr>acc_metadata_name = Some (am_metadata_name m), acc_spec = merge_spec sp (am_spec m)\<rparr>), s)
      else if k = ''SecretDeclaration'' then
        (try_res (from_value (secret_of_yaml cd) v) (\<lambda>m. try_res (merge_secret m sp) (\<lambda>sp. Inr (acc\<lparr>acc_spec := sp\<rparr>))), s)
      else if k = ''KernelConfig'' then
        (try_res (from_value (env_of_yaml cd) v) (\<lambda>m. try_res (merge_kernel m sp) (\<lambda>sp. Inr (acc\<lparr>acc_spec := sp\<rparr>))), s)
      else if k = ''Connection'' then
        (try_res (from_value (connection_of_yaml cd) v) (\<lambda>m. Inr (acc\<lparr>acc_spec := merge_connection m sp\<rparr>)), s)
      else if k = ''Skill'' then
        try_io (from_value (skill_of_yaml cd) v, s) (\<lambda>m s.
        try_io (parse_skill resolve m s) (\<lambda>sk s. (Inr (acc\<lparr>acc_spec := sp\<lparr>cs_skills := cs_skills sp @ [sk]\<rparr>\<rparr>), s)))
      else if k = ''Agent'' then
        (try_res (from_value (agent_of_yaml cd) v) (\<lambda>m. Inr (acc\<lparr>acc_spec := merge_agent m sp\<rparr>)), s)
      else if k = ''Gateway'' then
        (try_res (from_value (gateway_of_yaml cd) v) (\<lambda>m. Inr (acc\<lparr>acc_spec := merge_gateway m sp\<rparr>)), s)
      else (Inl (UnsupportedKind k), s))"

fun merge_values ::
  "codecs \<Rightarrow> 's resolver \<Rightarrow> (string, yaml) result list \<Rightarrow> accumulator \<Rightarrow> 's \<Rightarrow> (config_error, accumulator, 's) outcome" where
  "merge_values cd resolve [] acc s = (Inr acc, s)"
| "merge_values cd resolve (Inl e # rest) acc s = (Inl (parse_error e), s)"
| "merge_values cd resolve (Inr v # rest) acc s =
     (if yaml_is_null cd v then merge_values cd resolve rest acc s
      else
        try_io (read_str_field v ''kind'', s) (\<lambda>k s.
        try_io (read_str_field v ''apiVersion'', s) (\<lambda>api_version s.
        if api_version \<noteq> API_VERSION then (Inl (UnsupportedApiVersion api_version), s)
        else try_io (merge_document cd resolve k v acc s) (\<lambda>acc s. merge_values cd resolve rest acc s))))"

definition merge_source ::
  "codecs \<Rightarrow> 's resolver \<Rightarrow> string \<Rightarrow> accumulator \<Rightarrow> 's \<Rightarrow> (config_error, accumulator, 's) outcome" where
  "merge_source cd resolve source = merge_values cd resolve (yaml_documents cd source)"

fun check_unique :: "string \<Rightarrow> string list \<Rightarrow> string list \<Rightarrow> (config_error, unit) result" where
  "check_unique k seen [] = Inr ()"
| "check_unique k seen (i # rest) =
     (if i \<in> set seen then Inl (DuplicateResource k i) else check_unique k (i # seen) rest)"

definition check_duplicate_ids :: "config_document \<Rightarrow> (config_error, unit) result" where
  "check_duplicate_ids doc =
     try_res (check_unique ''secret'' [] (map sd_name (cs_secrets (spec doc)))) (\<lambda>_.
     try_res (check_unique ''kernelConfig'' [] (map (harness_str \<circ> kc_harness) (cs_kernel_configs (spec doc)))) (\<lambda>_.
     try_res (check_unique ''connection'' [] (map cn_id (cs_connections (spec doc)))) (\<lambda>_.
     try_res (check_unique ''skill'' [] (map sk_id (cs_skills (spec doc)))) (\<lambda>_.
     try_res (check_unique ''agent'' [] (map ag_id (cs_agents (spec doc)))) (\<lambda>_.
     check_unique ''gateway'' [] (map gw_id (cs_gateways (spec doc))))))))"

definition spec_is_empty :: "config_spec \<Rightarrow> bool" where
  "spec_is_empty s \<longleftrightarrow> cs_secrets s = [] \<and> cs_kernel_configs s = [] \<and> cs_connections s = [] \<and> cs_skills s = [] \<and>
     cs_agents s = [] \<and> cs_gateways s = []"

definition finish :: "accumulator \<Rightarrow> (config_error, config_document) result" where
  "finish acc =
     (if acc_metadata_name acc = None \<and> spec_is_empty (acc_spec acc) then
        Inl (ParseError (lit ''no configuration documents were provided''))
      else
        (let doc = \<lparr>metadata_name = (case acc_metadata_name acc of Some n \<Rightarrow> n | None \<Rightarrow> DEFAULT_METADATA_NAME),
               spec = acc_spec acc\<rparr>
         in try_res (check_duplicate_ids doc) (\<lambda>_. Inr doc)))"

definition load_yaml_with_resolver :: "codecs \<Rightarrow> 's resolver \<Rightarrow> string \<Rightarrow> 's \<Rightarrow> (config_error, config_document) result" where
  "load_yaml_with_resolver cd resolve source s =
     try_res (fst (merge_source cd resolve source empty_accumulator s)) finish"

definition load_yaml :: "codecs \<Rightarrow> string \<Rightarrow> (config_error, config_document) result" where
  "load_yaml cd source = load_yaml_with_resolver cd (\<lambda>_ s. (Inl UnsupportedBundle, s)) source ()"

section \<open>Identities are unique\<close>

lemma check_unique_iff: "check_unique k seen ids = Inr () \<longleftrightarrow> distinct ids \<and> set ids \<inter> set seen = {}"
  by (induction ids arbitrary: seen) auto

lemma distinct_harness_str: "distinct (map (harness_str \<circ> f) xs) = distinct (map f xs)"
  by (induction xs) auto

lemma check_duplicate_ids_iff: "check_duplicate_ids doc = Inr () \<longleftrightarrow> unique_ids doc"
  by (auto simp: check_duplicate_ids_def unique_ids_def try_res_Inr_iff check_unique_iff distinct_harness_str)

lemma finish_Inr_iff:
  "finish acc = Inr doc \<longleftrightarrow> \<not> (acc_metadata_name acc = None \<and> spec_is_empty (acc_spec acc)) \<and>
     doc = \<lparr>metadata_name = (case acc_metadata_name acc of Some n \<Rightarrow> n | None \<Rightarrow> DEFAULT_METADATA_NAME), spec = acc_spec acc\<rparr> \<and>
     unique_ids doc"
  by (auto simp: finish_def Let_def try_res_Inr_iff check_duplicate_ids_iff)

lemma load_yaml_unique: "load_yaml cd source = Inr doc \<Longrightarrow> unique_ids doc"
  by (auto simp: load_yaml_def load_yaml_with_resolver_def try_res_Inr_iff finish_Inr_iff)

section \<open>Reading back what was written\<close>

text \<open>What the YAML library promises of an aggregate manifest it could write.\<close>

definition yaml_reads_back :: "codecs \<Rightarrow> aggregate_manifest \<Rightarrow> bool" where
  "yaml_reads_back cd m \<longleftrightarrow>
     (case aggregate_to_yaml cd m of
        Inl _ \<Rightarrow> True
      | Inr t \<Rightarrow> (case yaml_documents cd t of
           [Inr v] \<Rightarrow> \<not> yaml_is_null cd v \<and> read_str_field v ''kind'' = Inr (am_kind m) \<and>
             read_str_field v ''apiVersion'' = Inr (am_api_version m) \<and> aggregate_of_yaml cd v = Inr m
         | _ \<Rightarrow> False))"

lemma merge_empty_spec [simp]: "merge_spec default_spec s = s"
  by (simp add: merge_spec_def default_spec_def)

lemma load_canonical_yaml:
  assumes "to_canonical_yaml cd doc = Inr t" "unique_ids doc"
    and "yaml_reads_back cd (into_aggregate (canonical_document doc))"
  shows "load_yaml cd t = Inr (canonical_document doc)"
proof -
  let ?m = "into_aggregate (canonical_document doc)"
  have w: "aggregate_to_yaml cd ?m = Inr t"
    using assms(1) by (auto simp: to_canonical_yaml_def split: sum.splits)
  then obtain v where v: "yaml_documents cd t = [Inr v]" "\<not> yaml_is_null cd v"
    "read_str_field v ''kind'' = Inr (am_kind ?m)" "read_str_field v ''apiVersion'' = Inr (am_api_version ?m)"
    "aggregate_of_yaml cd v = Inr ?m"
    using assms(3) by (auto simp: yaml_reads_back_def split: list.split_asm sum.split_asm) (metis neq_Nil_conv)+
  have "finish \<lparr>acc_metadata_name = Some (metadata_name doc), acc_spec = canonical_spec (spec doc)\<rparr> =
      Inr (canonical_document doc)"
    using assms(2) by (auto simp: finish_Inr_iff canonical_document_def unique_ids_canonical [unfolded canonical_document_def])
  then show ?thesis
    using v by (simp add: load_yaml_def load_yaml_with_resolver_def merge_source_def merge_document_def Let_def
        from_value_def into_aggregate_def empty_accumulator_def)
qed

end
