(* ===== verification/Config_Bundle.thy ===== *)
theory Config_Bundle
  imports Config_Loader "HOL-Library.Word"
begin

text \<open>
  Configuration bundles (\<^verbatim>\<open>config/bundle.rs\<close>): reading the entries of an archive under the safety limits,
  choosing the manifests among them and expanding the skill sources they declare.

  The archive library is the function \<open>zip_archive\<close> of the record \<open>zip_lib\<close>: it gives, for the bytes of an
  archive, the entries by index, each with the results that its reader will produce.
\<close>

unbundle bit_operations_syntax

section \<open>Archives\<close>

record zip_entry =
  ze_name :: string
  ze_unix_mode :: "32 word option"
  ze_enclosed_name :: "bytes option"
  ze_is_dir :: bool
  ze_reads :: "(string, bytes) result list"

record zip_lib =
  zip_archive :: "bytes \<Rightarrow> (string, (string, zip_entry) result list) result"

definition MANIFEST_DIR_PREFIX :: string where "MANIFEST_DIR_PREFIX = ''config/''"
definition MAX_ENTRIES :: nat where "MAX_ENTRIES = 4096"
definition MAX_TOTAL_BYTES :: nat where "MAX_TOTAL_BYTES = 32 * 1024 * 1024"
definition MAX_ENTRY_BYTES :: nat where "MAX_ENTRY_BYTES = 8 * 1024 * 1024"
definition UNIX_TYPE_MASK :: "32 word" where "UNIX_TYPE_MASK = 0xF000"
definition UNIX_TYPE_SYMLINK :: "32 word" where "UNIX_TYPE_SYMLINK = 0xA000"

definition bundle_error :: "message \<Rightarrow> config_error" where
  "bundle_error detail = BundleError detail"

definition reject_unsafe_name :: "string \<Rightarrow> (config_error, unit) result" where
  "reject_unsafe_name name =
     (if CHR 0x5C \<in> set name then
        Inl (bundle_error [Txt ''bundle entry '', Dbg name, Txt '' contains a backslash path separator, which is not allowed''])
      else if prefix ''/'' name then
        Inl (bundle_error [Txt ''bundle entry '', Dbg name, Txt '' is an absolute path, which is not allowed''])
      else (case split_once (CHR '':'') name of
          Some (p, _) \<Rightarrow>
            (if length p = 1 \<and> list_all is_ascii_alphabetic p then
               Inl (bundle_error [Txt ''bundle entry '', Dbg name, Txt '' uses a Windows drive path, which is not allowed''])
             else Inr ())
        | None \<Rightarrow> Inr ()))"

text \<open>The loop that reads an entry; an empty read is the end of the entry.  The state is the running total.\<close>

definition saturating_add :: "nat \<Rightarrow> nat \<Rightarrow> nat" where
  "saturating_add a b = min (2 ^ 64 - 1) (a + b)"

fun read_entry_bounded ::
  "(string, bytes) result list \<Rightarrow> string \<Rightarrow> bytes \<Rightarrow> nat \<Rightarrow> (config_error, bytes, nat) outcome" where
  "read_entry_bounded [] display contents tot = (Inr contents, tot)"
| "read_entry_bounded (Inl e # reads) display contents tot =
     (Inl (bundle_error [Txt ''failed to read entry '', Txt display, Txt '': '', Ext e]), tot)"
| "read_entry_bounded (Inr chunk # reads) display contents tot =
     (if chunk = [] then (Inr contents, tot)
      else if length contents + length chunk > MAX_ENTRY_BYTES then
        (Inl (bundle_error [Txt ''bundle entry '', Txt display, Txt '' exceeds the per-file limit of '',
           Txt (show_nat MAX_ENTRY_BYTES), Txt '' decompressed bytes'']), tot)
      else
        (let tot = saturating_add tot (length chunk) in
         if tot > MAX_TOTAL_BYTES then
           (Inl (bundle_error [Txt ''bundle exceeds the total limit of '', Txt (show_nat MAX_TOTAL_BYTES),
              Txt '' decompressed bytes'']), tot)
         else read_entry_bounded reads display (contents @ chunk) tot))"

text \<open>The loop over the segments of a name.\<close>

fun normalize_segments :: "string \<Rightarrow> string list \<Rightarrow> string list \<Rightarrow> (config_error, string list) result" where
  "normalize_segments name segs [] = Inr segs"
| "normalize_segments name segs (seg # rest) =
     (if seg = [] \<or> seg = ''.'' then normalize_segments name segs rest
      else if seg = ''..'' then Inl (bundle_error [Txt ''bundle entry '', Dbg name, Txt '' escapes the archive root''])
      else normalize_segments name (segs @ [seg]) rest)"

definition normalize_entry_path :: "string \<Rightarrow> (config_error, string) result" where
  "normalize_entry_path name =
     try_res (normalize_segments name [] (split_on (CHR ''/'') name)) (\<lambda>segs.
       if segs = [] then Inl (bundle_error [Txt ''bundle entry '', Dbg name, Txt '' does not name a file''])
       else Inr (join_with ''/'' segs))"

text \<open>The body of the loop over the entries: \<open>None\<close> for an entry that is skipped.\<close>

definition slash_for_backslash :: "string \<Rightarrow> string" where
  "slash_for_backslash s = map (\<lambda>c. if c = CHR 0x5C then CHR ''/'' else c) s"

definition read_zip_entry :: "zip_entry \<Rightarrow> nat \<Rightarrow> (config_error, (string \<times> string) option, nat) outcome" where
  "read_zip_entry entry tot =
     try_io (reject_unsafe_name (ze_name entry), tot) (\<lambda>_ tot.
     if (case ze_unix_mode entry of Some mode \<Rightarrow> mode AND UNIX_TYPE_MASK = UNIX_TYPE_SYMLINK | None \<Rightarrow> False) then
       (Inl (bundle_error [Txt ''bundle entry '', Dbg (ze_name entry), Txt '' is a symlink, which is not allowed'']), tot)
     else (case ze_enclosed_name entry of
         None \<Rightarrow> (Inl (bundle_error [Txt ''bundle entry '', Dbg (ze_name entry), Txt '' escapes the archive root'']), tot)
       | Some path \<Rightarrow>
           if ze_is_dir entry then (Inr None, tot)
           else
             try_io (ok_or (bundle_error [Txt ''bundle entry '', Ext path, Txt '' is not valid UTF-8'']) (from_utf8 path), tot)
               (\<lambda>raw_name tot.
             try_io (normalize_entry_path (slash_for_backslash raw_name), tot) (\<lambda>normalized tot.
             try_io (read_entry_bounded (ze_reads entry) normalized [] tot) (\<lambda>raw tot.
             try_io (ok_or (bundle_error [Txt ''entry '', Txt normalized, Txt '' is not valid UTF-8: '', Ext raw]) (from_utf8 raw), tot)
               (\<lambda>contents tot. (Inr (Some (normalized, contents)), tot)))))))"

fun read_entries_loop ::
  "(string, zip_entry) result list \<Rightarrow> string btree \<Rightarrow> nat \<Rightarrow> (config_error, string btree) result" where
  "read_entries_loop [] files tot = Inr files"
| "read_entries_loop (Inl e # rest) files tot = Inl (bundle_error [Ext e])"
| "read_entries_loop (Inr entry # rest) files tot =
     (case read_zip_entry entry tot of
        (Inl e, _) \<Rightarrow> Inl e
      | (Inr None, tot) \<Rightarrow> read_entries_loop rest files tot
      | (Inr (Some (normalized, contents)), tot) \<Rightarrow>
          if contains_key files normalized then
            Inl (bundle_error [Txt ''bundle contains duplicate entry '', Dbg normalized])
          else read_entries_loop rest (btree_insert normalized contents files) tot)"

definition read_entries :: "zip_lib \<Rightarrow> bytes \<Rightarrow> (config_error, string btree) result" where
  "read_entries zl bs =
     (case zip_archive zl bs of
        Inl e \<Rightarrow> Inl (bundle_error [Ext e])
      | Inr archive \<Rightarrow>
          if length archive > MAX_ENTRIES then
            Inl (bundle_error [Txt ''bundle has '', Txt (show_nat (length archive)), Txt '' entries, exceeding the limit of '',
              Txt (show_nat MAX_ENTRIES)])
          else read_entries_loop archive [] 0)"

section \<open>Manifests\<close>

definition to_ascii_lowercase :: "string \<Rightarrow> string" where
  "to_ascii_lowercase s = map (\<lambda>c. if is_ascii_uppercase c then char_of (byte_val c + 32) else c) s"

definition is_yaml_path :: "string \<Rightarrow> bool" where
  "is_yaml_path name =
     (let ext = last (split_on (CHR ''.'') (last (split_on (CHR ''/'') name)))
      in to_ascii_lowercase ext = ''yaml'' \<or> to_ascii_lowercase ext = ''yml'')"

definition is_candidate_manifest :: "string \<Rightarrow> bool" where
  "is_candidate_manifest path \<longleftrightarrow> is_yaml_path path \<and> (CHR ''/'' \<notin> set path \<or> prefix MANIFEST_DIR_PREFIX path)"

definition parent_dir :: "string \<Rightarrow> string" where
  "parent_dir path = join_with ''/'' (butlast (split_on (CHR ''/'') path))"

definition is_within :: "string \<Rightarrow> string \<Rightarrow> bool" where
  "is_within path dir \<longleftrightarrow> dir \<noteq> [] \<and> (path = dir \<or> prefix (dir @ ''/'') path)"

fun resolve_segments :: "string \<Rightarrow> string list \<Rightarrow> string list \<Rightarrow> (config_error, string list) result" where
  "resolve_segments path segs [] = Inr segs"
| "resolve_segments path segs (seg # rest) =
     (if seg = [] \<or> seg = ''.'' then resolve_segments path segs rest
      else if seg = ''..'' then
        (if segs = [] then Inl (bundle_error [Txt ''skill source path '', Dbg path, Txt '' escapes the bundle root''])
         else resolve_segments path (butlast segs) rest)
      else resolve_segments path (segs @ [seg]) rest)"

definition resolve_relative :: "string \<Rightarrow> string \<Rightarrow> (config_error, string) result" where
  "resolve_relative base_dir path =
     (if prefix ''/'' path then Inl (bundle_error [Txt ''skill source path '', Dbg path, Txt '' must be relative''])
      else
        (let combined = (if base_dir = [] then path else base_dir @ ''/'' @ path)
         in try_res (resolve_segments path [] (split_on (CHR ''/'') combined)) (\<lambda>segs. Inr (join_with ''/'' segs))))"

definition expand_source ::
  "string btree \<Rightarrow> string list \<Rightarrow> string \<Rightarrow> string \<Rightarrow> (config_error, string btree) result" where
  "expand_source files manifest_paths base_dir path =
     try_res (resolve_relative base_dir path) (\<lambda>resolved.
       case btree_get files resolved of
         Some contents \<Rightarrow> Inr [(last (split_on (CHR ''/'') resolved), contents)]
       | None \<Rightarrow>
           (let pre = (if resolved = [] then [] else resolved @ ''/'');
                collected = btree_of (List.map_filter (\<lambda>(name, contents).
                  if name \<in> set manifest_paths then None
                  else (case strip_prefix pre name of
                      None \<Rightarrow> None
                    | Some relative \<Rightarrow> if relative = [] then None else Some (relative, contents))) files)
            in if collected = [] then
                 Inl (bundle_error [Txt ''skill source path '', Dbg path, Txt '' (resolved to '', Dbg resolved,
                   Txt '') matched no files in the bundle''])
               else Inr collected))"

text \<open>The resolver of \<^verbatim>\<open>declared_source_dirs\<close> records the directories it is asked for.\<close>

definition record_source :: "string \<Rightarrow> string list resolver" where
  "record_source base_dir path dirs =
     (case resolve_relative base_dir path of
        Inl e \<Rightarrow> (Inl e, dirs)
      | Inr resolved \<Rightarrow> (Inr [], insort_insert resolved dirs))"

definition declared_source_dirs :: "codecs \<Rightarrow> string \<Rightarrow> string \<Rightarrow> (config_error, string list) result" where
  "declared_source_dirs cd source base_dir =
     (case merge_source cd (record_source base_dir) source empty_accumulator [] of
        (Inl e, _) \<Rightarrow> Inl e
      | (Inr _, dirs) \<Rightarrow> Inr dirs)"

definition in_source_dir :: "string list \<Rightarrow> string \<Rightarrow> bool" where
  "in_source_dir source_dirs path = list_ex (is_within path) source_dirs"

text \<open>What one candidate contributes to the set of source directories in a pass.\<close>

definition candidate_dirs :: "codecs \<Rightarrow> string btree \<Rightarrow> string \<Rightarrow> (config_error, string list) result" where
  "candidate_dirs cd files manifest_path =
     (case btree_get files manifest_path of
        None \<Rightarrow> Inr []
      | Some source \<Rightarrow> declared_source_dirs cd source (parent_dir manifest_path))"

definition discover_step :: "codecs \<Rightarrow> string btree \<Rightarrow> string \<Rightarrow> string list \<Rightarrow> string list" where
  "discover_step cd files manifest_path source_dirs =
     (if in_source_dir source_dirs manifest_path then source_dirs
      else (case candidate_dirs cd files manifest_path of
          Inl _ \<Rightarrow> source_dirs
        | Inr dirs \<Rightarrow> fold insort_insert dirs source_dirs))"

definition discover_pass :: "codecs \<Rightarrow> string btree \<Rightarrow> string list \<Rightarrow> string list \<Rightarrow> string list" where
  "discover_pass cd files candidates source_dirs = fold (discover_step cd files) candidates source_dirs"

text \<open>Every directory that any of the candidates declares.\<close>

definition declarable_dirs :: "codecs \<Rightarrow> string btree \<Rightarrow> string list \<Rightarrow> string set" where
  "declarable_dirs cd files candidates =
     (\<Union>m \<in> set candidates. case candidate_dirs cd files m of Inl _ \<Rightarrow> {} | Inr dirs \<Rightarrow> set dirs)"

lemma set_fold_insort_insert [simp]: "set (fold insort_insert xs ys) = set xs \<union> set ys"
  by (induction xs arbitrary: ys) (auto simp: set_insort_insert)

lemma discover_step_bounds:
  "set source_dirs \<subseteq> set (discover_step cd files m source_dirs)"
  "m \<in> set candidates \<Longrightarrow> set (discover_step cd files m source_dirs) \<subseteq> set source_dirs \<union> declarable_dirs cd files candidates"
  by (auto simp: discover_step_def declarable_dirs_def split: sum.splits if_splits)

lemma discover_pass_bounds:
  "set source_dirs \<subseteq> set (discover_pass cd files candidates source_dirs)"
  "set (discover_pass cd files candidates source_dirs) \<subseteq> set source_dirs \<union> declarable_dirs cd files candidates"
proof -
  have "set ds \<subseteq> set (fold (discover_step cd files) ms ds) \<and>
      (set ms \<subseteq> set candidates \<longrightarrow> set (fold (discover_step cd files) ms ds) \<subseteq> set ds \<union> declarable_dirs cd files candidates)" for ms ds
  proof (induction ms arbitrary: ds)
    case (Cons m ms)
    show ?case
      using Cons.IH [of "discover_step cd files m ds"] discover_step_bounds(1) [of ds cd files m]
        discover_step_bounds(2) [of m candidates cd files ds] by auto
  qed simp
  then show "set source_dirs \<subseteq> set (discover_pass cd files candidates source_dirs)"
    "set (discover_pass cd files candidates source_dirs) \<subseteq> set source_dirs \<union> declarable_dirs cd files candidates"
    unfolding discover_pass_def by auto
qed

lemma finite_declarable_dirs [simp]: "finite (declarable_dirs cd files candidates)"
  by (auto simp: declarable_dirs_def split: sum.splits)

text \<open>The loop runs a pass until it adds nothing; a pass adds only directories that a candidate declares.\<close>

function discover_loop :: "codecs \<Rightarrow> string btree \<Rightarrow> string list \<Rightarrow> string list \<Rightarrow> string list" where
  "discover_loop cd files candidates source_dirs =
     (let next_dirs = discover_pass cd files candidates source_dirs
      in if set next_dirs = set source_dirs then next_dirs else discover_loop cd files candidates next_dirs)"
  by auto
termination
proof (relation "measure (\<lambda>(cd, files, candidates, dirs). card (declarable_dirs cd files candidates - set dirs))", simp)
  fix cd files candidates source_dirs next_dirs
  assume n: "next_dirs = discover_pass cd files candidates source_dirs" and ne: "set next_dirs \<noteq> set source_dirs"
  then have "declarable_dirs cd files candidates - set next_dirs \<subset> declarable_dirs cd files candidates - set source_dirs"
    using discover_pass_bounds(1) [of source_dirs cd files candidates]
      discover_pass_bounds(2) [of cd files candidates source_dirs] by auto
  then show "((cd, files, candidates, next_dirs), cd, files, candidates, source_dirs)
      \<in> measure (\<lambda>(cd, files, candidates, dirs). card (declarable_dirs cd files candidates - set dirs))"
    by (simp add: psubset_card_mono)
qed

declare discover_loop.simps [simp del]

fun check_candidates :: "codecs \<Rightarrow> string btree \<Rightarrow> string list \<Rightarrow> string list \<Rightarrow> (config_error, unit) result" where
  "check_candidates cd files source_dirs [] = Inr ()"
| "check_candidates cd files source_dirs (m # rest) =
     (if in_source_dir source_dirs m then check_candidates cd files source_dirs rest
      else try_res (candidate_dirs cd files m) (\<lambda>_. check_candidates cd files source_dirs rest))"

definition discover_source_dirs :: "codecs \<Rightarrow> string btree \<Rightarrow> string list \<Rightarrow> (config_error, string list) result" where
  "discover_source_dirs cd files candidates =
     (let source_dirs = discover_loop cd files candidates []
      in try_res (check_candidates cd files source_dirs candidates) (\<lambda>_. Inr source_dirs))"

fun merge_manifests ::
  "codecs \<Rightarrow> string btree \<Rightarrow> string list \<Rightarrow> string list \<Rightarrow> accumulator \<Rightarrow> (config_error, accumulator) result" where
  "merge_manifests cd files manifest_paths [] acc = Inr acc"
| "merge_manifests cd files manifest_paths (m # rest) acc =
     (case btree_get files m of
        None \<Rightarrow> merge_manifests cd files manifest_paths rest acc
      | Some source \<Rightarrow>
          try_res (fst (merge_source cd (\<lambda>path s. (expand_source files manifest_paths (parent_dir m) path, s)) source acc ()))
            (merge_manifests cd files manifest_paths rest))"

definition manifests_of :: "string list \<Rightarrow> string list \<Rightarrow> string list" where
  "manifests_of candidates source_dirs = filter (\<lambda>m. \<not> in_source_dir source_dirs m) candidates"

definition load_bundle :: "codecs \<Rightarrow> zip_lib \<Rightarrow> bytes \<Rightarrow> (config_error, config_document) result" where
  "load_bundle cd zl bs =
     try_res (read_entries zl bs) (\<lambda>files.
       let candidates = filter is_candidate_manifest (map fst files) in
       if candidates = [] then
         Inl (bundle_error (lit ''bundle contains no configuration manifests; place *.yaml/*.yml documents at the bundle root or under a top-level config/ directory''))
       else try_res (discover_source_dirs cd files candidates) (\<lambda>source_dirs.
         let manifest_paths = manifests_of candidates source_dirs in
         if manifest_paths = [] then
           Inl (bundle_error (lit ''every candidate manifest lies inside a skill source directory; no configuration documents remain''))
         else try_res (merge_manifests cd files manifest_paths manifest_paths empty_accumulator) finish))"

section \<open>The safety limits\<close>

lemma read_entry_bounded_limits:
  assumes "read_entry_bounded reads display contents tot = (Inr raw, tot')" "length contents \<le> MAX_ENTRY_BYTES" "tot \<le> MAX_TOTAL_BYTES"
  shows "length raw \<le> MAX_ENTRY_BYTES \<and> tot' \<le> MAX_TOTAL_BYTES \<and> tot' = tot + (length raw - length contents) \<and> length contents \<le> length raw"
  using assms
proof (induction reads display contents tot rule: read_entry_bounded.induct)
  case (3 chunk reads display contents tot)
  show ?case
  proof (cases "chunk = []")
    case False
    let ?t = "saturating_add tot (length chunk)"
    have le: "length contents + length chunk \<le> MAX_ENTRY_BYTES" and t: "?t \<le> MAX_TOTAL_BYTES"
      and r: "read_entry_bounded reads display (contents @ chunk) ?t = (Inr raw, tot')"
      using "3.prems" False by (auto simp: Let_def split: if_splits)
    have "?t = tot + length chunk" using le "3.prems"(3) t by (simp add: saturating_add_def MAX_TOTAL_BYTES_def MAX_ENTRY_BYTES_def min_def)
    with "3.IH" [OF False _ refl _ r] le t show ?thesis by (auto split: if_splits)
  qed (use "3.prems" in auto)
qed auto

lemma normalize_segments_ok:
  "normalize_segments name acc xs = Inr segs \<Longrightarrow> segs = acc @ filter (\<lambda>s. s \<noteq> [] \<and> s \<noteq> ''.'') xs \<and> ''..'' \<notin> set xs"
  by (induction name acc xs rule: normalize_segments.induct) (auto split: if_splits)

text \<open>A normalized path: at least one segment, none of them empty, \<^verbatim>\<open>.\<close> or \<^verbatim>\<open>..\<close>.\<close>

definition is_normal_path :: "string \<Rightarrow> bool" where
  "is_normal_path p \<longleftrightarrow> list_all (\<lambda>s. s \<noteq> [] \<and> s \<noteq> ''.'' \<and> s \<noteq> ''..'') (split_on (CHR ''/'') p)"

lemma normal_join:
  assumes "segs \<noteq> []" "\<forall>s \<in> set segs. s \<noteq> [] \<and> s \<noteq> ''.'' \<and> s \<noteq> ''..'' \<and> CHR ''/'' \<notin> set s"
  shows "is_normal_path (join_with ''/'' segs)"
  using assms split_join [of segs "CHR ''/''"] by (auto simp: is_normal_path_def list_all_iff)

lemma normalize_entry_path_normal: "normalize_entry_path name = Inr p \<Longrightarrow> is_normal_path p"
  by (auto simp: normalize_entry_path_def try_res_Inr_iff dest!: normalize_segments_ok split: if_splits
      intro!: normal_join dest: split_on_parts)

text \<open>What the limits promise of the files that were read.\<close>

definition bundle_files_ok :: "string btree \<Rightarrow> bool" where
  "bundle_files_ok files \<longleftrightarrow>
     btree_ok files \<and> (\<forall>(p, c) \<in> set files. is_normal_path p \<and> length c \<le> MAX_ENTRY_BYTES) \<and>
     sum_list (map (\<lambda>e. length (snd e)) files) \<le> MAX_TOTAL_BYTES"

lemma read_zip_entry_Some:
  assumes "read_zip_entry entry tot = (Inr (Some (p, c)), tot')" "tot \<le> MAX_TOTAL_BYTES"
  shows "is_normal_path p \<and> length c \<le> MAX_ENTRY_BYTES \<and> tot' = tot + length c \<and> tot' \<le> MAX_TOTAL_BYTES"
  using assms
  by (auto simp: read_zip_entry_def try_io_Inr_iff from_utf8_def ok_or_Inr_iff split: if_splits option.splits
      dest!: read_entry_bounded_limits intro: normalize_entry_path_normal)

lemma read_zip_entry_None: "read_zip_entry entry tot = (Inr None, tot') \<Longrightarrow> tot' = tot"
  by (auto simp: read_zip_entry_def try_io_Inr_iff split: if_splits option.splits)

lemma set_btree_insert_fresh:
  "map_of m k = None \<Longrightarrow> set (btree_insert k v m) = insert (k, v) (set m)"
  "map_of m k = None \<Longrightarrow> sum_list (map (\<lambda>e. length (snd e)) (btree_insert k v m)) = length v + sum_list (map (\<lambda>e. length (snd e)) m)"
  "length (btree_insert k v m) \<le> Suc (length m)"
proof (induction m)
  case (Cons e m)
  obtain k' v' where e: "e = (k', v')" by (cases e)
  { case 1 then show ?case using Cons.IH(1) by (auto simp: e split: if_splits) }
  { case 2 then show ?case using Cons.IH(2) by (auto simp: e split: if_splits) }
  { case 3 then show ?case using Cons.IH(3) by (auto simp: e) }
qed auto

lemma read_entries_loop_ok:
  assumes "read_entries_loop es files tot = Inr files'" "bundle_files_ok files"
    "tot = sum_list (map (\<lambda>e. length (snd e)) files)"
  shows "bundle_files_ok files' \<and> length files' \<le> length files + length es"
  using assms
proof (induction es arbitrary: files tot)
  case (Cons item rest)
  obtain entry where item: "item = Inr entry" using Cons.prems(1) by (cases item) auto
  have bound: "tot \<le> MAX_TOTAL_BYTES" using Cons.prems(2,3) by (simp add: bundle_files_ok_def)
  obtain r tot1 where re: "read_zip_entry entry tot = (r, tot1)" by (cases "read_zip_entry entry tot")
  show ?case
  proof (cases r)
    case (Inr x)
    show ?thesis
    proof (cases x)
      case None
      then show ?thesis using Cons.IH [of files tot1] Cons.prems Inr re item read_zip_entry_None [of entry tot tot1] by auto
    next
      case (Some nc)
      obtain p c where nc: "nc = (p, c)" by (cases nc)
      have fresh: "map_of files p = None"
        and rest: "read_entries_loop rest (btree_insert p c files) tot1 = Inr files'"
        using Cons.prems(1) re Inr Some nc item by (auto simp: contains_key_def split: if_splits)
      have e: "is_normal_path p" "length c \<le> MAX_ENTRY_BYTES" "tot1 = tot + length c" "tot1 \<le> MAX_TOTAL_BYTES"
        using read_zip_entry_Some [OF _ bound] re Inr Some nc by auto
      have ok: "bundle_files_ok (btree_insert p c files)"
        using Cons.prems(2,3) e set_btree_insert_fresh(1,2) [OF fresh, of c] by (auto simp: bundle_files_ok_def)
      have l: "length (btree_insert p c files) \<le> Suc (length files)" by (rule set_btree_insert_fresh)
      have s: "tot1 = sum_list (map (\<lambda>e. length (snd e)) (btree_insert p c files))"
        using Cons.prems(3) e(3) set_btree_insert_fresh(2) [OF fresh, of c] by simp
      show ?thesis
        using Cons.IH [OF rest ok s] l by simp
    qed
  qed (use Cons.prems re item in auto)
qed simp

lemma read_entries_ok:
  assumes "read_entries zl bs = Inr files"
  shows "bundle_files_ok files \<and> length files \<le> MAX_ENTRIES"
  using assms read_entries_loop_ok [of _ "[]" 0 files]
  by (fastforce simp: read_entries_def bundle_files_ok_def split: sum.splits if_splits)

section \<open>Source directories\<close>

definition safe_segment :: "string \<Rightarrow> bool" where
  "safe_segment s \<longleftrightarrow> s \<noteq> [] \<and> s \<noteq> ''.'' \<and> s \<noteq> ''..'' \<and> CHR ''/'' \<notin> set s"

lemma resolve_segments_ok:
  "resolve_segments path acc xs = Inr segs \<Longrightarrow> \<forall>s \<in> set xs. CHR ''/'' \<notin> set s \<Longrightarrow>
    \<forall>s \<in> set acc. safe_segment s \<Longrightarrow> \<forall>s \<in> set segs. safe_segment s"
proof (induction xs arbitrary: acc)
  case (Cons seg rest)
  have bl: "\<forall>s \<in> set (butlast acc). safe_segment s" using Cons.prems(3) by (auto dest: in_set_butlastD)
  have rest: "\<forall>s \<in> set rest. CHR ''/'' \<notin> set s" using Cons.prems(2) by simp
  show ?case
  proof (cases "seg = [] \<or> seg = ''.''")
    case True
    then show ?thesis using Cons.IH [OF _ rest Cons.prems(3)] Cons.prems(1) by auto
  next
    case False
    then have "seg \<noteq> ''..'' \<Longrightarrow> \<forall>s \<in> set (acc @ [seg]). safe_segment s"
      using Cons.prems(2,3) by (simp add: safe_segment_def)
    then show ?thesis
      using False Cons.prems(1) Cons.IH [OF _ rest bl] Cons.IH [of "acc @ [seg]", OF _ rest]
      by (cases "seg = ''..''") (simp_all split: if_splits)
  qed
qed simp

lemma resolve_relative_confined:
  assumes "resolve_relative base_dir path = Inr p"
  shows "p = [] \<or> is_normal_path p"
proof -
  obtain segs comb where s: "resolve_segments path [] (split_on (CHR ''/'') comb) = Inr segs" and p: "p = join_with ''/'' segs"
    using assms by (auto simp: resolve_relative_def Let_def try_res_Inr_iff split: if_splits)
  have "\<forall>s \<in> set segs. safe_segment s"
    by (rule resolve_segments_ok [OF s]) (auto dest: split_on_parts)
  then show ?thesis using normal_join [of segs] by (cases "segs = []") (auto simp: p safe_segment_def)
qed

lemma discover_step_cong:
  assumes "set ds = set ds'"
  shows "set (discover_step cd files m ds) = set (discover_step cd files m ds')"
proof -
  have "in_source_dir ds m = in_source_dir ds' m" using assms by (simp add: in_source_dir_def list_ex_iff)
  then show ?thesis using assms by (simp add: discover_step_def split: sum.split)
qed

lemma discover_pass_cong:
  assumes "set ds = set ds'"
  shows "set (discover_pass cd files ms ds) = set (discover_pass cd files ms ds')"
  using assms unfolding discover_pass_def
proof (induction ms arbitrary: ds ds')
  case (Cons m ms)
  show ?case using Cons.IH [OF discover_step_cong [OF Cons.prems]] by simp
qed simp

lemma discover_loop_fixpoint: "set (discover_pass cd files candidates (discover_loop cd files candidates ds)) = set (discover_loop cd files candidates ds)"
proof (induction cd files candidates ds rule: discover_loop.induct)
  case (1 cd files candidates ds)
  show ?case
  proof (cases "set (discover_pass cd files candidates ds) = set ds")
    case True
    have "set (discover_pass cd files candidates (discover_pass cd files candidates ds)) = set (discover_pass cd files candidates ds)"
      by (rule discover_pass_cong [OF True, unfolded True [symmetric]])
    with True show ?thesis by (simp add: discover_loop.simps [of cd files candidates ds] Let_def)
  next
    case False
    then show ?thesis using 1 [OF refl False] by (simp add: discover_loop.simps [of cd files candidates ds] Let_def)
  qed
qed

end
