(* ===== verification/Config_Validate.thy ===== *)
theory Config_Validate
  imports Config_Document
begin

text \<open>
  Validation of a configuration document (\<^verbatim>\<open>config/validate.rs\<close>) and of the content of skills
  (\<^verbatim>\<open>config/skill_validation.rs\<close>): identities, references, secrets, environment rules, file paths and
  volume mounts.
\<close>

section \<open>Secret references\<close>

record secret_reference =
  sr_name :: secret_name
  sr_field :: string

definition collect_value :: "string \<Rightarrow> string config_value \<Rightarrow> secret_reference list" where
  "collect_value field v = (case v of Secret n \<Rightarrow> [\<lparr>sr_name = n, sr_field = field\<rparr>] | Literal _ \<Rightarrow> [])"

definition collect_env :: "string \<Rightarrow> env_map option \<Rightarrow> secret_reference list" where
  "collect_env pre env =
     (case env of None \<Rightarrow> [] | Some m \<Rightarrow> concat (map (\<lambda>(k, v). collect_value (pre @ ''/'' @ k) v) m))"

definition secret_references :: "config_document \<Rightarrow> secret_reference list" where
  "secret_references doc =
     concat (map (\<lambda>c.
         collect_value (''connections/'' @ cn_id c @ ''/url'') (cn_url c) @
         (case cn_api_key c of None \<Rightarrow> [] | Some k \<Rightarrow> collect_value (''connections/'' @ cn_id c @ ''/apiKey'') k))
       (cs_connections (spec doc))) @
     concat (map (\<lambda>k. collect_env (''kernelConfigs/'' @ harness_str (kc_harness k) @ ''/env'') (kc_env k))
       (cs_kernel_configs (spec doc))) @
     concat (map (\<lambda>a.
         collect_value (''agents/'' @ ag_id a @ ''/systemPrompt'') (ag_system_prompt a) @
         collect_env (''agents/'' @ ag_id a @ ''/env'') (ag_env a))
       (cs_agents (spec doc))) @
     concat (map (\<lambda>g.
         collect_env (''gateways/'' @ gw_id g @ ''/env'') (gw_env g) @
         concat (map (\<lambda>(k, v). collect_value (''gateways/'' @ gw_id g @ ''/secrets/'' @ k) v) (gw_secrets g)))
       (cs_gateways (spec doc)))"

section \<open>Skill content\<close>

definition SKILL_MARKDOWN_FILE :: string where "SKILL_MARKDOWN_FILE = ''SKILL.md''"
definition SKILL_METADATA_FILE :: string where "SKILL_METADATA_FILE = ''agentspace.json''"

definition RESERVED_MOUNT_PATHS :: "string list" where
  "RESERVED_MOUNT_PATHS =
     [''/workspace'', ''/root/.copilot'', ''/mnt/all-skills'', ''/skills'', ''/root/.config/opencode/skills'']"

record skill_content_issue =
  sci_code :: string
  sci_message :: message
  sci_field :: "string option"

definition content_issue :: "string \<Rightarrow> message \<Rightarrow> string \<Rightarrow> skill_content_issue" where
  "content_issue code msg field = \<lparr>sci_code = code, sci_message = msg, sci_field = Some field\<rparr>"

text \<open>\<^verbatim>\<open>C:foo\<close>: one ASCII letter before the first colon.\<close>

definition drive_prefix :: "string \<Rightarrow> bool" where
  "drive_prefix p = (case split_once (CHR '':'') p of Some ([c], _) \<Rightarrow> is_ascii_alphabetic c | _ \<Rightarrow> False)"

text \<open>\<^verbatim>\<open>Path::is_absolute\<close> is, on the platforms the service runs on, a leading slash, which has been
  rejected by then.\<close>

definition is_safe_relative_path :: "string \<Rightarrow> bool" where
  "is_safe_relative_path p \<longleftrightarrow>
     \<not> (p = [] \<or> prefix ''/'' p \<or> CHR 0x5C \<in> set p) \<and> \<not> drive_prefix p \<and>
     ''..'' \<notin> set (split_on (CHR ''/'') p) \<and>
     list_ex (\<lambda>c. c \<noteq> [] \<and> c \<noteq> ''.'' \<and> c \<noteq> ''..'') (split_on (CHR ''/'') p)"

definition is_valid_mount_path :: "string \<Rightarrow> bool" where
  "is_valid_mount_path p \<longleftrightarrow>
     prefix ''/'' p \<and> p \<noteq> ''/'' \<and> \<not> suffix ''/'' p \<and>
     list_all (\<lambda>c. c \<noteq> [] \<and> c \<noteq> ''.'' \<and> c \<noteq> ''..'') (tl (split_on (CHR ''/'') p)) \<and>
     \<not> list_ex (\<lambda>r. p = r \<or> prefix (r @ ''/'') p) RESERVED_MOUNT_PATHS"

text \<open>The loop over the declared volumes; the mount paths seen so far map to the skill that declares
  them.\<close>

fun validate_volumes ::
  "string \<Rightarrow> volume_declaration list \<Rightarrow> string list \<Rightarrow> skill_content_issue list \<Rightarrow> string btree
    \<Rightarrow> skill_content_issue list \<times> string btree" where
  "validate_volumes skill_id [] ids issues mounts = (issues, mounts)"
| "validate_volumes skill_id (v # vs) ids issues mounts =
     (let field = ''skills/'' @ skill_id @ ''/files/'' @ SKILL_METADATA_FILE;
          issues1 = (if vd_id v \<in> set ids then
            issues @ [content_issue ''invalid_skill_metadata''
              [Txt ''skill '', Dbg skill_id, Txt '' declares duplicate volume resource id '', Dbg (vd_id v)] field]
            else issues)
      in if \<not> is_valid_mount_path (vd_mount_path v) then
           validate_volumes skill_id vs (vd_id v # ids)
             (issues1 @ [content_issue ''invalid_skill_mount_path''
                [Txt ''skill '', Dbg skill_id, Txt '' volume mount path '', Dbg (vd_mount_path v),
                 Txt '' must be a normalized absolute path that does not overlap a reserved kernel path''] field]) mounts
         else
           validate_volumes skill_id vs (vd_id v # ids)
             (case btree_get mounts (vd_mount_path v) of
                None \<Rightarrow> issues1
              | Some previous \<Rightarrow> issues1 @ [content_issue ''skill_mount_path_collision''
                  [Txt ''skill '', Dbg skill_id, Txt '' volume mount path '', Dbg (vd_mount_path v),
                   Txt '' collides with skill '', Dbg previous] field])
             (btree_insert (vd_mount_path v) skill_id mounts))"

definition validate_skill_content ::
  "codecs \<Rightarrow> string \<Rightarrow> string btree \<Rightarrow> string btree \<Rightarrow> skill_content_issue list \<times> string btree" where
  "validate_skill_content cd skill_id files mounts =
     (let markdown = (if contains_key files SKILL_MARKDOWN_FILE then [] else
            [content_issue ''missing_skill_markdown''
               [Txt ''skill '', Dbg skill_id, Txt '' must contain a '', Txt SKILL_MARKDOWN_FILE, Txt '' document'']
               (''skills/'' @ skill_id @ ''/files/'' @ SKILL_MARKDOWN_FILE)]);
          paths = map (\<lambda>p. content_issue ''invalid_skill_file_path''
               [Txt ''skill '', Dbg skill_id, Txt '' file path '', Dbg p, Txt '' is not a safe relative path'']
               (''skills/'' @ skill_id @ ''/files''))
            (filter (\<lambda>p. \<not> is_safe_relative_path p) (map fst files));
          field = ''skills/'' @ skill_id @ ''/files/'' @ SKILL_METADATA_FILE
      in case btree_get files SKILL_METADATA_FILE of
           None \<Rightarrow> (markdown @ paths, mounts)
         | Some content \<Rightarrow>
             (case skill_metadata_of_json cd content of
                Inl e \<Rightarrow> (markdown @ paths @ [content_issue ''invalid_skill_metadata''
                  [Txt ''skill '', Dbg skill_id, Txt '' '', Txt SKILL_METADATA_FILE, Txt '' is invalid: '', Ext e] field], mounts)
              | Inr meta \<Rightarrow>
                  (if sm_schema_version meta \<noteq> 1 then
                     (markdown @ paths @ [content_issue ''invalid_skill_metadata''
                       [Txt ''skill '', Dbg skill_id, Txt '' '', Txt SKILL_METADATA_FILE,
                        Txt '' has unsupported schemaVersion '', Txt (show_nat (sm_schema_version meta)),
                        Txt ''; expected 1''] field], mounts)
                   else validate_volumes skill_id (sm_volumes meta) [] (markdown @ paths) mounts)))"

section \<open>The document graph\<close>

definition validate_env_exclusive :: "string \<Rightarrow> bool \<Rightarrow> bool \<Rightarrow> validation_issue list" where
  "validate_env_exclusive resource has_env has_env_text =
     (if has_env \<and> has_env_text then
        [with_resource resource (issue ''env_conflict''
           [Txt resource, Txt '' sets both env and envText, which are mutually exclusive''])]
      else [])"

definition is_err :: "('e, 'a) result \<Rightarrow> bool" where
  "is_err r = (case r of Inl _ \<Rightarrow> True | Inr _ \<Rightarrow> False)"

definition validate_identities :: "config_document \<Rightarrow> validation_issue list" where
  "validate_identities doc =
     concat (map (\<lambda>c. if is_err (validate_connection_id (cn_id c)) then
         [with_resource (''connection/'' @ cn_id c)
            (issue ''invalid_connection_id'' [Txt ''invalid connection id '', Dbg (cn_id c)])] else [])
       (cs_connections (spec doc))) @
     concat (map (\<lambda>s. if is_err (validate_skill_id (sk_id s)) then
         [with_resource (''skill/'' @ sk_id s) (issue ''invalid_skill_id'' [Txt ''invalid skill id '', Dbg (sk_id s)])] else [])
       (cs_skills (spec doc)))"

text \<open>\<^verbatim>\<open>validate_skills\<close>: the content issues of every skill, the mount paths threaded through.\<close>

definition skill_issue :: "string \<Rightarrow> skill_content_issue \<Rightarrow> validation_issue" where
  "skill_issue skill_id ci =
     (let i = with_resource (''skill/'' @ skill_id) (issue (sci_code ci) (sci_message ci))
      in case sci_field ci of None \<Rightarrow> i | Some f \<Rightarrow> with_field f i)"

fun validate_skills_from :: "codecs \<Rightarrow> skill list \<Rightarrow> string btree \<Rightarrow> validation_issue list" where
  "validate_skills_from cd [] mounts = []"
| "validate_skills_from cd (s # rest) mounts =
     (case validate_skill_content cd (sk_id s) (sk_files s) mounts of
        (issues, mounts') \<Rightarrow> map (skill_issue (sk_id s)) issues @ validate_skills_from cd rest mounts')"

definition validate_skills :: "codecs \<Rightarrow> config_document \<Rightarrow> validation_issue list" where
  "validate_skills cd doc = validate_skills_from cd (cs_skills (spec doc)) []"

definition validate_skill_builtin_collisions :: "config_document \<Rightarrow> string list \<Rightarrow> validation_issue list" where
  "validate_skill_builtin_collisions doc builtin =
     concat (map (\<lambda>s. if sk_id s \<in> set builtin then
         [with_field (''skills/'' @ sk_id s @ ''/id'') (with_resource (''skill/'' @ sk_id s)
            (issue ''builtin_skill_collision''
               [Txt ''user skill '', Dbg (sk_id s), Txt '' collides with an installation-owned builtin skill'']))] else [])
       (cs_skills (spec doc)))"

definition agent_connection_issues :: "agent \<Rightarrow> string list \<Rightarrow> validation_issue list" where
  "agent_connection_issues a connection_ids =
     (case ag_connection a of
        Some c \<Rightarrow> (if c \<in> set connection_ids then [] else
          [with_field (''agents/'' @ ag_id a @ ''/connection'') (with_resource (''agent/'' @ ag_id a)
             (issue ''unresolved_connection_reference''
                [Txt ''agent '', Dbg (ag_id a), Txt '' references unknown connection '', Dbg c]))])
      | None \<Rightarrow> []) @
     (case Option.bind (ag_cli a) ac_connection of
        Some c \<Rightarrow> (if c \<in> set connection_ids then [] else
          [with_field (''agents/'' @ ag_id a @ ''/cli/connection'') (with_resource (''agent/'' @ ag_id a)
             (issue ''unresolved_connection_reference''
                [Txt ''agent '', Dbg (ag_id a), Txt '' CLI references unknown connection '', Dbg c]))])
      | None \<Rightarrow> [])"

definition validate_agent ::
  "agent \<Rightarrow> string list \<Rightarrow> string list \<Rightarrow> string list \<Rightarrow> bool \<Rightarrow> validation_issue list" where
  "validate_agent a connection_ids skill_ids builtin check_skill_refs =
     (if is_err (validate_agent_id (ag_id a)) then
        [with_resource (''agent/'' @ ag_id a) (issue ''invalid_agent_id'' [Txt ''invalid agent id '', Dbg (ag_id a)])] else []) @
     agent_connection_issues a connection_ids @
     concat (map (\<lambda>sk. if check_skill_refs \<and> sk \<notin> set skill_ids \<and> sk \<notin> set builtin then
         [with_field (''agents/'' @ ag_id a @ ''/skills'') (with_resource (''agent/'' @ ag_id a)
            (issue ''unresolved_skill_reference''
               [Txt ''agent '', Dbg (ag_id a), Txt '' references unknown skill '', Dbg sk]))] else []) (ag_skills a)) @
     validate_env_exclusive (''agent/'' @ ag_id a) (ag_env a \<noteq> None) (ag_env_text a \<noteq> None)"

definition validate_kernels :: "config_document \<Rightarrow> validation_issue list" where
  "validate_kernels doc =
     concat (map (\<lambda>k. validate_env_exclusive (''kernelConfig/'' @ harness_str (kc_harness k)) (kc_env k \<noteq> None) (kc_env_text k \<noteq> None))
       (cs_kernel_configs (spec doc)))"

definition validate_gateway :: "gateway \<Rightarrow> string list \<Rightarrow> validation_issue list" where
  "validate_gateway g agent_ids =
     (if is_err (validate_gateway_id (gw_id g)) then
        [with_resource (''gateway/'' @ gw_id g) (issue ''invalid_gateway_id'' [Txt ''invalid gateway id '', Dbg (gw_id g)])] else []) @
     (if gw_agent g \<in> set agent_ids then [] else
        [with_field (''gateways/'' @ gw_id g @ ''/agent'') (with_resource (''gateway/'' @ gw_id g)
           (issue ''unresolved_agent_reference''
              [Txt ''gateway '', Dbg (gw_id g), Txt '' references unknown agent '', Dbg (gw_agent g)]))]) @
     validate_env_exclusive (''gateway/'' @ gw_id g) (gw_env g \<noteq> None) (gw_env_text g \<noteq> None) @
     (case gw_env g of
        None \<Rightarrow> []
      | Some env \<Rightarrow> concat (map (\<lambda>k. if contains_key (gw_secrets g) k then
            [with_field (''gateways/'' @ gw_id g @ ''/env/'' @ k) (with_resource (''gateway/'' @ gw_id g)
               (issue ''duplicate_gateway_key''
                  [Txt ''gateway '', Dbg (gw_id g), Txt '' key '', Dbg k, Txt '' appears in both env and secrets'']))] else [])
          (map fst env)))"

definition validate_secret_refs :: "config_document \<Rightarrow> string list \<Rightarrow> validation_issue list" where
  "validate_secret_refs doc declared =
     concat (map (\<lambda>r. if sr_name r \<in> set declared then [] else
         [with_field (sr_field r) (issue ''unresolved_secret_reference''
            [Txt ''field '', Txt (sr_field r), Txt '' references undeclared secret '', Txt (sr_name r)])])
       (secret_references doc))"

definition validation_issues :: "codecs \<Rightarrow> config_document \<Rightarrow> string list \<Rightarrow> bool \<Rightarrow> validation_issue list" where
  "validation_issues cd doc builtin check_skill_refs =
     (let declared = map sd_name (cs_secrets (spec doc)); connection_ids = map cn_id (cs_connections (spec doc));
          skill_ids = map sk_id (cs_skills (spec doc)); agent_ids = map ag_id (cs_agents (spec doc))
      in (if trim (metadata_name doc) = [] then
            [with_field ''metadata/name'' (issue ''invalid_metadata_name'' (lit ''metadata.name must not be empty''))] else []) @
         validate_identities doc @
         validate_skill_builtin_collisions doc builtin @
         validate_skills cd doc @
         concat (map (\<lambda>a. validate_agent a connection_ids skill_ids builtin check_skill_refs) (cs_agents (spec doc))) @
         validate_kernels doc @
         concat (map (\<lambda>g. validate_gateway g agent_ids) (cs_gateways (spec doc))) @
         validate_secret_refs doc declared)"

definition validate_inner :: "codecs \<Rightarrow> config_document \<Rightarrow> string list \<Rightarrow> bool \<Rightarrow> (config_error, unit) result" where
  "validate_inner cd doc builtin check_skill_refs =
     (let issues = validation_issues cd doc builtin check_skill_refs
      in if issues = [] then Inr () else Inl (Validation issues))"

definition validate :: "codecs \<Rightarrow> config_document \<Rightarrow> string list \<Rightarrow> (config_error, unit) result" where
  "validate cd doc builtin = validate_inner cd doc builtin True"

definition validate_mutation :: "codecs \<Rightarrow> config_document \<Rightarrow> (config_error, unit) result" where
  "validate_mutation cd doc = validate_inner cd doc [] False"

definition metadata_name_or_default :: "string \<Rightarrow> string" where
  "metadata_name_or_default name = (if trim name = [] then DEFAULT_METADATA_NAME else name)"

section \<open>What a valid document is\<close>

text \<open>The specification: the graph has no dangling edge.\<close>

definition refs_resolve :: "config_document \<Rightarrow> string list \<Rightarrow> bool" where
  "refs_resolve doc builtin \<longleftrightarrow>
     (\<forall>a \<in> set (cs_agents (spec doc)).
        (\<forall>c. ag_connection a = Some c \<or> Option.bind (ag_cli a) ac_connection = Some c \<longrightarrow> find_connection doc c \<noteq> None) \<and>
        set (ag_skills a) \<subseteq> sk_id ` set (cs_skills (spec doc)) \<union> set builtin) \<and>
     (\<forall>g \<in> set (cs_gateways (spec doc)). gw_agent g \<in> ag_id ` set (cs_agents (spec doc))) \<and>
     (\<forall>r \<in> set (secret_references doc). secret_declared doc (sr_name r))"

lemma validate_Inr_iff: "validate_inner cd doc b f = Inr () \<longleftrightarrow> validation_issues cd doc b f = []"
  by (simp add: validate_inner_def Let_def)

lemma is_err_simps [simp]: "is_err (Inl e)" "\<not> is_err (Inr x)"
  by (simp_all add: is_err_def)

lemma find_connection_iff: "find_connection doc c \<noteq> None \<longleftrightarrow> c \<in> cn_id ` set (cs_connections (spec doc))"
  by (auto simp: find_connection_def find_None_iff)

lemma secret_declared_iff: "secret_declared doc n \<longleftrightarrow> n \<in> sd_name ` set (cs_secrets (spec doc))"
  by (auto simp: secret_declared_def list_ex_iff)

end
