(* ===== verification/Config_Plan.thy ===== *)
theory Config_Plan
  imports Config_Document "HOL-Library.Multiset"
begin

text \<open>
  Plans (\<^verbatim>\<open>config/plan.rs\<close>): the redacted list of resource-level changes between two documents.  Resources
  are compared by their JSON form, which the derived serialisers of \<^verbatim>\<open>document.rs\<close> give.
\<close>

section \<open>JSON forms\<close>

fun value_json :: "string config_value \<Rightarrow> json" where
  "value_json (Literal v) = JStr v"
| "value_json (Secret n) = JObj [(''secretRef'', JStr n)]"

definition env_json :: "env_map \<Rightarrow> json" where
  "env_json m = JObj (map (\<lambda>(k, v). (k, value_json v)) m)"

definition secret_json :: "secret_declaration \<Rightarrow> json" where
  "secret_json s = JObj ((''name'', JStr (sd_name s)) # json_skip_none ''description'' JStr (sd_description s))"

definition kernel_json :: "kernel_config \<Rightarrow> json" where
  "kernel_json k = JObj ((''harness'', JStr (harness_str (kc_harness k))) #
     json_skip_none ''env'' env_json (kc_env k) @ json_skip_none ''envText'' JStr (kc_env_text k))"

definition connection_json :: "connection \<Rightarrow> json" where
  "connection_json c = JObj ([(''id'', JStr (cn_id c)), (''name'', JStr (cn_name c)), (''url'', value_json (cn_url c)),
     (''apiFlavor'', JStr (api_flavor_str (cn_api_flavor c)))] @ json_skip_none ''apiKey'' value_json (cn_api_key c))"

definition skill_json :: "skill \<Rightarrow> json" where
  "skill_json s = JObj [(''id'', JStr (sk_id s)), (''files'', JObj (map (\<lambda>(k, v). (k, JStr v)) (sk_files s)))]"

definition agent_cli_json :: "agent_cli_config \<Rightarrow> json" where
  "agent_cli_json c = JObj ((''harness'', JStr (cli_harness_str (ac_harness c))) #
     json_skip_none ''connection'' JStr (ac_connection c))"

definition agent_json :: "agent \<Rightarrow> json" where
  "agent_json a = JObj ([(''id'', JStr (ag_id a)), (''name'', JStr (ag_name a)), (''harness'', JStr (harness_str (ag_harness a)))] @
     json_skip_none ''connection'' JStr (ag_connection a) @ json_skip_none ''cli'' agent_cli_json (ag_cli a) @
     [(''systemPrompt'', value_json (ag_system_prompt a))] @
     (if ag_skills a = [] then [] else [(''skills'', JArr (map JStr (ag_skills a)))]) @
     json_skip_none ''env'' env_json (ag_env a) @ json_skip_none ''envText'' JStr (ag_env_text a))"

definition gateway_json :: "gateway \<Rightarrow> json" where
  "gateway_json g = JObj ([(''id'', JStr (gw_id g)), (''name'', JStr (gw_name g)), (''type'', JStr (gateway_type_str (gw_type g))),
     (''agent'', JStr (gw_agent g)), (''enabled'', JBool (gw_enabled g))] @
     json_skip_none ''env'' env_json (gw_env g) @ json_skip_none ''envText'' JStr (gw_env_text g) @
     (if gw_secrets g = [] then [] else [(''secrets'', env_json (gw_secrets g))]))"

section \<open>Plans\<close>

datatype plan_action = Create | Update | Delete | NoOp

fun plan_action_str :: "plan_action \<Rightarrow> string" where
  "plan_action_str Create = ''create''"
| "plan_action_str Update = ''update''"
| "plan_action_str Delete = ''delete''"
| "plan_action_str NoOp = ''no-op''"

record plan_entry =
  pe_kind :: string
  pe_id :: string
  pe_action :: plan_action

definition plan_count :: "plan_action \<Rightarrow> plan_entry list \<Rightarrow> nat" where
  "plan_count a entries = length (filter (\<lambda>e. pe_action e = a) entries)"

definition plan_to_json :: "plan_entry list \<Rightarrow> json" where
  "plan_to_json entries = JObj
     [(''changes'', JArr (map (\<lambda>e. JObj [(''kind'', JStr (pe_kind e)), (''id'', JStr (pe_id e)),
         (''action'', JStr (plan_action_str (pe_action e)))]) entries)),
      (''summary'', JObj (map (\<lambda>a. (plan_action_str a, JNum (int (plan_count a entries)))) [Create, Update, Delete, NoOp]))]"

text \<open>\<^verbatim>\<open>map_of\<close>: the resources of one kind by identity.\<close>

definition resource_map :: "('a \<Rightarrow> string) \<Rightarrow> ('a \<Rightarrow> json) \<Rightarrow> 'a list \<Rightarrow> json btree" where
  "resource_map ident js items = btree_of (map (\<lambda>x. (ident x, js x)) items)"

definition diff_collection :: "string \<Rightarrow> json btree \<Rightarrow> json btree \<Rightarrow> plan_entry list" where
  "diff_collection k current nxt =
     List.map_filter (\<lambda>i.
       map_option (\<lambda>a. \<lparr>pe_kind = k, pe_id = i, pe_action = a\<rparr>)
         (case (btree_get current i, btree_get nxt i) of
            (None, Some _) \<Rightarrow> Some Create
          | (Some _, None) \<Rightarrow> Some Delete
          | (Some before, Some after) \<Rightarrow> Some (if before = after then NoOp else Update)
          | (None, None) \<Rightarrow> None))
       (remdups_adj (sort (map fst current @ map fst nxt)))"

definition plan :: "config_document \<Rightarrow> config_document \<Rightarrow> plan_entry list" where
  "plan current nxt =
     (let c = spec current; n = spec nxt
      in diff_collection ''secret'' (resource_map sd_name secret_json (cs_secrets c)) (resource_map sd_name secret_json (cs_secrets n)) @
         diff_collection ''kernelConfig'' (resource_map (harness_str \<circ> kc_harness) kernel_json (cs_kernel_configs c))
           (resource_map (harness_str \<circ> kc_harness) kernel_json (cs_kernel_configs n)) @
         diff_collection ''connection'' (resource_map cn_id connection_json (cs_connections c)) (resource_map cn_id connection_json (cs_connections n)) @
         diff_collection ''skill'' (resource_map sk_id skill_json (cs_skills c)) (resource_map sk_id skill_json (cs_skills n)) @
         diff_collection ''agent'' (resource_map ag_id agent_json (cs_agents c)) (resource_map ag_id agent_json (cs_agents n)) @
         diff_collection ''gateway'' (resource_map gw_id gateway_json (cs_gateways c)) (resource_map gw_id gateway_json (cs_gateways n)))"

section \<open>JSON forms are faithful\<close>

lemma keys_json_skip [simp]: "k \<in> fst ` set (json_skip_none k' f x) \<longleftrightarrow> k = k' \<and> x \<noteq> None"
  by (cases x) (auto simp: json_skip_none_def)

lemma json_skip_inj:
  assumes "k \<notin> fst ` set r" "k \<notin> fst ` set r'" "\<And>a b. f a = f b \<longleftrightarrow> a = b"
  shows "json_skip_none k f x @ r = json_skip_none k f y @ r' \<longleftrightarrow> x = y \<and> r = r'"
  using assms by (cases x; cases y) (auto simp: json_skip_none_def)

lemma json_skip_inj_end:
  "(\<And>a b. f a = f b \<longleftrightarrow> a = b) \<Longrightarrow> json_skip_none k f x = json_skip_none k f y \<longleftrightarrow> x = y"
  by (auto simp: json_skip_none_def split: option.splits)

lemma value_json_inj [simp]: "value_json v = value_json w \<longleftrightarrow> v = w"
  by (cases v; cases w) auto

lemma entries_json_inj: "(\<And>a b. f a = f b \<longleftrightarrow> a = b) \<Longrightarrow>
    map (\<lambda>(k, v). (k, f v)) m = map (\<lambda>(k, v). (k, f v)) m' \<longleftrightarrow> m = m'"
proof -
  assume f: "\<And>a b. f a = f b \<longleftrightarrow> a = b"
  have "inj (\<lambda>(k, v). (k, f v))" by (rule injI) (auto simp: f)
  then show ?thesis by (rule inj_map_eq_map)
qed

lemma env_json_inj [simp]: "env_json m = env_json m' \<longleftrightarrow> m = m'"
  by (simp add: env_json_def entries_json_inj)

lemma api_flavor_str_inj [simp]: "api_flavor_str a = api_flavor_str b \<longleftrightarrow> a = b"
  by (cases a; cases b) auto

lemma gateway_type_str_inj [simp]: "gateway_type_str a = gateway_type_str b \<longleftrightarrow> a = b"
  by (cases a; cases b) auto

lemma cli_harness_str_inj [simp]: "cli_harness_str a = cli_harness_str b \<longleftrightarrow> a = b"
  by (cases a; cases b) auto

lemma map_JStr_inj [simp]: "map JStr xs = map JStr ys \<longleftrightarrow> xs = ys"
  by (simp add: inj_map_eq_map inj_on_def)

lemma secret_json_inj: "secret_json a = secret_json b \<longleftrightarrow> a = b"
  by (cases a; cases b) (simp add: secret_json_def json_skip_inj_end)

lemma kernel_json_inj: "kernel_json a = kernel_json b \<longleftrightarrow> a = b"
  by (cases a; cases b) (simp add: kernel_json_def json_skip_inj json_skip_inj_end)

lemma connection_json_inj: "connection_json a = connection_json b \<longleftrightarrow> a = b"
  by (cases a; cases b) (simp add: connection_json_def json_skip_inj_end)

lemma skill_json_inj: "skill_json a = skill_json b \<longleftrightarrow> a = b"
  by (cases a; cases b) (simp add: skill_json_def entries_json_inj)

lemma agent_cli_json_inj [simp]: "agent_cli_json a = agent_cli_json b \<longleftrightarrow> a = b"
  by (cases a; cases b) (simp add: agent_cli_json_def json_skip_inj_end)

lemma agent_json_inj: "agent_json a = agent_json b \<longleftrightarrow> a = b"
proof
  have conn: "json_skip_none ''connection'' JStr x @ json_skip_none ''cli'' agent_cli_json c @ (''systemPrompt'', p) # r =
      json_skip_none ''connection'' JStr x' @ json_skip_none ''cli'' agent_cli_json c' @ (''systemPrompt'', p') # r' \<longleftrightarrow>
      x = x' \<and> c = c' \<and> p = p' \<and> r = r'" for x c p r x' c' p' r'
    by (cases x; cases x'; cases c; cases c') (auto simp: json_skip_none_def)
  have env: "json_skip_none ''env'' env_json e @ json_skip_none ''envText'' JStr t =
      json_skip_none ''env'' env_json e' @ json_skip_none ''envText'' JStr t' \<longleftrightarrow> e = e' \<and> t = t'" for e t e' t'
    by (cases e; cases e'; cases t; cases t') (auto simp: json_skip_none_def)
  have skills: "(if s = [] then [] else [(''skills'', JArr (map JStr s))]) @ json_skip_none ''env'' env_json e @ json_skip_none ''envText'' JStr t =
      (if s' = [] then [] else [(''skills'', JArr (map JStr s'))]) @ json_skip_none ''env'' env_json e' @ json_skip_none ''envText'' JStr t' \<longleftrightarrow>
      s = s' \<and> e = e' \<and> t = t'" for s e t s' e' t'
    by (cases "s = []"; cases "s' = []") (simp_all add: env, (auto simp: json_skip_none_def split: option.splits)+)
  assume eq: "agent_json a = agent_json b"
  show "a = b"
    using eq
    by (cases a; cases b) (simp only: agent_json_def json.inject append_Cons append_Nil append_assoc list.inject prod.inject
        conn skills agent.select_convs harness_str_inj value_json_inj refl simp_thms)
qed simp

lemma gateway_json_inj: "gateway_json a = gateway_json b \<longleftrightarrow> a = b"
proof
  have sec: "json_skip_none ''env'' env_json e @ json_skip_none ''envText'' JStr t @ (if s = [] then [] else [(''secrets'', env_json s)]) =
      json_skip_none ''env'' env_json e' @ json_skip_none ''envText'' JStr t' @ (if s' = [] then [] else [(''secrets'', env_json s')])
      \<longleftrightarrow> e = e' \<and> t = t' \<and> s = s'" for e t s e' t' s'
    by (cases e; cases e'; cases t; cases t'; cases s; cases s') (auto simp: json_skip_none_def)
  assume eq: "gateway_json a = gateway_json b"
  show "a = b"
    using eq
    by (cases a; cases b) (simp only: gateway_json_def json.inject append_Cons append_Nil append_assoc list.inject prod.inject
        sec gateway.select_convs gateway_type_str_inj refl simp_thms)
qed simp

section \<open>What a plan says\<close>

lemma map_of_rev_distinct:
  assumes "distinct (map fst xs)"
  shows "map_of (rev xs) = map_of xs"
proof
  fix k
  have d: "distinct (map fst (rev xs))" using assms by (simp add: rev_map [symmetric])
  show "map_of (rev xs) k = map_of xs k"
    using map_of_eq_Some_iff [OF d, of k] map_of_eq_Some_iff [OF assms, of k] by (metis option.exhaust set_rev)
qed

lemma map_of_resource:
  assumes "distinct (map ident xs)"
  shows "map_of (resource_map ident js xs) i = map_option js (find (\<lambda>x. ident x = i) xs)"
proof -
  have "distinct (map fst (map (\<lambda>x. (ident x, js x)) xs))" using assms by (simp add: comp_def)
  then have "map_of (rev (map (\<lambda>x. (ident x, js x)) xs)) = map_of (map (\<lambda>x. (ident x, js x)) xs)"
    by (rule map_of_rev_distinct)
  moreover have "map_of (map (\<lambda>x. (ident x, js x)) xs) i = map_option js (find (\<lambda>x. ident x = i) xs)"
    by (induction xs) auto
  ultimately show ?thesis by (simp add: resource_map_def map_of_btree_of)
qed

lemma set_map_filter: "y \<in> set (List.map_filter f xs) \<longleftrightarrow> (\<exists>x \<in> set xs. f x = Some y)"
  by (induction xs) (auto simp: map_filter_simps split: option.splits)

lemma set_diff_collection:
  "e \<in> set (diff_collection k cur nxt) \<longleftrightarrow> pe_kind e = k \<and>
     (case (map_of cur (pe_id e), map_of nxt (pe_id e)) of
        (None, None) \<Rightarrow> False
      | (None, Some _) \<Rightarrow> pe_action e = Create
      | (Some _, None) \<Rightarrow> pe_action e = Delete
      | (Some b, Some a) \<Rightarrow> pe_action e = (if b = a then NoOp else Update))"
proof -
  have keys: "i \<in> fst ` set cur \<union> fst ` set nxt \<longleftrightarrow> map_of cur i \<noteq> None \<or> map_of nxt i \<noteq> None" for i
    by (auto simp: map_of_eq_None_iff)
  obtain k' i a where e: "e = \<lparr>pe_kind = k', pe_id = i, pe_action = a\<rparr>" by (cases e)
  show ?thesis
    using keys [of i]
    by (cases "map_of cur i"; cases "map_of nxt i") (auto simp: diff_collection_def set_map_filter e)
qed

lemma sort_key_eq_iff:
  fixes f :: "'a \<Rightarrow> 'b :: linorder"
  assumes "distinct (map f xs)" "distinct (map f ys)"
  shows "sort_key f xs = sort_key f ys \<longleftrightarrow> set xs = set ys"
proof
  assume "set xs = set ys"
  then have "mset xs = mset ys" using assms by (simp add: distinct_map set_eq_iff_mset_eq_distinct)
  then show "sort_key f xs = sort_key f ys"
    using assms(1) by (intro sort_key_inj_key_eq) (simp_all add: distinct_map)
qed (metis set_sort)

lemma find_distinct:
  assumes "distinct (map f xs)"
  shows "find (\<lambda>x. f x = i) xs = Some y \<longleftrightarrow> y \<in> set xs \<and> f y = i"
  using assms by (induction xs) (auto simp: image_iff)

lemma diff_noop_iff:
  fixes ident :: "'a \<Rightarrow> string"
  assumes d: "distinct (map ident xs)" "distinct (map ident ys)" and js: "\<And>a b. js a = js b \<longleftrightarrow> a = b"
  shows "(\<forall>e \<in> set (diff_collection k (resource_map ident js xs) (resource_map ident js ys)). pe_action e = NoOp) \<longleftrightarrow>
    sort_key ident xs = sort_key ident ys"
  unfolding sort_key_eq_iff [OF d]
proof
  let ?f = "\<lambda>i zs. find (\<lambda>x. ident x = i) zs"
  assume noop: "\<forall>e \<in> set (diff_collection k (resource_map ident js xs) (resource_map ident js ys)). pe_action e = NoOp"
  have "?f i xs = ?f i ys" for i
  proof -
    have a: "\<lparr>pe_kind = k, pe_id = i, pe_action = a\<rparr> \<in> set (diff_collection k (resource_map ident js xs) (resource_map ident js ys)) \<Longrightarrow> a = NoOp" for a
      using noop by fastforce
    show ?thesis
      using a [of Create] a [of Delete] a [of Update]
      by (cases "?f i xs"; cases "?f i ys") (auto simp: set_diff_collection map_of_resource d js split: if_splits, metis plan_action.distinct)
  qed
  then have "y \<in> set xs \<longleftrightarrow> y \<in> set ys" for y
    using find_distinct [OF d(1), of "ident y" y] find_distinct [OF d(2), of "ident y" y] by simp
  then show "set xs = set ys" by blast
next
  assume eq: "set xs = set ys"
  have "find (\<lambda>x. ident x = i) xs = find (\<lambda>x. ident x = i) ys" for i
  proof (cases "find (\<lambda>x. ident x = i) ys")
    case None
    then have "find (\<lambda>x. ident x = i) xs = None" using eq by (simp add: find_None_iff)
    then show ?thesis using None by (simp only:)
  next
    case (Some y)
    then show ?thesis using eq find_distinct [OF d(1), of i y] find_distinct [OF d(2), of i y] by simp
  qed
  then have same: "map_of (resource_map ident js xs) i = map_of (resource_map ident js ys) i" for i
    by (simp only: map_of_resource [OF d(1)] map_of_resource [OF d(2)])
  show "\<forall>e \<in> set (diff_collection k (resource_map ident js xs) (resource_map ident js ys)). pe_action e = NoOp"
  proof
    fix e
    assume "e \<in> set (diff_collection k (resource_map ident js xs) (resource_map ident js ys))"
    then show "pe_action e = NoOp"
      by (cases "map_of (resource_map ident js ys) (pe_id e)") (simp_all add: set_diff_collection same)
  qed
qed

lemma distinct_remdups_adj_strings: "sorted xs \<Longrightarrow> distinct (remdups_adj (xs :: string list))"
  by (induction xs rule: remdups_adj.induct) (auto simp: less_le)

lemma distinct_diff_ids: "distinct (map pe_id (diff_collection k cur nxt))"
proof -
  have "map pe_id (List.map_filter (\<lambda>i. map_option (\<lambda>a. \<lparr>pe_kind = k, pe_id = i, pe_action = a\<rparr>) (g i)) is) =
      filter (\<lambda>i. g i \<noteq> None) is" for g :: "string \<Rightarrow> plan_action option" and "is"
    by (induction "is") (auto simp: map_filter_simps split: option.splits)
  moreover have "distinct (remdups_adj (sort (map fst cur @ map fst nxt)))"
    by (rule distinct_remdups_adj_strings) simp
  ultimately show ?thesis unfolding diff_collection_def by simp
qed

text \<open>The order of the resources does not matter to a plan.\<close>

lemma resource_map_cong:
  assumes "distinct (map ident xs)" "distinct (map ident ys)" "set xs = set ys"
  shows "resource_map ident js xs = resource_map ident js ys"
proof (rule btree_eqI)
  show "map_of (resource_map ident js xs) = map_of (resource_map ident js ys)"
  proof
    fix i
    have "find (\<lambda>x. ident x = i) xs = find (\<lambda>x. ident x = i) ys"
    proof (cases "find (\<lambda>x. ident x = i) ys")
      case None
      then have "find (\<lambda>x. ident x = i) xs = None" using assms(3) by (simp add: find_None_iff)
      then show ?thesis using None by (simp only:)
    next
      case (Some y)
      then show ?thesis using assms(3) find_distinct [OF assms(1), of i y] find_distinct [OF assms(2), of i y] by simp
    qed
    then show "map_of (resource_map ident js xs) i = map_of (resource_map ident js ys) i"
      by (simp only: map_of_resource [OF assms(1)] map_of_resource [OF assms(2)])
  qed
qed (simp_all add: resource_map_def)

lemma resource_map_sorted:
  "distinct (map ident xs) \<Longrightarrow> distinct (map ident ys) \<Longrightarrow> sort_key g xs = sort_key g ys \<Longrightarrow>
    resource_map ident js xs = resource_map ident js ys"
  using set_sort [of g xs] set_sort [of g ys] by (intro resource_map_cong) auto

lemma plan_typed_equal:
  assumes "typed_equal a b" "unique_ids a" "unique_ids b"
  shows "plan a c = plan b c"
proof -
  have "canonical_spec (spec a) = canonical_spec (spec b)"
    using assms(1) by (simp add: typed_equal_def canonical_document_def)
  then have eq: "sort_key sd_name (cs_secrets (spec a)) = sort_key sd_name (cs_secrets (spec b))"
    "sort_key (harness_str \<circ> kc_harness) (cs_kernel_configs (spec a)) = sort_key (harness_str \<circ> kc_harness) (cs_kernel_configs (spec b))"
    "sort_key cn_id (cs_connections (spec a)) = sort_key cn_id (cs_connections (spec b))"
    "sort_key sk_id (cs_skills (spec a)) = sort_key sk_id (cs_skills (spec b))"
    "sort_key ag_id (cs_agents (spec a)) = sort_key ag_id (cs_agents (spec b))"
    "sort_key gw_id (cs_gateways (spec a)) = sort_key gw_id (cs_gateways (spec b))"
    by (simp_all add: canonical_spec_def)
  have h: "distinct (map (harness_str \<circ> kc_harness) xs) = distinct (map kc_harness xs)" for xs
    by (induction xs) auto
  show ?thesis
    using assms(2,3) unfolding plan_def Let_def unique_ids_def h [symmetric]
    by (simp add: resource_map_sorted [OF _ _ eq(1)] resource_map_sorted [OF _ _ eq(2)] resource_map_sorted [OF _ _ eq(3)]
        resource_map_sorted [OF _ _ eq(4)] resource_map_sorted [OF _ _ eq(5)] resource_map_sorted [OF _ _ eq(6)])
qed

end
