(* ===== verification/Config_Snapshot.thy ===== *)
theory Config_Snapshot
  imports Config_Document
begin

text \<open>
  The snapshot store (\<^verbatim>\<open>config/snapshot.rs\<close>): the envelope that keeps every applied source and the
  generation that is active, in memory and in SQLite.

  A connection to SQLite is the tables it works on, the failures it will report (the \<open>n\<close>-th statement
  fails with \<open>sql_faults n\<close>) and the number of statements it has run.  A transaction that does not commit
  leaves the tables as they were.
\<close>

section \<open>SQLite\<close>

record 't sql =
  sql_tables :: 't
  sql_faults :: "nat \<Rightarrow> string option"
  sql_calls :: nat

definition sql_exec :: "('t \<Rightarrow> (string, 'a \<times> 't) result) \<Rightarrow> 't sql \<Rightarrow> (string, 'a, 't sql) outcome" where
  "sql_exec f db =
     (let db' = db\<lparr>sql_calls := Suc (sql_calls db)\<rparr>
      in case sql_faults db (sql_calls db) of
           Some e \<Rightarrow> (Inl e, db')
         | None \<Rightarrow> (case f (sql_tables db) of
               Inl e \<Rightarrow> (Inl e, db')
             | Inr (x, t) \<Rightarrow> (Inr x, db'\<lparr>sql_tables := t\<rparr>)))"

definition sql_query :: "('t \<Rightarrow> 'a) \<Rightarrow> 't sql \<Rightarrow> (string, 'a, 't sql) outcome" where
  "sql_query f = sql_exec (\<lambda>t. Inr (f t, t))"

definition sql_update :: "('t \<Rightarrow> 't) \<Rightarrow> 't sql \<Rightarrow> (string, unit, 't sql) outcome" where
  "sql_update f = sql_exec (\<lambda>t. Inr ((), f t))"

definition map_err :: "('e \<Rightarrow> 'f) \<Rightarrow> ('e, 'a, 's) outcome \<Rightarrow> ('f, 'a, 's) outcome" where
  "map_err g r = (case r of (Inl e, s) \<Rightarrow> (Inl (g e), s) | (Inr x, s) \<Rightarrow> (Inr x, s))"

text \<open>Dropping a transaction that has not been committed rolls the tables back.\<close>

definition sql_rollback :: "'t \<Rightarrow> ('e, 'a, 't sql) outcome \<Rightarrow> ('e, 'a, 't sql) outcome" where
  "sql_rollback saved r =
     (case r of (Inl e, db) \<Rightarrow> (Inl e, db\<lparr>sql_tables := saved\<rparr>) | (Inr x, db) \<Rightarrow> (Inr x, db))"

text \<open>\<^verbatim>\<open>connection.transaction()\<close>, the statements of the body, \<^verbatim>\<open>transaction.commit()\<close>.\<close>

definition sql_transaction ::
  "(string \<Rightarrow> 'e) \<Rightarrow> ('t sql \<Rightarrow> ('e, 'a, 't sql) outcome) \<Rightarrow> 't sql \<Rightarrow> ('e, 'a, 't sql) outcome" where
  "sql_transaction err stmts db =
     try_io (map_err err (sql_update (\<lambda>t. t) db)) (\<lambda>_ db1.
       sql_rollback (sql_tables db1)
         (try_io (stmts db1) (\<lambda>x db2. try_io (map_err err (sql_update (\<lambda>t. t) db2)) (\<lambda>_ db3. (Inr x, db3)))))"

section \<open>Snapshots\<close>

datatype source_kind = SourceYaml | SourceBundle

fun source_kind_str :: "source_kind \<Rightarrow> string" where
  "source_kind_str SourceYaml = ''yaml''"
| "source_kind_str SourceBundle = ''bundle''"

definition source_kind_from_str :: "string \<Rightarrow> source_kind" where
  "source_kind_from_str k = (if k = ''bundle'' then SourceBundle else SourceYaml)"

record snapshot =
  sn_generation :: int
  sn_source_kind :: string
  sn_source_bytes :: bytes
  sn_source_sha256 :: string
  sn_semantic_sha256 :: string
  sn_created_at :: string

record memory_state =
  ms_snapshots :: "snapshot list"
  ms_active :: "int option"

record snapshot_tables =
  config_snapshots :: "snapshot list"
  active_config :: "int option"

datatype snapshot_store = SnapMemory memory_state | SnapSqlite "snapshot_tables sql"

definition persistence :: "string \<Rightarrow> store_error" where
  "persistence e = Persistence ''config_snapshots'' [Ext e]"

definition find_snapshot :: "snapshot list \<Rightarrow> int \<Rightarrow> snapshot option" where
  "find_snapshot snapshots generation = find (\<lambda>s. sn_generation s = generation) snapshots"

definition read_snapshot ::
  "int \<Rightarrow> snapshot_tables sql \<Rightarrow> (store_error, snapshot option, snapshot_tables sql) outcome" where
  "read_snapshot generation db = map_err persistence (sql_query (\<lambda>t. find_snapshot (config_snapshots t) generation) db)"

definition set_active :: "int \<Rightarrow> snapshot_tables sql \<Rightarrow> (store_error, unit, snapshot_tables sql) outcome" where
  "set_active generation db = map_err persistence (sql_update (\<lambda>t. t\<lparr>active_config := Some generation\<rparr>) db)"

text \<open>The two arms of \<^verbatim>\<open>active\<close>.\<close>

definition memory_active :: "memory_state \<Rightarrow> snapshot option" where
  "memory_active st = Option.bind (ms_active st) (find_snapshot (ms_snapshots st))"

definition sqlite_active ::
  "snapshot_tables sql \<Rightarrow> (store_error, snapshot option, snapshot_tables sql) outcome" where
  "sqlite_active db =
     try_io (map_err persistence (sql_query active_config db)) (\<lambda>generation db.
       case generation of None \<Rightarrow> (Inr None, db) | Some g \<Rightarrow> read_snapshot g db)"

definition snapshot_active :: "snapshot_store \<Rightarrow> (store_error, snapshot option, snapshot_store) outcome" where
  "snapshot_active st =
     (case st of
        SnapMemory m \<Rightarrow> (Inr (memory_active m), st)
      | SnapSqlite db \<Rightarrow> (case sqlite_active db of (r, db') \<Rightarrow> (r, SnapSqlite db')))"

definition max_generation :: "snapshot list \<Rightarrow> int" where
  "max_generation snapshots = (if snapshots = [] then 0 else Max (set (map sn_generation snapshots)))"

definition new_snapshot :: "codecs \<Rightarrow> string \<Rightarrow> source_kind \<Rightarrow> bytes \<Rightarrow> string \<Rightarrow> int \<Rightarrow> snapshot" where
  "new_snapshot cd now k bs semantic generation =
     \<lparr>sn_generation = generation, sn_source_kind = source_kind_str k, sn_source_bytes = bs,
      sn_source_sha256 = sha256_hex cd bs, sn_semantic_sha256 = semantic, sn_created_at = now\<rparr>"

text \<open>
  The two arms of \<^verbatim>\<open>insert_and_activate\<close>.  A generation is an \<^verbatim>\<open>i64\<close>.  In SQLite the sum that exceeds it is a
  floating point number, which \<^verbatim>\<open>row.get\<close> refuses.  The vector in memory gives the snapshots the generations
  from 1 to their number (lemma \<open>memory_insert_bounded\<close>), so that its sum stays in the range as long as the
  vector has fewer than \<open>2 ^ 63 - 1\<close> elements, more than the bytes of a \<^verbatim>\<open>Vec\<close> allow.
\<close>

definition I64_MAX :: int where
  "I64_MAX = 2 ^ 63 - 1"

definition next_generation :: "snapshot list \<Rightarrow> (string, int) result" where
  "next_generation snapshots =
     (let g = max_generation snapshots + 1 in
      if g \<le> I64_MAX then Inr g
      else Inl ''Invalid column type Real at index: 0, name: COALESCE(MAX(generation), 0) + 1'')"

definition memory_insert_and_activate ::
  "codecs \<Rightarrow> string \<Rightarrow> source_kind \<Rightarrow> bytes \<Rightarrow> string \<Rightarrow> memory_state \<Rightarrow> snapshot \<times> memory_state" where
  "memory_insert_and_activate cd now k bs semantic st =
     (case find (\<lambda>s. sn_source_sha256 s = sha256_hex cd bs) (ms_snapshots st) of
        Some existing \<Rightarrow> (existing, st\<lparr>ms_active := Some (sn_generation existing)\<rparr>)
      | None \<Rightarrow>
          let generation = max_generation (ms_snapshots st) + 1; s = new_snapshot cd now k bs semantic generation
          in (s, st\<lparr>ms_snapshots := ms_snapshots st @ [s], ms_active := Some generation\<rparr>))"

text \<open>The constraints of the table: \<^verbatim>\<open>generation\<close> is the primary key, \<^verbatim>\<open>source_sha256\<close> is unique.\<close>

definition insert_snapshot_row :: "snapshot \<Rightarrow> snapshot_tables \<Rightarrow> (string, unit \<times> snapshot_tables) result" where
  "insert_snapshot_row s t =
     (if sn_generation s \<in> set (map sn_generation (config_snapshots t)) then
        Inl ''UNIQUE constraint failed: config_snapshots.generation''
      else if sn_source_sha256 s \<in> set (map sn_source_sha256 (config_snapshots t)) then
        Inl ''UNIQUE constraint failed: config_snapshots.source_sha256''
      else Inr ((), t\<lparr>config_snapshots := config_snapshots t @ [s]\<rparr>))"

definition sqlite_insert_body ::
  "codecs \<Rightarrow> string \<Rightarrow> source_kind \<Rightarrow> bytes \<Rightarrow> string \<Rightarrow> snapshot_tables sql
    \<Rightarrow> (store_error, snapshot option, snapshot_tables sql) outcome" where
  "sqlite_insert_body cd now k bs semantic db =
     try_io (map_err persistence (sql_query (\<lambda>t. map_option sn_generation
         (find (\<lambda>s. sn_source_sha256 s = sha256_hex cd bs) (config_snapshots t))) db)) (\<lambda>existing db.
     case existing of
       Some generation \<Rightarrow> try_io (set_active generation db) (\<lambda>_. read_snapshot generation)
     | None \<Rightarrow>
         try_io (map_err persistence (sql_exec (\<lambda>t. try_res (next_generation (config_snapshots t)) (\<lambda>g. Inr (g, t))) db)) (\<lambda>generation db.
         let s = new_snapshot cd now k bs semantic generation in
         try_io (map_err persistence (sql_exec (insert_snapshot_row s) db)) (\<lambda>_ db.
         try_io (set_active generation db) (\<lambda>_ db. (Inr (Some s), db)))))"

definition sqlite_insert_and_activate ::
  "codecs \<Rightarrow> string \<Rightarrow> source_kind \<Rightarrow> bytes \<Rightarrow> string \<Rightarrow> snapshot_tables sql
    \<Rightarrow> (store_error, snapshot, snapshot_tables sql) outcome" where
  "sqlite_insert_and_activate cd now k bs semantic db =
     try_io (sql_transaction persistence (sqlite_insert_body cd now k bs semantic) db) (\<lambda>s db.
       (ok_or (Persistence ''config_snapshots'' (lit ''active snapshot vanished'')) s, db))"

definition insert_and_activate ::
  "codecs \<Rightarrow> string \<Rightarrow> source_kind \<Rightarrow> bytes \<Rightarrow> string \<Rightarrow> snapshot_store
    \<Rightarrow> (store_error, snapshot, snapshot_store) outcome" where
  "insert_and_activate cd now k bs semantic st =
     (case st of
        SnapMemory m \<Rightarrow> (case memory_insert_and_activate cd now k bs semantic m of (s, m') \<Rightarrow> (Inr s, SnapMemory m'))
      | SnapSqlite db \<Rightarrow> (case sqlite_insert_and_activate cd now k bs semantic db of (r, db') \<Rightarrow> (r, SnapSqlite db')))"

section \<open>SQLite implements the store in memory\<close>

text \<open>What the tables hold, as the state of the store in memory.\<close>

definition tables_state :: "snapshot_tables \<Rightarrow> memory_state" where
  "tables_state t = \<lparr>ms_snapshots = config_snapshots t, ms_active = active_config t\<rparr>"

definition store_state :: "snapshot_store \<Rightarrow> memory_state" where
  "store_state st = (case st of SnapMemory m \<Rightarrow> m | SnapSqlite db \<Rightarrow> tables_state (sql_tables db))"

text \<open>The invariant: generations and source hashes identify a snapshot, the active one exists.\<close>

definition envelope_ok :: "memory_state \<Rightarrow> bool" where
  "envelope_ok st \<longleftrightarrow>
     distinct (map sn_generation (ms_snapshots st)) \<and> distinct (map sn_source_sha256 (ms_snapshots st)) \<and>
     (\<forall>g. ms_active st = Some g \<longrightarrow> g \<in> sn_generation ` set (ms_snapshots st))"

lemma max_generation_bound: "s \<in> set snapshots \<Longrightarrow> sn_generation s \<le> max_generation snapshots"
  by (auto simp: max_generation_def)

lemma max_generation_fresh: "max_generation snapshots + 1 \<notin> sn_generation ` set snapshots"
proof
  assume "max_generation snapshots + 1 \<in> sn_generation ` set snapshots"
  then obtain s where "s \<in> set snapshots" "sn_generation s = max_generation snapshots + 1" by auto
  then show False using max_generation_bound [of s snapshots] by simp
qed

lemma find_snoc: "find P (xs @ [x]) = (case find P xs of None \<Rightarrow> if P x then Some x else None | Some y \<Rightarrow> Some y)"
  by (induction xs) auto

lemma find_key_distinct:
  "distinct (map f xs) \<Longrightarrow> x \<in> set xs \<Longrightarrow> find (\<lambda>y. f y = f x) xs = Some x"
  by (induction xs) (auto simp: image_iff)

lemma memory_insert_active:
  assumes "envelope_ok st" "memory_insert_and_activate cd now k bs semantic st = (s, st')"
  shows "envelope_ok st' \<and> memory_active st' = Some s \<and> sn_source_sha256 s = sha256_hex cd bs"
proof (cases "find (\<lambda>s. sn_source_sha256 s = sha256_hex cd bs) (ms_snapshots st)")
  case None
  then have fresh: "sha256_hex cd bs \<notin> sn_source_sha256 ` set (ms_snapshots st)" by (auto simp: find_None_iff)
  have none: "find (\<lambda>s. sn_generation s = max_generation (ms_snapshots st) + 1) (ms_snapshots st) = None"
    unfolding find_None_iff using max_generation_fresh [of "ms_snapshots st"] by (auto simp: image_iff)
  show ?thesis
    using assms None fresh none max_generation_fresh [of "ms_snapshots st"]
    by (auto simp: memory_insert_and_activate_def Let_def envelope_ok_def memory_active_def find_snapshot_def
        new_snapshot_def find_snoc)
next
  case (Some e)
  then have "e \<in> set (ms_snapshots st)" "sn_source_sha256 e = sha256_hex cd bs"
    by (auto simp: find_Some_iff)
  then show ?thesis
    using assms Some find_key_distinct [of sn_generation "ms_snapshots st" e]
    by (auto simp: memory_insert_and_activate_def envelope_ok_def memory_active_def find_snapshot_def)
qed

text \<open>Starting without snapshots, the generations are the numbers from 1.\<close>

definition generations_bounded :: "snapshot list \<Rightarrow> bool" where
  "generations_bounded snapshots \<longleftrightarrow> (\<forall>s \<in> set snapshots. 1 \<le> sn_generation s \<and> sn_generation s \<le> int (length snapshots))"

lemma memory_insert_bounded:
  assumes "generations_bounded (ms_snapshots st)" "memory_insert_and_activate cd now k bs semantic st = (s, st')"
  shows "generations_bounded (ms_snapshots st')"
proof -
  have m: "0 \<le> max_generation xs \<and> max_generation xs \<le> int (length xs)" if "generations_bounded xs" for xs
  proof (cases "xs = []")
    case False
    then have "Max (set (map sn_generation xs)) \<in> set (map sn_generation xs)" by (intro Max_in) auto
    then obtain x where x: "x \<in> set xs" "Max (set (map sn_generation xs)) = sn_generation x" by auto
    then have "max_generation xs = sn_generation x" using False by (simp add: max_generation_def)
    moreover have "1 \<le> sn_generation x" "sn_generation x \<le> int (length xs)"
      using that x(1) by (simp_all add: generations_bounded_def)
    ultimately show ?thesis by simp
  qed (simp add: max_generation_def)
  show ?thesis
    using assms m [OF assms(1)]
    by (fastforce simp: memory_insert_and_activate_def generations_bounded_def new_snapshot_def Let_def split: option.splits)
qed

text \<open>A statement either fails and changes no table, or does what it says.\<close>

lemma sql_exec_cases:
  "(\<exists>e. sql_exec f db = (Inl e, db\<lparr>sql_calls := Suc (sql_calls db)\<rparr>)) \<or>
   (\<exists>x t. f (sql_tables db) = Inr (x, t) \<and>
      sql_exec f db = (Inr x, db\<lparr>sql_calls := Suc (sql_calls db), sql_tables := t\<rparr>))"
  by (auto simp: sql_exec_def Let_def split: option.split sum.split)

lemma map_err_Inr_iff: "map_err g r = (Inr x, s) \<longleftrightarrow> r = (Inr x, s)"
  by (cases r; cases "fst r") (auto simp: map_err_def)

lemma sql_exec_Inr: "sql_exec f db = (Inr x, db') \<Longrightarrow> f (sql_tables db) = Inr (x, sql_tables db')"
  using sql_exec_cases [of f db] by auto

lemma sql_exec_Inl: "sql_exec f db = (Inl e, db') \<Longrightarrow> sql_tables db' = sql_tables db"
  using sql_exec_cases [of f db] by auto

lemma sql_query_Inr: "sql_query f db = (Inr x, db') \<Longrightarrow> x = f (sql_tables db) \<and> sql_tables db' = sql_tables db"
  by (auto simp: sql_query_def dest: sql_exec_Inr)

lemma sql_query_tables: "sql_query f db = (r, db') \<Longrightarrow> sql_tables db' = sql_tables db"
  by (cases r) (auto simp: sql_query_def dest: sql_exec_Inr sql_exec_Inl)

lemma sql_update_Inr: "sql_update f db = (Inr x, db') \<Longrightarrow> sql_tables db' = f (sql_tables db)"
  by (auto simp: sql_update_def dest: sql_exec_Inr)

lemma sql_update_Inl: "sql_update f db = (Inl e, db') \<Longrightarrow> sql_tables db' = sql_tables db"
  by (auto simp: sql_update_def dest: sql_exec_Inl)

lemma map_err_Inl_iff: "map_err g r = (Inl e, s) \<longleftrightarrow> (\<exists>e'. r = (Inl e', s) \<and> e = g e')"
  by (cases r; cases "fst r") (auto simp: map_err_def)

lemma sql_rollback_iff:
  "sql_rollback saved r = (Inl e, db') \<longleftrightarrow> (\<exists>db. r = (Inl e, db) \<and> db' = db\<lparr>sql_tables := saved\<rparr>)"
  "sql_rollback saved r = (Inr x, db') \<longleftrightarrow> r = (Inr x, db')"
  by (cases r; cases "fst r"; auto simp: sql_rollback_def)+

lemma sql_transaction_Inl: "sql_transaction err stmts db = (Inl e, db') \<Longrightarrow> sql_tables db' = sql_tables db"
  by (auto simp: sql_transaction_def try_io_Inl_iff map_err_Inl_iff map_err_Inr_iff sql_rollback_iff
      dest: sql_update_Inl sql_update_Inr)

lemma sql_transaction_Inr:
  "sql_transaction err stmts db = (Inr x, db') \<Longrightarrow>
    \<exists>db1 db2. sql_tables db1 = sql_tables db \<and> stmts db1 = (Inr x, db2) \<and> sql_tables db' = sql_tables db2"
  by (auto simp: sql_transaction_def try_io_Inr_iff map_err_Inr_iff sql_rollback_iff dest!: sql_update_Inr)

lemma read_snapshot_Inr:
  "read_snapshot g db = (Inr s, db') \<Longrightarrow> s = find_snapshot (config_snapshots (sql_tables db)) g \<and> sql_tables db' = sql_tables db"
  by (auto simp: read_snapshot_def map_err_Inr_iff dest: sql_query_Inr)

lemma set_active_Inr:
  "set_active g db = (Inr x, db') \<Longrightarrow> sql_tables db' = (sql_tables db)\<lparr>active_config := Some g\<rparr>"
  by (auto simp: set_active_def map_err_Inr_iff dest: sql_update_Inr)

lemma insert_snapshot_row_Inr:
  "insert_snapshot_row s t = Inr (u, t') \<Longrightarrow> t' = t\<lparr>config_snapshots := config_snapshots t @ [s]\<rparr>"
  by (auto simp: insert_snapshot_row_def split: if_splits)

lemma sqlite_active_refines:
  assumes "sqlite_active db = (r, db')"
  shows "sql_tables db' = sql_tables db \<and> (\<forall>s. r = Inr s \<longrightarrow> s = memory_active (tables_state (sql_tables db)))"
proof -
  obtain q db1 where q: "sql_query active_config db = (q, db1)" by (cases "sql_query active_config db")
  have t1: "sql_tables db1 = sql_tables db" using q by (rule sql_query_tables)
  show ?thesis
  proof (cases q)
    case (Inl e)
    then have "r = Inl (persistence e)" "db' = db1" using assms q by (simp_all add: sqlite_active_def map_err_def)
    then show ?thesis using t1 by simp
  next
    case (Inr a)
    have a: "a = active_config (sql_tables db)" using sql_query_Inr [OF q [unfolded Inr]] by simp
    show ?thesis
    proof (cases a)
      case None
      then have "r = Inr None" "db' = db1" using assms q Inr by (simp_all add: sqlite_active_def map_err_def)
      then show ?thesis using t1 a None by (simp add: memory_active_def tables_state_def)
    next
      case (Some g)
      then have r: "read_snapshot g db1 = (r, db')" using assms q Inr by (simp add: sqlite_active_def map_err_def)
      then have "sql_tables db' = sql_tables db1"
        by (auto simp: read_snapshot_def map_err_def split: prod.splits sum.splits dest: sql_query_tables)
      then show ?thesis using r t1 Some a read_snapshot_Inr [of g db1 _ db'] by (auto simp: memory_active_def tables_state_def)
    qed
  qed
qed

lemma sqlite_insert_body_Inr:
  assumes ok: "envelope_ok (tables_state (sql_tables db))" and r: "sqlite_insert_body cd now k bs semantic db = (Inr x, db')"
  shows "\<exists>s. x = Some s \<and>
    memory_insert_and_activate cd now k bs semantic (tables_state (sql_tables db)) = (s, tables_state (sql_tables db'))"
proof -
  let ?t = "sql_tables db" let ?find = "find (\<lambda>s. sn_source_sha256 s = sha256_hex cd bs) (config_snapshots ?t)"
  obtain db1 where q: "sql_query (\<lambda>t. map_option sn_generation
      (find (\<lambda>s. sn_source_sha256 s = sha256_hex cd bs) (config_snapshots t))) db = (Inr (map_option sn_generation ?find), db1)"
    and t1: "sql_tables db1 = ?t"
    using r by (auto simp: sqlite_insert_body_def try_io_Inr_iff map_err_Inr_iff dest: sql_query_Inr)
  show ?thesis
  proof (cases ?find)
    case (Some e)
    then obtain db2 where s: "set_active (sn_generation e) db1 = (Inr (), db2)" and rd: "read_snapshot (sn_generation e) db2 = (Inr x, db')"
      using r q by (auto simp: sqlite_insert_body_def try_io_Inr_iff map_err_def)
    have "e \<in> set (config_snapshots ?t)" using Some by (auto simp: find_Some_iff)
    then have "find_snapshot (config_snapshots ?t) (sn_generation e) = Some e"
      using ok by (auto simp: envelope_ok_def tables_state_def find_snapshot_def intro: find_key_distinct)
    then show ?thesis
      using Some set_active_Inr [OF s] read_snapshot_Inr [OF rd] t1
      by (auto simp: memory_insert_and_activate_def tables_state_def)
  next
    case None
    let ?g = "max_generation (config_snapshots ?t) + 1" let ?s = "new_snapshot cd now k bs semantic ?g"
    obtain g db2 where g: "sql_exec (\<lambda>t. try_res (next_generation (config_snapshots t)) (\<lambda>g. Inr (g, t))) db1 = (Inr g, db2)"
      and rest: "try_io (map_err persistence (sql_exec (insert_snapshot_row (new_snapshot cd now k bs semantic g)) db2)) (\<lambda>_ db.
         try_io (set_active g db) (\<lambda>_ db. (Inr (Some (new_snapshot cd now k bs semantic g)), db))) = (Inr x, db')"
      using r q None by (auto simp: sqlite_insert_body_def try_io_Inr_iff [of "map_err _ _"] map_err_Inr_iff Let_def)
    have g_eq: "g = ?g" and t2: "sql_tables db2 = ?t" using sql_exec_Inr [OF g] t1
      by (auto simp: try_res_Inr_iff next_generation_def Let_def split: if_splits)
    obtain db3 where "sql_exec (insert_snapshot_row ?s) db2 = (Inr (), db3)" "set_active ?g db3 = (Inr (), db')" "x = Some ?s"
      using rest unfolding g_eq by (auto simp: try_io_Inr_iff map_err_Inr_iff)
    then have "sql_tables db' = ?t\<lparr>config_snapshots := config_snapshots ?t @ [?s], active_config := Some ?g\<rparr>" "x = Some ?s"
      using t2 set_active_Inr [of ?g db3 "()" db'] insert_snapshot_row_Inr [OF sql_exec_Inr [of "insert_snapshot_row ?s" db2 "()" db3]]
      by auto
    then show ?thesis using None by (simp add: memory_insert_and_activate_def tables_state_def Let_def)
  qed
qed

lemma sqlite_insert_refines:
  assumes ok: "envelope_ok (tables_state (sql_tables db))" and r: "sqlite_insert_and_activate cd now k bs semantic db = (r, db')"
  shows "(case r of Inl _ \<Rightarrow> sql_tables db' = sql_tables db
    | Inr s \<Rightarrow> memory_insert_and_activate cd now k bs semantic (tables_state (sql_tables db)) = (s, tables_state (sql_tables db')))"
proof (cases "sql_transaction persistence (sqlite_insert_body cd now k bs semantic) db")
  case (Pair tr db1)
  show ?thesis
  proof (cases tr)
    case (Inl e)
    then show ?thesis using r Pair sql_transaction_Inl [of persistence _ db e db1] by (auto simp: sqlite_insert_and_activate_def)
  next
    case (Inr x)
    obtain dba dbb where a: "sql_tables dba = sql_tables db" "sqlite_insert_body cd now k bs semantic dba = (Inr x, dbb)"
      and b: "sql_tables db1 = sql_tables dbb"
      using sql_transaction_Inr [OF Pair [unfolded Inr]] by auto
    obtain s where "x = Some s"
      "memory_insert_and_activate cd now k bs semantic (tables_state (sql_tables db)) = (s, tables_state (sql_tables dbb))"
      using sqlite_insert_body_Inr [OF _ a(2)] ok a(1) by auto
    then show ?thesis using r Pair Inr b by (auto simp: sqlite_insert_and_activate_def)
  qed
qed

lemma find_SomeD: "find P xs = Some x \<Longrightarrow> x \<in> set xs \<and> P x"
  by (auto simp: find_Some_iff)

lemma memory_insert_snapshots:
  "memory_insert_and_activate cd now k bs semantic st = (s, st') \<Longrightarrow>
    set (ms_snapshots st') = insert s (set (ms_snapshots st)) \<and>
    (s \<in> set (ms_snapshots st) \<or> (sn_source_bytes s = bs \<and> sn_source_kind s = source_kind_str k))"
  by (auto simp: memory_insert_and_activate_def Let_def new_snapshot_def dest: find_SomeD split: option.splits)

section \<open>The interface\<close>

text \<open>What the configuration state relies on: an insertion that fails changes nothing, one that succeeds
  does what the store in memory does.\<close>

locale envelope =
  fixes cd :: codecs and now :: string
    and ins :: "source_kind \<Rightarrow> bytes \<Rightarrow> string \<Rightarrow> 'st \<Rightarrow> (store_error, snapshot, 'st) outcome"
    and view :: "'st \<Rightarrow> memory_state"
  assumes ins_view: "envelope_ok (view st) \<Longrightarrow> ins k bs semantic st = (r, st') \<Longrightarrow>
    (case r of Inl _ \<Rightarrow> view st' = view st
     | Inr s \<Rightarrow> memory_insert_and_activate cd now k bs semantic (view st) = (s, view st'))"
begin

lemma ins_error: "envelope_ok (view st) \<Longrightarrow> ins k bs semantic st = (Inl e, st') \<Longrightarrow> view st' = view st"
  using ins_view [of st k bs semantic "Inl e" st'] by simp

lemma ins_active:
  "envelope_ok (view st) \<Longrightarrow> ins k bs semantic st = (Inr s, st') \<Longrightarrow> memory_active (view st') = Some s"
  using ins_view [of st k bs semantic "Inr s" st'] memory_insert_active by fastforce

lemma ins_ok: "envelope_ok (view st) \<Longrightarrow> ins k bs semantic st = (r, st') \<Longrightarrow> envelope_ok (view st')"
  using ins_view [of st k bs semantic r st'] memory_insert_active [of "view st" cd now k bs semantic _ "view st'"]
  by (cases r) auto

lemma ins_hash:
  "envelope_ok (view st) \<Longrightarrow> ins k bs semantic st = (Inr s, st') \<Longrightarrow> sn_source_sha256 s = sha256_hex cd bs"
  using ins_view [of st k bs semantic "Inr s" st'] memory_insert_active by fastforce

lemma ins_fresh_or_known:
  "envelope_ok (view st) \<Longrightarrow> ins k bs semantic st = (Inr s, st') \<Longrightarrow>
    s \<in> set (ms_snapshots (view st)) \<or> (sn_source_bytes s = bs \<and> sn_source_kind s = source_kind_str k)"
  using ins_view [of st k bs semantic "Inr s" st'] memory_insert_snapshots by fastforce

lemma ins_snapshots:
  "envelope_ok (view st) \<Longrightarrow> ins k bs semantic st = (Inr s, st') \<Longrightarrow>
    set (ms_snapshots (view st')) = insert s (set (ms_snapshots (view st)))"
  using ins_view [of st k bs semantic "Inr s" st'] memory_insert_snapshots by fastforce

end

interpretation memory: envelope cd now
  "\<lambda>k bs semantic st. map_prod Inr id (memory_insert_and_activate cd now k bs semantic st)" "\<lambda>st. st"
  by unfold_locales (auto simp: map_prod_def split: prod.splits)

interpretation sqlite: envelope cd now "sqlite_insert_and_activate cd now" "\<lambda>db. tables_state (sql_tables db)"
  by unfold_locales (use sqlite_insert_refines in \<open>fastforce split: sum.splits\<close>)

interpretation snap: envelope cd now "insert_and_activate cd now" store_state
proof unfold_locales
  fix st k bs semantic r st'
  assume ok: "envelope_ok (store_state st)" and i: "insert_and_activate cd now k bs semantic st = (r, st')"
  show "(case r of Inl _ \<Rightarrow> store_state st' = store_state st
     | Inr s \<Rightarrow> memory_insert_and_activate cd now k bs semantic (store_state st) = (s, store_state st'))"
  proof (cases st)
    case (SnapSqlite db)
    obtain q db' where q: "sqlite_insert_and_activate cd now k bs semantic db = (q, db')"
      by (cases "sqlite_insert_and_activate cd now k bs semantic db")
    show ?thesis
      using ok i q sqlite_insert_refines [OF _ q]
      by (cases q) (auto simp: SnapSqlite insert_and_activate_def store_state_def)
  qed (use i in \<open>auto simp: insert_and_activate_def store_state_def split: prod.splits\<close>)
qed

lemma snapshot_active_view:
  assumes "snapshot_active st = (r, st')"
  shows "store_state st' = store_state st \<and> (\<forall>s. r = Inr s \<longrightarrow> s = memory_active (store_state st))"
proof (cases st)
  case (SnapSqlite db)
  obtain q db' where q: "sqlite_active db = (q, db')" by (cases "sqlite_active db")
  show ?thesis using assms q sqlite_active_refines [OF q] by (auto simp: SnapSqlite snapshot_active_def store_state_def)
qed (use assms in \<open>auto simp: snapshot_active_def store_state_def\<close>)

end
