(* ===== verification/Config_Secrets.thy ===== *)
theory Config_Secrets
  imports Config_Snapshot
begin

text \<open>
  The secret store (\<^verbatim>\<open>config/secrets.rs\<close>): values encrypted under a master key, in memory or in the
  table \<^verbatim>\<open>secret_values\<close> of SQLite.

  The cryptographic library is the record \<open>crypto\<close>: base 64 decoding, the authenticated cipher under a
  key and a nonce, and the bytes that the system's random generator gives at its \<open>n\<close>-th use.
\<close>

section \<open>Keys\<close>

record crypto =
  base64_decode :: "string \<Rightarrow> bytes option"
  aead_seal :: "bytes \<Rightarrow> bytes \<Rightarrow> bytes \<Rightarrow> bytes option"
  aead_open :: "bytes \<Rightarrow> bytes \<Rightarrow> bytes \<Rightarrow> bytes option"
  rng_fill :: "nat \<Rightarrow> nat \<Rightarrow> bytes option"

definition MASTER_KEY_ENV :: string where "MASTER_KEY_ENV = ''CLIENT_SERVICE_SECRET_KEY''"
definition NONCE_LEN :: nat where "NONCE_LEN = 12"

datatype secret_store_error =
    MasterKeyUnavailable
  | InvalidMasterKey
  | Crypto
  | SecretPersistence string

fun display_secret_store_error :: "secret_store_error \<Rightarrow> message" where
  "display_secret_store_error MasterKeyUnavailable =
     [Txt MASTER_KEY_ENV, Txt '' is required to decrypt stored secret values but is not set'']"
| "display_secret_store_error InvalidMasterKey =
     [Txt MASTER_KEY_ENV, Txt '' must be base64-encoded 32 bytes and must match the key used to encrypt existing stored secret values'']"
| "display_secret_store_error Crypto = lit ''secret encryption/decryption failed''"
| "display_secret_store_error (SecretPersistence d) = [Txt ''secret store persistence error: '', Ext d]"

text \<open>\<^verbatim>\<open>MasterKey\<close>: the 32 bytes of the key; \<^verbatim>\<open>from_base64\<close> and \<^verbatim>\<open>generate\<close>.\<close>

definition key_from_base64 :: "crypto \<Rightarrow> string \<Rightarrow> (secret_store_error, bytes) result" where
  "key_from_base64 c encoded =
     try_res (ok_or InvalidMasterKey (base64_decode c (trim encoded))) (\<lambda>decoded.
       if length decoded = 32 then Inr decoded else Inl InvalidMasterKey)"

definition key_generate :: "crypto \<Rightarrow> nat \<Rightarrow> (secret_store_error, bytes, nat) outcome" where
  "key_generate c n = (ok_or Crypto (rng_fill c n 32), Suc n)"

definition key_seal :: "crypto \<Rightarrow> bytes \<Rightarrow> string \<Rightarrow> nat \<Rightarrow> (secret_store_error, bytes, nat) outcome" where
  "key_seal c key plaintext n =
     try_io (ok_or Crypto (rng_fill c n NONCE_LEN), Suc n) (\<lambda>nonce n.
     try_io (ok_or Crypto (aead_seal c key nonce plaintext), n) (\<lambda>in_out n. (Inr (nonce @ in_out), n)))"

definition key_open :: "crypto \<Rightarrow> bytes \<Rightarrow> bytes \<Rightarrow> (secret_store_error, string) result" where
  "key_open c key sealed =
     (if length sealed < NONCE_LEN then Inl Crypto
      else try_res (ok_or Crypto (aead_open c key (take NONCE_LEN sealed) (drop NONCE_LEN sealed))) (\<lambda>plaintext.
        ok_or Crypto (from_utf8 plaintext)))"

section \<open>The store\<close>

record secret_row =
  row_name :: string
  row_ciphertext :: bytes
  row_created_at :: string

datatype secret_backend = SecMemory "bytes btree" | SecSqlite "secret_row list sql"

record secret_store =
  ss_backend :: secret_backend
  ss_key :: bytes
  ss_writable :: bool
  ss_rng :: nat

text \<open>Stepping through the rows of a query.\<close>

fun sql_rows :: "'r list \<Rightarrow> 't sql \<Rightarrow> (string, 'r list, 't sql) outcome" where
  "sql_rows [] db = (Inr [], db)"
| "sql_rows (r # rs) db =
     try_io (sql_query (\<lambda>_. ()) db) (\<lambda>_ db. try_io (sql_rows rs db) (\<lambda>rest db. (Inr (r # rest), db)))"

definition ciphertext_count :: "secret_row list sql \<Rightarrow> (secret_store_error, nat, secret_row list sql) outcome" where
  "ciphertext_count db = map_err SecretPersistence (sql_query length db)"

fun verify_rows :: "crypto \<Rightarrow> bytes \<Rightarrow> secret_row list \<Rightarrow> secret_row list sql
    \<Rightarrow> (secret_store_error, unit, secret_row list sql) outcome" where
  "verify_rows c key [] db = (Inr (), db)"
| "verify_rows c key (r # rs) db =
     try_io (map_err SecretPersistence (sql_query (\<lambda>_. ()) db)) (\<lambda>_ db.
       case key_open c key (row_ciphertext r) of
         Inl _ \<Rightarrow> (Inl InvalidMasterKey, db)
       | Inr _ \<Rightarrow> verify_rows c key rs db)"

definition verify_all_decrypt ::
  "crypto \<Rightarrow> bytes \<Rightarrow> secret_row list sql \<Rightarrow> (secret_store_error, unit, secret_row list sql) outcome" where
  "verify_all_decrypt c key db =
     try_io (map_err SecretPersistence (sql_query (\<lambda>_. ()) db)) (\<lambda>_ db.
     try_io (map_err SecretPersistence (sql_query (\<lambda>rows. rows) db)) (\<lambda>rows db. verify_rows c key rows db))"

definition configured_key :: "crypto \<Rightarrow> string btree \<Rightarrow> (secret_store_error, bytes option) result" where
  "configured_key c env =
     (case btree_get env MASTER_KEY_ENV of
        Some encoded \<Rightarrow>
          (if encoded = [] then Inr None else try_res (key_from_base64 c encoded) (\<lambda>k. Inr (Some k)))
      | None \<Rightarrow> Inr None)"

text \<open>\<^verbatim>\<open>SecretStore::open\<close>: without a database path, and with one (\<^verbatim>\<open>Connection::open\<close> and the creation
  of the table are its first two statements).\<close>

definition open_memory :: "crypto \<Rightarrow> string btree \<Rightarrow> nat \<Rightarrow> (secret_store_error, secret_store) result" where
  "open_memory c env n =
     try_res (configured_key c env) (\<lambda>configured.
     case (case configured of Some key \<Rightarrow> (Inr key, n) | None \<Rightarrow> key_generate c n) of
       (Inl e, _) \<Rightarrow> Inl e
     | (Inr key, n) \<Rightarrow> Inr \<lparr>ss_backend = SecMemory [], ss_key = key, ss_writable = True, ss_rng = n\<rparr>)"

definition open_sqlite ::
  "crypto \<Rightarrow> string btree \<Rightarrow> nat \<Rightarrow> secret_row list sql \<Rightarrow> (secret_store_error, secret_store) result" where
  "open_sqlite c env n db =
     try_res (configured_key c env) (\<lambda>configured.
     fst (try_io (map_err SecretPersistence (sql_query (\<lambda>_. ()) db)) (\<lambda>_ db.
       try_io (map_err SecretPersistence (sql_query (\<lambda>_. ()) db)) (\<lambda>_ db.
       case configured of
         Some key \<Rightarrow>
           try_io (verify_all_decrypt c key db) (\<lambda>_ db.
             (Inr \<lparr>ss_backend = SecSqlite db, ss_key = key, ss_writable = True, ss_rng = n\<rparr>, db))
       | None \<Rightarrow>
           try_io (ciphertext_count db) (\<lambda>count db.
             if count > 0 then (Inl MasterKeyUnavailable, db)
             else (case key_generate c n of
                 (Inl e, _) \<Rightarrow> (Inl e, db)
               | (Inr key, n) \<Rightarrow>
                   (Inr \<lparr>ss_backend = SecSqlite db, ss_key = key, ss_writable = False, ss_rng = n\<rparr>, db)))))))"

text \<open>Replacing or adding the row of a name.\<close>

definition upsert_row :: "secret_row \<Rightarrow> secret_row list \<Rightarrow> secret_row list" where
  "upsert_row r rows =
     (if row_name r \<in> set (map row_name rows) then map (\<lambda>x. if row_name x = row_name r then r else x) rows
      else rows @ [r])"

type_synonym 'a secret_op = "secret_store \<Rightarrow> (secret_store_error, 'a, secret_store) outcome"

text \<open>A statement on the connection of the store, in the state of the store.\<close>

definition on_sqlite :: "('a \<times> secret_row list sql) \<Rightarrow> secret_store \<Rightarrow> 'a \<times> secret_store" where
  "on_sqlite r st = (fst r, st\<lparr>ss_backend := SecSqlite (snd r)\<rparr>)"

definition set_value :: "crypto \<Rightarrow> string \<Rightarrow> string \<Rightarrow> string \<Rightarrow> unit secret_op" where
  "set_value c now name val st =
     (if \<not> ss_writable st then (Inl MasterKeyUnavailable, st)
      else (case key_seal c (ss_key st) val (ss_rng st) of
          (Inl e, n) \<Rightarrow> (Inl e, st\<lparr>ss_rng := n\<rparr>)
        | (Inr sealed, n) \<Rightarrow>
            (let st = st\<lparr>ss_rng := n\<rparr> in
             case ss_backend st of
               SecMemory m \<Rightarrow> (Inr (), st\<lparr>ss_backend := SecMemory (btree_insert name sealed m)\<rparr>)
             | SecSqlite db \<Rightarrow>
                 on_sqlite (map_err SecretPersistence (sql_update
                   (upsert_row \<lparr>row_name = name, row_ciphertext = sealed, row_created_at = now\<rparr>) db)) st)))"

definition clear_value :: "string \<Rightarrow> bool secret_op" where
  "clear_value name st =
     (case ss_backend st of
        SecMemory m \<Rightarrow> (Inr (contains_key m name), st\<lparr>ss_backend := SecMemory (btree_remove name m)\<rparr>)
      | SecSqlite db \<Rightarrow>
          on_sqlite (map_err SecretPersistence (sql_exec (\<lambda>rows.
            Inr (\<exists>r \<in> set rows. row_name r = name, filter (\<lambda>r. row_name r \<noteq> name) rows)) db)) st)"

definition set_names :: "string list secret_op" where
  "set_names st =
     (case ss_backend st of
        SecMemory m \<Rightarrow> (Inr (map fst m), st)
      | SecSqlite db \<Rightarrow>
          on_sqlite (map_err SecretPersistence
            (try_io (sql_query (\<lambda>_. ()) db) (\<lambda>_ db.
             try_io (sql_query (map row_name) db) (\<lambda>names db.
             try_io (sql_rows names db) (\<lambda>names db. (Inr (collect_set names), db)))))) st)"

definition is_set :: "string \<Rightarrow> bool secret_op" where
  "is_set name st = try_io (set_names st) (\<lambda>names st. (Inr (name \<in> set names), st))"

definition stored :: "string \<Rightarrow> bytes option secret_op" where
  "stored name st =
     (case ss_backend st of
        SecMemory m \<Rightarrow> (Inr (btree_get m name), st)
      | SecSqlite db \<Rightarrow>
          on_sqlite (map_err SecretPersistence
            (sql_query (\<lambda>rows. map_option row_ciphertext (find (\<lambda>r. row_name r = name) rows)) db)) st)"

definition resolve :: "crypto \<Rightarrow> string \<Rightarrow> string option secret_op" where
  "resolve c name st =
     try_io (stored name st) (\<lambda>sealed st.
       case sealed of
         None \<Rightarrow> (Inr None, st)
       | Some bs \<Rightarrow> (try_res (key_open c (ss_key st) bs) (\<lambda>v. Inr (Some v)), st))"

section \<open>Facts\<close>

text \<open>The sealed values, whatever the backend.\<close>

definition sealed_values :: "secret_store \<Rightarrow> string \<Rightarrow> bytes option" where
  "sealed_values st name =
     (case ss_backend st of
        SecMemory m \<Rightarrow> map_of m name
      | SecSqlite db \<Rightarrow> map_option row_ciphertext (find (\<lambda>r. row_name r = name) (sql_tables db)))"

definition backend_rows :: "secret_store \<Rightarrow> secret_row list" where
  "backend_rows st = (case ss_backend st of SecMemory m \<Rightarrow> [] | SecSqlite db \<Rightarrow> sql_tables db)"

text \<open>The primary key of the table.\<close>

definition rows_distinct :: "secret_store \<Rightarrow> bool" where
  "rows_distinct st \<longleftrightarrow> distinct (map row_name (backend_rows st))"

definition secret_names :: "secret_store \<Rightarrow> string set" where
  "secret_names st = dom (sealed_values st)"

text \<open>What the store needs of the library.\<close>

definition crypto_ok :: "crypto \<Rightarrow> bool" where
  "crypto_ok c \<longleftrightarrow>
     (\<forall>key nonce p s. aead_seal c key nonce p = Some s \<longrightarrow> aead_open c key nonce s = Some p) \<and>
     (\<forall>n l bs. rng_fill c n l = Some bs \<longrightarrow> length bs = l)"

lemma key_open_seal:
  assumes "crypto_ok c" "key_seal c key p n = (Inr sealed, n')" "is_utf8 p"
  shows "key_open c key sealed = Inr p"
proof -
  obtain nonce bs where "rng_fill c n NONCE_LEN = Some nonce" "aead_seal c key nonce p = Some bs" "sealed = nonce @ bs"
    using assms(2) by (auto simp: key_seal_def try_io_Inr_iff ok_or_Inr_iff)
  moreover from this have "length nonce = NONCE_LEN" "aead_open c key nonce bs = Some p"
    using assms(1) by (auto simp: crypto_ok_def)
  ultimately show ?thesis using assms(3) by (simp add: key_open_def from_utf8_def)
qed

lemma find_upsert_row:
  "map_option row_ciphertext (find (\<lambda>x. row_name x = name) (upsert_row r rows)) =
     (if name = row_name r then Some (row_ciphertext r) else map_option row_ciphertext (find (\<lambda>x. row_name x = name) rows))"
proof (cases "row_name r \<in> set (map row_name rows)")
  case True
  have other: "name \<noteq> row_name r \<Longrightarrow>
      find (\<lambda>x. row_name x = name) (map (\<lambda>x. if row_name x = row_name r then r else x) xs) = find (\<lambda>x. row_name x = name) xs" for xs
    by (induction xs) simp_all
  have same: "row_name r \<in> set (map row_name xs) \<Longrightarrow>
      find (\<lambda>x. row_name x = row_name r) (map (\<lambda>x. if row_name x = row_name r then r else x) xs) = Some r" for xs
    by (induction xs) auto
  show ?thesis
    unfolding upsert_row_def if_P [OF True]
    using other [of rows] same [OF True] by (cases "name = row_name r") auto
next
  case False
  then have "find (\<lambda>x. row_name x = row_name r) rows = None" by (auto simp: find_None_iff image_iff)
  then show ?thesis
    unfolding upsert_row_def if_not_P [OF False]
    by (cases "name = row_name r"; cases "find (\<lambda>x. row_name x = name) rows") (simp_all add: find_snoc)
qed

lemma distinct_upsert_row: "distinct (map row_name rows) \<Longrightarrow> distinct (map row_name (upsert_row r rows))"
proof -
  assume d: "distinct (map row_name rows)"
  have "map row_name (map (\<lambda>x. if row_name x = row_name r then r else x) rows) = map row_name rows"
    by (induction rows) simp_all
  then show ?thesis
    using d by (cases "row_name r \<in> set (map row_name rows)") (simp_all add: upsert_row_def del: map_map)
qed

lemma find_filter_row:
  "find (\<lambda>x. row_name x = n) (filter (\<lambda>r. row_name r \<noteq> name) rows) = (if n = name then None else find (\<lambda>x. row_name x = n) rows)"
  by (induction rows) auto

lemma on_sqlite_simps [simp]:
  "ss_key (snd (on_sqlite r st)) = ss_key st" "ss_writable (snd (on_sqlite r st)) = ss_writable st"
  "fst (on_sqlite r st) = fst r" "ss_backend (snd (on_sqlite r st)) = SecSqlite (snd r)"
  by (simp_all add: on_sqlite_def)

lemma on_sqlite_eq: "on_sqlite r st = (x, st') \<longleftrightarrow> fst r = x \<and> st' = st\<lparr>ss_backend := SecSqlite (snd r)\<rparr>"
  by (auto simp: on_sqlite_def)

text \<open>The part of a store that no operation changes.\<close>

definition same_store :: "secret_store \<Rightarrow> secret_store \<Rightarrow> bool" where
  "same_store st st' \<longleftrightarrow> ss_key st' = ss_key st \<and> ss_writable st' = ss_writable st \<and>
     (case (ss_backend st, ss_backend st') of
        (SecMemory _, SecMemory _) \<Rightarrow> True
      | (SecSqlite db, SecSqlite db') \<Rightarrow> sql_faults db' = sql_faults db
      | _ \<Rightarrow> False)"

lemma sql_exec_faults: "sql_exec f db = (r, db') \<Longrightarrow> sql_faults db' = sql_faults db"
  using sql_exec_cases [of f db] by auto

lemma sql_query_faults: "sql_query f db = (r, db') \<Longrightarrow> sql_faults db' = sql_faults db"
  by (simp add: sql_query_def sql_exec_faults)

lemma sql_rows_tables:
  "sql_rows rs db = (r, db') \<Longrightarrow> sql_tables db' = sql_tables db \<and> sql_faults db' = sql_faults db \<and> (\<forall>x. r = Inr x \<longrightarrow> x = rs)"
proof (induction rs arbitrary: db r db')
  case (Cons a rs)
  obtain q db1 where q: "sql_query (\<lambda>_. ()) db = (q, db1)" by (cases "sql_query (\<lambda>_. ()) db")
  obtain q' db2 where q': "sql_rows rs db1 = (q', db2)" by (cases "sql_rows rs db1")
  show ?case
    using Cons.prems Cons.IH [OF q'] sql_query_tables [OF q] sql_query_faults [OF q] q q'
    by (cases q; cases q') auto
qed simp

lemma set_names_ok:
  assumes "set_names st = (r, st')"
  shows "sealed_values st' = sealed_values st \<and> same_store st st' \<and> backend_rows st' = backend_rows st \<and> (\<forall>xs. r = Inr xs \<longrightarrow> set xs = secret_names st)"
proof (cases "ss_backend st")
  case (SecMemory m)
  then have "sealed_values st = map_of m" by (simp add: fun_eq_iff sealed_values_def)
  with SecMemory show ?thesis using assms
    by (auto simp: set_names_def same_store_def backend_rows_def secret_names_def dom_map_of_conv_image_fst image_iff, force)
next
  case (SecSqlite db)
  obtain q1 db1 where q1: "sql_query (\<lambda>_. ()) db = (q1, db1)" by (cases "sql_query (\<lambda>_. ()) db")
  obtain q2 db2 where q2: "sql_query (map row_name) db1 = (q2, db2)" by (cases "sql_query (map row_name) db1")
  have names: "q2 = Inr xs \<Longrightarrow> xs = map row_name (sql_tables db)" for xs
    using sql_query_Inr [of "map row_name" db1 xs db2] q2 sql_query_tables [OF q1] by simp
  have dom: "secret_names st = row_name ` set (sql_tables db)"
  proof (rule set_eqI)
    show "n \<in> secret_names st \<longleftrightarrow> n \<in> row_name ` set (sql_tables db)" for n
      using find_None_iff [of "\<lambda>r. row_name r = n" "sql_tables db"]
      by (auto simp: secret_names_def sealed_values_def SecSqlite dom_def image_iff)
  qed
  have t: "sql_tables db1 = sql_tables db" "sql_tables db2 = sql_tables db1" "sql_faults db1 = sql_faults db" "sql_faults db2 = sql_faults db1"
    using sql_query_tables [OF q1] sql_query_tables [OF q2] sql_query_faults [OF q1] sql_query_faults [OF q2] by auto
  show ?thesis
  proof (cases q1)
    case (Inl e)
    then show ?thesis using assms SecSqlite q1 t
      by (auto simp: set_names_def on_sqlite_eq map_err_def same_store_def backend_rows_def rows_distinct_def sealed_values_def)
  next
    case q1': (Inr u)
    show ?thesis
    proof (cases q2)
      case (Inl e)
      then show ?thesis using assms SecSqlite q1 q1' q2 t
        by (auto simp: set_names_def on_sqlite_eq map_err_def same_store_def backend_rows_def rows_distinct_def sealed_values_def)
    next
      case (Inr xs)
      obtain q3 db3 where q3: "sql_rows xs db2 = (q3, db3)" by (cases "sql_rows xs db2")
      show ?thesis using assms SecSqlite q1 q1' q2 q3 t Inr names [OF Inr] dom sql_rows_tables [OF q3]
        by (cases q3) (auto simp: set_names_def on_sqlite_eq map_err_def same_store_def backend_rows_def rows_distinct_def sealed_values_def)
    qed
  qed
qed

lemma set_value_Inr:
  assumes "set_value c now name val st = (Inr (), st')"
  shows "ss_writable st \<and> same_store st st' \<and> (rows_distinct st \<longrightarrow> rows_distinct st') \<and> (\<exists>sealed n. key_seal c (ss_key st) val (ss_rng st) = (Inr sealed, n) \<and>
    sealed_values st' = (sealed_values st)(name \<mapsto> sealed))"
proof -
  obtain sealed n where s: "key_seal c (ss_key st) val (ss_rng st) = (Inr sealed, n)" and w: "ss_writable st"
    using assms by (auto simp: set_value_def split: if_splits prod.splits sum.splits)
  show ?thesis
  proof (cases "ss_backend st")
    case (SecMemory m)
    then show ?thesis using assms s w by (auto simp: set_value_def same_store_def backend_rows_def rows_distinct_def sealed_values_def fun_eq_iff)
  next
    case (SecSqlite db)
    let ?r = "\<lparr>row_name = name, row_ciphertext = sealed, row_created_at = now\<rparr>"
    obtain db' where u: "sql_update (upsert_row ?r) db = (Inr (), db')" and st': "st' = st\<lparr>ss_rng := n, ss_backend := SecSqlite db'\<rparr>"
      using assms s w SecSqlite
      by (cases "sql_update (upsert_row ?r) db") (auto simp: set_value_def on_sqlite_eq map_err_def split: sum.splits)
    then show ?thesis
      using s w SecSqlite sql_update_Inr [OF u] sql_exec_faults [OF u [unfolded sql_update_def]]
      by (auto simp: same_store_def backend_rows_def rows_distinct_def sealed_values_def fun_eq_iff find_upsert_row distinct_upsert_row simp del: map_map)
  qed
qed

lemma set_value_Inl:
  assumes "set_value c now name val st = (Inl e, st')"
  shows "sealed_values st' = sealed_values st \<and> same_store st st' \<and> backend_rows st' = backend_rows st"
proof (cases "ss_backend st")
  case (SecMemory m)
  then show ?thesis using assms
    by (auto simp: set_value_def same_store_def backend_rows_def rows_distinct_def sealed_values_def split: if_splits prod.splits sum.splits)
next
  case (SecSqlite db)
  show ?thesis
  proof (cases "fst (key_seal c (ss_key st) val (ss_rng st))")
    case (Inl e')
    then show ?thesis using assms SecSqlite
      by (auto simp: set_value_def same_store_def backend_rows_def rows_distinct_def sealed_values_def split: if_splits prod.splits)
  next
    case (Inr sealed)
    obtain n where s: "key_seal c (ss_key st) val (ss_rng st) = (Inr sealed, n)"
      using Inr by (cases "key_seal c (ss_key st) val (ss_rng st)") simp
    let ?u = "sql_update (upsert_row \<lparr>row_name = name, row_ciphertext = sealed, row_created_at = now\<rparr>) db"
    show ?thesis
    proof (cases "ss_writable st")
      case True
      obtain e' db' where u: "?u = (Inl e', db')" and st': "st' = st\<lparr>ss_rng := n, ss_backend := SecSqlite db'\<rparr>"
        using assms s True SecSqlite
        by (cases ?u) (auto simp: set_value_def on_sqlite_eq map_err_def split: sum.splits)
      then show ?thesis
        using SecSqlite sql_update_Inl [OF u] sql_exec_faults [OF u [unfolded sql_update_def]]
        by (auto simp: same_store_def backend_rows_def rows_distinct_def sealed_values_def)
    qed (use assms SecSqlite in \<open>auto simp: set_value_def same_store_def\<close>)
  qed
qed

lemma clear_value_ok:
  assumes "clear_value name st = (r, st')"
  shows "same_store st st' \<and> (rows_distinct st \<longrightarrow> rows_distinct st') \<and>
    (case r of Inl _ \<Rightarrow> sealed_values st' = sealed_values st
     | Inr b \<Rightarrow> sealed_values st' = (sealed_values st)(name := None) \<and> b = (name \<in> secret_names st))"
proof (cases "ss_backend st")
  case (SecMemory m)
  then show ?thesis using assms
    by (auto simp: clear_value_def same_store_def backend_rows_def rows_distinct_def sealed_values_def fun_eq_iff secret_names_def contains_key_def dom_def)
next
  case (SecSqlite db)
  let ?f = "\<lambda>rows. Inr (\<exists>r \<in> set rows. row_name r = name, filter (\<lambda>r. row_name r \<noteq> name) rows)"
  obtain q db' where q: "sql_exec ?f db = (q, db')" by (cases "sql_exec ?f db")
  have st': "st' = st\<lparr>ss_backend := SecSqlite db'\<rparr>" and r: "r = fst (map_err SecretPersistence (q, db'))"
    using assms q SecSqlite by (auto simp: clear_value_def on_sqlite_eq map_err_def split: sum.splits)
  have f: "sql_faults db' = sql_faults db" using q by (rule sql_exec_faults)
  show ?thesis
  proof (cases q)
    case (Inl e)
    then show ?thesis using st' r f q SecSqlite sql_exec_Inl [OF q [unfolded Inl]]
      by (simp add: map_err_def same_store_def backend_rows_def rows_distinct_def sealed_values_def fun_eq_iff)
  next
    case (Inr b)
    have b: "b = (\<exists>r \<in> set (sql_tables db). row_name r = name)" "sql_tables db' = filter (\<lambda>r. row_name r \<noteq> name) (sql_tables db)"
      using sql_exec_Inr [OF q [unfolded Inr]] by auto
    have "name \<in> secret_names st \<longleftrightarrow> b"
      using b(1) SecSqlite find_None_iff [of "\<lambda>r. row_name r = name" "sql_tables db"]
      by (auto simp: secret_names_def sealed_values_def dom_def)
    then show ?thesis using st' r f Inr b(2) SecSqlite
      by (simp add: map_err_def same_store_def backend_rows_def rows_distinct_def sealed_values_def fun_eq_iff find_filter_row distinct_map_filter)
  qed
qed

lemma resolve_ok:
  assumes "resolve c name st = (r, st')"
  shows "sealed_values st' = sealed_values st \<and> same_store st st' \<and> backend_rows st' = backend_rows st \<and>
    (\<forall>v. r = Inr v \<longrightarrow> (case sealed_values st name of None \<Rightarrow> v = None
       | Some bs \<Rightarrow> \<exists>p. key_open c (ss_key st) bs = Inr p \<and> v = Some p))"
proof -
  obtain q st1 where q: "stored name st = (q, st1)" by (cases "stored name st")
  have st1: "sealed_values st1 = sealed_values st \<and> same_store st st1 \<and> backend_rows st1 = backend_rows st \<and> (\<forall>x. q = Inr x \<longrightarrow> x = sealed_values st name)"
  proof (cases "ss_backend st")
    case (SecSqlite db)
    let ?f = "\<lambda>rows. map_option row_ciphertext (find (\<lambda>r. row_name r = name) rows)"
    obtain p db' where p: "sql_query ?f db = (p, db')" by (cases "sql_query ?f db")
    show ?thesis
      using q p SecSqlite sql_query_tables [OF p] sql_query_faults [OF p] sql_query_Inr [of ?f db _ db']
      by (cases p) (auto simp: stored_def on_sqlite_eq map_err_def same_store_def backend_rows_def rows_distinct_def sealed_values_def)
  qed (use q in \<open>auto simp: stored_def same_store_def backend_rows_def rows_distinct_def sealed_values_def\<close>)
  show ?thesis
  proof (cases q)
    case (Inr x)
    then show ?thesis
      using assms q st1 by (cases x) (auto simp: resolve_def same_store_def try_res_Inr_iff split: option.split)
  qed (use assms q st1 in \<open>auto simp: resolve_def\<close>)
qed

section \<open>Restarting\<close>

text \<open>The invariant of a store: every sealed value opens under the key, and a store that was opened without a
  key in the environment holds none.\<close>

definition store_ok :: "crypto \<Rightarrow> secret_store \<Rightarrow> bool" where
  "store_ok c st \<longleftrightarrow>
     (\<forall>name bs. sealed_values st name = Some bs \<longrightarrow> (\<exists>p. key_open c (ss_key st) bs = Inr p)) \<and>
     (\<not> ss_writable st \<longrightarrow> secret_names st = {})"

lemma store_ok_set_value:
  assumes "crypto_ok c" "is_utf8 val" "store_ok c st" "set_value c now name val st = (r, st')"
  shows "store_ok c st'"
proof (cases r)
  case (Inl e)
  then show ?thesis using assms set_value_Inl [of c now name val st e st'] by (auto simp: store_ok_def same_store_def backend_rows_def secret_names_def)
next
  case (Inr u)
  then obtain sealed n where s: "key_seal c (ss_key st) val (ss_rng st) = (Inr sealed, n)"
    "sealed_values st' = (sealed_values st)(name \<mapsto> sealed)" "same_store st st'" "ss_writable st"
    using assms(4) set_value_Inr [of c now name val st st'] by auto
  then show ?thesis using assms(3) key_open_seal [OF assms(1) s(1) assms(2)]
    by (auto simp: store_ok_def same_store_def)
qed

lemma store_ok_clear_value:
  assumes "store_ok c st" "clear_value name st = (r, st')"
  shows "store_ok c st'"
  using clear_value_ok [OF assms(2)] assms(1)
  by (auto simp: store_ok_def same_store_def backend_rows_def secret_names_def split: sum.splits if_splits)

end
