(* ===== verification/Config_State.thy ===== *)
theory Config_State
  imports Config_Bundle Config_Validate Config_Plan Config_Secrets
begin

text \<open>
  The configuration state (\<^verbatim>\<open>config/state.rs\<close>): the active document, the snapshot and secret stores behind
  it, and the operations that change them.

  Every operation that takes one lock is a function on the state.  \<^verbatim>\<open>commit\<close> checks the secrets before it takes the
  write lock, so it is the composition of the two functions \<open>commit_check\<close> and \<open>commit_install\<close>; the operations on
  secret declarations are split in the same way.  The functions of this theory are the operations as they run when
  nothing comes between; \<open>Config_Protocol\<close> has the steps in which several of them interleave.
\<close>

section \<open>State\<close>

record libs =
  lib_codecs :: codecs
  lib_zip :: zip_lib
  lib_crypto :: crypto

record gateway_runtime =
  grt_status :: string
  grt_last_error :: "string option"
  grt_container_name :: "string option"

definition default_gateway_runtime :: gateway_runtime where
  "default_gateway_runtime = \<lparr>grt_status = ''stopped'', grt_last_error = None, grt_container_name = None\<rparr>"

record runtime_meta =
  rm_timestamps :: "(string \<times> string) btree"
  rm_gateways :: "gateway_runtime btree"
  rm_agent_mounts :: "workspace_mount_record list btree"

definition empty_runtime :: runtime_meta where
  "empty_runtime = \<lparr>rm_timestamps = [], rm_gateways = [], rm_agent_mounts = []\<rparr>"

record config_state =
  cf_active :: config_document
  cf_snapshots :: snapshot_store
  cf_secrets :: secret_store
  cf_runtime :: runtime_meta

record prepared_apply =
  pa_document :: config_document
  pa_plan :: "plan_entry list"
  pa_unset_secrets :: "string list"
  pa_previous_skills :: "skill list"
  pa_source_bytes :: bytes
  pa_kind :: source_kind
  pa_semantic :: string
  pa_expected_generation :: "int option"

record apply_outcome =
  ao_snapshot :: snapshot
  ao_plan :: "plan_entry list"
  ao_document :: config_document
  ao_unset_secrets :: "string list"

type_synonym ('e, 'a) config_op = "config_state \<Rightarrow> ('e, 'a, config_state) outcome"

definition on_snapshots :: "(snapshot_store \<Rightarrow> ('e, 'a, snapshot_store) outcome) \<Rightarrow> ('e, 'a) config_op" where
  "on_snapshots f st = (case f (cf_snapshots st) of (r, s) \<Rightarrow> (r, st\<lparr>cf_snapshots := s\<rparr>))"

definition on_secrets :: "(secret_store \<Rightarrow> ('e, 'a, secret_store) outcome) \<Rightarrow> ('e, 'a) config_op" where
  "on_secrets f st = (case f (cf_secrets st) of (r, s) \<Rightarrow> (r, st\<lparr>cf_secrets := s\<rparr>))"

section \<open>Errors and sources\<close>

definition secret_error :: "secret_store_error \<Rightarrow> store_error" where
  "secret_error e = Persistence ''secret_store'' (display_secret_store_error e)"

definition config_to_store :: "config_error \<Rightarrow> store_error" where
  "config_to_store e = Persistence ''config'' (display_config_error e)"

definition res_map_err :: "('e \<Rightarrow> 'f) \<Rightarrow> ('e, 'a) result \<Rightarrow> ('f, 'a) result" where
  "res_map_err g r = (case r of Inl e \<Rightarrow> Inl (g e) | Inr x \<Rightarrow> Inr x)"

definition parse_source :: "libs \<Rightarrow> source_kind \<Rightarrow> bytes \<Rightarrow> (config_error, config_document) result" where
  "parse_source lb k source =
     (case k of
        SourceYaml \<Rightarrow> try_res (ok_or (ParseError [Ext source]) (from_utf8 source)) (load_yaml (lib_codecs lb))
      | SourceBundle \<Rightarrow> load_bundle (lib_codecs lb) (lib_zip lb) source)"

section \<open>Mutations\<close>

text \<open>The closure gets the document and gives the new one, with the value that it captures.\<close>

type_synonym 'a mutation = "config_document \<Rightarrow> (store_error, 'a \<times> config_document) result"

definition mutate :: "libs \<Rightarrow> string \<Rightarrow> 'a mutation \<Rightarrow> (store_error, 'a) config_op" where
  "mutate lb now mutation st =
     (let current = cf_active st; cd = lib_codecs lb in
      try_io (mutation current, st) (\<lambda>(x, next_doc) st.
      if typed_equal next_doc current then (Inr x, st)
      else
        try_io (res_map_err config_to_store (validate_mutation cd next_doc), st) (\<lambda>_ st.
        try_io (res_map_err config_to_store (to_canonical_yaml cd next_doc), st) (\<lambda>canonical st.
        try_io (on_snapshots (insert_and_activate cd now SourceYaml canonical (sha256_hex cd canonical)) st) (\<lambda>_ st.
        (Inr x, st\<lparr>cf_active := next_doc\<rparr>))))))"

section \<open>Applying a source\<close>

definition active_snapshot :: "(store_error, snapshot option) config_op" where
  "active_snapshot = on_snapshots snapshot_active"

text \<open>\<^verbatim>\<open>active_snapshot().ok().flatten().map(|s| s.generation)\<close>.\<close>

definition active_generation :: "config_state \<Rightarrow> int option \<times> config_state" where
  "active_generation st =
     (case active_snapshot st of
        (Inl _, st) \<Rightarrow> (None, st)
      | (Inr s, st) \<Rightarrow> (map_option sn_generation s, st))"

definition check_generation :: "int option \<Rightarrow> (config_error, unit) config_op" where
  "check_generation expected st =
     (case expected of
        None \<Rightarrow> (Inr (), st)
      | Some e \<Rightarrow> (case active_generation st of (actual, st) \<Rightarrow>
          if actual \<noteq> Some e then (Inl (GenerationConflict e actual), st) else (Inr (), st)))"

definition serialize_secret_error :: "secret_store_error \<Rightarrow> config_error" where
  "serialize_secret_error e = SerializeError (display_secret_store_error e)"

text \<open>Declarations of the current document that have a value and are missing in the next one.\<close>

definition blocked_removals :: "config_document \<Rightarrow> config_document \<Rightarrow> string list \<Rightarrow> string list" where
  "blocked_removals current next_doc set_vals =
     filter (\<lambda>n. n \<in> set set_vals \<and> \<not> secret_declared next_doc n) (map sd_name (cs_secrets (spec current)))"

definition check_secret_removal :: "config_document \<Rightarrow> (config_error, unit) config_op" where
  "check_secret_removal next_doc st =
     (let current = cf_active st in
      try_io (map_err serialize_secret_error (on_secrets set_names st)) (\<lambda>set_vals st.
       let blocked = blocked_removals current next_doc set_vals
       in if blocked = [] then (Inr (), st) else (Inl (SecretDeclarationRemovalBlocked blocked), st)))"

definition unset_referenced_secrets :: "config_document \<Rightarrow> config_state \<Rightarrow> string list \<times> config_state" where
  "unset_referenced_secrets doc st =
     (case on_secrets set_names st of (r, st) \<Rightarrow>
        (let set_vals = (case r of Inl _ \<Rightarrow> [] | Inr names \<Rightarrow> names)
         in (collect_set (filter (\<lambda>n. n \<notin> set set_vals) (map sr_name (secret_references doc))), st)))"

text \<open>The checks of \<^verbatim>\<open>prepare\<close> that need only the source.\<close>

definition check_source ::
  "libs \<Rightarrow> bytes \<Rightarrow> source_kind \<Rightarrow> string list \<Rightarrow> (config_error, config_document \<times> string) result" where
  "check_source lb source k builtin =
     (let cd = lib_codecs lb in
      try_res (parse_source lb k source) (\<lambda>next_doc.
      try_res (validate cd next_doc builtin) (\<lambda>_.
      try_res (to_canonical_yaml cd next_doc) (\<lambda>canonical.
      try_res (load_yaml cd canonical) (\<lambda>reparsed.
      if \<not> typed_equal reparsed next_doc then Inl CanonicalDrift
      else Inr (next_doc, sha256_hex cd canonical))))))"

definition prepare ::
  "libs \<Rightarrow> bytes \<Rightarrow> source_kind \<Rightarrow> string list \<Rightarrow> int option \<Rightarrow> (config_error, prepared_apply) config_op" where
  "prepare lb source k builtin expected st =
     try_io (check_source lb source k builtin, st) (\<lambda>(next_doc, semantic) st.
     try_io (check_generation expected st) (\<lambda>_ st.
     try_io (check_secret_removal next_doc st) (\<lambda>_ st.
     let current = cf_active st in
     case unset_referenced_secrets next_doc st of (unset, st) \<Rightarrow>
       (Inr \<lparr>pa_document = next_doc, pa_plan = plan current next_doc, pa_unset_secrets = unset,
             pa_previous_skills = cs_skills (spec current), pa_source_bytes = source, pa_kind = k,
             pa_semantic = semantic, pa_expected_generation = expected\<rparr>, st))))"

text \<open>\<^verbatim>\<open>commit\<close>: the check under the lock on secret operations, then the part under the write lock.\<close>

definition commit_check :: "prepared_apply \<Rightarrow> (config_error, unit) config_op" where
  "commit_check p = check_secret_removal (pa_document p)"

definition serialize_store_error :: "store_error \<Rightarrow> config_error" where
  "serialize_store_error e = SerializeError (display_store_error e)"

definition commit_install :: "libs \<Rightarrow> string \<Rightarrow> prepared_apply \<Rightarrow> (config_error, apply_outcome) config_op" where
  "commit_install lb now p st =
     try_io (check_generation (pa_expected_generation p) st) (\<lambda>_ st.
     let pl = plan (cf_active st) (pa_document p) in
     try_io (map_err serialize_store_error
         (on_snapshots (insert_and_activate (lib_codecs lb) now (pa_kind p) (pa_source_bytes p) (pa_semantic p)) st)) (\<lambda>s st.
     (Inr \<lparr>ao_snapshot = s, ao_plan = pl, ao_document = pa_document p, ao_unset_secrets = pa_unset_secrets p\<rparr>,
      st\<lparr>cf_active := pa_document p\<rparr>)))"

definition commit :: "libs \<Rightarrow> string \<Rightarrow> prepared_apply \<Rightarrow> (config_error, apply_outcome) config_op" where
  "commit lb now p st = try_io (commit_check p st) (\<lambda>_. commit_install lb now p)"

definition apply_source ::
  "libs \<Rightarrow> string \<Rightarrow> bytes \<Rightarrow> source_kind \<Rightarrow> string list \<Rightarrow> (config_error, apply_outcome) config_op" where
  "apply_source lb now source k builtin st = try_io (prepare lb source k builtin None st) (commit lb now)"

definition plan_source ::
  "libs \<Rightarrow> bytes \<Rightarrow> source_kind \<Rightarrow> string list \<Rightarrow> (config_error, plan_entry list \<times> string list) config_op" where
  "plan_source lb source k builtin st =
     try_io (parse_source lb k source, st) (\<lambda>next_doc st.
     try_io (validate (lib_codecs lb) next_doc builtin, st) (\<lambda>_ st.
     case unset_referenced_secrets next_doc st of (unset, st') \<Rightarrow> (Inr (plan (cf_active st) next_doc, unset), st')))"

definition validate_source ::
  "libs \<Rightarrow> bytes \<Rightarrow> source_kind \<Rightarrow> string list \<Rightarrow> (config_error, string list) config_op" where
  "validate_source lb source k builtin st =
     try_io (parse_source lb k source, st) (\<lambda>next_doc st.
     try_io (validate (lib_codecs lb) next_doc builtin, st) (\<lambda>_ st.
     case unset_referenced_secrets next_doc st of (unset, st) \<Rightarrow> (Inr unset, st)))"

definition source_export :: "libs \<Rightarrow> (config_error, bytes \<times> source_kind) config_op" where
  "source_export lb st =
     try_io (map_err serialize_store_error (active_snapshot st)) (\<lambda>s st.
       case s of
         Some s \<Rightarrow> (Inr (sn_source_bytes s, source_kind_from_str (sn_source_kind s)), st)
       | None \<Rightarrow> (try_res (to_canonical_yaml (lib_codecs lb) (cf_active st)) (\<lambda>t. Inr (t, SourceYaml)), st))"

definition source_bytes :: "libs \<Rightarrow> (config_error, bytes) config_op" where
  "source_bytes lb st =
     try_io (map_err serialize_store_error (active_snapshot st)) (\<lambda>s st.
       case s of
         Some s \<Rightarrow> (Inr (sn_source_bytes s), st)
       | None \<Rightarrow> (to_canonical_yaml (lib_codecs lb) (cf_active st), st))"

definition secret_reference_fields :: "string \<Rightarrow> config_state \<Rightarrow> string list" where
  "secret_reference_fields name st =
     map sr_field (filter (\<lambda>r. sr_name r = name) (secret_references (cf_active st)))"

section \<open>Runtime metadata\<close>

definition on_runtime :: "(runtime_meta \<Rightarrow> runtime_meta) \<Rightarrow> config_state \<Rightarrow> config_state" where
  "on_runtime f st = st\<lparr>cf_runtime := f (cf_runtime st)\<rparr>"

definition timestamps :: "string \<Rightarrow> string \<Rightarrow> config_state \<Rightarrow> (string \<times> string) \<times> config_state" where
  "timestamps now key st =
     (case btree_get (rm_timestamps (cf_runtime st)) key of
        Some entry \<Rightarrow> (entry, st)
      | None \<Rightarrow> ((now, now), on_runtime (\<lambda>rm. rm\<lparr>rm_timestamps := btree_insert key (now, now) (rm_timestamps rm)\<rparr>) st))"

definition mark_created :: "string \<Rightarrow> string \<Rightarrow> config_state \<Rightarrow> config_state" where
  "mark_created now key = on_runtime (\<lambda>rm. rm\<lparr>rm_timestamps := btree_insert key (now, now) (rm_timestamps rm)\<rparr>)"

definition mark_updated :: "string \<Rightarrow> string \<Rightarrow> config_state \<Rightarrow> config_state" where
  "mark_updated now key = on_runtime (\<lambda>rm. rm\<lparr>rm_timestamps := btree_insert key
     (case btree_get (rm_timestamps rm) key of Some (created, _) \<Rightarrow> (created, now) | None \<Rightarrow> (now, now)) (rm_timestamps rm)\<rparr>)"

definition remove_meta :: "string \<Rightarrow> config_state \<Rightarrow> config_state" where
  "remove_meta key = on_runtime (\<lambda>rm. rm\<lparr>rm_timestamps := btree_remove key (rm_timestamps rm)\<rparr>)"

definition gateway_runtime_of :: "string \<Rightarrow> config_state \<Rightarrow> gateway_runtime" where
  "gateway_runtime_of gateway_id st =
     (case btree_get (rm_gateways (cf_runtime st)) gateway_id of Some r \<Rightarrow> r | None \<Rightarrow> default_gateway_runtime)"

definition set_gateway_runtime :: "string \<Rightarrow> gateway_runtime \<Rightarrow> config_state \<Rightarrow> config_state" where
  "set_gateway_runtime gateway_id r = on_runtime (\<lambda>rm. rm\<lparr>rm_gateways := btree_insert gateway_id r (rm_gateways rm)\<rparr>)"

definition remove_gateway_runtime :: "string \<Rightarrow> config_state \<Rightarrow> config_state" where
  "remove_gateway_runtime gateway_id = on_runtime (\<lambda>rm. rm\<lparr>rm_gateways := btree_remove gateway_id (rm_gateways rm)\<rparr>)"

definition agent_mounts :: "string \<Rightarrow> config_state \<Rightarrow> workspace_mount_record list" where
  "agent_mounts agent_id st =
     (case btree_get (rm_agent_mounts (cf_runtime st)) agent_id of Some m \<Rightarrow> m | None \<Rightarrow> [])"

definition set_agent_mounts :: "string \<Rightarrow> workspace_mount_record list \<Rightarrow> config_state \<Rightarrow> config_state" where
  "set_agent_mounts agent_id mounts = on_runtime (\<lambda>rm. rm\<lparr>rm_agent_mounts :=
     (if mounts = [] then btree_remove agent_id (rm_agent_mounts rm)
      else btree_insert agent_id mounts (rm_agent_mounts rm))\<rparr>)"

section \<open>Secret operations\<close>

text \<open>\<^verbatim>\<open>with_declared_secret\<close>: the check, then the operation, both under the lock on secret operations.\<close>

definition secret_check :: "string option \<Rightarrow> config_state \<Rightarrow> bool" where
  "secret_check required st \<longleftrightarrow> (case required of None \<Rightarrow> True | Some n \<Rightarrow> secret_declared (cf_active st) n)"

definition with_declared_secret :: "string option \<Rightarrow> (store_error, 'a) config_op \<Rightarrow> (store_error, 'a option) config_op" where
  "with_declared_secret required operation st =
     (if secret_check required st then try_io (operation st) (\<lambda>x st. (Inr (Some x), st)) else (Inr None, st))"

definition declare_mutation :: "secret_declaration \<Rightarrow> unit mutation" where
  "declare_mutation d doc = Inr ((), doc\<lparr>spec := (spec doc)\<lparr>cs_secrets := cs_secrets (spec doc) @ [d]\<rparr>\<rparr>)"

definition declare_secret :: "libs \<Rightarrow> string \<Rightarrow> secret_declaration \<Rightarrow> (store_error, bool) config_op" where
  "declare_secret lb now d st =
     (if secret_declared (cf_active st) (sd_name d) then (Inr False, st)
      else try_io (mutate lb now (declare_mutation d) st) (\<lambda>_ st. (Inr True, st)))"

datatype secret_removal = Removed | NotDeclared | ValueSet | Referenced "string list"

definition undeclare_mutation :: "string \<Rightarrow> unit mutation" where
  "undeclare_mutation name doc =
     Inr ((), doc\<lparr>spec := (spec doc)\<lparr>cs_secrets := filter (\<lambda>d. sd_name d \<noteq> name) (cs_secrets (spec doc))\<rparr>\<rparr>)"

text \<open>The checks of \<^verbatim>\<open>undeclare_secret\<close>: \<open>None\<close> when the declaration may be removed.\<close>

definition undeclare_check :: "string \<Rightarrow> (store_error, secret_removal option) config_op" where
  "undeclare_check name st =
     (if \<not> secret_declared (cf_active st) name then (Inr (Some NotDeclared), st)
      else try_io (map_err secret_error (on_secrets (is_set name) st)) (\<lambda>b st.
        if b then (Inr (Some ValueSet), st)
        else (let references = secret_reference_fields name st
              in if references \<noteq> [] then (Inr (Some (Referenced references)), st) else (Inr None, st))))"

definition undeclare_secret :: "libs \<Rightarrow> string \<Rightarrow> string \<Rightarrow> (store_error, secret_removal) config_op" where
  "undeclare_secret lb now name st =
     try_io (undeclare_check name st) (\<lambda>r st.
       case r of
         Some r \<Rightarrow> (Inr r, st)
       | None \<Rightarrow> try_io (mutate lb now (undeclare_mutation name) st) (\<lambda>_ st. (Inr Removed, st)))"

definition store_secret_value :: "libs \<Rightarrow> string \<Rightarrow> string \<Rightarrow> string \<Rightarrow> (store_error, unit) config_op" where
  "store_secret_value lb now name val st =
     map_err secret_error (on_secrets (set_value (lib_crypto lb) now name val) st)"

definition set_secret_value :: "libs \<Rightarrow> string \<Rightarrow> string \<Rightarrow> string \<Rightarrow> (store_error, bool) config_op" where
  "set_secret_value lb now name val st =
     (if \<not> secret_declared (cf_active st) name then (Inr False, st)
      else try_io (store_secret_value lb now name val st) (\<lambda>_ st. (Inr True, st)))"

definition clear_secret_value :: "string \<Rightarrow> (store_error, bool) config_op" where
  "clear_secret_value name st = map_err secret_error (on_secrets (clear_value name) st)"

section \<open>Opening\<close>

definition LEGACY_CONFIG_TABLES :: "string list" where
  "LEGACY_CONFIG_TABLES = [''connections'', ''agents'', ''gateways'', ''kernel_configs'', ''git_agent_config'',
     ''secrets'', ''skills'', ''skill_versions'']"

text \<open>What the database file says of a table: an error, that it does not exist, or its number of rows.\<close>

type_synonym table_counts = "string \<Rightarrow> (string, nat option) result"

fun populated_tables :: "table_counts \<Rightarrow> string list \<Rightarrow> (store_error, string list) result" where
  "populated_tables counts [] = Inr []"
| "populated_tables counts (t # ts) =
     (case counts t of
        Inl e \<Rightarrow> Inl (Persistence ''config'' [Ext e])
      | Inr rows \<Rightarrow> try_res (populated_tables counts ts) (\<lambda>rest.
          Inr (case rows of Some (Suc _) \<Rightarrow> t # rest | _ \<Rightarrow> rest)))"

definition guard_against_legacy_tables :: "table_counts \<Rightarrow> bool \<Rightarrow> (store_error, unit) result" where
  "guard_against_legacy_tables counts has_active_snapshot =
     (if has_active_snapshot then Inr ()
      else try_res (populated_tables counts LEGACY_CONFIG_TABLES) (\<lambda>populated.
        if populated = [] then Inr ()
        else Inl (Persistence ''config''
          [Txt ''database contains legacy configuration tables with data ('', Txt (join_with '', '' populated),
           Txt '') but no active configuration snapshot; this schema is not migrated. Reset the database (delete the file or drop these tables) and re-apply configuration via /config/apply''])))"

text \<open>The database file, as the two stores and the guard see it.\<close>

record config_file =
  file_snapshots :: "snapshot_tables sql"
  file_secrets :: "secret_row list sql"
  file_counts :: table_counts

definition in_memory :: "libs \<Rightarrow> nat \<Rightarrow> (store_error, config_state) result" where
  "in_memory lb n =
     try_res (res_map_err secret_error (open_memory (lib_crypto lb) [] n)) (\<lambda>secrets.
       Inr \<lparr>cf_active = default_document, cf_snapshots = SnapMemory \<lparr>ms_snapshots = [], ms_active = None\<rparr>,
            cf_secrets = secrets, cf_runtime = empty_runtime\<rparr>)"

text \<open>\<^verbatim>\<open>ConfigState::open\<close> with a path; \<^verbatim>\<open>SnapshotStore::sqlite\<close> opens the file and creates the tables.\<close>

definition open_snapshots :: "snapshot_tables sql \<Rightarrow> (store_error, snapshot option, snapshot_tables sql) outcome" where
  "open_snapshots db =
     try_io (map_err persistence (sql_query (\<lambda>_. ()) db)) (\<lambda>_ db.
     try_io (map_err persistence (sql_query (\<lambda>_. ()) db)) (\<lambda>_ db. sqlite_active db))"

definition open_config :: "libs \<Rightarrow> string btree \<Rightarrow> nat \<Rightarrow> config_file option \<Rightarrow> (store_error, config_state) result" where
  "open_config lb env n path =
     (case (case path of
         None \<Rightarrow> (Inr None, SnapMemory \<lparr>ms_snapshots = [], ms_active = None\<rparr>)
       | Some f \<Rightarrow> (case open_snapshots (file_snapshots f) of (r, db) \<Rightarrow> (r, SnapSqlite db))) of
        (Inl e, _) \<Rightarrow> Inl e
      | (Inr active, snapshots) \<Rightarrow>
          try_res (case path of None \<Rightarrow> Inr () | Some f \<Rightarrow> guard_against_legacy_tables (file_counts f) (active \<noteq> None)) (\<lambda>_.
          try_res (res_map_err secret_error (case path of None \<Rightarrow> open_memory (lib_crypto lb) env n
              | Some f \<Rightarrow> open_sqlite (lib_crypto lb) env n (file_secrets f))) (\<lambda>secrets.
          try_res (case active of
              None \<Rightarrow> Inr default_document
            | Some s \<Rightarrow> res_map_err config_to_store
                (parse_source lb (source_kind_from_str (sn_source_kind s)) (sn_source_bytes s))) (\<lambda>doc.
          Inr \<lparr>cf_active = doc, cf_snapshots = snapshots, cf_secrets = secrets, cf_runtime = empty_runtime\<rparr>))))"

end
