(* ===== verification/Config_Adapter.thy ===== *)
theory Config_Adapter
  imports Config_State
begin

text \<open>
  The projections between the document and the records of the web client (\<^verbatim>\<open>config/adapter.rs\<close>), and the
  stores of agents, connections, gateways and kernel configurations that \<^verbatim>\<open>store.rs\<close> builds on them.
  \<open>now\<close> is the time at which the operation runs.
\<close>

section \<open>Projections\<close>

definition literal_or_empty :: "string config_value \<Rightarrow> string" where
  "literal_or_empty v = (case v of Literal l \<Rightarrow> l | Secret _ \<Rightarrow> [])"

definition text_to_env :: "string \<Rightarrow> string option" where
  "text_to_env env_vars = (if trim env_vars = [] then None else Some env_vars)"

definition merge_env :: "env_map option \<Rightarrow> string option \<Rightarrow> string \<Rightarrow> env_map option \<times> string option" where
  "merge_env existing_env existing_env_text incoming_text =
     (if env_to_text existing_env existing_env_text = incoming_text then (existing_env, existing_env_text)
      else (None, text_to_env incoming_text))"

definition merge_required_value :: "string config_value \<Rightarrow> string \<Rightarrow> string config_value" where
  "merge_required_value existing incoming =
     (case existing of
        Secret n \<Rightarrow> if incoming = [] then Secret n else Literal incoming
      | Literal _ \<Rightarrow> Literal incoming)"

definition env_literals :: "env_map \<Rightarrow> string btree" where
  "env_literals m = List.map_filter (\<lambda>(k, v). map_option (Pair k) (as_literal v)) m"

definition merge_gateway_secrets :: "env_map \<Rightarrow> string btree \<Rightarrow> env_map" where
  "merge_gateway_secrets existing incoming =
     (if env_literals existing = incoming then existing
      else btree_extend (btree_of (filter (\<lambda>(k, v). is_secret v \<and> \<not> contains_key incoming k) existing))
        (map (\<lambda>(k, v). (k, Literal v)) incoming))"

definition agent_key :: "string \<Rightarrow> string" where "agent_key i = ''agent/'' @ i"
definition connection_key :: "string \<Rightarrow> string" where "connection_key i = ''connection/'' @ i"
definition gateway_key :: "string \<Rightarrow> string" where "gateway_key i = ''gateway/'' @ i"
definition kernel_key :: "harness_name \<Rightarrow> string" where "kernel_key h = ''kernelConfig/'' @ harness_str h"

text \<open>\<^verbatim>\<open>iter_mut().find(..)\<close> and a change of the item that was found; \<^verbatim>\<open>iter().map(..)\<close> with a state.\<close>

fun update_first :: "('a \<Rightarrow> bool) \<Rightarrow> ('a \<Rightarrow> 'a) \<Rightarrow> 'a list \<Rightarrow> 'a list" where
  "update_first P f [] = []"
| "update_first P f (x # xs) = (if P x then f x # xs else x # update_first P f xs)"

fun map_state :: "('a \<Rightarrow> 's \<Rightarrow> 'b \<times> 's) \<Rightarrow> 'a list \<Rightarrow> 's \<Rightarrow> 'b list \<times> 's" where
  "map_state f [] s = ([], s)"
| "map_state f (x # xs) s = (case f x s of (y, s) \<Rightarrow> case map_state f xs s of (ys, s) \<Rightarrow> (y # ys, s))"

section \<open>Agents\<close>

definition cli_of_record :: "agent_cli_record option \<Rightarrow> agent_cli_config option" where
  "cli_of_record c = map_option (\<lambda>c. \<lparr>ac_harness = acr_harness c, ac_connection = acr_connection_id c\<rparr>) c"

definition record_to_agent :: "agent_record \<Rightarrow> agent" where
  "record_to_agent r = \<lparr>ag_id = ar_agent_id r, ag_name = ar_name r, ag_harness = ar_harness r,
     ag_connection = ar_connection_id r, ag_cli = cli_of_record (ar_cli r), ag_system_prompt = Literal (ar_system_prompt r),
     ag_skills = ar_skills r, ag_env = None, ag_env_text = text_to_env (ar_env_vars r)\<rparr>"

definition agent_to_record :: "string \<Rightarrow> agent \<Rightarrow> config_state \<Rightarrow> agent_record \<times> config_state" where
  "agent_to_record now a st =
     (case timestamps now (agent_key (ag_id a)) st of ((created, updated), st) \<Rightarrow>
       (\<lparr>ar_agent_id = ag_id a, ar_name = ag_name a, ar_harness = ag_harness a,
         ar_system_prompt = literal_or_empty (ag_system_prompt a), ar_skills = ag_skills a,
         ar_env_vars = env_to_text (ag_env a) (ag_env_text a), ar_connection_id = ag_connection a,
         ar_cli = map_option (\<lambda>c. \<lparr>acr_harness = ac_harness c, acr_connection_id = ac_connection c\<rparr>) (ag_cli a),
         ar_workspace_mounts = agent_mounts (ag_id a) st, ar_created_at = created, ar_updated_at = updated\<rparr>, st))"

definition patch_agent :: "agent_record \<Rightarrow> agent \<Rightarrow> agent" where
  "patch_agent r a =
     (case merge_env (ag_env a) (ag_env_text a) (ar_env_vars r) of (env, env_text) \<Rightarrow>
       a\<lparr>ag_name := ar_name r, ag_harness := ar_harness r,
         ag_system_prompt := merge_required_value (ag_system_prompt a) (ar_system_prompt r), ag_skills := ar_skills r,
         ag_connection := ar_connection_id r, ag_cli := cli_of_record (ar_cli r), ag_env := env, ag_env_text := env_text\<rparr>)"

abbreviation with_agents :: "(agent list \<Rightarrow> agent list) \<Rightarrow> config_document \<Rightarrow> config_document" where
  "with_agents f doc \<equiv> doc\<lparr>spec := (spec doc)\<lparr>cs_agents := f (cs_agents (spec doc))\<rparr>\<rparr>"

abbreviation agents_of :: "config_document \<Rightarrow> agent list" where
  "agents_of doc \<equiv> cs_agents (spec doc)"

definition list_agents :: "string \<Rightarrow> (store_error, agent_record list) config_op" where
  "list_agents now st =
     (case map_state (agent_to_record now) (agents_of (cf_active st)) st of (records, st) \<Rightarrow>
       (Inr (sort_key ar_agent_id records), st))"

definition get_agent :: "string \<Rightarrow> string \<Rightarrow> (store_error, agent_record option) config_op" where
  "get_agent now i st =
     (case find (\<lambda>a. ag_id a = i) (agents_of (cf_active st)) of
        Some a \<Rightarrow> (case agent_to_record now a st of (r, st) \<Rightarrow> (Inr (Some r), st))
      | None \<Rightarrow> (Inr None, st))"

definition insert_agent_mutation :: "agent_record \<Rightarrow> unit mutation" where
  "insert_agent_mutation r doc =
     (if list_ex (\<lambda>a. ag_id a = ar_agent_id r) (agents_of doc) then Inl (AgentAlreadyExists (ar_agent_id r))
      else Inr ((), with_agents (\<lambda>xs. xs @ [record_to_agent r]) doc))"

definition insert_agent :: "libs \<Rightarrow> string \<Rightarrow> agent_record \<Rightarrow> (store_error, unit) config_op" where
  "insert_agent lb now r st =
     try_io (mutate lb now (insert_agent_mutation r) st) (\<lambda>_ st.
       (Inr (), set_agent_mounts (ar_agent_id r) (ar_workspace_mounts r) (mark_created now (agent_key (ar_agent_id r)) st)))"

definition update_agent_mutation :: "agent_record \<Rightarrow> unit mutation" where
  "update_agent_mutation r doc =
     (if list_ex (\<lambda>a. ag_id a = ar_agent_id r) (agents_of doc)
      then Inr ((), with_agents (update_first (\<lambda>a. ag_id a = ar_agent_id r) (patch_agent r)) doc)
      else Inl (AgentNotFound (ar_agent_id r)))"

definition update_agent :: "libs \<Rightarrow> string \<Rightarrow> agent_record \<Rightarrow> (store_error, unit) config_op" where
  "update_agent lb now r st =
     try_io (mutate lb now (update_agent_mutation r) st) (\<lambda>_ st.
       (Inr (), set_agent_mounts (ar_agent_id r) (ar_workspace_mounts r) (mark_updated now (agent_key (ar_agent_id r)) st)))"

definition upsert_agent_mutation :: "agent_record \<Rightarrow> unit mutation" where
  "upsert_agent_mutation r doc =
     Inr ((), if list_ex (\<lambda>a. ag_id a = ar_agent_id r) (agents_of doc)
       then with_agents (update_first (\<lambda>a. ag_id a = ar_agent_id r) (patch_agent r)) doc
       else with_agents (\<lambda>xs. xs @ [record_to_agent r]) doc)"

definition upsert_agent :: "libs \<Rightarrow> string \<Rightarrow> agent_record \<Rightarrow> (store_error, unit) config_op" where
  "upsert_agent lb now r st =
     (let existed = list_ex (\<lambda>a. ag_id a = ar_agent_id r) (agents_of (cf_active st)); key = agent_key (ar_agent_id r)
      in try_io (mutate lb now (upsert_agent_mutation r) st) (\<lambda>_ st.
        (Inr (), set_agent_mounts (ar_agent_id r) (ar_workspace_mounts r)
           (if existed then mark_updated now key st else mark_created now key st))))"

definition add_agent_skill_mutation :: "string \<Rightarrow> string \<Rightarrow> bool mutation" where
  "add_agent_skill_mutation i skill_id doc =
     (case find (\<lambda>a. ag_id a = i) (agents_of doc) of
        None \<Rightarrow> Inl (AgentNotFound i)
      | Some a \<Rightarrow>
          if skill_id \<in> set (ag_skills a) then Inr (False, doc)
          else Inr (True, with_agents (update_first (\<lambda>a. ag_id a = i) (\<lambda>a. a\<lparr>ag_skills := ag_skills a @ [skill_id]\<rparr>)) doc))"

definition add_agent_skill :: "libs \<Rightarrow> string \<Rightarrow> string \<Rightarrow> string \<Rightarrow> (store_error, bool) config_op" where
  "add_agent_skill lb now i skill_id st =
     try_io (mutate lb now (add_agent_skill_mutation i skill_id) st) (\<lambda>added st.
       (Inr added, if added then mark_updated now (agent_key i) st else st))"

definition delete_agent_mutation :: "string \<Rightarrow> bool mutation" where
  "delete_agent_mutation i doc =
     (let kept = filter (\<lambda>a. ag_id a \<noteq> i) (agents_of doc)
      in Inr (length kept \<noteq> length (agents_of doc), with_agents (\<lambda>_. kept) doc))"

definition delete_agent :: "libs \<Rightarrow> string \<Rightarrow> string \<Rightarrow> (store_error, bool) config_op" where
  "delete_agent lb now i st =
     try_io (mutate lb now (delete_agent_mutation i) st) (\<lambda>removed st.
       (Inr removed, if removed then set_agent_mounts i [] (remove_meta (agent_key i) st) else st))"

section \<open>Connections\<close>

definition connection_api_key_value :: "connection_record \<Rightarrow> string config_value option" where
  "connection_api_key_value r =
     (case cr_api_key_secret r of
        Some n \<Rightarrow> Some (Secret n)
      | None \<Rightarrow> if cr_api_key r = [] then None else Some (Literal (cr_api_key r)))"

definition record_to_connection :: "connection_record \<Rightarrow> connection" where
  "record_to_connection r = \<lparr>cn_id = cr_connection_id r, cn_name = cr_name r, cn_url = Literal (cr_url r),
     cn_api_flavor = cr_api_flavor r, cn_api_key = connection_api_key_value r\<rparr>"

definition connection_to_record :: "string \<Rightarrow> connection \<Rightarrow> config_state \<Rightarrow> connection_record \<times> config_state" where
  "connection_to_record now c st =
     (case timestamps now (connection_key (cn_id c)) st of ((created, updated), st) \<Rightarrow>
       (\<lparr>cr_connection_id = cn_id c, cr_name = cn_name c, cr_url = literal_or_empty (cn_url c),
         cr_api_flavor = cn_api_flavor c,
         cr_api_key = (case cn_api_key c of None \<Rightarrow> [] | Some k \<Rightarrow> literal_or_empty k),
         cr_api_key_secret = Option.bind (cn_api_key c) secret_name_of,
         cr_created_at = created, cr_updated_at = updated\<rparr>, st))"

definition patch_connection :: "connection_record \<Rightarrow> connection \<Rightarrow> connection" where
  "patch_connection r c =
     c\<lparr>cn_name := cr_name r, cn_api_flavor := cr_api_flavor r, cn_url := merge_required_value (cn_url c) (cr_url r),
       cn_api_key := connection_api_key_value r\<rparr>"

abbreviation with_connections :: "(connection list \<Rightarrow> connection list) \<Rightarrow> config_document \<Rightarrow> config_document" where
  "with_connections f doc \<equiv> doc\<lparr>spec := (spec doc)\<lparr>cs_connections := f (cs_connections (spec doc))\<rparr>\<rparr>"

abbreviation connections_of :: "config_document \<Rightarrow> connection list" where
  "connections_of doc \<equiv> cs_connections (spec doc)"

definition list_connections :: "string \<Rightarrow> (store_error, connection_record list) config_op" where
  "list_connections now st =
     (case map_state (connection_to_record now) (connections_of (cf_active st)) st of (records, st) \<Rightarrow>
       (Inr (sort_key cr_connection_id records), st))"

definition get_connection :: "string \<Rightarrow> string \<Rightarrow> (store_error, connection_record option) config_op" where
  "get_connection now i st =
     (case find (\<lambda>c. cn_id c = i) (connections_of (cf_active st)) of
        Some c \<Rightarrow> (case connection_to_record now c st of (r, st) \<Rightarrow> (Inr (Some r), st))
      | None \<Rightarrow> (Inr None, st))"

definition insert_connection_mutation :: "connection_record \<Rightarrow> unit mutation" where
  "insert_connection_mutation r doc =
     (if list_ex (\<lambda>c. cn_id c = cr_connection_id r) (connections_of doc) then Inl (ConnectionAlreadyExists (cr_connection_id r))
      else Inr ((), with_connections (\<lambda>xs. xs @ [record_to_connection r]) doc))"

definition insert_connection :: "libs \<Rightarrow> string \<Rightarrow> connection_record \<Rightarrow> (store_error, unit) config_op" where
  "insert_connection lb now r st =
     try_io (mutate lb now (insert_connection_mutation r) st) (\<lambda>_ st.
       (Inr (), mark_created now (connection_key (cr_connection_id r)) st))"

definition update_connection_mutation :: "connection_record \<Rightarrow> unit mutation" where
  "update_connection_mutation r doc =
     (if list_ex (\<lambda>c. cn_id c = cr_connection_id r) (connections_of doc)
      then Inr ((), with_connections (update_first (\<lambda>c. cn_id c = cr_connection_id r) (patch_connection r)) doc)
      else Inl (ConnectionNotFound (cr_connection_id r)))"

definition update_connection :: "libs \<Rightarrow> string \<Rightarrow> connection_record \<Rightarrow> (store_error, unit) config_op" where
  "update_connection lb now r st =
     try_io (mutate lb now (update_connection_mutation r) st) (\<lambda>_ st.
       (Inr (), mark_updated now (connection_key (cr_connection_id r)) st))"

definition upsert_connection_mutation :: "connection_record \<Rightarrow> unit mutation" where
  "upsert_connection_mutation r doc =
     Inr ((), if list_ex (\<lambda>c. cn_id c = cr_connection_id r) (connections_of doc)
       then with_connections (update_first (\<lambda>c. cn_id c = cr_connection_id r) (patch_connection r)) doc
       else with_connections (\<lambda>xs. xs @ [record_to_connection r]) doc)"

definition upsert_connection :: "libs \<Rightarrow> string \<Rightarrow> connection_record \<Rightarrow> (store_error, unit) config_op" where
  "upsert_connection lb now r st =
     (let existed = list_ex (\<lambda>c. cn_id c = cr_connection_id r) (connections_of (cf_active st));
          key = connection_key (cr_connection_id r)
      in try_io (mutate lb now (upsert_connection_mutation r) st) (\<lambda>_ st.
        (Inr (), if existed then mark_updated now key st else mark_created now key st)))"

definition delete_connection_mutation :: "string \<Rightarrow> bool mutation" where
  "delete_connection_mutation i doc =
     (let kept = filter (\<lambda>c. cn_id c \<noteq> i) (connections_of doc)
      in Inr (length kept \<noteq> length (connections_of doc), with_connections (\<lambda>_. kept) doc))"

definition delete_connection :: "libs \<Rightarrow> string \<Rightarrow> string \<Rightarrow> (store_error, bool) config_op" where
  "delete_connection lb now i st =
     try_io (mutate lb now (delete_connection_mutation i) st) (\<lambda>removed st.
       (Inr removed, if removed then remove_meta (connection_key i) st else st))"

section \<open>Gateways\<close>

definition record_to_gateway :: "gateway_record \<Rightarrow> gateway" where
  "record_to_gateway r = \<lparr>gw_id = gr_gateway_id r, gw_name = gr_name r, gw_type = gr_gateway_type r,
     gw_agent = gr_agent_id r, gw_enabled = gr_enabled r, gw_env = None, gw_env_text = text_to_env (gr_env_vars r),
     gw_secrets = map (\<lambda>(k, v). (k, Literal v)) (gr_secrets r)\<rparr>"

definition gateway_to_record :: "string \<Rightarrow> gateway \<Rightarrow> config_state \<Rightarrow> gateway_record \<times> config_state" where
  "gateway_to_record now g st =
     (case timestamps now (gateway_key (gw_id g)) st of ((created, updated), st) \<Rightarrow>
       (let runtime = gateway_runtime_of (gw_id g) st in
       (\<lparr>gr_gateway_id = gw_id g, gr_name = gw_name g, gr_gateway_type = gw_type g, gr_agent_id = gw_agent g,
         gr_enabled = gw_enabled g, gr_env_vars = env_to_text (gw_env g) (gw_env_text g),
         gr_secrets = env_literals (gw_secrets g), gr_status = grt_status runtime, gr_last_error = grt_last_error runtime,
         gr_container_name = grt_container_name runtime, gr_created_at = created, gr_updated_at = updated\<rparr>, st)))"

definition patch_gateway :: "gateway_record \<Rightarrow> gateway \<Rightarrow> gateway" where
  "patch_gateway r g =
     (case merge_env (gw_env g) (gw_env_text g) (gr_env_vars r) of (env, env_text) \<Rightarrow>
       g\<lparr>gw_name := gr_name r, gw_type := gr_gateway_type r, gw_agent := gr_agent_id r, gw_enabled := gr_enabled r,
         gw_env := env, gw_env_text := env_text, gw_secrets := merge_gateway_secrets (gw_secrets g) (gr_secrets r)\<rparr>)"

abbreviation with_gateways :: "(gateway list \<Rightarrow> gateway list) \<Rightarrow> config_document \<Rightarrow> config_document" where
  "with_gateways f doc \<equiv> doc\<lparr>spec := (spec doc)\<lparr>cs_gateways := f (cs_gateways (spec doc))\<rparr>\<rparr>"

abbreviation gateways_of :: "config_document \<Rightarrow> gateway list" where
  "gateways_of doc \<equiv> cs_gateways (spec doc)"

definition record_runtime :: "gateway_record \<Rightarrow> gateway_runtime" where
  "record_runtime r =
     \<lparr>grt_status = gr_status r, grt_last_error = gr_last_error r, grt_container_name = gr_container_name r\<rparr>"

definition list_gateways :: "string \<Rightarrow> (store_error, gateway_record list) config_op" where
  "list_gateways now st =
     (case map_state (gateway_to_record now) (gateways_of (cf_active st)) st of (records, st) \<Rightarrow>
       (Inr (sort_key gr_gateway_id records), st))"

definition get_gateway :: "string \<Rightarrow> string \<Rightarrow> (store_error, gateway_record option) config_op" where
  "get_gateway now i st =
     (case find (\<lambda>g. gw_id g = i) (gateways_of (cf_active st)) of
        Some g \<Rightarrow> (case gateway_to_record now g st of (r, st) \<Rightarrow> (Inr (Some r), st))
      | None \<Rightarrow> (Inr None, st))"

definition insert_gateway_mutation :: "gateway_record \<Rightarrow> unit mutation" where
  "insert_gateway_mutation r doc =
     (if list_ex (\<lambda>g. gw_id g = gr_gateway_id r) (gateways_of doc) then Inl (GatewayAlreadyExists (gr_gateway_id r))
      else Inr ((), with_gateways (\<lambda>xs. xs @ [record_to_gateway r]) doc))"

definition insert_gateway :: "libs \<Rightarrow> string \<Rightarrow> gateway_record \<Rightarrow> (store_error, unit) config_op" where
  "insert_gateway lb now r st =
     try_io (mutate lb now (insert_gateway_mutation r) st) (\<lambda>_ st.
       (Inr (), set_gateway_runtime (gr_gateway_id r) (record_runtime r) (mark_created now (gateway_key (gr_gateway_id r)) st)))"

definition update_gateway_mutation :: "gateway_record \<Rightarrow> unit mutation" where
  "update_gateway_mutation r doc =
     (if list_ex (\<lambda>g. gw_id g = gr_gateway_id r) (gateways_of doc)
      then Inr ((), with_gateways (update_first (\<lambda>g. gw_id g = gr_gateway_id r) (patch_gateway r)) doc)
      else Inl (GatewayNotFound (gr_gateway_id r)))"

definition update_gateway :: "libs \<Rightarrow> string \<Rightarrow> gateway_record \<Rightarrow> (store_error, unit) config_op" where
  "update_gateway lb now r st =
     try_io (mutate lb now (update_gateway_mutation r) st) (\<lambda>_ st.
       (Inr (), set_gateway_runtime (gr_gateway_id r) (record_runtime r) (mark_updated now (gateway_key (gr_gateway_id r)) st)))"

definition upsert_gateway_mutation :: "gateway_record \<Rightarrow> unit mutation" where
  "upsert_gateway_mutation r doc =
     Inr ((), if list_ex (\<lambda>g. gw_id g = gr_gateway_id r) (gateways_of doc)
       then with_gateways (update_first (\<lambda>g. gw_id g = gr_gateway_id r) (patch_gateway r)) doc
       else with_gateways (\<lambda>xs. xs @ [record_to_gateway r]) doc)"

definition upsert_gateway :: "libs \<Rightarrow> string \<Rightarrow> gateway_record \<Rightarrow> (store_error, unit) config_op" where
  "upsert_gateway lb now r st =
     (let existed = list_ex (\<lambda>g. gw_id g = gr_gateway_id r) (gateways_of (cf_active st)); key = gateway_key (gr_gateway_id r)
      in try_io (mutate lb now (upsert_gateway_mutation r) st) (\<lambda>_ st.
        (Inr (), set_gateway_runtime (gr_gateway_id r) (record_runtime r)
           (if existed then mark_updated now key st else mark_created now key st))))"

definition delete_gateway_mutation :: "string \<Rightarrow> bool mutation" where
  "delete_gateway_mutation i doc =
     (let kept = filter (\<lambda>g. gw_id g \<noteq> i) (gateways_of doc)
      in Inr (length kept \<noteq> length (gateways_of doc), with_gateways (\<lambda>_. kept) doc))"

definition delete_gateway :: "libs \<Rightarrow> string \<Rightarrow> string \<Rightarrow> (store_error, bool) config_op" where
  "delete_gateway lb now i st =
     try_io (mutate lb now (delete_gateway_mutation i) st) (\<lambda>removed st.
       (Inr removed, if removed then remove_gateway_runtime i (remove_meta (gateway_key i) st) else st))"

section \<open>Kernel configurations\<close>

definition kernel_to_record :: "string \<Rightarrow> kernel_config \<Rightarrow> config_state \<Rightarrow> kernel_config_record \<times> config_state" where
  "kernel_to_record now k st =
     (case timestamps now (kernel_key (kc_harness k)) st of ((_, updated), st) \<Rightarrow>
       (\<lparr>kr_harness = kc_harness k, kr_env_vars = env_to_text (kc_env k) (kc_env_text k), kr_updated_at = updated\<rparr>, st))"

abbreviation with_kernels :: "(kernel_config list \<Rightarrow> kernel_config list) \<Rightarrow> config_document \<Rightarrow> config_document" where
  "with_kernels f doc \<equiv> doc\<lparr>spec := (spec doc)\<lparr>cs_kernel_configs := f (cs_kernel_configs (spec doc))\<rparr>\<rparr>"

abbreviation kernels_of :: "config_document \<Rightarrow> kernel_config list" where
  "kernels_of doc \<equiv> cs_kernel_configs (spec doc)"

definition list_kernel_configs :: "string \<Rightarrow> (store_error, kernel_config_record list) config_op" where
  "list_kernel_configs now st =
     (case map_state (kernel_to_record now) (kernels_of (cf_active st)) st of (records, st) \<Rightarrow>
       (Inr (sort_key (harness_str \<circ> kr_harness) records), st))"

definition get_kernel_config :: "string \<Rightarrow> harness_name \<Rightarrow> (store_error, kernel_config_record option) config_op" where
  "get_kernel_config now h st =
     (case find (\<lambda>k. kc_harness k = h) (kernels_of (cf_active st)) of
        Some k \<Rightarrow> (case kernel_to_record now k st of (r, st) \<Rightarrow> (Inr (Some r), st))
      | None \<Rightarrow> (Inr None, st))"

definition patch_kernel :: "string \<Rightarrow> kernel_config \<Rightarrow> kernel_config" where
  "patch_kernel env_vars k =
     (case merge_env (kc_env k) (kc_env_text k) env_vars of (env, env_text) \<Rightarrow> k\<lparr>kc_env := env, kc_env_text := env_text\<rparr>)"

definition upsert_kernel_mutation :: "harness_name \<Rightarrow> string \<Rightarrow> unit mutation" where
  "upsert_kernel_mutation h env_vars doc =
     Inr ((), if list_ex (\<lambda>k. kc_harness k = h) (kernels_of doc)
       then with_kernels (update_first (\<lambda>k. kc_harness k = h) (patch_kernel env_vars)) doc
       else with_kernels (\<lambda>xs. xs @ [\<lparr>kc_harness = h, kc_env = None, kc_env_text = text_to_env env_vars\<rparr>]) doc)"

definition upsert_kernel_config :: "libs \<Rightarrow> string \<Rightarrow> harness_name \<Rightarrow> string \<Rightarrow> (store_error, kernel_config_record) config_op" where
  "upsert_kernel_config lb now h env_vars st =
     try_io (mutate lb now (upsert_kernel_mutation h env_vars) st) (\<lambda>_ st.
       case timestamps now (kernel_key h) (mark_updated now (kernel_key h) st) of ((_, updated), st) \<Rightarrow>
         (Inr \<lparr>kr_harness = h, kr_env_vars = env_vars, kr_updated_at = updated\<rparr>, st))"

definition delete_kernel_mutation :: "harness_name \<Rightarrow> bool mutation" where
  "delete_kernel_mutation h doc =
     (let kept = filter (\<lambda>k. kc_harness k \<noteq> h) (kernels_of doc)
      in Inr (length kept \<noteq> length (kernels_of doc), with_kernels (\<lambda>_. kept) doc))"

definition delete_kernel_config :: "libs \<Rightarrow> string \<Rightarrow> harness_name \<Rightarrow> (store_error, bool) config_op" where
  "delete_kernel_config lb now h st =
     try_io (mutate lb now (delete_kernel_mutation h) st) (\<lambda>removed st.
       (Inr removed, if removed then remove_meta (kernel_key h) st else st))"

section \<open>Skills\<close>

abbreviation with_skills :: "(skill list \<Rightarrow> skill list) \<Rightarrow> config_document \<Rightarrow> config_document" where
  "with_skills f doc \<equiv> doc\<lparr>spec := (spec doc)\<lparr>cs_skills := f (cs_skills (spec doc))\<rparr>\<rparr>"

abbreviation skills_of :: "config_document \<Rightarrow> skill list" where
  "skills_of doc \<equiv> cs_skills (spec doc)"

definition get_skill :: "string \<Rightarrow> config_state \<Rightarrow> skill option" where
  "get_skill i st = find (\<lambda>s. sk_id s = i) (skills_of (cf_active st))"

definition skill_exists :: "string \<Rightarrow> config_state \<Rightarrow> bool" where
  "skill_exists i st = list_ex (\<lambda>s. sk_id s = i) (skills_of (cf_active st))"

definition upsert_skill_mutation :: "string \<Rightarrow> string btree \<Rightarrow> unit mutation" where
  "upsert_skill_mutation i files doc =
     Inr ((), if list_ex (\<lambda>s. sk_id s = i) (skills_of doc)
       then with_skills (update_first (\<lambda>s. sk_id s = i) (\<lambda>s. s\<lparr>sk_files := files\<rparr>)) doc
       else with_skills (\<lambda>xs. xs @ [\<lparr>sk_id = i, sk_files = files\<rparr>]) doc)"

definition upsert_skill :: "libs \<Rightarrow> string \<Rightarrow> string \<Rightarrow> string btree \<Rightarrow> (store_error, unit) config_op" where
  "upsert_skill lb now i files = mutate lb now (upsert_skill_mutation i files)"

definition delete_skill_mutation :: "string \<Rightarrow> unit mutation" where
  "delete_skill_mutation i doc = Inr ((), with_skills (filter (\<lambda>s. sk_id s \<noteq> i)) doc)"

definition delete_skill :: "libs \<Rightarrow> string \<Rightarrow> string \<Rightarrow> (store_error, bool) config_op" where
  "delete_skill lb now i st =
     (if skill_exists i st then try_io (mutate lb now (delete_skill_mutation i) st) (\<lambda>_ st. (Inr True, st))
      else (Inr False, st))"

section \<open>Facts\<close>

text \<open>What the configuration state relies on: a mutation keeps identities unique and the declared secrets.\<close>

definition mutation_ok :: "'a mutation \<Rightarrow> bool" where
  "mutation_ok m \<longleftrightarrow> (\<forall>doc x doc'. unique_ids doc \<longrightarrow> m doc = Inr (x, doc') \<longrightarrow>
     unique_ids doc' \<and> cs_secrets (spec doc') = cs_secrets (spec doc))"

lemma map_update_first: "(\<And>x. P x \<Longrightarrow> f (g x) = f x) \<Longrightarrow> map f (update_first P g xs) = map f xs"
  by (induction xs) auto

lemma distinct_map_snoc: "distinct (map f (xs @ [x])) \<longleftrightarrow> distinct (map f xs) \<and> \<not> list_ex (\<lambda>y. f y = f x) xs"
  by (auto simp: list_ex_iff image_iff)

lemma patch_ids [simp]:
  "ag_id (patch_agent r a) = ag_id a" "cn_id (patch_connection p c) = cn_id c"
  "gw_id (patch_gateway q g) = gw_id g" "kc_harness (patch_kernel v k) = kc_harness k"
  by (simp_all add: patch_agent_def patch_connection_def patch_gateway_def patch_kernel_def split: prod.split)

lemma record_ids [simp]:
  "ag_id (record_to_agent ar) = ar_agent_id ar" "cn_id (record_to_connection cr) = cr_connection_id cr"
  "gw_id (record_to_gateway gr) = gr_gateway_id gr"
  by (simp_all add: record_to_agent_def record_to_connection_def record_to_gateway_def)

named_theorems mutations \<open>the closures of the adapters\<close>

lemmas mutation_defs [mutations] =
  insert_agent_mutation_def update_agent_mutation_def upsert_agent_mutation_def add_agent_skill_mutation_def
  delete_agent_mutation_def insert_connection_mutation_def update_connection_mutation_def
  upsert_connection_mutation_def delete_connection_mutation_def insert_gateway_mutation_def
  update_gateway_mutation_def upsert_gateway_mutation_def delete_gateway_mutation_def upsert_kernel_mutation_def
  delete_kernel_mutation_def upsert_skill_mutation_def delete_skill_mutation_def

lemma mutations_ok:
  "mutation_ok (insert_agent_mutation ar)" "mutation_ok (update_agent_mutation ar)" "mutation_ok (upsert_agent_mutation ar)"
  "mutation_ok (add_agent_skill_mutation i sk)" "mutation_ok (delete_agent_mutation i)"
  "mutation_ok (insert_connection_mutation cr)" "mutation_ok (update_connection_mutation cr)"
  "mutation_ok (upsert_connection_mutation cr)" "mutation_ok (delete_connection_mutation i)"
  "mutation_ok (insert_gateway_mutation gr)" "mutation_ok (update_gateway_mutation gr)"
  "mutation_ok (upsert_gateway_mutation gr)" "mutation_ok (delete_gateway_mutation i)"
  "mutation_ok (upsert_kernel_mutation h env)" "mutation_ok (delete_kernel_mutation h)"
  "mutation_ok (upsert_skill_mutation i files)" "mutation_ok (delete_skill_mutation i)"
  by (auto simp: mutation_ok_def unique_ids_def mutations map_update_first distinct_map_snoc distinct_map_filter Let_def
      split: if_splits option.splits simp del: map_append)

text \<open>Reading a resource and writing it back unchanged leaves it as it was, secrets and structured environments
  included.  The one exception is a connection whose key is the empty literal: the record cannot express it.\<close>

lemma merge_env_same [simp]: "merge_env env env_text (env_to_text env env_text) = (env, env_text)"
  by (simp add: merge_env_def)

lemma merge_required_same [simp]: "merge_required_value v (literal_or_empty v) = v"
  by (cases v) (simp_all add: merge_required_value_def literal_or_empty_def)

lemma merge_secrets_same [simp]: "merge_gateway_secrets m (env_literals m) = m"
  by (simp add: merge_gateway_secrets_def)

lemma cli_of_record_same [simp]:
  "cli_of_record (map_option (\<lambda>c. \<lparr>acr_harness = ac_harness c, acr_connection_id = ac_connection c\<rparr>) cli) = cli"
  by (cases cli) (simp_all add: cli_of_record_def)

lemma patch_agent_same: "agent_to_record now a st = (r, st') \<Longrightarrow> patch_agent r a = a"
  by (auto simp: agent_to_record_def patch_agent_def split: prod.splits)

lemma patch_gateway_same: "gateway_to_record now g st = (r, st') \<Longrightarrow> patch_gateway r g = g"
  by (auto simp: gateway_to_record_def patch_gateway_def Let_def split: prod.splits)

lemma literal_or_empty_simps [simp]: "literal_or_empty (Literal l) = l" "literal_or_empty (Secret n) = []"
  by (simp_all add: literal_or_empty_def)

lemma api_key_same:
  assumes "connection_to_record now c st = (r, st')" "cn_api_key c \<noteq> Some (Literal [])"
  shows "connection_api_key_value r = cn_api_key c"
proof (cases "cn_api_key c")
  case (Some k)
  then show ?thesis using assms
    by (cases k) (auto simp: connection_to_record_def connection_api_key_value_def split: prod.splits)
qed (use assms in \<open>auto simp: connection_to_record_def connection_api_key_value_def split: prod.splits\<close>)

lemma patch_connection_same:
  assumes "connection_to_record now c st = (r, st')" "cn_api_key c \<noteq> Some (Literal [])"
  shows "patch_connection r c = c"
  using assms(1) unfolding patch_connection_def api_key_same [OF assms]
  by (auto simp: connection_to_record_def split: prod.splits)

text \<open>The exception: writing back a connection whose key is the empty literal drops the key.\<close>

lemma empty_key_dropped:
  assumes "connection_to_record now c st = (r, st')" "cn_api_key c = Some (Literal [])"
  shows "cn_api_key (patch_connection r c) = None"
  using assms
  by (auto simp: connection_to_record_def patch_connection_def connection_api_key_value_def split: prod.splits)

text \<open>A mutation that gives the same document is a no-op.\<close>

lemma mutate_same: "m (cf_active st) = Inr (x, cf_active st) \<Longrightarrow> mutate lb now m st = (Inr x, st)"
  by (simp add: mutate_def typed_equal_equiv(1))

lemma update_first_same: "find P xs = Some x \<Longrightarrow> f x = x \<Longrightarrow> update_first P f xs = xs"
  by (induction xs) (auto split: if_splits)

lemma find_list_ex: "find P xs = Some x \<Longrightarrow> list_ex P xs"
  by (auto simp: list_ex_iff dest: find_SomeD)

text \<open>What the clients of the configuration see of a state.\<close>

definition same_config :: "config_state \<Rightarrow> config_state \<Rightarrow> bool" where
  "same_config st st' \<longleftrightarrow> cf_active st' = cf_active st \<and> cf_snapshots st' = cf_snapshots st \<and> cf_secrets st' = cf_secrets st"

lemma timestamps_config: "timestamps now key st = (x, st') \<Longrightarrow> same_config st st'"
  by (auto simp: timestamps_def same_config_def on_runtime_def split: option.splits)

lemma runtime_config [simp]:
  "same_config st (set_agent_mounts i m st') = same_config st st'" "same_config st (mark_updated now key st') = same_config st st'"
  "same_config st (mark_created now key st') = same_config st st'" "same_config st (set_gateway_runtime i r st') = same_config st st'"
  by (simp_all add: same_config_def set_agent_mounts_def mark_updated_def mark_created_def set_gateway_runtime_def on_runtime_def)

lemma with_same [simp]:
  "with_agents (\<lambda>_. agents_of doc) doc = doc" "with_gateways (\<lambda>_. gateways_of doc) doc = doc"
  "with_connections (\<lambda>_. connections_of doc) doc = doc"
  by simp_all

lemma agent_write_back:
  assumes "get_agent now i st = (Inr (Some r), st1)" "update_agent lb now' r st1 = (q, st2)"
  shows "q = Inr () \<and> same_config st st2"
proof -
  obtain a where a: "find (\<lambda>a. ag_id a = i) (agents_of (cf_active st)) = Some a" and r: "agent_to_record now a st = (r, st1)"
    using assms(1) by (auto simp: get_agent_def split: option.splits prod.splits)
  have i: "ag_id a = i" "ar_agent_id r = i" and c: "same_config st st1"
    using find_SomeD [OF a] r timestamps_config by (auto simp: agent_to_record_def split: prod.splits)
  have "update_agent_mutation r (cf_active st1) = Inr ((), cf_active st1)"
    using c find_list_ex [OF a] update_first_same [where f = "patch_agent r", OF a patch_agent_same [OF r]] i
    by (simp add: update_agent_mutation_def same_config_def)
  then show ?thesis using assms(2) c by (auto simp: update_agent_def mutate_same)
qed

lemma gateway_write_back:
  assumes "get_gateway now i st = (Inr (Some r), st1)" "update_gateway lb now' r st1 = (q, st2)"
  shows "q = Inr () \<and> same_config st st2"
proof -
  obtain g where g: "find (\<lambda>g. gw_id g = i) (gateways_of (cf_active st)) = Some g" and r: "gateway_to_record now g st = (r, st1)"
    using assms(1) by (auto simp: get_gateway_def split: option.splits prod.splits)
  have i: "gw_id g = i" "gr_gateway_id r = i" and c: "same_config st st1"
    using find_SomeD [OF g] r timestamps_config by (auto simp: gateway_to_record_def Let_def split: prod.splits)
  have "update_gateway_mutation r (cf_active st1) = Inr ((), cf_active st1)"
    using c find_list_ex [OF g] update_first_same [where f = "patch_gateway r", OF g patch_gateway_same [OF r]] i
    by (simp add: update_gateway_mutation_def same_config_def)
  then show ?thesis using assms(2) c by (auto simp: update_gateway_def mutate_same)
qed

lemma connection_write_back:
  assumes "get_connection now i st = (Inr (Some r), st1)" "update_connection lb now' r st1 = (q, st2)"
    and "\<forall>c \<in> set (connections_of (cf_active st)). cn_id c = i \<longrightarrow> cn_api_key c \<noteq> Some (Literal [])"
  shows "q = Inr () \<and> same_config st st2"
proof -
  obtain c where c: "find (\<lambda>c. cn_id c = i) (connections_of (cf_active st)) = Some c" and r: "connection_to_record now c st = (r, st1)"
    using assms(1) by (auto simp: get_connection_def split: option.splits prod.splits)
  have i: "cn_id c = i" "cr_connection_id r = i" and s: "same_config st st1"
    using find_SomeD [OF c] r timestamps_config by (auto simp: connection_to_record_def split: prod.splits)
  have key: "cn_api_key c \<noteq> Some (Literal [])" using assms(3) find_SomeD [OF c] by auto
  have "update_connection_mutation r (cf_active st1) = Inr ((), cf_active st1)"
    using s find_list_ex [OF c] update_first_same [where f = "patch_connection r", OF c patch_connection_same [OF r key]] i
    by (simp add: update_connection_mutation_def same_config_def)
  then show ?thesis using assms(2) s by (auto simp: update_connection_def mutate_same)
qed

end
