(* ===== verification/Config_Protocol.thy ===== *)
theory Config_Protocol
  imports Config_Adapter
begin

text \<open>
  The configuration state under concurrent requests: a step relation at the granularity of the locks of
  \<^verbatim>\<open>state.rs\<close>, with the task that holds the lock on secret operations, and restarts of the service.  Every access
  to the active document, the snapshot store or the secret store is a step of its own, unless the code holds
  the write lock on the active document around it.
\<close>

section \<open>Steps\<close>

text \<open>
  How far the task that holds the lock on secret operations is.  A commit reads the active document
  (\<open>Checking\<close>), then the names of the secrets that have a value (\<open>Checked\<close>, with the document it read), and then
  takes the write lock (\<open>Committing\<close>); the removal of a declaration looks for a value, then for references.
\<close>

datatype secret_task =
    Checking prepared_apply
  | Checked prepared_apply config_document
  | Committing prepared_apply
  | Declaring secret_declaration
  | Undeclare_value string
  | Undeclare_refs string
  | Undeclaring string
  | Setting string string
  | Guarding

text \<open>
  An apply that has been prepared from a source: its document is what the source was checked to be.  What it
  planned against was read while other requests went on, so nothing is known of it.
\<close>

definition prepared_from :: "libs \<Rightarrow> prepared_apply \<Rightarrow> bool" where
  "prepared_from lb p \<longleftrightarrow>
     (\<exists>builtin. check_source lb (pa_source_bytes p) (pa_kind p) builtin = Inr (pa_document p, pa_semantic p))"

type_synonym system = "config_state \<times> secret_task option"

text \<open>The source that a mutation would store is one of \<open>S\<close>.\<close>

definition mutation_source_in :: "libs \<Rightarrow> (source_kind \<times> bytes) set \<Rightarrow> 'a mutation \<Rightarrow> config_state \<Rightarrow> bool" where
  "mutation_source_in lb S m st \<longleftrightarrow>
     (\<forall>x d t. m (cf_active st) = Inr (x, d) \<longrightarrow> to_canonical_yaml (lib_codecs lb) d = Inr t \<longrightarrow> (SourceYaml, t) \<in> S)"

text \<open>The file that a restarted service finds: the tables as they were, with faults of its own.\<close>

definition file_of :: "config_state \<Rightarrow> config_file \<Rightarrow> bool" where
  "file_of st f \<longleftrightarrow>
     (case (cf_snapshots st, ss_backend (cf_secrets st)) of
        (SnapSqlite db, SecSqlite rows) \<Rightarrow>
          sql_tables (file_snapshots f) = sql_tables db \<and> sql_tables (file_secrets f) = sql_tables rows
      | _ \<Rightarrow> False)"

inductive cfg_step :: "libs \<Rightarrow> (source_kind \<times> bytes) set \<Rightarrow> system \<Rightarrow> system \<Rightarrow> bool" for lb S where
  Mutate: "mutation_ok m \<Longrightarrow> mutation_source_in lb S m st \<Longrightarrow> mutate lb now (m :: unit mutation) st = (r, st') \<Longrightarrow>
    cfg_step lb S (st, h) (st', h)"
| Runtime: "cfg_step lb S (st, h) (on_runtime f st, h)"
| Read_snapshot: "active_snapshot st = (r, st') \<Longrightarrow> cfg_step lb S (st, h) (st', h)"
| Read_names: "on_secrets set_names st = (r, st') \<Longrightarrow> cfg_step lb S (st, h) (st', h)"
| Resolve: "on_secrets (resolve (lib_crypto lb) name) st = (r, st') \<Longrightarrow> cfg_step lb S (st, h) (st', h)"
| Commit_begin: "prepared_from lb p \<Longrightarrow> (pa_kind p, pa_source_bytes p) \<in> S \<Longrightarrow>
    cfg_step lb S (st, None) (st, Some (Checking p))"
| Commit_active: "cfg_step lb S (st, Some (Checking p)) (st, Some (Checked p (cf_active st)))"
| Commit_names: "on_secrets set_names st = (Inr names, st') \<Longrightarrow> blocked_removals current (pa_document p) names = [] \<Longrightarrow>
    cfg_step lb S (st, Some (Checked p current)) (st', Some (Committing p))"
| Commit_blocked: "on_secrets set_names st = (Inr names, st') \<Longrightarrow> blocked_removals current (pa_document p) names \<noteq> [] \<Longrightarrow>
    cfg_step lb S (st, Some (Checked p current)) (st', None)"
| Commit_unread: "on_secrets set_names st = (Inl e, st') \<Longrightarrow> cfg_step lb S (st, Some (Checked p current)) (st', None)"
| Commit_end: "commit_install lb now p st = (r, st') \<Longrightarrow> cfg_step lb S (st, Some (Committing p)) (st', None)"
| Declare_begin: "\<not> secret_declared (cf_active st) (sd_name d) \<Longrightarrow> cfg_step lb S (st, None) (st, Some (Declaring d))"
| Declare_end: "mutation_source_in lb S (declare_mutation d) st \<Longrightarrow> mutate lb now (declare_mutation d) st = (r, st') \<Longrightarrow>
    cfg_step lb S (st, Some (Declaring d)) (st', None)"
| Undeclare_begin: "secret_declared (cf_active st) name \<Longrightarrow> cfg_step lb S (st, None) (st, Some (Undeclare_value name))"
| Undeclare_unset: "on_secrets (is_set name) st = (Inr False, st') \<Longrightarrow>
    cfg_step lb S (st, Some (Undeclare_value name)) (st', Some (Undeclare_refs name))"
| Undeclare_set: "on_secrets (is_set name) st = (r, st') \<Longrightarrow> r \<noteq> Inr False \<Longrightarrow>
    cfg_step lb S (st, Some (Undeclare_value name)) (st', None)"
| Undeclare_free: "secret_reference_fields name st = [] \<Longrightarrow>
    cfg_step lb S (st, Some (Undeclare_refs name)) (st, Some (Undeclaring name))"
| Undeclare_referenced: "secret_reference_fields name st \<noteq> [] \<Longrightarrow> cfg_step lb S (st, Some (Undeclare_refs name)) (st, None)"
| Undeclare_end: "mutation_source_in lb S (undeclare_mutation name) st \<Longrightarrow>
    mutate lb now (undeclare_mutation name) st = (r, st') \<Longrightarrow> cfg_step lb S (st, Some (Undeclaring name)) (st', None)"
| Set_begin: "secret_declared (cf_active st) name \<Longrightarrow> is_utf8 val \<Longrightarrow> cfg_step lb S (st, None) (st, Some (Setting name val))"
| Set_end: "store_secret_value lb now name val st = (r, st') \<Longrightarrow> cfg_step lb S (st, Some (Setting name val)) (st', None)"
| Clear: "clear_secret_value name st = (r, st') \<Longrightarrow> cfg_step lb S (st, None) (st', None)"
| Guard_begin: "secret_check required st \<Longrightarrow> cfg_step lb S (st, None) (st, Some Guarding)"
| Guard_end: "cfg_step lb S (st, Some Guarding) (st, None)"
| Restart: "file_of st f \<Longrightarrow> open_config lb env n (Some f) = Inr st' \<Longrightarrow> cfg_step lb S (st, h) (st', None)"

definition cfg_reach :: "libs \<Rightarrow> (source_kind \<times> bytes) set \<Rightarrow> system \<Rightarrow> system \<Rightarrow> bool" where
  "cfg_reach lb S = (cfg_step lb S)\<^sup>*\<^sup>*"

text \<open>A service that starts on an empty database or in memory.\<close>

definition fresh_state :: "config_state \<Rightarrow> bool" where
  "fresh_state st \<longleftrightarrow>
     cf_active st = default_document \<and> store_state (cf_snapshots st) = \<lparr>ms_snapshots = [], ms_active = None\<rparr> \<and>
     (case ss_backend (cf_secrets st) of SecMemory m \<Rightarrow> m = [] | SecSqlite db \<Rightarrow> sql_tables db = [])"

section \<open>The invariant\<close>

text \<open>What the model needs of the libraries: the writer gives UTF-8 that the reader reads back, and the
  cipher opens what it sealed.\<close>

definition codecs_ok :: "codecs \<Rightarrow> bool" where
  "codecs_ok cd \<longleftrightarrow>
     (\<forall>m t. aggregate_to_yaml cd m = Inr t \<longrightarrow> is_utf8 t) \<and>
     (\<forall>doc. unique_ids doc \<longrightarrow> yaml_reads_back cd (into_aggregate (canonical_document doc)))"

definition libs_ok :: "libs \<Rightarrow> bool" where
  "libs_ok lb \<longleftrightarrow> codecs_ok (lib_codecs lb) \<and> crypto_ok (lib_crypto lb)"

text \<open>No two of the sources have the same hash.\<close>

definition collision_free :: "libs \<Rightarrow> (source_kind \<times> bytes) set \<Rightarrow> bool" where
  "collision_free lb S \<longleftrightarrow> inj_on (\<lambda>(k, bs). sha256_hex (lib_codecs lb) bs) S"

abbreviation declared_names :: "config_document \<Rightarrow> string set" where
  "declared_names doc \<equiv> {n. secret_declared doc n}"

definition snapshot_source :: "snapshot \<Rightarrow> source_kind \<times> bytes" where
  "snapshot_source s = (source_kind_from_str (sn_source_kind s), sn_source_bytes s)"

text \<open>The active document is what the active snapshot parses to, up to the order of the resources.\<close>

definition active_matches :: "libs \<Rightarrow> config_state \<Rightarrow> bool" where
  "active_matches lb st \<longleftrightarrow>
     (case memory_active (store_state (cf_snapshots st)) of
        None \<Rightarrow> cf_active st = default_document
      | Some s \<Rightarrow> (\<exists>doc. parse_source lb (source_kind_from_str (sn_source_kind s)) (sn_source_bytes s) = Inr doc \<and>
          typed_equal doc (cf_active st)))"

text \<open>What a prepared apply must have been checked for before it is installed.\<close>

definition installable :: "libs \<Rightarrow> (source_kind \<times> bytes) set \<Rightarrow> prepared_apply \<Rightarrow> bool" where
  "installable lb S p \<longleftrightarrow>
     parse_source lb (pa_kind p) (pa_source_bytes p) = Inr (pa_document p) \<and> unique_ids (pa_document p) \<and>
     (pa_kind p, pa_source_bytes p) \<in> S"

definition task_ok :: "libs \<Rightarrow> (source_kind \<times> bytes) set \<Rightarrow> config_state \<Rightarrow> secret_task option \<Rightarrow> bool" where
  "task_ok lb S st h \<longleftrightarrow>
     (case h of
        Some (Checking p) \<Rightarrow> installable lb S p
      | Some (Checked p current) \<Rightarrow> installable lb S p \<and> secret_declared current = secret_declared (cf_active st)
      | Some (Committing p) \<Rightarrow> installable lb S p \<and> secret_names (cf_secrets st) \<subseteq> declared_names (pa_document p)
      | Some (Declaring d) \<Rightarrow> \<not> secret_declared (cf_active st) (sd_name d)
      | Some (Undeclare_refs name) \<Rightarrow> name \<notin> secret_names (cf_secrets st)
      | Some (Undeclaring name) \<Rightarrow> name \<notin> secret_names (cf_secrets st)
      | Some (Setting name val) \<Rightarrow> secret_declared (cf_active st) name \<and> is_utf8 val
      | _ \<Rightarrow> True)"

definition state_ok :: "libs \<Rightarrow> (source_kind \<times> bytes) set \<Rightarrow> config_state \<Rightarrow> bool" where
  "state_ok lb S st \<longleftrightarrow>
     unique_ids (cf_active st) \<and> envelope_ok (store_state (cf_snapshots st)) \<and> active_matches lb st \<and>
     (\<forall>s \<in> set (ms_snapshots (store_state (cf_snapshots st))).
        snapshot_source s \<in> S \<and> sn_source_sha256 s = sha256_hex (lib_codecs lb) (sn_source_bytes s)) \<and>
     secret_names (cf_secrets st) \<subseteq> declared_names (cf_active st) \<and>
     store_ok (lib_crypto lb) (cf_secrets st) \<and> rows_distinct (cf_secrets st)"

definition cfg_inv :: "libs \<Rightarrow> (source_kind \<times> bytes) set \<Rightarrow> system \<Rightarrow> bool" where
  "cfg_inv lb S s \<longleftrightarrow> state_ok lb S (fst s) \<and> task_ok lb S (fst s) (snd s)"

text \<open>States that differ only in what no invariant speaks of.\<close>

definition alike :: "config_state \<Rightarrow> config_state \<Rightarrow> bool" where
  "alike st st' \<longleftrightarrow>
     cf_active st' = cf_active st \<and> store_state (cf_snapshots st') = store_state (cf_snapshots st) \<and>
     sealed_values (cf_secrets st') = sealed_values (cf_secrets st) \<and> ss_key (cf_secrets st') = ss_key (cf_secrets st) \<and>
     ss_writable (cf_secrets st') = ss_writable (cf_secrets st) \<and>
     (rows_distinct (cf_secrets st) \<longrightarrow> rows_distinct (cf_secrets st'))"

lemma alike_refl [simp]: "alike st st"
  by (simp add: alike_def)

lemma alike_trans: "alike st st' \<Longrightarrow> alike st' st'' \<Longrightarrow> alike st st''"
  by (auto simp: alike_def)

lemma alike_ok:
  assumes "alike st st'"
  shows "state_ok lb S st \<Longrightarrow> state_ok lb S st'" "task_ok lb S st h \<Longrightarrow> task_ok lb S st' h"
  using assms
  by (auto simp: alike_def state_ok_def task_ok_def active_matches_def store_ok_def secret_names_def
      split: option.splits secret_task.splits)

section \<open>Operations that only read\<close>

lemma on_runtime_alike: "alike st (on_runtime f st)"
  by (simp add: alike_def on_runtime_def)

lemma on_secrets_eq: "on_secrets f st = (r, st') \<longleftrightarrow> (\<exists>ss. f (cf_secrets st) = (r, ss) \<and> st' = st\<lparr>cf_secrets := ss\<rparr>)"
  by (auto simp: on_secrets_def split: prod.splits)

lemma on_snapshots_eq: "on_snapshots f st = (r, st') \<longleftrightarrow> (\<exists>s. f (cf_snapshots st) = (r, s) \<and> st' = st\<lparr>cf_snapshots := s\<rparr>)"
  by (auto simp: on_snapshots_def split: prod.splits)

lemma active_snapshot_alike: "active_snapshot st = (r, st') \<Longrightarrow> alike st st'"
  using snapshot_active_view by (auto simp: active_snapshot_def on_snapshots_eq alike_def)

lemma active_snapshot_Inr:
  "active_snapshot st = (Inr s, st') \<Longrightarrow> s = memory_active (store_state (cf_snapshots st))"
  using snapshot_active_view by (auto simp: active_snapshot_def on_snapshots_eq)

lemma set_names_alike: "on_secrets set_names st = (r, st') \<Longrightarrow> alike st st'"
  by (auto simp: on_secrets_eq alike_def same_store_def rows_distinct_def dest!: set_names_ok)

lemma resolve_alike: "on_secrets (resolve c name) st = (r, st') \<Longrightarrow> alike st st'"
  by (auto simp: on_secrets_eq alike_def same_store_def rows_distinct_def dest!: resolve_ok)

lemma set_names_Inr: "on_secrets set_names st = (Inr xs, st') \<Longrightarrow> set xs = secret_names (cf_secrets st)"
  by (auto simp: on_secrets_eq dest!: set_names_ok)

lemma active_generation_alike: "active_generation st = (g, st') \<Longrightarrow> alike st st'"
  by (auto simp: active_generation_def split: prod.splits sum.splits dest: active_snapshot_alike)

lemma check_generation_alike: "check_generation e st = (r, st') \<Longrightarrow> alike st st'"
  by (auto simp: check_generation_def split: option.splits prod.splits if_splits dest: active_generation_alike)

lemma check_secret_removal_alike: "check_secret_removal d st = (r, st') \<Longrightarrow> alike st st'"
  by (cases "on_secrets set_names st"; cases "fst (on_secrets set_names st)")
    (auto simp: check_secret_removal_def map_err_def Let_def split: if_splits dest: set_names_alike)

lemma not_blocked:
  assumes "blocked_removals current d xs = []" "set xs = secret_names (cf_secrets st)"
    "secret_declared current = secret_declared (cf_active st)" "secret_names (cf_secrets st) \<subseteq> declared_names (cf_active st)"
  shows "secret_names (cf_secrets st) \<subseteq> declared_names d"
proof
  fix n
  assume n: "n \<in> secret_names (cf_secrets st)"
  then have "secret_declared current n" using assms(3,4) by auto
  then have "n \<in> set (map sd_name (cs_secrets (spec current)))" by (auto simp: secret_declared_def list_ex_iff)
  then show "n \<in> declared_names d" using assms(1,2) n by (auto simp: blocked_removals_def filter_empty_conv)
qed

lemma unset_referenced_alike: "unset_referenced_secrets d st = (xs, st') \<Longrightarrow> alike st st'"
  by (auto simp: unset_referenced_secrets_def Let_def split: prod.splits dest: set_names_alike)

lemma prepare_alike:
  assumes "prepare lb source k builtin e st = (r, st')"
  shows "alike st st'"
proof (cases "check_source lb source k builtin")
  case (Inr ds)
  obtain d semantic where ds: "ds = (d, semantic)" by (cases ds)
  obtain q1 st1 where q1: "check_generation e st = (q1, st1)" by (cases "check_generation e st")
  obtain q2 st2 where q2: "check_secret_removal d st1 = (q2, st2)" by (cases "check_secret_removal d st1")
  obtain xs st3 where q3: "unset_referenced_secrets d st2 = (xs, st3)" by (cases "unset_referenced_secrets d st2")
  note a = check_generation_alike [OF q1] check_secret_removal_alike [OF q2] unset_referenced_alike [OF q3]
  show ?thesis
    using assms Inr ds q1 q2 q3 a
    by (cases q1; cases q2) (auto simp: prepare_def Let_def intro: alike_trans)
qed (use assms in \<open>auto simp: prepare_def\<close>)

lemma prepare_Inr:
  assumes "prepare lb source k builtin e st = (Inr p, st')"
  shows "parse_source lb k source = Inr (pa_document p) \<and> validate (lib_codecs lb) (pa_document p) builtin = Inr () \<and>
    pa_source_bytes p = source \<and> pa_kind p = k \<and> pa_expected_generation p = e"
  using assms
  by (auto simp: prepare_def check_source_def Let_def try_io_Inr_iff try_res_Inr_iff split: if_splits prod.splits)

lemma load_bundle_unique: "load_bundle cd zl bs = Inr doc \<Longrightarrow> unique_ids doc"
  by (auto simp: load_bundle_def Let_def try_res_Inr_iff finish_Inr_iff split: if_splits)

lemma parse_source_unique: "parse_source lb k bs = Inr doc \<Longrightarrow> unique_ids doc"
  by (auto simp: parse_source_def try_res_Inr_iff load_yaml_unique load_bundle_unique split: source_kind.splits)

lemma is_set_alike:
  assumes "on_secrets (is_set name) st = (r, st')"
  shows "alike st st' \<and> (r = Inr False \<longrightarrow> name \<notin> secret_names (cf_secrets st))"
proof -
  obtain q st1 where q: "on_secrets set_names st = (q, st1)" by (cases "on_secrets set_names st")
  then obtain ss where ss: "set_names (cf_secrets st) = (q, ss)" "st1 = st\<lparr>cf_secrets := ss\<rparr>" by (auto simp: on_secrets_eq)
  have "on_secrets (is_set name) st = (case q of Inl e \<Rightarrow> (Inl e, st1) | Inr xs \<Rightarrow> (Inr (name \<in> set xs), st1))"
    using ss by (cases q) (auto simp: on_secrets_def is_set_def)
  then show ?thesis using assms set_names_alike [OF q] q set_names_Inr by (cases q) auto
qed

lemma prepared_installable:
  assumes "prepared_from lb p" "(pa_kind p, pa_source_bytes p) \<in> S"
  shows "installable lb S p"
  using assms
  by (auto simp: prepared_from_def installable_def check_source_def Let_def try_res_Inr_iff parse_source_unique split: if_splits)

section \<open>Operations that install a document\<close>

lemma source_kind_inverse [simp]: "source_kind_from_str (source_kind_str k) = k"
  by (cases k) (simp_all add: source_kind_from_str_def)

lemma parse_canonical:
  assumes "libs_ok lb" "unique_ids d" "to_canonical_yaml (lib_codecs lb) d = Inr t"
  shows "parse_source lb SourceYaml t = Inr (canonical_document d)"
proof -
  have "is_utf8 t"
    using assms(1,3) by (auto simp: libs_ok_def codecs_ok_def to_canonical_yaml_def split: sum.splits)
  moreover have "load_yaml (lib_codecs lb) t = Inr (canonical_document d)"
    using assms by (intro load_canonical_yaml) (auto simp: libs_ok_def codecs_ok_def)
  ultimately show ?thesis by (simp add: parse_source_def from_utf8_def)
qed

lemma installed_ok:
  assumes ok: "state_ok lb S st" and ins: "insert_and_activate (lib_codecs lb) now k bs semantic (cf_snapshots st) = (Inr s, snaps)"
    and S: "(k, bs) \<in> S" "collision_free lb S" and parse: "parse_source lb k bs = Inr d0" "typed_equal d0 d"
    and d: "unique_ids d" "secret_names (cf_secrets st) \<subseteq> declared_names d"
  shows "state_ok lb S (st\<lparr>cf_snapshots := snaps, cf_active := d\<rparr>)"
proof -
  let ?cd = "lib_codecs lb"
  have env: "envelope_ok (store_state (cf_snapshots st))" using ok by (simp add: state_ok_def)
  note active = snap.ins_active [OF env ins] and hash = snap.ins_hash [OF env ins]
    and all = snap.ins_snapshots [OF env ins] and env' = snap.ins_ok [OF env ins]
  have src: "snapshot_source s = (k, bs)"
    using snap.ins_fresh_or_known [OF env ins]
  proof
    assume "s \<in> set (ms_snapshots (store_state (cf_snapshots st)))"
    then have "snapshot_source s \<in> S" "sn_source_sha256 s = sha256_hex ?cd (sn_source_bytes s)"
      using ok by (auto simp: state_ok_def)
    then show ?thesis
      using S hash inj_onD [of "\<lambda>(k, bs). sha256_hex ?cd bs" S "snapshot_source s" "(k, bs)"]
      by (auto simp: collision_free_def snapshot_source_def)
  qed (simp add: snapshot_source_def)
  have "active_matches lb (st\<lparr>cf_snapshots := snaps, cf_active := d\<rparr>)"
    using active src parse by (simp add: active_matches_def snapshot_source_def)
  moreover have "\<forall>s' \<in> set (ms_snapshots (store_state snaps)). snapshot_source s' \<in> S \<and>
      sn_source_sha256 s' = sha256_hex ?cd (sn_source_bytes s')"
    using ok all src S(1) hash by (auto simp: state_ok_def snapshot_source_def)
  ultimately show ?thesis using ok env' d by (simp add: state_ok_def)
qed

lemma insert_failed_alike:
  assumes "envelope_ok (store_state (cf_snapshots st))"
    "insert_and_activate cd now k bs semantic (cf_snapshots st) = (Inl e, snaps)"
  shows "alike st (st\<lparr>cf_snapshots := snaps\<rparr>)"
  using snap.ins_error [OF assms] by (simp add: alike_def)

lemma mutate_cases:
  assumes m: "mutate lb now m st = (r, st')" and env: "envelope_ok (store_state (cf_snapshots st))"
  obtains "alike st st'"
  | x d t s snaps where "m (cf_active st) = Inr (x, d)" "validate_mutation (lib_codecs lb) d = Inr ()"
      "to_canonical_yaml (lib_codecs lb) d = Inr t" "r = Inr x"
      "insert_and_activate (lib_codecs lb) now SourceYaml t (sha256_hex (lib_codecs lb) t) (cf_snapshots st) = (Inr s, snaps)"
      "st' = st\<lparr>cf_snapshots := snaps, cf_active := d\<rparr>"
proof (cases "m (cf_active st)")
  case (Inl e)
  then show ?thesis using m that(1) by (simp add: mutate_def Let_def)
next
  case (Inr xd)
  obtain x d where xd: "xd = (x, d)" by (cases xd)
  let ?cd = "lib_codecs lb"
  show ?thesis
  proof (cases "typed_equal d (cf_active st) \<or> validate_mutation ?cd d \<noteq> Inr () \<or> (\<exists>e. to_canonical_yaml ?cd d = Inl e)")
    case True
    then have "st' = st"
      using m Inr xd
      by (cases "validate_mutation ?cd d"; cases "to_canonical_yaml ?cd d")
        (auto simp: mutate_def Let_def res_map_err_def split: if_splits)
    then show ?thesis using that(1) by simp
  next
    case False
    then obtain t where f: "\<not> typed_equal d (cf_active st)" "validate_mutation ?cd d = Inr ()" "to_canonical_yaml ?cd d = Inr t"
      by (cases "to_canonical_yaml ?cd d") auto
    obtain q snaps where q: "insert_and_activate ?cd now SourceYaml t (sha256_hex ?cd t) (cf_snapshots st) = (q, snaps)"
      by (cases "insert_and_activate ?cd now SourceYaml t (sha256_hex ?cd t) (cf_snapshots st)")
    show ?thesis
    proof (cases q)
      case (Inl e)
      then have "st' = st\<lparr>cf_snapshots := snaps\<rparr>"
        using m \<open>m (cf_active st) = Inr xd\<close> xd f q by (simp add: mutate_def Let_def res_map_err_def on_snapshots_def)
      then show ?thesis using that(1) insert_failed_alike [OF env q [unfolded Inl]] by simp
    next
      case (Inr s)
      then have "st' = st\<lparr>cf_snapshots := snaps, cf_active := d\<rparr>" "r = Inr x"
        using m \<open>m (cf_active st) = Inr xd\<close> xd f q by (auto simp: mutate_def Let_def res_map_err_def on_snapshots_def)
      then show ?thesis using that(2) \<open>m (cf_active st) = Inr xd\<close> xd f q Inr by blast
    qed
  qed
qed

text \<open>A mutation that keeps identities unique keeps the state in order, if it declares every secret that
  has a value.\<close>

lemma mutate_ok:
  assumes libs: "libs_ok lb" "collision_free lb S" and m: "mutate lb now m st = (r, st')" "mutation_source_in lb S m st"
    and ok: "state_ok lb S st"
    and keeps: "\<And>x d. m (cf_active st) = Inr (x, d) \<Longrightarrow> unique_ids d \<and> secret_names (cf_secrets st) \<subseteq> declared_names d"
  shows "state_ok lb S st' \<and> cf_secrets st' = cf_secrets st \<or> alike st st'"
proof -
  have env: "envelope_ok (store_state (cf_snapshots st))" using ok by (simp add: state_ok_def)
  show ?thesis
  proof (rule mutate_cases [OF m(1) env])
    fix x d t s snaps
    assume d: "m (cf_active st) = Inr (x, d)" "to_canonical_yaml (lib_codecs lb) d = Inr t"
      and ins: "insert_and_activate (lib_codecs lb) now SourceYaml t (sha256_hex (lib_codecs lb) t) (cf_snapshots st) = (Inr s, snaps)"
      and st': "st' = st\<lparr>cf_snapshots := snaps, cf_active := d\<rparr>"
    have "state_ok lb S st'"
      unfolding st'
    proof (rule installed_ok [OF ok ins _ libs(2)])
      show "(SourceYaml, t) \<in> S" using m(2) d by (auto simp: mutation_source_in_def)
      show "parse_source lb SourceYaml t = Inr (canonical_document d)"
        using parse_canonical [OF libs(1) _ d(2)] keeps [OF d(1)] by simp
    qed (use keeps [OF d(1)] in auto)
    then show ?thesis by (simp add: st')
  qed simp
qed

lemma declared_same: "cs_secrets (spec d) = cs_secrets (spec d') \<Longrightarrow> secret_declared d = secret_declared d'"
  by (simp add: secret_declared_def fun_eq_iff)

lemma mutate_active:
  assumes "mutate lb now m st = (r, st')" "envelope_ok (store_state (cf_snapshots st))"
  shows "cf_secrets st' = cf_secrets st \<and> (cf_active st' = cf_active st \<or> (\<exists>x. m (cf_active st) = Inr (x, cf_active st')))"
  using assms
  by (cases "m (cf_active st)")
    (auto simp: mutate_def Let_def try_io_def res_map_err_def on_snapshots_def split: prod.splits sum.splits if_splits)

lemma commit_install_cases:
  assumes c: "commit_install lb now p st = (r, st')" and env: "envelope_ok (store_state (cf_snapshots st))"
  obtains "alike st st'" "\<exists>e. r = Inl e"
  | st1 s snaps where "alike st st1" "check_generation (pa_expected_generation p) st = (Inr (), st1)"
      "insert_and_activate (lib_codecs lb) now (pa_kind p) (pa_source_bytes p) (pa_semantic p) (cf_snapshots st1) = (Inr s, snaps)"
      "st' = st1\<lparr>cf_snapshots := snaps, cf_active := pa_document p\<rparr>" "r = Inr \<lparr>ao_snapshot = s, ao_plan = plan (cf_active st1) (pa_document p),
        ao_document = pa_document p, ao_unset_secrets = pa_unset_secrets p\<rparr>"
proof -
  obtain g st1 where g: "check_generation (pa_expected_generation p) st = (g, st1)" by (cases "check_generation (pa_expected_generation p) st")
  note a = check_generation_alike [OF g]
  have env1: "envelope_ok (store_state (cf_snapshots st1))" using a env by (simp add: alike_def)
  obtain q snaps where q: "insert_and_activate (lib_codecs lb) now (pa_kind p) (pa_source_bytes p) (pa_semantic p) (cf_snapshots st1) = (q, snaps)"
    by (cases "insert_and_activate (lib_codecs lb) now (pa_kind p) (pa_source_bytes p) (pa_semantic p) (cf_snapshots st1)")
  show ?thesis
  proof (cases g)
    case (Inl e)
    then show ?thesis using c g a that(1) by (auto simp: commit_install_def)
  next
    case g': (Inr u)
    show ?thesis
    proof (cases q)
      case (Inl e)
      then have "st' = st1\<lparr>cf_snapshots := snaps\<rparr>" "\<exists>e. r = Inl e"
        using c g g' q by (auto simp: commit_install_def Let_def on_snapshots_def map_err_def)
      then show ?thesis using that(1) alike_trans [OF a insert_failed_alike [OF env1 q [unfolded Inl]]] by simp
    next
      case (Inr s)
      then show ?thesis
        using that(2) [OF a] c g g' q by (auto simp: commit_install_def Let_def on_snapshots_def map_err_def)
    qed
  qed
qed

section \<open>Opening\<close>

lemma map_err_simps [simp]: "map_err g (Inl e, s) = (Inl (g e), s)" "map_err g (Inr x, s) = (Inr x, s)"
  by (simp_all add: map_err_def)

lemma verify_rows_Inr:
  "verify_rows c key rs db = (Inr (), db') \<Longrightarrow>
    sql_tables db' = sql_tables db \<and> (\<forall>r \<in> set rs. \<exists>p. key_open c key (row_ciphertext r) = Inr p)"
proof (induction rs arbitrary: db)
  case (Cons a rs)
  then obtain db1 p where q: "sql_query (\<lambda>_. ()) db = (Inr (), db1)" "key_open c key (row_ciphertext a) = Inr p"
    "verify_rows c key rs db1 = (Inr (), db')"
    by (cases "key_open c key (row_ciphertext a)") (auto simp: try_io_Inr_iff map_err_Inr_iff)
  show ?case using Cons.IH [OF q(3)] sql_query_tables [OF q(1)] q(2) by simp
qed simp

lemma open_sqlite_ok:
  assumes "open_sqlite c env n db = Inr ss"
  shows "\<exists>db'. ss_backend ss = SecSqlite db' \<and> sql_tables db' = sql_tables db \<and> store_ok c ss"
proof -
  obtain conf db2 where conf: "configured_key c env = Inr conf" and t2: "sql_tables db2 = sql_tables db"
    and rest: "fst (case conf of
         Some key \<Rightarrow>
           try_io (verify_all_decrypt c key db2) (\<lambda>_ db.
             (Inr \<lparr>ss_backend = SecSqlite db, ss_key = key, ss_writable = True, ss_rng = n\<rparr>, db))
       | None \<Rightarrow>
           try_io (ciphertext_count db2) (\<lambda>count db.
             if count > 0 then (Inl MasterKeyUnavailable, db)
             else (case key_generate c n of
                 (Inl e, _) \<Rightarrow> (Inl e, db)
               | (Inr key, n) \<Rightarrow>
                   (Inr \<lparr>ss_backend = SecSqlite db, ss_key = key, ss_writable = False, ss_rng = n\<rparr>, db)))) = Inr ss"
  proof -
    obtain q1 db1 where q1: "sql_query (\<lambda>_. ()) db = (q1, db1)" by (cases "sql_query (\<lambda>_. ()) db")
    obtain q2 db2 where q2: "sql_query (\<lambda>_. ()) db1 = (q2, db2)" by (cases "sql_query (\<lambda>_. ()) db1")
    have "sql_tables db2 = sql_tables db" using sql_query_tables [OF q1] sql_query_tables [OF q2] by simp
    then show ?thesis
      using assms q1 q2
      by (cases q1; cases q2; cases "configured_key c env") (auto simp: open_sqlite_def map_err_def intro: that)
  qed
  show ?thesis
  proof (cases conf)
    case None
    then obtain count db3 where "ciphertext_count db2 = (Inr count, db3)"
      using rest by (cases "ciphertext_count db2"; cases "fst (ciphertext_count db2)") auto
    then have "count = length (sql_tables db2)" "sql_tables db3 = sql_tables db2"
      and "count = 0" "ss_backend ss = SecSqlite db3"
      using rest None by (auto simp: ciphertext_count_def map_err_Inr_iff split: if_splits prod.splits sum.splits dest!: sql_query_Inr)
    then show ?thesis using t2 by (auto simp: store_ok_def secret_names_def sealed_values_def)
  next
    case (Some key)
    then obtain db3 where v: "verify_all_decrypt c key db2 = (Inr (), db3)"
      and ss: "ss = \<lparr>ss_backend = SecSqlite db3, ss_key = key, ss_writable = True, ss_rng = n\<rparr>"
      using rest by (cases "verify_all_decrypt c key db2"; cases "fst (verify_all_decrypt c key db2)") auto
    obtain dbb where "sql_tables dbb = sql_tables db2" "verify_rows c key (sql_tables db2) dbb = (Inr (), db3)"
      using v by (auto simp: verify_all_decrypt_def try_io_Inr_iff map_err_Inr_iff dest!: sql_query_Inr)
    then have "sql_tables db3 = sql_tables db2" "\<forall>r \<in> set (sql_tables db2). \<exists>p. key_open c key (row_ciphertext r) = Inr p"
      using verify_rows_Inr by fastforce+
    then show ?thesis using t2 ss by (auto simp: store_ok_def sealed_values_def dest!: find_SomeD)
  qed
qed

lemma open_snapshots_Inr:
  assumes "open_snapshots db = (Inr a, db')"
  shows "sql_tables db' = sql_tables db \<and> a = memory_active (tables_state (sql_tables db))"
proof -
  obtain db1 db2 where q: "sql_query (\<lambda>_. ()) db = (Inr (), db1)" "sql_query (\<lambda>_. ()) db1 = (Inr (), db2)" "sqlite_active db2 = (Inr a, db')"
    using assms by (auto simp: open_snapshots_def try_io_Inr_iff map_err_Inr_iff)
  have "sql_tables db2 = sql_tables db" using sql_query_tables [OF q(1)] sql_query_tables [OF q(2)] by simp
  then show ?thesis using sqlite_active_refines [OF q(3)] by simp
qed

lemma res_map_err_Inr: "res_map_err g r = Inr x \<longleftrightarrow> r = Inr x"
  by (cases r) (auto simp: res_map_err_def)

lemma open_config_Inr:
  assumes "open_config lb env n (Some f) = Inr st'"
  shows "(\<exists>db rows. cf_snapshots st' = SnapSqlite db \<and> ss_backend (cf_secrets st') = SecSqlite rows \<and>
      sql_tables db = sql_tables (file_snapshots f) \<and> sql_tables rows = sql_tables (file_secrets f)) \<and>
    store_ok (lib_crypto lb) (cf_secrets st') \<and>
    (case memory_active (tables_state (sql_tables (file_snapshots f))) of
       None \<Rightarrow> cf_active st' = default_document
     | Some s \<Rightarrow> parse_source lb (source_kind_from_str (sn_source_kind s)) (sn_source_bytes s) = Inr (cf_active st'))"
proof -
  obtain q db where q: "open_snapshots (file_snapshots f) = (q, db)" by (cases "open_snapshots (file_snapshots f)")
  obtain a where a: "q = Inr a" using assms q by (cases q) (auto simp: open_config_def)
  obtain ss doc where ss: "open_sqlite (lib_crypto lb) env n (file_secrets f) = Inr ss"
    and doc: "(case a of None \<Rightarrow> Inr default_document | Some s \<Rightarrow> res_map_err config_to_store
                (parse_source lb (source_kind_from_str (sn_source_kind s)) (sn_source_bytes s))) = Inr doc"
    and st': "st' = \<lparr>cf_active = doc, cf_snapshots = SnapSqlite db, cf_secrets = ss, cf_runtime = empty_runtime\<rparr>"
    using assms q a by (auto simp: open_config_def try_res_Inr_iff res_map_err_Inr)
  show ?thesis
    using open_snapshots_Inr [OF q [unfolded a]] open_sqlite_ok [OF ss] doc
    by (auto simp: st' res_map_err_Inr split: option.splits)
qed

lemma sealed_same_rows:
  "ss_backend ss = SecSqlite db \<Longrightarrow> ss_backend ss' = SecSqlite db' \<Longrightarrow> sql_tables db' = sql_tables db \<Longrightarrow>
    sealed_values ss' = sealed_values ss \<and> rows_distinct ss' = rows_distinct ss"
  by (auto simp: sealed_values_def rows_distinct_def backend_rows_def)

lemma restart_ok:
  assumes ok: "state_ok lb S st" and f: "file_of st f" and o: "open_config lb env n (Some f) = Inr st'"
  shows "state_ok lb S st' \<and> typed_equal (cf_active st') (cf_active st) \<and>
    store_state (cf_snapshots st') = store_state (cf_snapshots st) \<and>
    sealed_values (cf_secrets st') = sealed_values (cf_secrets st)"
proof -
  obtain db rows where st: "cf_snapshots st = SnapSqlite db" "ss_backend (cf_secrets st) = SecSqlite rows"
    and tf: "sql_tables (file_snapshots f) = sql_tables db" "sql_tables (file_secrets f) = sql_tables rows"
    using f by (auto simp: file_of_def split: snapshot_store.splits secret_backend.splits)
  obtain db' rows' where st': "cf_snapshots st' = SnapSqlite db'" "ss_backend (cf_secrets st') = SecSqlite rows'"
    "sql_tables db' = sql_tables db" "sql_tables rows' = sql_tables rows"
    and so: "store_ok (lib_crypto lb) (cf_secrets st')"
    and act: "case memory_active (tables_state (sql_tables db)) of
       None \<Rightarrow> cf_active st' = default_document
     | Some s \<Rightarrow> parse_source lb (source_kind_from_str (sn_source_kind s)) (sn_source_bytes s) = Inr (cf_active st')"
    using open_config_Inr [OF o] tf by auto
  have view: "store_state (cf_snapshots st') = store_state (cf_snapshots st)"
    and vdb: "store_state (cf_snapshots st) = tables_state (sql_tables db)"
    using st st' by (simp_all add: store_state_def)
  have sec: "sealed_values (cf_secrets st') = sealed_values (cf_secrets st)" "rows_distinct (cf_secrets st') = rows_distinct (cf_secrets st)"
    using sealed_same_rows [OF st(2) st'(2,4)] by auto
  have te: "typed_equal (cf_active st') (cf_active st)"
    and u: "unique_ids (cf_active st')" and am: "active_matches lb st'"
    using ok act vdb view
    by (auto simp: state_ok_def active_matches_def typed_equal_equiv(1) parse_source_unique split: option.splits)
  show ?thesis
    using ok so te u am view sec secret_declared_typed_equal [OF te]
    by (simp add: state_ok_def secret_names_def)
qed

section \<open>The invariant holds\<close>

lemma commit_end_ok:
  assumes libs: "collision_free lb S" and ok: "state_ok lb S st" "task_ok lb S st (Some (Committing p))"
    and c: "commit_install lb now p st = (r, st')"
  shows "state_ok lb S st'"
proof -
  have env: "envelope_ok (store_state (cf_snapshots st))" using ok(1) by (simp add: state_ok_def)
  show ?thesis
  proof (rule commit_install_cases [OF c env])
    fix st1 s snaps
    assume a: "alike st st1"
      and ins: "insert_and_activate (lib_codecs lb) now (pa_kind p) (pa_source_bytes p) (pa_semantic p) (cf_snapshots st1) = (Inr s, snaps)"
      and st': "st' = st1\<lparr>cf_snapshots := snaps, cf_active := pa_document p\<rparr>"
    have t: "task_ok lb S st1 (Some (Committing p))" using alike_ok(2) [OF a ok(2)] .
    show ?thesis
      unfolding st'
      by (rule installed_ok [OF alike_ok(1) [OF a ok(1)] ins _ libs])
        (use t in \<open>auto simp: task_ok_def installable_def typed_equal_equiv(1)\<close>)
  qed (rule alike_ok(1) [OF _ ok(1)])
qed

lemma unique_ids_declare:
  "unique_ids doc \<Longrightarrow> \<not> secret_declared doc (sd_name d) \<Longrightarrow> declare_mutation d doc = Inr (x, doc') \<Longrightarrow>
    unique_ids doc' \<and> declared_names doc' = insert (sd_name d) (declared_names doc)"
  by (fastforce simp: declare_mutation_def unique_ids_def secret_declared_def list_ex_iff)

lemma unique_ids_undeclare:
  "unique_ids doc \<Longrightarrow> undeclare_mutation name doc = Inr (x, doc') \<Longrightarrow>
    unique_ids doc' \<and> declared_names doc' = declared_names doc - {name}"
  by (auto simp: undeclare_mutation_def unique_ids_def secret_declared_def list_ex_iff distinct_map_filter)

lemma task_free: "task_ok lb S st None" "task_ok lb S st (Some Guarding)"
  by (simp_all add: task_ok_def)

lemma task_ok_cong:
  assumes "task_ok lb S st h" "cf_secrets st' = cf_secrets st" "secret_declared (cf_active st') = secret_declared (cf_active st)"
  shows "task_ok lb S st' h"
  using assms by (auto simp: task_ok_def split: option.splits secret_task.splits)

lemma active_matches_secrets [simp]: "active_matches lb (st\<lparr>cf_secrets := ss\<rparr>) = active_matches lb st"
  by (simp add: active_matches_def split: option.split)

lemma store_value_ok:
  assumes libs: "libs_ok lb" and ok: "state_ok lb S st" "task_ok lb S st (Some (Setting name val))"
    and s: "store_secret_value lb now name val st = (r, st')"
  shows "state_ok lb S st'"
proof -
  obtain q ss where q: "set_value (lib_crypto lb) now name val (cf_secrets st) = (q, ss)" and st': "st' = st\<lparr>cf_secrets := ss\<rparr>"
    using s by (cases "set_value (lib_crypto lb) now name val (cf_secrets st)")
      (auto simp: store_secret_value_def on_secrets_def map_err_def split: prod.splits sum.splits)
  have store: "store_ok (lib_crypto lb) ss"
    using store_ok_set_value [OF _ _ _ q] libs ok by (auto simp: libs_ok_def state_ok_def task_ok_def)
  have "secret_names ss \<subseteq> insert name (secret_names (cf_secrets st)) \<and> (rows_distinct (cf_secrets st) \<longrightarrow> rows_distinct ss)"
  proof (cases q)
    case (Inl e)
    then show ?thesis using set_value_Inl [OF q [unfolded Inl]] by (auto simp: secret_names_def rows_distinct_def)
  next
    case (Inr u)
    then show ?thesis using set_value_Inr [of _ _ _ _ _ ss] q by (fastforce simp: secret_names_def)
  qed
  then show ?thesis
    using ok store by (auto simp: st' state_ok_def task_ok_def)
qed

lemma clear_ok:
  assumes ok: "state_ok lb S st" and c: "clear_secret_value name st = (r, st')"
  shows "state_ok lb S st'"
proof -
  obtain q ss where q: "clear_value name (cf_secrets st) = (q, ss)" and st': "st' = st\<lparr>cf_secrets := ss\<rparr>"
    using c by (cases "clear_value name (cf_secrets st)")
      (auto simp: clear_secret_value_def on_secrets_def map_err_def split: prod.splits sum.splits)
  have "secret_names ss \<subseteq> secret_names (cf_secrets st)"
    using clear_value_ok [OF q] by (cases q) (auto simp: secret_names_def)
  then show ?thesis
    using ok store_ok_clear_value [OF _ q] clear_value_ok [OF q]
    by (auto simp: st' state_ok_def)
qed

lemma step_inv:
  assumes libs: "libs_ok lb" "collision_free lb S" and step: "cfg_step lb S s s'" and inv: "cfg_inv lb S s"
  shows "cfg_inv lb S s'"
  using step inv
proof (induction rule: cfg_step.induct)
  case (Mutate m st now r st' h)
  have ok: "state_ok lb S st" and h: "task_ok lb S st h" using Mutate.prems by (simp_all add: cfg_inv_def)
  have keeps: "m (cf_active st) = Inr (x, d) \<Longrightarrow> unique_ids d \<and> secret_names (cf_secrets st) \<subseteq> declared_names d" for x d
    using Mutate.hyps(1) ok declared_same [of d "cf_active st"] by (auto simp: mutation_ok_def state_ok_def)
  have "secret_declared (cf_active st') = secret_declared (cf_active st) \<and> cf_secrets st' = cf_secrets st"
    using mutate_active [OF Mutate.hyps(3)] ok Mutate.hyps(1) declared_same [of "cf_active st'" "cf_active st"]
    by (auto simp: mutation_ok_def state_ok_def)
  then show ?case
    using mutate_ok [OF libs Mutate.hyps(3,2) ok keeps] alike_ok(1) [OF _ ok] task_ok_cong [OF h, of st']
    by (auto simp: cfg_inv_def)
next
  case (Declare_end d st now r st')
  have ok: "state_ok lb S st" and h: "task_ok lb S st (Some (Declaring d))" using Declare_end.prems by (simp_all add: cfg_inv_def)
  have "declare_mutation d (cf_active st) = Inr (x, doc) \<Longrightarrow> unique_ids doc \<and> secret_names (cf_secrets st) \<subseteq> declared_names doc" for x doc
    using unique_ids_declare [of "cf_active st" d x doc] ok h by (auto simp: state_ok_def task_ok_def)
  then show ?case
    using mutate_ok [OF libs Declare_end.hyps(2,1) ok] alike_ok(1) [OF _ ok] task_free by (auto simp: cfg_inv_def)
next
  case (Undeclare_end name st now r st')
  have ok: "state_ok lb S st" and h: "task_ok lb S st (Some (Undeclaring name))" using Undeclare_end.prems by (simp_all add: cfg_inv_def)
  have "undeclare_mutation name (cf_active st) = Inr (x, doc) \<Longrightarrow> unique_ids doc \<and> secret_names (cf_secrets st) \<subseteq> declared_names doc" for x doc
    using unique_ids_undeclare [of "cf_active st" name x doc] ok h by (auto simp: state_ok_def task_ok_def)
  then show ?case
    using mutate_ok [OF libs Undeclare_end.hyps(2,1) ok] alike_ok(1) [OF _ ok] task_free by (auto simp: cfg_inv_def)
next
  case (Commit_begin p st)
  then show ?case using prepared_installable by (auto simp: cfg_inv_def task_ok_def)
next
  case (Commit_names st names st' current p)
  have a: "alike st st'" using set_names_alike [OF Commit_names.hyps(1)] .
  have ok: "state_ok lb S st" and h: "task_ok lb S st (Some (Checked p current))"
    using Commit_names.prems by (simp_all add: cfg_inv_def)
  have "secret_names (cf_secrets st) \<subseteq> declared_names (pa_document p)"
    using not_blocked [OF Commit_names.hyps(2) set_names_Inr [OF Commit_names.hyps(1)]] ok h
    by (auto simp: state_ok_def task_ok_def)
  then show ?case
    using alike_ok(1) [OF a ok] a h by (auto simp: cfg_inv_def task_ok_def alike_def secret_names_def)
next
  case (Undeclare_unset name st st')
  then show ?case
    using is_set_alike [OF Undeclare_unset.hyps] alike_ok(1) [of st st' lb S]
    by (auto simp: cfg_inv_def task_ok_def alike_def secret_names_def)
next
  case (Set_end now name val st r st')
  then show ?case using store_value_ok [OF libs(1)] by (auto simp: cfg_inv_def task_free)
next
  case (Commit_end now p st r st')
  then show ?case using commit_end_ok [OF libs(2)] by (auto simp: cfg_inv_def task_free)
next
  case (Clear name st r st')
  then show ?case using clear_ok by (auto simp: cfg_inv_def task_free)
next
  case (Restart st f env n st' h)
  then show ?case using restart_ok by (auto simp: cfg_inv_def task_free)
next
  case (Runtime st h f)
  then show ?case using alike_ok [OF on_runtime_alike] by (auto simp: cfg_inv_def)
next
  case (Read_snapshot st r st' h)
  then show ?case using alike_ok [OF active_snapshot_alike] by (auto simp: cfg_inv_def)
next
  case (Read_names st r st' h)
  then show ?case using alike_ok [OF set_names_alike] by (auto simp: cfg_inv_def)
next
  case (Resolve name st r st' h)
  then show ?case using alike_ok [OF resolve_alike] by (auto simp: cfg_inv_def)
next
  case (Commit_blocked st names st' current p)
  then show ?case using alike_ok(1) [OF set_names_alike] by (auto simp: cfg_inv_def task_free)
next
  case (Commit_unread st e st' p current)
  then show ?case using alike_ok(1) [OF set_names_alike] by (auto simp: cfg_inv_def task_free)
next
  case (Undeclare_set name st r st')
  then show ?case using is_set_alike [OF Undeclare_set.hyps(1)] alike_ok(1) [of st st' lb S] by (auto simp: cfg_inv_def task_free)
qed (auto simp: cfg_inv_def task_ok_def)

lemma fresh_inv:
  assumes "fresh_state st"
  shows "cfg_inv lb S (st, None)"
proof -
  have "unique_ids default_document" by (simp add: unique_ids_def default_document_def default_spec_def)
  moreover have "secret_names (cf_secrets st) = {}"
    using assms by (auto simp: fresh_state_def secret_names_def sealed_values_def split: secret_backend.splits)
  ultimately show ?thesis
    using assms
    by (auto simp: fresh_state_def cfg_inv_def state_ok_def task_free envelope_ok_def active_matches_def memory_active_def
        store_ok_def secret_names_def rows_distinct_def backend_rows_def split: secret_backend.splits)
qed

lemma reach_inv:
  assumes "libs_ok lb" "collision_free lb S" "fresh_state st" "cfg_reach lb S (st, None) s"
  shows "cfg_inv lb S s"
  using assms(4) unfolding cfg_reach_def
proof (induction rule: rtranclp_induct)
  case base
  show ?case using assms(3) by (rule fresh_inv)
next
  case (step s1 s2)
  show ?case using step_inv [OF assms(1,2) step.hyps(2) step.IH] .
qed

section \<open>Snapshots are never removed\<close>

abbreviation stored_snapshots :: "config_state \<Rightarrow> snapshot set" where
  "stored_snapshots st \<equiv> set (ms_snapshots (store_state (cf_snapshots st)))"

lemma mutate_stored:
  assumes "mutate lb now m st = (r, st')" "envelope_ok (store_state (cf_snapshots st))"
  shows "stored_snapshots st \<subseteq> stored_snapshots st'"
  by (rule mutate_cases [OF assms]) (auto simp: alike_def snap.ins_snapshots [OF assms(2)])

lemma commit_install_stored:
  assumes "commit_install lb now p st = (r, st')" "envelope_ok (store_state (cf_snapshots st))"
  shows "stored_snapshots st \<subseteq> stored_snapshots st'"
proof (rule commit_install_cases [OF assms])
  fix st1 s snaps
  assume a: "alike st st1"
    and ins: "insert_and_activate (lib_codecs lb) now (pa_kind p) (pa_source_bytes p) (pa_semantic p) (cf_snapshots st1) = (Inr s, snaps)"
    and st': "st' = st1\<lparr>cf_snapshots := snaps, cf_active := pa_document p\<rparr>"
  have "envelope_ok (store_state (cf_snapshots st1))" using a assms(2) by (simp add: alike_def)
  from snap.ins_snapshots [OF this ins] show ?thesis using a by (auto simp: st' alike_def)
qed (auto simp: alike_def)

lemma alike_stored: "alike st st' \<Longrightarrow> stored_snapshots st \<subseteq> stored_snapshots st'"
  by (simp add: alike_def)

lemma step_stored:
  assumes "cfg_step lb S s s'" "cfg_inv lb S s"
  shows "stored_snapshots (fst s) \<subseteq> stored_snapshots (fst s')"
  using assms
proof (induction rule: cfg_step.induct)
  case (Restart st f env n st' h)
  then show ?case using restart_ok by (auto simp: cfg_inv_def)
next
  case (Set_end now name val st r st')
  then show ?case by (auto simp: store_secret_value_def on_secrets_def map_err_def split: prod.splits sum.splits)
next
  case (Clear name st r st')
  then show ?case by (auto simp: clear_secret_value_def on_secrets_def map_err_def split: prod.splits sum.splits)
qed (auto simp: cfg_inv_def state_ok_def
    dest: mutate_stored commit_install_stored alike_stored [OF on_runtime_alike, THEN subsetD] alike_stored [OF active_snapshot_alike]
      alike_stored [OF set_names_alike] alike_stored [OF resolve_alike]
      alike_stored [OF conjunct1 [OF is_set_alike]])

lemma reach_from_inv:
  assumes "libs_ok lb" "collision_free lb S" "cfg_inv lb S s" "cfg_reach lb S s s'"
  shows "cfg_inv lb S s' \<and> stored_snapshots (fst s) \<subseteq> stored_snapshots (fst s')"
  using assms(4) unfolding cfg_reach_def
proof (induction rule: rtranclp_induct)
  case base
  show ?case using assms(3) by simp
next
  case (step s1 s2)
  then show ?case using step_inv [OF assms(1,2) step.hyps(2)] step_stored [OF step.hyps(2)] by auto
qed

text \<open>A generation stands for one source, so a document that is active under the same generation is the same.\<close>

lemma same_generation_same_document:
  assumes "state_ok lb S st" "state_ok lb S st'" "stored_snapshots st \<subseteq> stored_snapshots st'"
    and "memory_active (store_state (cf_snapshots st)) = Some s" "memory_active (store_state (cf_snapshots st')) = Some s'"
    and "sn_generation s = sn_generation s'"
  shows "s = s' \<and> typed_equal (cf_active st) (cf_active st')"
proof -
  have "s \<in> stored_snapshots st'" "s' \<in> stored_snapshots st'"
    using assms(3-5) by (auto simp: memory_active_def find_snapshot_def bind_eq_Some_conv dest!: find_SomeD)
  moreover have "inj_on sn_generation (stored_snapshots st')"
    using assms(2) by (simp add: state_ok_def envelope_ok_def distinct_map)
  ultimately have same: "s = s'" using assms(6) by (meson inj_onD)
  have "typed_equal doc (cf_active st) \<and> typed_equal doc (cf_active st')"
    if "parse_source lb (source_kind_from_str (sn_source_kind s)) (sn_source_bytes s) = Inr doc" for doc
    using that assms(1,2,4,5) same by (simp add: state_ok_def active_matches_def)
  moreover obtain doc where "parse_source lb (source_kind_from_str (sn_source_kind s)) (sn_source_bytes s) = Inr doc"
    using assms(1,4) by (auto simp: state_ok_def active_matches_def)
  ultimately show ?thesis using same by (auto simp: typed_equal_def)
qed

lemma check_generation_Inr:
  assumes "check_generation (Some g) st = (Inr (), st')"
  obtains s where "memory_active (store_state (cf_snapshots st)) = Some s" "sn_generation s = g"
proof -
  obtain a st1 where a: "active_snapshot st = (Inr a, st1)" "map_option sn_generation a = Some g"
    using assms by (auto simp: check_generation_def active_generation_def split: prod.splits sum.splits if_splits)
  then show ?thesis using that active_snapshot_Inr [OF a(1)] by auto
qed

end
