(* ===== verification/Config_Prepare.thy ===== *)
theory Config_Prepare
  imports Config_Protocol
begin

text \<open>
  \<^verbatim>\<open>prepare\<close> among other requests: it takes no lock over its accesses, so the configuration may change
  between the check of the generation, the check of the secrets and the reading of the document it plans against.
  Each access is a step (\<open>prep_access\<close>), and the steps of all other tasks come in between (\<open>prep_step\<close>).
\<close>

section \<open>One prepare\<close>

record prep_request =
  rq_source :: bytes
  rq_kind :: source_kind
  rq_builtin :: "string list"
  rq_expected :: "int option"

text \<open>What it does next, with what it has read so far.\<close>

datatype prep_pc =
    PrepSource
  | PrepGeneration config_document string
  | PrepRemoval config_document string
  | PrepNames config_document string config_document
  | PrepActive config_document string
  | PrepUnset config_document string config_document
  | PrepDone "(config_error, prepared_apply) result"

definition prepared :: "prep_request \<Rightarrow> config_document \<Rightarrow> string \<Rightarrow> config_document \<Rightarrow> string list \<Rightarrow> prepared_apply" where
  "prepared rq next_doc semantic current unset =
     \<lparr>pa_document = next_doc, pa_plan = plan current next_doc, pa_unset_secrets = unset,
      pa_previous_skills = cs_skills (spec current), pa_source_bytes = rq_source rq, pa_kind = rq_kind rq,
      pa_semantic = semantic, pa_expected_generation = rq_expected rq\<rparr>"

fun prep_access :: "libs \<Rightarrow> prep_request \<Rightarrow> prep_pc \<Rightarrow> config_state \<Rightarrow> prep_pc \<times> config_state" where
  "prep_access lb rq PrepSource st =
     ((case check_source lb (rq_source rq) (rq_kind rq) (rq_builtin rq) of
         Inl e \<Rightarrow> PrepDone (Inl e) | Inr (d, semantic) \<Rightarrow> PrepGeneration d semantic), st)"
| "prep_access lb rq (PrepGeneration d semantic) st =
     (case check_generation (rq_expected rq) st of
        (Inl e, st) \<Rightarrow> (PrepDone (Inl e), st) | (Inr _, st) \<Rightarrow> (PrepRemoval d semantic, st))"
| "prep_access lb rq (PrepRemoval d semantic) st = (PrepNames d semantic (cf_active st), st)"
| "prep_access lb rq (PrepNames d semantic current) st =
     (case map_err serialize_secret_error (on_secrets set_names st) of
        (Inl e, st) \<Rightarrow> (PrepDone (Inl e), st)
      | (Inr names, st) \<Rightarrow>
          (let blocked = blocked_removals current d names
           in (if blocked = [] then PrepActive d semantic else PrepDone (Inl (SecretDeclarationRemovalBlocked blocked)), st)))"
| "prep_access lb rq (PrepActive d semantic) st = (PrepUnset d semantic (cf_active st), st)"
| "prep_access lb rq (PrepUnset d semantic current) st =
     (case unset_referenced_secrets d st of (unset, st) \<Rightarrow> (PrepDone (Inr (prepared rq d semantic current unset)), st))"
| "prep_access lb rq (PrepDone r) st = (PrepDone r, st)"

text \<open>Without other tasks the accesses are the function \<open>prepare\<close>.\<close>

definition prep_next :: "libs \<Rightarrow> prep_request \<Rightarrow> prep_pc \<times> config_state \<Rightarrow> prep_pc \<times> config_state" where
  "prep_next lb rq x = prep_access lb rq (fst x) (snd x)"

lemma prep_next_simp: "prep_next lb rq (pc, st) = prep_access lb rq pc st"
  by (simp add: prep_next_def)

lemma prep_alone:
  assumes "prepare lb (rq_source rq) (rq_kind rq) (rq_builtin rq) (rq_expected rq) st = (r, st')"
  shows "(prep_next lb rq ^^ 6) (PrepSource, st) = (PrepDone r, st')"
proof (cases "check_source lb (rq_source rq) (rq_kind rq) (rq_builtin rq)")
  case (Inl e)
  then show ?thesis using assms by (simp add: prepare_def eval_nat_numeral prep_next_simp)
next
  case (Inr ds)
  obtain d semantic where ds: "ds = (d, semantic)" by (cases ds)
  obtain g st1 where g: "check_generation (rq_expected rq) st = (g, st1)" by (cases "check_generation (rq_expected rq) st")
  obtain n st2 where n: "on_secrets set_names st1 = (n, st2)" by (cases "on_secrets set_names st1")
  obtain xs st3 where u: "unset_referenced_secrets d st2 = (xs, st3)" by (cases "unset_referenced_secrets d st2")
  have a: "cf_active st2 = cf_active st1" using set_names_alike [OF n] by (simp add: alike_def)
  show ?thesis
    using assms Inr ds g n u a
    by (cases g; cases n)
      (auto simp: prepare_def check_secret_removal_def prepared_def eval_nat_numeral prep_next_simp Let_def map_err_def split: if_splits)
qed

section \<open>A prepare among other tasks\<close>

inductive prep_step :: "libs \<Rightarrow> (source_kind \<times> bytes) set \<Rightarrow> prep_request \<Rightarrow> prep_pc \<times> system \<Rightarrow> prep_pc \<times> system \<Rightarrow> bool"
  for lb S rq where
  Own: "prep_access lb rq pc st = (pc', st') \<Longrightarrow> prep_step lb S rq (pc, st, h) (pc', st', h)"
| Other: "cfg_step lb S s s' \<Longrightarrow> prep_step lb S rq (pc, s) (pc, s')"

definition prep_reach :: "libs \<Rightarrow> (source_kind \<times> bytes) set \<Rightarrow> prep_request \<Rightarrow> prep_pc \<times> system \<Rightarrow> prep_pc \<times> system \<Rightarrow> bool" where
  "prep_reach lb S rq = (prep_step lb S rq)\<^sup>*\<^sup>*"

text \<open>What is known of a prepare at each of its steps: the source it was given was checked.\<close>

definition prep_ok :: "libs \<Rightarrow> prep_request \<Rightarrow> prep_pc \<Rightarrow> bool" where
  "prep_ok lb rq pc \<longleftrightarrow>
     (let checked = (\<lambda>d semantic. check_source lb (rq_source rq) (rq_kind rq) (rq_builtin rq) = Inr (d, semantic)) in
      case pc of
        PrepGeneration d semantic \<Rightarrow> checked d semantic
      | PrepRemoval d semantic \<Rightarrow> checked d semantic
      | PrepNames d semantic _ \<Rightarrow> checked d semantic
      | PrepActive d semantic \<Rightarrow> checked d semantic
      | PrepUnset d semantic _ \<Rightarrow> checked d semantic
      | PrepDone (Inr p) \<Rightarrow> checked (pa_document p) (pa_semantic p) \<and> pa_source_bytes p = rq_source rq \<and>
          pa_kind p = rq_kind rq \<and> pa_expected_generation p = rq_expected rq
      | _ \<Rightarrow> True)"

lemma prep_access_ok: "prep_access lb rq pc st = (pc', st') \<Longrightarrow> prep_ok lb rq pc \<Longrightarrow> prep_ok lb rq pc'"
  by (cases pc)
    (auto simp: prep_ok_def prepared_def Let_def split: prod.splits sum.splits if_splits)

lemma prep_access_alike: "prep_access lb rq pc st = (pc', st') \<Longrightarrow> alike st st'"
  by (cases pc)
    (auto simp: Let_def map_err_def split: prod.splits sum.splits if_splits
      dest: check_generation_alike set_names_alike unset_referenced_alike)

lemma prep_reach_ok: "prep_reach lb S rq x y \<Longrightarrow> prep_ok lb rq (fst x) \<Longrightarrow> prep_ok lb rq (fst y)"
  unfolding prep_reach_def
  by (induction rule: rtranclp_induct) (auto elim!: prep_step.cases dest: prep_access_ok)

lemma prep_start_ok: "prep_ok lb rq PrepSource"
  by (simp add: prep_ok_def)

lemma prep_reach_inv:
  assumes "libs_ok lb" "collision_free lb S" "prep_reach lb S rq x y" "cfg_inv lb S (snd x)"
  shows "cfg_inv lb S (snd y) \<and> stored_snapshots (fst (snd x)) \<subseteq> stored_snapshots (fst (snd y))"
  using assms(3) unfolding prep_reach_def
proof (induction rule: rtranclp_induct)
  case base
  show ?case using assms(4) by simp
next
  case (step y z)
  from step.hyps(2) show ?case
  proof cases
    case (Own pc st pc' st' h)
    have a: "alike st st'" by (rule prep_access_alike [OF Own(3)])
    show ?thesis using alike_ok [OF a] alike_stored [OF a] step.IH Own(1,2) by (auto simp: cfg_inv_def)
  next
    case (Other s s' pc)
    then show ?thesis using step.IH step_inv [OF assms(1,2) Other(3)] step_stored [OF Other(3)] by auto
  qed
qed

lemma prep_own_reach: "(prep_next lb rq ^^ n) (pc, st) = (pc', st') \<Longrightarrow> prep_reach lb S rq (pc, st, h) (pc', st', h)"
  unfolding prep_reach_def
proof (induction n arbitrary: pc st)
  case (Suc n)
  obtain pc1 st1 where 1: "prep_access lb rq pc st = (pc1, st1)" by (cases "prep_access lb rq pc st")
  then have "(prep_next lb rq ^^ n) (pc1, st1) = (pc', st')"
    using Suc.prems by (simp add: funpow_Suc_right prep_next_simp del: funpow.simps)
  then show ?case using Suc.IH prep_step.Own [OF 1] by (meson converse_rtranclp_into_rtranclp)
qed simp

lemma prepare_reach:
  assumes "prepare lb (rq_source rq) (rq_kind rq) (rq_builtin rq) (rq_expected rq) st = (r, st')"
  shows "prep_reach lb S rq (PrepSource, st, h) (PrepDone r, st', h)"
  by (rule prep_own_reach [OF prep_alone [OF assms]])

section \<open>A commit without other tasks\<close>

lemma commit_reach:
  assumes "prepared_from lb p" "(pa_kind p, pa_source_bytes p) \<in> S" "commit lb now p st = (r, st')"
  shows "cfg_reach lb S (st, None) (st', None)"
proof -
  obtain n st1 where n: "on_secrets set_names st = (n, st1)" by (cases "on_secrets set_names st")
  have start: "cfg_reach lb S (st, None) (st, Some (Checked p (cf_active st)))"
    unfolding cfg_reach_def using Commit_begin [OF assms(1,2)] Commit_active [of lb S st p] by (meson converse_rtranclp_into_rtranclp r_into_rtranclp)
  show ?thesis
  proof (cases n)
    case (Inl e)
    then have "st' = st1" using assms(3) n by (auto simp: commit_def commit_check_def check_secret_removal_def)
    then show ?thesis
      using start Commit_unread [OF n [unfolded Inl], of lb S p "cf_active st"] unfolding cfg_reach_def by auto
  next
    case (Inr names)
    note n' = n [unfolded Inr]
    show ?thesis
    proof (cases "blocked_removals (cf_active st) (pa_document p) names = []")
      case True
      then have "commit_install lb now p st1 = (r, st')"
        using assms(3) n' by (simp add: commit_def commit_check_def check_secret_removal_def)
      from Commit_end [OF this] Commit_names [OF n' True] start show ?thesis
        unfolding cfg_reach_def by (meson rtranclp.rtrancl_into_rtrancl)
    next
      case False
      then have "st' = st1"
        using assms(3) n' by (auto simp: commit_def commit_check_def check_secret_removal_def Let_def)
      then show ?thesis using start Commit_blocked [OF n' False, of lb S] unfolding cfg_reach_def by auto
    qed
  qed
qed

end
