(* ===== verification/Config_Resolver.thy ===== *)
theory Config_Resolver
  imports Config_Adapter
begin

text \<open>
  Lazy resolution of secret-backed configuration (\<^verbatim>\<open>config/resolver.rs\<close>): what a kernel, agent or gateway
  finally runs with.  The list of missing secrets is threaded through, as the \<^verbatim>\<open>&mut Vec\<close> is.
\<close>

section \<open>Definitions\<close>

record missing_secret =
  mi_name :: string
  mi_field :: string

datatype resolve_error = MissingSecrets "missing_secret list" | ResolveStore secret_store_error

record resolved_connection =
  rc_url :: "string option"
  rc_api_key :: "string option"

type_synonym resolving = "missing_secret list \<times> config_state"

definition resolve_one ::
  "crypto \<Rightarrow> string config_value \<Rightarrow> string \<Rightarrow> resolving \<Rightarrow> (resolve_error, string option, resolving) outcome" where
  "resolve_one c val field s =
     (case s of (missing, st) \<Rightarrow>
        (case val of
           Literal l \<Rightarrow> (Inr (Some l), (missing, st))
         | Secret name \<Rightarrow>
             (case map_err ResolveStore (on_secrets (resolve c name) st) of
                (Inl e, st) \<Rightarrow> (Inl e, (missing, st))
              | (Inr None, st) \<Rightarrow> (Inr None, (missing @ [\<lparr>mi_name = name, mi_field = field\<rparr>], st))
              | (Inr (Some v), st) \<Rightarrow> (Inr (Some v), (missing, st)))))"

definition resolve_connection ::
  "crypto \<Rightarrow> string \<Rightarrow> resolving \<Rightarrow> (resolve_error, resolved_connection, resolving) outcome" where
  "resolve_connection c i s =
     (case find_connection (cf_active (snd s)) i of
        None \<Rightarrow> (Inr \<lparr>rc_url = None, rc_api_key = None\<rparr>, s)
      | Some cn \<Rightarrow>
          try_io (resolve_one c (cn_url cn) (''connections/'' @ i @ ''/url'') s) (\<lambda>url s.
          try_io (case cn_api_key cn of
              Some k \<Rightarrow> resolve_one c k (''connections/'' @ i @ ''/apiKey'') s
            | None \<Rightarrow> (Inr None, s)) (\<lambda>api_key s.
          (Inr \<lparr>rc_url = url, rc_api_key = api_key\<rparr>, s))))"

text \<open>The loops over structured entries: every value that resolves is put into the environment.\<close>

fun resolve_entries ::
  "crypto \<Rightarrow> string \<Rightarrow> (string \<times> string config_value) list \<Rightarrow> string btree \<Rightarrow> resolving
    \<Rightarrow> (resolve_error, string btree, resolving) outcome" where
  "resolve_entries c field [] env s = (Inr env, s)"
| "resolve_entries c field ((key, val) # rest) env s =
     try_io (resolve_one c val (field @ ''/'' @ key) s) (\<lambda>r s.
       resolve_entries c field rest (case r of Some v \<Rightarrow> btree_insert key v env | None \<Rightarrow> env) s)"

definition env_entries :: "env_map option \<Rightarrow> (string \<times> string config_value) list" where
  "env_entries env = (case env of None \<Rightarrow> [] | Some m \<Rightarrow> m)"

definition resolve_agent_env ::
  "crypto \<Rightarrow> string \<Rightarrow> resolving \<Rightarrow> (resolve_error, string btree, resolving) outcome" where
  "resolve_agent_env c i s =
     (case find (\<lambda>a. ag_id a = i) (agents_of (cf_active (snd s))) of
        None \<Rightarrow> (Inr [], s)
      | Some a \<Rightarrow> resolve_entries c (''agents/'' @ i @ ''/env'') (env_entries (ag_env a))
          (parse_env_vars (env_to_text (ag_env a) (ag_env_text a))) s)"

definition resolve_kernel_env ::
  "crypto \<Rightarrow> harness_name \<Rightarrow> resolving \<Rightarrow> (resolve_error, string btree, resolving) outcome" where
  "resolve_kernel_env c h s =
     (case find (\<lambda>k. kc_harness k = h) (kernels_of (cf_active (snd s))) of
        None \<Rightarrow> (Inr [], s)
      | Some k \<Rightarrow> resolve_entries c (''kernelConfigs/'' @ harness_str h @ ''/env'') (env_entries (kc_env k))
          (parse_env_vars (env_to_text (kc_env k) (kc_env_text k))) s)"

definition resolve_agent_system_prompt ::
  "crypto \<Rightarrow> string \<Rightarrow> resolving \<Rightarrow> (resolve_error, string option, resolving) outcome" where
  "resolve_agent_system_prompt c i s =
     (case find (\<lambda>a. ag_id a = i) (agents_of (cf_active (snd s))) of
        None \<Rightarrow> (Inr None, s)
      | Some a \<Rightarrow> resolve_one c (ag_system_prompt a) (''agents/'' @ i @ ''/systemPrompt'') s)"

definition resolve_gateway_env ::
  "crypto \<Rightarrow> string \<Rightarrow> config_state \<Rightarrow> (resolve_error, string btree, config_state) outcome" where
  "resolve_gateway_env c i st =
     (case find_gateway (cf_active st) i of
        None \<Rightarrow> (Inr [], st)
      | Some g \<Rightarrow>
          (case try_io (resolve_entries c (''gateways/'' @ i @ ''/env'') (env_entries (gw_env g))
                 (parse_env_vars (env_to_text (gw_env g) (gw_env_text g))) ([], st)) (\<lambda>env s.
               resolve_entries c (''gateways/'' @ i @ ''/secrets'') (gw_secrets g) env s) of
             (Inl e, (_, st)) \<Rightarrow> (Inl e, st)
           | (Inr env, (missing, st)) \<Rightarrow>
               if missing = [] then (Inr env, st) else (Inl (MissingSecrets missing), st)))"

section \<open>What is resolved\<close>

text \<open>The plaintext of a value in a state: the literal, or what the sealed value opens to.\<close>

definition plaintext :: "crypto \<Rightarrow> config_state \<Rightarrow> string config_value \<Rightarrow> string option" where
  "plaintext c st val =
     (case val of
        Literal l \<Rightarrow> Some l
      | Secret name \<Rightarrow> Option.bind (sealed_values (cf_secrets st) name) (\<lambda>bs. ok_opt (key_open c (ss_key (cf_secrets st)) bs)))"

text \<open>A secret without a value, and the report of such entries under a field.\<close>

definition unset_value :: "config_state \<Rightarrow> string config_value \<Rightarrow> bool" where
  "unset_value st val =
     (case val of Literal _ \<Rightarrow> False | Secret name \<Rightarrow> sealed_values (cf_secrets st) name = None)"

definition missing_entries :: "config_state \<Rightarrow> string \<Rightarrow> (string \<times> string config_value) list \<Rightarrow> missing_secret list" where
  "missing_entries st field es =
     map (\<lambda>(k, v). \<lparr>mi_name = the (secret_name_of v), mi_field = field @ ''/'' @ k\<rparr>) (filter (\<lambda>(k, v). unset_value st v) es)"

text \<open>The store fails to resolve one of the secrets among the entries.\<close>

definition store_fails :: "crypto \<Rightarrow> config_state \<Rightarrow> (string \<times> string config_value) list \<Rightarrow> secret_store_error \<Rightarrow> bool" where
  "store_fails c st es e \<longleftrightarrow>
     (\<exists>k name ss. (k, Secret name) \<in> set es \<and> sealed_values ss = sealed_values (cf_secrets st) \<and> fst (resolve c name ss) = Inl e)"

lemma resolve_one_ok:
  assumes "resolve_one c val field (missing, st) = (r, (missing', st'))"
  shows "sealed_values (cf_secrets st') = sealed_values (cf_secrets st) \<and> ss_key (cf_secrets st') = ss_key (cf_secrets st) \<and>
    cf_active st' = cf_active st \<and>
    (\<forall>v. r = Inr v \<longrightarrow> v = plaintext c st val \<and> (v = None \<longleftrightarrow> unset_value st val) \<and>
       missing' = missing @ (if v = None then [\<lparr>mi_name = the (secret_name_of val), mi_field = field\<rparr>] else [])) \<and>
    (\<forall>e. r = Inl e \<longrightarrow> (\<exists>se. e = ResolveStore se \<and> store_fails c st [(k, val)] se))"
proof (cases val)
  case (Secret name)
  obtain q ss where q: "resolve c name (cf_secrets st) = (q, ss)" by (cases "resolve c name (cf_secrets st)")
  have ss: "sealed_values ss = sealed_values (cf_secrets st)" "ss_key ss = ss_key (cf_secrets st)"
    and v: "\<And>v. q = Inr v \<Longrightarrow> v = plaintext c st val \<and> (v = None \<longleftrightarrow> unset_value st val)"
    using resolve_ok [OF q] by (auto simp: same_store_def plaintext_def unset_value_def Secret split: option.splits)
  show ?thesis
  proof (cases q)
    case (Inl e)
    then have "store_fails c st [(k, val)] e" using q by (auto simp: store_fails_def Secret intro!: exI [of _ "cf_secrets st"])
    then show ?thesis using assms q ss Inl by (auto simp: resolve_one_def Secret on_secrets_def map_err_def)
  next
    case (Inr w)
    have r: "r = Inr w \<and> missing' = missing @ (if w = None then [\<lparr>mi_name = name, mi_field = field\<rparr>] else []) \<and>
        st' = st\<lparr>cf_secrets := ss\<rparr>"
      using assms q Inr by (cases w) (auto simp: resolve_one_def Secret on_secrets_def map_err_def)
    have "plaintext c st val = w" "unset_value st val = (w = None)" using v [OF Inr] by blast+
    then show ?thesis using r ss by (simp add: Secret)
  qed
qed (use assms in \<open>auto simp: resolve_one_def plaintext_def unset_value_def\<close>)

lemma same_values:
  assumes "sealed_values (cf_secrets st') = sealed_values (cf_secrets st)"
  shows "unset_value st' = unset_value st" "missing_entries st' = missing_entries st" "store_fails c st' = store_fails c st"
proof -
  show "unset_value st' = unset_value st" using assms by (simp add: unset_value_def fun_eq_iff split: config_value.split)
  then show "missing_entries st' = missing_entries st" by (simp add: missing_entries_def fun_eq_iff)
  show "store_fails c st' = store_fails c st" using assms by (simp add: store_fails_def fun_eq_iff)
qed

lemma store_fails_mono: "store_fails c st es e \<Longrightarrow> set es \<subseteq> set es' \<Longrightarrow> store_fails c st es' e"
  by (auto simp: store_fails_def)

lemma missing_entries_simps:
  "missing_entries st field [] = []"
  "missing_entries st field ((k, v) # es) =
     (if unset_value st v then [\<lparr>mi_name = the (secret_name_of v), mi_field = field @ ''/'' @ k\<rparr>] else []) @ missing_entries st field es"
  by (simp_all add: missing_entries_def)

lemma missing_entries_Nil: "missing_entries st field es = [] \<longleftrightarrow> (\<forall>(k, v) \<in> set es. \<not> unset_value st v)"
  by (auto simp: missing_entries_def filter_empty_conv)

lemma plaintext_same:
  "sealed_values (cf_secrets st') = sealed_values (cf_secrets st) \<Longrightarrow> ss_key (cf_secrets st') = ss_key (cf_secrets st) \<Longrightarrow>
    plaintext c st' = plaintext c st"
  by (auto simp: plaintext_def fun_eq_iff split: config_value.split)

text \<open>The loop: every entry that resolves has its plaintext, the last one for a name wins, and the others are
  the ones reported.\<close>

lemma resolve_entries_ok:
  assumes "resolve_entries c field es env (missing, st) = (r, (missing', st'))"
  shows "sealed_values (cf_secrets st') = sealed_values (cf_secrets st) \<and> ss_key (cf_secrets st') = ss_key (cf_secrets st) \<and>
    cf_active st' = cf_active st \<and>
    (\<forall>env'. r = Inr env' \<longrightarrow>
       missing' = missing @ missing_entries st field es \<and> (\<forall>(k, v) \<in> set es. plaintext c st v = None \<longleftrightarrow> unset_value st v) \<and>
       env' = btree_extend env (List.map_filter (\<lambda>(k, v). map_option (Pair k) (plaintext c st v)) es)) \<and>
    (\<forall>e. r = Inl e \<longrightarrow> (\<exists>se. e = ResolveStore se \<and> store_fails c st es se))"
  using assms
proof (induction es arbitrary: env missing st r)
  case Nil
  then show ?case by (auto simp: btree_extend_def map_filter_simps missing_entries_simps)
next
  case (Cons e es)
  obtain k v where e: "e = (k, v)" by (cases e)
  obtain q m1 st1 where q: "resolve_one c v (field @ ''/'' @ k) (missing, st) = (q, (m1, st1))"
    by (cases "resolve_one c v (field @ ''/'' @ k) (missing, st)") auto
  note one = resolve_one_ok [OF q, of k]
  have pt: "plaintext c st1 = plaintext c st" using one by (intro plaintext_same) auto
  show ?case
  proof (cases q)
    case (Inl err)
    then show ?thesis using Cons.prems one q store_fails_mono [of c st "[(k, v)]" _ "e # es"] by (auto simp: e)
  next
    case (Inr w)
    then have rest: "resolve_entries c field es (case w of Some x \<Rightarrow> btree_insert k x env | None \<Rightarrow> env) (m1, st1) = (r, (missing', st'))"
      using Cons.prems q by (simp add: e)
    have w: "plaintext c st v = w" "w = None \<longleftrightarrow> unset_value st v"
      and m1: "m1 = missing @ (if w = None then [\<lparr>mi_name = the (secret_name_of v), mi_field = field @ ''/'' @ k\<rparr>] else [])"
      and keep: "sealed_values (cf_secrets st1) = sealed_values (cf_secrets st)" "ss_key (cf_secrets st1) = ss_key (cf_secrets st)"
        "cf_active st1 = cf_active st"
      using one Inr by auto
    note ih = Cons.IH [OF rest, unfolded pt keep m1 same_values [OF keep(1)]]
    have err: "store_fails c st es se \<Longrightarrow> store_fails c st (e # es) se" for se
      by (erule store_fails_mono) auto
    show ?thesis
    proof (cases w)
      case None
      then show ?thesis using ih w err by (auto simp: e map_filter_simps missing_entries_simps)
    next
      case (Some x)
      then show ?thesis using ih w err by (auto simp: e map_filter_simps missing_entries_simps btree_extend_def)
    qed
  qed
qed

text \<open>The environment of a gateway, by its definition: the parsed text, then the structured entries, then
  the secrets.\<close>

definition gateway_env_spec :: "crypto \<Rightarrow> config_state \<Rightarrow> gateway \<Rightarrow> string btree" where
  "gateway_env_spec c st g =
     btree_extend (parse_env_vars (env_to_text (gw_env g) (gw_env_text g)))
       (List.map_filter (\<lambda>(k, v). map_option (Pair k) (plaintext c st v)) (env_entries (gw_env g) @ gw_secrets g))"

lemma map_filter_append: "List.map_filter f (xs @ ys) = List.map_filter f xs @ List.map_filter f ys"
  by (simp add: map_filter_def)

text \<open>The secrets of a gateway that have no value, in the order in which they are looked up.\<close>

definition gateway_missing :: "config_state \<Rightarrow> string \<Rightarrow> gateway \<Rightarrow> missing_secret list" where
  "gateway_missing st i g =
     missing_entries st (''gateways/'' @ i @ ''/env'') (env_entries (gw_env g)) @
     missing_entries st (''gateways/'' @ i @ ''/secrets'') (gw_secrets g)"

lemma resolve_gateway_env_ok:
  assumes "find_gateway (cf_active st) i = Some g" "resolve_gateway_env c i st = (r, st')"
  shows "case r of
      Inr env \<Rightarrow> gateway_missing st i g = [] \<and> env = gateway_env_spec c st g \<and>
        (\<forall>(k, v) \<in> set (env_entries (gw_env g) @ gw_secrets g). plaintext c st v \<noteq> None)
    | Inl (MissingSecrets ms) \<Rightarrow> ms \<noteq> [] \<and> ms = gateway_missing st i g
    | Inl (ResolveStore e) \<Rightarrow> store_fails c st (env_entries (gw_env g) @ gw_secrets g) e"
proof -
  let ?es = "env_entries (gw_env g)"
  obtain q m1 st1 where q: "resolve_entries c (''gateways/'' @ i @ ''/env'') ?es
      (parse_env_vars (env_to_text (gw_env g) (gw_env_text g))) ([], st) = (q, (m1, st1))"
    by (cases "resolve_entries c (''gateways/'' @ i @ ''/env'') ?es
      (parse_env_vars (env_to_text (gw_env g) (gw_env_text g))) ([], st)") auto
  note first = resolve_entries_ok [OF q]
  have pt: "plaintext c st1 = plaintext c st" using first by (intro plaintext_same) auto
  have sv: "sealed_values (cf_secrets st1) = sealed_values (cf_secrets st)" using first by simp
  show ?thesis
  proof (cases q)
    case (Inl e)
    then obtain se where "e = ResolveStore se" "store_fails c st ?es se" using first by auto
    moreover have "r = Inl e" using assms q Inl by (auto simp: resolve_gateway_env_def)
    ultimately show ?thesis using store_fails_mono by fastforce
  next
    case (Inr env1)
    obtain q2 m2 st2 where q2: "resolve_entries c (''gateways/'' @ i @ ''/secrets'') (gw_secrets g) env1 (m1, st1) = (q2, (m2, st2))"
      by (cases "resolve_entries c (''gateways/'' @ i @ ''/secrets'') (gw_secrets g) env1 (m1, st1)") auto
    note second = resolve_entries_ok [OF q2, unfolded pt same_values [OF sv]]
    show ?thesis
    proof (cases q2)
      case (Inl e)
      then obtain se where "e = ResolveStore se" "store_fails c st (gw_secrets g) se" using second by auto
      moreover have "r = Inl e" using assms q Inr q2 Inl by (auto simp: resolve_gateway_env_def)
      ultimately show ?thesis using store_fails_mono by fastforce
    next
      case env: (Inr env)
      have m2: "m2 = gateway_missing st i g" using first second Inr env by (simp add: gateway_missing_def)
      have r: "r = (if m2 = [] then Inr env else Inl (MissingSecrets m2))"
        using assms q Inr q2 env by (auto simp: resolve_gateway_env_def)
      have "env = gateway_env_spec c st g"
        using first second Inr env by (simp add: gateway_env_spec_def map_filter_append btree_extend_append)
      moreover have "\<forall>(k, v) \<in> set (?es @ gw_secrets g). plaintext c st v \<noteq> None" if "m2 = []"
        using that first second Inr env m2 by (auto simp: gateway_missing_def missing_entries_Nil)
      ultimately show ?thesis using r m2 by auto
    qed
  qed
qed

text \<open>What a name resolves to: a secret entry wins over an environment entry, which wins over the text.\<close>

lemma map_of_plain_entries:
  assumes "distinct (map fst es)" "\<forall>(k, v) \<in> set es. plaintext c st v \<noteq> None"
  shows "map_of (rev (List.map_filter (\<lambda>(k, v). map_option (Pair k) (plaintext c st v)) es)) k = Option.bind (map_of es k) (plaintext c st)"
proof -
  have "List.map_filter (\<lambda>(k, v). map_option (Pair k) (plaintext c st v)) es = map (\<lambda>(k, v). (k, the (plaintext c st v))) es"
    using assms(2) by (induction es) (auto simp: map_filter_simps)
  moreover have "map fst (map (\<lambda>(k, v). (k, the (plaintext c st v))) es) = map fst es" by (induction es) auto
  moreover have "map_of (map (\<lambda>(k, v). (k, the (plaintext c st v))) es) k = Option.bind (map_of es k) (plaintext c st)"
    using assms(2) by (induction es) auto
  ultimately show ?thesis using assms(1) by (simp add: map_of_rev_distinct del: map_map)
qed

lemma gateway_env_lookup:
  assumes "distinct (map fst (env_entries (gw_env g)))" "distinct (map fst (gw_secrets g))"
    and "\<forall>(k, v) \<in> set (env_entries (gw_env g) @ gw_secrets g). plaintext c st v \<noteq> None"
  shows "map_of (gateway_env_spec c st g) k =
    (case map_of (gw_secrets g) k of
       Some v \<Rightarrow> plaintext c st v
     | None \<Rightarrow> (case map_of (env_entries (gw_env g)) k of
         Some v \<Rightarrow> plaintext c st v
       | None \<Rightarrow> map_of (parse_env_vars (env_to_text (gw_env g) (gw_env_text g))) k))"
proof -
  have plain: "map_of es k = Some v \<Longrightarrow> \<forall>(k, v) \<in> set es. plaintext c st v \<noteq> None \<Longrightarrow> \<exists>p. plaintext c st v = Some p"
    for es :: "(string \<times> string config_value) list" and v
    by (drule map_of_SomeD) auto
  show ?thesis
    using assms(3) plain [of "gw_secrets g"] plain [of "env_entries (gw_env g)"]
    by (auto simp: gateway_env_spec_def map_filter_append btree_extend_append map_of_btree_extend map_add_def
        map_of_plain_entries [OF assms(1)] map_of_plain_entries [OF assms(2)] split: option.splits)
qed

end
