(* ===== verification/Config_Claims.thy ===== *)
theory Config_Claims
  imports Config_Prepare Config_Resolver
begin

text \<open>
  The properties of the configuration: plans, validation, bundles, the adapters, the resolver, and the state
  with its stores under concurrent requests, failures and restarts.
\<close>

section \<open>Restarting\<close>

definition no_faults :: "config_file \<Rightarrow> bool" where
  "no_faults f \<longleftrightarrow> sql_faults (file_snapshots f) = (\<lambda>_. None) \<and> sql_faults (file_secrets f) = (\<lambda>_. None) \<and>
     populated_tables (file_counts f) LEGACY_CONFIG_TABLES = Inr []"

lemma sql_query_total: "sql_faults db = (\<lambda>_. None) \<Longrightarrow> sql_query f db = (Inr (f (sql_tables db)), db\<lparr>sql_calls := Suc (sql_calls db)\<rparr>)"
  by (simp add: sql_query_def sql_exec_def)

lemma verify_rows_total:
  "sql_faults db = (\<lambda>_. None) \<Longrightarrow> \<forall>r \<in> set rs. \<exists>p. key_open c key (row_ciphertext r) = Inr p \<Longrightarrow>
    \<exists>db'. verify_rows c key rs db = (Inr (), db')"
  by (induction rs arbitrary: db) (auto simp: sql_query_total)

lemma rows_open:
  assumes "store_ok c ss" "rows_distinct ss" "ss_backend ss = SecSqlite db" "r \<in> set (sql_tables db)"
  shows "\<exists>p. key_open c (ss_key ss) (row_ciphertext r) = Inr p"
proof -
  have "find (\<lambda>x. row_name x = row_name r) (sql_tables db) = Some r"
    using assms(2-4) by (intro find_key_distinct) (auto simp: rows_distinct_def backend_rows_def)
  then show ?thesis using assms(1,3) by (auto simp: store_ok_def sealed_values_def)
qed

lemma open_sqlite_total:
  assumes "sql_faults db = (\<lambda>_. None)" "configured_key c env = Inr (Some key)"
    "\<forall>r \<in> set (sql_tables db). \<exists>p. key_open c key (row_ciphertext r) = Inr p"
  shows "\<exists>ss. open_sqlite c env n db = Inr ss"
proof -
  let ?db = "db\<lparr>sql_calls := Suc (Suc (Suc (Suc (sql_calls db))))\<rparr>"
  obtain db' where "verify_rows c key (sql_tables db) ?db = (Inr (), db')"
    using verify_rows_total [of ?db "sql_tables db" c key] assms by auto
  then show ?thesis using assms(1,2) by (simp add: open_sqlite_def verify_all_decrypt_def sql_query_total)
qed

lemma open_config_total:
  assumes f: "file_of st f" "no_faults f" and ok: "state_ok lb S st"
    and key: "configured_key (lib_crypto lb) env = Inr (Some (ss_key (cf_secrets st)))"
  shows "\<exists>st'. open_config lb env n (Some f) = Inr st'"
proof -
  obtain db rows where st: "cf_snapshots st = SnapSqlite db" "ss_backend (cf_secrets st) = SecSqlite rows"
    and tf: "sql_tables (file_snapshots f) = sql_tables db" "sql_tables (file_secrets f) = sql_tables rows"
    using f(1) by (auto simp: file_of_def split: snapshot_store.splits secret_backend.splits)
  have "\<forall>r \<in> set (sql_tables rows). \<exists>p. key_open (lib_crypto lb) (ss_key (cf_secrets st)) (row_ciphertext r) = Inr p"
    using rows_open [OF _ _ st(2)] ok by (auto simp: state_ok_def)
  then obtain ss where ss: "open_sqlite (lib_crypto lb) env n (file_secrets f) = Inr ss"
    using open_sqlite_total [of "file_secrets f" "lib_crypto lb" env "ss_key (cf_secrets st)" n] f(2) key tf by (auto simp: no_faults_def)
  obtain db' where o: "open_snapshots (file_snapshots f) = (Inr (memory_active (tables_state (sql_tables db))), db')"
    using f(2) tf
    by (cases "active_config (sql_tables db)")
      (auto simp: open_snapshots_def sqlite_active_def read_snapshot_def sql_query_total no_faults_def memory_active_def tables_state_def)
  show ?thesis
    using ok o ss f(2)
    by (auto simp: state_ok_def active_matches_def st store_state_def open_config_def guard_against_legacy_tables_def
        no_faults_def res_map_err_def split: option.splits)
qed

section \<open>Validation\<close>

lemma concat_Nil_iff: "concat (map f xs) = [] \<longleftrightarrow> (\<forall>x \<in> set xs. f x = [])"
  by auto

lemma validate_ok:
  assumes "validate cd doc builtin = Inr ()"
  shows "refs_resolve doc builtin"
proof -
  let ?cs = "map cn_id (cs_connections (spec doc))" and ?sk = "map sk_id (cs_skills (spec doc))"
  have none: "validation_issues cd doc builtin True = []" using assms by (simp add: validate_def validate_Inr_iff)
  have agents: "\<forall>a \<in> set (cs_agents (spec doc)). validate_agent a ?cs ?sk builtin True = []"
    and gateways: "\<forall>g \<in> set (cs_gateways (spec doc)). validate_gateway g (map ag_id (cs_agents (spec doc))) = []"
    and secrets: "validate_secret_refs doc (map sd_name (cs_secrets (spec doc))) = []"
    using none by (simp_all add: validation_issues_def Let_def concat_Nil_iff)
  have "(ag_connection a = Some c \<or> Option.bind (ag_cli a) ac_connection = Some c \<longrightarrow> c \<in> set ?cs) \<and>
      set (ag_skills a) \<subseteq> set ?sk \<union> set builtin" if "a \<in> set (cs_agents (spec doc))" for a c
  proof -
    have "agent_connection_issues a ?cs = []"
      and sk: "\<forall>s \<in> set (ag_skills a). \<not> (s \<notin> set ?sk \<and> s \<notin> set builtin)"
      using agents that by (auto simp: validate_agent_def concat_Nil_iff split: if_splits)
    then show ?thesis
      by (auto simp: agent_connection_issues_def split: option.splits if_splits)
  qed
  moreover have "gw_agent g \<in> ag_id ` set (cs_agents (spec doc))" if "g \<in> set (cs_gateways (spec doc))" for g
    using gateways that by (auto simp: validate_gateway_def split: if_splits)
  moreover have "secret_declared doc (sr_name r)" if "r \<in> set (secret_references doc)" for r
    using secrets that by (auto simp: validate_secret_refs_def concat_Nil_iff secret_declared_iff split: if_splits)
  ultimately show ?thesis unfolding refs_resolve_def find_connection_iff by auto
qed

section \<open>Sample values\<close>

text \<open>Libraries that know two documents: the empty one and one that declares the secret \<^verbatim>\<open>K\<close>.\<close>

definition w_doc :: config_document where
  "w_doc = \<lparr>metadata_name = DEFAULT_METADATA_NAME,
     spec = default_spec\<lparr>cs_secrets := [\<lparr>sd_name = ''K'', sd_description = None\<rparr>]\<rparr>\<rparr>"

definition w_yaml :: "string \<Rightarrow> yaml" where
  "w_yaml t = YMapping [(YString ''kind'', YString KIND_AGGREGATE), (YString ''apiVersion'', YString API_VERSION),
     (YString ''text'', YString t)]"

definition w_codecs :: codecs where
  "w_codecs = \<lparr>yaml_documents = (\<lambda>s. [Inr (w_yaml s)]), yaml_is_null = (\<lambda>_. False),
     aggregate_of_yaml = (\<lambda>v. case yaml_get v ''text'' of
        Some (YString t) \<Rightarrow> if t = ''0'' then Inr (into_aggregate default_document)
          else if t = ''1'' then Inr (into_aggregate w_doc) else Inl ''unknown''
      | _ \<Rightarrow> Inl ''no text''),
     secret_of_yaml = (\<lambda>_. Inl ''no''), env_of_yaml = (\<lambda>_. Inl ''no''), connection_of_yaml = (\<lambda>_. Inl ''no''),
     skill_of_yaml = (\<lambda>_. Inl ''no''), agent_of_yaml = (\<lambda>_. Inl ''no''), gateway_of_yaml = (\<lambda>_. Inl ''no''),
     aggregate_to_yaml = (\<lambda>m. if m = into_aggregate default_document then Inr ''0''
        else if m = into_aggregate w_doc then Inr ''1'' else Inl ''too large''),
     skill_metadata_of_json = (\<lambda>_. Inl ''no''), sha256_digest = (\<lambda>bs. bs)\<rparr>"

definition w_crypto :: crypto where
  "w_crypto = \<lparr>base64_decode = (\<lambda>_. Some (replicate 32 (CHR 0x41))), aead_seal = (\<lambda>_ _ p. Some p),
     aead_open = (\<lambda>_ _ s. Some s), rng_fill = (\<lambda>_ l. Some (replicate l (CHR 0x00)))\<rparr>"

definition w_libs :: libs where
  "w_libs = \<lparr>lib_codecs = w_codecs, lib_zip = \<lparr>zip_archive = (\<lambda>_. Inl ''no'')\<rparr>, lib_crypto = w_crypto\<rparr>"

definition w_env :: "string btree" where "w_env = [(MASTER_KEY_ENV, ''x'')]"

definition w_file :: "snapshot_tables \<Rightarrow> secret_row list \<Rightarrow> config_file" where
  "w_file t rows = \<lparr>file_snapshots = \<lparr>sql_tables = t, sql_faults = (\<lambda>_. None), sql_calls = 0\<rparr>,
     file_secrets = \<lparr>sql_tables = rows, sql_faults = (\<lambda>_. None), sql_calls = 0\<rparr>, file_counts = (\<lambda>_. Inr None)\<rparr>"

definition w_get :: "('e, 'a) result \<Rightarrow> 'a" where
  "w_get r = (case r of Inr x \<Rightarrow> x)"

definition w_0 :: config_state where
  "w_0 = w_get (open_config w_libs w_env 0 (Some (w_file \<lparr>config_snapshots = [], active_config = None\<rparr> [])))"

definition w_p :: prepared_apply where
  "w_p = w_get (fst (prepare w_libs ''1'' SourceYaml [] None w_0))"

definition w_1 :: config_state where "w_1 = snd (commit_check w_p w_0)"
definition w_2 :: config_state where "w_2 = snd (commit_install w_libs ''t'' w_p w_1)"
definition w_3 :: config_state where "w_3 = snd (store_secret_value w_libs ''t'' ''K'' ''v'' w_2)"

definition w_S :: "(source_kind \<times> bytes) set" where "w_S = {(SourceYaml, ''1'')}"

lemma w_codecs_ok: "codecs_ok w_codecs"
proof -
  have field: "yaml_get (w_yaml t) ''kind'' = Some (YString KIND_AGGREGATE)"
    "yaml_get (w_yaml t) ''apiVersion'' = Some (YString API_VERSION)" "yaml_get (w_yaml t) ''text'' = Some (YString t)" for t
    by (simp_all add: yaml_get_def w_yaml_def)
  have "read_str_field (w_yaml t) ''kind'' = Inr KIND_AGGREGATE" "read_str_field (w_yaml t) ''apiVersion'' = Inr API_VERSION" for t
    by (simp_all add: read_str_field_def field yaml_as_str_def)
  moreover have "is_utf8 ''0''" "is_utf8 ''1''" "into_aggregate default_document \<noteq> into_aggregate w_doc" by code_simp+
  moreover have "am_kind (into_aggregate d) = KIND_AGGREGATE" "am_api_version (into_aggregate d) = API_VERSION" for d
    by (simp_all add: into_aggregate_def)
  ultimately show ?thesis
    by (simp add: codecs_ok_def w_codecs_def yaml_reads_back_def field split: sum.splits if_splits)
qed

lemma w_libs_ok: "libs_ok w_libs" "collision_free w_libs w_S"
  by (simp_all add: libs_ok_def w_libs_def w_codecs_ok crypto_ok_def w_crypto_def collision_free_def w_S_def)

lemma w_runs:
  "fresh_state w_0"
  "fst (prepare w_libs ''1'' SourceYaml [] None w_0) = Inr w_p" "pa_source_bytes w_p = ''1''" "pa_kind w_p = SourceYaml"
  "fst (commit_check w_p w_0) = Inr ()" "secret_declared (cf_active w_2) ''K''"
  "sealed_values (cf_secrets w_3) ''K'' \<noteq> None"
  by code_simp+

lemma w_2_commit: "w_2 = snd (commit w_libs ''t'' w_p w_0)"
proof -
  have "commit_check w_p w_0 = (Inr (), w_1)" using w_runs(5) unfolding w_1_def by (metis prod.collapse)
  then show ?thesis by (simp add: commit_def w_2_def)
qed

lemma w_reach: "cfg_reach w_libs w_S (w_0, None) (w_2, None)" "cfg_reach w_libs w_S (w_0, None) (w_3, None)"
proof -
  have "check_source w_libs (pa_source_bytes w_p) (pa_kind w_p) [] = Inr (pa_document w_p, pa_semantic w_p)" by code_simp
  then have p: "prepared_from w_libs w_p" unfolding prepared_from_def by blast
  show two: "cfg_reach w_libs w_S (w_0, None) (w_2, None)"
    unfolding w_2_commit by (rule commit_reach [OF p _ surjective_pairing]) (simp add: w_runs(3,4) w_S_def)
  have "cfg_step w_libs w_S (w_2, None) (w_2, Some (Setting ''K'' ''v''))"
    by (rule Set_begin [OF w_runs(6)]) code_simp
  moreover have "cfg_step w_libs w_S (w_2, Some (Setting ''K'' ''v'')) (w_3, None)"
    unfolding w_3_def by (rule Set_end [OF prod.collapse [symmetric]])
  ultimately show "cfg_reach w_libs w_S (w_0, None) (w_3, None)"
    using two unfolding cfg_reach_def by auto
qed

section \<open>Properties\<close>

text \<open>(C24) No secret value is ever orphaned or unreadable.  Under every interleaving of requests, failures of the
  database and restarts, each name that has a sealed value is declared by the active document, its value opens
  under the key of the store, and resolving the name, when the database answers, gives that value.  Identities in
  the active document are unique, and the active document is what the active snapshot parses to, up to order.\<close>

theorem secrets_never_orphaned:
  assumes "libs_ok lb" "collision_free lb S" "fresh_state st0" "cfg_reach lb S (st0, None) (st, h)"
  shows "(\<forall>name sealed. sealed_values (cf_secrets st) name = Some sealed \<longrightarrow>
       secret_declared (cf_active st) name \<and>
       (\<exists>val. key_open (lib_crypto lb) (ss_key (cf_secrets st)) sealed = Inr val \<and>
          (\<forall>v ss. resolve (lib_crypto lb) name (cf_secrets st) = (Inr v, ss) \<longrightarrow> v = Some val))) \<and>
    unique_ids (cf_active st) \<and> active_matches lb st"
proof -
  have ok: "state_ok lb S st" using reach_inv [OF assms] by (simp add: cfg_inv_def)
  have "secret_declared (cf_active st) name \<and>
      (\<exists>val. key_open (lib_crypto lb) (ss_key (cf_secrets st)) sealed = Inr val \<and>
         (\<forall>v ss. resolve (lib_crypto lb) name (cf_secrets st) = (Inr v, ss) \<longrightarrow> v = Some val))"
    if s: "sealed_values (cf_secrets st) name = Some sealed" for name sealed
  proof -
    have "store_ok (lib_crypto lb) (cf_secrets st)" using ok by (simp add: state_ok_def)
    then obtain val where "key_open (lib_crypto lb) (ss_key (cf_secrets st)) sealed = Inr val"
      using s unfolding store_ok_def by blast
    moreover have "secret_declared (cf_active st) name" using ok s by (auto simp: state_ok_def secret_names_def)
    ultimately show ?thesis using s resolve_ok by fastforce
  qed
  then show ?thesis using ok by (simp add: state_ok_def)
qed

theorem secrets_never_orphaned_witness:
  "sealed_values (cf_secrets w_3) ''K'' \<noteq> None \<and> secret_declared (cf_active w_3) ''K'' \<and>
   fst (resolve w_crypto ''K'' (cf_secrets w_3)) = Inr (Some ''v'') \<and>
   key_open w_crypto (ss_key (cf_secrets w_3)) (the (sealed_values (cf_secrets w_3) ''K'')) = Inr ''v''"
proof -
  obtain sealed where s: "sealed_values (cf_secrets w_3) ''K'' = Some sealed" using w_runs(7) by blast
  have r: "fst (resolve w_crypto ''K'' (cf_secrets w_3)) = Inr (Some ''v'')" by code_simp
  then have "resolve (lib_crypto w_libs) ''K'' (cf_secrets w_3) = (Inr (Some ''v''), snd (resolve w_crypto ''K'' (cf_secrets w_3)))"
    by (simp add: w_libs_def prod_eq_iff)
  then show ?thesis
    using secrets_never_orphaned [OF w_libs_ok w_runs(1) w_reach(2)] s r by (fastforce simp: w_libs_def)
qed

text \<open>(C25) A restart keeps the configuration.  If the service stops at any point and starts again on the same
  file, without failures and with the same key, it opens; the document is the one that was active, up to order,
  and every snapshot and every secret value is still there.\<close>

theorem restart_keeps_config:
  assumes "libs_ok lb" "collision_free lb S" "fresh_state st0" "cfg_reach lb S (st0, None) (st, h)"
    and "file_of st f" "no_faults f" "configured_key (lib_crypto lb) env = Inr (Some (ss_key (cf_secrets st)))"
  shows "\<exists>st'. open_config lb env n (Some f) = Inr st' \<and> typed_equal (cf_active st') (cf_active st) \<and>
    store_state (cf_snapshots st') = store_state (cf_snapshots st) \<and>
    sealed_values (cf_secrets st') = sealed_values (cf_secrets st)"
proof -
  have ok: "state_ok lb S st" using reach_inv [OF assms(1-4)] by (simp add: cfg_inv_def)
  obtain st' where "open_config lb env n (Some f) = Inr st'" using open_config_total [OF assms(5,6) ok assms(7)] by blast
  then show ?thesis using restart_ok [OF ok assms(5)] by blast
qed

definition w_tables :: "snapshot_tables" where
  "w_tables = (case cf_snapshots w_3 of SnapSqlite db \<Rightarrow> sql_tables db)"

lemma w_file_of:
  "file_of w_3 (w_file w_tables (backend_rows (cf_secrets w_3)))" "no_faults (w_file t rows)"
  "configured_key (lib_crypto w_libs) w_env = Inr (Some (ss_key (cf_secrets w_3)))"
proof -
  have "case cf_snapshots w_3 of SnapSqlite _ \<Rightarrow> True | _ \<Rightarrow> False" "case ss_backend (cf_secrets w_3) of SecSqlite _ \<Rightarrow> True | _ \<Rightarrow> False"
    by code_simp+
  then show "file_of w_3 (w_file w_tables (backend_rows (cf_secrets w_3)))"
    by (auto simp: file_of_def w_file_def w_tables_def backend_rows_def split: snapshot_store.splits secret_backend.splits)
  show "no_faults (w_file t rows)" by (simp add: no_faults_def w_file_def LEGACY_CONFIG_TABLES_def)
  show "configured_key (lib_crypto w_libs) w_env = Inr (Some (ss_key (cf_secrets w_3)))" by code_simp
qed

theorem restart_keeps_config_witness:
  "\<exists>st'. open_config w_libs w_env 0 (Some (w_file w_tables (backend_rows (cf_secrets w_3)))) = Inr st' \<and>
    typed_equal (cf_active st') (cf_active w_3) \<and> sealed_values (cf_secrets st') = sealed_values (cf_secrets w_3)"
  using restart_keeps_config [OF w_libs_ok w_runs(1) w_reach(2) w_file_of, of 0] by blast

text \<open>(C26) Optimistic concurrency.  A caller that has seen the configuration of generation \<open>g\<close> prepares and commits
  an apply that expects \<open>g\<close>, while any other requests, also between the accesses of \<^verbatim>\<open>prepare\<close> and restarts, take
  place.  If the commit succeeds, the document it replaces is the one the caller saw, the plan it reports leads from
  that document to the new one, and the new one is what the given source parses to; if it fails, the document and
  the snapshots are what they were.  (The plan that \<^verbatim>\<open>prepare\<close> itself computed may be for another document, when
  another generation was active for a moment; the commit computes its own.)\<close>

theorem commit_not_stale:
  assumes libs: "libs_ok lb" "collision_free lb S" "fresh_state st0" "cfg_reach lb S (st0, None) (t, ht)"
    and seen: "memory_active (store_state (cf_snapshots t)) = Some s" "sn_generation s = g"
    and prep: "prep_reach lb S rq (PrepSource, t, ht) (PrepDone (Inr p), u, hu)" "rq_expected rq = Some g"
    and later: "cfg_reach lb S (u, hu) (v, hv)" and inst: "commit_install lb now p v = (r, w)"
  shows "case r of
      Inr res \<Rightarrow> typed_equal (cf_active t) (cf_active v) \<and> ao_plan res = plan (cf_active t) (pa_document p) \<and>
        cf_active w = pa_document p \<and> parse_source lb (rq_kind rq) (rq_source rq) = Inr (pa_document p)
    | Inl e \<Rightarrow> cf_active w = cf_active v \<and> store_state (cf_snapshots w) = store_state (cf_snapshots v)"
proof -
  note inv1 = reach_inv [OF libs]
  note inv2 = prep_reach_inv [OF libs(1,2) prep(1)]
  have "cfg_inv lb S (u, hu)" using inv1 inv2 by simp
  note inv3 = reach_from_inv [OF libs(1,2) this later]
  have ok: "state_ok lb S t" "state_ok lb S v" "stored_snapshots t \<subseteq> stored_snapshots v"
    using inv1 inv2 inv3 by (auto simp: cfg_inv_def)
  have env: "envelope_ok (store_state (cf_snapshots v))" using ok(2) by (simp add: state_ok_def)
  have p: "pa_expected_generation p = Some g" "parse_source lb (rq_kind rq) (rq_source rq) = Inr (pa_document p)"
    using prep_reach_ok [OF prep(1)] prep(2) by (auto simp: prep_ok_def check_source_def try_res_Inr_iff Let_def split: if_splits)
  show ?thesis
  proof (rule commit_install_cases [OF inst env])
    fix v1 s1 snaps
    assume a: "alike v v1" and g: "check_generation (pa_expected_generation p) v = (Inr (), v1)"
      and w: "w = v1\<lparr>cf_snapshots := snaps, cf_active := pa_document p\<rparr>"
      and r: "r = Inr \<lparr>ao_snapshot = s1, ao_plan = plan (cf_active v1) (pa_document p),
        ao_document = pa_document p, ao_unset_secrets = pa_unset_secrets p\<rparr>"
    obtain s' where s': "memory_active (store_state (cf_snapshots v)) = Some s'" "sn_generation s' = g"
      by (rule check_generation_Inr [OF g [unfolded p(1)]])
    have same: "typed_equal (cf_active t) (cf_active v)"
      using same_generation_same_document [OF ok seen(1) s'(1)] seen(2) s'(2) by simp
    have "plan (cf_active v1) (pa_document p) = plan (cf_active t) (pa_document p)"
      using a plan_typed_equal [OF same] ok by (simp add: state_ok_def alike_def)
    then show ?thesis using same r w p(2) by simp
  qed (auto simp: alike_def)
qed

definition w_q :: prepared_apply where
  "w_q = w_get (fst (prepare w_libs ''0'' SourceYaml [] (Some 1) w_2))"

definition w_4 :: config_state where
  "w_4 = snd (prepare w_libs ''0'' SourceYaml [] (Some 1) w_2)"

definition w_r :: apply_outcome where
  "w_r = w_get (fst (commit_install w_libs ''u'' w_q w_4))"

definition w_snapshot :: snapshot where
  "w_snapshot = the (memory_active (store_state (cf_snapshots w_2)))"

theorem commit_not_stale_witness:
  "typed_equal (cf_active w_2) (cf_active w_4) \<and> ao_plan w_r = plan (cf_active w_2) (pa_document w_q) \<and>
   map pe_action (ao_plan w_r) = [Delete] \<and> cf_active (snd (commit_install w_libs ''u'' w_q w_4)) = pa_document w_q"
proof -
  have runs: "fst (prepare w_libs ''0'' SourceYaml [] (Some 1) w_2) = Inr w_q" "fst (commit_install w_libs ''u'' w_q w_4) = Inr w_r"
    "map pe_action (ao_plan w_r) = [Delete]" "memory_active (store_state (cf_snapshots w_2)) = Some w_snapshot"
    "sn_generation w_snapshot = 1" by code_simp+
  let ?rq = "\<lparr>rq_source = ''0'', rq_kind = SourceYaml, rq_builtin = [], rq_expected = Some 1\<rparr>"
  have "prepare w_libs ''0'' SourceYaml [] (Some 1) w_2 = (Inr w_q, w_4)"
    using runs(1) unfolding w_4_def by (metis prod.collapse)
  then have prep: "prep_reach w_libs w_S ?rq (PrepSource, w_2, None) (PrepDone (Inr w_q), w_4, None)"
    using prepare_reach [of w_libs ?rq w_2 "Inr w_q" w_4 w_S None] by simp
  have inst: "commit_install w_libs ''u'' w_q w_4 = (Inr w_r, snd (commit_install w_libs ''u'' w_q w_4))"
    using runs(2) by (metis prod.collapse)
  have later: "cfg_reach w_libs w_S (w_4, None) (w_4, None)" by (simp add: cfg_reach_def)
  show ?thesis using commit_not_stale [OF w_libs_ok w_runs(1) w_reach(1) runs(4,5) prep _ later inst] runs(3) by simp
qed

text \<open>(C27) The SQLite snapshot store implements the store in memory: an insertion, whichever statements of
  its transaction fail, either reports an error and leaves the tables as they were or returns the snapshot and has
  the effect of the insertion in memory.\<close>

theorem snapshot_sqlite_refines:
  assumes "envelope_ok (tables_state (sql_tables db))"
    and "sqlite_insert_and_activate cd now k bs semantic db = (r, db')"
  shows "envelope_ok (tables_state (sql_tables db')) \<and>
    (case r of
       Inl _ \<Rightarrow> sql_tables db' = sql_tables db
     | Inr s \<Rightarrow> memory_insert_and_activate cd now k bs semantic (tables_state (sql_tables db)) = (s, tables_state (sql_tables db')) \<and>
         memory_active (tables_state (sql_tables db')) = Some s)"
  using sqlite.ins_ok [OF assms] sqlite_insert_refines [OF assms] sqlite.ins_active [OF assms(1)] assms(2)
  by (cases r) auto

theorem snapshot_sqlite_refines_witness:
  "let db = \<lparr>sql_tables = \<lparr>config_snapshots = [], active_config = None\<rparr>,
       sql_faults = (\<lambda>n. if n = 4 then Some ''disk full'' else None), sql_calls = 0\<rparr>;
     (r, db') = sqlite_insert_and_activate w_codecs ''t'' SourceYaml ''x'' ''h'' db
   in r = Inl (persistence ''disk full'') \<and> sql_tables db' = sql_tables db"
proof -
  let ?db = "\<lparr>sql_tables = \<lparr>config_snapshots = [], active_config = None\<rparr>,
       sql_faults = (\<lambda>n. if n = 4 then Some ''disk full'' else None), sql_calls = 0\<rparr> :: snapshot_tables sql"
  let ?r = "sqlite_insert_and_activate w_codecs ''t'' SourceYaml ''x'' ''h'' ?db"
  have ok: "envelope_ok (tables_state (sql_tables ?db))" by (simp add: envelope_ok_def tables_state_def)
  have r: "fst ?r = Inl (persistence ''disk full'')" by code_simp
  have pair: "?r = (Inl (persistence ''disk full''), snd ?r)" using r by (metis prod.collapse)
  show ?thesis using snapshot_sqlite_refines [OF ok pair] r by (simp add: Let_def case_prod_unfold)
qed

text \<open>(C28) A plan without changes: between two documents with unique identities, every entry is a no-op exactly
  if the documents agree up to the order of their resources.\<close>

theorem plan_noop_iff:
  assumes "unique_ids a" "unique_ids b"
  shows "(\<forall>e \<in> set (plan a b). pe_action e = NoOp) \<longleftrightarrow> canonical_spec (spec a) = canonical_spec (spec b)"
proof -
  have h: "distinct (map (harness_str \<circ> kc_harness) xs) = distinct (map kc_harness xs)" for xs
    by (induction xs) auto
  have eq: "canonical_spec s = canonical_spec t \<longleftrightarrow>
      sort_key sd_name (cs_secrets s) = sort_key sd_name (cs_secrets t) \<and>
      sort_key (harness_str \<circ> kc_harness) (cs_kernel_configs s) = sort_key (harness_str \<circ> kc_harness) (cs_kernel_configs t) \<and>
      sort_key cn_id (cs_connections s) = sort_key cn_id (cs_connections t) \<and>
      sort_key sk_id (cs_skills s) = sort_key sk_id (cs_skills t) \<and>
      sort_key ag_id (cs_agents s) = sort_key ag_id (cs_agents t) \<and>
      sort_key gw_id (cs_gateways s) = sort_key gw_id (cs_gateways t)" for s t
    by (simp add: canonical_spec_def)
  show ?thesis
    unfolding eq plan_def Let_def
    using assms [unfolded unique_ids_def h [symmetric]]
    by (simp add: ball_Un diff_noop_iff [OF _ _ secret_json_inj] diff_noop_iff [OF _ _ kernel_json_inj]
        diff_noop_iff [OF _ _ connection_json_inj] diff_noop_iff [OF _ _ skill_json_inj]
        diff_noop_iff [OF _ _ agent_json_inj] diff_noop_iff [OF _ _ gateway_json_inj])
qed

theorem plan_noop_iff_witness:
  "unique_ids w_doc \<and> unique_ids default_document \<and> \<not> (\<forall>e \<in> set (plan w_doc default_document). pe_action e = NoOp)"
proof -
  have u: "unique_ids w_doc" "unique_ids default_document" and d: "canonical_spec (spec w_doc) \<noteq> canonical_spec (spec default_document)"
    by code_simp+
  then show ?thesis using plan_noop_iff [OF u] by blast
qed

text \<open>(C29) A document that passes validation has no dangling reference: the connections and skills of its agents,
  the agents of its gateways and every referenced secret exist.\<close>

theorem validate_refs_resolve:
  assumes "validate cd doc builtin = Inr ()"
  shows "refs_resolve doc builtin"
  using assms by (rule validate_ok)

definition w_agents :: config_document where
  "w_agents = \<lparr>metadata_name = ''local'', spec = default_spec\<lparr>
     cs_secrets := [\<lparr>sd_name = ''K'', sd_description = None\<rparr>],
     cs_connections := [\<lparr>cn_id = ''c'', cn_name = ''C'', cn_url = Literal ''u'', cn_api_flavor = Responses, cn_api_key = Some (Secret ''K'')\<rparr>],
     cs_agents := [\<lparr>ag_id = ''a'', ag_name = ''A'', ag_harness = Acp, ag_connection = Some ''c'', ag_cli = None,
       ag_system_prompt = Literal ''p'', ag_skills = [''b''], ag_env = None, ag_env_text = None\<rparr>]\<rparr>\<rparr>"

theorem validate_refs_resolve_witness: "refs_resolve w_agents [''b'']"
proof -
  have "validate w_codecs w_agents [''b''] = Inr ()" by code_simp
  then show ?thesis by (rule validate_refs_resolve)
qed

text \<open>(C30) Bundles stay within the limits: the files that are read from an archive have normal relative names
  without duplicates, each has at most eight mebibytes and all together at most 32, and there are at most 4096.\<close>

theorem bundle_within_limits:
  assumes "read_entries zl bs = Inr files"
  shows "distinct (map fst files) \<and> length files \<le> 4096 \<and>
    (\<forall>(name, contents) \<in> set files. is_normal_path name \<and> length contents \<le> 8 * 1024 * 1024) \<and>
    sum_list (map (\<lambda>e. length (snd e)) files) \<le> 32 * 1024 * 1024"
  using read_entries_ok [OF assms]
  by (simp add: bundle_files_ok_def btree_ok_distinct MAX_ENTRIES_def MAX_ENTRY_BYTES_def MAX_TOTAL_BYTES_def)

definition w_zip :: zip_lib where
  "w_zip = \<lparr>zip_archive = (\<lambda>_. Inr [Inr \<lparr>ze_name = ''a/./b.txt'', ze_unix_mode = Some 0x81A4,
     ze_enclosed_name = Some ''a/./b.txt'', ze_is_dir = False, ze_reads = [Inr ''he'', Inr ''llo'', Inr []]\<rparr>])\<rparr>"

theorem bundle_within_limits_witness: "read_entries w_zip [] = Inr [(''a/b.txt'', ''hello'')] \<and> is_normal_path ''a/b.txt''"
proof -
  have parts: "reject_unsafe_name ''a/./b.txt'' = Inr ()" "normalize_entry_path (slash_for_backslash ''a/./b.txt'') = Inr ''a/b.txt''"
    "from_utf8 ''a/./b.txt'' = Some ''a/./b.txt''" "from_utf8 ''hello'' = Some ''hello''" by code_simp+
  have mode: "(0x81A4 :: 32 word) AND UNIX_TYPE_MASK \<noteq> UNIX_TYPE_SYMLINK" by (simp add: UNIX_TYPE_MASK_def UNIX_TYPE_SYMLINK_def)
  have reads: "read_entry_bounded [Inr ''he'', Inr ''llo'', Inr []] n [] 0 = (Inr ''hello'', 5)" for n
    by (simp add: saturating_add_def MAX_ENTRY_BYTES_def MAX_TOTAL_BYTES_def)
  have "read_zip_entry \<lparr>ze_name = ''a/./b.txt'', ze_unix_mode = Some 0x81A4, ze_enclosed_name = Some ''a/./b.txt'',
      ze_is_dir = False, ze_reads = [Inr ''he'', Inr ''llo'', Inr []]\<rparr> 0 = (Inr (Some (''a/b.txt'', ''hello'')), 5)"
    using mode by (simp add: read_zip_entry_def parts reads del: read_entry_bounded.simps)
  then have "read_entries w_zip [] = Inr [(''a/b.txt'', ''hello'')]"
    by (simp add: read_entries_def w_zip_def MAX_ENTRIES_def contains_key_def)
  then show ?thesis using bundle_within_limits [of w_zip "[]" "[(''a/b.txt'', ''hello'')]"] by simp
qed

text \<open>(C31) Writing back what was read changes nothing: an agent, gateway or connection that a client reads as a
  record and writes back keeps its secret references and structured environment, and the document, the snapshots and
  the secrets are as before.  A connection whose key is the empty literal is the exception.\<close>

theorem adapter_write_back:
  shows "(get_agent now i st = (Inr (Some ra), st1) \<longrightarrow>
      fst (update_agent lb now' ra st1) = Inr () \<and> same_config st (snd (update_agent lb now' ra st1))) \<and>
    (get_gateway now i st = (Inr (Some rg), st1) \<longrightarrow>
      fst (update_gateway lb now' rg st1) = Inr () \<and> same_config st (snd (update_gateway lb now' rg st1))) \<and>
    (get_connection now i st = (Inr (Some rc), st1) \<longrightarrow>
      (\<forall>c \<in> set (cs_connections (spec (cf_active st))). cn_id c = i \<longrightarrow> cn_api_key c \<noteq> Some (Literal [])) \<longrightarrow>
      fst (update_connection lb now' rc st1) = Inr () \<and> same_config st (snd (update_connection lb now' rc st1)))"
  using agent_write_back [of now i st ra st1 lb now' _ "snd (update_agent lb now' ra st1)"]
    gateway_write_back [of now i st rg st1 lb now' _ "snd (update_gateway lb now' rg st1)"]
    connection_write_back [of now i st rc st1 lb now' _ "snd (update_connection lb now' rc st1)"]
  by (metis prod.collapse)

definition w_5 :: config_state where "w_5 = w_0\<lparr>cf_active := w_agents\<rparr>"

theorem adapter_write_back_witness:
  "\<exists>r st1. get_connection ''t'' ''c'' w_5 = (Inr (Some r), st1) \<and> cr_api_key_secret r = Some ''K'' \<and>
    same_config w_5 (snd (update_connection w_libs ''u'' r st1))"
proof -
  define r where "r = the (w_get (fst (get_connection ''t'' ''c'' w_5)))"
  have run: "get_connection ''t'' ''c'' w_5 = (Inr (Some r), snd (get_connection ''t'' ''c'' w_5))" and k: "cr_api_key_secret r = Some ''K''"
  proof -
    have "(case fst (get_connection ''t'' ''c'' w_5) of Inr (Some r) \<Rightarrow> cr_api_key_secret r = Some ''K'' | _ \<Rightarrow> False)" by code_simp
    then show "get_connection ''t'' ''c'' w_5 = (Inr (Some r), snd (get_connection ''t'' ''c'' w_5))" "cr_api_key_secret r = Some ''K''"
      by (auto simp: r_def w_get_def prod_eq_iff split: sum.splits option.splits)
  qed
  have "\<forall>c \<in> set (cs_connections (spec (cf_active w_5))). cn_id c = ''c'' \<longrightarrow> cn_api_key c \<noteq> Some (Literal [])"
    by code_simp
  then show ?thesis using adapter_write_back [where rc = r and now = "''t''" and i = "''c''" and st = w_5] run k by blast
qed

text \<open>(C32) The environment of a gateway.  If it resolves, no secret it refers to is without a value, and a name has
  the plaintext of its entry among the secrets, else of its entry in the structured environment, else what the
  environment text says.  If secrets are reported as missing, the report lists exactly the entries whose secret has no
  value, each with its name and field, in the order of the entries; the only other failure is one of the secret
  store on one of the entries.  The text is that of the gateway or, without one, the literal entries written as
  lines and parsed again: a literal that contains a line feed therefore defines names that no entry has, as the
  witness shows.\<close>

theorem resolve_gateway_env_exact:
  assumes "find_gateway (cf_active st) i = Some g" "resolve_gateway_env c i st = (r, st')"
    and "distinct (map fst (env_entries (gw_env g)))" "distinct (map fst (gw_secrets g))"
  shows "case r of
      Inr env \<Rightarrow> gateway_missing st i g = [] \<and>
        (\<forall>name. map_of env name =
          (case map_of (gw_secrets g) name of
             Some v \<Rightarrow> plaintext c st v
           | None \<Rightarrow> (case map_of (env_entries (gw_env g)) name of
               Some v \<Rightarrow> plaintext c st v
             | None \<Rightarrow> map_of (parse_env_vars (env_to_text (gw_env g) (gw_env_text g))) name)))
    | Inl (MissingSecrets ms) \<Rightarrow> ms \<noteq> [] \<and> ms = gateway_missing st i g
    | Inl (ResolveStore e) \<Rightarrow> store_fails c st (env_entries (gw_env g) @ gw_secrets g) e"
proof (cases r)
  case (Inr env)
  have f: "gateway_missing st i g = []" "env = gateway_env_spec c st g"
    "\<forall>(k, v) \<in> set (env_entries (gw_env g) @ gw_secrets g). plaintext c st v \<noteq> None"
    using resolve_gateway_env_ok [OF assms(1,2)] by (simp_all add: Inr)
  show ?thesis using f(1,2) gateway_env_lookup [OF assms(3,4) f(3)] by (simp add: Inr)
qed (use resolve_gateway_env_ok [OF assms(1,2)] in simp)

text \<open>A gateway whose only entry is the literal \<^verbatim>\<open>x\<close>, a line feed, \<^verbatim>\<open>B=y\<close>.\<close>

definition w_gateway :: gateway where
  "w_gateway = \<lparr>gw_id = ''g'', gw_name = ''G'', gw_type = GatewayEcho, gw_agent = ''a'', gw_enabled = True,
     gw_env = Some [(''A'', Literal (''x'' @ [CHR 0x0A] @ ''B=y''))], gw_env_text = None, gw_secrets = []\<rparr>"

definition w_6 :: config_state where
  "w_6 = w_0\<lparr>cf_active := w_agents\<lparr>spec := (spec w_agents)\<lparr>cs_gateways := [w_gateway]\<rparr>\<rparr>\<rparr>"

text \<open>The same gateway with a secret \<^verbatim>\<open>T\<close> that has no value.\<close>

definition w_gateway_unset :: gateway where
  "w_gateway_unset = w_gateway\<lparr>gw_secrets := [(''T'', Secret ''K'')]\<rparr>"

definition w_7 :: config_state where
  "w_7 = w_0\<lparr>cf_active := w_agents\<lparr>spec := (spec w_agents)\<lparr>cs_gateways := [w_gateway_unset]\<rparr>\<rparr>\<rparr>"

theorem resolve_gateway_env_exact_witness:
  "(\<exists>env st'. resolve_gateway_env w_crypto ''g'' w_6 = (Inr env, st') \<and> map_of env ''B'' = Some ''y'' \<and>
    ''B'' \<notin> fst ` set (env_entries (gw_env w_gateway) @ gw_secrets w_gateway)) \<and>
   (\<exists>ms. fst (resolve_gateway_env w_crypto ''g'' w_7) = Inl (MissingSecrets ms) \<and> ms = gateway_missing w_7 ''g'' w_gateway_unset \<and>
     ms = [\<lparr>mi_name = ''K'', mi_field = ''gateways/g/secrets/T''\<rparr>])"
proof
  define env where "env = w_get (fst (resolve_gateway_env w_crypto ''g'' w_6))"
  have "(case fst (resolve_gateway_env w_crypto ''g'' w_6) of Inr _ \<Rightarrow> True | _ \<Rightarrow> False)" by code_simp
  then have run: "resolve_gateway_env w_crypto ''g'' w_6 = (Inr env, snd (resolve_gateway_env w_crypto ''g'' w_6))"
    by (auto simp: env_def w_get_def prod_eq_iff split: sum.splits)
  have g: "find_gateway (cf_active w_6) ''g'' = Some w_gateway" by code_simp
  have d: "distinct (map fst (env_entries (gw_env w_gateway)))" "distinct (map fst (gw_secrets w_gateway))" by code_simp+
  have txt_value: "(case map_of (gw_secrets w_gateway) ''B'' of
       Some v \<Rightarrow> plaintext w_crypto w_6 v
     | None \<Rightarrow> (case map_of (env_entries (gw_env w_gateway)) ''B'' of
         Some v \<Rightarrow> plaintext w_crypto w_6 v
       | None \<Rightarrow> map_of (parse_env_vars (env_to_text (gw_env w_gateway) (gw_env_text w_gateway))) ''B'')) = Some ''y''"
    "''B'' \<notin> fst ` set (env_entries (gw_env w_gateway) @ gw_secrets w_gateway)" by code_simp+
  have "map_of env ''B'' = Some ''y''" using resolve_gateway_env_exact [OF g run d] txt_value(1) by simp
  then show "\<exists>env st'. resolve_gateway_env w_crypto ''g'' w_6 = (Inr env, st') \<and> map_of env ''B'' = Some ''y'' \<and>
    ''B'' \<notin> fst ` set (env_entries (gw_env w_gateway) @ gw_secrets w_gateway)"
    using run txt_value(2) by blast
next
  let ?ms = "[\<lparr>mi_name = ''K'', mi_field = ''gateways/g/secrets/T''\<rparr>]"
  have m: "fst (resolve_gateway_env w_crypto ''g'' w_7) = Inl (MissingSecrets ?ms)" by code_simp
  then have run: "resolve_gateway_env w_crypto ''g'' w_7 = (Inl (MissingSecrets ?ms), snd (resolve_gateway_env w_crypto ''g'' w_7))"
    by (simp add: prod_eq_iff)
  have g: "find_gateway (cf_active w_7) ''g'' = Some w_gateway_unset" by code_simp
  have d: "distinct (map fst (env_entries (gw_env w_gateway_unset)))" "distinct (map fst (gw_secrets w_gateway_unset))" by code_simp+
  show "\<exists>ms. fst (resolve_gateway_env w_crypto ''g'' w_7) = Inl (MissingSecrets ms) \<and> ms = gateway_missing w_7 ''g'' w_gateway_unset \<and>
     ms = ?ms"
    using resolve_gateway_env_exact [OF g run d] m by simp
qed

end
