(* ===== verification/Fs_Model.thy ===== *)
theory Fs_Model
  imports Page_Path "HOL-Library.AList" "HOL-Library.Word"
begin

text \<open>
  The part of the operating system's file interface that the filesystem store uses
  (\<^verbatim>\<open>std::fs\<close>): a tree of nodes below the store root, and one definition per call.

  Paths are lists of components below the canonical store root.  Every call may fail: a schedule of
  faults, a field of the state, says which calls do, and with which error; a failed write leaves a
  prefix of the bytes behind.  A call on a path through or at a symbolic link would leave the modelled
  tree; the store rejects such paths before it touches them, and the model answers with an error.
  The same holds for renaming a directory, which the store never does.
\<close>

section \<open>State\<close>

type_synonym fpath = "bytes list"

datatype node = NFile bytes | NDir | NSymlink | NOther

datatype fs_op = OpStat | OpRead | OpMkdir | OpCreate | OpWrite | OpSync | OpRename | OpRemove
  | OpReadDir | OpEntry | OpLock

datatype fault = Fault (fault_error: io_error) (fault_progress: nat)

record fsys =
  root_text :: string
  nodes :: "(fpath \<times> node) list"
  temp_file_counter :: "64 word"
  process_id :: nat
  op_count :: nat
  faults :: "fs_op \<Rightarrow> nat \<Rightarrow> fault option"
  os_text :: "io_kind \<Rightarrow> string"

definition lookup :: "fsys \<Rightarrow> fpath \<Rightarrow> node option" where
  "lookup s p = (if p = [] then Some NDir else map_of (nodes s) p)"

definition put :: "fpath \<Rightarrow> node \<Rightarrow> fsys \<Rightarrow> fsys" where
  "put p n s = s\<lparr>nodes := AList.update p n (nodes s)\<rparr>"

definition del :: "fpath \<Rightarrow> fsys \<Rightarrow> fsys" where
  "del p s = s\<lparr>nodes := AList.delete p (nodes s)\<rparr>"

definition os_err :: "fsys \<Rightarrow> io_kind \<Rightarrow> io_error" where
  "os_err s k = IoErr k (os_text s k)"

text \<open>The proper non-root ancestors of a path, outermost first, and the first one that is not a
  directory.\<close>

definition ancestors :: "fpath \<Rightarrow> fpath list" where
  "ancestors p = map (\<lambda>n. take n p) [1..<length p]"

definition parent_error :: "fsys \<Rightarrow> fpath \<Rightarrow> io_kind option" where
  "parent_error s p =
     (case find (\<lambda>q. lookup s q \<noteq> Some NDir) (ancestors p) of
        None \<Rightarrow> None
      | Some q \<Rightarrow> Some (case lookup s q of
            None \<Rightarrow> IoNotFound
          | Some (NFile _) \<Rightarrow> IoNotADirectory
          | Some _ \<Rightarrow> IoOther))"

section \<open>Calls\<close>

type_synonym 'a fs_call = "fsys \<Rightarrow> (io_error, 'a, fsys) outcome"

definition fs_prim :: "fs_op \<Rightarrow> 'a fs_call \<Rightarrow> 'a fs_call" where
  "fs_prim op f s =
     (let s' = s\<lparr>op_count := Suc (op_count s)\<rparr> in
      case faults s op (op_count s) of
        Some flt \<Rightarrow> (Inl (fault_error flt), s')
      | None \<Rightarrow> f s')"

definition fs_fail :: "io_kind \<Rightarrow> 'a fs_call" where
  "fs_fail k s = (Inl (os_err s k), s)"

definition under_dirs :: "fpath \<Rightarrow> 'a fs_call \<Rightarrow> 'a fs_call" where
  "under_dirs p f s = (case parent_error s p of Some k \<Rightarrow> fs_fail k s | None \<Rightarrow> f s)"

definition fs_symlink_metadata :: "fpath \<Rightarrow> node fs_call" where
  "fs_symlink_metadata p =
     fs_prim OpStat (under_dirs p (\<lambda>s.
       case lookup s p of None \<Rightarrow> fs_fail IoNotFound s | Some n \<Rightarrow> (Inr n, s)))"

text \<open>\<^verbatim>\<open>Path::is_file\<close> and \<^verbatim>\<open>Path::exists\<close>: an error counts as \<open>False\<close>.\<close>

definition path_is_file :: "fpath \<Rightarrow> fsys \<Rightarrow> bool \<times> fsys" where
  "path_is_file p s =
     (case fs_symlink_metadata p s of (Inr (NFile _), s') \<Rightarrow> (True, s') | (_, s') \<Rightarrow> (False, s'))"

definition path_exists :: "fpath \<Rightarrow> fsys \<Rightarrow> bool \<times> fsys" where
  "path_exists p s = (case fs_symlink_metadata p s of (Inr _, s') \<Rightarrow> (True, s') | (Inl _, s') \<Rightarrow> (False, s'))"

definition fs_read :: "fpath \<Rightarrow> bytes fs_call" where
  "fs_read p =
     fs_prim OpRead (under_dirs p (\<lambda>s.
       case lookup s p of
         None \<Rightarrow> fs_fail IoNotFound s
       | Some (NFile b) \<Rightarrow> (Inr b, s)
       | Some NDir \<Rightarrow> fs_fail IoIsADirectory s
       | Some _ \<Rightarrow> fs_fail IoOther s))"

definition fs_mkdir :: "fpath \<Rightarrow> unit fs_call" where
  "fs_mkdir p =
     fs_prim OpMkdir (under_dirs p (\<lambda>s.
       case lookup s p of None \<Rightarrow> (Inr (), put p NDir s) | Some _ \<Rightarrow> fs_fail IoOther s))"

text \<open>\<^verbatim>\<open>create_dir_all\<close>: the missing directories, outermost first.\<close>

fun mkdir_from :: "fpath \<Rightarrow> bytes list \<Rightarrow> unit fs_call" where
  "mkdir_from base [] s = (Inr (), s)"
| "mkdir_from base (c # cs) s =
     (if lookup s (base @ [c]) = Some NDir then mkdir_from (base @ [c]) cs s
      else try_io (fs_mkdir (base @ [c]) s) (\<lambda>_. mkdir_from (base @ [c]) cs))"

definition fs_create_dir_all :: "fpath \<Rightarrow> unit fs_call" where
  "fs_create_dir_all p = mkdir_from [] p"

text \<open>\<^verbatim>\<open>File::create\<close>, which truncates, and \<^verbatim>\<open>write_all\<close> on the new file.\<close>

definition fs_create :: "fpath \<Rightarrow> unit fs_call" where
  "fs_create p =
     fs_prim OpCreate (under_dirs p (\<lambda>s.
       case lookup s p of
         Some NDir \<Rightarrow> fs_fail IoIsADirectory s
       | Some NSymlink \<Rightarrow> fs_fail IoOther s
       | Some NOther \<Rightarrow> fs_fail IoOther s
       | _ \<Rightarrow> (Inr (), put p (NFile []) s)))"

definition fs_write_all :: "fpath \<Rightarrow> bytes \<Rightarrow> unit fs_call" where
  "fs_write_all p bs s =
     (let s' = s\<lparr>op_count := Suc (op_count s)\<rparr> in
      case faults s OpWrite (op_count s) of
        Some flt \<Rightarrow> (Inl (fault_error flt), put p (NFile (take (fault_progress flt) bs)) s')
      | None \<Rightarrow> (Inr (), put p (NFile bs) s'))"

definition fs_sync :: "unit fs_call" where
  "fs_sync = fs_prim OpSync (\<lambda>s. (Inr (), s))"

definition fs_rename :: "fpath \<Rightarrow> fpath \<Rightarrow> unit fs_call" where
  "fs_rename p q =
     fs_prim OpRename (under_dirs p (under_dirs q (\<lambda>s.
       case lookup s p of
         None \<Rightarrow> fs_fail IoNotFound s
       | Some NDir \<Rightarrow> fs_fail IoOther s
       | Some n \<Rightarrow>
           (if lookup s q = Some NDir then fs_fail IoIsADirectory s
            else (Inr (), put q n (del p s))))))"

definition fs_remove_file :: "fpath \<Rightarrow> unit fs_call" where
  "fs_remove_file p =
     fs_prim OpRemove (under_dirs p (\<lambda>s.
       case lookup s p of
         None \<Rightarrow> fs_fail IoNotFound s
       | Some NDir \<Rightarrow> fs_fail IoIsADirectory s
       | Some _ \<Rightarrow> (Inr (), del p s)))"

text \<open>\<^verbatim>\<open>read_dir\<close>: the names of the entries with their types, in the order of the directory.\<close>

definition children :: "fsys \<Rightarrow> fpath \<Rightarrow> (bytes \<times> node) list" where
  "children s p =
     map (\<lambda>(q, n). (last q, n)) (filter (\<lambda>(q, _). q \<noteq> [] \<and> butlast q = p) (nodes s))"

definition fs_read_dir :: "fpath \<Rightarrow> (bytes \<times> node) list fs_call" where
  "fs_read_dir p =
     fs_prim OpReadDir (under_dirs p (\<lambda>s.
       case lookup s p of
         None \<Rightarrow> fs_fail IoNotFound s
       | Some NDir \<Rightarrow> (Inr (children s p), s)
       | Some (NFile _) \<Rightarrow> fs_fail IoNotADirectory s
       | Some _ \<Rightarrow> fs_fail IoOther s))"

section \<open>What the calls change\<close>

text \<open>The fields no call touches.\<close>

definition frame :: "fsys \<Rightarrow> fsys \<Rightarrow> bool" where
  "frame s s' \<longleftrightarrow> faults s' = faults s \<and> process_id s' = process_id s \<and> temp_file_counter s' = temp_file_counter s \<and>
     os_text s' = os_text s \<and> root_text s' = root_text s \<and> op_count s \<le> op_count s'"

lemma frame_refl [simp, intro]: "frame s s"
  by (simp add: frame_def)

lemma frame_trans [trans]: "frame s t \<Longrightarrow> frame t u \<Longrightarrow> frame s u"
  by (simp add: frame_def)

lemma lookup_Nil [simp]: "lookup s [] = Some NDir"
  by (simp add: lookup_def)

lemma lookup_put [simp]: "lookup (put p n s) q = (if q = p \<and> q \<noteq> [] then Some n else lookup s q)"
  by (simp add: lookup_def put_def update_conv')

lemma lookup_del [simp]: "lookup (del p s) q = (if q = p \<and> q \<noteq> [] then None else lookup s q)"
  by (simp add: lookup_def del_def delete_conv')

lemma lookup_op_count [simp]: "lookup (s\<lparr>op_count := k\<rparr>) = lookup s"
  by (simp add: lookup_def fun_eq_iff)

lemma lookup_nodes: "nodes s' = nodes s \<Longrightarrow> lookup s' = lookup s"
  by (simp add: lookup_def fun_eq_iff)

lemma parent_error_lookup: "lookup s' = lookup s \<Longrightarrow> parent_error s' p = parent_error s p"
  unfolding parent_error_def by presburger

lemma ancestors_iff: "q \<in> set (ancestors p) \<longleftrightarrow> strict_prefix q p \<and> q \<noteq> []"
proof
  assume "q \<in> set (ancestors p)"
  then obtain n where "1 \<le> n" "n < length p" "q = take n p" by (auto simp: ancestors_def)
  then show "strict_prefix q p \<and> q \<noteq> []"
    by (auto simp: strict_prefix_def take_is_prefix)
next
  assume "strict_prefix q p \<and> q \<noteq> []"
  then have "q = take (length q) p" "length q < length p" "1 \<le> length q"
    by (auto simp: strict_prefix_def prefix_def Suc_le_eq)
  then show "q \<in> set (ancestors p)"
    unfolding ancestors_def set_map set_upt by (metis atLeastLessThan_iff image_eqI)
qed

lemma parent_error_None_iff: "parent_error s p = None \<longleftrightarrow> (\<forall>q. strict_prefix q p \<longrightarrow> lookup s q = Some NDir)"
proof -
  have "parent_error s p = None \<longleftrightarrow> find (\<lambda>q. lookup s q \<noteq> Some NDir) (ancestors p) = None"
    by (simp add: parent_error_def split: option.split)
  also have "\<dots> \<longleftrightarrow> (\<forall>q \<in> set (ancestors p). lookup s q = Some NDir)"
    by (auto simp: find_None_iff)
  finally show ?thesis using lookup_Nil [of s] by (auto simp: ancestors_iff)
qed

lemma fs_prim_cases:
  assumes "fs_prim op f s = (r, s')"
  obtains (fault) e where "r = Inl e" "s' = s\<lparr>op_count := Suc (op_count s)\<rparr>" "faults s op (op_count s) \<noteq> None"
    | (run) "f (s\<lparr>op_count := Suc (op_count s)\<rparr>) = (r, s')" "faults s op (op_count s) = None"
  using assms by (auto simp: fs_prim_def Let_def split: option.splits)

lemma fs_prim_run:
  "faults s op (op_count s) = None \<Longrightarrow> fs_prim op f s = f (s\<lparr>op_count := Suc (op_count s)\<rparr>)"
  by (simp add: fs_prim_def Let_def)

text \<open>The tree invariant: everything lies in directories up to the root, and every path has one
  node.\<close>

definition fs_inv :: "fsys \<Rightarrow> bool" where
  "fs_inv s \<longleftrightarrow> (\<forall>p. lookup s p \<noteq> None \<longrightarrow> parent_error s p = None) \<and> distinct (map fst (nodes s)) \<and>
     [] \<notin> fst ` set (nodes s)"

text \<open>A step keeps the untouched fields and the invariant.\<close>

definition fs_ok :: "fsys \<Rightarrow> fsys \<Rightarrow> bool" where
  "fs_ok s s' \<longleftrightarrow> frame s s' \<and> (fs_inv s \<longrightarrow> fs_inv s')"

lemma fs_ok_refl [simp, intro]: "fs_ok s s"
  by (simp add: fs_ok_def)

lemma fs_ok_trans [trans]: "fs_ok s t \<Longrightarrow> fs_ok t u \<Longrightarrow> fs_ok s u"
  by (auto simp: fs_ok_def intro: frame_trans)

lemma fs_ok_nodes: "nodes s' = nodes s \<Longrightarrow> frame s s' \<Longrightarrow> fs_ok s s'"
  using lookup_nodes [of s' s] parent_error_lookup [of s' s] by (simp add: fs_ok_def fs_inv_def)

lemma fs_invD: "fs_inv s \<Longrightarrow> lookup s p \<noteq> None \<Longrightarrow> strict_prefix q p \<Longrightarrow> lookup s q = Some NDir"
  by (auto simp: fs_inv_def parent_error_None_iff)

lemma fs_inv_put:
  assumes "fs_inv s" "parent_error s p = None" "p \<noteq> []" "n = NDir \<or> lookup s p \<noteq> Some NDir"
  shows "fs_inv (put p n s)"
proof -
  have "lookup (put p n s) q = Some NDir" if "lookup (put p n s) r \<noteq> None" "strict_prefix q r" for q r
  proof (cases "r = p")
    case True
    then show ?thesis using assms(2) that by (auto simp: parent_error_None_iff)
  next
    case False
    then have "lookup s q = Some NDir" using that fs_invD [OF assms(1)] by (auto split: if_splits)
    then show ?thesis using assms(3,4) by auto
  qed
  moreover have "distinct (map fst (nodes (put p n s)))" "[] \<notin> fst ` set (nodes (put p n s))"
    using assms(1,3) by (auto simp: fs_inv_def put_def distinct_update dom_update)
  ultimately show ?thesis by (simp add: fs_inv_def parent_error_None_iff)
qed

lemma fs_inv_del:
  assumes "fs_inv s" "lookup s p \<noteq> Some NDir"
  shows "fs_inv (del p s)"
proof -
  have "lookup (del p s) q = Some NDir" if "lookup (del p s) r \<noteq> None" "strict_prefix q r" for q r
    using that fs_invD [OF assms(1), of r q] assms(2) by (auto split: if_splits)
  moreover have "distinct (map fst (nodes (del p s)))" "[] \<notin> fst ` set (nodes (del p s))"
    using assms(1) by (auto simp: fs_inv_def del_def AList.delete_eq distinct_map_filter)
  ultimately show ?thesis by (simp add: fs_inv_def parent_error_None_iff)
qed

lemma fs_inv_op_count [simp]: "fs_inv (s\<lparr>op_count := k\<rparr>) = fs_inv s"
  using parent_error_lookup [OF lookup_op_count [of k s]] by (simp add: fs_inv_def)

lemma frame_simps [simp]:
  "op_count s \<le> k \<Longrightarrow> frame s (s\<lparr>op_count := k\<rparr>)"
  "frame s (put p n t) = frame s t"
  "frame s (del p t) = frame s t"
  by (simp_all add: frame_def put_def del_def)

lemma parent_error_op_count [simp]: "parent_error (s\<lparr>op_count := k\<rparr>) = parent_error s"
  using parent_error_lookup [OF lookup_op_count [of k s]] by (simp add: fun_eq_iff)

lemma fs_fail_eq [simp]: "fs_fail k s = (Inl (os_err s k), s)"
  by (simp add: fs_fail_def)

lemma under_dirs_cases:
  assumes "under_dirs p f s = (r, s')"
  obtains (bad) e where "r = Inl e" "s' = s" "parent_error s p \<noteq> None"
    | (good) "parent_error s p = None" "f s = (r, s')"
  using assms by (auto simp: under_dirs_def split: option.splits)

lemmas fs_splits = option.splits node.splits if_splits

lemma fs_symlink_metadata_effect:
  assumes "fs_symlink_metadata p s = (r, s')"
  shows "nodes s' = nodes s" "frame s s'" "r = Inr n \<Longrightarrow> lookup s p = Some n \<and> parent_error s p = None"
  using assms unfolding fs_symlink_metadata_def
  by (auto elim!: fs_prim_cases under_dirs_cases split: fs_splits)

lemma path_is_file_effect:
  assumes "path_is_file p s = (b, s')"
  shows "nodes s' = nodes s" "frame s s'" "b \<Longrightarrow> \<exists>c. lookup s p = Some (NFile c) \<and> parent_error s p = None"
  using assms fs_symlink_metadata_effect [of p s]
  by (auto simp: path_is_file_def split: prod.splits sum.splits node.splits)

lemma path_exists_effect:
  assumes "path_exists p s = (b, s')"
  shows "nodes s' = nodes s" "frame s s'" "b \<Longrightarrow> lookup s p \<noteq> None"
  using assms fs_symlink_metadata_effect [of p s]
  by (auto simp: path_exists_def split: prod.splits sum.splits)

lemma fs_read_effect:
  assumes "fs_read p s = (r, s')"
  shows "nodes s' = nodes s" "frame s s'" "r = Inr b \<Longrightarrow> lookup s p = Some (NFile b)"
  using assms unfolding fs_read_def
  by (auto elim!: fs_prim_cases under_dirs_cases split: fs_splits)

lemma fs_mkdir_effect:
  assumes "fs_mkdir p s = (r, s')"
  shows "fs_ok s s'" "r = Inr () \<Longrightarrow> lookup s p = None \<and> lookup s' = (lookup s)(p \<mapsto> NDir)"
    "r = Inl e \<Longrightarrow> lookup s' = lookup s"
proof -
  have "fs_ok s s' \<and> (r = Inr () \<longrightarrow> lookup s p = None \<and> lookup s' = (lookup s)(p \<mapsto> NDir)) \<and>
    (r = Inl e \<longrightarrow> lookup s' = lookup s)"
    using assms unfolding fs_mkdir_def
    by (auto elim!: fs_prim_cases under_dirs_cases split: fs_splits simp: fs_ok_def fun_eq_iff intro!: fs_inv_put)
  then show "fs_ok s s'" "r = Inr () \<Longrightarrow> lookup s p = None \<and> lookup s' = (lookup s)(p \<mapsto> NDir)"
    "r = Inl e \<Longrightarrow> lookup s' = lookup s" by auto
qed

lemma fs_create_effect:
  assumes "fs_create p s = (r, s')"
  shows "fs_ok s s'"
    "r = Inr () \<Longrightarrow> lookup s p \<noteq> Some NDir \<and> parent_error s p = None \<and> lookup s' = (lookup s)(p \<mapsto> NFile [])"
    "r = Inl e \<Longrightarrow> lookup s' = lookup s"
proof -
  have "fs_ok s s' \<and>
    (r = Inr () \<longrightarrow> lookup s p \<noteq> Some NDir \<and> parent_error s p = None \<and> lookup s' = (lookup s)(p \<mapsto> NFile [])) \<and>
    (r = Inl e \<longrightarrow> lookup s' = lookup s)"
    using assms unfolding fs_create_def
    by (cases "p = []") (auto elim!: fs_prim_cases under_dirs_cases split: fs_splits
        simp: fs_ok_def fun_eq_iff intro!: fs_inv_put)
  then show "fs_ok s s'"
    "r = Inr () \<Longrightarrow> lookup s p \<noteq> Some NDir \<and> parent_error s p = None \<and> lookup s' = (lookup s)(p \<mapsto> NFile [])"
    "r = Inl e \<Longrightarrow> lookup s' = lookup s" by auto
qed

lemma fs_sync_effect:
  assumes "fs_sync s = (r, s')"
  shows "nodes s' = nodes s" "frame s s'"
  using assms unfolding fs_sync_def by (auto elim!: fs_prim_cases)

lemma fs_rename_effect:
  assumes "fs_rename p q s = (r, s')"
  shows "fs_ok s s'"
    "r = Inr () \<Longrightarrow> \<exists>n. lookup s p = Some n \<and> n \<noteq> NDir \<and> lookup s q \<noteq> Some NDir \<and>
       lookup s' = (lookup s)(p := None, q \<mapsto> n)"
    "r = Inl e \<Longrightarrow> lookup s' = lookup s"
proof -
  have "fs_ok s s' \<and> (r = Inr () \<longrightarrow> (\<exists>n. lookup s p = Some n \<and> n \<noteq> NDir \<and> lookup s q \<noteq> Some NDir \<and>
       lookup s' = (lookup s)(p := None, q \<mapsto> n))) \<and> (r = Inl e \<longrightarrow> lookup s' = lookup s)"
  proof -
    let ?s = "s\<lparr>op_count := Suc (op_count s)\<rparr>"
    have inv: "fs_inv s \<longrightarrow> fs_inv (put q n (del p ?s))"
      if "parent_error s q = None" "lookup s p \<noteq> Some NDir" "lookup s q \<noteq> Some NDir" for n
    proof
      assume "fs_inv s"
      have "parent_error (del p ?s) q = None"
        using that(1,2) by (auto simp: parent_error_None_iff)
      moreover have "q \<noteq> []" using that(3) by auto
      ultimately show "fs_inv (put q n (del p ?s))"
        using that \<open>fs_inv s\<close> by (intro fs_inv_put fs_inv_del) auto
    qed
    have ne: "x \<noteq> []" if "lookup s x \<noteq> Some NDir" for x using that by auto
    show ?thesis
      using assms unfolding fs_rename_def
      by (auto elim!: fs_prim_cases under_dirs_cases split: fs_splits simp: fs_ok_def fun_eq_iff inv ne)
  qed
  then show "fs_ok s s'"
    "r = Inr () \<Longrightarrow> \<exists>n. lookup s p = Some n \<and> n \<noteq> NDir \<and> lookup s q \<noteq> Some NDir \<and>
       lookup s' = (lookup s)(p := None, q \<mapsto> n)"
    "r = Inl e \<Longrightarrow> lookup s' = lookup s" by auto
qed

lemma fs_remove_file_effect:
  assumes "fs_remove_file p s = (r, s')"
  shows "fs_ok s s'" "r = Inr () \<Longrightarrow> lookup s p \<noteq> None \<and> lookup s p \<noteq> Some NDir \<and> lookup s' = (lookup s)(p := None)"
    "r = Inl e \<Longrightarrow> lookup s' = lookup s"
proof -
  have "fs_ok s s' \<and> (r = Inr () \<longrightarrow> lookup s p \<noteq> None \<and> lookup s p \<noteq> Some NDir \<and> lookup s' = (lookup s)(p := None)) \<and>
    (r = Inl e \<longrightarrow> lookup s' = lookup s)"
    using assms unfolding fs_remove_file_def
    by (cases "p = []") (auto elim!: fs_prim_cases under_dirs_cases split: fs_splits
        simp: fs_ok_def fun_eq_iff intro!: fs_inv_del)
  then show "fs_ok s s'" "r = Inr () \<Longrightarrow> lookup s p \<noteq> None \<and> lookup s p \<noteq> Some NDir \<and> lookup s' = (lookup s)(p := None)"
    "r = Inl e \<Longrightarrow> lookup s' = lookup s" by auto
qed

lemma fs_write_all_effect:
  assumes "fs_write_all p bs s = (r, s')" "p \<noteq> []"
  shows "frame s s'" "r = Inr () \<Longrightarrow> lookup s' = (lookup s)(p \<mapsto> NFile bs)"
    "\<exists>c. lookup s' = (lookup s)(p \<mapsto> NFile c)"
    "fs_inv s \<Longrightarrow> lookup s p = Some (NFile c) \<Longrightarrow> fs_inv s'"
  using assms
  by (auto simp: fs_write_all_def Let_def fun_eq_iff fs_inv_def [of s] split: option.splits intro!: fs_inv_put)

end
