(* ===== verification/Fs_Store.thy ===== *)
theory Fs_Store
  imports Fs_Model Frontmatter
begin

text \<open>
  The filesystem store (\<^verbatim>\<open>services/memory_rs/src/fs_store.rs\<close>) and the path resolution of
  \<^verbatim>\<open>path.rs\<close>: reading, atomic writing, removal, the multi-file move transaction with its staging,
  backup and roll-back phases, and the scan of the tree.
\<close>

section \<open>Path resolution\<close>

text \<open>\<^verbatim>\<open>MemoryError::from(io::Error)\<close> applied by \<^verbatim>\<open>?\<close>.\<close>

definition io_res :: "(io_error, 'a, 's) outcome \<Rightarrow> (memory_error, 'a, 's) outcome" where
  "io_res r = (case r of (Inl e, s) \<Rightarrow> (Inl (Io e), s) | (Inr x, s) \<Rightarrow> (Inr x, s))"

definition full_path_text :: "fsys \<Rightarrow> fpath \<Rightarrow> string" where
  "full_path_text s p = root_text s @ concat (map (\<lambda>c. CHR ''/'' # c) p)"

definition reject_symlink :: "fpath \<Rightarrow> fsys \<Rightarrow> (memory_error, unit, fsys) outcome" where
  "reject_symlink p s =
     (case fs_symlink_metadata p s of
        (Inr n, s') \<Rightarrow>
          (if n = NSymlink then
             (Inl (InvalidPath (full_path_text s p)
                (lit ''symlinks are not allowed inside the memory store'')), s')
           else (Inr (), s'))
      | (Inl e, s') \<Rightarrow> (if io_error_kind e = IoNotFound then (Inr (), s') else (Inl (Io e), s')))"

fun resolve_loop :: "fpath \<Rightarrow> bytes list \<Rightarrow> fsys \<Rightarrow> (memory_error, fpath, fsys) outcome" where
  "resolve_loop current [] s = (Inr current, s)"
| "resolve_loop current (c # cs) s =
     try_io (reject_symlink (current @ [c]) s) (\<lambda>_. resolve_loop (current @ [c]) cs)"

definition resolve_within :: "page_path \<Rightarrow> fsys \<Rightarrow> (memory_error, fpath, fsys) outcome" where
  "resolve_within p = resolve_loop [] (file_components p)"

section \<open>Store operations\<close>

definition LOCK_FILE_NAME :: string where "LOCK_FILE_NAME = ''.memory.lock''"

text \<open>The first half of \<^verbatim>\<open>with_lock\<close>: open (or create) the lock file and take the lock; and the
  release, whose result is ignored.\<close>

definition open_lock_file :: "unit fs_call" where
  "open_lock_file =
     fs_prim OpCreate (\<lambda>s.
       case lookup s [LOCK_FILE_NAME] of
         None \<Rightarrow> (Inr (), put [LOCK_FILE_NAME] (NFile []) s)
       | Some (NFile _) \<Rightarrow> (Inr (), s)
       | Some NDir \<Rightarrow> fs_fail IoIsADirectory s
       | Some _ \<Rightarrow> fs_fail IoOther s)"

definition fs_acquire_lock :: "fsys \<Rightarrow> (memory_error, unit, fsys) outcome" where
  "fs_acquire_lock s =
     try_io (io_res (open_lock_file s)) (\<lambda>_ s.
       case fs_prim OpLock (\<lambda>s. (Inr (), s)) s of
         (Inl e, s') \<Rightarrow> (Inl (Lock [Ext (io_error_text e)]), s')
       | (Inr _, s') \<Rightarrow> (Inr (), s'))"

definition fs_release_lock :: "fsys \<Rightarrow> fsys" where
  "fs_release_lock s = snd (fs_prim OpLock (\<lambda>s. (Inr (), s)) s)"

definition fs_read_bytes :: "deps \<Rightarrow> page_path \<Rightarrow> fsys \<Rightarrow> (memory_error, bytes \<times> revision, fsys) outcome" where
  "fs_read_bytes d path s =
     try_io (resolve_within path s) (\<lambda>full_path s.
       case fs_read full_path s of
         (Inr bs, s') \<Rightarrow> (Inr (bs, revision_of d bs), s')
       | (Inl e, s') \<Rightarrow>
           (if io_error_kind e = IoNotFound then (Inl (NotFound (as_str path)), s') else (Inl (Io e), s')))"

definition fs_exists :: "page_path \<Rightarrow> fsys \<Rightarrow> (memory_error, bool, fsys) outcome" where
  "fs_exists path s =
     try_io (resolve_within path s) (\<lambda>full_path s.
       case path_is_file full_path s of (b, s') \<Rightarrow> (Inr b, s'))"

text \<open>\<^verbatim>\<open>file_name().and_then(to_str).unwrap_or("page")\<close> and \<^verbatim>\<open>with_file_name\<close>.\<close>

definition file_name_text :: "fpath \<Rightarrow> string" where
  "file_name_text p = (if p \<noteq> [] \<and> is_utf8 (last p) then last p else ''page'')"

definition with_file_name :: "fpath \<Rightarrow> string \<Rightarrow> fpath" where
  "with_file_name p name = butlast p @ [name]"

definition temp_path_for :: "fpath \<Rightarrow> fsys \<Rightarrow> fpath \<times> fsys" where
  "temp_path_for destination s =
     (let counter = temp_file_counter s;
          temp_name = ''.'' @ file_name_text destination @ ''.tmp-'' @ show_nat (process_id s) @ ''-'' @ show_nat (unat counter)
      in (with_file_name destination temp_name, s\<lparr>temp_file_counter := counter + 1\<rparr>))"

definition transaction_path_for :: "fsys \<Rightarrow> fpath \<Rightarrow> string \<Rightarrow> 64 word \<Rightarrow> fpath" where
  "transaction_path_for s destination marker transaction_id =
     with_file_name destination
       (''.'' @ file_name_text destination @ ''.'' @ marker @ ''-'' @ show_nat (process_id s) @ ''-'' @ show_nat (unat transaction_id))"

text \<open>The closure that creates, fills and syncs a file, with the removal of the file when it fails.\<close>

definition write_new_file :: "fpath \<Rightarrow> bytes \<Rightarrow> fsys \<Rightarrow> (memory_error, unit, fsys) outcome" where
  "write_new_file p bs s =
     (case try_io (fs_create p s) (\<lambda>_ s. try_io (fs_write_all p bs s) (\<lambda>_. fs_sync)) of
        (Inr _, s') \<Rightarrow> (Inr (), s')
      | (Inl e, s') \<Rightarrow> (Inl (Io e), snd (fs_remove_file p s')))"

definition write_atomically :: "fpath \<Rightarrow> fpath \<Rightarrow> bytes \<Rightarrow> fsys \<Rightarrow> (memory_error, unit, fsys) outcome" where
  "write_atomically temp_path destination bs s =
     try_io (write_new_file temp_path bs s) (\<lambda>_ s.
       case fs_rename temp_path destination s of
         (Inr _, s') \<Rightarrow> (Inr (), s')
       | (Inl e, s') \<Rightarrow> (Inl (Io e), snd (fs_remove_file temp_path s')))"

definition fs_write_bytes :: "deps \<Rightarrow> page_path \<Rightarrow> bytes \<Rightarrow> fsys \<Rightarrow> (memory_error, revision, fsys) outcome" where
  "fs_write_bytes d path bs s =
     try_io (resolve_within path s) (\<lambda>full_path s.
     try_io (io_res (fs_create_dir_all (butlast full_path) s)) (\<lambda>_ s.
     case temp_path_for full_path s of
       (temp_path, s) \<Rightarrow>
         try_io (write_atomically temp_path full_path bs s) (\<lambda>_ s. (Inr (revision_of d bs), s))))"

definition fs_remove_page :: "page_path \<Rightarrow> fsys \<Rightarrow> (memory_error, unit, fsys) outcome" where
  "fs_remove_page path s =
     try_io (resolve_within path s) (\<lambda>full_path s.
       case fs_remove_file full_path s of
         (Inr _, s') \<Rightarrow> (Inr (), s')
       | (Inl e, s') \<Rightarrow>
           (if io_error_kind e = IoNotFound then (Inl (NotFound (as_str path)), s') else (Inl (Io e), s')))"

subsection \<open>The move transaction\<close>

type_synonym renames = "(fpath \<times> fpath) list"

definition stage_change ::
  "fpath \<Rightarrow> bytes \<Rightarrow> 64 word \<Rightarrow> renames \<Rightarrow> fsys \<Rightarrow> (memory_error, renames, fsys) outcome" where
  "stage_change destination bs transaction_id staged s =
     try_io (io_res (fs_create_dir_all (butlast destination) s)) (\<lambda>_ s.
       let temporary = transaction_path_for s destination ''stage'' transaction_id in
       try_io (write_new_file temporary bs s) (\<lambda>_ s. (Inr (staged @ [(temporary, destination)]), s)))"

definition backup_file :: "fpath \<Rightarrow> 64 word \<Rightarrow> renames \<Rightarrow> fsys \<Rightarrow> (memory_error, renames, fsys) outcome" where
  "backup_file original transaction_id backups s =
     (let backup = transaction_path_for s original ''backup'' transaction_id in
      try_io (io_res (fs_rename original backup s)) (\<lambda>_ s. (Inr (backups @ [(backup, original)]), s)))"

fun cleanup_staged :: "renames \<Rightarrow> fsys \<Rightarrow> fsys" where
  "cleanup_staged [] s = s"
| "cleanup_staged ((temporary, _) # staged) s = cleanup_staged staged (snd (fs_remove_file temporary s))"

fun rename_all :: "renames \<Rightarrow> fsys \<Rightarrow> fsys" where
  "rename_all [] s = s"
| "rename_all ((p, q) # rest) s = rename_all rest (snd (fs_rename p q s))"

definition restore_backups :: "renames \<Rightarrow> fsys \<Rightarrow> fsys" where
  "restore_backups backups = rename_all (rev backups)"

fun remove_all_files :: "fpath list \<Rightarrow> fsys \<Rightarrow> fsys" where
  "remove_all_files [] s = s"
| "remove_all_files (p # ps) s = remove_all_files ps (snd (fs_remove_file p s))"

definition remove_installed :: "fpath list \<Rightarrow> fsys \<Rightarrow> fsys" where
  "remove_installed installed = remove_all_files (rev installed)"

text \<open>The loops of \<^verbatim>\<open>commit_move\<close>: validating the replacement paths, staging, backing up,
  installing.\<close>

fun check_replacements ::
  "page_path \<Rightarrow> page_path \<Rightarrow> (page_path \<times> bytes) list \<Rightarrow> page_path list \<Rightarrow> fsys
    \<Rightarrow> (memory_error, unit, fsys) outcome" where
  "check_replacements source destination [] unique_paths s = (Inr (), s)"
| "check_replacements source destination ((path, _) # rest) unique_paths s =
     (if path = source \<or> path = destination \<or> path \<in> set unique_paths then
        (Inl (InvalidPath (as_str path)
           (lit ''move transaction contains a duplicate or reserved replacement path'')), s)
      else
        try_io (resolve_within path s) (\<lambda>full_path s.
          case path_is_file full_path s of
            (False, s') \<Rightarrow> (Inl (NotFound (as_str path)), s')
          | (True, s') \<Rightarrow> check_replacements source destination rest (path # unique_paths) s'))"

fun stage_replacements ::
  "(page_path \<times> bytes) list \<Rightarrow> 64 word \<Rightarrow> renames \<Rightarrow> fsys \<Rightarrow> (memory_error, renames, fsys) outcome" where
  "stage_replacements [] transaction_id staged s = (Inr staged, s)"
| "stage_replacements ((path, bs) # rest) transaction_id staged s =
     try_io (resolve_within path s) (\<lambda>full_path s.
       case stage_change full_path bs transaction_id staged s of
         (Inl e, s') \<Rightarrow> (Inl e, cleanup_staged staged s')
       | (Inr staged', s') \<Rightarrow> stage_replacements rest transaction_id staged' s')"

fun backup_replacements ::
  "(page_path \<times> bytes) list \<Rightarrow> 64 word \<Rightarrow> renames \<Rightarrow> renames \<Rightarrow> fsys \<Rightarrow> (memory_error, renames, fsys) outcome" where
  "backup_replacements [] transaction_id staged backups s = (Inr backups, s)"
| "backup_replacements ((path, _) # rest) transaction_id staged backups s =
     try_io (resolve_within path s) (\<lambda>full_path s.
       case backup_file full_path transaction_id backups s of
         (Inl e, s') \<Rightarrow> (Inl e, cleanup_staged staged (restore_backups backups s'))
       | (Inr backups', s') \<Rightarrow> backup_replacements rest transaction_id staged backups' s')"

fun install_staged ::
  "renames \<Rightarrow> renames \<Rightarrow> renames \<Rightarrow> fpath list \<Rightarrow> fsys \<Rightarrow> (memory_error, unit, fsys) outcome" where
  "install_staged [] staged backups installed s = (Inr (), s)"
| "install_staged ((temporary, destination) # rest) staged backups installed s =
     (case fs_rename temporary destination s of
        (Inl e, s') \<Rightarrow>
          (Inl (Io e), cleanup_staged staged (restore_backups backups (remove_installed installed s')))
      | (Inr _, s') \<Rightarrow> install_staged rest staged backups (installed @ [destination]) s')"

text \<open>\<^verbatim>\<open>commit_move\<close> from the first staged file on.\<close>

definition run_transaction ::
  "fpath \<Rightarrow> fpath \<Rightarrow> bytes \<Rightarrow> (page_path \<times> bytes) list \<Rightarrow> 64 word \<Rightarrow> fsys \<Rightarrow> (memory_error, unit, fsys) outcome" where
  "run_transaction source_full destination_full destination_bytes replacements transaction_id s =
     try_io (stage_change destination_full destination_bytes transaction_id [] s) (\<lambda>staged s.
     try_io (stage_replacements replacements transaction_id staged s) (\<lambda>staged s.
     case backup_file source_full transaction_id [] s of
       (Inl e, s) \<Rightarrow> (Inl e, cleanup_staged staged s)
     | (Inr backups, s) \<Rightarrow>
     try_io (backup_replacements replacements transaction_id staged backups s) (\<lambda>backups s.
     try_io (install_staged staged staged backups [] s) (\<lambda>_ s.
     (Inr (), cleanup_staged backups s)))))"

definition fs_commit_move ::
  "page_path \<Rightarrow> page_path \<Rightarrow> bytes \<Rightarrow> (page_path \<times> bytes) list \<Rightarrow> fsys \<Rightarrow> (memory_error, unit, fsys) outcome" where
  "fs_commit_move source destination destination_bytes replacements s =
     try_io (resolve_within source s) (\<lambda>source_full s.
     try_io (resolve_within destination s) (\<lambda>destination_full s.
     case path_is_file source_full s of
       (False, s) \<Rightarrow> (Inl (NotFound (as_str source)), s)
     | (True, s) \<Rightarrow>
     (case path_exists destination_full s of
       (True, s) \<Rightarrow> (Inl (AlreadyExists (as_str destination)), s)
     | (False, s) \<Rightarrow>
     try_io (check_replacements source destination replacements [] s) (\<lambda>_ s.
     let transaction_id = temp_file_counter s in
     run_transaction source_full destination_full destination_bytes replacements transaction_id
       (s\<lparr>temp_file_counter := transaction_id + 1\<rparr>)))))"

subsection \<open>The scan\<close>

record scanned_file =
  relative_path :: string
  parsed :: "page_path option"

text \<open>\<^verbatim>\<open>Path::extension\<close> is \<^verbatim>\<open>md\<close>: the name ends in \<^verbatim>\<open>.md\<close> and has something before it.\<close>

definition has_md_extension :: "bytes \<Rightarrow> bool" where
  "has_md_extension name \<longleftrightarrow> suffix ''.md'' name \<and> length name > 3"

definition scan_entry :: "fpath \<Rightarrow> scanned_file" where
  "scan_entry p =
     (let rp = relative_to_logical p in \<lparr>relative_path = rp, parsed = ok_opt (page_path_parse rp)\<rparr>)"

text \<open>The recursion of \<^verbatim>\<open>walk\<close> descends one directory level per call; \<open>fuel\<close> bounds the depth.\<close>

fun walk :: "nat \<Rightarrow> fpath \<Rightarrow> scanned_file list \<Rightarrow> fsys \<Rightarrow> (memory_error, scanned_file list, fsys) outcome"
  and walk_entries :: "nat \<Rightarrow> fpath \<Rightarrow> (bytes \<times> node) list \<Rightarrow> scanned_file list \<Rightarrow> fsys
    \<Rightarrow> (memory_error, scanned_file list, fsys) outcome" where
  "walk 0 dir out s = (Inr out, s)"
| "walk (Suc fuel) dir out s =
     (case fs_read_dir dir s of
        (Inl e, s') \<Rightarrow> (if io_error_kind e = IoNotFound then (Inr out, s') else (Inl (Io e), s'))
      | (Inr entries, s') \<Rightarrow> walk_entries fuel dir entries out s')"
| "walk_entries fuel dir [] out s = (Inr out, s)"
| "walk_entries fuel dir ((name, file_type) # entries) out s =
     try_io (io_res (fs_prim OpEntry (\<lambda>s. (Inr (), s)) s)) (\<lambda>_ s.
     try_io (io_res (fs_prim OpEntry (\<lambda>s. (Inr (), s)) s)) (\<lambda>_ s.
       case file_type of
         NSymlink \<Rightarrow> walk_entries fuel dir entries out s
       | NDir \<Rightarrow> try_io (walk fuel (dir @ [name]) out s) (\<lambda>out s. walk_entries fuel dir entries out s)
       | NOther \<Rightarrow> walk_entries fuel dir entries out s
       | NFile _ \<Rightarrow>
           (if \<not> has_md_extension name then walk_entries fuel dir entries out s
            else walk_entries fuel dir entries (out @ [scan_entry (dir @ [name])]) s)))"

definition tree_depth :: "fsys \<Rightarrow> nat" where
  "tree_depth s = foldr (\<lambda>(p, _) n. max (length p) n) (nodes s) 0"

definition fs_scan :: "fsys \<Rightarrow> (memory_error, scanned_file list, fsys) outcome" where
  "fs_scan s =
     try_io (walk (Suc (tree_depth s)) [] [] s) (\<lambda>results s. (Inr (sort_key relative_path results), s))"

definition fs_list_pages :: "fsys \<Rightarrow> (memory_error, page_path list, fsys) outcome" where
  "fs_list_pages s =
     try_io (fs_scan s) (\<lambda>entries s. (Inr (sort (List.map_filter parsed entries)), s))"

section \<open>Path resolution is confined\<close>

text \<open>A schedule is honest when no injected fault pretends that a file is missing.\<close>

definition honest :: "fsys \<Rightarrow> bool" where
  "honest s \<longleftrightarrow> (\<forall>op n f. faults s op n = Some f \<longrightarrow> io_error_kind (fault_error f) \<noteq> IoNotFound)"

lemma honest_frame: "frame s s' \<Longrightarrow> honest s' = honest s"
  by (simp add: honest_def frame_def)

lemma io_res_eq [simp]:
  "io_res r = (Inr x, s) \<longleftrightarrow> r = (Inr x, s)"
  "io_res r = (Inl e', s) \<longleftrightarrow> (\<exists>e. e' = Io e \<and> r = (Inl e, s))"
  by (auto simp: io_res_def split: prod.splits sum.splits)

lemma reject_symlink_effect:
  assumes "reject_symlink p s = (r, s')"
  shows "nodes s' = nodes s" "frame s s'"
  using assms fs_symlink_metadata_effect [of p s]
  by (auto simp: reject_symlink_def split: prod.splits sum.splits if_splits)

lemma reject_symlink_no_link:
  assumes "reject_symlink p s = (Inr u, s')" "fs_inv s" "honest s"
  shows "lookup s p \<noteq> Some NSymlink"
proof
  assume link: "lookup s p = Some NSymlink"
  then have "parent_error s p = None" using assms(2) by (simp add: fs_inv_def)
  then show False
    using assms(1,3) link
    by (auto simp: reject_symlink_def fs_symlink_metadata_def fs_prim_def under_dirs_def honest_def Let_def
        split: option.splits if_splits)
qed

lemma resolve_loop_effect:
  "resolve_loop cur cs s = (r, s') \<Longrightarrow> nodes s' = nodes s \<and> frame s s' \<and> (\<forall>f. r = Inr f \<longrightarrow> f = cur @ cs)"
proof (induction cs arbitrary: cur s)
  case (Cons c cs)
  show ?case
  proof (cases "reject_symlink (cur @ [c]) s")
    case (Pair r1 s1)
    note e = reject_symlink_effect [OF Pair]
    show ?thesis
    proof (cases r1)
      case (Inl a)
      then show ?thesis using Cons.prems Pair e by auto
    next
      case (Inr a)
      then have "resolve_loop (cur @ [c]) cs s1 = (r, s')" using Cons.prems Pair by simp
      from Cons.IH [OF this] e show ?thesis by (auto intro: frame_trans)
    qed
  qed
qed auto

lemma resolve_within_effect:
  assumes "resolve_within p s = (r, s')"
  shows "nodes s' = nodes s" "frame s s'" "r = Inr f \<Longrightarrow> f = file_components p"
  using resolve_loop_effect [of "[]" "file_components p" s r s'] assms by (auto simp: resolve_within_def)

lemma resolve_loop_no_link:
  assumes "resolve_loop cur cs s = (Inr f, s')" "fs_inv s" "honest s" "prefix q cs" "q \<noteq> []"
  shows "lookup s (cur @ q) \<noteq> Some NSymlink"
  using assms
proof (induction cs arbitrary: cur s q)
  case (Cons c cs)
  then obtain s1 where r1: "reject_symlink (cur @ [c]) s = (Inr (), s1)"
    and r2: "resolve_loop (cur @ [c]) cs s1 = (Inr f, s')"
    by (auto simp: try_io_Inr_iff)
  note e = reject_symlink_effect [OF r1]
  have l: "lookup s1 = lookup s" using e(1) by (rule lookup_nodes)
  have ok: "fs_inv s1" "honest s1"
    using Cons.prems(2,3) e fs_ok_nodes [OF e] honest_frame [OF e(2)] by (auto simp: fs_ok_def)
  obtain q' where q: "q = c # q'" "prefix q' cs" using Cons.prems(4,5) by (cases q) auto
  show ?case
  proof (cases "q' = []")
    case True
    then show ?thesis using reject_symlink_no_link [OF r1] Cons.prems q by simp
  next
    case False
    with Cons.IH [OF r2 ok q(2)] show ?thesis by (simp add: q l)
  qed
qed auto

section \<open>What the store operations change\<close>

text \<open>The files with a Markdown extension; every page file is one and no temporary file is.\<close>

definition md_path :: "fpath \<Rightarrow> bool" where
  "md_path q \<longleftrightarrow> q \<noteq> [] \<and> suffix ''.md'' (last q)"

definition file_of :: "node option \<Rightarrow> bytes option" where
  "file_of n = (case n of Some (NFile b) \<Rightarrow> Some b | _ \<Rightarrow> None)"

definition md_view :: "fsys \<Rightarrow> fpath \<Rightarrow> bytes option" where
  "md_view s q = (if md_path q then file_of (lookup s q) else None)"

text \<open>The abstract state of the store: the bytes of every page.\<close>

definition pages :: "fsys \<Rightarrow> page_path \<rightharpoonup> bytes" where
  "pages s p = (if wf_page_path p then md_view s (file_components p) else None)"

lemma file_of_simps [simp]:
  "file_of None = None" "file_of (Some (NFile b)) = Some b" "file_of (Some NDir) = None"
  "file_of (Some NSymlink) = None" "file_of (Some NOther) = None"
  by (simp_all add: file_of_def)

lemma file_of_Some_iff [simp]: "file_of n = Some b \<longleftrightarrow> n = Some (NFile b)"
  by (auto simp: file_of_def split: option.splits node.splits)

lemma md_path_file_components [simp]: "md_path (file_components p)"
  by (simp add: md_path_def file_components_def suffix_def)

lemma file_components_not_Nil [simp]: "file_components p \<noteq> []"
  by (simp add: file_components_def)

lemma show_nat_not_Nil [simp]: "show_nat n \<noteq> []"
  by (subst show_nat.simps) simp

lemma last_show_nat: "last (show_nat n) = digit_char (n mod 10)"
  by (subst show_nat.simps) simp

lemma digit_char_not_d: "k < 10 \<Longrightarrow> digit_char k \<noteq> CHR ''d''"
proof
  assume "k < 10" "digit_char k = CHR ''d''"
  then have "(of_char (digit_char k) :: nat) = of_char (CHR ''d'')" by simp
  then have "(48 + k) mod 256 = 100" by (simp add: digit_char_def)
  with \<open>k < 10\<close> show False by simp
qed

lemma not_md_numbered [simp]: "\<not> md_path (ds @ [xs @ show_nat n])"
proof
  assume "md_path (ds @ [xs @ show_nat n])"
  then obtain w where "xs @ show_nat n = w @ ''.md''" by (auto simp: md_path_def suffix_def)
  then have "last (xs @ show_nat n) = last (w @ ''.md'')" by (rule arg_cong)
  then have "last (show_nat n) = CHR ''d''" by simp
  with digit_char_not_d [of "n mod 10"] show False by (simp add: last_show_nat)
qed

lemma temp_path_not_md:
  "temp_path_for p s = (t, s') \<Longrightarrow> \<not> md_path t \<and> t \<noteq> []"
  "\<not> md_path (transaction_path_for s p m k)" "transaction_path_for s p m k \<noteq> []"
  using not_md_numbered [of "butlast p" "''.'' @ file_name_text p @ ''.tmp-'' @ show_nat (process_id s) @ ''-''" "unat (temp_file_counter s)"]
    not_md_numbered [of "butlast p" "''.'' @ file_name_text p @ ''.'' @ m @ ''-'' @ show_nat (process_id s) @ ''-''" "unat k"]
  by (auto simp: temp_path_for_def transaction_path_for_def with_file_name_def Let_def)

lemma md_view_nodes: "nodes s' = nodes s \<Longrightarrow> md_view s' = md_view s"
  by (drule lookup_nodes) (simp add: md_view_def fun_eq_iff)

lemma md_view_upd:
  "lookup s' = (lookup s)(q := n) \<Longrightarrow> md_path q \<Longrightarrow> md_view s' = (md_view s)(q := file_of n)"
  "lookup s' = (lookup s)(q := n) \<Longrightarrow> \<not> md_path q \<Longrightarrow> md_view s' = md_view s"
  by (auto simp: md_view_def fun_eq_iff)

lemma md_view_lookup: "lookup s' = lookup s \<Longrightarrow> md_view s' = md_view s"
  by (auto simp: md_view_def fun_eq_iff)

lemma pages_md_view: "md_view s' = md_view s \<Longrightarrow> pages s' = pages s"
  by (auto simp: pages_def fun_eq_iff)

lemma pages_upd:
  assumes "md_view s' = (md_view s)(file_components p := v)" "wf_page_path p"
  shows "pages s' = (pages s)(p := v)"
  using assms file_components_inj [of _ p] by (auto simp: pages_def fun_eq_iff)

lemma fs_ok_frame: "fs_ok s s' \<Longrightarrow> frame s s'"
  by (simp add: fs_ok_def)

lemma mkdir_from_effect:
  "mkdir_from base cs s = (r, s') \<Longrightarrow> fs_ok s s' \<and> md_view s' = md_view s \<and>
     (\<forall>q n. lookup s q = Some n \<longrightarrow> lookup s' q = Some n)"
proof (induction cs arbitrary: base s)
  case (Cons c cs)
  show ?case
  proof (cases "lookup s (base @ [c]) = Some NDir")
    case True
    then show ?thesis using Cons by simp
  next
    case False
    obtain r1 s1 where m: "fs_mkdir (base @ [c]) s = (r1, s1)" by force
    note e = fs_mkdir_effect [OF m]
    show ?thesis
    proof (cases r1)
      case (Inl err)
      then have "lookup s1 = lookup s" "s' = s1" using e(3) False Cons.prems m by auto
      then show ?thesis using e(1) md_view_lookup [of s1 s] by auto
    next
      case (Inr u)
      then have l: "lookup s (base @ [c]) = None" "lookup s1 = (lookup s)(base @ [c] \<mapsto> NDir)" using e(2) by auto
      have v: "md_view s1 = md_view s"
        using l by (auto simp: md_view_def fun_eq_iff)
      have "mkdir_from (base @ [c]) cs s1 = (r, s')" using False Cons.prems m Inr by simp
      note ih = Cons.IH [OF this]
      have "lookup s' q = Some n" if "lookup s q = Some n" for q n
      proof -
        have "lookup s1 q = Some n" using that l by auto
        with ih show ?thesis by blast
      qed
      with ih v e(1) show ?thesis by (auto intro: fs_ok_trans)
    qed
  qed
qed auto

lemma remove_file_snd:
  "fs_ok t (snd (fs_remove_file p t))"
  "q \<noteq> p \<Longrightarrow> lookup (snd (fs_remove_file p t)) q = lookup t q"
proof -
  obtain r u where rm: "fs_remove_file p t = (r, u)" by force
  note e = fs_remove_file_effect [OF rm]
  show "fs_ok t (snd (fs_remove_file p t))" using e(1) rm by simp
  show "lookup (snd (fs_remove_file p t)) q = lookup t q" if "q \<noteq> p"
    using e(2,3) that rm by (cases r) auto
qed

lemma md_view_remove_file: "\<not> md_path p \<Longrightarrow> md_view (snd (fs_remove_file p t)) = md_view t"
proof
  fix q
  assume "\<not> md_path p"
  then show "md_view (snd (fs_remove_file p t)) q = md_view t q"
    by (cases "q = p") (simp_all add: md_view_def remove_file_snd(2))
qed

lemma write_new_file_effect:
  assumes "write_new_file p bs s = (r, s')" "\<not> md_path p" "p \<noteq> []"
  shows "fs_ok s s'" "md_view s' = md_view s"
    "r = Inr () \<Longrightarrow> lookup s p \<noteq> Some NDir \<and> parent_error s p = None \<and> lookup s' = (lookup s)(p \<mapsto> NFile bs)"
    "r = Inl e \<Longrightarrow> \<forall>q. q \<noteq> p \<longrightarrow> lookup s' q = lookup s q"
proof -
  obtain r1 s1 where c: "fs_create p s = (r1, s1)" by force
  note e1 = fs_create_effect [OF c]
  obtain r2 s2 where w: "fs_write_all p bs s1 = (r2, s2)" by force
  note e2 = fs_write_all_effect [OF w assms(3)]
  obtain r3 s3 where y: "fs_sync s2 = (r3, s3)" by force
  note e3 = fs_sync_effect [OF y]
  have rm: "fs_ok t (snd (fs_remove_file p t)) \<and> (\<forall>q. q \<noteq> p \<longrightarrow> lookup (snd (fs_remove_file p t)) q = lookup t q)" for t
    using remove_file_snd(1) [of t p] remove_file_snd(2) [of _ p t] by blast
  have same: "\<And>u. (\<forall>q. q \<noteq> p \<longrightarrow> lookup u q = lookup s q) \<Longrightarrow> md_view u = md_view s"
    using assms(2) by (auto simp: md_view_def fun_eq_iff)
  have ok12: "fs_ok s s2" if "r1 = Inr ()"
    using e1(1) e1(2) [OF that] e2(1) e2(4) by (auto simp: fs_ok_def intro: frame_trans)
  have ok3: "fs_ok s2 s3" using e3 fs_ok_nodes by blast
  have l3: "lookup s3 = lookup s2" using e3(1) by (rule lookup_nodes)
  have l2: "\<forall>q. q \<noteq> p \<longrightarrow> lookup s2 q = lookup s q" if "r1 = Inr ()"
    using e1(2) [OF that] e2(3) by auto
  have "fs_ok s s' \<and> (r = Inr () \<longrightarrow> lookup s p \<noteq> Some NDir \<and> parent_error s p = None \<and> lookup s' = (lookup s)(p \<mapsto> NFile bs)) \<and>
      (\<forall>q. q \<noteq> p \<longrightarrow> lookup s' q = lookup s q)"
  proof (cases r1)
    case (Inl a)
    then have "r = Inl (Io a)" "s' = snd (fs_remove_file p s1)" using assms(1) c by (auto simp: write_new_file_def)
    moreover have "lookup s1 = lookup s" using e1(3) Inl by simp
    ultimately show ?thesis using rm [of s1] e1(1) by (auto intro: fs_ok_trans)
  next
    case r1: (Inr u)
    note ok = ok12 [simplified r1, simplified] and l2 = l2 [simplified r1, simplified]
    show ?thesis
    proof (cases r2)
      case (Inl a)
      then have "r = Inl (Io a)" "s' = snd (fs_remove_file p s2)"
        using assms(1) c w r1 by (auto simp: write_new_file_def)
      then show ?thesis using rm [of s2] ok l2 by (auto intro: fs_ok_trans)
    next
      case r2: (Inr u2)
      show ?thesis
      proof (cases r3)
        case (Inl a)
        then have "r = Inl (Io a)" "s' = snd (fs_remove_file p s3)"
          using assms(1) c w y r1 r2 by (auto simp: write_new_file_def)
        then show ?thesis using rm [of s3] ok ok3 l2 l3 by (auto intro: fs_ok_trans)
      next
        case (Inr u3)
        then have "r = Inr () \<and> s' = s3" using assms(1) by (simp add: write_new_file_def c w y r1 r2)
        then have "r = Inr ()" "s' = s3" by blast+
        moreover have "lookup s' = (lookup s)(p \<mapsto> NFile bs)"
          using e1(2) e2(2) r1 r2 by (simp add: \<open>s' = s3\<close> l3)
        ultimately show ?thesis using fs_ok_trans [OF ok ok3] e1(2) r1 by simp
      qed
    qed
  qed
  then show "fs_ok s s'" "md_view s' = md_view s"
    "r = Inr () \<Longrightarrow> lookup s p \<noteq> Some NDir \<and> parent_error s p = None \<and> lookup s' = (lookup s)(p \<mapsto> NFile bs)"
    "r = Inl e \<Longrightarrow> \<forall>q. q \<noteq> p \<longrightarrow> lookup s' q = lookup s q"
    using same [of s'] by blast+
qed

lemma write_atomically_effect:
  assumes "write_atomically t f bs s = (r, s')" "\<not> md_path t" "t \<noteq> []" "md_path f"
  shows "fs_ok s s'" "md_view s' = (case r of Inr _ \<Rightarrow> (md_view s)(f \<mapsto> bs) | Inl _ \<Rightarrow> md_view s)"
proof -
  obtain r1 s1 where w: "write_new_file t bs s = (r1, s1)" by force
  note e1 = write_new_file_effect [OF w assms(2,3)]
  have rm: "fs_ok u (snd (fs_remove_file t u)) \<and> md_view (snd (fs_remove_file t u)) = md_view u" for u
    using remove_file_snd(1) [of u t] md_view_remove_file [OF assms(2)] by blast
  obtain r2 s2 where n: "fs_rename t f s1 = (r2, s2)" by force
  note e2 = fs_rename_effect [OF n]
  have "fs_ok s s' \<and> md_view s' = (case r of Inr _ \<Rightarrow> (md_view s)(f \<mapsto> bs) | Inl _ \<Rightarrow> md_view s)"
  proof (cases r1)
    case (Inl a)
    then show ?thesis using assms(1) w e1 by (auto simp: write_atomically_def)
  next
    case r1: (Inr u)
    show ?thesis
    proof (cases r2)
      case (Inl a)
      then have "r = Inl (Io a)" "s' = snd (fs_remove_file t s2)" "md_view s2 = md_view s1"
        using assms(1) w n r1 e2(3) md_view_lookup [of s2 s1] by (auto simp: write_atomically_def)
      moreover have "fs_ok s (snd (fs_remove_file t s2))"
        using e1(1) e2(1) rm [of s2] by (blast intro: fs_ok_trans)
      ultimately show ?thesis using rm [of s2] e1(2) by simp
    next
      case (Inr u2)
      then have "r = Inr () \<and> s' = s2" using assms(1) by (simp add: write_atomically_def w n r1)
      then have r: "r = Inr ()" "s' = s2" by blast+
      obtain n' where n': "lookup s1 t = Some n'" "lookup s2 = (lookup s1)(t := None, f \<mapsto> n')"
        using e2(2) Inr by auto
      have "lookup s1 t = Some (NFile bs)" using e1(3) r1 by simp
      with n' have l: "lookup s2 = (lookup s1)(t := None, f \<mapsto> NFile bs)" by simp
      have "md_view s2 = (md_view s1)(f \<mapsto> bs)"
        using l assms(2,4) by (auto simp: md_view_def fun_eq_iff)
      then show ?thesis using r e1(2) fs_ok_trans [OF e1(1) e2(1)] by simp
    qed
  qed
  then show "fs_ok s s'" "md_view s' = (case r of Inr _ \<Rightarrow> (md_view s)(f \<mapsto> bs) | Inl _ \<Rightarrow> md_view s)" by auto
qed

lemma fs_inv_nodes: "nodes s' = nodes s \<Longrightarrow> fs_inv s' = fs_inv s"
  unfolding fs_inv_def using parent_error_lookup [OF lookup_nodes] lookup_nodes by metis

lemma temp_path_for_effect:
  assumes "temp_path_for p s = (t, s')"
  shows "lookup s' = lookup s" "md_view s' = md_view s" "faults s' = faults s" "fs_inv s' = fs_inv s"
    "op_count s' = op_count s"
proof -
  have n: "nodes s' = nodes s" "faults s' = faults s" "op_count s' = op_count s"
    using assms by (auto simp: temp_path_for_def Let_def)
  show "lookup s' = lookup s" "md_view s' = md_view s" "faults s' = faults s" "op_count s' = op_count s"
    using n lookup_nodes md_view_nodes by blast+
  show "fs_inv s' = fs_inv s" using n(1) by (rule fs_inv_nodes)
qed

text \<open>The contract every store operation keeps: the tree invariant, and the fault schedule.\<close>

definition store_ok :: "fsys \<Rightarrow> fsys \<Rightarrow> bool" where
  "store_ok s s' \<longleftrightarrow> faults s' = faults s \<and> (fs_inv s \<longrightarrow> fs_inv s')"

lemma store_ok_refl [simp, intro]: "store_ok s s"
  by (simp add: store_ok_def)

lemma store_ok_trans [trans]: "store_ok s t \<Longrightarrow> store_ok t u \<Longrightarrow> store_ok s u"
  by (simp add: store_ok_def)

lemma store_ok_fs: "fs_ok s s' \<Longrightarrow> store_ok s s'"
  by (simp add: store_ok_def fs_ok_def frame_def)

lemma store_ok_nodes: "nodes s' = nodes s \<Longrightarrow> frame s s' \<Longrightarrow> store_ok s s'"
  by (blast intro: store_ok_fs fs_ok_nodes)

lemma resolve_within_ok:
  assumes "resolve_within p s = (r, s')"
  shows "store_ok s s'" "md_view s' = md_view s" "lookup s' = lookup s"
  using resolve_within_effect(1,2) [OF assms] store_ok_nodes md_view_nodes lookup_nodes by blast+

lemma fs_read_bytes_effect:
  assumes "fs_read_bytes d p s = (r, s')"
  shows "nodes s' = nodes s" "frame s s'"
    "r = Inr (bs, rv) \<Longrightarrow> rv = revision_of d bs \<and> md_view s (file_components p) = Some bs"
proof -
  obtain r1 s1 where w: "resolve_within p s = (r1, s1)" by force
  note e1 = resolve_within_effect [OF w]
  have "nodes s' = nodes s \<and> frame s s' \<and>
    (r = Inr (bs, rv) \<longrightarrow> rv = revision_of d bs \<and> md_view s (file_components p) = Some bs)"
  proof (cases r1)
    case (Inl a)
    then show ?thesis using assms w e1 by (auto simp: fs_read_bytes_def)
  next
    case (Inr f)
    obtain r2 s2 where rd: "fs_read f s1 = (r2, s2)" by force
    note e2 = fs_read_effect [OF rd]
    have f: "f = file_components p" using e1(3) Inr by simp
    have s': "s' = s2" using assms w Inr rd by (auto simp: fs_read_bytes_def split: sum.splits if_splits)
    have "rv = revision_of d bs \<and> r2 = Inr bs" if "r = Inr (bs, rv)"
      using assms w Inr rd that by (auto simp: fs_read_bytes_def split: sum.splits if_splits)
    then show ?thesis
      using e1(1,2) e2 s' lookup_nodes [OF e1(1)] by (auto simp: f md_view_def intro: frame_trans)
  qed
  then show "nodes s' = nodes s" "frame s s'"
    "r = Inr (bs, rv) \<Longrightarrow> rv = revision_of d bs \<and> md_view s (file_components p) = Some bs" by auto
qed

lemma fs_exists_effect:
  assumes "fs_exists p s = (r, s')"
  shows "nodes s' = nodes s" "frame s s'" "r = Inr True \<Longrightarrow> md_view s (file_components p) \<noteq> None"
proof -
  obtain r1 s1 where w: "resolve_within p s = (r1, s1)" by force
  note e1 = resolve_within_effect [OF w]
  have "nodes s' = nodes s \<and> frame s s' \<and> (r = Inr True \<longrightarrow> md_view s (file_components p) \<noteq> None)"
  proof (cases r1)
    case (Inl a)
    then show ?thesis using assms w e1 by (auto simp: fs_exists_def)
  next
    case (Inr f)
    obtain b s2 where ex: "path_is_file f s1 = (b, s2)" by force
    note e2 = path_is_file_effect [OF ex]
    have f: "f = file_components p" using e1(3) Inr by simp
    have "s' = s2" "r = Inr b" using assms w Inr ex by (auto simp: fs_exists_def)
    then show ?thesis
      using e1(1,2) e2 lookup_nodes [OF e1(1)] by (auto simp: f md_view_def intro: frame_trans)
  qed
  then show "nodes s' = nodes s" "frame s s'" "r = Inr True \<Longrightarrow> md_view s (file_components p) \<noteq> None" by auto
qed

lemma fs_write_bytes_effect:
  assumes "fs_write_bytes d p bs s = (r, s')"
  shows "store_ok s s'"
    "md_view s' = (case r of Inr _ \<Rightarrow> (md_view s)(file_components p \<mapsto> bs) | Inl _ \<Rightarrow> md_view s)"
    "r = Inr rv \<Longrightarrow> rv = revision_of d bs"
proof -
  obtain r1 s1 where w: "resolve_within p s = (r1, s1)" by force
  note e1 = resolve_within_ok [OF w] and f1 = resolve_within_effect(3) [OF w]
  have "store_ok s s' \<and>
    md_view s' = (case r of Inr _ \<Rightarrow> (md_view s)(file_components p \<mapsto> bs) | Inl _ \<Rightarrow> md_view s) \<and>
    (\<forall>rv. r = Inr rv \<longrightarrow> rv = revision_of d bs)"
  proof (cases r1)
    case (Inl a)
    then show ?thesis using assms w e1 by (auto simp: fs_write_bytes_def)
  next
    case r1: (Inr f)
    have f: "f = file_components p" using f1 r1 by simp
    obtain r2 s2 where m: "mkdir_from [] (butlast f) s1 = (r2, s2)" by force
    have e2: "store_ok s1 s2" "md_view s2 = md_view s1" using mkdir_from_effect [OF m] store_ok_fs by auto
    show ?thesis
    proof (cases r2)
      case (Inl a)
      then have "r = Inl (Io a) \<and> s' = s2"
        using assms by (simp add: fs_write_bytes_def w r1 fs_create_dir_all_def m io_res_def)
      then show ?thesis using e1(1,2) e2 by (auto intro: store_ok_trans)
    next
      case r2: (Inr u)
      obtain t s3 where t: "temp_path_for f s2 = (t, s3)" by force
      note e3 = temp_path_for_effect [OF t]
      obtain r4 s4 where a: "write_atomically t f bs s3 = (r4, s4)" by force
      note e4 = write_atomically_effect [OF a]
      have md: "md_path f" "\<not> md_path t" "t \<noteq> []" using temp_path_not_md(1) [OF t] by (simp_all add: f)
      have "s' = s4 \<and> r = (case r4 of Inl e \<Rightarrow> Inl e | Inr _ \<Rightarrow> Inr (revision_of d bs))"
        using assms by (simp add: fs_write_bytes_def w r1 fs_create_dir_all_def m io_res_def r2 t a try_io_def
            split: sum.splits)
      moreover have "store_ok s s4"
        using e1(1) e2(1) e3(3,4) store_ok_fs [OF e4(1) [OF md(2,3,1)]] by (simp add: store_ok_def)
      ultimately show ?thesis
        using e4(2) [OF md(2,3,1)] e1(2) e2(2) e3(2) by (auto simp: f split: sum.splits)
    qed
  qed
  then show "store_ok s s'"
    "md_view s' = (case r of Inr _ \<Rightarrow> (md_view s)(file_components p \<mapsto> bs) | Inl _ \<Rightarrow> md_view s)"
    "r = Inr rv \<Longrightarrow> rv = revision_of d bs" by auto
qed

lemma fs_remove_page_effect:
  assumes "fs_remove_page p s = (r, s')"
  shows "store_ok s s'" "md_view s' = (case r of Inr _ \<Rightarrow> (md_view s)(file_components p := None) | Inl _ \<Rightarrow> md_view s)"
proof -
  obtain r1 s1 where w: "resolve_within p s = (r1, s1)" by force
  note e1 = resolve_within_ok [OF w] and f1 = resolve_within_effect(3) [OF w]
  have "store_ok s s' \<and> md_view s' = (case r of Inr _ \<Rightarrow> (md_view s)(file_components p := None) | Inl _ \<Rightarrow> md_view s)"
  proof (cases r1)
    case (Inl a)
    then show ?thesis using assms w e1 by (auto simp: fs_remove_page_def)
  next
    case r1: (Inr f)
    have f: "f = file_components p" using f1 r1 by simp
    obtain r2 s2 where m: "fs_remove_file f s1 = (r2, s2)" by force
    note e2 = fs_remove_file_effect [OF m]
    have ok: "store_ok s s2" using e1(1) store_ok_fs [OF e2(1)] by (rule store_ok_trans)
    show ?thesis
    proof (cases r2)
      case (Inl a)
      have "md_view s2 = md_view s1" using e2(3) Inl by (intro md_view_lookup) simp
      then show ?thesis
        using assms ok e1(2) by (auto simp: fs_remove_page_def w r1 m Inl split: if_splits)
    next
      case (Inr u)
      have "md_view s2 = (md_view s1)(f := None)" using e2(2) Inr md_view_upd(1) [of s2 s1 f None] by (simp add: f)
      then show ?thesis
        using assms ok e1(2) by (auto simp: fs_remove_page_def w r1 Inr f m [unfolded f])
    qed
  qed
  then show "store_ok s s'" "md_view s' = (case r of Inr _ \<Rightarrow> (md_view s)(file_components p := None) | Inl _ \<Rightarrow> md_view s)"
    by auto
qed

section \<open>The move transaction\<close>

lemma transaction_path_cong:
  "process_id s' = process_id s \<Longrightarrow> transaction_path_for s' p m k = transaction_path_for s p m k"
  by (simp add: transaction_path_for_def)

lemma transaction_path_frame: "frame s s' \<Longrightarrow> transaction_path_for s' p m k = transaction_path_for s p m k"
  by (rule transaction_path_cong) (simp add: frame_def)

lemma transaction_path_inj:
  assumes "transaction_path_for s p m k = transaction_path_for s q m k"
    and "p \<noteq> []" "q \<noteq> []" "is_utf8 (last p)" "is_utf8 (last q)"
  shows "p = q"
proof -
  have "butlast p = butlast q" "last p = last q"
    using assms by (auto simp: transaction_path_for_def with_file_name_def file_name_text_def)
  then show ?thesis using assms(2,3) by (metis append_butlast_last_id)
qed

lemma stage_not_backup:
  "transaction_path_for s p ''stage'' k \<noteq> transaction_path_for s q ''backup'' k"
proof
  assume "transaction_path_for s p ''stage'' k = transaction_path_for s q ''backup'' k"
  then have "(''.'' @ file_name_text p @ ''.stag'') @ ''e'' = (''.'' @ file_name_text q @ ''.backu'') @ ''p''"
    by (simp add: transaction_path_for_def with_file_name_def)
  then have "last ((''.'' @ file_name_text p @ ''.stag'') @ ''e'') = last ((''.'' @ file_name_text q @ ''.backu'') @ ''p'')"
    by (rule arg_cong)
  then show False by simp
qed

lemma stage_change_effect:
  assumes "stage_change f bs tid staged s = (r, s')"
  shows "fs_ok s s'" "md_view s' = md_view s"
    "r = Inr staged' \<Longrightarrow> staged' = staged @ [(transaction_path_for s f ''stage'' tid, f)] \<and>
       lookup s' (transaction_path_for s f ''stage'' tid) = Some (NFile bs)"
    "\<forall>q n. q \<noteq> transaction_path_for s f ''stage'' tid \<and> lookup s q = Some n \<longrightarrow> lookup s' q = Some n"
proof -
  let ?t = "transaction_path_for s f ''stage'' tid"
  obtain r1 s1 where m: "mkdir_from [] (butlast f) s = (r1, s1)" by force
  note e1 = mkdir_from_effect [OF m]
  have t: "transaction_path_for s1 f ''stage'' tid = ?t" using e1 transaction_path_frame [OF fs_ok_frame] by blast
  obtain r2 s2 where w: "write_new_file ?t bs s1 = (r2, s2)" by force
  note e2 = write_new_file_effect [OF w temp_path_not_md(2,3)]
  have keep: "\<forall>q n. q \<noteq> ?t \<and> lookup s1 q = Some n \<longrightarrow> lookup s2 q = Some n"
  proof (cases r2)
    case (Inl a)
    then show ?thesis using e2(4) by auto
  next
    case (Inr a)
    then show ?thesis using e2(3) by auto
  qed
  have "fs_ok s s' \<and> md_view s' = md_view s \<and>
    (\<forall>staged'. r = Inr staged' \<longrightarrow> staged' = staged @ [(?t, f)] \<and> lookup s' ?t = Some (NFile bs)) \<and>
    (\<forall>q n. q \<noteq> ?t \<and> lookup s q = Some n \<longrightarrow> lookup s' q = Some n)"
  proof (cases r1)
    case (Inl a)
    then have "r = Inl (Io a) \<and> s' = s1"
      using assms by (simp add: stage_change_def fs_create_dir_all_def m io_res_def)
    then show ?thesis using e1 by simp
  next
    case r1: (Inr u)
    have "s' = s2 \<and> r = (case r2 of Inl e \<Rightarrow> Inl e | Inr _ \<Rightarrow> Inr (staged @ [(?t, f)]))"
      using assms by (simp add: stage_change_def fs_create_dir_all_def m io_res_def r1 t w try_io_def Let_def
          split: sum.splits)
    then show ?thesis
      using e1 e2(1,2) e2(3) keep by (auto split: sum.splits intro: fs_ok_trans)
  qed
  then show "fs_ok s s'" "md_view s' = md_view s"
    "r = Inr staged' \<Longrightarrow> staged' = staged @ [(?t, f)] \<and> lookup s' ?t = Some (NFile bs)"
    "\<forall>q n. q \<noteq> ?t \<and> lookup s q = Some n \<longrightarrow> lookup s' q = Some n" by blast+
qed

lemma backup_file_effect:
  assumes "backup_file f tid backups s = (r, s')" "md_path f"
  shows "fs_ok s s'"
    "r = Inr backups' \<Longrightarrow> backups' = backups @ [(transaction_path_for s f ''backup'' tid, f)] \<and>
       (\<exists>n. lookup s f = Some n \<and> n \<noteq> NDir \<and>
         lookup s' = (lookup s)(f := None, transaction_path_for s f ''backup'' tid \<mapsto> n)) \<and>
       md_view s' = (md_view s)(f := None)"
    "r = Inl e \<Longrightarrow> lookup s' = lookup s"
proof -
  let ?t = "transaction_path_for s f ''backup'' tid"
  obtain r1 s1 where n: "fs_rename f ?t s = (r1, s1)" by force
  note e = fs_rename_effect [OF n]
  have s': "s' = s1 \<and> r = (case r1 of Inl e \<Rightarrow> Inl (Io e) | Inr _ \<Rightarrow> Inr (backups @ [(?t, f)]))"
    using assms by (simp add: backup_file_def n io_res_def try_io_def split: sum.splits)
  then show "fs_ok s s'" using e(1) by simp
  show "lookup s' = lookup s" if "r = Inl e" using that s' e(3) by (auto split: sum.splits)
  show "backups' = backups @ [(?t, f)] \<and> (\<exists>n. lookup s f = Some n \<and> n \<noteq> NDir \<and>
      lookup s' = (lookup s)(f := None, ?t \<mapsto> n)) \<and> md_view s' = (md_view s)(f := None)" if "r = Inr backups'"
  proof -
    have r1: "r1 = Inr ()" "backups' = backups @ [(?t, f)]" using that s' by (auto split: sum.splits)
    then obtain k where k: "lookup s f = Some k" "k \<noteq> NDir" "lookup s1 = (lookup s)(f := None, ?t \<mapsto> k)"
      using e(2) by auto
    moreover have "md_view s1 = (md_view s)(f := None)"
      using k(3) assms(2) temp_path_not_md(2) [of s f "''backup''" tid] by (auto simp: md_view_def fun_eq_iff)
    ultimately show ?thesis using s' r1(2) by blast
  qed
qed

lemma cleanup_staged_effect:
  "\<forall>(t, f) \<in> set l. \<not> md_path t \<Longrightarrow> fs_ok s (cleanup_staged l s) \<and> md_view (cleanup_staged l s) = md_view s"
proof (induction l arbitrary: s)
  case (Cons x l)
  obtain t f where x: "x = (t, f)" by (cases x)
  have "fs_ok (snd (fs_remove_file t s)) (cleanup_staged l (snd (fs_remove_file t s))) \<and>
    md_view (cleanup_staged l (snd (fs_remove_file t s))) = md_view (snd (fs_remove_file t s))"
    using Cons by auto
  moreover have "md_view (snd (fs_remove_file t s)) = md_view s"
    using Cons.prems by (intro md_view_remove_file) (simp add: x)
  ultimately show ?case using remove_file_snd(1) [of s t] by (auto simp: x intro: fs_ok_trans)
qed simp

lemma check_replacements_effect:
  "check_replacements source destination reps uniq s = (r, s') \<Longrightarrow>
     nodes s' = nodes s \<and> frame s s' \<and>
     (r = Inr () \<longrightarrow> distinct (map fst reps) \<and> fst ` set reps \<inter> ({source, destination} \<union> set uniq) = {} \<and>
        (\<forall>p \<in> fst ` set reps. \<exists>b. lookup s (file_components p) = Some (NFile b)))"
proof (induction reps arbitrary: uniq s)
  case (Cons x reps)
  obtain p b where x: "x = (p, b)" by (cases x)
  show ?case
  proof (cases "p = source \<or> p = destination \<or> p \<in> set uniq")
    case True
    then show ?thesis using Cons.prems by (auto simp: x)
  next
    case ok: False
    obtain r1 s1 where w: "resolve_within p s = (r1, s1)" by force
    note e1 = resolve_within_effect(1,2) [OF w] and f1 = resolve_within_effect(3) [OF w]
    show ?thesis
    proof (cases r1)
      case (Inl a)
      then show ?thesis using Cons.prems ok w e1 by (auto simp: x)
    next
      case r1: (Inr f)
      obtain isf s2 where i: "path_is_file f s1 = (isf, s2)" by force
      note e2 = path_is_file_effect(1,2) [OF i] and f2 = path_is_file_effect(3) [OF i]
      have step: "nodes s2 = nodes s" "frame s s2" using e1 e2 by (auto intro: frame_trans)
      show ?thesis
      proof (cases isf)
        case False
        then show ?thesis using Cons.prems ok w r1 i step by (simp add: x) auto
      next
        case True
        then have "check_replacements source destination reps (p # uniq) s2 = (r, s')"
          using Cons.prems ok w r1 i by (simp add: x)
        moreover have "\<exists>b. lookup s (file_components p) = Some (NFile b)"
          using f2 f1 r1 True lookup_nodes [OF e1(1)] by auto
        ultimately show ?thesis
          using Cons.IH [of "p # uniq" s2] step ok lookup_nodes [OF step(1)] by (auto simp: x intro: frame_trans)
      qed
    qed
  qed
qed simp

abbreviation stage_path :: "fsys \<Rightarrow> 64 word \<Rightarrow> fpath \<Rightarrow> fpath" where
  "stage_path s tid f \<equiv> transaction_path_for s f ''stage'' tid"

abbreviation backup_path :: "fsys \<Rightarrow> 64 word \<Rightarrow> fpath \<Rightarrow> fpath" where
  "backup_path s tid f \<equiv> transaction_path_for s f ''backup'' tid"

abbreviation rep_files :: "(page_path \<times> bytes) list \<Rightarrow> (fpath \<times> bytes) list" where
  "rep_files reps \<equiv> map (\<lambda>(p, b). (file_components p, b)) reps"

lemma stage_replacements_effect:
  assumes "stage_replacements reps tid staged s = (r, s')" "\<forall>(t, f) \<in> set staged. \<not> md_path t"
    and "inj_on (stage_path s tid) (fst ` set (rep_files reps))" "distinct (map fst (rep_files reps))"
  shows "fs_ok s s' \<and> md_view s' = md_view s \<and>
    (\<forall>staged'. r = Inr staged' \<longrightarrow>
       staged' = staged @ map (\<lambda>(f, b). (stage_path s tid f, f)) (rep_files reps) \<and>
       (\<forall>(f, b) \<in> set (rep_files reps). lookup s' (stage_path s tid f) = Some (NFile b)) \<and>
       (\<forall>q n. q \<notin> stage_path s tid ` fst ` set (rep_files reps) \<and> lookup s q = Some n \<longrightarrow> lookup s' q = Some n))"
  using assms
proof (induction reps arbitrary: staged s)
  case (Cons x reps)
  obtain p b where x: "x = (p, b)" by (cases x)
  let ?f = "file_components p" and ?T = "stage_path s tid"
  obtain r1 s1 where w: "resolve_within p s = (r1, s1)" by force
  note e1 = resolve_within_effect [OF w]
  have e1': "fs_ok s s1" "md_view s1 = md_view s" "lookup s1 = lookup s"
    using fs_ok_nodes [OF e1(1,2)] resolve_within_ok [OF w] by auto
  show ?case
  proof (cases r1)
    case (Inl a)
    then show ?thesis using Cons.prems(1) w e1' by (auto simp: x)
  next
    case r1: (Inr f)
    have f: "f = ?f" using e1(3) r1 by simp
    have T1: "transaction_path_for s1 g m k = transaction_path_for s g m k" for g m k
      using e1(2) by (rule transaction_path_frame)
    obtain r2 s2 where sc: "stage_change f b tid staged s1 = (r2, s2)" by force
    note e2 = stage_change_effect [OF sc]
    have T2: "transaction_path_for s2 g m k = transaction_path_for s g m k" for g m k
      using transaction_path_frame [OF fs_ok_frame [OF e2(1)]] T1 by simp
    show ?thesis
    proof (cases r2)
      case (Inl a)
      then have "r = Inl a \<and> s' = cleanup_staged staged s2" using Cons.prems(1) w r1 sc by (simp add: x)
      then show ?thesis
        using cleanup_staged_effect [OF Cons.prems(2), of s2] e1' e2(1,2) by (auto intro: fs_ok_trans)
    next
      case (Inr st)
      have st: "st = staged @ [(?T f, f)]" "lookup s2 (?T f) = Some (NFile b)" using e2(3) [OF Inr] by (simp_all add: T1)
      have "stage_replacements reps tid st s2 = (r, s')" using Cons.prems(1) w r1 sc Inr by (simp add: x)
      moreover have "\<forall>(t, f) \<in> set st. \<not> md_path t" using Cons.prems(2) temp_path_not_md(2) by (auto simp: st)
      moreover have inj: "inj_on ?T (fst ` set (rep_files reps))" "distinct (map fst (rep_files reps))"
        "?f \<notin> fst ` set (rep_files reps)"
        using Cons.prems(3,4) by (auto simp: x inj_on_def image_iff)
      ultimately have ih: "fs_ok s2 s' \<and> md_view s' = md_view s2 \<and>
        (\<forall>staged'. r = Inr staged' \<longrightarrow>
          staged' = st @ map (\<lambda>(f, b). (?T f, f)) (rep_files reps) \<and>
          (\<forall>(f, b) \<in> set (rep_files reps). lookup s' (?T f) = Some (NFile b)) \<and>
          (\<forall>q n. q \<notin> ?T ` fst ` set (rep_files reps) \<and> lookup s2 q = Some n \<longrightarrow> lookup s' q = Some n))"
        using Cons.IH [of st s2] unfolding T2 by blast
      have "?T ?f \<notin> ?T ` fst ` set (rep_files reps)"
        using Cons.prems(3) inj(3) by (auto simp: x inj_on_def image_iff)
      then have "lookup s' (?T ?f) = Some (NFile b)" if "r = Inr staged'" for staged'
        using ih that st(2) f by blast
      moreover have "lookup s' q = Some n"
        if "r = Inr staged'" "q \<notin> ?T ` fst ` set (rep_files (x # reps))" "lookup s q = Some n" for staged' q n
      proof -
        have "lookup s2 q = Some n" using e2(4) that(2,3) e1'(3) f by (auto simp: x T1)
        then show ?thesis using ih that by (auto simp: x)
      qed
      ultimately show ?thesis
        using ih e1' e2(1,2) st(1) f by (auto simp: x intro: fs_ok_trans)
    qed
  qed
qed auto

lemma backup_replacements_success:
  assumes "backup_replacements reps tid staged backups s = (Inr backups', s')"
  shows "fs_ok s s' \<and>
    backups' = backups @ map (\<lambda>(f, b). (backup_path s tid f, f)) (rep_files reps) \<and>
    md_view s' = (\<lambda>q. if q \<in> fst ` set (rep_files reps) then None else md_view s q) \<and>
    (\<forall>q. \<not> md_path q \<and> q \<notin> backup_path s tid ` fst ` set (rep_files reps) \<longrightarrow> lookup s' q = lookup s q)"
  using assms
proof (induction reps arbitrary: backups s)
  case (Cons x reps)
  obtain p b where x: "x = (p, b)" by (cases x)
  let ?f = "file_components p"
  obtain f s1 where w: "resolve_within p s = (Inr f, s1)"
    using Cons.prems by (auto simp: x try_io_Inr_iff)
  note e1 = resolve_within_effect [OF w]
  have e1': "fs_ok s s1" "md_view s1 = md_view s" "lookup s1 = lookup s"
    using fs_ok_nodes [OF e1(1,2)] resolve_within_ok [OF w] by auto
  have f: "f = ?f" using e1(3) by simp
  have T1: "transaction_path_for s1 g m k = transaction_path_for s g m k" for g m k
    using e1(2) by (rule transaction_path_frame)
  obtain r2 s2 where bf: "backup_file f tid backups s1 = (r2, s2)" by force
  have md: "md_path f" by (simp add: f)
  note e2 = backup_file_effect [OF bf md]
  from Cons.prems w bf obtain bk where r2: "r2 = Inr bk"
    and rest: "backup_replacements reps tid staged bk s2 = (Inr backups', s')"
    by (cases r2) (auto simp: x)
  have T2: "transaction_path_for s2 g m k = transaction_path_for s g m k" for g m k
    using transaction_path_frame [OF fs_ok_frame [OF e2(1)]] T1 by simp
  note bk = e2(2) [OF r2, unfolded T1]
  note ih = Cons.IH [OF rest, unfolded T2]
  have "\<forall>q. \<not> md_path q \<and> q \<noteq> backup_path s tid f \<longrightarrow> lookup s2 q = lookup s q"
    using bk e1'(3) md by auto
  then show ?case
    using ih bk e1' e2(1) f by (auto simp: x fun_eq_iff intro: fs_ok_trans)
qed simp

lemma install_staged_success:
  assumes "install_staged (map (\<lambda>(f, b). (T f, f)) items) staged backups installed s = (Inr u, s')"
    and "\<forall>(f, b) \<in> set items. lookup s (T f) = Some (NFile b) \<and> md_path f \<and> \<not> md_path (T f)"
    and "distinct (map fst items)" "inj_on T (fst ` set items)"
  shows "fs_ok s s' \<and> md_view s' = md_view s ++ map_of items"
  using assms
proof (induction items arbitrary: installed s)
  case (Cons x items)
  obtain f b where x: "x = (f, b)" by (cases x)
  obtain r1 s1 where n: "fs_rename (T f) f s = (r1, s1)" by force
  note e = fs_rename_effect [OF n]
  from Cons.prems(1) n have r1: "r1 = Inr ()"
    and rest: "install_staged (map (\<lambda>(f, b). (T f, f)) items) staged backups (installed @ [f]) s1 = (Inr u, s')"
    by (cases r1; auto simp: x)+
  have md: "lookup s (T f) = Some (NFile b)" "md_path f" "\<not> md_path (T f)" using Cons.prems(2) by (auto simp: x)
  have l: "lookup s1 = (lookup s)(T f := None, f \<mapsto> NFile b)" using e(2) [OF r1] md(1) by auto
  have v: "md_view s1 = (md_view s)(f \<mapsto> b)" using l md by (auto simp: md_view_def fun_eq_iff)
  have "lookup s1 (T g) = Some (NFile c) \<and> md_path g \<and> \<not> md_path (T g)" if "(g, c) \<in> set items" for g c
  proof -
    have "g \<noteq> f" using Cons.prems(3) that by (auto simp: x image_iff)
    moreover have "g \<in> fst ` set (x # items)" "f \<in> fst ` set (x # items)" using that by (force simp: x)+
    ultimately have "T g \<noteq> T f" using Cons.prems(4) by (meson inj_onD)
    moreover have "lookup s (T g) = Some (NFile c)" "md_path g" "\<not> md_path (T g)"
      using Cons.prems(2) that by (auto simp: x)
    ultimately show ?thesis using l md(2) by auto
  qed
  then have ih: "fs_ok s1 s' \<and> md_view s' = md_view s1 ++ map_of items"
    using Cons.prems(3,4) by (intro Cons.IH [OF rest]) (auto simp: x inj_on_def)
  have "map_of items f = None" using Cons.prems(3) by (simp add: x map_of_eq_None_iff)
  then have upd: "(md_view s)(f \<mapsto> b) ++ map_of items = md_view s ++ map_of (x # items)"
    by (auto simp: x map_add_def fun_eq_iff split: option.splits)
  show ?case
    using fs_ok_trans [OF e(1)] ih unfolding v upd by blast
qed simp

text \<open>Pages whose names are proper text, as every Rust string is.\<close>

definition utf8_page :: "page_path \<Rightarrow> bool" where
  "utf8_page p \<longleftrightarrow> wf_page_path p \<and> is_utf8 (file_stem p)"

lemma utf8_page_last: "utf8_page p \<Longrightarrow> is_utf8 (last (file_components p))"
  by (auto simp: utf8_page_def file_components_def is_utf8_append byte_val_def)

lemma stage_path_inj:
  assumes "\<forall>p \<in> P. utf8_page p"
  shows "inj_on (\<lambda>f. transaction_path_for s f m tid) (file_components ` P)"
proof (rule inj_onI)
  fix f g
  assume f: "f \<in> file_components ` P" and g: "g \<in> file_components ` P"
    and eq: "transaction_path_for s f m tid = transaction_path_for s g m tid"
  from f g assms have "is_utf8 (last f)" "is_utf8 (last g)" using utf8_page_last by auto
  moreover from f g have "f \<noteq> []" "g \<noteq> []" by auto
  ultimately show "f = g" using transaction_path_inj [OF eq] by blast
qed

lemma file_components_inj_on: "\<forall>p \<in> P. utf8_page p \<Longrightarrow> inj_on file_components P"
  using file_components_inj by (auto simp: inj_on_def utf8_page_def)

lemma fst_rep_files: "fst ` set (rep_files reps) = file_components ` fst ` set reps"
  by force

lemma map_fst_rep_files: "map fst (rep_files reps) = map file_components (map fst reps)"
  by auto

text \<open>Either the validation fails and nothing changes, or the transaction runs on an unchanged tree.\<close>

lemma fs_commit_move_cases:
  assumes "fs_commit_move src dst bs reps s = (r, s')"
  obtains (rejected) e where "r = Inl e" "nodes s' = nodes s" "frame s s'"
    | (run) s5 where "nodes s5 = nodes s" "frame s s5"
      "run_transaction (file_components src) (file_components dst) bs reps (temp_file_counter s5)
         (s5\<lparr>temp_file_counter := temp_file_counter s5 + 1\<rparr>) = (r, s')"
      "distinct (map fst reps)" "src \<notin> fst ` set reps" "dst \<notin> fst ` set reps"
      "\<exists>b. lookup s (file_components src) = Some (NFile b)"
      "\<forall>p \<in> fst ` set reps. \<exists>b. lookup s (file_components p) = Some (NFile b)"
      "(\<forall>n. faults s OpStat n = None) \<longrightarrow> fs_inv s \<longrightarrow> lookup s (file_components dst) = None"
proof -
  obtain r1 s1 where 1: "resolve_within src s = (r1, s1)" by force
  note e1 = resolve_within_effect [OF 1]
  show thesis
  proof (cases r1)
    case (Inl e)
    then show thesis using assms 1 e1 rejected by (auto simp: fs_commit_move_def)
  next
    case r1: (Inr f1)
    obtain r2 s2 where 2: "resolve_within dst s1 = (r2, s2)" by force
    note e2 = resolve_within_effect [OF 2]
    have n2: "nodes s2 = nodes s" "frame s s2" using e1 e2 by (auto intro: frame_trans)
    show thesis
    proof (cases r2)
      case (Inl e)
      then show thesis using assms 1 2 r1 n2 rejected by (auto simp: fs_commit_move_def)
    next
      case r2: (Inr f2)
      have f: "f1 = file_components src" "f2 = file_components dst" using e1(3) e2(3) r1 r2 by auto
      obtain b3 s3 where 3: "path_is_file f1 s2 = (b3, s3)" by force
      note e3 = path_is_file_effect [OF 3]
      have n3: "nodes s3 = nodes s" "frame s s3" using n2 e3 by (auto intro: frame_trans)
      obtain b4 s4 where 4: "path_exists f2 s3 = (b4, s4)" by force
      note e4 = path_exists_effect [OF 4]
      have n4: "nodes s4 = nodes s" "frame s s4" using n3 e4 by (auto intro: frame_trans)
      obtain r5 s5 where 5: "check_replacements src dst reps [] s4 = (r5, s5)" by force
      note e5 = check_replacements_effect [OF 5]
      have n5: "nodes s5 = nodes s" "frame s s5" using n4 e5 by (auto intro: frame_trans)
      have com: "(r, s') = (if \<not> b3 then (Inl (NotFound (as_str src)), s3)
          else if b4 then (Inl (AlreadyExists (as_str dst)), s4)
          else case r5 of Inl e \<Rightarrow> (Inl e, s5) | Inr _ \<Rightarrow>
            run_transaction f1 f2 bs reps (temp_file_counter s5) (s5\<lparr>temp_file_counter := temp_file_counter s5 + 1\<rparr>))"
        using assms by (simp add: fs_commit_move_def 1 2 r1 r2 3 4 5 try_io_def Let_def split: bool.splits sum.splits)
      show thesis
      proof (cases "b3 \<and> \<not> b4 \<and> r5 = Inr ()")
        case True
        have src: "\<exists>b. lookup s (file_components src) = Some (NFile b)"
          using e3(3) True lookup_nodes [OF n2(1)] by (auto simp: f)
        have dst: "(\<forall>n. faults s OpStat n = None) \<longrightarrow> fs_inv s \<longrightarrow> lookup s (file_components dst) = None"
        proof (intro impI)
          assume "\<forall>n. faults s OpStat n = None" "fs_inv s"
          moreover have "faults s3 = faults s" using n3(2) by (simp add: frame_def)
          ultimately have "lookup s3 f2 \<noteq> None \<Longrightarrow> b4"
            using 4 fs_ok_nodes [OF n3]
            by (auto simp: path_exists_def fs_symlink_metadata_def fs_prim_run under_dirs_def fs_ok_def
                fs_inv_def [of s3] split: option.splits)
          then show "lookup s (file_components dst) = None"
            using True lookup_nodes [OF n3(1)] by (cases "lookup s (file_components dst)") (auto simp: f)
        qed
        have "run_transaction (file_components src) (file_components dst) bs reps (temp_file_counter s5)
            (s5\<lparr>temp_file_counter := temp_file_counter s5 + 1\<rparr>) = (r, s')"
          using com True by (simp add: f)
        moreover have "\<forall>p \<in> fst ` set reps. \<exists>b. lookup s (file_components p) = Some (NFile b)"
          using e5 True lookup_nodes [OF n4(1)] by auto
        ultimately show thesis using run [OF n5] e5 True src dst by auto
      next
        case False
        then show thesis
          using com rejected n3 n4 n5 by (cases r5) (auto split: if_splits)
      qed
    qed
  qed
qed

lemma distinct_items:
  assumes "\<forall>p \<in> insert dst (fst ` set reps). utf8_page p" "distinct (map fst reps)" "dst \<notin> fst ` set reps"
  shows "distinct (map fst ((file_components dst, bs) # rep_files reps))"
proof -
  have "distinct (map file_components (dst # map fst reps))"
    using assms file_components_inj_on [OF assms(1)] by (subst distinct_map) auto
  then show ?thesis by (simp add: map_fst_rep_files comp_def case_prod_unfold)
qed

text \<open>Staging: every new content is in its temporary file, and nothing else has changed.\<close>

lemma stage_phase:
  assumes 1: "stage_change (file_components dst) bs tid [] s = (Inr st, s1)"
    and 2: "stage_replacements reps tid st s1 = (Inr st', s2)"
    and P: "\<forall>p \<in> insert dst (fst ` set reps). utf8_page p" and d: "distinct (map fst reps)" "dst \<notin> fst ` set reps"
    and items: "items = (file_components dst, bs) # rep_files reps"
  shows "fs_ok s s2 \<and> md_view s2 = md_view s \<and> st' = map (\<lambda>(f, b). (stage_path s tid f, f)) items \<and>
    (\<forall>(f, b) \<in> set items. lookup s2 (stage_path s tid f) = Some (NFile b)) \<and>
    (\<forall>q n. q \<notin> stage_path s tid ` fst ` set items \<and> lookup s q = Some n \<longrightarrow> lookup s2 q = Some n) \<and>
    distinct (map fst items) \<and> inj_on (stage_path s tid) (fst ` set items)"
proof -
  let ?T = "stage_path s tid" and ?D = "file_components dst"
  note e1 = stage_change_effect [OF 1]
  have T1: "transaction_path_for s1 g m k = transaction_path_for s g m k" for g m k
    using fs_ok_frame [OF e1(1)] by (rule transaction_path_frame)
  have st: "st = [(?T ?D, ?D)]" "lookup s1 (?T ?D) = Some (NFile bs)" using e1(3) by simp_all
  have injT: "inj_on ?T (fst ` set items)"
    using stage_path_inj [OF P, of s "''stage''" tid] fst_rep_files [of reps] by (simp add: items)
  have dist: "distinct (map fst items)" unfolding items by (rule distinct_items [OF P d])
  have e2: "fs_ok s1 s2 \<and> md_view s2 = md_view s1 \<and> st' = st @ map (\<lambda>(f, b). (?T f, f)) (rep_files reps) \<and>
      (\<forall>(f, b) \<in> set (rep_files reps). lookup s2 (?T f) = Some (NFile b)) \<and>
      (\<forall>q n. q \<notin> ?T ` fst ` set (rep_files reps) \<and> lookup s1 q = Some n \<longrightarrow> lookup s2 q = Some n)"
    using stage_replacements_effect [OF 2] injT dist temp_path_not_md(2) unfolding T1
    by (simp add: st items inj_on_def)
  have "?T ?D \<notin> ?T ` fst ` set (rep_files reps)"
  proof
    assume "?T ?D \<in> ?T ` fst ` set (rep_files reps)"
    then obtain g where g: "g \<in> fst ` set (rep_files reps)" "?T ?D = ?T g" by blast
    then have "?D \<in> fst ` set items" "g \<in> fst ` set items" by (simp_all add: items)
    with inj_onD [OF injT g(2)] have "?D = g" by blast
    moreover have "?D \<notin> fst ` set (rep_files reps)"
      using dist unfolding items list.map distinct.simps fst_conv set_map by blast
    ultimately show False using g(1) by blast
  qed
  with e2 st(2) have "lookup s2 (?T ?D) = Some (NFile bs)" by blast
  with e1 e2 st(1) dist injT show ?thesis
    by (auto simp: items intro: fs_ok_trans)
qed

text \<open>Backing up: the old files are gone from their places, the temporary files are still there.\<close>

lemma backup_phase:
  assumes 1: "backup_file (file_components src) tid [] s = (Inr bk, s1)"
    and 2: "backup_replacements reps tid st bk s1 = (Inr bk', s2)"
  shows "fs_ok s s2 \<and>
    bk' = (backup_path s tid (file_components src), file_components src) # map (\<lambda>(f, b). (backup_path s tid f, f)) (rep_files reps) \<and>
    md_view s2 = (\<lambda>q. if q \<in> insert (file_components src) (fst ` set (rep_files reps)) then None else md_view s q) \<and>
    (\<forall>f. lookup s2 (stage_path s tid f) = lookup s (stage_path s tid f))"
proof -
  note e1 = backup_file_effect [OF 1 md_path_file_components]
  have T1: "transaction_path_for s1 g m k = transaction_path_for s g m k" for g m k
    using fs_ok_frame [OF e1(1)] by (rule transaction_path_frame)
  note e2 = backup_replacements_success [OF 2, unfolded T1]
  obtain n where n: "lookup s1 = (lookup s)(file_components src := None, backup_path s tid (file_components src) \<mapsto> n)"
    and b: "bk = [(backup_path s tid (file_components src), file_components src)]"
    and v: "md_view s1 = (md_view s)(file_components src := None)"
    using e1(2) by auto
  have ne: "stage_path s tid f \<noteq> file_components src" for f
    using temp_path_not_md(2) [of s f "''stage''" tid] md_path_file_components [of src] by metis
  have nb: "stage_path s tid f \<notin> backup_path s tid ` F" for f F
    using stage_not_backup [of s f tid] by auto
  have "lookup s2 (stage_path s tid f) = lookup s (stage_path s tid f)" for f
    using e2 temp_path_not_md(2) nb ne stage_not_backup by (simp add: n)
  then show ?thesis using e1(1) e2 b v by (auto intro: fs_ok_trans)
qed

lemma run_transaction_success:
  assumes run: "run_transaction (file_components src) (file_components dst) bs reps tid s = (Inr u, s')"
    and P: "\<forall>p \<in> insert dst (fst ` set reps). utf8_page p" and d: "distinct (map fst reps)" "dst \<notin> fst ` set reps"
  shows "fs_ok s s' \<and>
    md_view s' = (md_view s)(file_components src := None, file_components dst \<mapsto> bs) ++ map_of (rep_files reps)"
proof -
  let ?S = "file_components src" and ?D = "file_components dst"
  define items where "items = (?D, bs) # rep_files reps"
  let ?T = "stage_path s tid"
  obtain st s6 where 6: "stage_change ?D bs tid [] s = (Inr st, s6)"
    using run by (auto simp: run_transaction_def try_io_Inr_iff)
  obtain st' s7 where 7: "stage_replacements reps tid st s6 = (Inr st', s7)"
    using run 6 by (auto simp: run_transaction_def try_io_Inr_iff)
  note stage = stage_phase [OF 6 7 P d items_def]
  obtain r8 s8 where 8: "backup_file ?S tid [] s7 = (r8, s8)" by force
  from run 6 7 8 obtain bk where r8: "r8 = Inr bk" by (cases r8) (auto simp: run_transaction_def)
  from run 6 7 8 r8 obtain bk' s9 s10 where 9: "backup_replacements reps tid st' bk s8 = (Inr bk', s9)"
    and 10: "install_staged st' st' bk' [] s9 = (Inr (), s10)" and s': "s' = cleanup_staged bk' s10"
    by (auto simp: run_transaction_def try_io_Inr_iff)
  have T7: "transaction_path_for s7 g m k = transaction_path_for s g m k" for g m k
    using transaction_path_frame [OF fs_ok_frame [of s s7]] stage by simp
  note backup = backup_phase [OF 8 [unfolded r8] 9, unfolded T7]
  have "fs_ok s9 s10 \<and> md_view s10 = md_view s9 ++ map_of items"
  proof (rule install_staged_success)
    show "install_staged (map (\<lambda>(f, b). (?T f, f)) items) st' bk' [] s9 = (Inr (), s10)"
      using 10 stage by simp
    show "\<forall>(f, b) \<in> set items. lookup s9 (?T f) = Some (NFile b) \<and> md_path f \<and> \<not> md_path (?T f)"
      using stage backup temp_path_not_md(2) by (auto simp: items_def)
  qed (use stage in auto)
  moreover have "\<forall>(t, f) \<in> set bk'. \<not> md_path t" using backup temp_path_not_md(2) by auto
  then have "fs_ok s10 s' \<and> md_view s' = md_view s10" unfolding s' by (rule cleanup_staged_effect)
  moreover have "md_view s9 ++ map_of items = (md_view s)(?S := None, ?D \<mapsto> bs) ++ map_of (rep_files reps)"
  proof
    fix q
    have v: "md_view s9 = (\<lambda>q. if q \<in> insert ?S (fst ` set (rep_files reps)) then None else md_view s q)"
      using backup stage by metis
    show "(md_view s9 ++ map_of items) q = ((md_view s)(?S := None, ?D \<mapsto> bs) ++ map_of (rep_files reps)) q"
    proof (cases "map_of (rep_files reps) q")
      case None
      then have "q \<notin> fst ` set (rep_files reps)" by (simp add: map_of_eq_None_iff)
      then show ?thesis using None by (simp add: v items_def map_add_def)
    next
      case (Some b)
      then have "q \<in> fst ` set (rep_files reps)" by (metis domI dom_map_of_conv_image_fst)
      moreover have "?D \<notin> fst ` set (rep_files reps)"
        using distinct_items [OF P d, of bs] unfolding list.map distinct.simps fst_conv set_map by blast
      ultimately have "q \<noteq> ?D" by blast
      then show ?thesis using Some by (simp add: items_def map_add_def)
    qed
  qed
  ultimately show ?thesis using stage backup by (auto intro: fs_ok_trans)
qed

lemma fs_commit_move_success:
  assumes com: "fs_commit_move src dst bs reps s = (Inr u, s')"
    and ok: "\<forall>p \<in> insert dst (fst ` set reps). utf8_page p"
  shows "store_ok s s' \<and> src \<notin> fst ` set reps \<and> dst \<notin> fst ` set reps \<and>
    md_view s' = (md_view s)(file_components src := None, file_components dst \<mapsto> bs) ++ map_of (rep_files reps)"
  using com
proof (cases rule: fs_commit_move_cases)
  case (run s5)
  let ?s5 = "s5\<lparr>temp_file_counter := temp_file_counter s5 + 1\<rparr>"
  have nodes5: "nodes ?s5 = nodes s" using run(1) by simp
  have ok5: "store_ok s ?s5" using fs_inv_nodes [OF nodes5] run(2) by (simp add: store_ok_def frame_def)
  note run_transaction_success [OF run(3) ok run(4,6), unfolded md_view_nodes [OF nodes5]]
  then show ?thesis using ok5 run(5,6) by (blast intro: store_ok_trans store_ok_fs)
qed auto

end
