(* ===== verification/Fs_Scan.thy ===== *)
theory Fs_Scan
  imports Fs_Store
begin

text \<open>
  The scan of the store (\<^verbatim>\<open>walk\<close>, \<^verbatim>\<open>scan\<close> and \<^verbatim>\<open>list_pages\<close> of \<^verbatim>\<open>fs_store.rs\<close>): the depth bound is
  enough, a scan that returns has visited every Markdown file that is not behind a symbolic link, and
  the listing is sorted and holds every page short enough to be parsed back from its file name.
\<close>

section \<open>The files a scan visits\<close>

definition md_file :: "fsys \<Rightarrow> fpath \<Rightarrow> bool" where
  "md_file s p \<longleftrightarrow> (\<exists>b. lookup s p = Some (NFile b)) \<and> has_md_extension (last p)"

lemma tree_depth_bound: "lookup s p \<noteq> None \<Longrightarrow> length p \<le> tree_depth s"
proof -
  have "(p, n) \<in> set xs \<Longrightarrow> length p \<le> foldr (\<lambda>(p, _) n. max (length p) n) xs 0" for n xs
    by (induction xs) (auto intro: le_trans)
  moreover assume "lookup s p \<noteq> None"
  then have "p = [] \<or> (\<exists>n. (p, n) \<in> set (nodes s))"
    by (auto simp: lookup_def split: if_splits dest: map_of_SomeD)
  ultimately show ?thesis by (auto simp: tree_depth_def)
qed

lemma tree_depth_nodes: "nodes s' = nodes s \<Longrightarrow> tree_depth s' = tree_depth s"
  by (simp add: tree_depth_def)

lemma md_file_nodes: "nodes s' = nodes s \<Longrightarrow> md_file s' = md_file s"
  by (drule lookup_nodes) (simp add: md_file_def fun_eq_iff)

lemma children_iff:
  assumes "fs_inv s"
  shows "(name, t) \<in> set (children s dir) \<longleftrightarrow> lookup s (dir @ [name]) = Some t"
proof -
  have "(name, t) \<in> set (children s dir) \<longleftrightarrow> (\<exists>q. (q, t) \<in> set (nodes s) \<and> q \<noteq> [] \<and> butlast q = dir \<and> last q = name)"
    by (force simp: children_def)
  also have "\<dots> \<longleftrightarrow> (dir @ [name], t) \<in> set (nodes s)"
    by (metis append_butlast_last_id butlast_snoc last_snoc snoc_eq_iff_butlast)
  also have "\<dots> \<longleftrightarrow> map_of (nodes s) (dir @ [name]) = Some t"
    using assms by (simp add: fs_inv_def)
  finally show ?thesis by (simp add: lookup_def)
qed

lemma strict_prefix_step: "strict_prefix dir p \<longleftrightarrow> (\<exists>name. prefix (dir @ [name]) p)"
  by (auto simp: strict_prefix_def prefix_def) (metis append_Nil2 list.exhaust)

text \<open>What one directory entry contributes.\<close>

lemma entry_files:
  assumes "fs_inv s" "lookup s q = Some t"
  shows "{p. prefix q p \<and> md_file s p} =
    (case t of NFile _ \<Rightarrow> (if has_md_extension (last q) then {q} else {})
     | NDir \<Rightarrow> {p. strict_prefix q p \<and> md_file s p} | _ \<Rightarrow> {})"
proof -
  have below: "t = NDir" if "strict_prefix q p" "md_file s p" for p
    using fs_invD [OF assms(1) _ that(1)] that(2) assms(2) by (auto simp: md_file_def)
  have "md_file s q \<longleftrightarrow> (\<exists>b. t = NFile b) \<and> has_md_extension (last q)" using assms(2) by (auto simp: md_file_def)
  then show ?thesis
    using below by (cases t) (auto simp: strict_prefix_def)
qed

definition walk_ok :: "fsys \<Rightarrow> fpath \<Rightarrow> bool" where
  "walk_ok s dir \<longleftrightarrow> fs_inv s \<and> honest s \<and> lookup s dir = Some NDir"

lemma walk_ok_nodes: "nodes s' = nodes s \<Longrightarrow> frame s s' \<Longrightarrow> walk_ok s' dir = walk_ok s dir"
  using fs_inv_nodes [of s' s] honest_frame [of s s'] lookup_nodes [of s' s] by (simp add: walk_ok_def)

lemma fs_read_dir_effect:
  assumes "fs_read_dir dir s = (r, s')" "walk_ok s dir"
  shows "nodes s' = nodes s" "frame s s'" "r = Inr es \<Longrightarrow> es = children s dir"
    "r = Inl e \<Longrightarrow> io_error_kind e \<noteq> IoNotFound"
proof -
  have pe: "parent_error s dir = None" using assms(2) by (simp add: walk_ok_def fs_inv_def)
  have ch: "children (s\<lparr>op_count := k\<rparr>) dir = children s dir" for k by (simp add: children_def)
  show "nodes s' = nodes s" "frame s s'" "r = Inr es \<Longrightarrow> es = children s dir"
    "r = Inl e \<Longrightarrow> io_error_kind e \<noteq> IoNotFound"
    using assms pe by (auto simp: fs_read_dir_def fs_prim_def under_dirs_def walk_ok_def honest_def Let_def ch
        split: option.splits)
qed

lemma fs_entry_effect:
  assumes "fs_prim OpEntry (\<lambda>s. (Inr (), s)) s = (r, s')"
  shows "nodes s' = nodes s" "frame s s'"
  using assms by (auto elim!: fs_prim_cases)

lemma walk_spec:
  "walk fuel dir out s = (Inr res, s') \<Longrightarrow> walk_ok s dir \<Longrightarrow> tree_depth s < fuel + length dir \<Longrightarrow>
     nodes s' = nodes s \<and> frame s s' \<and>
     set res = set out \<union> scan_entry ` {p. strict_prefix dir p \<and> md_file s p}"
  "walk_entries fuel dir es out s = (Inr res, s') \<Longrightarrow> walk_ok s dir \<Longrightarrow> tree_depth s < Suc fuel + length dir \<Longrightarrow>
     \<forall>(n, t) \<in> set es. lookup s (dir @ [n]) = Some t \<Longrightarrow>
     nodes s' = nodes s \<and> frame s s' \<and>
     set res = set out \<union> scan_entry ` {p. \<exists>(n, t) \<in> set es. prefix (dir @ [n]) p \<and> md_file s p}"
proof (induction fuel dir out s and fuel dir es out s arbitrary: res s' and res s' rule: walk_walk_entries.induct)
  case (1 dir out s)
  have "length dir \<le> tree_depth s" using 1(2) tree_depth_bound by (auto simp: walk_ok_def)
  with 1(3) show ?case by simp
next
  case (2 fuel dir out s)
  obtain r1 s1 where rd: "fs_read_dir dir s = (r1, s1)" by force
  note e = fs_read_dir_effect [OF rd 2(3)]
  from 2(2) rd e(4) obtain es where r1: "r1 = Inr es" and rest: "walk_entries fuel dir es out s1 = (Inr res, s')"
    by (cases r1) (auto split: if_splits)
  have es: "es = children s dir" using e(3) r1 by simp
  have inv: "fs_inv s" using 2(3) by (simp add: walk_ok_def)
  have lk: "lookup s1 = lookup s" using e(1) by (rule lookup_nodes)
  have "\<forall>(n, t) \<in> set es. lookup s1 (dir @ [n]) = Some t"
    using children_iff [OF inv] by (auto simp: es lk)
  then have ih: "nodes s' = nodes s1 \<and> frame s1 s' \<and>
     set res = set out \<union> scan_entry ` {p. \<exists>(n, t) \<in> set es. prefix (dir @ [n]) p \<and> md_file s1 p}"
    using 2(1) [OF rd [symmetric] r1 rest] walk_ok_nodes [OF e(1,2)] 2(3,4) tree_depth_nodes [OF e(1)] by auto
  have "(\<exists>(n, t) \<in> set es. prefix (dir @ [n]) p \<and> md_file s p) \<longleftrightarrow> strict_prefix dir p \<and> md_file s p" for p
  proof
    assume "strict_prefix dir p \<and> md_file s p"
    then obtain n where n: "prefix (dir @ [n]) p" "md_file s p" by (auto simp: strict_prefix_step)
    then have "lookup s (dir @ [n]) \<noteq> None"
      using fs_invD [OF inv, of p "dir @ [n]"] by (cases "p = dir @ [n]") (auto simp: md_file_def strict_prefix_def)
    with n show "\<exists>(n, t) \<in> set es. prefix (dir @ [n]) p \<and> md_file s p"
      using children_iff [OF inv] by (auto simp: es)
  qed (auto simp: strict_prefix_step)
  then show ?case using ih e(1,2) md_file_nodes [OF e(1)] by (auto intro: frame_trans)
next
  case (3 fuel dir out s)
  then show ?case by auto
next
  case (4 fuel dir name t es out s)
  let ?q = "dir @ [name]"
  from 4(7) obtain s1 s2 where 1: "fs_prim OpEntry (\<lambda>s. (Inr (), s)) s = (Inr (), s1)"
    and 2: "fs_prim OpEntry (\<lambda>s. (Inr (), s)) s1 = (Inr (), s2)"
    by (auto simp: try_io_Inr_iff)
  note e1 = fs_entry_effect [OF 1] and e2 = fs_entry_effect [OF 2]
  have s2: "nodes s2 = nodes s" "frame s s2" using e1 e2 by (auto intro: frame_trans)
  have lk: "lookup s2 = lookup s" and mf: "md_file s2 = md_file s" using lookup_nodes md_file_nodes s2(1) by blast+
  have inv: "fs_inv s" and q: "lookup s ?q = Some t" using 4(8,10) by (auto simp: walk_ok_def)
  have ok2: "walk_ok s2 dir" "tree_depth s2 < Suc fuel + length dir"
    "\<forall>(n, t) \<in> set es. lookup s2 (dir @ [n]) = Some t"
    using 4(8,9,10) walk_ok_nodes [OF s2] tree_depth_nodes [OF s2(1)] by (auto simp: lk)
  have sets: "{p. \<exists>(n, t) \<in> set ((name, t) # es). prefix (dir @ [n]) p \<and> md_file s p} =
      {p. prefix ?q p \<and> md_file s p} \<union> {p. \<exists>(n, t) \<in> set es. prefix (dir @ [n]) p \<and> md_file s p}"
    by auto
  have res: "(case t of
      NSymlink \<Rightarrow> walk_entries fuel dir es out s2
    | NDir \<Rightarrow> try_io (walk fuel ?q out s2) (\<lambda>out s. walk_entries fuel dir es out s)
    | NOther \<Rightarrow> walk_entries fuel dir es out s2
    | NFile _ \<Rightarrow> walk_entries fuel dir es (if has_md_extension name then out @ [scan_entry ?q] else out) s2) = (Inr res, s')"
    using 4(7) by (auto simp: 1 2 io_res_def split: node.split)
  show ?case
  proof (cases t)
    case (NFile b)
    have "nodes s' = nodes s2 \<and> frame s2 s' \<and>
        set res = set (if has_md_extension name then out @ [scan_entry ?q] else out) \<union>
          scan_entry ` {p. \<exists>(n, t) \<in> set es. prefix (dir @ [n]) p \<and> md_file s p}"
      using 4(1) [OF NFile _ _ ok2] 4(2) [OF NFile _ _ ok2] res
      by (cases "has_md_extension name") (auto simp: NFile mf)
    then show ?thesis
      unfolding sets entry_files [OF inv q] using s2 by (auto simp: NFile intro: frame_trans)
  next
    case NDir
    then obtain out1 s3 where 3: "walk fuel ?q out s2 = (Inr out1, s3)"
      and rest: "walk_entries fuel dir es out1 s3 = (Inr res, s')"
      using res by (auto simp: try_io_Inr_iff)
    have "walk_ok s2 ?q" using ok2(1) q NDir by (simp add: walk_ok_def lk)
    moreover have "tree_depth s2 < fuel + length ?q" using ok2(2) by simp
    ultimately have ih: "nodes s3 = nodes s2 \<and> frame s2 s3 \<and>
        set out1 = set out \<union> scan_entry ` {p. strict_prefix ?q p \<and> md_file s p}"
      using 4(3) [OF NDir 3] by (simp add: mf)
    then have s3: "nodes s3 = nodes s2" "frame s2 s3" by auto
    have ok3: "walk_ok s3 dir" "tree_depth s3 < Suc fuel + length dir"
      "\<forall>(n, t) \<in> set es. lookup s3 (dir @ [n]) = Some t"
      using ok2 walk_ok_nodes [OF s3] tree_depth_nodes [OF s3(1)] lookup_nodes [OF s3(1)] by auto
    have ih2: "nodes s' = nodes s3 \<and> frame s3 s' \<and>
        set res = set out1 \<union> scan_entry ` {p. \<exists>(n, t) \<in> set es. prefix (dir @ [n]) p \<and> md_file s p}"
      using 4(4) [OF NDir rest ok3] unfolding md_file_nodes [OF s3(1)] mf .
    have "frame s s'" using frame_trans [OF frame_trans [OF s2(2) s3(2)]] ih2 by simp
    then show ?thesis
      unfolding sets entry_files [OF inv q] using s2(1) s3(1) ih ih2 by (simp add: NDir image_Un Un_assoc)
  next
    case NSymlink
    then show ?thesis
      unfolding sets entry_files [OF inv q] using 4(5) [OF NSymlink _ ok2] res s2
      by (auto simp: mf intro: frame_trans)
  next
    case NOther
    then show ?thesis
      unfolding sets entry_files [OF inv q] using 4(6) [OF NOther _ ok2] res s2
      by (auto simp: mf intro: frame_trans)
  qed
qed

text \<open>A scan changes nothing, whether it succeeds or not.\<close>

lemma fs_read_dir_keeps: "fs_read_dir dir s = (r, s') \<Longrightarrow> nodes s' = nodes s \<and> frame s s'"
  unfolding fs_read_dir_def by (auto elim!: fs_prim_cases under_dirs_cases split: fs_splits)

lemma walk_keeps:
  "walk fuel dir out s = (r, s') \<Longrightarrow> nodes s' = nodes s \<and> frame s s'"
  "walk_entries fuel dir es out s = (r, s') \<Longrightarrow> nodes s' = nodes s \<and> frame s s'"
proof (induction fuel dir out s and fuel dir es out s arbitrary: r s' and r s' rule: walk_walk_entries.induct)
  case (2 fuel dir out s)
  obtain r1 s1 where rd: "fs_read_dir dir s = (r1, s1)" by force
  note k = fs_read_dir_keeps [OF rd]
  show ?case
  proof (cases r1)
    case (Inl e)
    then show ?thesis using 2(2) k by (auto simp: rd split: if_splits)
  next
    case (Inr es)
    then have "walk_entries fuel dir es out s1 = (r, s')" using 2(2) by (simp add: rd)
    from 2(1) [OF rd [symmetric] Inr this] k show ?thesis by (auto intro: frame_trans)
  qed
next
  case (4 fuel dir name t es out s)
  let ?p = "fs_prim OpEntry (\<lambda>s. (Inr (), s))"
  obtain r1 s1 where 1: "?p s = (r1, s1)" by force
  obtain r2 s2 where 2: "?p s1 = (r2, s2)" by force
  note e1 = fs_entry_effect [OF 1] and e2 = fs_entry_effect [OF 2]
  have s2: "nodes s2 = nodes s" "frame s s2" using e1 e2 by (auto intro: frame_trans)
  show ?case
  proof (cases "\<exists>a b. r1 = Inr a \<and> r2 = Inr b")
    case False
    then show ?thesis using 4(7) e1 s2 by (cases r1; cases r2) (auto simp: 1 2 io_res_def)
  next
    case True
    show ?thesis
    proof (cases t)
      case (NFile b)
      have "nodes s' = nodes s2 \<and> frame s2 s'"
        using 4(1,2) [OF NFile] 4(7) True by (auto simp: 1 2 io_res_def NFile split: if_splits)
      then show ?thesis using s2 by (auto intro: frame_trans)
    next
      case NDir
      obtain r3 s3 where 3: "walk fuel (dir @ [name]) out s2 = (r3, s3)" by force
      note k3 = 4(3) [OF NDir 3]
      have "nodes s' = nodes s3 \<and> frame s3 s'"
        using 4(4) [OF NDir] 4(7) True by (cases r3) (auto simp: 1 2 3 io_res_def NDir)
      then show ?thesis using s2 k3 frame_trans [OF frame_trans [OF s2(2)]] by auto
    next
      case NSymlink
      have "nodes s' = nodes s2 \<and> frame s2 s'"
        using 4(5) [OF NSymlink] 4(7) True by (auto simp: 1 2 io_res_def NSymlink)
      then show ?thesis using s2 by (auto intro: frame_trans)
    next
      case NOther
      have "nodes s' = nodes s2 \<and> frame s2 s'"
        using 4(6) [OF NOther] 4(7) True by (auto simp: 1 2 io_res_def NOther)
      then show ?thesis using s2 by (auto intro: frame_trans)
    qed
  qed
qed auto

section \<open>Listing\<close>

lemma fs_scan_keeps: "fs_scan s = (r, s') \<Longrightarrow> nodes s' = nodes s \<and> frame s s'"
  using walk_keeps(1) [of "Suc (tree_depth s)" "[]" "[]" s]
  by (auto simp: fs_scan_def try_io_def split: prod.splits sum.splits)

lemma fs_list_pages_keeps: "fs_list_pages s = (r, s') \<Longrightarrow> nodes s' = nodes s \<and> frame s s'"
  using fs_scan_keeps [of s] by (auto simp: fs_list_pages_def try_io_def split: prod.splits sum.splits)

lemma fs_scan_spec:
  assumes "fs_scan s = (Inr res, s')" "fs_inv s" "honest s"
  shows "nodes s' = nodes s" "frame s s'" "sorted (map relative_path res)"
    "set res = scan_entry ` {p. md_file s p}"
proof -
  obtain out where w: "walk (Suc (tree_depth s)) [] [] s = (Inr out, s')" and res: "res = sort_key relative_path out"
    using assms(1) by (auto simp: fs_scan_def try_io_Inr_iff)
  have "walk_ok s []" using assms(2,3) by (simp add: walk_ok_def)
  with walk_spec(1) [OF w] have "nodes s' = nodes s \<and> frame s s' \<and>
      set out = scan_entry ` {p. strict_prefix [] p \<and> md_file s p}" by simp
  moreover have "md_file s p \<Longrightarrow> strict_prefix [] p" for p by (auto simp: md_file_def strict_prefix_def)
  then have "{p. strict_prefix [] p \<and> md_file s p} = {p. md_file s p}" by blast
  ultimately show "nodes s' = nodes s" "frame s s'" "sorted (map relative_path res)"
    "set res = scan_entry ` {p. md_file s p}" by (auto simp: res)
qed

lemma fs_list_pages_spec:
  assumes "fs_list_pages s = (Inr ps, s')" "fs_inv s" "honest s"
  shows "nodes s' = nodes s" "frame s s'" "sorted ps"
    "p \<in> set ps \<longleftrightarrow> (\<exists>q. md_file s q \<and> page_path_parse (relative_to_logical q) = Inr p)"
proof -
  obtain es where sc: "fs_scan s = (Inr es, s')" and ps: "ps = sort (List.map_filter parsed es)"
    using assms(1) by (auto simp: fs_list_pages_def try_io_Inr_iff)
  note e = fs_scan_spec [OF sc assms(2,3)]
  show "nodes s' = nodes s" "frame s s'" "sorted ps" using e by (simp_all add: ps)
  have "p \<in> set ps \<longleftrightarrow> (\<exists>e \<in> set es. parsed e = Some p)"
    by (force simp: ps List.map_filter_def)
  also have "\<dots> \<longleftrightarrow> (\<exists>q. md_file s q \<and> page_path_parse (relative_to_logical q) = Inr p)"
    by (auto simp: e(4) scan_entry_def Let_def ok_opt_Some_iff)
  finally show "p \<in> set ps \<longleftrightarrow> (\<exists>q. md_file s q \<and> page_path_parse (relative_to_logical q) = Inr p)" .
qed

text \<open>The pages a listing can show: their names are text and fit the length limit with the extension.\<close>

definition listable :: "page_path \<Rightarrow> bool" where
  "listable p \<longleftrightarrow> wf_page_path p \<and> list_all is_utf8 (segments p) \<and> length (as_str p) + 3 \<le> MAX_PATH_LENGTH"

lemma utf8_file_components:
  assumes "wf_page_path p" "list_all is_utf8 (segments p)"
  shows "\<forall>c \<in> set (file_components p). is_utf8 c"
proof -
  have "\<forall>c \<in> set (segments p). is_utf8 c" "is_utf8 (file_stem p)"
    using assms wf_page_pathD(1) [OF assms(1)] by (auto simp: list_all_iff file_stem_def)
  moreover have "is_utf8 ''.md''" by (simp add: byte_val_def)
  ultimately show ?thesis by (auto simp: file_components_def dest: in_set_butlastD)
qed

lemma relative_to_logical_page:
  assumes "wf_page_path p" "list_all is_utf8 (segments p)"
  shows "relative_to_logical (file_components p) = as_str p @ ''.md''"
  using utf8_file_components [OF assms] join_file_components [OF assms(1)]
  by (simp add: relative_to_logical_def filter_id_conv)

lemma md_file_page: "wf_page_path p \<Longrightarrow> md_file s (file_components p) \<longleftrightarrow> pages s p \<noteq> None"
proof -
  assume wf: "wf_page_path p"
  then have "file_stem p \<noteq> []" using wf_segmentD(1) wf_page_pathD(4) by blast
  then have "has_md_extension (last (file_components p))"
    by (auto simp: has_md_extension_def file_components_def suffix_def)
  then show ?thesis
    using wf by (auto simp: md_file_def pages_def md_view_def)
qed

lemma fs_scan_complete:
  assumes "fs_scan s = (Inr es, s')" "fs_inv s" "honest s" "listable p" "pages s p \<noteq> None"
  shows "\<exists>e \<in> set es. parsed e = Some p"
proof -
  have p: "wf_page_path p" "list_all is_utf8 (segments p)" "length (as_str p) + 3 \<le> MAX_PATH_LENGTH"
    using assms(4) by (simp_all add: listable_def)
  have "md_file s (file_components p)" using md_file_page [OF p(1)] assms(5) by simp
  then have "scan_entry (file_components p) \<in> set es" using fs_scan_spec(4) [OF assms(1-3)] by blast
  moreover have "parsed (scan_entry (file_components p)) = Some p"
    using p by (simp add: scan_entry_def Let_def relative_to_logical_page parse_Inr_iff ok_opt_Some_iff)
  ultimately show ?thesis by blast
qed

lemma fs_list_pages_complete:
  assumes "fs_list_pages s = (Inr ps, s')" "fs_inv s" "honest s" "listable p" "pages s p \<noteq> None"
  shows "p \<in> set ps"
proof -
  obtain es where sc: "fs_scan s = (Inr es, s')" and ps: "ps = sort (List.map_filter parsed es)"
    using assms(1) by (auto simp: fs_list_pages_def try_io_Inr_iff)
  from fs_scan_complete [OF sc assms(2-5)] show ?thesis by (force simp: ps List.map_filter_def)
qed

lemma is_utf8_md: "is_utf8 (s @ ''.md'') = is_utf8 s"
  using is_utf8_ascii_tail [of "CHR ''d''" "s @ ''.m''"] is_utf8_ascii_tail [of "CHR ''m''" "s @ ''.''"]
    is_utf8_ascii_tail [of "CHR ''.''" s] by (simp add: byte_val_def)

text \<open>A file system gives every file a non-empty name without a slash.\<close>

definition text_names :: "fsys \<Rightarrow> bool" where
  "text_names s \<longleftrightarrow> (\<forall>(q, n) \<in> set (nodes s). \<forall>c \<in> set q. c \<noteq> [] \<and> CHR ''/'' \<notin> set c \<and> is_utf8 c)"

lemma fs_list_pages_sound:
  assumes "fs_list_pages s = (Inr ps, s')" "fs_inv s" "honest s" "text_names s" "p \<in> set ps"
  shows "pages s p \<noteq> None \<and> listable p"
proof -
  obtain q where q: "md_file s q" "page_path_parse (relative_to_logical q) = Inr p"
    using fs_list_pages_spec(4) [OF assms(1-3)] assms(5) by blast
  then obtain b where b: "lookup s q = Some (NFile b)" "suffix ''.md'' (last q)"
    by (auto simp: md_file_def has_md_extension_def)
  then have ne: "q \<noteq> []" and names: "\<forall>c \<in> set q. c \<noteq> [] \<and> CHR ''/'' \<notin> set c \<and> is_utf8 c"
    using assms(4) by (auto simp: text_names_def lookup_def split: if_splits dest!: map_of_SomeD)
  have log: "relative_to_logical q = join_with ''/'' q" using names by (simp add: relative_to_logical_def filter_id_conv)
  obtain pre where "join_with ''/'' q = pre @ last q" using last_join_with [OF ne, of "''/''"] names ne by auto
  then have "suffix ''.md'' (join_with ''/'' q)" using b(2) by (auto simp: suffix_def)
  then have eq: "join_with ''/'' q = as_str p @ ''.md''" and p: "wf_page_path p" "length (as_str p @ ''.md'') \<le> MAX_PATH_LENGTH"
    using q(2) by (auto simp: log parse_Inr_iff)
  have "split_on (CHR ''/'') (join_with ''/'' q) = q" using ne names by (intro split_join) auto
  moreover have "split_on (CHR ''/'') (join_with ''/'' (file_components p)) = file_components p"
    using file_components_safe [OF p(1)] by (intro split_join) auto
  ultimately have qp: "q = file_components p" using eq join_file_components [OF p(1)] by simp
  have "is_utf8 c" if "c \<in> set (segments p)" for c
  proof (cases "c \<in> set (butlast (segments p))")
    case True
    then show ?thesis using names by (auto simp: qp file_components_def)
  next
    case False
    moreover have "set (segments p) = insert (file_stem p) (set (butlast (segments p)))"
      using wf_page_pathD(1) [OF p(1)] by (cases "segments p" rule: rev_cases) (auto simp: file_stem_def)
    ultimately have "c = file_stem p" using that by blast
    moreover have "is_utf8 (file_stem p @ ''.md'')" using names by (auto simp: qp file_components_def)
    ultimately show ?thesis by (simp add: is_utf8_md)
  qed
  then show ?thesis
    using p md_file_page [OF p(1), of s] q(1) by (auto simp: listable_def qp list_all_iff)
qed

text \<open>Names taken from the file system are text, since components that are not are left out.\<close>

lemma is_utf8_before_ascii: "is_utf8 (x @ c # y) \<Longrightarrow> byte_val c < 0x80 \<Longrightarrow> is_utf8 x \<and> is_utf8 y"
proof (induction x rule: length_induct)
  case (1 x)
  then have IH: "is_utf8 (z @ c # y) \<Longrightarrow> is_utf8 z \<and> is_utf8 y" if "length z < length x" for z using that by blast
  have nc: "\<not> is_cont c" "\<not> in_range 0xA0 0xBF c" "\<not> in_range 0x80 0x9F c" "\<not> in_range 0x90 0xBF c"
    "\<not> in_range 0x80 0x8F c"
    using 1(3) by (simp_all add: is_cont_def in_range_def)
  show ?case
  proof (cases x)
    case Nil
    then show ?thesis using 1(2,3) by simp
  next
    case (Cons b s)
    consider "byte_val b < 0x80" | "\<not> byte_val b < 0x80" "in_range 0xC2 0xDF b"
      | "\<not> byte_val b < 0x80" "\<not> in_range 0xC2 0xDF b" "in_range 0xE0 0xEF b"
      | "\<not> byte_val b < 0x80" "\<not> in_range 0xC2 0xDF b" "\<not> in_range 0xE0 0xEF b"
      by blast
    then show ?thesis
    proof cases
      case 1
      then show ?thesis using IH [of s] \<open>is_utf8 (x @ c # y)\<close> by (simp add: Cons)
    next
      case 2
      then show ?thesis
        using IH [of "tl s"] \<open>is_utf8 (x @ c # y)\<close> nc by (cases s) (simp_all add: Cons)
    next
      case 3
      consider "s = []" | c1 where "s = [c1]" | c1 c2 s' where "s = c1 # c2 # s'" by (metis neq_Nil_conv)
      then show ?thesis
      proof cases
        case 3
        then show ?thesis
          using IH [of s'] \<open>is_utf8 (x @ c # y)\<close> \<open>\<not> byte_val b < 0x80\<close> \<open>\<not> in_range 0xC2 0xDF b\<close> \<open>in_range 0xE0 0xEF b\<close>
          by (simp add: Cons)
      qed (use 3 \<open>is_utf8 (x @ c # y)\<close> nc in \<open>auto simp: Cons split: if_splits list.splits\<close>)
    next
      case 4
      consider "s = []" | c1 where "s = [c1]" | c1 c2 where "s = [c1, c2]" | c1 c2 c3 s' where "s = c1 # c2 # c3 # s'"
        by (metis neq_Nil_conv)
      then show ?thesis
      proof cases
        case (4 c1 c2 c3 s')
        then show ?thesis
          using IH [of s'] \<open>is_utf8 (x @ c # y)\<close> \<open>\<not> byte_val b < 0x80\<close> \<open>\<not> in_range 0xC2 0xDF b\<close> \<open>\<not> in_range 0xE0 0xEF b\<close>
          by (simp add: Cons split: if_splits)
      qed (use 4 \<open>is_utf8 (x @ c # y)\<close> nc in \<open>auto simp: Cons split: if_splits list.splits\<close>)
    qed
  qed
qed

lemma split_on_utf8: "is_utf8 s \<Longrightarrow> byte_val c < 0x80 \<Longrightarrow> x \<in> set (split_on c s) \<Longrightarrow> is_utf8 x"
proof (induction "length s" arbitrary: s x rule: less_induct)
  case less
  show ?case
  proof (cases "c \<in> set s")
    case False
    then show ?thesis using less.prems by (simp add: split_on_free)
  next
    case True
    then obtain u v where s: "s = u @ c # v" "c \<notin> set u" using split_list_first by metis
    then have "is_utf8 u" "is_utf8 v" using is_utf8_before_ascii less.prems by blast+
    moreover have "x = u \<or> x \<in> set (split_on c v)" using less.prems(3) s by (simp add: split_on_append)
    ultimately show ?thesis using less.hyps [of v x] less.prems(2) s(1) by auto
  qed
qed

lemma is_utf8_join: "\<forall>x \<in> set xs. is_utf8 x \<Longrightarrow> is_utf8 sep \<Longrightarrow> is_utf8 (join_with sep xs)"
  by (induction sep xs rule: join_with.induct) auto

lemma parse_utf8:
  assumes "is_utf8 input" "page_path_parse input = Inr p"
  shows "utf8_page p"
proof -
  have wf: "wf_page_path p" and i: "input = as_str p @ ''.md'' \<or> input = as_str p"
    using assms(2) by (auto simp: parse_Inr_iff)
  then have "is_utf8 (as_str p)" using assms(1) is_utf8_md by auto
  moreover have "split_on (CHR ''/'') (as_str p) = segments p"
    using wf wf_segments_join by (auto simp: wf_page_path_def as_str_def)
  moreover have "byte_val (CHR ''/'') < 0x80" by (simp add: byte_val_def)
  ultimately have "\<forall>c \<in> set (segments p). is_utf8 c" using split_on_utf8 by metis
  then show ?thesis using wf wf_page_pathD(1) [OF wf] by (simp add: utf8_page_def file_stem_def)
qed

lemma fs_scan_utf8:
  assumes "fs_scan s = (Inr es, s')" "fs_inv s" "honest s" "e \<in> set es" "parsed e = Some p"
  shows "utf8_page p"
proof -
  obtain q where "e = scan_entry q" using fs_scan_spec(4) [OF assms(1-3)] assms(4) by blast
  then have "page_path_parse (relative_to_logical q) = Inr p"
    using assms(5) by (simp add: scan_entry_def Let_def ok_opt_Some_iff)
  moreover have "is_utf8 (relative_to_logical q)"
    unfolding relative_to_logical_def by (rule is_utf8_join) (auto simp: byte_val_def)
  ultimately show ?thesis using parse_utf8 by blast
qed

lemma fs_list_pages_utf8:
  assumes "fs_list_pages s = (Inr ps, s')" "fs_inv s" "honest s" "p \<in> set ps"
  shows "utf8_page p"
proof -
  obtain q where "page_path_parse (relative_to_logical q) = Inr p"
    using fs_list_pages_spec(4) [OF assms(1-3)] assms(4) by blast
  moreover have "is_utf8 (relative_to_logical q)"
    unfolding relative_to_logical_def by (rule is_utf8_join) (auto simp: byte_val_def)
  ultimately show ?thesis using parse_utf8 by blast
qed

end
