(* ===== verification/Memory_Store.thy ===== *)
theory Memory_Store
  imports Fs_Scan
begin

text \<open>
  The storage interface (\<^verbatim>\<open>services/memory_rs/src/store.rs\<close>): the operations of the
  \<^verbatim>\<open>MemoryStore\<close> trait as a record, the contract the service relies on as a locale over an abstract
  map from pages to bytes, and the proof that the filesystem store keeps that contract.

  The contract holds under every schedule of I/O faults that does not pretend that a file is missing:
  what an operation reports as done is done, and a write or removal that fails changes no page.
\<close>

section \<open>The interface\<close>

record 's memory_store =
  acquire_lock :: "'s \<Rightarrow> (memory_error, unit, 's) outcome"
  release_lock :: "'s \<Rightarrow> 's"
  read_bytes :: "page_path \<Rightarrow> 's \<Rightarrow> (memory_error, bytes \<times> revision, 's) outcome"
  exists_page :: "page_path \<Rightarrow> 's \<Rightarrow> (memory_error, bool, 's) outcome"
  write_bytes :: "page_path \<Rightarrow> bytes \<Rightarrow> 's \<Rightarrow> (memory_error, revision, 's) outcome"
  remove_file :: "page_path \<Rightarrow> 's \<Rightarrow> (memory_error, unit, 's) outcome"
  commit_move :: "page_path \<Rightarrow> page_path \<Rightarrow> bytes \<Rightarrow> (page_path \<times> bytes) list \<Rightarrow> 's \<Rightarrow> (memory_error, unit, 's) outcome"
  list_store_pages :: "'s \<Rightarrow> (memory_error, page_path list, 's) outcome"
  scan_store :: "'s \<Rightarrow> (memory_error, scanned_file list, 's) outcome"

definition with_lock :: "'s memory_store \<Rightarrow> ('s \<Rightarrow> (memory_error, 'a, 's) outcome) \<Rightarrow> 's \<Rightarrow> (memory_error, 'a, 's) outcome" where
  "with_lock st operation s =
     try_io (acquire_lock st s) (\<lambda>_ s.
       case operation s of (r, s') \<Rightarrow> (r, release_lock st s'))"

definition fs_store :: "deps \<Rightarrow> fsys memory_store" where
  "fs_store d = \<lparr>
     acquire_lock = fs_acquire_lock,
     release_lock = fs_release_lock,
     read_bytes = fs_read_bytes d,
     exists_page = fs_exists,
     write_bytes = fs_write_bytes d,
     remove_file = fs_remove_page,
     commit_move = fs_commit_move,
     list_store_pages = fs_list_pages,
     scan_store = fs_scan\<rparr>"

section \<open>The contract\<close>

locale page_store =
  fixes st :: "'s memory_store" and digest :: "bytes \<Rightarrow> revision"
    and pages_of :: "'s \<Rightarrow> page_path \<rightharpoonup> bytes" and store_inv :: "'s \<Rightarrow> bool"
    and valid :: "page_path \<Rightarrow> bool" and listed :: "page_path \<Rightarrow> bool"
  assumes lock: "store_inv s \<Longrightarrow> acquire_lock st s = (rl, s') \<Longrightarrow> store_inv s' \<and> pages_of s' = pages_of s"
    and unlock: "store_inv s \<Longrightarrow> store_inv (release_lock st s) \<and> pages_of (release_lock st s) = pages_of s"
    and read_keeps: "store_inv s \<Longrightarrow> read_bytes st p s = (rr, s') \<Longrightarrow> store_inv s' \<and> pages_of s' = pages_of s"
    and read_found: "store_inv s \<Longrightarrow> valid p \<Longrightarrow> read_bytes st p s = (Inr (bs, rv), s') \<Longrightarrow>
      pages_of s p = Some bs \<and> rv = digest bs"
    and read_missing: "store_inv s \<Longrightarrow> valid p \<Longrightarrow> read_bytes st p s = (Inl (NotFound q), s') \<Longrightarrow> pages_of s p = None"
    and exists_keeps: "store_inv s \<Longrightarrow> exists_page st p s = (re, s') \<Longrightarrow> store_inv s' \<and> pages_of s' = pages_of s"
    and exists_found: "store_inv s \<Longrightarrow> valid p \<Longrightarrow> exists_page st p s = (Inr True, s') \<Longrightarrow> pages_of s p \<noteq> None"
    and write_page: "store_inv s \<Longrightarrow> valid p \<Longrightarrow> write_bytes st p bs s = (rw, s') \<Longrightarrow> store_inv s' \<and>
      (case rw of Inr rv \<Rightarrow> rv = digest bs \<and> pages_of s' = (pages_of s)(p \<mapsto> bs) | Inl _ \<Rightarrow> pages_of s' = pages_of s)"
    and remove_page: "store_inv s \<Longrightarrow> valid p \<Longrightarrow> remove_file st p s = (rd, s') \<Longrightarrow> store_inv s' \<and>
      pages_of s' = (case rd of Inr _ \<Rightarrow> (pages_of s)(p := None) | Inl _ \<Rightarrow> pages_of s)"
    and move_page: "store_inv s \<Longrightarrow> valid src \<Longrightarrow> valid dst \<Longrightarrow> \<forall>p \<in> fst ` set reps. valid p \<Longrightarrow>
      commit_move st src dst bs reps s = (Inr u, s') \<Longrightarrow>
      store_inv s' \<and> src \<notin> fst ` set reps \<and> dst \<notin> fst ` set reps \<and>
      pages_of s' = (pages_of s)(src := None, dst \<mapsto> bs) ++ map_of reps"
    and move_inv: "store_inv s \<Longrightarrow> commit_move st src dst bs reps s = (rm, s') \<Longrightarrow> store_inv s'"
    and list_keeps: "store_inv s \<Longrightarrow> list_store_pages st s = (rp, s') \<Longrightarrow> store_inv s' \<and> pages_of s' = pages_of s"
    and list_sorted: "store_inv s \<Longrightarrow> list_store_pages st s = (Inr ps, s') \<Longrightarrow> sorted ps"
    and list_complete: "store_inv s \<Longrightarrow> list_store_pages st s = (Inr ps, s') \<Longrightarrow> listed p \<Longrightarrow> pages_of s p \<noteq> None \<Longrightarrow>
      p \<in> set ps"
    and list_valid: "store_inv s \<Longrightarrow> list_store_pages st s = (Inr ps, s') \<Longrightarrow> p \<in> set ps \<Longrightarrow> valid p"
    and scan_keeps: "store_inv s \<Longrightarrow> scan_store st s = (rs, s') \<Longrightarrow> store_inv s' \<and> pages_of s' = pages_of s"
    and scan_complete: "store_inv s \<Longrightarrow> scan_store st s = (Inr es, s') \<Longrightarrow> listed p \<Longrightarrow> pages_of s p \<noteq> None \<Longrightarrow>
      \<exists>e \<in> set es. parsed e = Some p"
    and scan_valid: "store_inv s \<Longrightarrow> scan_store st s = (Inr es, s') \<Longrightarrow> e \<in> set es \<Longrightarrow> parsed e = Some p \<Longrightarrow> valid p"
begin

lemma locked_keeps:
  assumes "store_inv s" "with_lock st op s = (r, s')"
    and "\<And>t r t'. store_inv t \<Longrightarrow> pages_of t = pages_of s \<Longrightarrow> op t = (r, t') \<Longrightarrow> store_inv t' \<and> P r (pages_of t')"
    and "\<And>e. P (Inl e) (pages_of s)"
  shows "store_inv s' \<and> P r (pages_of s')"
proof -
  obtain r1 s1 where l: "acquire_lock st s = (r1, s1)" by force
  note e1 = lock [OF assms(1) l]
  show ?thesis
  proof (cases r1)
    case (Inl e)
    then show ?thesis using assms(2,4) l e1 by (auto simp: with_lock_def)
  next
    case (Inr u)
    obtain r2 s2 where o: "op s1 = (r2, s2)" by force
    have "store_inv s2 \<and> P r2 (pages_of s2)" using assms(3) e1 o by blast
    moreover have "r = r2 \<and> s' = release_lock st s2" using assms(2) l Inr o by (simp add: with_lock_def)
    ultimately show ?thesis using unlock [of s2] by simp
  qed
qed

end

section \<open>The filesystem store keeps the contract\<close>

definition fs_good :: "fsys \<Rightarrow> bool" where
  "fs_good s \<longleftrightarrow> fs_inv s \<and> honest s"

lemma fs_good_ok: "store_ok s s' \<Longrightarrow> fs_good s \<Longrightarrow> fs_good s'"
  by (simp add: fs_good_def store_ok_def honest_def)

lemma fs_good_nodes: "nodes s' = nodes s \<Longrightarrow> frame s s' \<Longrightarrow> fs_good s \<Longrightarrow> fs_good s' \<and> pages s' = pages s"
  using store_ok_nodes fs_good_ok md_view_nodes pages_md_view by metis

lemma lock_not_md: "\<not> md_path [LOCK_FILE_NAME]"
  by (simp add: md_path_def LOCK_FILE_NAME_def suffix_def)

lemma open_lock_file_effect:
  assumes "open_lock_file s = (r, s')"
  shows "fs_ok s s'" "md_view s' = md_view s"
proof -
  have pe: "parent_error s [LOCK_FILE_NAME] = None" by (auto simp: parent_error_None_iff strict_prefix_def prefix_Cons)
  have inv: "fs_inv s \<longrightarrow> fs_inv (put [LOCK_FILE_NAME] (NFile []) (s\<lparr>op_count := k\<rparr>))"
    if "lookup s [LOCK_FILE_NAME] = None" for k
    using that pe by (auto intro!: fs_inv_put)
  have "fs_ok s s' \<and> (\<exists>n. lookup s' = (lookup s)([LOCK_FILE_NAME] := n))"
    using assms inv unfolding open_lock_file_def
    by (auto elim!: fs_prim_cases split: fs_splits simp: fs_ok_def fun_eq_iff)
  then show "fs_ok s s'" "md_view s' = md_view s" using md_view_upd(2) [OF _ lock_not_md] by blast+
qed

lemma fs_lock_effect:
  assumes "fs_prim OpLock (\<lambda>s. (Inr (), s)) s = (r, s')"
  shows "nodes s' = nodes s" "frame s s'"
  using assms by (auto elim!: fs_prim_cases)

lemma fs_acquire_lock_effect:
  assumes "fs_acquire_lock s = (r, s')"
  shows "fs_ok s s' \<and> md_view s' = md_view s"
proof -
  obtain r1 s1 where o: "open_lock_file s = (r1, s1)" by force
  note e1 = open_lock_file_effect [OF o]
  obtain r2 s2 where l: "fs_prim OpLock (\<lambda>s. (Inr (), s)) s1 = (r2, s2)" by force
  note e2 = fs_lock_effect [OF l]
  have "s' = (case r1 of Inl _ \<Rightarrow> s1 | Inr _ \<Rightarrow> s2)"
    using assms by (auto simp: fs_acquire_lock_def o l io_res_def split: sum.splits)
  moreover have "fs_ok s s2" using fs_ok_trans [OF e1(1) fs_ok_nodes [OF e2]] .
  moreover have "md_view s2 = md_view s" using md_view_nodes [OF e2(1)] e1(2) by simp
  ultimately show ?thesis using e1 by (auto split: sum.splits)
qed

lemma fs_release_lock_good:
  assumes "fs_good s"
  shows "fs_good (fs_release_lock s) \<and> pages (fs_release_lock s) = pages s"
proof -
  obtain r s' where l: "fs_prim OpLock (\<lambda>s. (Inr (), s)) s = (r :: (io_error, unit) result, s')" by force
  then have "fs_release_lock s = s'" by (simp add: fs_release_lock_def)
  then show ?thesis using fs_good_nodes [OF fs_lock_effect [OF l] assms] by simp
qed

lemma fs_read_bytes_missing:
  assumes "fs_good s" "wf_page_path p" "fs_read_bytes d p s = (Inl (NotFound q), s')"
  shows "pages s p = None"
proof (rule ccontr)
  assume "pages s p \<noteq> None"
  then obtain b where b: "lookup s (file_components p) = Some (NFile b)"
    using assms(2) by (auto simp: pages_def md_view_def)
  obtain r1 s1 where w: "resolve_within p s = (r1, s1)" by force
  note e1 = resolve_within_effect [OF w]
  have l: "lookup s1 = lookup s" using e1(1) by (rule lookup_nodes)
  have g: "fs_inv s1" "honest s1" using assms(1) fs_good_nodes [OF e1(1,2)] by (auto simp: fs_good_def)
  show False
  proof (cases r1)
    case (Inl e)
    then have "e = NotFound q" using assms(3) w by (simp add: fs_read_bytes_def)
    moreover have "resolve_loop cur cs t = (Inl (NotFound q), t') \<Longrightarrow> False" for cur cs t t'
      by (induction cs arbitrary: cur t)
         (auto simp: try_io_Inl_iff reject_symlink_def split: prod.splits sum.splits if_splits)
    ultimately show False using w Inl by (auto simp: resolve_within_def)
  next
    case (Inr f)
    then have f: "f = file_components p" using e1(3) by simp
    have "parent_error s1 f = None" using g(1) b by (simp add: fs_inv_def l f)
    then show False
      using assms(3) w Inr b g(2)
      by (auto simp: fs_read_bytes_def fs_read_def fs_prim_def under_dirs_def f l honest_def Let_def
          split: option.splits if_splits)
  qed
qed

text \<open>Every step of the transaction keeps the tree invariant, on the error paths too.\<close>

lemma rename_snd_ok: "fs_ok s (snd (fs_rename p q s))"
  using fs_rename_effect(1) [of p q s] by (metis prod.collapse)

lemma rename_all_ok: "fs_ok s (rename_all l s)"
  by (induction l s rule: rename_all.induct) (auto intro: fs_ok_trans rename_snd_ok)

lemma remove_all_ok: "fs_ok s (remove_all_files l s)"
  by (induction l s rule: remove_all_files.induct) (auto intro: fs_ok_trans remove_file_snd(1))

lemma cleanup_ok: "fs_ok s (cleanup_staged l s)"
  by (induction l s rule: cleanup_staged.induct) (auto intro: fs_ok_trans remove_file_snd(1))

lemma resolve_fs_ok: "resolve_within p s = (r, s') \<Longrightarrow> fs_ok s s'"
  using resolve_within_effect(1,2) fs_ok_nodes by blast

lemma stage_replacements_ok: "stage_replacements reps tid staged s = (r, s') \<Longrightarrow> fs_ok s s'"
proof (induction reps arbitrary: staged s)
  case (Cons x rest)
  obtain path bs where x: "x = (path, bs)" by (cases x)
  obtain r1 s1 where w: "resolve_within path s = (r1, s1)" by force
  show ?case
  proof (cases r1)
    case (Inl e)
    then show ?thesis using Cons.prems resolve_fs_ok [OF w] by (simp add: x w)
  next
    case r1: (Inr f)
    obtain r2 s2 where sc: "stage_change f bs tid staged s1 = (r2, s2)" by force
    have ok: "fs_ok s s2" using fs_ok_trans [OF resolve_fs_ok [OF w] stage_change_effect(1) [OF sc]] .
    show ?thesis
    proof (cases r2)
      case (Inl e)
      then show ?thesis using Cons.prems fs_ok_trans [OF ok cleanup_ok] by (auto simp: x w r1 sc)
    next
      case (Inr st)
      then have "stage_replacements rest tid st s2 = (r, s')" using Cons.prems by (simp add: x w r1 sc)
      then show ?thesis using fs_ok_trans [OF ok Cons.IH] by blast
    qed
  qed
qed simp

lemma backup_replacements_ok: "backup_replacements reps tid staged backups s = (r, s') \<Longrightarrow> fs_ok s s'"
proof (induction reps arbitrary: backups s)
  case (Cons x rest)
  obtain path bs where x: "x = (path, bs)" by (cases x)
  obtain r1 s1 where w: "resolve_within path s = (r1, s1)" by force
  show ?case
  proof (cases r1)
    case (Inl e)
    then show ?thesis using Cons.prems resolve_fs_ok [OF w] by (simp add: x w)
  next
    case r1: (Inr f)
    obtain r2 s2 where sc: "backup_file f tid backups s1 = (r2, s2)" by force
    have "md_path f" using resolve_within_effect(3) [OF w] r1 by simp
    then have ok: "fs_ok s s2" using fs_ok_trans [OF resolve_fs_ok [OF w] backup_file_effect(1) [OF sc]] by blast
    show ?thesis
    proof (cases r2)
      case (Inl e)
      have "fs_ok s (cleanup_staged staged (restore_backups backups s2))"
        unfolding restore_backups_def using fs_ok_trans [OF fs_ok_trans [OF ok rename_all_ok] cleanup_ok] .
      then show ?thesis using Cons.prems Inl by (auto simp: x w r1 sc)
    next
      case (Inr bk)
      then have "backup_replacements rest tid staged bk s2 = (r, s')" using Cons.prems by (simp add: x w r1 sc)
      then show ?thesis using fs_ok_trans [OF ok Cons.IH] by blast
    qed
  qed
qed simp

lemma install_staged_ok: "install_staged l staged backups installed s = (r, s') \<Longrightarrow> fs_ok s s'"
proof (induction l arbitrary: installed s)
  case (Cons x rest)
  obtain t f where x: "x = (t, f)" by (cases x)
  obtain r1 s1 where n: "fs_rename t f s = (r1, s1)" by force
  note ok = fs_rename_effect(1) [OF n]
  show ?case
  proof (cases r1)
    case (Inl e)
    have "fs_ok s (cleanup_staged staged (restore_backups backups (remove_installed installed s1)))"
      unfolding restore_backups_def remove_installed_def
      using fs_ok_trans [OF fs_ok_trans [OF fs_ok_trans [OF ok remove_all_ok] rename_all_ok] cleanup_ok] .
    then show ?thesis using Cons.prems Inl by (auto simp: x n)
  next
    case (Inr u)
    then have "install_staged rest staged backups (installed @ [f]) s1 = (r, s')" using Cons.prems by (simp add: x n)
    then show ?thesis using fs_ok_trans [OF ok Cons.IH] by blast
  qed
qed simp

lemma run_transaction_ok:
  assumes "run_transaction (file_components src) dst_file bs reps tid s = (r, s')"
  shows "fs_ok s s'"
proof -
  obtain r1 s1 where 1: "stage_change dst_file bs tid [] s = (r1, s1)" by force
  note ok1 = stage_change_effect(1) [OF 1]
  show ?thesis
  proof (cases r1)
    case (Inl e)
    then show ?thesis using assms 1 ok1 by (auto simp: run_transaction_def)
  next
    case r1: (Inr st)
    obtain r2 s2 where 2: "stage_replacements reps tid st s1 = (r2, s2)" by force
    have ok2: "fs_ok s s2" using fs_ok_trans [OF ok1 stage_replacements_ok [OF 2]] .
    show ?thesis
    proof (cases r2)
      case (Inl e)
      then show ?thesis using assms 1 r1 2 ok2 by (auto simp: run_transaction_def)
    next
      case r2: (Inr st')
      obtain r3 s3 where 3: "backup_file (file_components src) tid [] s2 = (r3, s3)" by force
      have ok3: "fs_ok s s3" using fs_ok_trans [OF ok2 backup_file_effect(1) [OF 3 md_path_file_components]] .
      show ?thesis
      proof (cases r3)
        case (Inl e)
        then show ?thesis using assms 1 r1 2 r2 3 fs_ok_trans [OF ok3 cleanup_ok] by (auto simp: run_transaction_def)
      next
        case r3: (Inr bk)
        obtain r4 s4 where 4: "backup_replacements reps tid st' bk s3 = (r4, s4)" by force
        have ok4: "fs_ok s s4" using fs_ok_trans [OF ok3 backup_replacements_ok [OF 4]] .
        show ?thesis
        proof (cases r4)
          case (Inl e)
          then show ?thesis using assms 1 r1 2 r2 3 r3 4 ok4 by (auto simp: run_transaction_def)
        next
          case r4: (Inr bk')
          obtain r5 s5 where 5: "install_staged st' st' bk' [] s4 = (r5, s5)" by force
          have ok5: "fs_ok s s5" using fs_ok_trans [OF ok4 install_staged_ok [OF 5]] .
          show ?thesis
            using assms 1 r1 2 r2 3 r3 4 r4 5 ok5 fs_ok_trans [OF ok5 cleanup_ok]
            by (cases r5) (auto simp: run_transaction_def)
        qed
      qed
    qed
  qed
qed

lemma fs_commit_move_ok:
  assumes "fs_commit_move src dst bs reps s = (r, s')"
  shows "store_ok s s'"
  using assms
proof (cases rule: fs_commit_move_cases)
  case (rejected e)
  then show ?thesis using store_ok_nodes by blast
next
  case (run s5)
  let ?s5 = "s5\<lparr>temp_file_counter := temp_file_counter s5 + 1\<rparr>"
  have "nodes ?s5 = nodes s" using run(1) by simp
  then have "store_ok s ?s5" using fs_inv_nodes [of ?s5 s] run(2) by (simp add: store_ok_def frame_def)
  then show ?thesis using store_ok_trans store_ok_fs [OF run_transaction_ok [OF run(3)]] by blast
qed

lemma pages_move:
  assumes "md_view s' = (md_view s)(file_components src := None, file_components dst \<mapsto> bs) ++ map_of (rep_files reps)"
    and "\<forall>p \<in> insert src (insert dst (fst ` set reps)). wf_page_path p"
  shows "pages s' = (pages s)(src := None, dst \<mapsto> bs) ++ map_of reps"
proof
  fix p
  have inj: "file_components p = file_components q \<longleftrightarrow> p = q"
    if "wf_page_path p" "wf_page_path q" for q using that file_components_inj by blast
  have reps: "map_of (rep_files reps) (file_components p) = map_of reps p" if "wf_page_path p"
    using assms(2) that
  proof (induction reps)
    case (Cons x reps)
    then show ?case using file_components_inj [of p "fst x"] by (cases x) auto
  qed simp
  have none: "map_of reps p = None" if "\<not> wf_page_path p"
    using assms(2) that by (auto simp: map_of_eq_None_iff)
  show "pages s' p = ((pages s)(src := None, dst \<mapsto> bs) ++ map_of reps) p"
    using assms none reps inj [of src] inj [of dst]
    by (cases "wf_page_path p") (auto simp: pages_def map_add_def split: option.splits)
qed

interpretation fs: page_store "fs_store d" "revision_of d" pages fs_good utf8_page listable for d
proof
  note defs = fs_store_def
  fix s s' :: fsys and p q src dst :: page_path and bs rv reps ps u es e
  fix rl rd rm :: "(memory_error, unit) result" and rr re rw rp rs
  assume good: "fs_good s"
  show "fs_good s' \<and> pages s' = pages s" if "acquire_lock (fs_store d) s = (rl, s')"
    using fs_acquire_lock_effect [of s rl s'] that good by (auto simp: defs intro: fs_good_ok store_ok_fs pages_md_view)
  show "fs_good (release_lock (fs_store d) s) \<and> pages (release_lock (fs_store d) s) = pages s"
    using fs_release_lock_good [OF good] by (simp add: defs)
  show "fs_good s' \<and> pages s' = pages s" if "read_bytes (fs_store d) p s = (rr, s')"
    using fs_read_bytes_effect(1,2) [of d p s rr s'] that good fs_good_nodes [of s' s] by (simp add: defs)
  show "pages s p = Some bs \<and> rv = revision_of d bs"
    if "utf8_page p" "read_bytes (fs_store d) p s = (Inr (bs, rv), s')"
    using fs_read_bytes_effect(3) [of d p s _ s' bs rv] that by (simp add: defs pages_def utf8_page_def)
  show "pages s p = None" if "utf8_page p" "read_bytes (fs_store d) p s = (Inl (NotFound qq), s')" for qq
    using fs_read_bytes_missing [OF good, of p d qq s'] that by (simp add: defs utf8_page_def)
  show "fs_good s' \<and> pages s' = pages s" if "exists_page (fs_store d) p s = (re, s')"
    using fs_exists_effect(1,2) [of p s re s'] that good fs_good_nodes [of s' s] by (simp add: defs)
  show "pages s p \<noteq> None" if "utf8_page p" "exists_page (fs_store d) p s = (Inr True, s')"
    using fs_exists_effect(3) [of p s "Inr True" s'] that by (simp add: defs pages_def utf8_page_def)
  show "fs_good s' \<and> (case rw of Inr rv \<Rightarrow> rv = revision_of d bs \<and> pages s' = (pages s)(p \<mapsto> bs) | Inl _ \<Rightarrow> pages s' = pages s)"
    if "utf8_page p" "write_bytes (fs_store d) p bs s = (rw, s')"
    using fs_write_bytes_effect [of d p bs s rw s'] that good pages_md_view [of s' s] pages_upd [of s' s p "Some bs"]
    by (cases rw) (auto simp: defs utf8_page_def intro: fs_good_ok)
  show "fs_good s' \<and> pages s' = (case rd of Inr _ \<Rightarrow> (pages s)(p := None) | Inl _ \<Rightarrow> pages s)"
    if "utf8_page p" "remove_file (fs_store d) p s = (rd, s')"
    using fs_remove_page_effect [of p s rd s'] that good pages_md_view [of s' s] pages_upd [of s' s p None]
    by (cases rd) (auto simp: defs utf8_page_def intro: fs_good_ok)
  show "fs_good s' \<and> src \<notin> fst ` set reps \<and> dst \<notin> fst ` set reps \<and> pages s' = (pages s)(src := None, dst \<mapsto> bs) ++ map_of reps"
    if "utf8_page src" "utf8_page dst" "\<forall>p \<in> fst ` set reps. utf8_page p" "commit_move (fs_store d) src dst bs reps s = (Inr u, s')"
    using fs_commit_move_success [of src dst bs reps s u s'] that good pages_move [of s' s src dst bs reps]
    by (auto simp: defs utf8_page_def intro: fs_good_ok)
  show "fs_good s' \<and> pages s' = pages s" if "list_store_pages (fs_store d) s = (rp, s')"
    using fs_list_pages_keeps [of s rp s'] that good fs_good_nodes [of s' s] by (simp add: defs)
  show "sorted ps" if "list_store_pages (fs_store d) s = (Inr ps, s')"
    using fs_list_pages_spec(3) [of s ps s'] that good by (simp add: defs fs_good_def)
  show "p \<in> set ps" if "list_store_pages (fs_store d) s = (Inr ps, s')" "listable p" "pages s p \<noteq> None"
    using fs_list_pages_complete [of s ps s' p] that good by (simp add: defs fs_good_def)
  show "utf8_page p" if "list_store_pages (fs_store d) s = (Inr ps, s')" "p \<in> set ps"
    using fs_list_pages_utf8 [of s ps s' p] that good by (simp add: defs fs_good_def)
  show "fs_good s'" if "commit_move (fs_store d) src dst bs reps s = (rm, s')"
    using fs_good_ok [OF fs_commit_move_ok good] that by (auto simp: defs)
  show "fs_good s' \<and> pages s' = pages s" if "scan_store (fs_store d) s = (rs, s')"
    using fs_scan_keeps [of s rs s'] that good fs_good_nodes [of s' s] by (simp add: defs)
  show "\<exists>e \<in> set es. parsed e = Some p" if "scan_store (fs_store d) s = (Inr es, s')" "listable p" "pages s p \<noteq> None"
    using fs_scan_complete [of s es s' p] that good by (simp add: defs fs_good_def)
  show "utf8_page p" if "scan_store (fs_store d) s = (Inr es, s')" "e \<in> set es" "parsed e = Some p"
    using fs_scan_utf8 [of s es s' e p] that good by (simp add: defs fs_good_def)
qed

end
