(* ===== verification/Links.thy ===== *)
theory Links
  imports Page_Path
begin

text \<open>
  Inline Markdown links (\<^verbatim>\<open>services/memory_rs/src/links.rs\<close>): scanning a page body for
  \<^verbatim>\<open>[text](target)\<close>, resolving a target against the page's directory, computing the relative
  target from one page to another, and rewriting the links to a moved page.

  The scanner is the code's loop over a byte index.  Its reference definition \<open>scan\<close> works on the
  rest of the text instead; the two are proved to agree, and the facts about rewriting are proved
  on the reference.
\<close>

section \<open>Definitions\<close>

record parsed_link =
  link_text :: string
  raw_target :: string
  resolved :: "page_path option"
  target_start :: nat
  target_end :: nat

text \<open>\<^verbatim>\<open>page_path.parent().map_or_else(Vec::new, |parent| parent.segments().to_vec())\<close>.\<close>

definition base_dir :: "page_path \<Rightarrow> string list" where
  "base_dir p = (case parent p of None \<Rightarrow> [] | Some q \<Rightarrow> segments q)"

text \<open>The part of a target before the first \<^verbatim>\<open>#\<close> or \<^verbatim>\<open>?\<close>.\<close>

definition without_fragment :: "string \<Rightarrow> string" where
  "without_fragment s = takeWhile (\<lambda>c. c \<noteq> CHR ''#'' \<and> c \<noteq> CHR ''?'') s"

fun walk_parts :: "string list \<Rightarrow> string list \<Rightarrow> string list" where
  "walk_parts segs [] = segs"
| "walk_parts segs (part # parts) =
     (if part = [] \<or> part = ''.'' then walk_parts segs parts
      else if part = ''..'' then walk_parts (butlast segs) parts
      else walk_parts (segs @ [part]) parts)"

definition resolve_relative_target :: "string list \<Rightarrow> string \<Rightarrow> page_path option" where
  "resolve_relative_target dir raw =
     (let wf = without_fragment (trim raw) in
      if wf = [] then None
      else if contains_sub ''://'' wf \<or> prefix ''mailto:'' wf then None
      else if prefix ''/'' wf then None
      else
        (let segs = walk_parts dir (split_on (CHR ''/'') wf) in
         if segs = [] then None
         else ok_opt (page_path_parse (join_with ''/'' segs))))"

function parse_links_loop :: "string list \<Rightarrow> string \<Rightarrow> nat \<Rightarrow> parsed_link list" where
  "parse_links_loop dir body index =
     (case find_char (CHR ''['') (drop index body) of
        None \<Rightarrow> []
      | Some open_bracket \<Rightarrow>
          (let bracket_pos = index + open_bracket in
           if bracket_pos > 0 \<and> body ! (bracket_pos - 1) = CHR ''!''
           then parse_links_loop dir body (bracket_pos + 1)
           else
             (case find_char (CHR '']'') (drop (bracket_pos + 1) body) of
                None \<Rightarrow> []
              | Some close_bracket_rel \<Rightarrow>
                  (let close_bracket = bracket_pos + 1 + close_bracket_rel;
                       after_close = close_bracket + 1 in
                   if \<not> prefix ''('' (drop after_close body)
                   then parse_links_loop dir body (bracket_pos + 1)
                   else
                     (case find_char (CHR '')'') (drop (after_close + 1) body) of
                        None \<Rightarrow> []
                      | Some close_paren_rel \<Rightarrow>
                          (let close_paren = after_close + 1 + close_paren_rel;
                               target = take close_paren_rel (drop (after_close + 1) body) in
                           \<lparr>link_text = take close_bracket_rel (drop (bracket_pos + 1) body),
                            raw_target = target,
                            resolved = resolve_relative_target dir target,
                            target_start = after_close + 1,
                            target_end = close_paren\<rparr>
                           # parse_links_loop dir body (close_paren + 1)))))))"
  by pat_completeness auto
termination
  by (relation "measure (\<lambda>(dir, body, index). length body - index)")
     (auto simp: find_char_Some_iff)

declare parse_links_loop.simps [simp del]

definition parse_links :: "page_path \<Rightarrow> string \<Rightarrow> parsed_link list" where
  "parse_links page body = parse_links_loop (base_dir page) body 0"

text \<open>\<^verbatim>\<open>while common < from_dir.len() && common < to_dirs.len() && ...\<close>: the length of the common
  prefix.\<close>

fun common_len :: "string list \<Rightarrow> string list \<Rightarrow> nat" where
  "common_len (x # xs) (y # ys) = (if x = y then Suc (common_len xs ys) else 0)"
| "common_len _ _ = 0"

definition relative_target :: "string list \<Rightarrow> page_path \<Rightarrow> string" where
  "relative_target from_dir to_path =
     (let to_segments = segments to_path;
          to_dirs = take (length to_segments - 1) to_segments;
          common = common_len from_dir to_dirs;
          ups = length from_dir - common;
          parts = replicate ups ''..'' @ drop common to_dirs
                  @ (if to_segments = [] then [] else [last to_segments])
      in join_with ''/'' parts @ ''.md'')"

fun rewrite_loop :: "string list \<Rightarrow> string \<Rightarrow> page_path \<Rightarrow> page_path \<Rightarrow> parsed_link list \<Rightarrow> nat
    \<Rightarrow> string \<times> bool" where
  "rewrite_loop dir body source destination [] cursor = (drop cursor body, False)"
| "rewrite_loop dir body source destination (link # links) cursor =
     (if resolved link \<noteq> Some source then rewrite_loop dir body source destination links cursor
      else
        (case rewrite_loop dir body source destination links (target_end link) of
           (rest, _) \<Rightarrow>
             (take (target_start link - cursor) (drop cursor body)
              @ relative_target dir destination @ rest, True)))"

definition rewrite_links ::
  "page_path \<Rightarrow> string \<Rightarrow> page_path \<Rightarrow> page_path \<Rightarrow> string \<times> bool" where
  "rewrite_links page body source destination =
     rewrite_loop (base_dir page) body source destination (parse_links page body) 0"

section \<open>Resolution of targets\<close>

lemma walk_parts_append: "walk_parts segs (xs @ ys) = walk_parts (walk_parts segs xs) ys"
  by (induction segs xs rule: walk_parts.induct) auto

lemma walk_parts_ups: "n \<le> length segs \<Longrightarrow> walk_parts segs (replicate n ''..'') = take (length segs - n) segs"
proof (induction n arbitrary: segs)
  case (Suc n)
  then have "n \<le> length (butlast segs)" by simp
  from Suc.IH [OF this] Suc.prems show ?case by (simp add: take_butlast)
qed simp

lemma walk_parts_plain: "\<forall>p \<in> set parts. wf_segment p \<Longrightarrow> walk_parts segs parts = segs @ parts"
  by (induction parts arbitrary: segs) (auto simp: wf_segment_def)

lemma common_len_le: "common_len xs ys \<le> length xs" "common_len xs ys \<le> length ys"
  by (induction xs ys rule: common_len.induct) auto

lemma common_len_take: "take (common_len xs ys) xs = take (common_len xs ys) ys"
  by (induction xs ys rule: common_len.induct) auto

text \<open>Every resolved target is a well-formed page path.\<close>

lemma resolve_wf: "resolve_relative_target dir raw = Some p \<Longrightarrow> wf_page_path p"
  by (auto simp: resolve_relative_target_def Let_def ok_opt_Some_iff split: if_splits)

definition link_parts :: "string list \<Rightarrow> page_path \<Rightarrow> string list" where
  "link_parts dir p =
     (let dirs = butlast (segments p); k = common_len dir dirs
      in replicate (length dir - k) ''..'' @ drop k dirs @ [file_stem p @ ''.md''])"

lemma relative_target_parts:
  assumes "segments p \<noteq> []"
  shows "relative_target dir p = join_with ''/'' (link_parts dir p)"
  using assms
  by (simp add: relative_target_def link_parts_def Let_def file_stem_def butlast_conv_take
      join_with_append_last)

text \<open>What a link target cannot carry: the characters that end a link or cut a fragment, leading
  white space, and a leading \<^verbatim>\<open>mailto:\<close>.\<close>

definition target_safe :: "string \<Rightarrow> bool" where
  "target_safe t \<longleftrightarrow> CHR '')'' \<notin> set t \<and> CHR ''#'' \<notin> set t \<and> CHR ''?'' \<notin> set t \<and> \<not> ws_start t \<and>
     \<not> prefix ''mailto:'' t"

lemma without_fragment_id: "CHR ''#'' \<notin> set t \<Longrightarrow> CHR ''?'' \<notin> set t \<Longrightarrow> without_fragment t = t"
  by (auto simp: without_fragment_def takeWhile_eq_all_conv)

lemma not_ws_end_md: "\<not> ws_end (s @ ''.md'')"
proof -
  have "\<not> suffix w (s @ ''.md'')" if "w \<in> set ws_seqs" for w
    using that by (auto simp: ws_seqs_def suffix_def append_eq_append_conv2 Cons_eq_append_conv append_eq_Cons_conv)
  then show ?thesis by (auto simp: ws_end_def list_ex_iff)
qed

lemma no_empty_part_no_url:
  assumes "xs \<noteq> []" "\<forall>x \<in> set xs. x \<noteq> [] \<and> CHR ''/'' \<notin> set x"
  shows "\<not> contains_sub ''//'' (join_with ''/'' xs)"
proof
  assume "contains_sub ''//'' (join_with ''/'' xs)"
  then obtain u v where uv: "join_with ''/'' xs = u @ ''//'' @ v"
    by (auto simp: contains_sub_iff)
  have "split_on (CHR ''/'') (join_with ''/'' xs) = xs"
    using assms by (intro split_join) auto
  moreover have "[] \<in> set (tl (split_on (CHR ''/'') (u @ ''//'' @ v)))"
    by (induction u) (auto split: list.splits dest: list.set_sel(2))
  ultimately show False using assms uv by (metis list.set_sel(2) tl_Nil list.set(1) empty_iff)
qed

lemma link_parts_wf:
  assumes "wf_page_path p"
  shows "link_parts dir p \<noteq> []" "\<forall>x \<in> set (link_parts dir p). x \<noteq> [] \<and> CHR ''/'' \<notin> set x"
proof -
  show "link_parts dir p \<noteq> []" by (simp add: link_parts_def Let_def)
  have "x \<noteq> [] \<and> CHR ''/'' \<notin> set x" if "x \<in> set (link_parts dir p)" for x
    using that wf_page_pathD(3) [OF assms, THEN wf_segmentD(1)]
      wf_page_pathD(3) [OF assms, THEN wf_segmentD(4)] wf_segmentD(4) [OF wf_page_pathD(4) [OF assms]]
    by (auto simp: link_parts_def Let_def dest: in_set_dropD)
  then show "\<forall>x \<in> set (link_parts dir p). x \<noteq> [] \<and> CHR ''/'' \<notin> set x" by blast
qed

lemma relative_target_not_absolute:
  assumes "wf_page_path p"
  shows "\<not> prefix ''/'' (relative_target dir p)"
proof -
  have "segments p \<noteq> []" using assms by (simp add: wf_page_path_def)
  then obtain x xs where x: "link_parts dir p = x # xs" and t: "relative_target dir p = join_with ''/'' (x # xs)"
    using link_parts_wf(1) [OF assms] by (metis neq_Nil_conv relative_target_parts)
  from link_parts_wf(2) [OF assms, of dir] x have "x \<noteq> []" "CHR ''/'' \<notin> set x" by auto
  then show ?thesis unfolding t by (cases x; cases xs) auto
qed

lemma walk_link_parts:
  assumes "wf_page_path p"
  shows "walk_parts dir (link_parts dir p) = butlast (segments p) @ [file_stem p @ ''.md'']"
proof -
  let ?dirs = "butlast (segments p)" and ?k = "common_len dir (butlast (segments p))"
  have dirs: "\<forall>x \<in> set (drop ?k ?dirs). wf_segment x"
    using assms by (auto simp: wf_page_path_def dest: in_set_dropD in_set_butlastD)
  have "wf_segment (file_stem p)"
    using assms by (auto simp: wf_page_path_def file_stem_def)
  then have stem: "walk_parts segs [file_stem p @ ''.md''] = segs @ [file_stem p @ ''.md'']" for segs
    by (auto simp: Cons_eq_append_conv dest: wf_segmentD(1))
  have "length dir - (length dir - ?k) = ?k" using common_len_le(1) [of dir ?dirs] by simp
  then show ?thesis
    using common_len_take [of dir ?dirs]
    by (simp add: link_parts_def Let_def walk_parts_append walk_parts_ups walk_parts_plain [OF dirs] stem
        del: walk_parts.simps)
qed

lemma resolve_relative_target_inverse:
  assumes wf: "wf_page_path p" and len: "length (as_str p) + 3 \<le> MAX_PATH_LENGTH"
    and safe: "target_safe (relative_target dir p)"
  shows "resolve_relative_target dir (relative_target dir p) = Some p"
proof -
  let ?t = "relative_target dir p"
  have ne: "segments p \<noteq> []" using wf by (simp add: wf_page_path_def)
  have t: "?t = join_with ''/'' (link_parts dir p)" by (rule relative_target_parts [OF ne])
  have "\<exists>s. ?t = s @ ''.md''" by (auto simp: relative_target_def Let_def)
  then have tr: "trim ?t = ?t" using safe not_ws_end_md by (auto simp: target_safe_def intro: trim_id)
  have frag: "without_fragment ?t = ?t" using safe by (simp add: target_safe_def without_fragment_id)
  have nonempty: "?t \<noteq> []" by (auto simp: relative_target_def Let_def)
  have "\<not> contains_sub ''//'' ?t"
    unfolding t using link_parts_wf [OF wf] by (rule no_empty_part_no_url)
  then have url: "\<not> contains_sub ''://'' ?t"
    by (auto simp: contains_sub_iff) (metis append.assoc append_Cons append_Nil)
  have "split_on (CHR ''/'') ?t = link_parts dir p"
    unfolding t using link_parts_wf [OF wf] by (intro split_join) auto
  then have "walk_parts dir (split_on (CHR ''/'') ?t) = file_components p"
    by (simp add: walk_link_parts [OF wf] file_components_def)
  moreover have "page_path_parse (join_with ''/'' (file_components p)) = Inr p"
    using wf len by (simp add: join_file_components parse_Inr_iff)
  ultimately show ?thesis
    using tr frag nonempty url relative_target_not_absolute [OF wf] safe
    by (simp add: resolve_relative_target_def Let_def target_safe_def file_components_def)
qed

section \<open>The scanner on the rest of the text\<close>

text \<open>Each link found is a triple: the text from the end of the previous target up to and including
  the opening parenthesis, the link text, and the target.  The second component is what is left
  after the last target.\<close>

type_synonym scanned = "(string \<times> string \<times> string) list \<times> string"

fun prepend :: "string \<Rightarrow> scanned \<Rightarrow> scanned" where
  "prepend x ([], r) = ([], x @ r)"
| "prepend x ((p, t, g) # ps, r) = ((x @ p, t, g) # ps, r)"

definition bang_before :: "bool \<Rightarrow> string \<Rightarrow> bool" where
  "bang_before bang pre = (if pre = [] then bang else last pre = CHR ''!'')"

function scan :: "bool \<Rightarrow> string \<Rightarrow> scanned" where
  "scan bang w =
     (case find_char (CHR ''['') w of
        None \<Rightarrow> ([], w)
      | Some i \<Rightarrow>
          (let after = drop (Suc i) w in
           if bang_before bang (take i w) then prepend (take (Suc i) w) (scan False after)
           else
             (case find_char (CHR '']'') after of
                None \<Rightarrow> ([], w)
              | Some j \<Rightarrow>
                  (let after2 = drop (Suc j) after in
                   if \<not> prefix ''('' after2 then prepend (take (Suc i) w) (scan False after)
                   else
                     (case find_char (CHR '')'') (drop 1 after2) of
                        None \<Rightarrow> ([], w)
                      | Some k \<Rightarrow>
                          (case prepend '')'' (scan False (drop (Suc k) (drop 1 after2))) of
                             (ps, r) \<Rightarrow>
                               ((take (Suc i) w @ take j after @ '']('', take j after,
                                 take k (drop 1 after2)) # ps, r)))))))"
  by pat_completeness auto
termination
  by (relation "measure (\<lambda>(bang, w). length w)") (auto simp: find_char_Some_iff)

declare scan.simps [simp del]

fun pieces :: "(string \<times> string \<times> string) list \<Rightarrow> string" where
  "pieces [] = []"
| "pieces ((p, t, g) # ps) = p @ g @ pieces ps"

definition unscan :: "scanned \<Rightarrow> string" where
  "unscan s = pieces (fst s) @ snd s"

definition retarget :: "(string \<Rightarrow> string) \<Rightarrow> scanned \<Rightarrow> scanned" where
  "retarget f s = (map (\<lambda>(p, t, g). (p, t, f g)) (fst s), snd s)"

definition wf_piece :: "string \<times> string \<times> string \<Rightarrow> bool" where
  "wf_piece l = (case l of (p, t, g) \<Rightarrow> suffix '']('' p \<and> CHR '')'' \<notin> set g)"

lemma unscan_prepend [simp]: "unscan (prepend x s) = x @ unscan s"
  by (cases "(x, s)" rule: prepend.cases) (auto simp: unscan_def)

lemma retarget_prepend [simp]: "retarget f (prepend x s) = prepend x (retarget f s)"
  by (cases "(x, s)" rule: prepend.cases) (auto simp: retarget_def)

lemma wf_piece_prepend:
  "\<forall>l \<in> set (fst s). wf_piece l \<Longrightarrow> \<forall>l \<in> set (fst (prepend x s)). wf_piece l"
  by (cases "(x, s)" rule: prepend.cases) (auto simp: wf_piece_def intro: suffix_appendI)

text \<open>The four ways a scan step can go, as equations.\<close>

lemma find_char_None: "c \<notin> set s \<Longrightarrow> find_char c s = None"
  by simp

lemma scan_none: "CHR ''['' \<notin> set w \<Longrightarrow> scan bang w = ([], w)"
  by (subst scan.simps) (simp add: find_char_None del: find_char_None_iff)

lemma scan_skip_bang:
  assumes "CHR ''['' \<notin> set u" "bang_before bang u"
  shows "scan bang (u @ CHR ''['' # v) = prepend (u @ ''['') (scan False v)"
  using assms by (subst scan.simps) simp

lemma scan_no_close:
  assumes "CHR ''['' \<notin> set u" "\<not> bang_before bang u" "CHR '']'' \<notin> set v"
  shows "scan bang (u @ CHR ''['' # v) = ([], u @ CHR ''['' # v)"
  using assms by (subst scan.simps) (simp add: find_char_None del: find_char_None_iff)

lemma scan_skip_plain:
  assumes "CHR ''['' \<notin> set u" "\<not> bang_before bang u" "CHR '']'' \<notin> set t" "\<not> prefix ''('' v"
  shows "scan bang (u @ CHR ''['' # t @ CHR '']'' # v) = prepend (u @ ''['') (scan False (t @ CHR '']'' # v))"
  using assms by (subst scan.simps) simp

lemma scan_no_paren:
  assumes "CHR ''['' \<notin> set u" "\<not> bang_before bang u" "CHR '']'' \<notin> set t" "CHR '')'' \<notin> set v"
  shows "scan bang (u @ CHR ''['' # t @ '']('' @ v) = ([], u @ CHR ''['' # t @ '']('' @ v)"
  using assms by (subst scan.simps) (simp add: find_char_None del: find_char_None_iff)

lemma scan_link:
  assumes "CHR ''['' \<notin> set u" "\<not> bang_before bang u" "CHR '']'' \<notin> set t" "CHR '')'' \<notin> set g"
  shows "scan bang (u @ CHR ''['' # t @ '']('' @ g @ CHR '')'' # v) =
     (case prepend '')'' (scan False v) of (ps, r) \<Rightarrow> ((u @ CHR ''['' # t @ '']('', t, g) # ps, r))"
  using assms by (subst scan.simps) simp

lemma split_at_char: "c \<in> set w \<Longrightarrow> \<exists>u v. w = u @ c # v \<and> c \<notin> set u"
  by (rule split_list_first)

lemma scan_cases [case_names none bang no_close plain no_paren link]:
  obtains
    "CHR ''['' \<notin> set w"
  | u v where "w = u @ CHR ''['' # v" "CHR ''['' \<notin> set u" "bang_before bang u"
  | u v where "w = u @ CHR ''['' # v" "CHR ''['' \<notin> set u" "\<not> bang_before bang u" "CHR '']'' \<notin> set v"
  | u t v where "w = u @ CHR ''['' # t @ CHR '']'' # v" "CHR ''['' \<notin> set u" "\<not> bang_before bang u"
      "CHR '']'' \<notin> set t" "\<not> prefix ''('' v"
  | u t v where "w = u @ CHR ''['' # t @ '']('' @ v" "CHR ''['' \<notin> set u" "\<not> bang_before bang u"
      "CHR '']'' \<notin> set t" "CHR '')'' \<notin> set v"
  | u t g v where "w = u @ CHR ''['' # t @ '']('' @ g @ CHR '')'' # v" "CHR ''['' \<notin> set u"
      "\<not> bang_before bang u" "CHR '']'' \<notin> set t" "CHR '')'' \<notin> set g"
proof (cases "CHR ''['' \<in> set w")
  case True
  then obtain u v where w: "w = u @ CHR ''['' # v" "CHR ''['' \<notin> set u" using split_at_char by metis
  show ?thesis
  proof (cases "bang_before bang u \<or> CHR '']'' \<notin> set v")
    case True
    then show ?thesis using w that(2,3) by blast
  next
    case False
    then obtain t x where v: "v = t @ CHR '']'' # x" "CHR '']'' \<notin> set t" using split_at_char by metis
    show ?thesis
    proof (cases "prefix ''('' x")
      case True
      then obtain y where x: "x = CHR ''('' # y" by (auto simp: prefix_def)
      show ?thesis
      proof (cases "CHR '')'' \<in> set y")
        case True
        then obtain g z where "y = g @ CHR '')'' # z" "CHR '')'' \<notin> set g" using split_at_char by metis
        then show ?thesis using w v x False that(6) by auto
      qed (use w v x False that(5) in auto)
    qed (use w v False that(4) in auto)
  qed
qed (use that(1) in auto)

lemma unscan_scan [simp]: "unscan (scan bang w) = w"
proof (induction w arbitrary: bang rule: length_induct)
  case (1 w)
  then have IH: "unscan (scan b v) = v" if "length v < length w" for b v using that by blast
  show ?case
  proof (cases rule: scan_cases [where w = w and bang = bang])
    case (link u t g v)
    then show ?thesis
      using IH [of v False] unscan_prepend [of "'')''" "scan False v"]
      by (cases "prepend '')'' (scan False v)") (simp add: scan_link [simplified] unscan_def)
  qed (simp_all add: IH scan_none scan_skip_bang scan_no_close scan_skip_plain scan_no_paren [simplified],
       simp_all add: unscan_def)
qed

lemma scan_wf_pieces: "\<forall>l \<in> set (fst (scan bang w)). wf_piece l"
proof (induction w arbitrary: bang rule: length_induct)
  case (1 w)
  then have IH: "\<forall>l \<in> set (fst (scan b v)). wf_piece l" if "length v < length w" for b v using that by blast
  show ?case
  proof (cases rule: scan_cases [where w = w and bang = bang])
    case (link u t g v)
    have "\<forall>l \<in> set (fst (prepend '')'' (scan False v))). wf_piece l"
      using link by (intro wf_piece_prepend IH) simp
    then show ?thesis
      using link by (auto simp: scan_link [simplified] wf_piece_def suffix_def split: prod.split)
  next
    case (bang u v)
    then show ?thesis using IH [of v False] by (simp add: scan_skip_bang wf_piece_prepend)
  next
    case (plain u t v)
    then show ?thesis using IH [of "t @ CHR '']'' # v" False] by (simp add: scan_skip_plain wf_piece_prepend)
  qed (simp_all add: scan_none scan_no_close scan_no_paren [simplified])
qed

text \<open>A bracket that is no link stays one when the targets after it change.\<close>

lemma retarget_plain:
  assumes s: "unscan s = t @ CHR '']'' # v" and t: "CHR '']'' \<notin> set t" and v: "\<not> prefix ''('' v"
    and wf: "\<forall>l \<in> set (fst s). wf_piece l"
  shows "\<exists>v'. unscan (retarget f s) = t @ CHR '']'' # v' \<and> \<not> prefix ''('' v'"
proof (cases "fst s")
  case Nil
  then show ?thesis using s v by (auto simp: unscan_def retarget_def)
next
  case (Cons l ps)
  obtain p tx g where l: "l = (p, tx, g)" by (cases l)
  with Cons wf obtain q where p: "p = q @ '']('' " by (auto simp: wf_piece_def suffix_def)
  let ?r = "pieces ps @ snd s" and ?r' = "pieces (map (\<lambda>(p, t, g). (p, t, f g)) ps) @ snd s"
  have old: "q @ CHR '']'' # CHR ''('' # g @ ?r = t @ CHR '']'' # v"
    using s by (simp add: unscan_def Cons l p)
  have new: "unscan (retarget f s) = q @ CHR '']'' # CHR ''('' # f g @ ?r'"
    by (simp add: unscan_def retarget_def Cons l p)
  from old consider z where "q = t @ z" "CHR '']'' # v = z @ CHR '']'' # CHR ''('' # g @ ?r"
    | z where "t = q @ z" "CHR '']'' # CHR ''('' # g @ ?r = z @ CHR '']'' # v"
    unfolding append_eq_append_conv2 by metis
  then show ?thesis
  proof cases
    case (1 z)
    with v obtain z' where z': "z = CHR '']'' # z'" by (cases z) auto
    with 1 v new show ?thesis by (cases z') auto
  next
    case (2 z)
    with t v show ?thesis by (cases z) auto
  qed
qed

lemma scan_retarget:
  assumes "\<forall>(p, t, g) \<in> set (fst (scan bang w)). CHR '')'' \<notin> set (f g)"
  shows "scan bang (unscan (retarget f (scan bang w))) = retarget f (scan bang w)"
  using assms
proof (induction w arbitrary: bang rule: length_induct)
  case (1 w)
  have IH: "scan b (unscan (retarget f (scan b v))) = retarget f (scan b v)"
    if "length v < length w" "\<forall>(p, t, g) \<in> set (fst (scan b v)). CHR '')'' \<notin> set (f g)" for b v
    using 1 that by blast
  have targets: "(\<forall>(p, t, g) \<in> set (fst (prepend x s)). CHR '')'' \<notin> set (f g)) \<longleftrightarrow>
      (\<forall>(p, t, g) \<in> set (fst s). CHR '')'' \<notin> set (f g))" for x s
    by (cases "(x, s)" rule: prepend.cases) auto
  show ?case
  proof (cases rule: scan_cases [where w = w and bang = bang])
    case (bang u v)
    with 1(2) IH [of v False] show ?thesis
      by (simp add: scan_skip_bang targets)
  next
    case (plain u t v)
    let ?s = "scan False (t @ CHR '']'' # v)"
    obtain v' where v': "unscan (retarget f ?s) = t @ CHR '']'' # v'" "\<not> prefix ''('' v'"
      using retarget_plain [of ?s t v f] plain scan_wf_pieces by auto
    have "scan False (unscan (retarget f ?s)) = retarget f ?s"
      using plain 1(2) by (intro IH) (simp_all add: scan_skip_plain targets)
    with plain v' show ?thesis by (simp add: scan_skip_plain)
  next
    case (link u t g v)
    let ?s = "scan False v"
    obtain ps r where pr: "prepend '')'' ?s = (ps, r)" by (cases "prepend '')'' ?s")
    have s: "scan bang w = ((u @ CHR ''['' # t @ '']('', t, g) # ps, r)"
      using link pr by (simp add: scan_link [simplified])
    have "\<forall>(p, t, g) \<in> set (fst (prepend '')'' ?s)). CHR '')'' \<notin> set (f g)"
      using 1(2) by (simp add: s pr)
    then have ih: "scan False (unscan (retarget f ?s)) = retarget f ?s"
      using link by (intro IH) (simp_all add: targets)
    have fg: "CHR '')'' \<notin> set (f g)" using 1(2) by (simp add: s)
    have ret: "prepend '')'' (retarget f ?s) = retarget f (ps, r)"
      by (simp add: pr flip: retarget_prepend)
    have "unscan (retarget f (scan bang w)) =
        u @ CHR ''['' # t @ '']('' @ f g @ unscan (retarget f (ps, r))"
      by (simp add: s unscan_def retarget_def)
    also have "unscan (retarget f (ps, r)) = CHR '')'' # unscan (retarget f ?s)"
      by (simp flip: ret)
    finally have new: "unscan (retarget f (scan bang w)) =
        u @ CHR ''['' # t @ '']('' @ f g @ CHR '')'' # unscan (retarget f ?s)" .
    have "scan bang (unscan (retarget f (scan bang w))) =
        ((u @ CHR ''['' # t @ '']('', t, f g) # fst (retarget f (ps, r)), snd (retarget f (ps, r)))"
      unfolding new using link fg by (subst scan_link) (auto simp: ih ret split: prod.split)
    then show ?thesis by (simp add: s retarget_def)
  qed (simp_all add: scan_none scan_no_close scan_no_paren [simplified] retarget_def unscan_def)
qed

section \<open>The code's loops agree with the scanner\<close>

fun links_of :: "string list \<Rightarrow> nat \<Rightarrow> (string \<times> string \<times> string) list \<Rightarrow> parsed_link list" where
  "links_of dir off [] = []"
| "links_of dir off ((p, t, g) # ps) =
     \<lparr>link_text = t, raw_target = g, resolved = resolve_relative_target dir g,
      target_start = off + length p, target_end = off + length p + length g\<rparr>
     # links_of dir (off + length p + length g) ps"

lemma links_of_prepend [simp]: "links_of dir off (fst (prepend x s)) = links_of dir (off + length x) (fst s)"
  by (cases "(x, s)" rule: prepend.cases) (auto simp: add.assoc)

definition bang_at_end :: "string \<Rightarrow> bool" where
  "bang_at_end pre \<longleftrightarrow> pre \<noteq> [] \<and> last pre = CHR ''!''"

lemma bang_at_end_simps [simp]:
  "bang_at_end (x # xs) = (if xs = [] then x = CHR ''!'' else bang_at_end xs)"
  "bang_at_end (xs @ ys) = (if ys = [] then bang_at_end xs else bang_at_end ys)"
  by (simp_all add: bang_at_end_def)

lemma bang_before_nth:
  "((c = [] \<longrightarrow> u \<noteq> []) \<and> (c @ u @ v) ! (length c + length u - Suc 0) = CHR ''!'') \<longleftrightarrow>
     bang_before (bang_at_end c) u"
  by (cases u rule: rev_cases; cases c rule: rev_cases)
     (auto simp: bang_before_def bang_at_end_def nth_append)

lemma parse_links_loop_scan:
  "parse_links_loop dir (c @ w) (length c) = links_of dir (length c) (fst (scan (bang_at_end c) w))"
proof (induction w arbitrary: c rule: length_induct)
  case (1 w)
  then have IH: "parse_links_loop dir (c' @ v) (length c') = links_of dir (length c') (fst (scan (bang_at_end c') v))"
    if "length v < length w" for c' v using that by blast
  show ?case
  proof (cases rule: scan_cases [where w = w and bang = "bang_at_end c"])
    case none
    then show ?thesis
      by (subst parse_links_loop.simps) (simp add: Let_def bang_before_nth scan_none find_char_None del: find_char_None_iff)
  next
    case (bang u v)
    then show ?thesis
      using IH [of v "c @ u @ ''[''"]
      by (subst parse_links_loop.simps) (simp add: Let_def bang_before_nth scan_skip_bang add.assoc)
  next
    case (no_close u v)
    then show ?thesis
      by (subst parse_links_loop.simps) (simp add: Let_def bang_before_nth scan_no_close find_char_None del: find_char_None_iff)
  next
    case (plain u t v)
    then show ?thesis
      using IH [of "t @ CHR '']'' # v" "c @ u @ ''[''"]
      by (subst parse_links_loop.simps) (simp add: Let_def bang_before_nth scan_skip_plain add.assoc)
  next
    case (no_paren u t v)
    then show ?thesis
      by (subst parse_links_loop.simps)
         (simp add: Let_def bang_before_nth eval_nat_numeral scan_no_paren [simplified] find_char_None del: find_char_None_iff)
  next
    case (link u t g v)
    obtain ps r where pr: "prepend '')'' (scan False v) = (ps, r)" by (cases "prepend '')'' (scan False v)")
    have "links_of dir off ps = links_of dir (Suc off) (fst (scan False v))" for off
      using links_of_prepend [of dir off "'')''" "scan False v"] by (simp add: pr)
    with link pr show ?thesis
      using IH [of v "c @ u @ ''['' @ t @ '']('' @ g @ '')''"]
      by (subst parse_links_loop.simps) (simp add: Let_def bang_before_nth eval_nat_numeral scan_link [simplified] add.assoc)
  qed
qed

lemma parse_links_scan: "parse_links page body = links_of (base_dir page) 0 (fst (scan False body))"
  using parse_links_loop_scan [of "base_dir page" "[]" body] by (simp add: parse_links_def bang_at_end_def)

definition new_target :: "string list \<Rightarrow> page_path \<Rightarrow> page_path \<Rightarrow> string \<Rightarrow> string" where
  "new_target dir source destination g =
     (if resolve_relative_target dir g = Some source then relative_target dir destination else g)"

lemma rewrite_loop_links_of:
  "rewrite_loop dir (c @ x @ pieces ps @ r) src dst (links_of dir (length c + length x) ps) (length c) =
     (x @ pieces (map (\<lambda>(p, t, g). (p, t, new_target dir src dst g)) ps) @ r,
      \<exists>(p, t, g) \<in> set ps. resolve_relative_target dir g = Some src)"
proof (induction ps arbitrary: c x)
  case (Cons l ps)
  obtain p t g where l: "l = (p, t, g)" by (cases l)
  show ?case
  proof (cases "resolve_relative_target dir g = Some src")
    case True
    then show ?thesis
      using Cons.IH [of "c @ x @ p @ g" "[]"] by (simp add: l new_target_def add.assoc)
  next
    case False
    then show ?thesis
      using Cons.IH [of c "x @ p @ g"] by (simp add: l new_target_def add.assoc)
  qed
qed simp

lemma rewrite_links_scan:
  "rewrite_links page body src dst =
     (unscan (retarget (new_target (base_dir page) src dst) (scan False body)),
      \<exists>(p, t, g) \<in> set (fst (scan False body)). resolve_relative_target (base_dir page) g = Some src)"
proof -
  have "pieces (fst (scan False body)) @ snd (scan False body) = body"
    using unscan_scan [of False body] by (simp add: unscan_def)
  then show ?thesis
    using rewrite_loop_links_of [of "base_dir page" "[]" "[]" "fst (scan False body)" "snd (scan False body)" src dst]
    by (simp add: rewrite_links_def parse_links_scan unscan_def retarget_def)
qed

lemma links_of_resolved: "map resolved (links_of dir off ps) = map (\<lambda>(p, t, g). resolve_relative_target dir g) ps"
  by (induction dir off ps rule: links_of.induct) auto

lemma links_of_text: "map link_text (links_of dir off ps) = map (\<lambda>(p, t, g). t) ps"
  by (induction dir off ps rule: links_of.induct) auto

lemma links_of_resolve: "link \<in> set (links_of dir off ps) \<Longrightarrow> resolved link = resolve_relative_target dir (raw_target link)"
  by (induction dir off ps rule: links_of.induct) auto

lemma links_of_span:
  "link \<in> set (links_of dir (length c) ps) \<Longrightarrow>
     length c \<le> target_start link \<and> target_start link \<le> target_end link \<and>
     target_end link \<le> length (c @ pieces ps) \<and>
     take (target_end link - target_start link) (drop (target_start link) (c @ pieces ps @ r)) = raw_target link"
proof (induction ps arbitrary: c)
  case (Cons l ps)
  obtain p t g where l: "l = (p, t, g)" by (cases l)
  from Cons.prems show ?case
    using Cons.IH [of "c @ p @ g"] by (auto simp: l add.assoc)
qed simp

lemma links_of_sorted:
  "\<forall>l \<in> set ps. wf_piece l \<Longrightarrow>
     sorted_wrt (\<lambda>a b. target_end a < target_start b) (links_of dir off ps) \<and>
     (\<forall>link \<in> set (links_of dir off ps). off < target_start link)"
proof (induction dir off ps rule: links_of.induct)
  case (2 dir off p t g ps)
  then have "p \<noteq> []" by (auto simp: wf_piece_def suffix_def)
  with 2 show ?case by fastforce
qed simp

section \<open>Properties\<close>

text \<open>
  (C2) Every link that \<^verbatim>\<open>parse_links\<close> reports lies inside the body: its byte offsets are ordered,
  the bytes between them are the raw target, the resolved page is the resolution of that target
  against the page's directory, and the reported spans follow one another without overlap, so that
  they can be replaced from left to right.
\<close>

theorem parse_links_spans:
  "(\<forall>link \<in> set (parse_links page body).
      target_start link \<le> target_end link \<and> target_end link \<le> length body \<and>
      take (target_end link - target_start link) (drop (target_start link) body) = raw_target link \<and>
      resolved link = resolve_relative_target (base_dir page) (raw_target link)) \<and>
   sorted_wrt (\<lambda>a b. target_end a < target_start b) (parse_links page body)"
proof -
  obtain ps r where s: "scan False body = (ps, r)" by (cases "scan False body")
  then have body: "body = pieces ps @ r" using unscan_scan [of False body] by (simp add: unscan_def)
  have links: "parse_links page body = links_of (base_dir page) 0 ps" by (simp add: parse_links_scan s)
  have wf: "\<forall>l \<in> set ps. wf_piece l" using scan_wf_pieces [of False body] by (simp add: s)
  have "target_start link \<le> target_end link \<and> target_end link \<le> length body \<and>
      take (target_end link - target_start link) (drop (target_start link) body) = raw_target link"
    if "link \<in> set (links_of (base_dir page) 0 ps)" for link
    using links_of_span [of link "base_dir page" "[]" ps r] that unfolding body by (auto simp del: take_append drop_append)
  then show ?thesis
    unfolding links using links_of_resolve [of _ "base_dir page" 0 ps] links_of_sorted [OF wf, of "base_dir page" 0]
    by blast
qed

theorem parse_links_spans_witness:
  "map target_start (parse_links (PagePath [''a'']) ''[b](b.md) [c](x/c.md)'') = [4, 14] \<and>
   sorted_wrt (\<lambda>a b. target_end a < target_start b) (parse_links (PagePath [''a'']) ''[b](b.md) [c](x/c.md)'')"
  using parse_links_spans [of "PagePath [''a'']" "''[b](b.md) [c](x/c.md)''"]
  by (auto simp: parse_links_def parse_links_loop.simps Let_def)

text \<open>
  (C3) A target computed by \<^verbatim>\<open>relative_target\<close> resolves back to the page it was computed for, from
  any directory, as long as the page's name carries none of the characters that end a link target or
  cut a fragment and the path still fits the length limit with its extension.
\<close>

theorem relative_target_resolves:
  assumes "wf_page_path p" "length (as_str p) + 3 \<le> MAX_PATH_LENGTH" "target_safe (relative_target dir p)"
  shows "resolve_relative_target dir (relative_target dir p) = Some p"
  using assms by (rule resolve_relative_target_inverse)

theorem relative_target_resolves_witness:
  "relative_target [''people''] (PagePath [''projects'', ''x'']) = ''../projects/x.md'' \<and>
   resolve_relative_target [''people''] ''../projects/x.md'' = Some (PagePath [''projects'', ''x''])"
proof -
  let ?p = "PagePath [''projects'', ''x'']"
  have t: "relative_target [''people''] ?p = ''../projects/x.md''" by code_simp
  moreover have "wf_page_path ?p" "length (as_str ?p) + 3 \<le> MAX_PATH_LENGTH"
    "target_safe (relative_target [''people''] ?p)" by code_simp+
  then have "resolve_relative_target [''people''] (relative_target [''people''] ?p) = Some ?p"
    by (rule relative_target_resolves)
  ultimately show ?thesis by simp
qed

text \<open>
  (C4) Rewriting the links to a moved page: the flag says whether some link resolved to the old
  path; if none did the body is unchanged; and the new body has the same links in the same order with
  the same texts, each resolving to what it resolved to before, except that the links to the old path
  now resolve to the new one.
\<close>

theorem rewrite_links_retargets:
  assumes "wf_page_path destination" "length (as_str destination) + 3 \<le> MAX_PATH_LENGTH"
    and "target_safe (relative_target (base_dir page) destination)"
    and "rewrite_links page body source destination = (new_body, changed)"
  shows "(changed \<longleftrightarrow> Some source \<in> resolved ` set (parse_links page body)) \<and>
    (\<not> changed \<longrightarrow> new_body = body) \<and>
    map link_text (parse_links page new_body) = map link_text (parse_links page body) \<and>
    map resolved (parse_links page new_body) =
      map (\<lambda>l. if resolved l = Some source then Some destination else resolved l) (parse_links page body)"
proof -
  let ?dir = "base_dir page" and ?f = "new_target (base_dir page) source destination"
  obtain ps r where s: "scan False body = (ps, r)" by (cases "scan False body")
  have ch: "changed \<longleftrightarrow> (\<exists>(p, t, g) \<in> set ps. resolve_relative_target ?dir g = Some source)"
    and new: "new_body = unscan (retarget ?f (ps, r))"
    using assms(4) by (auto simp: rewrite_links_scan s)
  have "\<forall>(p, t, g) \<in> set ps. CHR '')'' \<notin> set (?f g)"
    using scan_wf_pieces [of False body] assms(3) by (auto simp: s wf_piece_def new_target_def target_safe_def)
  then have scan_new: "fst (scan False new_body) = map (\<lambda>(p, t, g). (p, t, ?f g)) ps"
    using scan_retarget [of False body ?f] by (simp add: s new) (simp add: retarget_def)
  have res: "map resolved (parse_links page body) = map (\<lambda>(p, t, g). resolve_relative_target ?dir g) ps"
    by (simp add: parse_links_scan s links_of_resolved)
  have keep: "new_body = body" if "\<not> changed"
  proof -
    have "map (\<lambda>(p, t, g). (p, t, ?f g)) ps = ps"
      using that ch by (intro map_idI) (auto simp: new_target_def)
    then show ?thesis using unscan_scan [of False body] by (simp add: new retarget_def s)
  qed
  have "resolve_relative_target ?dir (?f g) =
      (if resolve_relative_target ?dir g = Some source then Some destination
       else resolve_relative_target ?dir g)" for g
    using resolve_relative_target_inverse [OF assms(1-3)] by (simp add: new_target_def)
  then have "map resolved (parse_links page new_body) =
      map (\<lambda>x. if x = Some source then Some destination else x) (map resolved (parse_links page body))"
    unfolding res by (simp add: parse_links_scan scan_new links_of_resolved case_prod_unfold)
  moreover have "map link_text (parse_links page new_body) = map link_text (parse_links page body)"
    by (simp add: parse_links_scan scan_new links_of_text s case_prod_unfold)
  moreover have "changed \<longleftrightarrow> Some source \<in> set (map resolved (parse_links page body))"
    unfolding ch res by (auto simp: image_iff) (metis (mono_tags, lifting) case_prod_conv)+
  ultimately show ?thesis using keep by (simp add: o_def)
qed

theorem rewrite_links_retargets_witness:
  "map resolved (parse_links (PagePath [''p'', ''a'']) ''[X](../q/y.md) [Z](z.md)'') =
     [Some (PagePath [''q'', ''y'']), Some (PagePath [''p'', ''z''])]"
proof -
  have new: "rewrite_links (PagePath [''p'', ''a'']) ''[X](../q/x.md) [Z](z.md)'' (PagePath [''q'', ''x''])
      (PagePath [''q'', ''y'']) = (''[X](../q/y.md) [Z](z.md)'', True)"
    and old: "map resolved (parse_links (PagePath [''p'', ''a'']) ''[X](../q/x.md) [Z](z.md)'') =
      [Some (PagePath [''q'', ''x'']), Some (PagePath [''p'', ''z''])]"
    and dst: "wf_page_path (PagePath [''q'', ''y''])" "length (as_str (PagePath [''q'', ''y''])) + 3 \<le> MAX_PATH_LENGTH"
      "target_safe (relative_target (base_dir (PagePath [''p'', ''a''])) (PagePath [''q'', ''y'']))"
    by code_simp+
  have "map (\<lambda>l. if resolved l = Some (PagePath [''q'', ''x'']) then Some (PagePath [''q'', ''y'']) else resolved l)
      (parse_links (PagePath [''p'', ''a'']) ''[X](../q/x.md) [Z](z.md)'') =
      map (\<lambda>r. if r = Some (PagePath [''q'', ''x'']) then Some (PagePath [''q'', ''y'']) else r)
        (map resolved (parse_links (PagePath [''p'', ''a'']) ''[X](../q/x.md) [Z](z.md)''))"
    by simp
  then show ?thesis
    using rewrite_links_retargets [OF dst new] by (simp add: old)
qed

end
