(* ===== verification/Memory_Service.thy ===== *)
theory Memory_Service
  imports Memory_Store Links
begin

text \<open>
  The memory service (\<^verbatim>\<open>services/memory_rs/src/service.rs\<close>) on top of any store, with the request
  and report types of \<^verbatim>\<open>model.rs\<close>: creating and replacing pages under a revision check, moving a
  page together with the links to it, removal, queries, tag counts, link reports and the integrity
  check.  The clock is an argument (\<open>now\<close>) of the operation that reads it.
\<close>

section \<open>Requests and reports\<close>

record page_summary =
  ps_path :: string
  ps_title :: string
  ps_tags :: "string list"
  ps_updated_at :: datetime

record tag_count =
  tc_tag :: string
  tc_count :: nat

record page_link =
  pl_text :: string
  pl_raw_target :: string
  pl_resolved_path :: "string option"
  pl_broken :: bool

record backlink =
  bl_from :: string
  bl_text :: string
  bl_raw_target :: string

record links_report =
  lr_path :: string
  lr_outgoing :: "page_link list"
  lr_backlinks :: "backlink list"

record write_page_request =
  wr_path :: page_path
  wr_title :: "string option"
  wr_tags :: "string list option"
  wr_body :: string
  wr_overwrite :: bool
  wr_expected_revision :: "string option"
  wr_actor :: "string option"

record move_page_request =
  mv_source :: page_path
  mv_destination :: page_path
  mv_expected_revision :: "string option"
  mv_actor :: "string option"

record move_outcome =
  mo_source :: string
  mo_destination :: string
  mo_revision :: string
  mo_updated_referrers :: "string list"

record remove_page_request =
  rm_path :: page_path
  rm_expected_revision :: "string option"

record list_filter =
  lf_under :: "page_path option"
  lf_with_tags :: "string list"
  lf_limit :: "nat option"

record query_request =
  qr_text :: string
  qr_filter :: list_filter

record check_issue =
  ci_path :: "string option"
  ci_message :: message

record check_report =
  cr_issues :: "check_issue list"

definition is_clean :: "check_report \<Rightarrow> bool" where
  "is_clean r = (cr_issues r = [])"

section \<open>Limits and validation\<close>

definition MAX_TITLE_LENGTH :: nat where "MAX_TITLE_LENGTH = 256"
definition MAX_TAG_LENGTH :: nat where "MAX_TAG_LENGTH = 64"
definition MAX_TAGS :: nat where "MAX_TAGS = 64"
definition MAX_BODY_BYTES :: nat where "MAX_BODY_BYTES = 1024 * 1024"
definition MAX_QUERY_LENGTH :: nat where "MAX_QUERY_LENGTH = 512"
definition DEFAULT_LIST_LIMIT :: nat where "DEFAULT_LIST_LIMIT = 200"

definition validate_title :: "string \<Rightarrow> (memory_error, unit) result" where
  "validate_title t =
     (if t = [] then Inl (InvalidPath ''title'' (lit ''title must not be empty''))
      else if length t > MAX_TITLE_LENGTH then Inl (TooLarge ''title'' MAX_TITLE_LENGTH)
      else Inr ())"

fun validate_each_tag :: "string list \<Rightarrow> (memory_error, unit) result" where
  "validate_each_tag [] = Inr ()"
| "validate_each_tag (tag # rest) =
     (if trim tag = [] then Inl (InvalidPath ''tag'' (lit ''tags must not be empty''))
      else if length tag > MAX_TAG_LENGTH then Inl (TooLarge ''tag'' MAX_TAG_LENGTH)
      else validate_each_tag rest)"

definition validate_tags :: "string list \<Rightarrow> (memory_error, unit) result" where
  "validate_tags ts =
     (if length ts > MAX_TAGS then Inl (TooLarge ''tags'' MAX_TAGS) else validate_each_tag ts)"

definition validate_body :: "string \<Rightarrow> (memory_error, unit) result" where
  "validate_body b = (if length b > MAX_BODY_BYTES then Inl (TooLarge ''page body'' MAX_BODY_BYTES) else Inr ())"

definition normalize_tag :: "deps \<Rightarrow> string \<Rightarrow> string" where
  "normalize_tag d tag = to_lowercase d (trim tag)"

text \<open>\<^verbatim>\<open>sort\<close> and \<^verbatim>\<open>dedup\<close>.\<close>

definition normalize_tags :: "deps \<Rightarrow> string list \<Rightarrow> string list" where
  "normalize_tags d ts = remdups_adj (sort (map (normalize_tag d) ts))"

definition is_under :: "page_path \<Rightarrow> page_path \<Rightarrow> bool" where
  "is_under pre candidate \<longleftrightarrow>
     length (segments candidate) \<ge> length (segments pre) \<and>
     take (length (segments pre)) (segments candidate) = segments pre"

section \<open>Operations\<close>

definition lift_res :: "(memory_error, 'a) result \<Rightarrow> 's \<Rightarrow> (memory_error, 'a, 's) outcome" where
  "lift_res r s = (r, s)"

definition read_optional ::
  "'s memory_store \<Rightarrow> page_path \<Rightarrow> 's \<Rightarrow> (memory_error, (bytes \<times> revision) option, 's) outcome" where
  "read_optional st path s =
     (case read_bytes st path s of
        (Inr v, s') \<Rightarrow> (Inr (Some v), s')
      | (Inl (NotFound _), s') \<Rightarrow> (Inr None, s')
      | (Inl e, s') \<Rightarrow> (Inl e, s'))"

text \<open>The revision policy: the \<^verbatim>\<open>match (&request.expected_revision, &existing)\<close>.\<close>

definition check_revision ::
  "write_page_request \<Rightarrow> (bytes \<times> revision) option \<Rightarrow> (memory_error, unit) result" where
  "check_revision req existing =
     (case (wr_expected_revision req, existing) of
        (Some expected, Some (_, actual)) \<Rightarrow>
          (if expected = actual then Inr ()
           else Inl (Conflict (as_str (wr_path req)) (Some expected) actual))
      | (Some _, None) \<Rightarrow> Inl (NotFound (as_str (wr_path req)))
      | (None, Some _) \<Rightarrow>
          (if \<not> wr_overwrite req then Inl (AlreadyExists (as_str (wr_path req))) else Inr ())
      | (None, None) \<Rightarrow> Inr ())"

definition next_metadata ::
  "deps \<Rightarrow> datetime \<Rightarrow> write_page_request \<Rightarrow> (bytes \<times> revision) option \<Rightarrow> (memory_error, page_metadata) result" where
  "next_metadata d now req existing =
     (case existing of
        Some (bs, _) \<Rightarrow>
          try_res (parse_document d bs (as_str (wr_path req))) (\<lambda>(previous, _).
            let previous = (case wr_title req of Some t \<Rightarrow> previous\<lparr>title := t\<rparr> | None \<Rightarrow> previous);
                previous = (case wr_tags req of Some ts \<Rightarrow> previous\<lparr>tags := normalize_tags d ts\<rparr> | None \<Rightarrow> previous);
                previous = previous\<lparr>updated_at := now\<rparr>;
                previous = previous\<lparr>updated_by := (case wr_actor req of Some a \<Rightarrow> Some a | None \<Rightarrow> updated_by previous)\<rparr>
            in Inr previous)
      | None \<Rightarrow>
          try_res (ok_or (InvalidPath (as_str (wr_path req)) (lit ''title is required to create a page'')) (wr_title req)) (\<lambda>t.
            Inr \<lparr>schema_version = SCHEMA_VERSION, title = t,
                 tags = normalize_tags d (case wr_tags req of Some ts \<Rightarrow> ts | None \<Rightarrow> []),
                 created_at = now, updated_at = now, created_by = wr_actor req, updated_by = wr_actor req,
                 extra = []\<rparr>))"

definition write_page_locked ::
  "deps \<Rightarrow> 's memory_store \<Rightarrow> datetime \<Rightarrow> write_page_request \<Rightarrow> 's \<Rightarrow> (memory_error, page, 's) outcome" where
  "write_page_locked d st now req s =
     try_io (read_optional st (wr_path req) s) (\<lambda>existing s.
     try_io (lift_res (check_revision req existing) s) (\<lambda>_ s.
     try_io (lift_res (next_metadata d now req existing) s) (\<lambda>md s.
     try_io (lift_res (render_document d md (wr_body req)) s) (\<lambda>bs s.
     if length bs > MAX_BODY_BYTES then (Inl (TooLarge ''page document'' MAX_BODY_BYTES), s)
     else try_io (write_bytes st (wr_path req) bs s) (\<lambda>rv s.
       (Inr \<lparr>page_path_of = wr_path req, metadata = md, body = normalize_body (wr_body req),
             page_revision = rv\<rparr>, s))))))"

definition write_page ::
  "deps \<Rightarrow> 's memory_store \<Rightarrow> datetime \<Rightarrow> write_page_request \<Rightarrow> 's \<Rightarrow> (memory_error, page, 's) outcome" where
  "write_page d st now req s =
     try_io (lift_res (validate_body (wr_body req)) s) (\<lambda>_ s.
     try_io (lift_res (case wr_title req of Some t \<Rightarrow> validate_title t | None \<Rightarrow> Inr ()) s) (\<lambda>_ s.
     try_io (lift_res (case wr_tags req of Some ts \<Rightarrow> validate_tags ts | None \<Rightarrow> Inr ()) s) (\<lambda>_ s.
     with_lock st (write_page_locked d st now req) s)))"

definition read_page :: "deps \<Rightarrow> 's memory_store \<Rightarrow> page_path \<Rightarrow> 's \<Rightarrow> (memory_error, page, 's) outcome" where
  "read_page d st path s =
     try_io (read_bytes st path s) (\<lambda>(bs, rv) s.
     try_io (lift_res (parse_document d bs (as_str path)) s) (\<lambda>(md, bd) s.
     (Inr \<lparr>page_path_of = path, metadata = md, body = bd, page_revision = rv\<rparr>, s)))"

text \<open>The guard \<^verbatim>\<open>if let Some(expected) = ... && *expected != revision.0\<close>.\<close>

definition revision_guard :: "page_path \<Rightarrow> string option \<Rightarrow> revision \<Rightarrow> (memory_error, unit) result" where
  "revision_guard path expected rv =
     (case expected of
        Some e \<Rightarrow> (if e \<noteq> rv then Inl (Conflict (as_str path) (Some e) rv) else Inr ())
      | None \<Rightarrow> Inr ())"

text \<open>The loop of \<^verbatim>\<open>move_page\<close> that collects the rewritten referrers.\<close>

fun collect_referrers ::
  "deps \<Rightarrow> 's memory_store \<Rightarrow> page_path \<Rightarrow> page_path \<Rightarrow> page_path list \<Rightarrow> 's
    \<Rightarrow> (memory_error, string list \<times> (page_path \<times> bytes) list, 's) outcome" where
  "collect_referrers d st source destination [] s = (Inr ([], []), s)"
| "collect_referrers d st source destination (page_path # rest) s =
     (if page_path = source then collect_referrers d st source destination rest s
      else
        try_io (read_bytes st page_path s) (\<lambda>(page_bytes, _) s.
        case parse_document d page_bytes (as_str page_path) of
          Inl _ \<Rightarrow> collect_referrers d st source destination rest s
        | Inr (md, bd) \<Rightarrow>
            (case rewrite_links page_path bd source destination of
               (new_body, changed) \<Rightarrow>
                 (if \<not> changed then collect_referrers d st source destination rest s
                  else
                    try_io (lift_res (render_document d md new_body) s) (\<lambda>new_bytes s.
                    try_io (collect_referrers d st source destination rest s) (\<lambda>(names, reps) s.
                    (Inr (as_str page_path # names, (page_path, new_bytes) # reps), s)))))))"

definition move_page_locked ::
  "deps \<Rightarrow> 's memory_store \<Rightarrow> move_page_request \<Rightarrow> 's \<Rightarrow> (memory_error, move_outcome, 's) outcome" where
  "move_page_locked d st req s =
     try_io (read_bytes st (mv_source req) s) (\<lambda>(_, rv) s.
     try_io (lift_res (revision_guard (mv_source req) (mv_expected_revision req) rv) s) (\<lambda>_ s.
     try_io (exists_page st (mv_destination req) s) (\<lambda>present s.
     if present then (Inl (AlreadyExists (as_str (mv_destination req))), s)
     else
       try_io (list_store_pages st s) (\<lambda>ps s.
       try_io (collect_referrers d st (mv_source req) (mv_destination req) ps s) (\<lambda>(updated_referrers, replacements) s.
       try_io (read_bytes st (mv_source req) s) (\<lambda>(source_bytes, _) s.
       try_io (commit_move st (mv_source req) (mv_destination req) source_bytes replacements s) (\<lambda>_ s.
       (Inr \<lparr>mo_source = as_str (mv_source req), mo_destination = as_str (mv_destination req),
             mo_revision = rv, mo_updated_referrers = updated_referrers\<rparr>, s))))))))"

definition move_page ::
  "deps \<Rightarrow> 's memory_store \<Rightarrow> move_page_request \<Rightarrow> 's \<Rightarrow> (memory_error, move_outcome, 's) outcome" where
  "move_page d st req s =
     (if mv_source req = mv_destination req then
        (Inl (InvalidPath (as_str (mv_source req)) (lit ''source and destination must differ'')), s)
      else with_lock st (move_page_locked d st req) s)"

definition remove_page_locked ::
  "'s memory_store \<Rightarrow> remove_page_request \<Rightarrow> 's \<Rightarrow> (memory_error, unit, 's) outcome" where
  "remove_page_locked st req s =
     try_io (read_bytes st (rm_path req) s) (\<lambda>(_, rv) s.
     try_io (lift_res (revision_guard (rm_path req) (rm_expected_revision req) rv) s) (\<lambda>_ s.
     remove_file st (rm_path req) s))"

definition remove_page :: "'s memory_store \<Rightarrow> remove_page_request \<Rightarrow> 's \<Rightarrow> (memory_error, unit, 's) outcome" where
  "remove_page st req = with_lock st (remove_page_locked st req)"

subsection \<open>Queries\<close>

definition haystack :: "page_path \<Rightarrow> page_metadata \<Rightarrow> string \<Rightarrow> string" where
  "haystack path md bd = as_str path @ '' '' @ title md @ '' '' @ join_with '' '' (tags md) @ '' '' @ bd"

definition query_match :: "deps \<Rightarrow> string \<Rightarrow> string list \<Rightarrow> page_path \<Rightarrow> page_metadata \<Rightarrow> string \<Rightarrow> bool" where
  "query_match d needle with_tags path md bd \<longleftrightarrow>
     (with_tags = [] \<or> list_all (\<lambda>t. t \<in> set (tags md)) with_tags) \<and>
     (needle = [] \<or> contains_sub needle (to_lowercase d (haystack path md bd)))"

definition summary :: "page_path \<Rightarrow> page_metadata \<Rightarrow> page_summary" where
  "summary path md = \<lparr>ps_path = as_str path, ps_title = title md, ps_tags = tags md, ps_updated_at = updated_at md\<rparr>"

text \<open>The loop over the listed pages; \<open>count\<close> is the number of results so far.\<close>

fun query_loop ::
  "deps \<Rightarrow> 's memory_store \<Rightarrow> page_path option \<Rightarrow> string \<Rightarrow> string list \<Rightarrow> nat \<Rightarrow> page_path list \<Rightarrow> nat \<Rightarrow> 's
    \<Rightarrow> (memory_error, page_summary list, 's) outcome" where
  "query_loop d st under_opt needle with_tags limit [] count s = (Inr [], s)"
| "query_loop d st under_opt needle with_tags limit (path # rest) count s =
     (if (case under_opt of Some u \<Rightarrow> \<not> is_under u path | None \<Rightarrow> False)
      then query_loop d st under_opt needle with_tags limit rest count s
      else
        try_io (read_bytes st path s) (\<lambda>(bs, _) s.
        case parse_document d bs (as_str path) of
          Inl _ \<Rightarrow> query_loop d st under_opt needle with_tags limit rest count s
        | Inr (md, bd) \<Rightarrow>
            (if \<not> query_match d needle with_tags path md bd
             then query_loop d st under_opt needle with_tags limit rest count s
             else if Suc count \<ge> limit then (Inr [summary path md], s)
             else
               try_io (query_loop d st under_opt needle with_tags limit rest (Suc count) s) (\<lambda>results s.
               (Inr (summary path md # results), s)))))"

definition query_pages ::
  "deps \<Rightarrow> 's memory_store \<Rightarrow> query_request \<Rightarrow> 's \<Rightarrow> (memory_error, page_summary list, 's) outcome" where
  "query_pages d st req s =
     (if length (qr_text req) > MAX_QUERY_LENGTH then (Inl (TooLarge ''query text'' MAX_QUERY_LENGTH), s)
      else
        (let needle = to_lowercase d (qr_text req);
             with_tags = map (normalize_tag d) (lf_with_tags (qr_filter req));
             limit = (case lf_limit (qr_filter req) of Some n \<Rightarrow> n | None \<Rightarrow> DEFAULT_LIST_LIMIT)
         in try_io (list_store_pages st s) (\<lambda>ps s.
              query_loop d st (lf_under (qr_filter req)) needle with_tags limit ps 0 s)))"

definition list_pages ::
  "deps \<Rightarrow> 's memory_store \<Rightarrow> list_filter \<Rightarrow> 's \<Rightarrow> (memory_error, page_summary list, 's) outcome" where
  "list_pages d st flt = query_pages d st \<lparr>qr_text = [], qr_filter = flt\<rparr>"

text \<open>\<^verbatim>\<open>*counts.entry(tag).or_insert(0) += 1\<close> on a \<^verbatim>\<open>BTreeMap\<close>, kept as a list sorted by key.\<close>

fun bump :: "string \<Rightarrow> (string \<times> nat) list \<Rightarrow> (string \<times> nat) list" where
  "bump tag [] = [(tag, 1)]"
| "bump tag ((t, n) # rest) =
     (if tag = t then (t, Suc n) # rest
      else if tag < t then (tag, 1) # (t, n) # rest
      else (t, n) # bump tag rest)"

fun list_tags_loop ::
  "deps \<Rightarrow> 's memory_store \<Rightarrow> page_path list \<Rightarrow> (string \<times> nat) list \<Rightarrow> 's
    \<Rightarrow> (memory_error, (string \<times> nat) list, 's) outcome" where
  "list_tags_loop d st [] counts s = (Inr counts, s)"
| "list_tags_loop d st (path # rest) counts s =
     try_io (read_bytes st path s) (\<lambda>(bs, _) s.
     case parse_document d bs (as_str path) of
       Inl _ \<Rightarrow> list_tags_loop d st rest counts s
     | Inr (md, _) \<Rightarrow> list_tags_loop d st rest (foldl (\<lambda>c t. bump t c) counts (tags md)) s)"

definition list_tags :: "deps \<Rightarrow> 's memory_store \<Rightarrow> 's \<Rightarrow> (memory_error, tag_count list, 's) outcome" where
  "list_tags d st s =
     try_io (list_store_pages st s) (\<lambda>ps s.
     try_io (list_tags_loop d st ps [] s) (\<lambda>counts s.
     (Inr (map (\<lambda>(t, n). \<lparr>tc_tag = t, tc_count = n\<rparr>) counts), s)))"

subsection \<open>Link reports\<close>

fun outgoing_links ::
  "'s memory_store \<Rightarrow> parsed_link list \<Rightarrow> 's \<Rightarrow> (memory_error, page_link list, 's) outcome" where
  "outgoing_links st [] s = (Inr [], s)"
| "outgoing_links st (link # rest) s =
     try_io (case resolved link of
               Some r \<Rightarrow> try_io (exists_page st r s) (\<lambda>present s. (Inr (\<not> present), s))
             | None \<Rightarrow> (Inr False, s)) (\<lambda>broken s.
     try_io (outgoing_links st rest s) (\<lambda>links s.
     (Inr (\<lparr>pl_text = link_text link, pl_raw_target = raw_target link,
            pl_resolved_path = map_option as_str (resolved link), pl_broken = broken\<rparr> # links), s)))"

definition backlinks_in :: "page_path \<Rightarrow> page_path \<Rightarrow> string \<Rightarrow> backlink list" where
  "backlinks_in path other bd =
     map (\<lambda>l. \<lparr>bl_from = as_str other, bl_text = link_text l, bl_raw_target = raw_target l\<rparr>)
       (filter (\<lambda>l. resolved l = Some path) (parse_links other bd))"

fun backlinks_loop ::
  "deps \<Rightarrow> 's memory_store \<Rightarrow> page_path \<Rightarrow> page_path list \<Rightarrow> 's \<Rightarrow> (memory_error, backlink list, 's) outcome" where
  "backlinks_loop d st path [] s = (Inr [], s)"
| "backlinks_loop d st path (other # rest) s =
     (if other = path then backlinks_loop d st path rest s
      else
        try_io (read_bytes st other s) (\<lambda>(bs, _) s.
        case parse_document d bs (as_str other) of
          Inl _ \<Rightarrow> backlinks_loop d st path rest s
        | Inr (_, bd) \<Rightarrow>
            try_io (backlinks_loop d st path rest s) (\<lambda>more s. (Inr (backlinks_in path other bd @ more), s))))"

definition links ::
  "deps \<Rightarrow> 's memory_store \<Rightarrow> page_path \<Rightarrow> bool \<Rightarrow> 's \<Rightarrow> (memory_error, links_report, 's) outcome" where
  "links d st path include_backlinks s =
     try_io (read_page d st path s) (\<lambda>pg s.
     try_io (outgoing_links st (parse_links path (body pg)) s) (\<lambda>outgoing s.
     try_io (if include_backlinks then try_io (list_store_pages st s) (\<lambda>ps s. backlinks_loop d st path ps s)
             else (Inr [], s)) (\<lambda>back s.
     (Inr \<lparr>lr_path = as_str path, lr_outgoing = outgoing, lr_backlinks = back\<rparr>, s))))"

subsection \<open>The integrity check\<close>

definition name_issues :: "scanned_file list \<Rightarrow> check_issue list" where
  "name_issues scanned =
     map (\<lambda>e. \<lparr>ci_path = Some (relative_path e), ci_message = lit ''file name is not a valid page path''\<rparr>)
       (filter (\<lambda>e. parsed e = None) scanned)"

text \<open>The \<^verbatim>\<open>BTreeSet\<close> of parsed paths, as the sorted list of its elements.\<close>

definition valid_paths :: "scanned_file list \<Rightarrow> page_path list" where
  "valid_paths scanned = remdups_adj (sort (List.map_filter parsed scanned))"

fun duplicate_tags :: "page_path \<Rightarrow> string list \<Rightarrow> string list \<Rightarrow> check_issue list" where
  "duplicate_tags path seen [] = []"
| "duplicate_tags path seen (tag # rest) =
     (if tag \<in> set seen
      then \<lparr>ci_path = Some (as_str path), ci_message = [Txt ''duplicate tag '', Dbg tag]\<rparr> # duplicate_tags path seen rest
      else duplicate_tags path (tag # seen) rest)"

definition broken_links :: "page_path list \<Rightarrow> page_path \<Rightarrow> string \<Rightarrow> check_issue list" where
  "broken_links valid path bd =
     List.map_filter (\<lambda>l. case resolved l of
         Some r \<Rightarrow> (if r \<in> set valid then None
                    else Some \<lparr>ci_path = Some (as_str path), ci_message = [Txt ''broken link to '', Dbg (as_str r)]\<rparr>)
       | None \<Rightarrow> None) (parse_links path bd)"

definition error_issue :: "page_path \<Rightarrow> memory_error \<Rightarrow> check_issue" where
  "error_issue path e = \<lparr>ci_path = Some (as_str path), ci_message = display_error e\<rparr>"

fun check_loop ::
  "deps \<Rightarrow> 's memory_store \<Rightarrow> page_path list \<Rightarrow> page_path list \<Rightarrow> 's \<Rightarrow> check_issue list \<times> 's" where
  "check_loop d st valid [] s = ([], s)"
| "check_loop d st valid (path # rest) s =
     (case read_bytes st path s of
        (Inl e, s') \<Rightarrow> (case check_loop d st valid rest s' of (iss, s'') \<Rightarrow> (error_issue path e # iss, s''))
      | (Inr (bs, _), s') \<Rightarrow>
          (case check_loop d st valid rest s' of (iss, s'') \<Rightarrow>
             (case parse_document d bs (as_str path) of
                Inl e \<Rightarrow> (error_issue path e # iss, s'')
              | Inr (md, bd) \<Rightarrow> (duplicate_tags path [] (tags md) @ broken_links valid path bd @ iss, s''))))"

definition check :: "deps \<Rightarrow> 's memory_store \<Rightarrow> 's \<Rightarrow> (memory_error, check_report, 's) outcome" where
  "check d st s =
     try_io (scan_store st s) (\<lambda>scanned s.
       case check_loop d st (valid_paths scanned) (valid_paths scanned) s of
         (issues, s') \<Rightarrow> (Inr \<lparr>cr_issues = name_issues scanned @ issues\<rparr>, s'))"

section \<open>Writing\<close>

text \<open>The revision policy on the abstract store.\<close>

definition write_allowed :: "(bytes \<Rightarrow> revision) \<Rightarrow> write_page_request \<Rightarrow> (page_path \<rightharpoonup> bytes) \<Rightarrow> bool" where
  "write_allowed digest req f =
     (case (wr_expected_revision req, f (wr_path req)) of
        (Some e, Some bs) \<Rightarrow> e = digest bs
      | (Some _, None) \<Rightarrow> False
      | (None, Some _) \<Rightarrow> wr_overwrite req
      | (None, None) \<Rightarrow> True)"

definition existing_page :: "(bytes \<Rightarrow> revision) \<Rightarrow> (page_path \<rightharpoonup> bytes) \<Rightarrow> page_path \<Rightarrow> (bytes \<times> revision) option" where
  "existing_page digest f p = map_option (\<lambda>bs. (bs, digest bs)) (f p)"

text \<open>What a write does to the abstract store: nothing when it fails; otherwise exactly the rendered
  document at the requested path.\<close>

definition write_post ::
  "deps \<Rightarrow> (bytes \<Rightarrow> revision) \<Rightarrow> datetime \<Rightarrow> write_page_request \<Rightarrow> (page_path \<rightharpoonup> bytes)
    \<Rightarrow> (memory_error, page) result \<Rightarrow> (page_path \<rightharpoonup> bytes) \<Rightarrow> bool" where
  "write_post d digest now req f r f' =
     (case r of
        Inl _ \<Rightarrow> f' = f
      | Inr pg \<Rightarrow> write_allowed digest req f \<and>
          next_metadata d now req (existing_page digest f (wr_path req)) = Inr (metadata pg) \<and>
          page_path_of pg = wr_path req \<and> body pg = normalize_body (wr_body req) \<and>
          (\<exists>bs. render_document d (metadata pg) (wr_body req) = Inr bs \<and> length bs \<le> MAX_BODY_BYTES \<and>
             page_revision pg = digest bs \<and> f' = f(wr_path req \<mapsto> bs)))"

lemma check_revision_ok:
  "check_revision req (existing_page digest f (wr_path req)) = Inr u \<longleftrightarrow> write_allowed digest req f"
  by (auto simp: check_revision_def existing_page_def write_allowed_def split: option.splits)

lemma lift_res_eq [simp]: "lift_res r s = (x, s') \<longleftrightarrow> r = x \<and> s = s'"
  by (simp add: lift_res_def)

lemma try_io_snd:
  assumes "P (snd r)" "\<And>y s. r = (Inr y, s) \<Longrightarrow> P s \<Longrightarrow> P (snd (f y s))"
  shows "P (snd (try_io r f))"
  using assms by (cases r; cases "fst r") (auto simp: try_io_def split: sum.splits)

context page_store
begin

lemma read_optional_spec:
  assumes "store_inv s" "valid p" "read_optional st p s = (r, s')"
  shows "store_inv s'" "pages_of s' = pages_of s" "r = Inr ex \<Longrightarrow> ex = existing_page digest (pages_of s) p"
proof -
  obtain r1 s1 where rd: "read_bytes st p s = (r1, s1)" by force
  note k = read_keeps [OF assms(1) rd]
  have s': "s' = s1" using assms(3) rd by (auto simp: read_optional_def split: sum.splits memory_error.splits)
  then show "store_inv s'" "pages_of s' = pages_of s" using k by auto
  show "ex = existing_page digest (pages_of s) p" if r: "r = Inr ex"
  proof (cases r1)
    case (Inr v)
    then show ?thesis using r assms(3) rd read_found [OF assms(1,2)] by (cases v) (auto simp: read_optional_def existing_page_def)
  next
    case (Inl e)
    then obtain q where "e = NotFound q"
      using r assms(3) rd by (auto simp: read_optional_def split: memory_error.splits)
    then show ?thesis
      using r assms(3) rd Inl read_missing [OF assms(1,2)] by (auto simp: read_optional_def existing_page_def)
  qed
qed

lemma write_page_locked_spec:
  assumes "store_inv s" "valid (wr_path req)" "write_page_locked d st now req s = (r, s')"
  shows "store_inv s' \<and> write_post d digest now req (pages_of s) r (pages_of s')"
proof -
  let ?p = "wr_path req" and ?ex = "existing_page digest (pages_of s) (wr_path req)"
  obtain r1 s1 where rd: "read_optional st ?p s = (r1, s1)" by force
  note k = read_optional_spec [OF assms(1,2) rd]
  show ?thesis
  proof (cases r1)
    case (Inl e)
    then show ?thesis using assms(3) rd k by (simp add: write_page_locked_def write_post_def) auto
  next
    case (Inr ex)
    then have ex: "ex = ?ex" using k(3) by simp
    let ?rest = "try_res (check_revision req ?ex) (\<lambda>_. try_res (next_metadata d now req ?ex) (\<lambda>md.
      try_res (render_document d md (wr_body req)) (\<lambda>bs.
        if length bs > MAX_BODY_BYTES then Inl (TooLarge ''page document'' MAX_BODY_BYTES) else Inr (md, bs))))"
    have "(r, s') = (case ?rest of Inl e \<Rightarrow> (Inl e, s1) | Inr (md, bs) \<Rightarrow>
        try_io (write_bytes st ?p bs s1) (\<lambda>rv s.
          (Inr \<lparr>page_path_of = ?p, metadata = md, body = normalize_body (wr_body req), page_revision = rv\<rparr>, s)))"
      using assms(3) rd Inr
      by (auto simp: write_page_locked_def ex lift_res_def try_io_def try_res_def split: sum.splits)
    then show ?thesis
    proof (cases ?rest)
      case (Inl e)
      then show ?thesis using \<open>(r, s') = _\<close> k by (simp add: write_post_def)
    next
      case rest: (Inr mb)
      obtain md bs where mb: "mb = (md, bs)" by (cases mb)
      have facts: "write_allowed digest req (pages_of s)" "next_metadata d now req ?ex = Inr md"
        "render_document d md (wr_body req) = Inr bs" "length bs \<le> MAX_BODY_BYTES"
        using rest by (auto simp: mb try_res_Inr_iff check_revision_ok split: if_splits)
      obtain r2 s2 where w: "write_bytes st ?p bs s1 = (r2, s2)" by force
      note e = write_page [OF k(1) assms(2) w]
      have "(r, s') = try_io (r2, s2) (\<lambda>rv s.
          (Inr \<lparr>page_path_of = ?p, metadata = md, body = normalize_body (wr_body req), page_revision = rv\<rparr>, s))"
        using \<open>(r, s') = _\<close> rest by (simp add: mb w)
      then show ?thesis
        using e facts k(2) by (cases r2) (auto simp: write_post_def)
    qed
  qed
qed

lemma write_page_spec:
  assumes "store_inv s" "valid (wr_path req)" "write_page d st now req s = (r, s')"
  shows "store_inv s' \<and> write_post d digest now req (pages_of s) r (pages_of s')"
proof (cases "with_lock st (write_page_locked d st now req) s = (r, s')")
  case True
  show ?thesis
  proof (rule locked_keeps [OF assms(1) True])
    fix t r t'
    assume "store_inv t" "pages_of t = pages_of s" "write_page_locked d st now req t = (r, t')"
    then show "store_inv t' \<and> write_post d digest now req (pages_of s) r (pages_of t')"
      using write_page_locked_spec [of t req d now r t'] assms(2) by simp
  qed (simp add: write_post_def)
next
  case False
  then have "s' = s \<and> (\<exists>e. r = Inl e)"
    using assms(3) by (auto simp: write_page_def lift_res_def try_io_def split: sum.splits)
  then show ?thesis using assms(1) by (auto simp: write_post_def)
qed

lemma remove_page_spec:
  assumes "store_inv s" "valid (rm_path req)" "Memory_Service.remove_page st req s = (r, s')"
  shows "store_inv s' \<and> (case r of Inl _ \<Rightarrow> pages_of s' = pages_of s
    | Inr _ \<Rightarrow> pages_of s' = (pages_of s)(rm_path req := None) \<and>
       (\<exists>bs. pages_of s (rm_path req) = Some bs \<and> (\<forall>e. rm_expected_revision req = Some e \<longrightarrow> e = digest bs)))"
proof (rule locked_keeps [OF assms(1) assms(3) [unfolded Memory_Service.remove_page_def]])
  fix t r t'
  assume t: "store_inv t" "pages_of t = pages_of s" "remove_page_locked st req t = (r, t')"
  obtain r1 s1 where rd: "read_bytes st (rm_path req) t = (r1, s1)" by force
  note k = read_keeps [OF t(1) rd]
  show "store_inv t' \<and> (case r of Inl _ \<Rightarrow> pages_of t' = pages_of s
    | Inr _ \<Rightarrow> pages_of t' = (pages_of s)(rm_path req := None) \<and>
       (\<exists>bs. pages_of s (rm_path req) = Some bs \<and> (\<forall>e. rm_expected_revision req = Some e \<longrightarrow> e = digest bs)))"
  proof (cases r1)
    case (Inl e)
    then show ?thesis using t rd k by (auto simp: remove_page_locked_def)
  next
    case (Inr v)
    obtain bs rv where v: "v = (bs, rv)" by (cases v)
    have f: "pages_of s (rm_path req) = Some bs" "rv = digest bs"
      using read_found [OF t(1) assms(2), of bs rv s1] rd Inr t(2) by (auto simp: v)
    obtain r2 s2 where rm: "remove_file st (rm_path req) s1 = (r2, s2)" by force
    have s1: "store_inv s1" "pages_of s1 = pages_of s" using k t(2) by auto
    note e = remove_page [OF s1(1) assms(2) rm]
    show ?thesis
      using t(3) rd Inr v rm e f s1
      by (auto simp: remove_page_locked_def revision_guard_def lift_res_def split: option.splits if_splits sum.splits)
  qed
qed simp

end

section \<open>Moving\<close>

text \<open>The rewritten document of a page that links to the moved one.\<close>

definition referrer ::
  "deps \<Rightarrow> (page_path \<rightharpoonup> bytes) \<Rightarrow> page_path \<Rightarrow> page_path \<Rightarrow> page_path \<Rightarrow> (page_path \<times> bytes) option" where
  "referrer d f src dst p =
     (if p = src then None
      else case f p of None \<Rightarrow> None | Some bs \<Rightarrow>
        (case parse_document d bs (as_str p) of Inl _ \<Rightarrow> None | Inr (md, bd) \<Rightarrow>
          (case rewrite_links p bd src dst of (new_body, changed) \<Rightarrow>
             if changed then map_option (Pair p) (ok_opt (render_document d md new_body)) else None)))"

lemma referrer_fst: "referrer d f src dst p = Some x \<Longrightarrow> fst x = p"
  by (auto simp: referrer_def split: if_splits option.splits sum.splits prod.splits)

lemma map_of_map_filter:
  assumes "\<And>p x. g p = Some x \<Longrightarrow> fst x = p"
  shows "map_of (List.map_filter g ps) q = (if q \<in> set ps then map_option snd (g q) else None)"
proof (induction ps)
  case (Cons p ps)
  then show ?case using assms [of p] by (cases "g p") (auto simp: List.map_filter_simps)
qed (simp add: List.map_filter_simps)

definition move_post ::
  "deps \<Rightarrow> (bytes \<Rightarrow> revision) \<Rightarrow> (page_path \<Rightarrow> bool) \<Rightarrow> move_page_request \<Rightarrow> (page_path \<rightharpoonup> bytes)
    \<Rightarrow> (memory_error, move_outcome) result \<Rightarrow> (page_path \<rightharpoonup> bytes) \<Rightarrow> bool" where
  "move_post d digest listed req f r f' =
     (case r of
        Inl _ \<Rightarrow> True
      | Inr out \<Rightarrow>
          (\<exists>bs. f (mv_source req) = Some bs \<and> mo_revision out = digest bs \<and>
             (\<forall>e. mv_expected_revision req = Some e \<longrightarrow> e = digest bs) \<and>
             f' (mv_source req) = None \<and> f' (mv_destination req) = Some bs) \<and>
          (\<forall>q. q \<noteq> mv_source req \<and> q \<noteq> mv_destination req \<and> (listed q \<or> f q = None) \<longrightarrow>
             f' q = (case referrer d f (mv_source req) (mv_destination req) q of
                       Some (_, b) \<Rightarrow> Some b | None \<Rightarrow> f q)))"

context page_store
begin

lemma collect_referrers_spec:
  "store_inv s \<Longrightarrow> \<forall>p \<in> set ps. valid p \<Longrightarrow> collect_referrers d st src dst ps s = (r, s') \<Longrightarrow>
     store_inv s' \<and> pages_of s' = pages_of s \<and>
     (\<forall>names reps. r = Inr (names, reps) \<longrightarrow>
        reps = List.map_filter (referrer d (pages_of s) src dst) ps \<and> names = map (as_str \<circ> fst) reps)"
proof (induction ps arbitrary: s r s')
  case Nil
  then show ?case by (auto simp: List.map_filter_simps)
next
  case (Cons p ps)
  show ?case
  proof (cases "p = src")
    case True
    then show ?thesis using Cons by (simp add: List.map_filter_simps referrer_def)
  next
    case False
    obtain r1 s1 where rd: "read_bytes st p s = (r1, s1)" by force
    note k = read_keeps [OF Cons.prems(1) rd]
    note IH = Cons.IH [of s1]
    show ?thesis
    proof (cases r1)
      case (Inl e)
      then show ?thesis using Cons.prems False rd k by auto
    next
      case (Inr v)
      obtain bs rv where v: "v = (bs, rv)" by (cases v)
      have f: "pages_of s p = Some bs" using read_found [OF Cons.prems(1), of p bs rv s1] rd Inr v Cons.prems(2) by auto
      note step = Cons.prems(3) [simplified, unfolded rd Inr v, simplified False if_False try_io_simps prod.case]
      show ?thesis
      proof (cases "parse_document d bs (as_str p)")
        case (Inl e)
        then have "referrer d (pages_of s) src dst p = None" by (simp add: referrer_def f)
        with Inl step IH k Cons.prems(2) show ?thesis by (simp add: List.map_filter_simps)
      next
        case doc: (Inr md_bd)
        obtain md bd where mb: "md_bd = (md, bd)" by (cases md_bd)
        obtain nb ch where rw: "rewrite_links p bd src dst = (nb, ch)" by force
        show ?thesis
        proof (cases ch)
          case no: False
          then have "referrer d (pages_of s) src dst p = None" by (simp add: referrer_def f doc mb rw)
          with no step IH k Cons.prems(2) show ?thesis by (simp add: List.map_filter_simps doc mb rw)
        next
          case True
          show ?thesis
          proof (cases "render_document d md nb")
            case (Inl e)
            then show ?thesis using step True k by (auto simp: doc mb rw lift_res_def)
          next
            case ren: (Inr nbs)
            have ref: "referrer d (pages_of s) src dst p = Some (p, nbs)"
              using False True by (simp add: referrer_def f doc mb rw ren)
            obtain r2 s2 where c: "collect_referrers d st src dst ps s1 = (r2, s2)" by force
            have ih: "store_inv s2 \<and> pages_of s2 = pages_of s \<and>
               (\<forall>names reps. r2 = Inr (names, reps) \<longrightarrow>
                 reps = List.map_filter (referrer d (pages_of s) src dst) ps \<and> names = map (as_str \<circ> fst) reps)"
              using IH [OF _ _ c] k Cons.prems(2) by (simp add: comp_def)
            have "(r, s') = (case r2 of Inl e \<Rightarrow> (Inl e, s2) | Inr (names, reps) \<Rightarrow> (Inr (as_str p # names, (p, nbs) # reps), s2))"
              using step True by (cases r2) (auto simp: doc mb rw ren lift_res_def c)
            then show ?thesis
              using ih by (auto simp: List.map_filter_simps ref split: sum.splits)
          qed
        qed
      qed
    qed
  qed
qed

lemma keeps_snd:
  "store_inv s \<Longrightarrow> store_inv (snd (read_bytes st p s))"
  "store_inv s \<Longrightarrow> store_inv (snd (exists_page st p s))"
  "store_inv s \<Longrightarrow> store_inv (snd (list_store_pages st s))"
  "store_inv s \<Longrightarrow> store_inv (snd (commit_move st src dst bs reps s))"
  using read_keeps [of s p "fst (read_bytes st p s)" "snd (read_bytes st p s)"]
    exists_keeps [of s p "fst (exists_page st p s)" "snd (exists_page st p s)"]
    list_keeps [of s "fst (list_store_pages st s)" "snd (list_store_pages st s)"]
    move_inv [of s src dst bs reps "fst (commit_move st src dst bs reps s)" "snd (commit_move st src dst bs reps s)"]
  by simp_all

lemmas inv_try = try_io_snd [where P = store_inv]

lemma collect_keeps_snd: "store_inv s \<Longrightarrow> store_inv (snd (collect_referrers d st src dst ps s))"
proof (induction ps arbitrary: s)
  case (Cons p ps)
  then show ?case
    by (auto intro!: inv_try keeps_snd simp: lift_res_def split: sum.split prod.split)
qed simp

lemma move_page_locked_spec:
  assumes "store_inv s" "valid (mv_source req)" "valid (mv_destination req)" "mv_source req \<noteq> mv_destination req"
    and "move_page_locked d st req s = (r, s')"
  shows "store_inv s' \<and> move_post d digest listed req (pages_of s) r (pages_of s')"
proof (cases r)
  case (Inl err)
  have "store_inv (snd (move_page_locked d st req s))"
    unfolding move_page_locked_def using assms(1)
    by (auto intro!: inv_try keeps_snd collect_keeps_snd simp: lift_res_def)
  with assms(5) have "store_inv s'" by simp
  then show ?thesis by (simp add: move_post_def Inl)
next
  case (Inr out)
  let ?S = "mv_source req" and ?D = "mv_destination req" and ?f = "pages_of s"
  from assms(5) Inr obtain bs rv s1 s2 ps s3 names reps s4 sb rv2 s5 where
      1: "read_bytes st ?S s = (Inr (bs, rv), s1)"
    and g: "revision_guard ?S (mv_expected_revision req) rv = Inr ()"
    and 2: "exists_page st ?D s1 = (Inr False, s2)"
    and 3: "list_store_pages st s2 = (Inr ps, s3)"
    and 4: "collect_referrers d st ?S ?D ps s3 = (Inr (names, reps), s4)"
    and 5: "read_bytes st ?S s4 = (Inr (sb, rv2), s5)"
    and 6: "commit_move st ?S ?D sb reps s5 = (Inr (), s')"
    and out: "mo_revision out = rv"
    by (auto simp: move_page_locked_def try_io_Inr_iff split: if_splits)
  note k1 = read_keeps [OF assms(1) 1] and f1 = read_found [OF assms(1,2) 1]
  note k2 = exists_keeps [OF _ 2] and k3 = list_keeps [OF _ 3]
  have s2: "store_inv s2" "pages_of s2 = ?f" using k1 k2 by auto
  have s3: "store_inv s3" "pages_of s3 = ?f" using k3 s2 by auto
  have v: "\<forall>p \<in> set ps. valid p" using list_valid [OF s2(1) 3] by blast
  have s4: "store_inv s4" "pages_of s4 = ?f" "reps = List.map_filter (referrer d ?f ?S ?D) ps"
    using collect_referrers_spec [OF s3(1) v 4] s3(2) by auto
  have s5: "store_inv s5" "pages_of s5 = ?f" using read_keeps [OF s4(1) 5] s4(2) by auto
  have sb: "sb = bs" using read_found [OF s4(1) assms(2) 5] f1 s4(2) by simp
  have "fst ` set reps \<subseteq> set ps"
    using referrer_fst by (fastforce simp: s4(3) List.map_filter_def image_iff)
  then have "\<forall>p \<in> fst ` set reps. valid p" using v by blast
  note m = move_page [OF s5(1) assms(2,3) this 6]
  have reps: "map_of reps q = (if q \<in> set ps then map_option snd (referrer d ?f ?S ?D q) else None)" for q
    unfolding s4(3) by (rule map_of_map_filter) (rule referrer_fst)
  have none: "map_of reps ?S = None" "map_of reps ?D = None" using m by (auto simp: map_of_eq_None_iff)
  have "pages_of s' ?S = None" "pages_of s' ?D = Some bs"
    using m none assms(4) by (simp_all add: map_add_def sb)
  moreover have "pages_of s' q = (case referrer d ?f ?S ?D q of Some (_, b) \<Rightarrow> Some b | None \<Rightarrow> ?f q)"
    if q: "q \<noteq> ?S" "q \<noteq> ?D" "listed q \<or> ?f q = None" for q
  proof -
    have "pages_of s' q = (case map_of reps q of Some b \<Rightarrow> Some b | None \<Rightarrow> ?f q)"
      using m q(1,2) by (auto simp: map_add_def s5(2) split: option.split)
    moreover have "map_of reps q = map_option snd (referrer d ?f ?S ?D q)"
    proof (cases "?f q")
      case None
      then show ?thesis by (simp add: reps referrer_def)
    next
      case (Some b)
      then have "q \<in> set ps" using list_complete [OF s2(1) 3, of q] q(3) s2(2) by auto
      then show ?thesis by (simp add: reps)
    qed
    ultimately show ?thesis by (auto split: option.splits)
  qed
  moreover have "\<forall>e. mv_expected_revision req = Some e \<longrightarrow> e = digest bs"
    using g f1 by (auto simp: revision_guard_def split: if_splits)
  ultimately show ?thesis using m f1 by (auto simp: move_post_def Inr out)
qed

lemma move_page_spec:
  assumes "store_inv s" "valid (mv_source req)" "valid (mv_destination req)"
    and "Memory_Service.move_page d st req s = (r, s')"
  shows "store_inv s' \<and> move_post d digest listed req (pages_of s) r (pages_of s')"
proof (cases "mv_source req = mv_destination req")
  case True
  then show ?thesis using assms(1,4) by (auto simp: Memory_Service.move_page_def move_post_def)
next
  case False
  then have l: "with_lock st (move_page_locked d st req) s = (r, s')"
    using assms(4) by (simp add: Memory_Service.move_page_def)
  show ?thesis
  proof (rule locked_keeps [OF assms(1) l])
    fix t r t'
    assume "store_inv t" "pages_of t = pages_of s" "move_page_locked d st req t = (r, t')"
    then show "store_inv t' \<and> move_post d digest listed req (pages_of s) r (pages_of t')"
      using move_page_locked_spec [OF _ assms(2,3) False, of t d r t'] by simp
  qed (simp add: move_post_def)
qed

end

section \<open>Queries\<close>

text \<open>The summary a query reports for a page, if it does.\<close>

definition doc_of :: "deps \<Rightarrow> (page_path \<rightharpoonup> bytes) \<Rightarrow> page_path \<Rightarrow> (page_metadata \<times> string) option" where
  "doc_of d f p = Option.bind (f p) (\<lambda>bs. ok_opt (parse_document d bs (as_str p)))"

definition hit ::
  "deps \<Rightarrow> (page_path \<rightharpoonup> bytes) \<Rightarrow> page_path option \<Rightarrow> string \<Rightarrow> string list \<Rightarrow> page_path \<Rightarrow> page_summary option" where
  "hit d f under_opt needle with_tags p =
     (if (case under_opt of Some u \<Rightarrow> \<not> is_under u p | None \<Rightarrow> False) then None
      else Option.bind (doc_of d f p) (\<lambda>(md, bd).
        if query_match d needle with_tags p md bd then Some (summary p md) else None))"

context page_store
begin

lemma query_loop_spec:
  "store_inv s \<Longrightarrow> \<forall>p \<in> set ps. valid p \<Longrightarrow>
     query_loop d st under_opt needle with_tags limit ps count s = (r, s') \<Longrightarrow>
     store_inv s' \<and> pages_of s' = pages_of s \<and>
     (\<forall>rs. r = Inr rs \<longrightarrow>
        rs = take (max 1 (limit - count)) (List.map_filter (hit d (pages_of s) under_opt needle with_tags) ps))"
proof (induction ps arbitrary: s r s' count)
  case Nil
  then show ?case by (auto simp: List.map_filter_simps)
next
  case (Cons p ps)
  let ?hit = "hit d (pages_of s) under_opt needle with_tags"
  show ?case
  proof (cases "case under_opt of Some u \<Rightarrow> \<not> is_under u p | None \<Rightarrow> False")
    case True
    then have "?hit p = None" by (simp add: hit_def)
    with True Cons show ?thesis by (simp add: List.map_filter_simps)
  next
    case inside: False
    obtain r1 s1 where rd: "read_bytes st p s = (r1, s1)" by force
    note k = read_keeps [OF Cons.prems(1) rd]
    have IH: "store_inv s' \<and> pages_of s' = pages_of s \<and> (\<forall>rs. r = Inr rs \<longrightarrow>
        rs = take (max 1 (limit - c)) (List.map_filter ?hit ps))"
      if "query_loop d st under_opt needle with_tags limit ps c s1 = (r, s')" for r s' c
      using Cons.IH [OF _ _ that] k Cons.prems(2) by simp
    show ?thesis
    proof (cases r1)
      case (Inl e)
      then show ?thesis using Cons.prems inside rd k by auto
    next
      case (Inr v)
      obtain bs rv where v: "v = (bs, rv)" by (cases v)
      have f: "pages_of s p = Some bs" using read_found [OF Cons.prems(1), of p bs rv s1] rd Inr v Cons.prems(2) by auto
      show ?thesis
      proof (cases "parse_document d bs (as_str p)")
        case (Inl e)
        then have "?hit p = None" by (simp add: hit_def doc_of_def f)
        then show ?thesis using IH [of count r s'] Cons.prems(3) inside
          by (simp add: List.map_filter_simps rd Inr v Inl)
      next
        case doc: (Inr md_bd)
        obtain md bd where mb: "md_bd = (md, bd)" by (cases md_bd)
        have h: "?hit p = (if query_match d needle with_tags p md bd then Some (summary p md) else None)"
          using inside by (simp add: hit_def doc_of_def f doc mb)
        note step = Cons.prems(3) [simplified, unfolded rd Inr v, simplified inside if_False try_io_simps prod.case doc mb sum.case]
        show ?thesis
        proof (cases "query_match d needle with_tags p md bd")
          case False
          then show ?thesis using IH [of count r s'] step h by (simp add: List.map_filter_simps)
        next
          case True
          show ?thesis
          proof (cases "Suc count \<ge> limit")
            case lim: True
            then have "max 1 (limit - count) = 1" by simp
            then show ?thesis using step True lim h k by (auto simp: List.map_filter_simps)
          next
            case lim: False
            obtain r2 s2 where q: "query_loop d st under_opt needle with_tags limit ps (Suc count) s1 = (r2, s2)" by force
            have "max 1 (limit - count) = Suc (max 1 (limit - Suc count))" using lim by simp
            moreover have "(r, s') = (case r2 of Inl e \<Rightarrow> (Inl e, s2) | Inr rs \<Rightarrow> (Inr (summary p md # rs), s2))"
              using step True lim q by (cases r2) auto
            ultimately show ?thesis
              using IH [OF q] True h by (auto simp: List.map_filter_simps split: sum.splits)
          qed
        qed
      qed
    qed
  qed
qed

lemma query_pages_spec:
  assumes "store_inv s" "query_pages d st req s = (Inr rs, s')"
  shows "pages_of s' = pages_of s \<and> (\<exists>ps. sorted ps \<and>
    (\<forall>p. listed p \<and> pages_of s p \<noteq> None \<longrightarrow> p \<in> set ps) \<and>
    rs = take (max 1 (case lf_limit (qr_filter req) of Some n \<Rightarrow> n | None \<Rightarrow> DEFAULT_LIST_LIMIT))
      (List.map_filter (hit d (pages_of s) (lf_under (qr_filter req)) (to_lowercase d (qr_text req))
         (map (normalize_tag d) (lf_with_tags (qr_filter req)))) ps))"
proof -
  obtain ps s1 where l: "list_store_pages st s = (Inr ps, s1)"
    and q: "query_loop d st (lf_under (qr_filter req)) (to_lowercase d (qr_text req))
      (map (normalize_tag d) (lf_with_tags (qr_filter req)))
      (case lf_limit (qr_filter req) of Some n \<Rightarrow> n | None \<Rightarrow> DEFAULT_LIST_LIMIT) ps 0 s1 = (Inr rs, s')"
    using assms(2) by (auto simp: query_pages_def Let_def try_io_Inr_iff split: if_splits)
  note k = list_keeps [OF assms(1) l]
  have "\<forall>p \<in> set ps. valid p" using list_valid [OF assms(1) l] by blast
  from query_loop_spec [OF _ this q] k list_sorted [OF assms(1) l] list_complete [OF assms(1) l]
  show ?thesis by (intro conjI exI [of _ ps]) auto
qed

end

section \<open>Tags\<close>

definition tags_of :: "deps \<Rightarrow> (page_path \<rightharpoonup> bytes) \<Rightarrow> page_path \<Rightarrow> string list" where
  "tags_of d f p = (case doc_of d f p of Some (md, _) \<Rightarrow> tags md | None \<Rightarrow> [])"

definition count_get :: "(string \<times> nat) list \<Rightarrow> string \<Rightarrow> nat" where
  "count_get c t = (case map_of c t of Some n \<Rightarrow> n | None \<Rightarrow> 0)"

text \<open>Keys in strictly increasing order, every count positive.\<close>

definition counts_ok :: "(string \<times> nat) list \<Rightarrow> bool" where
  "counts_ok c \<longleftrightarrow> sorted_wrt (<) (map fst c) \<and> (\<forall>(t, n) \<in> set c. 0 < n)"

lemma bump_keys: "fst ` set (bump t c) = insert t (fst ` set c)"
  by (induction t c rule: bump.induct) auto

lemma bump_ok: "counts_ok c \<Longrightarrow> counts_ok (bump t c)"
proof (induction t c rule: bump.induct)
  case (2 tag t n rest)
  then have "counts_ok rest" "\<forall>x \<in> fst ` set rest. t < x" "0 < n" by (auto simp: counts_ok_def)
  with 2 show ?case using bump_keys [of tag rest] by (auto simp: counts_ok_def)
qed (simp add: counts_ok_def)

lemma bump_get: "counts_ok c \<Longrightarrow> count_get (bump t c) u = count_get c u + (if u = t then 1 else 0)"
proof (induction t c rule: bump.induct)
  case (2 tag t n rest)
  then have "counts_ok rest" "\<forall>x \<in> fst ` set rest. t < x" by (auto simp: counts_ok_def)
  moreover from this have "tag \<le> t \<Longrightarrow> map_of rest tag = None" by (force simp: map_of_eq_None_iff)
  ultimately show ?case using 2 by (auto simp: count_get_def)
qed (simp add: count_get_def)

lemma foldl_bump:
  "counts_ok c \<Longrightarrow> counts_ok (foldl (\<lambda>c t. bump t c) c ts) \<and>
     count_get (foldl (\<lambda>c t. bump t c) c ts) u = count_get c u + count_list ts u"
  by (induction ts arbitrary: c) (auto simp: bump_ok bump_get)

context page_store
begin

lemma list_tags_loop_spec:
  "store_inv s \<Longrightarrow> \<forall>p \<in> set ps. valid p \<Longrightarrow> counts_ok c \<Longrightarrow>
     list_tags_loop d st ps c s = (Inr c', s') \<Longrightarrow>
     pages_of s' = pages_of s \<and> counts_ok c' \<and>
     count_get c' u = count_get c u + count_list (concat (map (tags_of d (pages_of s)) ps)) u"
proof (induction ps arbitrary: s c)
  case (Cons p ps)
  obtain bs rv s1 where rd: "read_bytes st p s = (Inr (bs, rv), s1)"
    using Cons.prems(4) by (auto simp: try_io_Inr_iff)
  note k = read_keeps [OF Cons.prems(1) rd]
  have f: "pages_of s p = Some bs" using read_found [OF Cons.prems(1) _ rd] Cons.prems(2) by auto
  let ?c = "foldl (\<lambda>c t. bump t c) c (tags_of d (pages_of s) p)"
  have "list_tags_loop d st ps ?c s1 = (Inr c', s')"
    using Cons.prems(4) by (auto simp: rd tags_of_def doc_of_def f split: sum.splits)
  from Cons.IH [OF _ _ _ this] k Cons.prems(2,3) foldl_bump [OF Cons.prems(3), of "tags_of d (pages_of s) p"]
  show ?case by auto
qed simp

lemma list_tags_spec:
  assumes "store_inv s" "list_tags d st s = (Inr ts, s')"
  shows "pages_of s' = pages_of s \<and> sorted_wrt (<) (map tc_tag ts) \<and>
    (\<exists>ps. sorted ps \<and> (\<forall>p. listed p \<and> pages_of s p \<noteq> None \<longrightarrow> p \<in> set ps) \<and>
      (\<forall>t n. \<lparr>tc_tag = t, tc_count = n\<rparr> \<in> set ts \<longleftrightarrow>
        n = count_list (concat (map (tags_of d (pages_of s)) ps)) t \<and> 0 < n))"
proof -
  obtain ps s1 c where l: "list_store_pages st s = (Inr ps, s1)"
    and q: "list_tags_loop d st ps [] s1 = (Inr c, s')" and ts: "ts = map (\<lambda>(t, n). \<lparr>tc_tag = t, tc_count = n\<rparr>) c"
    using assms(2) by (auto simp: list_tags_def try_io_Inr_iff)
  note k = list_keeps [OF assms(1) l]
  have v: "\<forall>p \<in> set ps. valid p" using list_valid [OF assms(1) l] by blast
  have e: "pages_of s' = pages_of s \<and> counts_ok c \<and>
      count_get c u = count_list (concat (map (tags_of d (pages_of s)) ps)) u" for u
    using list_tags_loop_spec [OF _ v _ q, of u] k by (simp add: counts_ok_def count_get_def)
  have dist: "distinct (map fst c)" using e by (auto simp: counts_ok_def dest: strict_sorted_imp_sorted)
     (metis strict_sorted_iff)
  have mem: "(t, n) \<in> set c \<longleftrightarrow> n = count_get c t \<and> 0 < n" for t n
  proof
    assume "(t, n) \<in> set c"
    then show "n = count_get c t \<and> 0 < n" using e dist by (force simp: counts_ok_def count_get_def)
  next
    assume "n = count_get c t \<and> 0 < n"
    then show "(t, n) \<in> set c" by (auto simp: count_get_def split: option.splits dest: map_of_SomeD)
  qed
  have "\<lparr>tc_tag = t, tc_count = n\<rparr> \<in> set ts \<longleftrightarrow> (t, n) \<in> set c" for t n by (force simp: ts)
  moreover have "map tc_tag ts = map fst c" by (auto simp: ts)
  ultimately show ?thesis
    using e mem list_sorted [OF assms(1) l] list_complete [OF assms(1) l]
    by (intro conjI exI [of _ ps]) (auto simp: counts_ok_def)
qed

end

section \<open>The integrity check\<close>

lemma duplicate_tags_Nil: "duplicate_tags path seen ts = [] \<longleftrightarrow> distinct ts \<and> set ts \<inter> set seen = {}"
  by (induction path seen ts rule: duplicate_tags.induct) auto

lemma broken_links_Nil:
  "broken_links vs path bd = [] \<longleftrightarrow> (\<forall>l \<in> set (parse_links path bd). \<forall>r. resolved l = Some r \<longrightarrow> r \<in> set vs)"
proof -
  have "List.map_filter g ls = [] \<longleftrightarrow> (\<forall>l \<in> set ls. g l = None)" for g :: "parsed_link \<Rightarrow> check_issue option" and ls
    by (induction ls) (auto simp: List.map_filter_simps split: option.splits)
  then show ?thesis by (auto simp: broken_links_def split: option.splits)
qed

text \<open>A page the check has nothing to say about.\<close>

definition page_clean :: "deps \<Rightarrow> (page_path \<rightharpoonup> bytes) \<Rightarrow> page_path set \<Rightarrow> page_path \<Rightarrow> bool" where
  "page_clean d f targets p \<longleftrightarrow>
     (\<exists>md bd. doc_of d f p = Some (md, bd) \<and> distinct (tags md) \<and>
        (\<forall>l \<in> set (parse_links p bd). \<forall>r. resolved l = Some r \<longrightarrow> r \<in> targets))"

context page_store
begin

lemma check_loop_clean:
  "store_inv s \<Longrightarrow> \<forall>p \<in> set ps. valid p \<Longrightarrow> check_loop d st vs ps s = (iss, s') \<Longrightarrow>
     iss = [] \<Longrightarrow> \<forall>p \<in> set ps. page_clean d (pages_of s) (set vs) p"
proof (induction ps arbitrary: s iss s')
  case (Cons p ps)
  obtain r1 s1 where rd: "read_bytes st p s = (r1, s1)" by force
  note k = read_keeps [OF Cons.prems(1) rd]
  obtain iss2 s2 where rest: "check_loop d st vs ps s1 = (iss2, s2)" by force
  from Cons.prems(3,4) rd rest obtain bs rv where r1: "r1 = Inr (bs, rv)"
    by (cases r1) auto
  have f: "pages_of s p = Some bs" using read_found [OF Cons.prems(1), of p bs rv s1] rd r1 Cons.prems(2) by auto
  from Cons.prems(3,4) rd rest r1 obtain md bd where doc: "parse_document d bs (as_str p) = Inr (md, bd)"
    and nil: "duplicate_tags p [] (tags md) = []" "broken_links vs p bd = []" "iss2 = []"
    by (auto split: sum.splits prod.splits)
  have "page_clean d (pages_of s) (set vs) p"
    using nil by (auto simp: page_clean_def doc_of_def f doc duplicate_tags_Nil broken_links_Nil)
  moreover have "\<forall>p \<in> set ps. page_clean d (pages_of s) (set vs) p"
    using Cons.IH [OF _ _ rest nil(3)] k Cons.prems(2) by simp
  ultimately show ?case by simp
qed simp

lemma check_clean:
  assumes "store_inv s" "check d st s = (Inr rep, s')" "is_clean rep" "listed p" "pages_of s p \<noteq> None"
  shows "page_clean d (pages_of s) {q. pages_of s q \<noteq> None} p"
proof -
  obtain es s1 where sc: "scan_store st s = (Inr es, s1)"
    using assms(2) by (auto simp: check_def try_io_Inr_iff)
  obtain iss s2 where l0: "check_loop d st (valid_paths es) (valid_paths es) s1 = (iss, s2)" by force
  then have l: "check_loop d st (valid_paths es) (valid_paths es) s1 = (iss, s')" and nil: "iss = []"
    using assms(2,3) sc by (auto simp: check_def is_clean_def)
  note k = scan_keeps [OF assms(1) sc]
  have vp: "q \<in> set (valid_paths es) \<longleftrightarrow> (\<exists>e \<in> set es. parsed e = Some q)" for q
    by (force simp: valid_paths_def List.map_filter_def)
  then have "\<forall>q \<in> set (valid_paths es). valid q" using scan_valid [OF assms(1) sc] by blast
  from check_loop_clean [OF _ this l nil] k
  have clean: "\<forall>q \<in> set (valid_paths es). page_clean d (pages_of s) (set (valid_paths es)) q" by simp
  then have "set (valid_paths es) \<subseteq> {q. pages_of s q \<noteq> None}"
    by (force simp: page_clean_def doc_of_def bind_eq_Some_conv)
  moreover have "p \<in> set (valid_paths es)" using scan_complete [OF assms(1) sc assms(4,5)] vp by blast
  ultimately show ?thesis using clean by (fastforce simp: page_clean_def)
qed

end

section \<open>Tag normalisation\<close>

lemma distinct_remdups_adj_sorted: "sorted xs \<Longrightarrow> distinct (remdups_adj (xs :: 'a :: linorder list))"
  by (induction xs rule: remdups_adj.induct) (auto simp: less_le)

lemma normalize_tags_canonical:
  "sorted_wrt (<) (normalize_tags d ts) \<and> set (normalize_tags d ts) = normalize_tag d ` set ts"
proof -
  have "sorted (normalize_tags d ts)" "distinct (normalize_tags d ts)"
    unfolding normalize_tags_def by (simp_all add: sorted_remdups_adj distinct_remdups_adj_sorted)
  then show ?thesis by (auto simp: strict_sorted_iff normalize_tags_def)
qed

end
