(* ===== verification/Run_Stream.thy ===== *)
theory Run_Stream
  imports Memory_Error "HOL-Library.Word"
begin

text \<open>
  The framed protocol of \<^verbatim>\<open>/v1/run\<close> (\<^verbatim>\<open>services/memory_rs/src/run_stream.rs\<close>): encoding of chunk and
  terminal frames, the incremental decoder, and the loop of the HTTP client that feeds received chunks
  to it (\<^verbatim>\<open>http_client.rs\<close>, \<^verbatim>\<open>run_command\<close>).  A byte is a \<open>char\<close>; a frame length and an exit code are
  32-bit words in big-endian order.
\<close>

section \<open>Outcomes and frames\<close>

text \<open>\<^verbatim>\<open>RunOutcome\<close> of \<^verbatim>\<open>command_runner.rs\<close>; the exit code is an \<^verbatim>\<open>i32\<close>.\<close>

datatype run_outcome =
    Exited "32 word"
  | TimedOut
  | OutputLimitExceeded
  | Cancelled
  | NotAllowed string
  | LaunchFailed string

definition RUN_CONTENT_TYPE :: string where
  "RUN_CONTENT_TYPE = ''application/vnd.agentspace.memory-run''"

definition FRAME_HEADER_LEN :: nat where "FRAME_HEADER_LEN = 5"
definition MAX_FRAME_PAYLOAD_BYTES :: nat where "MAX_FRAME_PAYLOAD_BYTES = 1024 * 1024"

definition TAG_STDOUT :: char where "TAG_STDOUT = CHR 0x00"
definition TAG_STDERR :: char where "TAG_STDERR = CHR 0x01"
definition TAG_EXITED :: char where "TAG_EXITED = CHR 0x02"
definition TAG_TIMED_OUT :: char where "TAG_TIMED_OUT = CHR 0x03"
definition TAG_OUTPUT_LIMIT_EXCEEDED :: char where "TAG_OUTPUT_LIMIT_EXCEEDED = CHR 0x04"
definition TAG_CANCELLED :: char where "TAG_CANCELLED = CHR 0x05"
definition TAG_LAUNCH_FAILED :: char where "TAG_LAUNCH_FAILED = CHR 0x06"
definition TAG_NOT_ALLOWED :: char where "TAG_NOT_ALLOWED = CHR 0x07"

datatype run_frame = Stdout bytes | Stderr bytes | Terminal run_outcome

definition is_terminal :: "run_frame \<Rightarrow> bool" where
  "is_terminal f = (case f of Terminal _ \<Rightarrow> True | _ \<Rightarrow> False)"

section \<open>Big-endian integers\<close>

text \<open>\<^verbatim>\<open>to_be_bytes\<close> and \<^verbatim>\<open>from_be_bytes\<close> of a 32-bit integer.\<close>

definition be_bytes :: "32 word \<Rightarrow> bytes" where
  "be_bytes w = map (\<lambda>k. char_of (unat (drop_bit k w))) [24, 16, 8, 0]"

definition from_be_bytes :: "bytes \<Rightarrow> 32 word" where
  "from_be_bytes bs = foldl (\<lambda>w b. push_bit 8 w + of_nat (byte_val b)) 0 bs"

section \<open>Encoding\<close>

text \<open>\<^verbatim>\<open>u32::try_from(n).unwrap_or(MAX_FRAME_PAYLOAD_BYTES)\<close>.\<close>

definition len_u32 :: "nat \<Rightarrow> 32 word" where
  "len_u32 n = (if n < 2 ^ 32 then of_nat n else of_nat MAX_FRAME_PAYLOAD_BYTES)"

definition encode_chunk :: "char \<Rightarrow> bytes \<Rightarrow> bytes" where
  "encode_chunk tag payload =
     (let payload = (if length payload > MAX_FRAME_PAYLOAD_BYTES then take MAX_FRAME_PAYLOAD_BYTES payload else payload)
      in tag # be_bytes (len_u32 (length payload)) @ payload)"

fun terminal_parts :: "run_outcome \<Rightarrow> char \<times> bytes" where
  "terminal_parts (Exited code) = (TAG_EXITED, be_bytes code)"
| "terminal_parts TimedOut = (TAG_TIMED_OUT, [])"
| "terminal_parts OutputLimitExceeded = (TAG_OUTPUT_LIMIT_EXCEEDED, [])"
| "terminal_parts Cancelled = (TAG_CANCELLED, [])"
| "terminal_parts (LaunchFailed message) = (TAG_LAUNCH_FAILED, message)"
| "terminal_parts (NotAllowed command) = (TAG_NOT_ALLOWED, command)"

definition encode_terminal :: "run_outcome \<Rightarrow> bytes" where
  "encode_terminal outcome =
     (case terminal_parts outcome of (tag, payload) \<Rightarrow> tag # be_bytes (len_u32 (length payload)) @ payload)"

section \<open>Decoding\<close>

record frame_decoder =
  buffer :: bytes
  terminated :: bool

definition new_decoder :: frame_decoder where
  "new_decoder = \<lparr>buffer = [], terminated = False\<rparr>"

definition push_bytes :: "bytes \<Rightarrow> frame_decoder \<Rightarrow> frame_decoder" where
  "push_bytes bs dec = dec\<lparr>buffer := buffer dec @ bs\<rparr>"

definition decode_i32 :: "bytes \<Rightarrow> (memory_error, 32 word) result" where
  "decode_i32 payload =
     (if length payload = 4 then Inr (from_be_bytes payload)
      else Inl (MalformedResponse [Txt ''run stream exit frame carried '', Txt (show_nat (length payload)),
             Txt '' bytes, expected 4'']))"

text \<open>The \<^verbatim>\<open>Display\<close> text of \<^verbatim>\<open>FromUtf8Error\<close> is left to the library (\<open>Ext\<close>).\<close>

definition decode_utf8 :: "bytes \<Rightarrow> (memory_error, string) result" where
  "decode_utf8 payload =
     (case from_utf8 payload of
        Some s \<Rightarrow> Inr s
      | None \<Rightarrow> Inl (MalformedResponse [Txt ''run stream frame carried invalid UTF-8: '', Ext payload]))"

text \<open>The \<^verbatim>\<open>match tag\<close> on a complete frame.\<close>

definition decode_frame :: "char \<Rightarrow> bytes \<Rightarrow> (memory_error, run_frame) result" where
  "decode_frame tag payload =
     (if tag = TAG_STDOUT then Inr (Stdout payload)
      else if tag = TAG_STDERR then Inr (Stderr payload)
      else if tag = TAG_EXITED then try_res (decode_i32 payload) (\<lambda>code. Inr (Terminal (Exited code)))
      else if tag = TAG_TIMED_OUT then Inr (Terminal TimedOut)
      else if tag = TAG_OUTPUT_LIMIT_EXCEEDED then Inr (Terminal OutputLimitExceeded)
      else if tag = TAG_CANCELLED then Inr (Terminal Cancelled)
      else if tag = TAG_LAUNCH_FAILED then try_res (decode_utf8 payload) (\<lambda>m. Inr (Terminal (LaunchFailed m)))
      else if tag = TAG_NOT_ALLOWED then try_res (decode_utf8 payload) (\<lambda>c. Inr (Terminal (NotAllowed c)))
      else Inl (MalformedResponse [Txt ''run stream frame used unrecognized tag '', Ext [tag]]))"

definition next_frame :: "frame_decoder \<Rightarrow> (memory_error, run_frame option, frame_decoder) outcome" where
  "next_frame dec =
     (if terminated dec \<or> length (buffer dec) < FRAME_HEADER_LEN then (Inr None, dec)
      else
        (let tag = hd (buffer dec);
             len = unat (from_be_bytes (take 4 (drop 1 (buffer dec))))
         in if len > MAX_FRAME_PAYLOAD_BYTES then
              (Inl (MalformedResponse [Txt ''run stream frame declared a '', Txt (show_nat len),
                 Txt ''-byte payload, exceeding the '', Txt (show_nat MAX_FRAME_PAYLOAD_BYTES), Txt ''-byte limit'']), dec)
            else
              (let total = FRAME_HEADER_LEN + len in
               if length (buffer dec) < total then (Inr None, dec)
               else
                 (let payload = take len (drop FRAME_HEADER_LEN (buffer dec));
                      dec = dec\<lparr>buffer := drop total (buffer dec)\<rparr>
                  in try_io (decode_frame tag payload, dec) (\<lambda>frame dec.
                       (Inr (Some frame), if is_terminal frame then dec\<lparr>terminated := True\<rparr> else dec))))))"

section \<open>The receiving loop\<close>

text \<open>The two output sinks, with a schedule of write faults: the error and how many bytes were written
  before it.\<close>

record sinks =
  out_bytes :: bytes
  err_bytes :: bytes
  write_count :: nat
  write_faults :: "nat \<Rightarrow> (io_error \<times> nat) option"

definition write_sink :: "bool \<Rightarrow> bytes \<Rightarrow> sinks \<Rightarrow> (memory_error, unit, sinks) outcome" where
  "write_sink to_stdout data k =
     (let r = write_faults k (write_count k);
          done = (case r of None \<Rightarrow> data | Some (_, n) \<Rightarrow> take n data);
          k = k\<lparr>write_count := Suc (write_count k)\<rparr>;
          k = (if to_stdout then k\<lparr>out_bytes := out_bytes k @ done\<rparr> else k\<lparr>err_bytes := err_bytes k @ done\<rparr>)
      in (case r of None \<Rightarrow> Inr () | Some (e, _) \<Rightarrow> Inl (Io e), k))"

lemma next_frame_shrinks:
  assumes "next_frame dec = (Inr (Some f), dec')"
  shows "length (buffer dec') < length (buffer dec)"
  using assms
  by (auto simp: next_frame_def Let_def try_io_Inr_iff FRAME_HEADER_LEN_def split: if_splits)

text \<open>\<^verbatim>\<open>while let Some(frame) = decoder.next_frame()?\<close>: \<open>Inr None\<close> when the buffer holds no further
  complete frame, \<open>Inr (Some outcome)\<close> when the terminal frame ends the call.\<close>

function frames_loop :: "frame_decoder \<Rightarrow> sinks \<Rightarrow> (memory_error, run_outcome option) result \<times> frame_decoder \<times> sinks" where
  "frames_loop dec k =
     (case next_frame dec of
        (Inl e, dec') \<Rightarrow> (Inl e, dec', k)
      | (Inr None, dec') \<Rightarrow> (Inr None, dec', k)
      | (Inr (Some (Terminal outcome)), dec') \<Rightarrow> (Inr (Some outcome), dec', k)
      | (Inr (Some (Stdout data)), dec') \<Rightarrow>
          (case write_sink True data k of (Inl e, k') \<Rightarrow> (Inl e, dec', k') | (Inr _, k') \<Rightarrow> frames_loop dec' k')
      | (Inr (Some (Stderr data)), dec') \<Rightarrow>
          (case write_sink False data k of (Inl e, k') \<Rightarrow> (Inl e, dec', k') | (Inr _, k') \<Rightarrow> frames_loop dec' k'))"
  by pat_completeness auto
termination
  by (relation "measure (\<lambda>(dec, _). length (buffer dec))") (auto dest: next_frame_shrinks [OF sym])

declare frames_loop.simps [simp del]

text \<open>What the body stream and the cancellation future deliver, in the order in which the biased
  \<^verbatim>\<open>select!\<close> takes them; the end of the list is the end of the body.\<close>

datatype stream_event = CancelRequested | Chunk bytes | TransportFailed memory_error

fun receive_loop :: "stream_event list \<Rightarrow> frame_decoder \<Rightarrow> sinks \<Rightarrow> (memory_error, run_outcome, sinks) outcome" where
  "receive_loop [] dec k =
     (Inl (MalformedResponse (lit ''run stream ended before a terminal frame was received'')), k)"
| "receive_loop (CancelRequested # evs) dec k = (Inr Cancelled, k)"
| "receive_loop (TransportFailed e # evs) dec k = (Inl e, k)"
| "receive_loop (Chunk bs # evs) dec k =
     (case frames_loop (push_bytes bs dec) k of
        (Inl e, _, k') \<Rightarrow> (Inl e, k')
      | (Inr (Some outcome), _, k') \<Rightarrow> (Inr outcome, k')
      | (Inr None, dec', k') \<Rightarrow> receive_loop evs dec' k')"

section \<open>Frames round trip\<close>

lemma length_be_bytes [simp]: "length (be_bytes w) = 4"
  by (simp add: be_bytes_def)

lemma byte_val_char_of: "byte_val (char_of n) = n mod 256"
  by (simp add: byte_val_def)

lemma four_digits: "n < 2 ^ 32 \<Longrightarrow>
  ((n div 2 ^ 24 mod 256 * 256 + n div 2 ^ 16 mod 256) * 256 + n div 2 ^ 8 mod 256) * 256 + n mod 256 = (n :: nat)"
proof -
  assume n: "n < 2 ^ 32"
  define a b c where "a = n div 256" and "b = a div 256" and "c = b div 256"
  have d: "n div 2 ^ 8 = a" "n div 2 ^ 16 = b" "n div 2 ^ 24 = c"
    by (simp_all add: a_def b_def c_def flip: div_mult2_eq)
  have "c < 256" using n by (simp add: c_def b_def a_def flip: div_mult2_eq)
  then show ?thesis
    unfolding d using div_mult_mod_eq [of n 256] div_mult_mod_eq [of a 256] div_mult_mod_eq [of b 256]
    by (simp add: a_def [symmetric] b_def [symmetric] c_def [symmetric] add.commute mult.commute)
qed

lemma from_be_bytes_be [simp]: "from_be_bytes (be_bytes w) = w"
proof -
  have d: "unat (drop_bit k w) = unat w div 2 ^ k" for k 
    unfolding unat_drop_bit_eq by (simp add: drop_bit_eq_div)
  have "from_be_bytes (be_bytes w) = of_nat
    (((unat w div 2 ^ 24 mod 256 * 256 + unat w div 2 ^ 16 mod 256) * 256 + unat w div 2 ^ 8 mod 256) * 256 + unat w mod 256)"
    unfolding from_be_bytes_def be_bytes_def by (simp add: byte_val_char_of d push_bit_eq_mult algebra_simps)
  also have "\<dots> = of_nat (unat w)" by (subst four_digits) (use unsigned_less [of w] in simp_all)
  finally show ?thesis by simp
qed

fun encode_frame :: "run_frame \<Rightarrow> bytes" where
  "encode_frame (Stdout b) = encode_chunk TAG_STDOUT b"
| "encode_frame (Stderr b) = encode_chunk TAG_STDERR b"
| "encode_frame (Terminal outcome) = encode_terminal outcome"

text \<open>Frames whose payload fits the limit every reader enforces and whose texts are UTF-8.\<close>

fun frame_ok :: "run_frame \<Rightarrow> bool" where
  "frame_ok (Stdout b) = (length b \<le> MAX_FRAME_PAYLOAD_BYTES)"
| "frame_ok (Stderr b) = (length b \<le> MAX_FRAME_PAYLOAD_BYTES)"
| "frame_ok (Terminal (LaunchFailed m)) = (length m \<le> MAX_FRAME_PAYLOAD_BYTES \<and> is_utf8 m)"
| "frame_ok (Terminal (NotAllowed c)) = (length c \<le> MAX_FRAME_PAYLOAD_BYTES \<and> is_utf8 c)"
| "frame_ok (Terminal _) = True"

lemma unat_len_u32: "n \<le> MAX_FRAME_PAYLOAD_BYTES \<Longrightarrow> unat (len_u32 n) = n"
  by (simp add: len_u32_def MAX_FRAME_PAYLOAD_BYTES_def unsigned_of_nat take_bit_nat_eq_self)

lemmas tag_defs = TAG_STDOUT_def TAG_STDERR_def TAG_EXITED_def TAG_TIMED_OUT_def TAG_OUTPUT_LIMIT_EXCEEDED_def
  TAG_CANCELLED_def TAG_LAUNCH_FAILED_def TAG_NOT_ALLOWED_def

lemma encode_frame_parts:
  assumes "frame_ok f"
  obtains tag payload where "encode_frame f = tag # be_bytes (len_u32 (length payload)) @ payload"
    "length payload \<le> MAX_FRAME_PAYLOAD_BYTES" "decode_frame tag payload = Inr f"
proof -
  have "\<exists>tag payload. encode_frame f = tag # be_bytes (len_u32 (length payload)) @ payload \<and>
    length payload \<le> MAX_FRAME_PAYLOAD_BYTES \<and> decode_frame tag payload = Inr f"
  proof (cases f)
    case (Stdout b)
    then show ?thesis using assms by (intro exI [of _ TAG_STDOUT] exI [of _ b]) (simp add: encode_chunk_def decode_frame_def)
  next
    case (Stderr b)
    then show ?thesis using assms by (intro exI [of _ TAG_STDERR] exI [of _ b]) (simp add: encode_chunk_def decode_frame_def tag_defs)
  next
    case (Terminal oc)
    have "length (snd (terminal_parts oc)) \<le> MAX_FRAME_PAYLOAD_BYTES" "decode_frame (fst (terminal_parts oc)) (snd (terminal_parts oc)) = Inr f"
      using assms by (cases oc; simp add: Terminal decode_frame_def decode_i32_def decode_utf8_def from_utf8_def tag_defs
          MAX_FRAME_PAYLOAD_BYTES_def)+
    then show ?thesis
      by (intro exI [of _ "fst (terminal_parts oc)"] exI [of _ "snd (terminal_parts oc)"])
         (simp add: Terminal encode_terminal_def split: prod.splits)
  qed
  then show ?thesis using that by blast
qed

lemma next_frame_complete:
  assumes "frame_ok f" "\<not> terminated dec" "buffer dec = encode_frame f @ rest"
  shows "next_frame dec = (Inr (Some f), dec\<lparr>buffer := rest, terminated := is_terminal f\<rparr>)"
proof -
  obtain tag payload where p: "encode_frame f = tag # be_bytes (len_u32 (length payload)) @ payload"
    "length payload \<le> MAX_FRAME_PAYLOAD_BYTES" "decode_frame tag payload = Inr f"
    using encode_frame_parts [OF assms(1)] by metis
  have "unat (from_be_bytes (take 4 (drop 1 (buffer dec)))) = length payload"
    by (simp add: assms(3) p(1) unat_len_u32 [OF p(2)])
  moreover have "drop (FRAME_HEADER_LEN + length payload) (buffer dec) = rest" "hd (buffer dec) = tag"
    "take (length payload) (drop FRAME_HEADER_LEN (buffer dec)) = payload"
    "FRAME_HEADER_LEN + length payload \<le> length (buffer dec)"
    by (simp_all add: assms(3) p(1) FRAME_HEADER_LEN_def numeral_eq_Suc)
  ultimately show ?thesis
    using assms(2) p(2,3) by (simp add: next_frame_def Let_def)
qed

lemma next_frame_incomplete:
  assumes "frame_ok f" "strict_prefix (buffer dec) (encode_frame f)"
  shows "next_frame dec = (Inr None, dec)"
proof -
  obtain tag payload where p: "encode_frame f = tag # be_bytes (len_u32 (length payload)) @ payload"
    "length payload \<le> MAX_FRAME_PAYLOAD_BYTES" using encode_frame_parts [OF assms(1)] by metis
  obtain z where z: "buffer dec @ z = encode_frame f" "z \<noteq> []" using assms(2) by (auto simp: strict_prefix_def prefix_def)
  have "length (buffer dec) + length z = 5 + length payload" using arg_cong [OF z(1), of length] by (simp add: p(1))
  with z(2) have len: "length (buffer dec) < 5 + length payload" by (cases z) auto
  show ?thesis
  proof (cases "length (buffer dec) < 5")
    case True
    then show ?thesis by (simp add: next_frame_def FRAME_HEADER_LEN_def)
  next
    case False
    have "take 5 (buffer dec) = take 5 (encode_frame f)" using False by (simp flip: z(1))
    then have "take 4 (drop 1 (buffer dec)) = be_bytes (len_u32 (length payload))"
      by (simp add: p(1) take_drop) 
    then show ?thesis using len p(2)
      by (simp add: next_frame_def FRAME_HEADER_LEN_def Let_def unat_len_u32)
  qed
qed

section \<open>The receiving loop is independent of the chunking\<close>

definition stream_of :: "run_frame list \<Rightarrow> run_outcome \<Rightarrow> bytes" where
  "stream_of fs oc = concat (map encode_frame fs) @ encode_frame (Terminal oc)"

definition outs :: "run_frame list \<Rightarrow> bytes" where
  "outs fs = concat (map (\<lambda>f. case f of Stdout b \<Rightarrow> b | _ \<Rightarrow> []) fs)"

definition errs :: "run_frame list \<Rightarrow> bytes" where
  "errs fs = concat (map (\<lambda>f. case f of Stderr b \<Rightarrow> b | _ \<Rightarrow> []) fs)"

lemma outs_errs_simps [simp]:
  "outs [] = []" "errs [] = []" "outs (Stdout b # fs) = b @ outs fs" "outs (Stderr b # fs) = outs fs"
  "errs (Stdout b # fs) = errs fs" "errs (Stderr b # fs) = b @ errs fs" "outs (fs @ gs) = outs fs @ outs gs"
  "errs (fs @ gs) = errs fs @ errs gs"
  by (simp_all add: outs_def errs_def)

definition no_write_faults :: "sinks \<Rightarrow> bool" where
  "no_write_faults k \<longleftrightarrow> write_faults k = (\<lambda>_. None)"

text \<open>\<open>k'\<close> is \<open>k\<close> after the chunks of \<open>fs\<close> have been written.\<close>

definition wrote :: "run_frame list \<Rightarrow> sinks \<Rightarrow> sinks \<Rightarrow> bool" where
  "wrote fs k k' \<longleftrightarrow> no_write_faults k' \<and> out_bytes k' = out_bytes k @ outs fs \<and> err_bytes k' = err_bytes k @ errs fs"

lemma write_sink_ok:
  assumes "no_write_faults k"
  shows "\<exists>k'. write_sink b data k = (Inr (), k') \<and> wrote [if b then Stdout data else Stderr data] k k'"
  using assms by (auto simp: write_sink_def Let_def no_write_faults_def wrote_def)

lemma wrote_trans: "wrote fs k k' \<Longrightarrow> wrote gs k' k'' \<Longrightarrow> wrote (fs @ gs) k k''"
  by (auto simp: wrote_def)

lemma wrote_Nil: "no_write_faults k \<Longrightarrow> wrote [] k k"
  by (simp add: wrote_def)

lemma wrote_faults: "wrote fs k k' \<Longrightarrow> no_write_faults k'"
  by (simp add: wrote_def)

text \<open>One pass of the inner loop on a buffer that is a part of the stream still to come: either the
  whole rest of the stream is there and the outcome is returned, or the complete frames are consumed
  and less than one frame stays in the buffer.\<close>

lemma frames_loop_stream:
  assumes "\<forall>f \<in> set fs. frame_ok f \<and> \<not> is_terminal f" "frame_ok (Terminal oc)"
    and "\<not> terminated dec" "no_write_faults k" "buffer dec @ rest = stream_of fs oc @ junk"
  shows "(\<exists>dec' k'. frames_loop dec k = (Inr (Some oc), dec', k') \<and> wrote fs k k' \<and>
            length (stream_of fs oc) \<le> length (buffer dec)) \<or>
         (\<exists>fs1 fs2 dec' k'. fs = fs1 @ fs2 \<and> frames_loop dec k = (Inr None, dec', k') \<and> wrote fs1 k k' \<and>
            \<not> terminated dec' \<and> buffer dec' @ rest = stream_of fs2 oc @ junk \<and>
            length (buffer dec') < length (stream_of fs2 oc))"
  using assms
proof (induction fs arbitrary: dec k)
  case Nil
  have eq: "buffer dec @ rest = encode_frame (Terminal oc) @ junk" using Nil.prems(5) by (simp add: stream_of_def)
  show ?case
  proof (cases "prefix (encode_frame (Terminal oc)) (buffer dec)")
    case True
    then obtain z where z: "buffer dec = encode_frame (Terminal oc) @ z" by (auto simp: prefix_def)
    from next_frame_complete [OF Nil.prems(2,3) z]
    show ?thesis using Nil.prems(4) z
      by (intro disjI1) (subst frames_loop.simps, simp add: is_terminal_def wrote_Nil stream_of_def)
  next
    case False
    then have sp: "strict_prefix (buffer dec) (encode_frame (Terminal oc))"
      using eq by (metis prefix_def prefix_same_cases strict_prefixI)
    have "frames_loop dec k = (Inr None, dec, k)"
      using next_frame_incomplete [OF Nil.prems(2) sp] by (subst frames_loop.simps) simp
    moreover have "length (buffer dec) < length (stream_of [] oc)"
      using prefix_length_less [OF sp] by (simp add: stream_of_def)
    ultimately
    show ?thesis using Nil.prems by (intro disjI2) (auto intro: wrote_Nil)
  qed
next
  case (Cons f fs)
  have fo: "frame_ok f" "\<not> is_terminal f" using Cons.prems(1) by auto
  have eq: "buffer dec @ rest = encode_frame f @ (stream_of fs oc @ junk)" using Cons.prems(5) by (simp add: stream_of_def)
  show ?case
  proof (cases "prefix (encode_frame f) (buffer dec)")
    case True
    then obtain z where z: "buffer dec = encode_frame f @ z" by (auto simp: prefix_def)
    let ?dec = "dec\<lparr>buffer := z, terminated := False\<rparr>"
    have nf: "next_frame dec = (Inr (Some f), ?dec)" using next_frame_complete [OF fo(1) Cons.prems(3) z] fo(2) by simp
    obtain k1 where k1: "frames_loop dec k = frames_loop ?dec k1" "wrote [f] k k1"
    proof (cases f)
      case (Stdout b)
      from write_sink_ok [OF Cons.prems(4), of True b] obtain k1 where "write_sink True b k = (Inr (), k1)" "wrote [f] k k1"
        by (auto simp: Stdout)
      then show ?thesis using that [of k1] nf by (simp add: frames_loop.simps [of dec] Stdout)
    next
      case (Stderr b)
      from write_sink_ok [OF Cons.prems(4), of False b] obtain k1 where "write_sink False b k = (Inr (), k1)" "wrote [f] k k1"
        by (auto simp: Stderr)
      then show ?thesis using that [of k1] nf by (simp add: frames_loop.simps [of dec] Stderr)
    qed (use fo in \<open>simp add: is_terminal_def\<close>)
    have "buffer ?dec @ rest = stream_of fs oc @ junk" using eq z by simp
    note IH = Cons.IH [OF _ Cons.prems(2) _ wrote_faults [OF k1(2)] this]
    have len: "length (stream_of (f # fs) oc) \<le> length (buffer dec) \<longleftrightarrow> length (stream_of fs oc) \<le> length z"
      by (simp add: stream_of_def z)
    from IH Cons.prems(1) consider
        (all) dec' k' where "frames_loop ?dec k1 = (Inr (Some oc), dec', k')" "wrote fs k1 k'"
          "length (stream_of fs oc) \<le> length z"
      | (part) fs1 fs2 dec' k' where "fs = fs1 @ fs2" "frames_loop ?dec k1 = (Inr None, dec', k')" "wrote fs1 k1 k'"
          "\<not> terminated dec'" "buffer dec' @ rest = stream_of fs2 oc @ junk" "length (buffer dec') < length (stream_of fs2 oc)"
      by fastforce
    then show ?thesis
    proof cases
      case all
      then show ?thesis using wrote_trans [OF k1(2) all(2)] len by (intro disjI1 exI [of _ dec'] exI [of _ k']) (simp add: k1(1))
    next
      case part
      then show ?thesis using wrote_trans [OF k1(2) part(3)]
        by (intro disjI2 exI [of _ "f # fs1"] exI [of _ fs2] exI [of _ dec'] exI [of _ k']) (simp add: k1(1))
    qed
  next
    case False
    then have sp: "strict_prefix (buffer dec) (encode_frame f)"
      using eq by (metis prefix_def prefix_same_cases strict_prefixI)
    then have "length (buffer dec) < length (stream_of (f # fs) oc)"
      by (auto simp: stream_of_def dest!: prefix_length_less)
    moreover have "frames_loop dec k = (Inr None, dec, k)"
      using next_frame_incomplete [OF fo(1) sp] by (subst frames_loop.simps) simp
    ultimately show ?thesis using Cons.prems
      by (intro disjI2 exI [of _ "[]"] exI [of _ "f # fs"] exI [of _ dec] exI [of _ k]) (auto intro: wrote_Nil)
  qed
qed

lemma receive_loop_stream:
  assumes "\<forall>f \<in> set fs. frame_ok f \<and> \<not> is_terminal f" "frame_ok (Terminal oc)"
    and "\<not> terminated dec" "no_write_faults k" "buffer dec @ concat cs @ missing = stream_of fs oc @ junk"
    and "length (buffer dec) < length (stream_of fs oc)"
  shows "if length (stream_of fs oc) \<le> length (buffer dec @ concat cs)
     then \<exists>k'. receive_loop (map Chunk cs @ evs) dec k = (Inr oc, k') \<and> wrote fs k k'
     else evs = [] \<longrightarrow> (\<exists>k' m. receive_loop (map Chunk cs) dec k = (Inl (MalformedResponse m), k'))"
  using assms
proof (induction cs arbitrary: fs dec k)
  case (Cons c cs)
  let ?dec = "push_bytes c dec"
  have b: "buffer ?dec = buffer dec @ c" "\<not> terminated ?dec" using Cons.prems(3) by (simp_all add: push_bytes_def)
  then have eq: "buffer ?dec @ (concat cs @ missing) = stream_of fs oc @ junk" using Cons.prems(5) by simp
  from frames_loop_stream [OF Cons.prems(1,2) b(2) Cons.prems(4) eq] consider
      (all) dec' k' where "frames_loop ?dec k = (Inr (Some oc), dec', k')" "wrote fs k k'"
        "length (stream_of fs oc) \<le> length (buffer ?dec)"
    | (part) fs1 fs2 dec' k' where "fs = fs1 @ fs2" "frames_loop ?dec k = (Inr None, dec', k')" "wrote fs1 k k'"
        "\<not> terminated dec'" "buffer dec' @ (concat cs @ missing) = stream_of fs2 oc @ junk"
        "length (buffer dec') < length (stream_of fs2 oc)" by blast
  then show ?case
  proof cases
    case all
    then show ?thesis by (simp add: b(1))
  next
    case part
    have "length (stream_of fs oc @ junk) = length (buffer dec @ c) + length (concat cs @ missing)"
      using arg_cong [OF eq, of length] by (simp add: b(1))
    moreover have "length (stream_of fs2 oc @ junk) = length (buffer dec') + length (concat cs @ missing)"
      using arg_cong [OF part(5), of length] by simp
    ultimately have len: "length (stream_of fs oc) \<le> length (buffer dec @ concat (c # cs)) \<longleftrightarrow>
        length (stream_of fs2 oc) \<le> length (buffer dec' @ concat cs)"
      by (simp, arith)
    have "\<forall>f \<in> set fs2. frame_ok f \<and> \<not> is_terminal f" using Cons.prems(1) part(1) by simp
    note IH = Cons.IH [OF this Cons.prems(2) part(4) wrote_faults [OF part(3)] part(5,6)]
    show ?thesis
    proof (cases "length (stream_of fs2 oc) \<le> length (buffer dec' @ concat cs)")
      case True
      with IH obtain k2 where "receive_loop (map Chunk cs @ evs) dec' k' = (Inr oc, k2)" "wrote fs2 k' k2" by auto
      with wrote_trans [OF part(3)] part(1,2) True len show ?thesis by auto
    next
      case False
      with IH part(2) len show ?thesis by auto
    qed
  qed
qed auto

definition sample_sinks :: sinks where
  "sample_sinks = \<lparr>out_bytes = [], err_bytes = [], write_count = 0, write_faults = (\<lambda>_. None)\<rparr>"

lemma sample_sinks_ok: "no_write_faults sample_sinks"
  by (simp add: no_write_faults_def sample_sinks_def)

text \<open>
  (C16) Round trip of the run stream: however the body is cut into chunks, and whatever follows the
  terminal frame, the client writes exactly the concatenated stdout and stderr chunks of the frames to
  its two sinks, in order, and returns exactly the encoded outcome.
\<close>

theorem run_stream_round_trip:
  assumes "\<forall>f \<in> set fs. frame_ok f \<and> \<not> is_terminal f" "frame_ok (Terminal oc)" "no_write_faults k"
    and "concat cs = concat (map encode_frame fs) @ encode_terminal oc @ junk"
  shows "\<exists>k'. receive_loop (map Chunk cs @ evs) new_decoder k = (Inr oc, k') \<and>
    out_bytes k' = out_bytes k @ outs fs \<and> err_bytes k' = err_bytes k @ errs fs"
proof -
  have "stream_of fs oc \<noteq> []"
    using encode_frame_parts [OF assms(2)] by (metis append_is_Nil_conv list.distinct(1) stream_of_def)
  then show ?thesis
    using receive_loop_stream [of fs oc new_decoder k cs "[]" junk evs] assms
    by (auto simp: new_decoder_def stream_of_def wrote_def)
qed

theorem run_stream_round_trip_witness:
  "\<exists>k'. receive_loop [Chunk (take 3 (encode_chunk TAG_STDOUT ''hi'' @ encode_terminal (Exited 1))),
       Chunk (drop 3 (encode_chunk TAG_STDOUT ''hi'' @ encode_terminal (Exited 1)))] new_decoder sample_sinks = (Inr (Exited 1), k') \<and>
     out_bytes k' = ''hi'' \<and> err_bytes k' = []"
proof -
  let ?s = "encode_chunk TAG_STDOUT ''hi'' @ encode_terminal (Exited 1)"
  have "\<forall>f \<in> set [Stdout ''hi'']. frame_ok f \<and> \<not> is_terminal f"
    by (simp add: is_terminal_def MAX_FRAME_PAYLOAD_BYTES_def)
  moreover have "concat [take 3 ?s, drop 3 ?s] = concat (map encode_frame [Stdout ''hi'']) @ encode_terminal (Exited 1) @ []"
    by (simp only: append_take_drop_id concat.simps append_Nil2 list.map encode_frame.simps)
  ultimately show ?thesis
    using run_stream_round_trip [of "[Stdout ''hi'']" "Exited 1" sample_sinks "[take 3 ?s, drop 3 ?s]" "[]" "[]"] sample_sinks_ok
    by (simp add: sample_sinks_def)
qed

text \<open>
  A body that ends before the terminal frame is complete is never taken for a finished command:
  whatever the chunking, every proper prefix of a stream makes the call fail with a malformed-response
  error.
\<close>

theorem run_stream_truncated:
  assumes "\<forall>f \<in> set fs. frame_ok f \<and> \<not> is_terminal f" "frame_ok (Terminal oc)" "no_write_faults k"
    and "strict_prefix (concat cs) (concat (map encode_frame fs) @ encode_terminal oc)"
  shows "\<exists>m k'. receive_loop (map Chunk cs) new_decoder k = (Inl (MalformedResponse m), k')"
proof -
  obtain z where z: "concat cs @ z = stream_of fs oc" "z \<noteq> []"
    using assms(4) by (auto simp: stream_of_def strict_prefix_def prefix_def)
  have "length (concat cs) + length z = length (stream_of fs oc)" using arg_cong [OF z(1), of length] by simp
  with z(2) have "\<not> length (stream_of fs oc) \<le> length (concat cs)" "stream_of fs oc \<noteq> []" by (cases z; auto)+
  then show ?thesis
    using receive_loop_stream [of fs oc new_decoder k cs z "[]" "[]"] assms(1-3) z(1)
    by (auto simp: new_decoder_def)
qed

theorem run_stream_truncated_witness:
  "\<exists>m k'. receive_loop [Chunk (take 4 (encode_terminal TimedOut))] new_decoder sample_sinks = (Inl (MalformedResponse m), k')"
proof -
  have "strict_prefix (concat [take 4 (encode_terminal TimedOut)]) (concat (map encode_frame []) @ encode_terminal TimedOut)"
    by (simp add: encode_terminal_def be_bytes_def strict_prefix_def prefix_def)
  from run_stream_truncated [OF _ _ sample_sinks_ok this] show ?thesis by simp
qed

text \<open>
  The decoder buffers less than one maximal frame: after the inner loop has consumed the complete
  frames of any input, fewer bytes stay than a header and the largest payload.
\<close>

theorem decoder_buffer_bounded:
  assumes "\<not> terminated dec" "frames_loop dec k = (Inr None, dec', k')"
  shows "length (buffer dec') < FRAME_HEADER_LEN + MAX_FRAME_PAYLOAD_BYTES"
  using assms
proof (induction dec k rule: frames_loop.induct)
  case (1 dec k)
  obtain r dec1 where nf: "next_frame dec = (r, dec1)" by force
  show ?case
  proof (cases r)
    case (Inl e)
    then show ?thesis using 1(4) nf by (simp add: frames_loop.simps [of dec])
  next
    case (Inr fo)
    show ?thesis
    proof (cases fo)
      case None
      then have "dec' = dec1" using 1(4) nf Inr by (simp add: frames_loop.simps [of dec])
      then show ?thesis
        using nf 1(3) by (auto simp: Inr None next_frame_def Let_def try_io_def FRAME_HEADER_LEN_def MAX_FRAME_PAYLOAD_BYTES_def
            split: if_splits sum.splits)
    next
      case (Some f)
      then have t: "\<not> is_terminal f \<Longrightarrow> \<not> terminated dec1"
        using nf 1(3) Inr by (auto simp: next_frame_def Let_def try_io_Inr_iff split: if_splits)
      show ?thesis
        using 1 nf Inr Some t
        by (cases f) (auto simp: frames_loop.simps [of dec] is_terminal_def split: prod.splits sum.splits)
    qed
  qed
qed

theorem decoder_buffer_bounded_witness:
  "length (buffer (fst (snd (frames_loop (push_bytes ''abc'' new_decoder) sample_sinks)))) < FRAME_HEADER_LEN + MAX_FRAME_PAYLOAD_BYTES"
proof -
  have "frames_loop (push_bytes ''abc'' new_decoder) sample_sinks = (Inr None, push_bytes ''abc'' new_decoder, sample_sinks)"
    by (simp add: frames_loop.simps next_frame_def push_bytes_def new_decoder_def FRAME_HEADER_LEN_def)
  moreover have "\<not> terminated (push_bytes ''abc'' new_decoder)" by (simp add: push_bytes_def new_decoder_def)
  ultimately show ?thesis using decoder_buffer_bounded by fastforce
qed

end
