(* ===== verification/Command_Runner.thy ===== *)
theory Command_Runner
  imports Run_Stream
begin

text \<open>
  The command runner (\<^verbatim>\<open>services/memory_rs/src/command_runner.rs\<close>): the allowlist, launching, and the
  concurrent run of the two copying tasks of \<^verbatim>\<open>drive\<close> with their shared byte counter and limit flag.
  The run is a step relation in which the two tasks interleave at every access to the shared state and
  the \<^verbatim>\<open>select!\<close> of \<^verbatim>\<open>drive\<close> takes any of its branches that is ready.  The steps of the driver
  (\<open>drive_step\<close>) are kept apart from what the child and the caller may or may not do (\<open>env_step\<close>): a
  read on a pipe that is held open and has no data waits, and the child need never exit.
\<close>

section \<open>Allowlist and launch\<close>

definition ALLOWED_COMMANDS :: "string list" where
  "ALLOWED_COMMANDS = [''rg'', ''ls'', ''cat'', ''head'', ''tail'', ''wc'', ''stat'', ''pwd'']"

definition is_allowed :: "string \<Rightarrow> bool" where
  "is_allowed command = (command \<in> set ALLOWED_COMMANDS)"

text \<open>The timeout in milliseconds.\<close>

record run_limits =
  run_timeout :: nat
  max_output_bytes :: nat

definition default_limits :: run_limits where
  "default_limits = \<lparr>run_timeout = 30 * 1000, max_output_bytes = 10 * 1024 * 1024\<rparr>"

fun display_outcome :: "(32 word \<Rightarrow> string) \<Rightarrow> run_outcome \<Rightarrow> message" where
  "display_outcome show_i32 (Exited code) = [Txt ''exited with code '', Txt (show_i32 code)]"
| "display_outcome show_i32 TimedOut = lit ''timed out''"
| "display_outcome show_i32 OutputLimitExceeded = lit ''output limit exceeded''"
| "display_outcome show_i32 Cancelled = lit ''cancelled''"
| "display_outcome show_i32 (NotAllowed command) = [Txt ''command '', Dbg command, Txt '' is not allowed'']"
| "display_outcome show_i32 (LaunchFailed message) = [Txt ''failed to launch: '', Txt message]"

text \<open>\<open>launch\<close> is the operating system starting the program, with its error text.\<close>

definition spawn :: "(string list \<Rightarrow> (string, 'c) result) \<Rightarrow> string list \<Rightarrow> (run_outcome, 'c) result" where
  "spawn launch argv =
     (case argv of
        [] \<Rightarrow> Inl (NotAllowed MISSING_COMMAND)
      | program # _ \<Rightarrow>
          (if \<not> is_allowed program then Inl (NotAllowed program)
           else case launch argv of Inl e \<Rightarrow> Inl (LaunchFailed e) | Inr child \<Rightarrow> Inr child))"

text \<open>\<^verbatim>\<open>run\<close>, with the driving of a launched child into the sinks as an argument.\<close>

definition run_with ::
  "(string list \<Rightarrow> (string, 'c) result) \<Rightarrow> ('c \<Rightarrow> run_limits \<Rightarrow> 'k \<Rightarrow> run_outcome \<times> 'k) \<Rightarrow> string list \<Rightarrow> run_limits \<Rightarrow> 'k
    \<Rightarrow> run_outcome \<times> 'k" where
  "run_with launch drive_child argv limits k =
     (case spawn launch argv of Inl outcome \<Rightarrow> (outcome, k) | Inr child \<Rightarrow> drive_child child limits k)"

section \<open>The copying tasks\<close>

text \<open>Where a task of \<^verbatim>\<open>copy_capped\<close> is: before the flag test, before the read, after the read, after
  \<^verbatim>\<open>fetch_add\<close> (with the value it returned), after the write, finished.\<close>

datatype copy_pc = AtCheck | AtRead | AtCount bytes | AtWrite bytes nat | AtMark nat nat | AtEnd

text \<open>
  \<open>pending\<close> is what the child still writes to the pipe, cut as the reads will return it, and \<open>held\<close>
  says that the write end of the pipe is open, so that a read without data waits instead of returning
  the end of the stream.
\<close>

record copier =
  held :: bool
  pending :: "bytes list"
  consumed :: "bytes list"
  sunk :: bytes
  at :: copy_pc

record shared =
  total :: nat
  limit_hit :: bool
  notified :: bool

text \<open>How much of a chunk is written: \<^verbatim>\<open>read.min(max_bytes.saturating_sub(previous_total.min(max_bytes)))\<close>.\<close>

definition allowed_bytes :: "nat \<Rightarrow> nat \<Rightarrow> nat \<Rightarrow> nat" where
  "allowed_bytes max_bytes previous_total amount = min amount (max_bytes - min previous_total max_bytes)"

text \<open>One step of a task; \<open>short\<close> is how much a failing writer accepted (its error is ignored).\<close>

definition copy_step :: "nat \<Rightarrow> nat option \<Rightarrow> copier \<Rightarrow> shared \<Rightarrow> copier \<times> shared" where
  "copy_step max_bytes short c sh =
     (case at c of
        AtCheck \<Rightarrow> (c\<lparr>at := if limit_hit sh then AtEnd else AtRead\<rparr>, sh)
      | AtRead \<Rightarrow>
          (case pending c of
             [] \<Rightarrow> (c\<lparr>at := AtEnd\<rparr>, sh)
           | b # bs \<Rightarrow> (c\<lparr>pending := bs, consumed := consumed c @ [b], at := AtCount b\<rparr>, sh))
      | AtCount b \<Rightarrow> (c\<lparr>at := AtWrite b (total sh)\<rparr>, sh\<lparr>total := total sh + length b\<rparr>)
      | AtWrite b prev \<Rightarrow>
          (let data = take (allowed_bytes max_bytes prev (length b)) b;
               data = (case short of None \<Rightarrow> data | Some n \<Rightarrow> take n data)
           in (c\<lparr>sunk := sunk c @ data, at := AtMark prev (length b)\<rparr>, sh))
      | AtMark prev n \<Rightarrow>
          (if prev + n \<ge> max_bytes then (c\<lparr>at := AtEnd\<rparr>, sh\<lparr>limit_hit := True, notified := True\<rparr>)
           else (c\<lparr>at := AtCheck\<rparr>, sh))
      | AtEnd \<Rightarrow> (c, sh))"

section \<open>Driving a child\<close>

text \<open>\<open>exit_status\<close> is None while the child runs; a status without a code counts as -1 (\<^verbatim>\<open>unwrap_or\<close>).\<close>

record run_state =
  out_task :: copier
  err_task :: copier
  shared_of :: shared
  selected :: "run_outcome option"
  exit_status :: "32 word option"

definition new_copier :: "bytes list \<Rightarrow> copier" where
  "new_copier reads = \<lparr>held = True, pending = reads, consumed = [], sunk = [], at = AtCheck\<rparr>"

definition run_start :: "bytes list \<Rightarrow> bytes list \<Rightarrow> run_state" where
  "run_start out_reads err_reads =
     \<lparr>out_task = new_copier out_reads, err_task = new_copier err_reads,
      shared_of = \<lparr>total = 0, limit_hit = False, notified = False\<rparr>, selected = None, exit_status = None\<rparr>"

text \<open>The branches of the \<^verbatim>\<open>select!\<close> that kill the child and wait for it.\<close>

definition killed :: "run_outcome option \<Rightarrow> bool" where
  "killed r \<longleftrightarrow> r \<in> {Some TimedOut, Some Cancelled, Some OutputLimitExceeded}"

text \<open>A task that is not finished and does not wait for data.\<close>

definition can_move :: "copier \<Rightarrow> bool" where
  "can_move c \<longleftrightarrow> at c \<noteq> AtEnd \<and> \<not> (at c = AtRead \<and> pending c = [] \<and> held c)"

text \<open>What the child has not written when it is killed is never written.\<close>

definition cut_at :: "nat \<Rightarrow> copier \<Rightarrow> copier" where
  "cut_at n c = c\<lparr>pending := take n (pending c)\<rparr>"

text \<open>
  The driver: its two tasks move; the wait for a child that is gone returns; the timeout fires; the
  limit notification arrives; a branch that kills the child ends it.  The pipes of a child that is gone
  reach their end.
\<close>

inductive drive_step :: "nat \<Rightarrow> bool \<Rightarrow> run_state \<Rightarrow> run_state \<Rightarrow> bool" for max_bytes faulty where
  out_step: "can_move (out_task s) \<Longrightarrow> faulty \<or> short = None \<Longrightarrow> copy_step max_bytes short (out_task s) (shared_of s) = (c, sh) \<Longrightarrow>
    drive_step max_bytes faulty s (s\<lparr>out_task := c, shared_of := sh\<rparr>)"
| err_step: "can_move (err_task s) \<Longrightarrow> faulty \<or> short = None \<Longrightarrow> copy_step max_bytes short (err_task s) (shared_of s) = (c, sh) \<Longrightarrow>
    drive_step max_bytes faulty s (s\<lparr>err_task := c, shared_of := sh\<rparr>)"
| wait_returns: "selected s = None \<Longrightarrow> exit_status s = Some code \<Longrightarrow>
    drive_step max_bytes faulty s (s\<lparr>selected := Some (Exited code)\<rparr>)"
| timeout: "selected s = None \<Longrightarrow> drive_step max_bytes faulty s (s\<lparr>selected := Some TimedOut\<rparr>)"
| limit: "selected s = None \<Longrightarrow> notified (shared_of s) \<Longrightarrow>
    drive_step max_bytes faulty s (s\<lparr>selected := Some OutputLimitExceeded\<rparr>)"
| kill_child: "killed (selected s) \<Longrightarrow> exit_status s = None \<Longrightarrow>
    drive_step max_bytes faulty s
      (s\<lparr>exit_status := Some code, out_task := cut_at n (out_task s), err_task := cut_at m (err_task s)\<rparr>)"
| eof_out: "exit_status s \<noteq> None \<Longrightarrow> held (out_task s) \<Longrightarrow>
    drive_step max_bytes faulty s (s\<lparr>out_task := (out_task s)\<lparr>held := False\<rparr>\<rparr>)"
| eof_err: "exit_status s \<noteq> None \<Longrightarrow> held (err_task s) \<Longrightarrow>
    drive_step max_bytes faulty s (s\<lparr>err_task := (err_task s)\<lparr>held := False\<rparr>\<rparr>)"

text \<open>What may happen and need not: the child exits or closes a pipe, the wait fails, the caller cancels.\<close>

inductive env_step :: "run_state \<Rightarrow> run_state \<Rightarrow> bool" where
  child_exits: "exit_status s = None \<Longrightarrow> env_step s (s\<lparr>exit_status := Some code\<rparr>)"
| child_closes_out: "held (out_task s) \<Longrightarrow> env_step s (s\<lparr>out_task := (out_task s)\<lparr>held := False\<rparr>\<rparr>)"
| child_closes_err: "held (err_task s) \<Longrightarrow> env_step s (s\<lparr>err_task := (err_task s)\<lparr>held := False\<rparr>\<rparr>)"
| wait_fails: "selected s = None \<Longrightarrow> env_step s (s\<lparr>selected := Some (LaunchFailed m)\<rparr>)"
| cancel: "selected s = None \<Longrightarrow> env_step s (s\<lparr>selected := Some Cancelled\<rparr>)"

definition run_step :: "nat \<Rightarrow> bool \<Rightarrow> run_state \<Rightarrow> run_state \<Rightarrow> bool" where
  "run_step max_bytes faulty s s' \<longleftrightarrow> drive_step max_bytes faulty s s' \<or> env_step s s'"

text \<open>
  The result of \<^verbatim>\<open>drive\<close>, once the child it killed has been waited for and both tasks have been joined.
\<close>

definition drive_result :: "run_state \<Rightarrow> run_outcome option" where
  "drive_result s =
     (if at (out_task s) = AtEnd \<and> at (err_task s) = AtEnd \<and> (killed (selected s) \<longrightarrow> exit_status s \<noteq> None) then
        map_option (\<lambda>oc. if limit_hit (shared_of s) then OutputLimitExceeded else oc) (selected s)
      else None)"

abbreviation run_reaches :: "nat \<Rightarrow> bool \<Rightarrow> run_state \<Rightarrow> run_state \<Rightarrow> bool" where
  "run_reaches max_bytes faulty \<equiv> (run_step max_bytes faulty)\<^sup>*\<^sup>*"

section \<open>The output cap\<close>

definition reserved :: "nat \<Rightarrow> copier \<Rightarrow> nat" where
  "reserved max_bytes c = (case at c of AtWrite b prev \<Rightarrow> allowed_bytes max_bytes prev (length b) | _ \<Rightarrow> 0)"

definition cap_inv :: "nat \<Rightarrow> run_state \<Rightarrow> bool" where
  "cap_inv max_bytes s \<longleftrightarrow>
     length (sunk (out_task s)) + reserved max_bytes (out_task s) + length (sunk (err_task s)) + reserved max_bytes (err_task s)
       \<le> min (total (shared_of s)) max_bytes"

lemma copy_step_cap:
  assumes "copy_step max_bytes short c sh = (c', sh')"
  shows "length (sunk c') + reserved max_bytes c' + min (total sh) max_bytes \<le>
    length (sunk c) + reserved max_bytes c + min (total sh') max_bytes \<and> total sh \<le> total sh'"
  using assms
  by (auto simp: copy_step_def reserved_def allowed_bytes_def min_def Let_def split: copy_pc.splits list.splits if_splits option.splits)

lemma cap_inv_drive: "drive_step max_bytes faulty s s' \<Longrightarrow> cap_inv max_bytes s \<Longrightarrow> cap_inv max_bytes s'"
proof (induction rule: drive_step.induct)
  case (out_step s short c sh)
  then show ?case using copy_step_cap [OF out_step(3)] by (simp add: cap_inv_def del: min.bounded_iff)
next
  case (err_step s short c sh)
  then show ?case using copy_step_cap [OF err_step(3)] by (simp add: cap_inv_def del: min.bounded_iff)
qed (simp_all add: cap_inv_def reserved_def cut_at_def)

lemma cap_inv_env: "env_step s s' \<Longrightarrow> cap_inv max_bytes s \<Longrightarrow> cap_inv max_bytes s'"
  by (induction rule: env_step.induct) (simp_all add: cap_inv_def reserved_def)

lemma cap_inv_step: "run_step max_bytes faulty s s' \<Longrightarrow> cap_inv max_bytes s \<Longrightarrow> cap_inv max_bytes s'"
  by (auto simp: run_step_def intro: cap_inv_drive cap_inv_env)

lemma cap_inv_start: "cap_inv max_bytes (run_start os es)"
  by (simp add: cap_inv_def run_start_def new_copier_def reserved_def)

lemma cap_inv_reaches: "run_reaches max_bytes faulty (run_start os es) s \<Longrightarrow> cap_inv max_bytes s"
  by (induction rule: rtranclp_induct) (auto simp: cap_inv_start intro: cap_inv_step)

section \<open>What the sinks receive\<close>

text \<open>The bytes a task has counted.\<close>

definition counted :: "copier \<Rightarrow> nat" where
  "counted c = length (concat (consumed c)) - (case at c of AtCount b \<Rightarrow> length b | _ \<Rightarrow> 0)"

text \<open>A task that has counted bytes beyond the limit and has not yet set the flag.\<close>

definition over_limit :: "nat \<Rightarrow> copier \<Rightarrow> bool" where
  "over_limit max_bytes c \<longleftrightarrow>
     (case at c of AtWrite b prev \<Rightarrow> max_bytes \<le> prev + length b | AtMark prev n \<Rightarrow> max_bytes \<le> prev + n | _ \<Rightarrow> False)"

text \<open>What holds of one task relative to the shared state.\<close>

definition task_inv :: "shared \<Rightarrow> copier \<Rightarrow> bool" where
  "task_inv sh c \<longleftrightarrow>
     (case at c of
        AtCount b \<Rightarrow> (\<exists>bs. consumed c = bs @ [b])
      | AtWrite b prev \<Rightarrow> prev + length b \<le> total sh
      | AtMark prev n \<Rightarrow> prev + n \<le> total sh
      | _ \<Rightarrow> True)"

text \<open>Without write errors: what a task has written so far, relative to what it has read.\<close>

definition copied :: "nat \<Rightarrow> shared \<Rightarrow> copier \<Rightarrow> bool" where
  "copied max_bytes sh c \<longleftrightarrow>
     (case at c of
        AtCheck \<Rightarrow> sunk c = concat (consumed c)
      | AtRead \<Rightarrow> sunk c = concat (consumed c)
      | AtCount b \<Rightarrow> concat (consumed c) = sunk c @ b
      | AtWrite b prev \<Rightarrow> concat (consumed c) = sunk c @ b
      | AtMark prev n \<Rightarrow> prefix (sunk c) (concat (consumed c)) \<and> (sunk c = concat (consumed c) \<or> max_bytes \<le> prev + n)
      | AtEnd \<Rightarrow> prefix (sunk c) (concat (consumed c)) \<and> (limit_hit sh \<or> sunk c = concat (consumed c) \<and> pending c = []))"

definition from_reads :: "bytes list \<Rightarrow> bool \<Rightarrow> copier \<Rightarrow> bool" where
  "from_reads reads k c \<longleftrightarrow> prefix (consumed c @ pending c) reads \<and> (k \<or> consumed c @ pending c = reads)"

definition shared_inv :: "nat \<Rightarrow> shared \<Rightarrow> copier \<Rightarrow> copier \<Rightarrow> bool" where
  "shared_inv max_bytes sh c1 c2 \<longleftrightarrow>
     total sh = counted c1 + counted c2 \<and> (limit_hit sh \<longrightarrow> max_bytes \<le> total sh) \<and> (notified sh \<longrightarrow> limit_hit sh) \<and>
     (0 < total sh \<and> max_bytes \<le> total sh \<longrightarrow> limit_hit sh \<or> over_limit max_bytes c1 \<or> over_limit max_bytes c2)"

lemma copy_step_task:
  assumes "copy_step max_bytes short c sh = (c', sh')" "task_inv sh c"
  shows "task_inv sh' c' \<and> total sh' + counted c = total sh + counted c' \<and> total sh \<le> total sh' \<and>
    (limit_hit sh \<longrightarrow> limit_hit sh') \<and> (limit_hit sh' \<longrightarrow> limit_hit sh \<or> max_bytes \<le> total sh') \<and>
    (notified sh' \<longrightarrow> notified sh \<or> limit_hit sh') \<and>
    (max_bytes \<le> total sh' \<longrightarrow> limit_hit sh' \<or> over_limit max_bytes c' \<or> sh' = sh \<and> \<not> over_limit max_bytes c)"
  using assms
  by (auto simp: copy_step_def task_inv_def counted_def over_limit_def Let_def split: copy_pc.splits list.splits if_splits)

lemma copy_step_copied:
  assumes "copy_step max_bytes None c sh = (c', sh')" "copied max_bytes sh c"
  shows "copied max_bytes sh' c'"
  using assms
  by (auto simp: copy_step_def copied_def Let_def allowed_bytes_def min_def take_is_prefix split: copy_pc.splits list.splits if_splits)

lemma copy_step_reads:
  assumes "copy_step max_bytes short c sh = (c', sh')"
  shows "consumed c' @ pending c' = consumed c @ pending c"
  using assms by (auto simp: copy_step_def Let_def split: copy_pc.splits list.splits if_splits)

text \<open>The invariant of a run on given streams.\<close>

definition run_inv :: "nat \<Rightarrow> bytes list \<Rightarrow> bytes list \<Rightarrow> run_state \<Rightarrow> bool" where
  "run_inv max_bytes os es s \<longleftrightarrow>
     task_inv (shared_of s) (out_task s) \<and> task_inv (shared_of s) (err_task s) \<and>
     shared_inv max_bytes (shared_of s) (out_task s) (err_task s) \<and>
     copied max_bytes (shared_of s) (out_task s) \<and> copied max_bytes (shared_of s) (err_task s) \<and>
     from_reads os (killed (selected s)) (out_task s) \<and> from_reads es (killed (selected s)) (err_task s) \<and>
     (selected s = Some OutputLimitExceeded \<longrightarrow> limit_hit (shared_of s))"

lemma task_inv_mono: "task_inv sh c \<Longrightarrow> total sh \<le> total sh' \<Longrightarrow> task_inv sh' c"
  by (auto simp: task_inv_def split: copy_pc.splits)

lemma copied_mono: "copied max_bytes sh c \<Longrightarrow> (limit_hit sh \<longrightarrow> limit_hit sh') \<Longrightarrow> copied max_bytes sh' c"
  by (auto simp: copied_def split: copy_pc.splits)

lemma shared_inv_sym: "shared_inv max_bytes sh c1 c2 = shared_inv max_bytes sh c2 c1"
  by (auto simp: shared_inv_def)

lemma shared_inv_step:
  assumes "copy_step max_bytes short c sh = (c', sh')" "task_inv sh c" "shared_inv max_bytes sh c other"
  shows "shared_inv max_bytes sh' c' other"
  using copy_step_task [OF assms(1,2)] assms(3) by (auto simp: shared_inv_def)

lemma cut_task:
  "task_inv sh (cut_at n c) = task_inv sh c" "counted (cut_at n c) = counted c" "over_limit m (cut_at n c) = over_limit m c"
  by (simp_all add: task_inv_def counted_def over_limit_def cut_at_def split: copy_pc.split)

lemma close_task:
  "task_inv sh (c\<lparr>held := h\<rparr>) = task_inv sh c" "counted (c\<lparr>held := h\<rparr>) = counted c"
  "over_limit m (c\<lparr>held := h\<rparr>) = over_limit m c" "copied m sh (c\<lparr>held := h\<rparr>) = copied m sh c"
  "from_reads rs k (c\<lparr>held := h\<rparr>) = from_reads rs k c"
  by (simp_all add: task_inv_def counted_def over_limit_def copied_def from_reads_def split: copy_pc.split)

lemma cut_copied: "copied m sh c \<Longrightarrow> copied m sh (cut_at n c)"
  by (auto simp: copied_def cut_at_def split: copy_pc.splits)

lemma cut_reads: "from_reads rs True c \<Longrightarrow> from_reads rs True (cut_at n c)"
  using prefix_order.trans [of "consumed c @ take n (pending c)" "consumed c @ pending c" rs]
  by (simp add: from_reads_def take_is_prefix cut_at_def)

lemma run_inv_drive: "drive_step max_bytes False s s' \<Longrightarrow> run_inv max_bytes os es s \<Longrightarrow> run_inv max_bytes os es s'"
proof (induction rule: drive_step.induct)
  case (out_step s short c sh)
  then have st: "copy_step max_bytes None (out_task s) (shared_of s) = (c, sh)" by simp
  note f = copy_step_task [OF st] copy_step_copied [OF st] copy_step_reads [OF st] shared_inv_step [OF st]
  show ?case
    using out_step.prems f
      task_inv_mono [of "shared_of s" "err_task s" sh] copied_mono [of max_bytes "shared_of s" "err_task s" sh]
    by (simp add: run_inv_def from_reads_def)
next
  case (err_step s short c sh)
  then have st: "copy_step max_bytes None (err_task s) (shared_of s) = (c, sh)" by simp
  note f = copy_step_task [OF st] copy_step_copied [OF st] copy_step_reads [OF st] shared_inv_step [OF st]
  show ?case
    using err_step.prems f shared_inv_sym
      task_inv_mono [of "shared_of s" "out_task s" sh] copied_mono [of max_bytes "shared_of s" "out_task s" sh]
    by (simp add: run_inv_def from_reads_def) blast
next
  case (kill_child s code n m)
  then show ?case using cut_copied cut_reads by (auto simp: run_inv_def cut_task shared_inv_def)
qed (auto simp: run_inv_def from_reads_def killed_def shared_inv_def close_task)

lemma run_inv_env: "env_step s s' \<Longrightarrow> run_inv max_bytes os es s \<Longrightarrow> run_inv max_bytes os es s'"
  by (induction rule: env_step.induct) (auto simp: run_inv_def from_reads_def killed_def shared_inv_def close_task)

lemma run_inv_step: "run_step max_bytes False s s' \<Longrightarrow> run_inv max_bytes os es s \<Longrightarrow> run_inv max_bytes os es s'"
  by (auto simp: run_step_def intro: run_inv_drive run_inv_env)

lemma run_inv_start: "run_inv max_bytes os es (run_start os es)"
  by (simp add: run_inv_def run_start_def new_copier_def task_inv_def shared_inv_def counted_def copied_def from_reads_def)

lemma run_inv_reaches: "run_reaches max_bytes False (run_start os es) s \<Longrightarrow> run_inv max_bytes os es s"
  by (induction rule: rtranclp_induct) (auto simp: run_inv_start intro: run_inv_step)

lemma drive_result_limit:
  assumes "run_inv max_bytes os es s" "drive_result s = Some oc" "0 < max_bytes"
  shows "limit_hit (shared_of s) \<longleftrightarrow> max_bytes \<le> total (shared_of s)"
    "oc = OutputLimitExceeded \<longleftrightarrow> limit_hit (shared_of s)"
proof -
  have e: "at (out_task s) = AtEnd" "at (err_task s) = AtEnd"
    using assms(2) by (auto simp: drive_result_def split: if_splits)
  show "limit_hit (shared_of s) \<longleftrightarrow> max_bytes \<le> total (shared_of s)"
    using assms(1,3) e(1,2) by (auto simp: run_inv_def shared_inv_def over_limit_def)
  show "oc = OutputLimitExceeded \<longleftrightarrow> limit_hit (shared_of s)"
    using assms by (auto simp: run_inv_def drive_result_def split: if_splits)
qed

lemma total_bound: "run_inv max_bytes os es s \<Longrightarrow> total (shared_of s) \<le> length (concat os) + length (concat es)"
proof -
  have "counted c \<le> length (concat rs)" if r: "from_reads rs k c" for rs k c
  proof -
    obtain z where "rs = consumed c @ pending c @ z" using r by (auto simp: from_reads_def prefix_def)
    then have "length (concat (consumed c)) \<le> length (concat rs)" by simp
    then show ?thesis by (simp add: counted_def)
  qed
  then show "run_inv max_bytes os es s \<Longrightarrow> ?thesis" by (fastforce simp: run_inv_def shared_inv_def intro: add_mono)
qed

section \<open>Termination\<close>

text \<open>
  A bound that does not depend on how much the child writes: a task that goes round its loop once has
  counted at least one byte, and a task that finds the limit reached stops.
\<close>

definition phase_rank :: "nat \<Rightarrow> copier \<Rightarrow> nat" where
  "phase_rank max_bytes c =
     (case at c of
        AtCheck \<Rightarrow> 5 | AtRead \<Rightarrow> 4 | AtCount _ \<Rightarrow> 3
      | AtWrite _ _ \<Rightarrow> if over_limit max_bytes c then 2 else 7
      | AtMark _ _ \<Rightarrow> if over_limit max_bytes c then 1 else 6
      | AtEnd \<Rightarrow> 0) + (if held c then 1 else 0)"

definition run_rank :: "nat \<Rightarrow> run_state \<Rightarrow> nat" where
  "run_rank max_bytes s =
     5 * (max_bytes - total (shared_of s)) + phase_rank max_bytes (out_task s) + phase_rank max_bytes (err_task s) +
     (if selected s = None then 1 else 0) + (if exit_status s = None then 1 else 0)"

text \<open>Reads that return data return some (\<^verbatim>\<open>Ok(0)\<close> is the end of the stream).\<close>

definition reads_data :: "copier \<Rightarrow> bool" where
  "reads_data c \<longleftrightarrow> [] \<notin> set (pending c) \<and> at c \<noteq> AtCount []"

lemma copy_step_rank:
  assumes "copy_step m short c sh = (c', sh')" "at c \<noteq> AtEnd" "reads_data c"
  shows "5 * (m - total sh') + phase_rank m c' < 5 * (m - total sh) + phase_rank m c \<and> reads_data c' \<and> total sh \<le> total sh'"
proof (cases "at c")
  case (AtCount b)
  then obtain k where k: "length b = Suc k" using assms(3) by (cases b) (auto simp: reads_data_def)
  with AtCount assms(1,3) show ?thesis by (auto simp: copy_step_def phase_rank_def over_limit_def reads_data_def)
qed (use assms in \<open>auto simp: copy_step_def phase_rank_def over_limit_def reads_data_def Let_def split: list.splits if_splits\<close>)

lemma cut_rank: "phase_rank m (cut_at n c) = phase_rank m c" "reads_data c \<Longrightarrow> reads_data (cut_at n c)"
  by (auto simp: phase_rank_def over_limit_def cut_at_def reads_data_def dest: in_set_takeD split: copy_pc.split)

lemma close_rank: "held c \<Longrightarrow> phase_rank m (c\<lparr>held := False\<rparr>) < phase_rank m c" "reads_data (c\<lparr>held := h\<rparr>) = reads_data c"
  by (auto simp: phase_rank_def over_limit_def reads_data_def split: copy_pc.split)

abbreviation tasks_read_data :: "run_state \<Rightarrow> bool" where
  "tasks_read_data s \<equiv> reads_data (out_task s) \<and> reads_data (err_task s)"

lemma drive_step_rank:
  "drive_step m faulty s s' \<Longrightarrow> tasks_read_data s \<Longrightarrow> run_rank m s' < run_rank m s \<and> tasks_read_data s'"
proof (induction rule: drive_step.induct)
  case (out_step s short c sh)
  then show ?case using copy_step_rank [OF out_step(3)] by (simp add: run_rank_def can_move_def)
next
  case (err_step s short c sh)
  then show ?case using copy_step_rank [OF err_step(3)] by (simp add: run_rank_def can_move_def)
qed (auto simp: run_rank_def cut_rank close_rank)

lemma env_step_rank:
  "env_step s s' \<Longrightarrow> tasks_read_data s \<Longrightarrow> run_rank m s' < run_rank m s \<and> tasks_read_data s'"
  by (induction rule: env_step.induct) (auto simp: run_rank_def close_rank)

lemma run_step_rank:
  "run_step m faulty s s' \<Longrightarrow> tasks_read_data s \<Longrightarrow> run_rank m s' < run_rank m s \<and> tasks_read_data s'"
  using drive_step_rank env_step_rank unfolding run_step_def by blast

lemma run_steps_rank:
  "(run_step m faulty ^^ n) s s' \<Longrightarrow> tasks_read_data s \<Longrightarrow> n + run_rank m s' \<le> run_rank m s \<and> tasks_read_data s'"
proof (induction n arbitrary: s')
  case (Suc n)
  then obtain t where "(run_step m faulty ^^ n) s t" "run_step m faulty t s'" by auto
  with Suc.IH Suc.prems(2) run_step_rank show ?case by fastforce
qed simp

text \<open>
  Progress: a run that has no result and whose wait has not failed always has a step of the driver;
  in particular an idle child that keeps its pipes open is ended by the timeout.
\<close>

definition wait_failed :: "run_state \<Rightarrow> bool" where
  "wait_failed s \<longleftrightarrow> (\<exists>m. selected s = Some (LaunchFailed m))"

text \<open>A wait that has returned an exit code is one for a child that is gone.\<close>

definition wait_inv :: "run_state \<Rightarrow> bool" where
  "wait_inv s \<longleftrightarrow>
     selected s = None \<or> killed (selected s) \<or> wait_failed s \<or> (\<exists>code. selected s = Some (Exited code)) \<and> exit_status s \<noteq> None"

lemma wait_inv_drive: "drive_step m faulty s s' \<Longrightarrow> wait_inv s \<Longrightarrow> wait_inv s'"
  by (induction rule: drive_step.induct) (simp_all add: wait_inv_def killed_def wait_failed_def)

lemma wait_inv_env: "env_step s s' \<Longrightarrow> wait_inv s \<Longrightarrow> wait_inv s'"
  by (induction rule: env_step.induct) (auto simp: wait_inv_def killed_def wait_failed_def)

lemma wait_inv_reaches: "run_reaches m faulty (run_start os es) s \<Longrightarrow> wait_inv s"
proof (induction rule: rtranclp_induct)
  case (step s s')
  then show ?case using wait_inv_drive wait_inv_env unfolding run_step_def by blast
qed (simp add: run_start_def wait_inv_def)

lemma drive_step_moves:
  assumes "can_move (out_task s) \<or> can_move (err_task s)"
  shows "\<exists>s'. drive_step m faulty s s'"
  using assms
proof
  assume c: "can_move (out_task s)"
  show ?thesis by (rule exI, rule drive_step.out_step [OF c, of _ None, OF _ surjective_pairing]) simp
next
  assume c: "can_move (err_task s)"
  show ?thesis by (rule exI, rule drive_step.err_step [OF c, of _ None, OF _ surjective_pairing]) simp
qed

lemma drive_progress:
  assumes "run_reaches m faulty (run_start os es) s" "\<not> wait_failed s" "drive_result s = None"
  shows "\<exists>s'. drive_step m faulty s s'"
proof (cases "selected s = None")
  case True
  then show ?thesis by (blast intro: drive_step.timeout)
next
  case False
  show ?thesis
  proof (cases "exit_status s = None")
    case True
    then show ?thesis using wait_inv_reaches [OF assms(1)] assms(2) False unfolding wait_inv_def by (blast intro: drive_step.kill_child)
  next
    case gone: False
    then have "at (out_task s) \<noteq> AtEnd \<or> at (err_task s) \<noteq> AtEnd"
      using assms(3) False by (auto simp: drive_result_def split: if_splits)
    then have "can_move (out_task s) \<or> can_move (err_task s) \<or> held (out_task s) \<or> held (err_task s)"
      by (auto simp: can_move_def)
    then show ?thesis using gone drive_step_moves by (blast intro: drive_step.eof_out drive_step.eof_err)
  qed
qed

lemma drive_keeps_wait: "drive_step m faulty s s' \<Longrightarrow> wait_failed s' \<Longrightarrow> wait_failed s"
  by (induction rule: drive_step.induct) (auto simp: wait_failed_def)

lemma drive_finishes:
  assumes "run_reaches m faulty (run_start os es) s" "\<not> wait_failed s" "tasks_read_data s"
  shows "\<exists>s'. (drive_step m faulty)\<^sup>*\<^sup>* s s' \<and> drive_result s' \<noteq> None"
  using assms
proof (induction "run_rank m s" arbitrary: s rule: less_induct)
  case less
  show ?case
  proof (cases "drive_result s = None")
    case True
    then obtain t where t: "drive_step m faulty s t" using drive_progress less.prems by blast
    then have "run_reaches m faulty (run_start os es) t" "\<not> wait_failed t"
      using less.prems drive_keeps_wait by (auto simp: run_step_def intro: rtranclp.rtrancl_into_rtrancl)
    then show ?thesis
      using less.hyps [of t] drive_step_rank [OF t less.prems(3)] t by (meson converse_rtranclp_into_rtranclp)
  qed auto
qed

section \<open>Properties\<close>

text \<open>
  (C17) The output cap: in every interleaving of the two copying tasks, and even when writers fail, the
  two sinks together never receive more bytes than the configured maximum.
\<close>

theorem output_cap:
  assumes "run_reaches max_bytes faulty (run_start os es) s"
  shows "length (sunk (out_task s)) + length (sunk (err_task s)) \<le> max_bytes"
  using cap_inv_reaches [OF assms] by (simp add: cap_inv_def)

text \<open>
  Concrete runs: a schedule says which task moves next; the child closes its pipes and exits in between.
\<close>

definition sched_step :: "nat \<Rightarrow> run_state \<Rightarrow> bool \<Rightarrow> run_state" where
  "sched_step max_bytes s b =
     (if b then
        (if \<not> can_move (out_task s) then s
         else case copy_step max_bytes None (out_task s) (shared_of s) of (c, sh) \<Rightarrow> s\<lparr>out_task := c, shared_of := sh\<rparr>)
      else
        (if \<not> can_move (err_task s) then s
         else case copy_step max_bytes None (err_task s) (shared_of s) of (c, sh) \<Rightarrow> s\<lparr>err_task := c, shared_of := sh\<rparr>))"

lemma sched_reaches: "run_reaches max_bytes faulty s (foldl (sched_step max_bytes) s bs)"
proof (induction bs arbitrary: s)
  case (Cons b bs)
  have "run_reaches max_bytes faulty s (sched_step max_bytes s b)"
    by (auto simp: sched_step_def run_step_def split: prod.split intro!: r_into_rtranclp drive_step.out_step drive_step.err_step)
  then show ?case using Cons.IH by (auto intro: rtranclp_trans)
qed simp

text \<open>The child exits with a code, its pipes end and the wait returns.\<close>

definition child_ends :: "32 word \<Rightarrow> run_state \<Rightarrow> run_state" where
  "child_ends code s =
     s\<lparr>exit_status := Some code, out_task := (out_task s)\<lparr>held := False\<rparr>, err_task := (err_task s)\<lparr>held := False\<rparr>,
       selected := Some (Exited code)\<rparr>"

lemma child_ends_reaches:
  assumes "selected s = None" "exit_status s = None" "held (out_task s)" "held (err_task s)"
  shows "run_reaches max_bytes faulty s (child_ends code s)"
proof -
  let ?R = "\<lambda>s s'. run_step max_bytes faulty s s'"
  define a where "a = s\<lparr>exit_status := Some code\<rparr>"
  define b where "b = a\<lparr>out_task := (out_task a)\<lparr>held := False\<rparr>\<rparr>"
  define c where "c = b\<lparr>err_task := (err_task b)\<lparr>held := False\<rparr>\<rparr>"
  have "?R s a" unfolding run_step_def a_def using env_step.child_exits [OF assms(2)] by blast
  moreover have "?R a b" unfolding run_step_def b_def by (rule disjI1, rule drive_step.eof_out) (simp_all add: a_def assms)
  moreover have "?R b c" unfolding run_step_def c_def by (rule disjI1, rule drive_step.eof_err) (simp_all add: a_def b_def assms)
  moreover have "?R c (child_ends code s)"
    using drive_step.wait_returns [of c code max_bytes faulty] by (simp add: run_step_def a_def b_def c_def child_ends_def assms(1))
  ultimately show ?thesis by (meson converse_rtranclp_into_rtranclp r_into_rtranclp)
qed

lemma sched_keeps:
  "selected (foldl (sched_step m) s bs) = selected s" "exit_status (foldl (sched_step m) s bs) = exit_status s"
  "held (out_task (foldl (sched_step m) s bs)) = held (out_task s)" "held (err_task (foldl (sched_step m) s bs)) = held (err_task s)"
proof -
  have h: "copy_step m short c sh = (c', sh') \<Longrightarrow> held c' = held c" for short c sh c' sh'
    by (auto simp: copy_step_def Let_def split: copy_pc.splits list.splits if_splits)
  show "selected (foldl (sched_step m) s bs) = selected s" "exit_status (foldl (sched_step m) s bs) = exit_status s"
    "held (out_task (foldl (sched_step m) s bs)) = held (out_task s)" "held (err_task (foldl (sched_step m) s bs)) = held (err_task s)"
    by (induction bs arbitrary: s) (auto simp: sched_step_def dest: h split: prod.split)
qed

definition sample_run :: "nat \<Rightarrow> run_state" where
  "sample_run max_bytes =
     foldl (sched_step max_bytes)
       (child_ends 0
         (foldl (sched_step max_bytes) (run_start [''ab'', ''cd''] [''e''])
           [True, True, True, True, True, True, True, False, False, False, True, False, False, True]))
       [True, False, False, True, True, True, False]"

lemma sample_run_reaches: "run_reaches max_bytes faulty (run_start [''ab'', ''cd''] [''e'']) (sample_run max_bytes)"
  unfolding sample_run_def
  by (rule rtranclp_trans [OF rtranclp_trans [OF sched_reaches child_ends_reaches] sched_reaches])
    (simp_all add: sched_keeps run_start_def new_copier_def del: foldl.simps)

theorem output_cap_witness:
  "sunk (out_task (sample_run 3)) = ''ab'' \<and> sunk (err_task (sample_run 3)) = ''e'' \<and>
   length (sunk (out_task (sample_run 3))) + length (sunk (err_task (sample_run 3))) \<le> 3"
proof -
  have "sunk (out_task (sample_run 3)) = ''ab''" "sunk (err_task (sample_run 3)) = ''e''" by code_simp+
  with output_cap [OF sample_run_reaches] show ?thesis by blast
qed

text \<open>
  (C18) The outcome of a run, for every interleaving and with working writers: each sink receives a
  prefix of what its stream delivers; the result is output-limit-exceeded exactly when the counted
  bytes reached the limit; an exit code is reported only when the complete output was forwarded and is
  below the limit; and a command whose output is below the limit gets the outcome the select chose.
\<close>

theorem drive_outcome_exact:
  assumes "0 < max_bytes" "run_reaches max_bytes False (run_start os es) s" "drive_result s = Some oc"
  shows "prefix (sunk (out_task s)) (concat os) \<and> prefix (sunk (err_task s)) (concat es) \<and>
    (oc = OutputLimitExceeded \<longleftrightarrow> max_bytes \<le> total (shared_of s)) \<and>
    (\<forall>code. oc = Exited code \<longrightarrow> sunk (out_task s) = concat os \<and> sunk (err_task s) = concat es \<and>
       length (concat os) + length (concat es) < max_bytes) \<and>
    (length (concat os) + length (concat es) < max_bytes \<longrightarrow> selected s = Some oc)"
proof -
  note inv = run_inv_reaches [OF assms(2)]
  note lim = drive_result_limit [OF inv assms(3,1)]
  have e: "at (out_task s) = AtEnd" "at (err_task s) = AtEnd" "\<not> limit_hit (shared_of s) \<longrightarrow> selected s = Some oc"
    using assms(3) by (auto simp: drive_result_def split: if_splits)
  have pre: "prefix (sunk c) (concat rs)" if "copied max_bytes (shared_of s) c" "at c = AtEnd" "from_reads rs k c" for c rs k
  proof -
    have "prefix (concat (consumed c)) (concat rs)" using that(3) by (auto simp: from_reads_def prefix_def)
    then show ?thesis using that(1,2) prefix_order.trans by (auto simp: copied_def)
  qed
  have all: "sunk c = concat rs \<and> counted c = length (concat rs)"
    if "copied max_bytes (shared_of s) c" "at c = AtEnd" "from_reads rs False c" "\<not> limit_hit (shared_of s)" for c rs
    using that by (auto simp: copied_def from_reads_def counted_def)
  have "sunk (out_task s) = concat os \<and> sunk (err_task s) = concat es \<and> length (concat os) + length (concat es) < max_bytes"
    if "oc = Exited code" for code
  proof -
    have nl: "\<not> limit_hit (shared_of s)" using that lim(2) by simp
    then have "\<not> killed (selected s)" using e(3) that by (simp add: killed_def)
    then show ?thesis
      using all [of "out_task s" os] all [of "err_task s" es] inv e(1,2) nl lim(1) by (simp add: run_inv_def shared_inv_def)
  qed
  moreover have "selected s = Some oc" if "length (concat os) + length (concat es) < max_bytes"
    using total_bound [OF inv] that lim(1) e(3) by simp
  ultimately show ?thesis
    using pre [of "out_task s" os] pre [of "err_task s" es] inv e lim by (auto simp: run_inv_def)
qed

theorem drive_outcome_exact_witness:
  "drive_result (sample_run 9) = Some (Exited 0) \<and> sunk (out_task (sample_run 9)) = ''abcd'' \<and> sunk (err_task (sample_run 9)) = ''e''"
proof -
  have r: "drive_result (sample_run 9) = Some (Exited 0)" by code_simp
  have "(0 :: nat) < 9" by simp
  from drive_outcome_exact [OF this sample_run_reaches r] r show ?thesis by simp
qed

text \<open>
  (C19) A run always ends.  Whatever the child writes and however the tasks, the child and the caller
  interleave, a run has at most \<open>5 * max_bytes + 14\<close> steps, a bound that does not depend on how much the
  child would write.  The driver is never stuck without a result: also when the child stays silent, keeps
  its pipes open and never exits, a step of the driver is possible until the result is there, so that the
  driver's steps alone lead from every state of the run to a result.  Assumed: a read that returns data
  returns some of it, a killed child ends and the pipes of a child that is gone reach their end (no other
  process holds them), and the wait for the child has not failed.
\<close>

theorem run_terminates:
  assumes "[] \<notin> set os" "[] \<notin> set es" "(run_step max_bytes faulty ^^ n) (run_start os es) s"
  shows "n \<le> 5 * max_bytes + 14 \<and>
    (\<not> wait_failed s \<longrightarrow>
       (drive_result s = None \<longrightarrow> (\<exists>s'. drive_step max_bytes faulty s s')) \<and>
       (\<exists>s'. (drive_step max_bytes faulty)\<^sup>*\<^sup>* s s' \<and> drive_result s' \<noteq> None))"
proof -
  have "tasks_read_data (run_start os es)" "run_rank max_bytes (run_start os es) = 5 * max_bytes + 14"
    using assms(1,2) by (simp_all add: run_start_def new_copier_def reads_data_def run_rank_def phase_rank_def)
  then have "n \<le> 5 * max_bytes + 14" "tasks_read_data s" using run_steps_rank [OF assms(3)] by simp_all
  moreover have "run_reaches max_bytes faulty (run_start os es) s" using assms(3) by (meson relpowp_imp_rtranclp)
  ultimately show ?thesis using drive_progress drive_finishes by blast
qed

text \<open>A child that writes two bytes and then hangs with its pipes open is ended by the driver.\<close>

theorem run_terminates_witness:
  "\<not> can_move (out_task (foldl (sched_step 9) (run_start [''ab''] []) (replicate 7 True))) \<and>
   exit_status (foldl (sched_step 9) (run_start [''ab''] []) (replicate 7 True)) = None \<and>
   (\<exists>s'. (drive_step 9 False)\<^sup>*\<^sup>* (foldl (sched_step 9) (run_start [''ab''] []) (replicate 7 True)) s' \<and> drive_result s' \<noteq> None)"
proof -
  let ?s = "foldl (sched_step 9) (run_start [''ab''] []) (replicate 7 True)"
  obtain n where n: "(run_step 9 False ^^ n) (run_start [''ab''] []) ?s"
    using sched_reaches by (metis rtranclp_imp_relpowp)
  have "\<not> wait_failed ?s" by (simp add: wait_failed_def sched_keeps run_start_def del: foldl.simps)
  moreover have "\<not> can_move (out_task ?s) \<and> exit_status ?s = None" by code_simp
  ultimately show ?thesis using run_terminates [OF _ _ n] by simp
qed

text \<open>
  Only allowlisted programs are launched: when the first argument is missing or not in the list,
  the run is refused with an outcome that names it, whatever the launcher would have done.
\<close>

theorem spawn_allowlisted:
  "(\<exists>child. spawn launch argv = Inr child) \<longleftrightarrow>
     (\<exists>program args child. argv = program # args \<and> program \<in> set ALLOWED_COMMANDS \<and> launch argv = Inr child)"
  by (auto simp: spawn_def is_allowed_def split: list.splits sum.splits)

end
