(* ===== verification/Memory_Wire.thy ===== *)
theory Memory_Wire
  imports Memory_Service Command_Runner
begin

text \<open>
  The transport-neutral client interface (\<^verbatim>\<open>services/memory_rs/src/client.rs\<close>), its in-process
  implementation (\<^verbatim>\<open>direct_client.rs\<close>), and the data exchanged between the HTTP adapter and the HTTP
  client (\<^verbatim>\<open>wire.rs\<close>).  Texts that \<^verbatim>\<open>Display\<close> produces are kept as messages.
\<close>

section \<open>Wire models\<close>

definition JSON_CONTENT_TYPE :: string where "JSON_CONTENT_TYPE = ''application/json''"

record page_wire =
  pw_path :: string
  pw_schema_version :: nat
  pw_title :: string
  pw_tags :: "string list"
  pw_created_at :: datetime
  pw_updated_at :: datetime
  pw_created_by :: "string option"
  pw_updated_by :: "string option"
  pw_extra :: ymap
  pw_revision :: string
  pw_body :: string
  pw_outgoing_links :: "page_link list"

definition from_page :: "page \<Rightarrow> page_link list \<Rightarrow> page_wire" where
  "from_page pg outgoing = \<lparr>
     pw_path = as_str (page_path_of pg), pw_schema_version = schema_version (metadata pg), pw_title = title (metadata pg),
     pw_tags = tags (metadata pg), pw_created_at = created_at (metadata pg), pw_updated_at = updated_at (metadata pg),
     pw_created_by = created_by (metadata pg), pw_updated_by = updated_by (metadata pg), pw_extra = extra (metadata pg),
     pw_revision = page_revision pg, pw_body = body pg, pw_outgoing_links = outgoing\<rparr>"

definition page_try_from :: "page_wire \<Rightarrow> (memory_error, page) result" where
  "page_try_from wire =
     try_res (page_path_parse (pw_path wire)) (\<lambda>path. Inr \<lparr>
       page_path_of = path,
       metadata = \<lparr>schema_version = pw_schema_version wire, title = pw_title wire, tags = pw_tags wire,
         created_at = pw_created_at wire, updated_at = pw_updated_at wire, created_by = pw_created_by wire,
         updated_by = pw_updated_by wire, extra = pw_extra wire\<rparr>,
       body = pw_body wire, page_revision = pw_revision wire\<rparr>)"

record list_pages_query =
  lq_under :: "string option"
  lq_with_tag :: "string option"
  lq_limit :: "nat option"
  lq_text :: "string option"

definition query_tags :: "list_pages_query \<Rightarrow> string list" where
  "query_tags q =
     (case lq_with_tag q of
        None \<Rightarrow> []
      | Some ts \<Rightarrow> filter (\<lambda>t. t \<noteq> []) (map trim (split_on (CHR '','') ts)))"

record content_query =
  cq_path :: string
  cq_expected_revision :: "string option"

record links_query =
  kq_path :: string
  kq_backlinks :: bool

record write_page_wire =
  ww_title :: "string option"
  ww_tags :: "string list option"
  ww_body :: string
  ww_overwrite :: bool
  ww_expected_revision :: "string option"
  ww_actor :: "string option"

record move_page_wire =
  mw_source :: string
  mw_destination :: string
  mw_expected_revision :: "string option"
  mw_actor :: "string option"

record run_request_wire =
  rw_argv :: "string list"
  rw_timeout_ms :: "nat option"
  rw_max_output_bytes :: "nat option"

record error_body =
  eb_kind :: string
  eb_message :: message
  eb_path :: "string option"
  eb_expected_revision :: "string option"
  eb_actual_revision :: "string option"
  eb_limit :: "nat option"
  eb_command :: "string option"

record error_envelope =
  env_error :: error_body

definition plain_body :: "memory_error \<Rightarrow> error_body" where
  "plain_body e = \<lparr>eb_kind = kind e, eb_message = display_error e, eb_path = None, eb_expected_revision = None,
     eb_actual_revision = None, eb_limit = None, eb_command = None\<rparr>"

definition from_error :: "memory_error \<Rightarrow> error_envelope" where
  "from_error e = \<lparr>env_error =
     (case e of
        InvalidPath path _ \<Rightarrow> (plain_body e)\<lparr>eb_path := Some path\<rparr>
      | NotFound path \<Rightarrow> (plain_body e)\<lparr>eb_path := Some path\<rparr>
      | AlreadyExists path \<Rightarrow> (plain_body e)\<lparr>eb_path := Some path\<rparr>
      | InvalidFrontmatter path _ \<Rightarrow> (plain_body e)\<lparr>eb_path := Some path\<rparr>
      | Conflict path expected actual \<Rightarrow>
          (plain_body e)\<lparr>eb_path := Some path, eb_expected_revision := expected, eb_actual_revision := Some actual\<rparr>
      | TooLarge _ limit \<Rightarrow> (plain_body e)\<lparr>eb_limit := Some limit\<rparr>
      | CommandNotAllowed command \<Rightarrow> (plain_body e)\<lparr>eb_command := Some command\<rparr>
      | _ \<Rightarrow> plain_body e)\<rparr>"

definition or_default :: "string option \<Rightarrow> string" where
  "or_default x = (case x of Some s \<Rightarrow> s | None \<Rightarrow> [])"

definition into_memory_error :: "error_envelope \<Rightarrow> memory_error" where
  "into_memory_error env =
     (let b = env_error env; k = eb_kind b; path = or_default (eb_path b); message = eb_message b in
      if k = ''invalid_path'' then InvalidPath path message
      else if k = ''not_found'' then NotFound path
      else if k = ''already_exists'' then AlreadyExists path
      else if k = ''conflict'' then Conflict path (eb_expected_revision b) (or_default (eb_actual_revision b))
      else if k = ''invalid_frontmatter'' then InvalidFrontmatter path message
      else if k = ''too_large'' then TooLarge ''request payload'' (case eb_limit b of Some n \<Rightarrow> n | None \<Rightarrow> 0)
      else if k = ''command_not_allowed'' then CommandNotAllowed (or_default (eb_command b))
      else if k = ''run_timed_out'' then RunTimedOut
      else if k = ''run_output_limit_exceeded'' then RunOutputLimitExceeded
      else if k = ''run_cancelled'' then RunCancelled
      else if k = ''run_launch_failed'' then RunLaunchFailed message
      else if k = ''lock'' then Lock message
      else if k = ''not_implemented'' then NotImplemented message
      else if k = ''unavailable'' then Unavailable message
      else if k = ''malformed_response'' then MalformedResponse message
      else Internal message)"

section \<open>The client interface\<close>

text \<open>The operations of \<^verbatim>\<open>MemoryClient\<close> over the state \<open>'s\<close> of whatever stands behind them.\<close>

record 's memory_client =
  mc_write_page :: "write_page_request \<Rightarrow> 's \<Rightarrow> (memory_error, page, 's) outcome"
  mc_read_page :: "page_path \<Rightarrow> 's \<Rightarrow> (memory_error, page, 's) outcome"
  mc_move_page :: "move_page_request \<Rightarrow> 's \<Rightarrow> (memory_error, move_outcome, 's) outcome"
  mc_remove_page :: "remove_page_request \<Rightarrow> 's \<Rightarrow> (memory_error, unit, 's) outcome"
  mc_list_pages :: "list_filter \<Rightarrow> 's \<Rightarrow> (memory_error, page_summary list, 's) outcome"
  mc_query_pages :: "query_request \<Rightarrow> 's \<Rightarrow> (memory_error, page_summary list, 's) outcome"
  mc_list_tags :: "'s \<Rightarrow> (memory_error, tag_count list, 's) outcome"
  mc_links :: "page_path \<Rightarrow> bool \<Rightarrow> 's \<Rightarrow> (memory_error, links_report, 's) outcome"
  mc_check :: "'s \<Rightarrow> (memory_error, check_report, 's) outcome"
  mc_run_command :: "string list \<Rightarrow> run_limits \<Rightarrow> sinks \<Rightarrow> 's \<Rightarrow> (memory_error, run_outcome, sinks \<times> 's) outcome"

text \<open>\<^verbatim>\<open>DirectMemoryClient\<close>: every operation is the service's; \<open>now\<close> is the clock, \<open>launch\<close> and
  \<open>drive_child\<close> start and drive a child process.\<close>

definition direct_client ::
  "deps \<Rightarrow> 's memory_store \<Rightarrow> datetime \<Rightarrow> (string list \<Rightarrow> (string, 'c) result)
    \<Rightarrow> ('c \<Rightarrow> run_limits \<Rightarrow> sinks \<Rightarrow> run_outcome \<times> sinks) \<Rightarrow> 's memory_client" where
  "direct_client d st now launch drive_child = \<lparr>
     mc_write_page = write_page d st now,
     mc_read_page = read_page d st,
     mc_move_page = move_page d st,
     mc_remove_page = remove_page st,
     mc_list_pages = list_pages d st,
     mc_query_pages = query_pages d st,
     mc_list_tags = list_tags d st,
     mc_links = links d st,
     mc_check = check d st,
     mc_run_command = (\<lambda>argv limits k s. case run_with launch drive_child argv limits k of (oc, k') \<Rightarrow> (Inr oc, k', s))\<rparr>"

section \<open>Errors on the wire\<close>

definition wire_error :: "memory_error \<Rightarrow> memory_error" where
  "wire_error e = into_memory_error (from_error e)"

lemma wire_error_exact:
  "wire_error (NotFound p) = NotFound p" "wire_error (AlreadyExists p) = AlreadyExists p"
  "wire_error (Conflict p ex ac) = Conflict p ex ac" "wire_error (CommandNotAllowed c) = CommandNotAllowed c"
  "wire_error RunTimedOut = RunTimedOut" "wire_error RunOutputLimitExceeded = RunOutputLimitExceeded"
  "wire_error RunCancelled = RunCancelled" "wire_error (TooLarge w n) = TooLarge ''request payload'' n"
  "wire_error (InvalidPath p m) = InvalidPath p (display_error (InvalidPath p m))"
  by (simp_all add: wire_error_def into_memory_error_def from_error_def plain_body_def or_default_def Let_def)

lemma wire_error_codes: "exit_code_for (wire_error e) = exit_code_for e \<and> status_for (wire_error e) = status_for e"
  by (cases e) (simp_all add: wire_error_def into_memory_error_def from_error_def plain_body_def or_default_def Let_def)

lemma wire_error_kind: "kind (wire_error e) = (if kind e \<in> {''io'', ''yaml''} then ''internal'' else kind e)"
  by (cases e) (simp_all add: wire_error_def into_memory_error_def from_error_def plain_body_def or_default_def Let_def)

text \<open>
  An error that crosses the wire keeps its meaning: its kind (I/O and YAML failures become
  internal), its HTTP status and its exit code are those of the original; a conflict, a missing or an
  existing page and a rejected command come back unchanged.
\<close>

theorem error_wire_round_trip:
  "kind (into_memory_error (from_error e)) = (if kind e \<in> {''io'', ''yaml''} then ''internal'' else kind e) \<and>
   status_for (into_memory_error (from_error e)) = status_for e \<and>
   exit_code_for (into_memory_error (from_error e)) = exit_code_for e \<and>
   into_memory_error (from_error (Conflict p expected actual)) = Conflict p expected actual \<and>
   into_memory_error (from_error (NotFound p)) = NotFound p \<and>
   into_memory_error (from_error (AlreadyExists p)) = AlreadyExists p \<and>
   into_memory_error (from_error (CommandNotAllowed c)) = CommandNotAllowed c"
  using wire_error_codes wire_error_kind wire_error_exact(1-4) by (simp add: wire_error_def)

lemma page_wire_round_trip:
  "page_path_parse (as_str (page_path_of pg)) = Inr (page_path_of pg) \<Longrightarrow> page_try_from (from_page pg ls) = Inr pg"
  by (simp add: page_try_from_def from_page_def)

end
