(* ===== verification/Memory_Server.thy ===== *)
theory Memory_Server
  imports Memory_Wire
begin

text \<open>
  The HTTP adapter (\<^verbatim>\<open>services/memory_rs/src/server.rs\<close>): the route table, every handler over an
  arbitrary client, the mapping of errors to responses, and the framed body that \<^verbatim>\<open>drive_run\<close> produces.
  The extraction of query parameters follows the derived \<^verbatim>\<open>Deserialize\<close> implementations; JSON itself is
  a codec argument.
\<close>

section \<open>Limits\<close>

text \<open>Durations are in milliseconds.\<close>

definition MAX_RUN_TIMEOUT :: nat where "MAX_RUN_TIMEOUT = 2 * 60 * 1000"
definition MAX_RUN_OUTPUT_BYTES :: nat where "MAX_RUN_OUTPUT_BYTES = 8 * 1024 * 1024"

section \<open>Responses\<close>

datatype api_body =
    HealthBody
  | PagesBody "page_summary list"
  | PageBody page_wire
  | MoveBody move_outcome
  | TagsBody "tag_count list"
  | LinksBody links_report
  | CheckBody check_report
  | ErrorResponse error_envelope
  | StreamBody "string list" run_limits
  | NoBody

record api_response =
  rs_status :: nat
  rs_body :: api_body

definition ok_json :: "api_body \<Rightarrow> api_response" where
  "ok_json b = \<lparr>rs_status = 200, rs_body = b\<rparr>"

text \<open>\<^verbatim>\<open>impl IntoResponse for AppError\<close>.\<close>

definition into_response :: "(memory_error, api_response, 's) outcome \<Rightarrow> api_response \<times> 's" where
  "into_response r =
     (case r of
        (Inr response, s) \<Rightarrow> (response, s)
      | (Inl e, s) \<Rightarrow> (\<lparr>rs_status = status_for e, rs_body = ErrorResponse (from_error e)\<rparr>, s))"

section \<open>Handlers\<close>

definition healthz :: api_response where
  "healthz = ok_json HealthBody"

text \<open>\<^verbatim>\<open>map(PagePath::parse).transpose()\<close>.\<close>

definition parse_opt :: "string option \<Rightarrow> (memory_error, page_path option) result" where
  "parse_opt p = (case p of None \<Rightarrow> Inr None | Some s \<Rightarrow> try_res (page_path_parse s) (\<lambda>q. Inr (Some q)))"

definition srv_list_pages :: "'s memory_client \<Rightarrow> list_pages_query \<Rightarrow> 's \<Rightarrow> (memory_error, api_response, 's) outcome" where
  "srv_list_pages client q s =
     try_io (parse_opt (lq_under q), s) (\<lambda>under_path s.
       let filter = \<lparr>lf_under = under_path, lf_with_tags = query_tags q, lf_limit = lq_limit q\<rparr> in
       try_io (case lq_text q of
                 Some t \<Rightarrow> (if t \<noteq> [] then mc_query_pages client \<lparr>qr_text = t, qr_filter = filter\<rparr> s
                            else mc_list_pages client filter s)
               | None \<Rightarrow> mc_list_pages client filter s) (\<lambda>ps s.
       (Inr (ok_json (PagesBody ps)), s)))"

definition srv_read_page :: "'s memory_client \<Rightarrow> content_query \<Rightarrow> 's \<Rightarrow> (memory_error, api_response, 's) outcome" where
  "srv_read_page client q s =
     try_io (page_path_parse (cq_path q), s) (\<lambda>path s.
     try_io (mc_read_page client path s) (\<lambda>pg s.
     try_io (mc_links client path False s) (\<lambda>links_rep s.
     (Inr (ok_json (PageBody (from_page pg (lr_outgoing links_rep)))), s))))"

definition srv_write_page ::
  "'s memory_client \<Rightarrow> content_query \<Rightarrow> write_page_wire \<Rightarrow> 's \<Rightarrow> (memory_error, api_response, 's) outcome" where
  "srv_write_page client q wire s =
     try_io (page_path_parse (cq_path q), s) (\<lambda>path s.
     try_io (mc_write_page client
               \<lparr>wr_path = path, wr_title = ww_title wire, wr_tags = ww_tags wire, wr_body = ww_body wire,
                wr_overwrite = ww_overwrite wire, wr_expected_revision = ww_expected_revision wire,
                wr_actor = ww_actor wire\<rparr> s) (\<lambda>pg s.
     try_io (mc_links client (page_path_of pg) False s) (\<lambda>links_rep s.
     (Inr (ok_json (PageBody (from_page pg (lr_outgoing links_rep)))), s))))"

definition srv_remove_page :: "'s memory_client \<Rightarrow> content_query \<Rightarrow> 's \<Rightarrow> (memory_error, api_response, 's) outcome" where
  "srv_remove_page client q s =
     try_io (page_path_parse (cq_path q), s) (\<lambda>path s.
     try_io (mc_remove_page client \<lparr>rm_path = path, rm_expected_revision = cq_expected_revision q\<rparr> s) (\<lambda>_ s.
     (Inr \<lparr>rs_status = 204, rs_body = NoBody\<rparr>, s)))"

definition srv_move_page :: "'s memory_client \<Rightarrow> move_page_wire \<Rightarrow> 's \<Rightarrow> (memory_error, api_response, 's) outcome" where
  "srv_move_page client wire s =
     try_io (page_path_parse (mw_source wire), s) (\<lambda>source s.
     try_io (page_path_parse (mw_destination wire), s) (\<lambda>destination s.
     try_io (mc_move_page client
               \<lparr>mv_source = source, mv_destination = destination, mv_expected_revision = mw_expected_revision wire,
                mv_actor = mw_actor wire\<rparr> s) (\<lambda>out s.
     (Inr (ok_json (MoveBody out)), s))))"

definition srv_list_tags :: "'s memory_client \<Rightarrow> 's \<Rightarrow> (memory_error, api_response, 's) outcome" where
  "srv_list_tags client s = try_io (mc_list_tags client s) (\<lambda>ts s. (Inr (ok_json (TagsBody ts)), s))"

definition srv_links :: "'s memory_client \<Rightarrow> links_query \<Rightarrow> 's \<Rightarrow> (memory_error, api_response, 's) outcome" where
  "srv_links client q s =
     try_io (page_path_parse (kq_path q), s) (\<lambda>path s.
     try_io (mc_links client path (kq_backlinks q) s) (\<lambda>rep s. (Inr (ok_json (LinksBody rep)), s)))"

definition srv_check :: "'s memory_client \<Rightarrow> 's \<Rightarrow> (memory_error, api_response, 's) outcome" where
  "srv_check client s = try_io (mc_check client s) (\<lambda>rep s. (Inr (ok_json (CheckBody rep)), s))"

text \<open>The limits of \<^verbatim>\<open>/v1/run\<close>: the caller's or the default ones, clamped.\<close>

definition clamp_limits :: "run_request_wire \<Rightarrow> run_limits" where
  "clamp_limits wire = \<lparr>
     run_timeout = min (case rw_timeout_ms wire of Some t \<Rightarrow> t | None \<Rightarrow> run_timeout default_limits) MAX_RUN_TIMEOUT,
     max_output_bytes = min (case rw_max_output_bytes wire of Some n \<Rightarrow> n | None \<Rightarrow> max_output_bytes default_limits) MAX_RUN_OUTPUT_BYTES\<rparr>"

text \<open>The response of \<^verbatim>\<open>run\<close>: the stream that \<open>drive_run\<close> below fills with the clamped limits.\<close>

definition srv_run :: "run_request_wire \<Rightarrow> 's \<Rightarrow> (memory_error, api_response, 's) outcome" where
  "srv_run wire s =
     (case rw_argv wire of
        [] \<Rightarrow> (Inl (CommandNotAllowed MISSING_COMMAND), s)
      | program # _ \<Rightarrow>
          (if \<not> is_allowed program then (Inl (CommandNotAllowed program), s)
           else (Inr \<lparr>rs_status = 200, rs_body = StreamBody (rw_argv wire) (clamp_limits wire)\<rparr>, s)))"

section \<open>The streamed body\<close>

text \<open>One frame per read of at most 8192 bytes, until the receiver is gone (after \<open>n\<close> frames, if ever).\<close>

definition forward_frames :: "char \<Rightarrow> nat option \<Rightarrow> bytes list \<Rightarrow> bytes list" where
  "forward_frames tag gone reads =
     (let frames = map (encode_chunk tag) reads in case gone of None \<Rightarrow> frames | Some n \<Rightarrow> take n frames)"

text \<open>The two forwarding tasks share the channel: \<open>order\<close> says whose frame comes next.\<close>

fun merge :: "bool list \<Rightarrow> 'a list \<Rightarrow> 'a list \<Rightarrow> 'a list" where
  "merge (True # order) (x # xs) ys = x # merge order xs ys"
| "merge (False # order) xs (y # ys) = y # merge order xs ys"
| "merge order xs ys = xs @ ys"

text \<open>\<open>render\<close> is \<^verbatim>\<open>to_string\<close> on an error; \<open>r\<close> is what the client's \<^verbatim>\<open>run_command\<close> returned.\<close>

definition drive_run ::
  "(message \<Rightarrow> string) \<Rightarrow> bool list \<Rightarrow> bytes list \<Rightarrow> bytes list \<Rightarrow> (memory_error, run_outcome) result \<Rightarrow> bytes list" where
  "drive_run render order stdout_reads stderr_reads r =
     (let oc = (case r of Inr oc \<Rightarrow> oc | Inl e \<Rightarrow> LaunchFailed (render (display_error e)))
      in merge order (forward_frames TAG_STDOUT None stdout_reads) (forward_frames TAG_STDERR None stderr_reads)
           @ [encode_terminal oc])"

section \<open>Routing\<close>

datatype http_method = GET | PUT | POST | DELETE

datatype endpoint = EpHealthz | EpListPages | EpReadPage | EpWritePage | EpRemovePage | EpMovePage | EpListTags
  | EpLinks | EpCheck | EpRun

definition routes :: "(string \<times> (http_method \<times> endpoint) list) list" where
  "routes = [
     (''/healthz'', [(GET, EpHealthz)]),
     (''/v1/pages'', [(GET, EpListPages)]),
     (''/v1/pages/content'', [(GET, EpReadPage), (PUT, EpWritePage), (DELETE, EpRemovePage)]),
     (''/v1/pages/move'', [(POST, EpMovePage)]),
     (''/v1/tags'', [(GET, EpListTags)]),
     (''/v1/links'', [(GET, EpLinks)]),
     (''/v1/check'', [(GET, EpCheck)]),
     (''/v1/run'', [(POST, EpRun)])]"

record http_request =
  rq_method :: http_method
  rq_path :: string
  rq_query :: "(string \<times> string) list"
  rq_body :: "bytes option"

text \<open>\<^verbatim>\<open>str::parse::<usize>\<close>.\<close>

definition digit_val :: "char \<Rightarrow> nat option" where
  "digit_val c = (if in_range 48 57 c then Some (byte_val c - 48) else None)"

fun digits_val :: "nat \<Rightarrow> string \<Rightarrow> nat option" where
  "digits_val acc [] = Some acc"
| "digits_val acc (c # cs) =
     (case digit_val c of
        None \<Rightarrow> None
      | Some v \<Rightarrow> (if 10 * acc + v < 2 ^ 64 then digits_val (10 * acc + v) cs else None))"

definition parse_usize :: "string \<Rightarrow> nat option" where
  "parse_usize s =
     (let t = (case s of c # cs \<Rightarrow> (if c = CHR ''+'' then cs else s) | [] \<Rightarrow> s)
      in if t = [] then None else digits_val 0 t)"

text \<open>The derived deserialisers of the query structs: every field at most once, required fields present,
  numbers and booleans in their textual form.\<close>

definition pairs_ok :: "string list \<Rightarrow> (string \<times> string) list \<Rightarrow> bool" where
  "pairs_ok names pairs \<longleftrightarrow> distinct (filter (\<lambda>k. k \<in> set names) (map fst pairs))"

definition list_pages_query_of :: "(string \<times> string) list \<Rightarrow> list_pages_query option" where
  "list_pages_query_of pairs =
     (if \<not> pairs_ok [''under'', ''with-tag'', ''limit'', ''text''] pairs then None
      else case map_of pairs ''limit'' of
          None \<Rightarrow> Some \<lparr>lq_under = map_of pairs ''under'', lq_with_tag = map_of pairs ''with-tag'', lq_limit = None,
                        lq_text = map_of pairs ''text''\<rparr>
        | Some l \<Rightarrow> map_option (\<lambda>n. \<lparr>lq_under = map_of pairs ''under'', lq_with_tag = map_of pairs ''with-tag'',
                        lq_limit = Some n, lq_text = map_of pairs ''text''\<rparr>) (parse_usize l))"

definition content_query_of :: "(string \<times> string) list \<Rightarrow> content_query option" where
  "content_query_of pairs =
     (if \<not> pairs_ok [''path'', ''expected_revision''] pairs then None
      else map_option (\<lambda>p. \<lparr>cq_path = p, cq_expected_revision = map_of pairs ''expected_revision''\<rparr>) (map_of pairs ''path''))"

definition parse_bool :: "string \<Rightarrow> bool option" where
  "parse_bool s = (if s = ''true'' then Some True else if s = ''false'' then Some False else None)"

definition links_query_of :: "(string \<times> string) list \<Rightarrow> links_query option" where
  "links_query_of pairs =
     (if \<not> pairs_ok [''path'', ''backlinks''] pairs then None
      else Option.bind (map_of pairs ''path'') (\<lambda>p.
        case map_of pairs ''backlinks'' of
          None \<Rightarrow> Some \<lparr>kq_path = p, kq_backlinks = False\<rparr>
        | Some b \<Rightarrow> map_option (\<lambda>v. \<lparr>kq_path = p, kq_backlinks = v\<rparr>) (parse_bool b)))"

text \<open>JSON: how bodies are written and read (\<^verbatim>\<open>serde_json\<close>); reading can fail with a text.\<close>

record codec =
  to_json :: "api_body \<Rightarrow> bytes"
  json_pages :: "bytes \<Rightarrow> (string, page_summary list) result"
  json_page :: "bytes \<Rightarrow> (string, page_wire) result"
  json_move :: "bytes \<Rightarrow> (string, move_outcome) result"
  json_tags :: "bytes \<Rightarrow> (string, tag_count list) result"
  json_links :: "bytes \<Rightarrow> (string, links_report) result"
  json_check :: "bytes \<Rightarrow> (string, check_report) result"
  json_error :: "bytes \<Rightarrow> (string, error_envelope) result"
  write_to_json :: "write_page_wire \<Rightarrow> (string, bytes) result"
  write_of_json :: "bytes \<Rightarrow> (string, write_page_wire) result"
  move_to_json :: "move_page_wire \<Rightarrow> (string, bytes) result"
  move_of_json :: "bytes \<Rightarrow> (string, move_page_wire) result"
  run_to_json :: "run_request_wire \<Rightarrow> (string, bytes) result"
  run_of_json :: "bytes \<Rightarrow> (string, run_request_wire) result"

text \<open>A request the framework refuses before a handler runs: no route, wrong method, body over the limit,
  or parameters that do not deserialise.\<close>

definition rejected :: "nat \<Rightarrow> api_response" where
  "rejected status = \<lparr>rs_status = status, rs_body = NoBody\<rparr>"

definition body_bytes :: "http_request \<Rightarrow> bytes" where
  "body_bytes rq = (case rq_body rq of None \<Rightarrow> [] | Some b \<Rightarrow> b)"

definition handle :: "codec \<Rightarrow> 's memory_client \<Rightarrow> endpoint \<Rightarrow> http_request \<Rightarrow> 's \<Rightarrow> api_response \<times> 's" where
  "handle c client ep rq s =
     (case ep of
        EpHealthz \<Rightarrow> (healthz, s)
      | EpListPages \<Rightarrow>
          (case list_pages_query_of (rq_query rq) of None \<Rightarrow> (rejected 400, s)
           | Some q \<Rightarrow> into_response (srv_list_pages client q s))
      | EpReadPage \<Rightarrow>
          (case content_query_of (rq_query rq) of None \<Rightarrow> (rejected 400, s)
           | Some q \<Rightarrow> into_response (srv_read_page client q s))
      | EpWritePage \<Rightarrow>
          (case (content_query_of (rq_query rq), write_of_json c (body_bytes rq)) of
             (Some q, Inr wire) \<Rightarrow> into_response (srv_write_page client q wire s)
           | (None, _) \<Rightarrow> (rejected 400, s)
           | (_, Inl _) \<Rightarrow> (rejected 422, s))
      | EpRemovePage \<Rightarrow>
          (case content_query_of (rq_query rq) of None \<Rightarrow> (rejected 400, s)
           | Some q \<Rightarrow> into_response (srv_remove_page client q s))
      | EpMovePage \<Rightarrow>
          (case move_of_json c (body_bytes rq) of Inl _ \<Rightarrow> (rejected 422, s)
           | Inr wire \<Rightarrow> into_response (srv_move_page client wire s))
      | EpListTags \<Rightarrow> into_response (srv_list_tags client s)
      | EpLinks \<Rightarrow>
          (case links_query_of (rq_query rq) of None \<Rightarrow> (rejected 400, s)
           | Some q \<Rightarrow> into_response (srv_links client q s))
      | EpCheck \<Rightarrow> into_response (srv_check client s)
      | EpRun \<Rightarrow>
          (case run_of_json c (body_bytes rq) of Inl _ \<Rightarrow> (rejected 422, s)
           | Inr wire \<Rightarrow> into_response (srv_run wire s)))"

text \<open>\<^verbatim>\<open>build_router\<close>.\<close>

definition serve_request :: "codec \<Rightarrow> nat \<Rightarrow> 's memory_client \<Rightarrow> http_request \<Rightarrow> 's \<Rightarrow> api_response \<times> 's" where
  "serve_request c max_request_bytes client rq s =
     (case map_of routes (rq_path rq) of
        None \<Rightarrow> (rejected 404, s)
      | Some methods \<Rightarrow>
          (case map_of methods (rq_method rq) of
             None \<Rightarrow> (rejected 405, s)
           | Some ep \<Rightarrow>
               (if length (body_bytes rq) > max_request_bytes \<and> ep \<in> {EpWritePage, EpMovePage, EpRun} then (rejected 413, s)
                else handle c client ep rq s)))"

section \<open>The streamed body reaches the client\<close>

lemma merge_map: "merge order (map f xs) (map f ys) = map f (merge order xs ys)"
  by (induction order xs ys rule: merge.induct) simp_all

lemma merge_set: "set (merge order xs ys) = set xs \<union> set ys"
  by (induction order xs ys rule: merge.induct) auto

lemma outs_merge:
  "outs (merge order (map Stdout xs) (map Stderr ys)) = concat xs \<and> errs (merge order (map Stdout xs) (map Stderr ys)) = concat ys"
proof (induction order "map Stdout xs" "map Stderr ys" arbitrary: xs ys rule: merge.induct)
  case (1 order x xs' ys)
  then show ?case by (auto simp: map_eq_Cons_conv)
next
  case (2 order xs y ys')
  then show ?case by (auto simp: map_eq_Cons_conv)
qed (auto simp: outs_def errs_def comp_def)

lemma forward_frames_encode:
  "forward_frames TAG_STDOUT None xs = map encode_frame (map Stdout xs)"
  "forward_frames TAG_STDERR None ys = map encode_frame (map Stderr ys)"
  by (simp_all add: forward_frames_def)

text \<open>
  (C20) A run through the server: whatever the order in which the two forwarding tasks sent their frames
  and however the transport cuts the body, the HTTP client receives on each sink exactly what the
  command wrote to that stream and returns the outcome that the server's client reported.
\<close>

theorem run_body_reaches_client:
  assumes "\<forall>b \<in> set stdout_reads \<union> set stderr_reads. length b \<le> 8192" "frame_ok (Terminal oc)" "no_write_faults k"
    and "concat cs = concat (drive_run render order stdout_reads stderr_reads (Inr oc))"
  shows "\<exists>k'. receive_loop (map Chunk cs) new_decoder k = (Inr oc, k') \<and>
    out_bytes k' = out_bytes k @ concat stdout_reads \<and> err_bytes k' = err_bytes k @ concat stderr_reads"
proof -
  let ?fs = "merge order (map Stdout stdout_reads) (map Stderr stderr_reads)"
  have "drive_run render order stdout_reads stderr_reads (Inr oc) = map encode_frame ?fs @ [encode_terminal oc]"
    by (simp add: drive_run_def forward_frames_encode merge_map del: map_map)
  then have cs: "concat cs @ [] = stream_of ?fs oc @ []" using assms(4) by (simp add: stream_of_def)
  have "length b \<le> MAX_FRAME_PAYLOAD_BYTES" if "b \<in> set stdout_reads \<union> set stderr_reads" for b
    using bspec [OF assms(1) that] by (simp add: MAX_FRAME_PAYLOAD_BYTES_def)
  then have ok: "\<forall>f \<in> set ?fs. frame_ok f \<and> \<not> is_terminal f"
    by (auto simp: merge_set is_terminal_def)
  have "stream_of ?fs oc \<noteq> []"
    using encode_frame_parts [OF assms(2)] by (metis append_is_Nil_conv list.distinct(1) stream_of_def)
  then have "\<exists>k'. receive_loop (map Chunk cs) new_decoder k = (Inr oc, k') \<and> wrote ?fs k k'"
    using receive_loop_stream [of ?fs oc new_decoder k cs "[]" "[]" "[]"] ok assms(2,3) cs by (auto simp: new_decoder_def)
  then show ?thesis by (auto simp: wrote_def outs_merge)
qed

theorem run_body_reaches_client_witness:
  "\<exists>k'. receive_loop (map Chunk (drive_run (\<lambda>_. []) [False] [''out''] [''err''] (Inr (Exited 3)))) new_decoder sample_sinks = (Inr (Exited 3), k') \<and>
    out_bytes k' = ''out'' \<and> err_bytes k' = ''err''"
  using run_body_reaches_client [of "[''out'']" "[''err'']" "Exited 3" sample_sinks
      "drive_run (\<lambda>_. []) [False] [''out''] [''err''] (Inr (Exited 3))" "\<lambda>_. []" "[False]"] sample_sinks_ok
  by (simp add: sample_sinks_def)

text \<open>
  The server never grants a wider bound than its own: the limits of an accepted run are at most
  the maximums and at most what the caller asked for, and only allowlisted programs are accepted.
\<close>

theorem run_limits_clamped:
  assumes "srv_run wire s = (Inr response, s')"
  shows "\<exists>limits. rs_body response = StreamBody (rw_argv wire) limits \<and>
    run_timeout limits \<le> MAX_RUN_TIMEOUT \<and> max_output_bytes limits \<le> MAX_RUN_OUTPUT_BYTES \<and>
    (\<forall>t. rw_timeout_ms wire = Some t \<longrightarrow> run_timeout limits \<le> t) \<and>
    (\<forall>n. rw_max_output_bytes wire = Some n \<longrightarrow> max_output_bytes limits \<le> n) \<and>
    (\<exists>program args. rw_argv wire = program # args \<and> program \<in> set ALLOWED_COMMANDS)"
  using assms by (auto simp: srv_run_def clamp_limits_def is_allowed_def split: list.splits if_splits)

theorem run_limits_clamped_witness:
  "\<exists>limits. StreamBody [''ls''] (clamp_limits \<lparr>rw_argv = [''ls''], rw_timeout_ms = Some 999999999, rw_max_output_bytes = None\<rparr>)
      = StreamBody [''ls''] limits \<and> run_timeout limits \<le> MAX_RUN_TIMEOUT"
  using run_limits_clamped [of "\<lparr>rw_argv = [''ls''], rw_timeout_ms = Some 999999999, rw_max_output_bytes = None\<rparr>" "()"]
  by (simp add: srv_run_def is_allowed_def ALLOWED_COMMANDS_def)

end
