(* ===== verification/Http_Client.thy ===== *)
theory Http_Client
  imports Memory_Server
begin

text \<open>
  The HTTP client (\<^verbatim>\<open>services/memory_rs/src/http_client.rs\<close>): building requests, bounded reading of
  responses, the mapping of transport failures and error bodies, and the client operations, over a
  transport argument \<open>send\<close>.  Against the adapter of \<open>Memory_Server\<close> it behaves like the client behind
  that adapter.
\<close>

section \<open>Requests and responses\<close>

record transport_error =
  te_timeout :: bool
  te_connect :: bool
  te_text :: string

record http_response =
  hr_status :: nat
  hr_content_type :: "string option"
  hr_chunks :: "(transport_error + bytes) list"

text \<open>A parsed URL, as far as it is used: its text and whether it can be a base.\<close>

record base_url =
  url_text :: string
  url_is_base :: bool

text \<open>\<^verbatim>\<open>InvalidBaseUrl\<close>: the raw text and the parser's message.\<close>

record invalid_base_url =
  iu_raw :: string
  iu_message :: string

record http_client =
  hc_base :: "invalid_base_url + base_url"

type_synonym 's transport = "http_request \<Rightarrow> 's \<Rightarrow> (transport_error, http_response, 's) outcome"

definition MAX_JSON_RESPONSE_BYTES :: nat where "MAX_JSON_RESPONSE_BYTES = 16 * 1024 * 1024"

text \<open>\<open>parse_url\<close> is \<^verbatim>\<open>Url::parse\<close>.\<close>

definition new_http_client :: "(string \<Rightarrow> (string, base_url) result) \<Rightarrow> string \<Rightarrow> http_client" where
  "new_http_client parse_url raw = \<lparr>hc_base =
     (case parse_url raw of Inl m \<Rightarrow> Inl \<lparr>iu_raw = raw, iu_message = m\<rparr> | Inr u \<Rightarrow> Inr u)\<rparr>"

definition endpoint_path :: "http_client \<Rightarrow> string \<Rightarrow> (memory_error, string) result" where
  "endpoint_path hc path =
     (case hc_base hc of
        Inl bad \<Rightarrow> Inl (Unavailable [Txt ''invalid memory service URI '', Dbg (iu_raw bad), Txt '': '', Ext (iu_message bad)])
      | Inr url \<Rightarrow>
          (if \<not> url_is_base url then
             Inl (Unavailable [Txt ''memory service URI '', Ext (url_text url), Txt '' cannot be a base''])
           else Inr (''/'' @ join_with ''/'' (split_on (CHR ''/'') (dropWhile (\<lambda>c. c = CHR ''/'') path)))))"

definition map_transport_error :: "transport_error \<Rightarrow> memory_error" where
  "map_transport_error e =
     (if te_timeout e then Unavailable [Txt ''request timed out: '', Ext (te_text e)]
      else if te_connect e then Unavailable [Txt ''connection failed: '', Ext (te_text e)]
      else Unavailable [Ext (te_text e)])"

fun read_bounded :: "bytes \<Rightarrow> (transport_error + bytes) list \<Rightarrow> (memory_error, bytes) result" where
  "read_bounded acc [] = Inr acc"
| "read_bounded acc (Inl e # chunks) = Inl (map_transport_error e)"
| "read_bounded acc (Inr chunk # chunks) =
     (if length acc + length chunk > MAX_JSON_RESPONSE_BYTES
      then Inl (TooLarge ''memory service response'' MAX_JSON_RESPONSE_BYTES)
      else read_bounded (acc @ chunk) chunks)"

definition dbg_opt :: "string option \<Rightarrow> message" where
  "dbg_opt x = (case x of None \<Rightarrow> lit ''None'' | Some s \<Rightarrow> [Txt ''Some('', Dbg s, Txt '')''])"

definition require_content_type :: "http_response \<Rightarrow> string \<Rightarrow> (memory_error, unit) result" where
  "require_content_type response expected =
     (let actual = map_option (\<lambda>v. trim (hd (split_on (CHR '';'') v))) (hr_content_type response)
      in if actual = Some expected then Inr ()
         else Inl (MalformedResponse ([Txt ''expected content-type '', Dbg expected, Txt '', got ''] @ dbg_opt actual)))"

definition is_success :: "nat \<Rightarrow> bool" where
  "is_success status \<longleftrightarrow> 200 \<le> status \<and> status < 300"

definition parse_error_body :: "codec \<Rightarrow> nat \<Rightarrow> bytes \<Rightarrow> memory_error" where
  "parse_error_body c status bs =
     (case json_error c bs of
        Inl e \<Rightarrow> MalformedResponse [Txt ''memory service returned status '', Ext (show_nat status),
                   Txt '' with an unparsable error body: '', Ext e]
      | Inr env \<Rightarrow> into_memory_error env)"

text \<open>The \<^verbatim>\<open>body\<close> argument carries the result of \<^verbatim>\<open>serde_json::to_vec\<close>.\<close>

definition json_request_raw ::
  "codec \<Rightarrow> 's transport \<Rightarrow> http_client \<Rightarrow> http_method \<Rightarrow> string \<Rightarrow> (string \<times> string) list \<Rightarrow> (string, bytes) result option
    \<Rightarrow> 's \<Rightarrow> (memory_error, bytes, 's) outcome" where
  "json_request_raw c send hc meth path query bd s =
     try_io (endpoint_path hc path, s) (\<lambda>url s.
     try_io (case bd of
               None \<Rightarrow> (Inr None, s)
             | Some (Inl e) \<Rightarrow> (Inl (Internal [Ext e]), s)
             | Some (Inr payload) \<Rightarrow> (Inr (Some payload), s)) (\<lambda>payload s.
     case send \<lparr>rq_method = meth, rq_path = url, rq_query = query, rq_body = payload\<rparr> s of
       (Inl e, s) \<Rightarrow> (Inl (map_transport_error e), s)
     | (Inr response, s) \<Rightarrow>
         (if \<not> is_success (hr_status response) then
            try_io (read_bounded [] (hr_chunks response), s) (\<lambda>bs s.
              (Inl (parse_error_body c (hr_status response) bs), s))
          else
            try_io (require_content_type response JSON_CONTENT_TYPE, s) (\<lambda>_ s.
              (read_bounded [] (hr_chunks response), s)))))"

definition json_request ::
  "codec \<Rightarrow> 's transport \<Rightarrow> http_client \<Rightarrow> (bytes \<Rightarrow> (string, 'a) result) \<Rightarrow> http_method \<Rightarrow> string \<Rightarrow> (string \<times> string) list
    \<Rightarrow> (string, bytes) result option \<Rightarrow> 's \<Rightarrow> (memory_error, 'a, 's) outcome" where
  "json_request c send hc from_slice meth path query bd s =
     try_io (json_request_raw c send hc meth path query bd s) (\<lambda>bs s.
       (case from_slice bs of Inl e \<Rightarrow> Inl (MalformedResponse [Ext e]) | Inr x \<Rightarrow> Inr x, s))"

definition json_request_no_content ::
  "codec \<Rightarrow> 's transport \<Rightarrow> http_client \<Rightarrow> http_method \<Rightarrow> string \<Rightarrow> (string \<times> string) list \<Rightarrow> 's \<Rightarrow> (memory_error, unit, 's) outcome" where
  "json_request_no_content c send hc meth path query s =
     try_io (endpoint_path hc path, s) (\<lambda>url s.
     case send \<lparr>rq_method = meth, rq_path = url, rq_query = query, rq_body = None\<rparr> s of
       (Inl e, s) \<Rightarrow> (Inl (map_transport_error e), s)
     | (Inr response, s) \<Rightarrow>
         (if hr_status response = 204 then (Inr (), s)
          else if is_success (hr_status response) then
            try_io (require_content_type response JSON_CONTENT_TYPE, s) (\<lambda>_ s.
            try_io (read_bounded [] (hr_chunks response), s) (\<lambda>_ s. (Inr (), s)))
          else
            try_io (read_bounded [] (hr_chunks response), s) (\<lambda>bs s.
              (Inl (parse_error_body c (hr_status response) bs), s))))"

section \<open>Operations\<close>

definition list_filter_query :: "list_filter \<Rightarrow> string option \<Rightarrow> (string \<times> string) list" where
  "list_filter_query f tx =
     (case lf_under f of Some u \<Rightarrow> [(''under'', as_str u)] | None \<Rightarrow> []) @
     (if lf_with_tags f \<noteq> [] then [(''with-tag'', join_with '','' (lf_with_tags f))] else []) @
     (case lf_limit f of Some n \<Rightarrow> [(''limit'', show_nat n)] | None \<Rightarrow> []) @
     (case tx of Some t \<Rightarrow> (if t \<noteq> [] then [(''text'', t)] else []) | None \<Rightarrow> [])"

definition http_write_page :: "codec \<Rightarrow> 's transport \<Rightarrow> http_client \<Rightarrow> write_page_request \<Rightarrow> 's \<Rightarrow> (memory_error, page, 's) outcome" where
  "http_write_page c send hc req s =
     (let wire = \<lparr>ww_title = wr_title req, ww_tags = wr_tags req, ww_body = wr_body req, ww_overwrite = wr_overwrite req,
                  ww_expected_revision = wr_expected_revision req, ww_actor = wr_actor req\<rparr>
      in try_io (json_request c send hc (json_page c) PUT ''/v1/pages/content'' [(''path'', as_str (wr_path req))]
                   (Some (write_to_json c wire)) s) (\<lambda>pw s. (page_try_from pw, s)))"

definition http_read_page :: "codec \<Rightarrow> 's transport \<Rightarrow> http_client \<Rightarrow> page_path \<Rightarrow> 's \<Rightarrow> (memory_error, page, 's) outcome" where
  "http_read_page c send hc path s =
     try_io (json_request c send hc (json_page c) GET ''/v1/pages/content'' [(''path'', as_str path)] None s) (\<lambda>pw s.
       (page_try_from pw, s))"

definition http_move_page :: "codec \<Rightarrow> 's transport \<Rightarrow> http_client \<Rightarrow> move_page_request \<Rightarrow> 's \<Rightarrow> (memory_error, move_outcome, 's) outcome" where
  "http_move_page c send hc req =
     (let wire = \<lparr>mw_source = as_str (mv_source req), mw_destination = as_str (mv_destination req),
                  mw_expected_revision = mv_expected_revision req, mw_actor = mv_actor req\<rparr>
      in json_request c send hc (json_move c) POST ''/v1/pages/move'' [] (Some (move_to_json c wire)))"

definition http_remove_page :: "codec \<Rightarrow> 's transport \<Rightarrow> http_client \<Rightarrow> remove_page_request \<Rightarrow> 's \<Rightarrow> (memory_error, unit, 's) outcome" where
  "http_remove_page c send hc req =
     json_request_no_content c send hc DELETE ''/v1/pages/content''
       ((''path'', as_str (rm_path req)) #
        (case rm_expected_revision req of Some e \<Rightarrow> [(''expected_revision'', e)] | None \<Rightarrow> []))"

definition http_list_pages :: "codec \<Rightarrow> 's transport \<Rightarrow> http_client \<Rightarrow> list_filter \<Rightarrow> 's \<Rightarrow> (memory_error, page_summary list, 's) outcome" where
  "http_list_pages c send hc f = json_request c send hc (json_pages c) GET ''/v1/pages'' (list_filter_query f None) None"

definition http_query_pages :: "codec \<Rightarrow> 's transport \<Rightarrow> http_client \<Rightarrow> query_request \<Rightarrow> 's \<Rightarrow> (memory_error, page_summary list, 's) outcome" where
  "http_query_pages c send hc req =
     json_request c send hc (json_pages c) GET ''/v1/pages'' (list_filter_query (qr_filter req) (Some (qr_text req))) None"

definition http_list_tags :: "codec \<Rightarrow> 's transport \<Rightarrow> http_client \<Rightarrow> 's \<Rightarrow> (memory_error, tag_count list, 's) outcome" where
  "http_list_tags c send hc = json_request c send hc (json_tags c) GET ''/v1/tags'' [] None"

definition show_bool :: "bool \<Rightarrow> string" where
  "show_bool b = (if b then ''true'' else ''false'')"

definition http_links :: "codec \<Rightarrow> 's transport \<Rightarrow> http_client \<Rightarrow> page_path \<Rightarrow> bool \<Rightarrow> 's \<Rightarrow> (memory_error, links_report, 's) outcome" where
  "http_links c send hc path include_backlinks =
     json_request c send hc (json_links c) GET ''/v1/links''
       [(''path'', as_str path), (''backlinks'', show_bool include_backlinks)] None"

definition http_check :: "codec \<Rightarrow> 's transport \<Rightarrow> http_client \<Rightarrow> 's \<Rightarrow> (memory_error, check_report, 's) outcome" where
  "http_check c send hc = json_request c send hc (json_check c) GET ''/v1/check'' [] None"

text \<open>\<^verbatim>\<open>run_command\<close>; \<open>cancel_at\<close> is the number of chunks after which the cancellation fires, if it does.\<close>

definition stream_events :: "nat option \<Rightarrow> (transport_error + bytes) list \<Rightarrow> stream_event list" where
  "stream_events cancel_at chunks =
     (let evs = map (\<lambda>x. case x of Inl e \<Rightarrow> TransportFailed (map_transport_error e) | Inr bs \<Rightarrow> Chunk bs) chunks
      in case cancel_at of None \<Rightarrow> evs | Some n \<Rightarrow> take n evs @ [CancelRequested] @ drop n evs)"

definition http_run_command ::
  "codec \<Rightarrow> 's transport \<Rightarrow> http_client \<Rightarrow> nat option \<Rightarrow> string list \<Rightarrow> run_limits \<Rightarrow> sinks \<Rightarrow> 's
    \<Rightarrow> (memory_error, run_outcome, sinks \<times> 's) outcome" where
  "http_run_command c send hc cancel_at argv limits k s =
     (case endpoint_path hc ''/v1/run'' of
        Inl e \<Rightarrow> (Inl e, k, s)
      | Inr url \<Rightarrow>
          (let timeout_ms = (if run_timeout limits < 2 ^ 64 then run_timeout limits else 2 ^ 64 - 1);
               wire = \<lparr>rw_argv = argv, rw_timeout_ms = Some timeout_ms, rw_max_output_bytes = Some (max_output_bytes limits)\<rparr>
           in case run_to_json c wire of
                Inl e \<Rightarrow> (Inl (Internal [Ext e]), k, s)
              | Inr payload \<Rightarrow>
                  (case send \<lparr>rq_method = POST, rq_path = url, rq_query = [], rq_body = Some payload\<rparr> s of
                     (Inl e, s) \<Rightarrow> (Inl (map_transport_error e), k, s)
                   | (Inr response, s) \<Rightarrow>
                       (if \<not> is_success (hr_status response) then
                          (case read_bounded [] (hr_chunks response) of
                             Inl e \<Rightarrow> (Inl e, k, s)
                           | Inr bs \<Rightarrow> (Inl (parse_error_body c (hr_status response) bs), k, s))
                        else case require_content_type response RUN_CONTENT_TYPE of
                            Inl e \<Rightarrow> (Inl e, k, s)
                          | Inr _ \<Rightarrow>
                              (case receive_loop (stream_events cancel_at (hr_chunks response)) new_decoder k of
                                 (r, k') \<Rightarrow> (r, k', s))))))"

definition http_memory_client :: "codec \<Rightarrow> 's transport \<Rightarrow> http_client \<Rightarrow> nat option \<Rightarrow> 's memory_client" where
  "http_memory_client c send hc cancel_at = \<lparr>
     mc_write_page = http_write_page c send hc,
     mc_read_page = http_read_page c send hc,
     mc_move_page = http_move_page c send hc,
     mc_remove_page = http_remove_page c send hc,
     mc_list_pages = http_list_pages c send hc,
     mc_query_pages = http_query_pages c send hc,
     mc_list_tags = http_list_tags c send hc,
     mc_links = http_links c send hc,
     mc_check = http_check c send hc,
     mc_run_command = http_run_command c send hc cancel_at\<rparr>"

section \<open>Talking to the adapter\<close>

definition wire_response :: "codec \<Rightarrow> api_response \<Rightarrow> http_response" where
  "wire_response c r =
     (case rs_body r of
        NoBody \<Rightarrow> \<lparr>hr_status = rs_status r, hr_content_type = None, hr_chunks = []\<rparr>
      | StreamBody _ _ \<Rightarrow> \<lparr>hr_status = rs_status r, hr_content_type = Some RUN_CONTENT_TYPE, hr_chunks = []\<rparr>
      | b \<Rightarrow> \<lparr>hr_status = rs_status r, hr_content_type = Some JSON_CONTENT_TYPE, hr_chunks = [Inr (to_json c b)]\<rparr>)"

text \<open>A transport that hands the request to the adapter over a client.\<close>

definition loop_send :: "codec \<Rightarrow> nat \<Rightarrow> 's memory_client \<Rightarrow> 's transport" where
  "loop_send c m client rq s = (case serve_request c m client rq s of (r, s') \<Rightarrow> (Inr (wire_response c r), s'))"

definition map_err :: "(memory_error, 'a, 's) outcome \<Rightarrow> (memory_error, 'a, 's) outcome" where
  "map_err r = (case r of (Inl e, s) \<Rightarrow> (Inl (wire_error e), s) | (Inr x, s) \<Rightarrow> (Inr x, s))"

text \<open>The codec carries a body: reading back what it wrote gives the same value, within the size limit.\<close>

definition carried :: "codec \<Rightarrow> (bytes \<Rightarrow> (string, 'a) result) \<Rightarrow> api_body \<Rightarrow> 'a \<Rightarrow> bool" where
  "carried c dec b x \<longleftrightarrow> dec (to_json c b) = Inr x \<and> length (to_json c b) \<le> MAX_JSON_RESPONSE_BYTES"

definition carries :: "codec \<Rightarrow> (bytes \<Rightarrow> (string, 'a) result) \<Rightarrow> ('a \<Rightarrow> api_body) \<Rightarrow> (memory_error, 'a, 's) outcome \<Rightarrow> bool" where
  "carries c dec B r =
     (case fst r of
        Inr x \<Rightarrow> carried c dec (B x) x
      | Inl e \<Rightarrow> carried c (json_error c) (ErrorResponse (from_error e)) (from_error e))"

definition json_kind :: "api_body \<Rightarrow> bool" where
  "json_kind b = (case b of NoBody \<Rightarrow> False | StreamBody _ _ \<Rightarrow> False | _ \<Rightarrow> True)"

definition good_base :: "http_client \<Rightarrow> bool" where
  "good_base hc = (case hc_base hc of Inl _ \<Rightarrow> False | Inr url \<Rightarrow> url_is_base url)"

lemma endpoint_path_ok:
  assumes "good_base hc"
  shows "endpoint_path hc ''/v1/pages'' = Inr ''/v1/pages''"
    "endpoint_path hc ''/v1/pages/content'' = Inr ''/v1/pages/content''"
    "endpoint_path hc ''/v1/pages/move'' = Inr ''/v1/pages/move''"
    "endpoint_path hc ''/v1/tags'' = Inr ''/v1/tags''"
    "endpoint_path hc ''/v1/links'' = Inr ''/v1/links''"
    "endpoint_path hc ''/v1/check'' = Inr ''/v1/check''"
  using assms by (auto simp: good_base_def endpoint_path_def split: sum.splits)

lemma trim_json: "trim (hd (split_on (CHR '';'') JSON_CONTENT_TYPE)) = JSON_CONTENT_TYPE"
  by code_simp

lemma content_type_ok: "json_kind b \<Longrightarrow> require_content_type (wire_response c (\<lparr>rs_status = n, rs_body = b\<rparr>)) JSON_CONTENT_TYPE = Inr ()"
  by (cases b) (simp_all add: json_kind_def require_content_type_def wire_response_def trim_json Let_def)

lemma wire_response_json:
  "json_kind b \<Longrightarrow> hr_status (wire_response c \<lparr>rs_status = n, rs_body = b\<rparr>) = n"
  "json_kind b \<Longrightarrow> hr_chunks (wire_response c \<lparr>rs_status = n, rs_body = b\<rparr>) = [Inr (to_json c b)]"
  by (cases b; simp add: json_kind_def wire_response_def)+

lemma status_not_success: "\<not> is_success (status_for e)" "status_for e \<noteq> 204"
  using status_for_error [of e] by (auto simp: is_success_def)

text \<open>What the client does with a response the adapter made of an error or of a value.\<close>

lemma json_request_handled:
  assumes "endpoint_path hc path = Inr path" "bd = map_option Inr payload"
    and "serve_request c m client \<lparr>rq_method = meth, rq_path = path, rq_query = query, rq_body = payload\<rparr> s =
      into_response (try_io r (\<lambda>x s. (Inr (ok_json (B x)), s)))"
    and "carries c dec B r" "\<And>x. json_kind (B x)"
  shows "json_request c (loop_send c m client) hc dec meth path query bd s = map_err r"
proof -
  have body: "(case bd of None \<Rightarrow> (Inr None, s) | Some (Inl e) \<Rightarrow> (Inl (Internal [Ext e]), s) | Some (Inr p) \<Rightarrow> (Inr (Some p), s)) = (Inr payload, s)"
    by (simp add: assms(2) split: option.splits)
  obtain v s' where r: "r = (v, s')" by (cases r)
  have ek: "json_kind (ErrorResponse x)" for x by (simp add: json_kind_def)
  show ?thesis
  proof (cases v)
    case (Inl e)
    then have "loop_send c m client \<lparr>rq_method = meth, rq_path = path, rq_query = query, rq_body = payload\<rparr> s =
      (Inr (wire_response c \<lparr>rs_status = status_for e, rs_body = ErrorResponse (from_error e)\<rparr>), s')"
      by (simp add: loop_send_def assms(3) r into_response_def)
    then show ?thesis using assms(4) ek
      by (simp add: json_request_def json_request_raw_def assms(1) body r Inl wire_response_json status_not_success carries_def
          carried_def parse_error_body_def map_err_def wire_error_def)
  next
    case (Inr x)
    then have "loop_send c m client \<lparr>rq_method = meth, rq_path = path, rq_query = query, rq_body = payload\<rparr> s =
      (Inr (wire_response c \<lparr>rs_status = 200, rs_body = B x\<rparr>), s')"
      by (simp add: loop_send_def assms(3) r into_response_def ok_json_def)
    then show ?thesis using assms(4,5)
      by (simp add: json_request_def json_request_raw_def assms(1) body r Inr wire_response_json is_success_def carries_def
          carried_def content_type_ok map_err_def)
  qed
qed

lemma route_simps:
  "map_of routes ''/v1/pages'' = Some [(GET, EpListPages)]"
  "map_of routes ''/v1/pages/content'' = Some [(GET, EpReadPage), (PUT, EpWritePage), (DELETE, EpRemovePage)]"
  "map_of routes ''/v1/pages/move'' = Some [(POST, EpMovePage)]"
  "map_of routes ''/v1/tags'' = Some [(GET, EpListTags)]"
  "map_of routes ''/v1/links'' = Some [(GET, EpLinks)]"
  "map_of routes ''/v1/check'' = Some [(GET, EpCheck)]"
  by (simp_all add: routes_def)

text \<open>A path that its logical form names, as every path that does not end in \<^verbatim>\<open>.md\<close> and is within the
  length limit.\<close>

definition stable_path :: "page_path \<Rightarrow> bool" where
  "stable_path p \<longleftrightarrow> page_path_parse (as_str p) = Inr p"

lemma request_eta:
  "\<lparr>mv_source = mv_source r, mv_destination = mv_destination r, mv_expected_revision = mv_expected_revision r,
     mv_actor = mv_actor r\<rparr> = (r :: move_page_request)"
  "\<lparr>rm_path = rm_path q, rm_expected_revision = rm_expected_revision q\<rparr> = (q :: remove_page_request)"
  "\<lparr>wr_path = wr_path w, wr_title = wr_title w, wr_tags = wr_tags w, wr_body = wr_body w, wr_overwrite = wr_overwrite w,
     wr_expected_revision = wr_expected_revision w, wr_actor = wr_actor w\<rparr> = (w :: write_page_request)"
  by (auto intro!: move_page_request.equality remove_page_request.equality write_page_request.equality)

lemma http_list_tags_loop:
  assumes "good_base hc" "carries c (json_tags c) TagsBody (mc_list_tags client s)"
  shows "http_list_tags c (loop_send c m client) hc s = map_err (mc_list_tags client s)"
  unfolding http_list_tags_def
  by (rule json_request_handled [where payload = None and B = TagsBody])
     (simp_all add: assms endpoint_path_ok serve_request_def handle_def route_simps srv_list_tags_def body_bytes_def json_kind_def)

lemma http_check_loop:
  assumes "good_base hc" "carries c (json_check c) CheckBody (mc_check client s)"
  shows "http_check c (loop_send c m client) hc s = map_err (mc_check client s)"
  unfolding http_check_def
  by (rule json_request_handled [where payload = None and B = CheckBody])
     (simp_all add: assms endpoint_path_ok serve_request_def handle_def route_simps srv_check_def body_bytes_def json_kind_def)

lemma http_links_loop:
  assumes "good_base hc" "stable_path p" "carries c (json_links c) LinksBody (mc_links client p b s)"
  shows "http_links c (loop_send c m client) hc p b s = map_err (mc_links client p b s)"
  unfolding http_links_def
  by (rule json_request_handled [where payload = None and B = LinksBody])
     (use assms in \<open>simp_all add: endpoint_path_ok serve_request_def handle_def route_simps srv_links_def body_bytes_def json_kind_def
        links_query_of_def pairs_ok_def show_bool_def parse_bool_def stable_path_def\<close>)

lemma http_move_loop:
  assumes "good_base hc" "stable_path (mv_source req)" "stable_path (mv_destination req)"
    and "move_to_json c \<lparr>mw_source = as_str (mv_source req), mw_destination = as_str (mv_destination req),
                  mw_expected_revision = mv_expected_revision req, mw_actor = mv_actor req\<rparr> = Inr payload"
    and "move_of_json c payload = Inr \<lparr>mw_source = as_str (mv_source req), mw_destination = as_str (mv_destination req),
                  mw_expected_revision = mv_expected_revision req, mw_actor = mv_actor req\<rparr>"
    and "length payload \<le> m" "carries c (json_move c) MoveBody (mc_move_page client req s)"
  shows "http_move_page c (loop_send c m client) hc req s = map_err (mc_move_page client req s)"
  unfolding http_move_page_def Let_def
  by (rule json_request_handled [where payload = "Some payload" and B = MoveBody])
     (use assms in \<open>simp_all add: endpoint_path_ok serve_request_def handle_def route_simps srv_move_page_def body_bytes_def json_kind_def
        stable_path_def request_eta\<close>)

lemma http_remove_loop:
  assumes "good_base hc" "stable_path (rm_path req)"
    and "\<And>e s'. mc_remove_page client req s = (Inl e, s') \<Longrightarrow> carried c (json_error c) (ErrorResponse (from_error e)) (from_error e)"
  shows "http_remove_page c (loop_send c m client) hc req s = map_err (mc_remove_page client req s)"
proof -
  obtain v s' where r: "mc_remove_page client req s = (v, s')" by force
  let ?q = "(''path'', as_str (rm_path req)) # (case rm_expected_revision req of Some e \<Rightarrow> [(''expected_revision'', e)] | None \<Rightarrow> [])"
  have q: "content_query_of ?q = Some \<lparr>cq_path = as_str (rm_path req), cq_expected_revision = rm_expected_revision req\<rparr>"
    by (auto simp: content_query_of_def pairs_ok_def split: option.splits)
  have sv: "serve_request c m client \<lparr>rq_method = DELETE, rq_path = ''/v1/pages/content'', rq_query = ?q, rq_body = None\<rparr> s =
      into_response (try_io (v, s') (\<lambda>_ s. (Inr \<lparr>rs_status = 204, rs_body = NoBody\<rparr>, s)))"
    using assms(2) r by (simp add: serve_request_def route_simps handle_def q srv_remove_page_def stable_path_def body_bytes_def request_eta)
  have ek: "json_kind (ErrorResponse x)" for x by (simp add: json_kind_def)
  show ?thesis
  proof (cases v)
    case (Inl e)
    then show ?thesis using assms(3) [of e s'] r ek
      by (simp add: http_remove_page_def json_request_no_content_def endpoint_path_ok [OF assms(1)] loop_send_def sv into_response_def
          wire_response_json status_not_success carried_def parse_error_body_def map_err_def wire_error_def)
  next
    case (Inr u)
    then show ?thesis using r
      by (simp add: http_remove_page_def json_request_no_content_def endpoint_path_ok [OF assms(1)] loop_send_def sv into_response_def
          wire_response_def map_err_def)
  qed
qed

text \<open>Reading and writing a page make the adapter also compute the outgoing links.\<close>

definition page_with_links :: "'s memory_client \<Rightarrow> (memory_error, page, 's) outcome \<Rightarrow> (memory_error, page \<times> links_report, 's) outcome" where
  "page_with_links client r =
     try_io r (\<lambda>pg s. try_io (mc_links client (page_path_of pg) False s) (\<lambda>rep s. (Inr (pg, rep), s)))"

definition page_of_pair :: "page \<times> links_report \<Rightarrow> page_wire" where
  "page_of_pair x = from_page (fst x) (lr_outgoing (snd x))"

lemma page_reply:
  assumes "endpoint_path hc path = Inr path" "bd = map_option Inr payload"
    and "serve_request c m client \<lparr>rq_method = meth, rq_path = path, rq_query = query, rq_body = payload\<rparr> s =
      into_response (try_io (page_with_links client r) (\<lambda>x s. (Inr (ok_json (PageBody (page_of_pair x))), s)))"
    and "carries c (json_page c) PageBody (try_io (page_with_links client r) (\<lambda>x s. (Inr (page_of_pair x), s)))"
    and "\<And>pg s'. r = (Inr pg, s') \<Longrightarrow> stable_path (page_path_of pg)"
  shows "try_io (json_request c (loop_send c m client) hc (json_page c) meth path query bd s) (\<lambda>pw s. (page_try_from pw, s)) =
    map_err (try_io (page_with_links client r) (\<lambda>x s. (Inr (fst x), s)))"
proof -
  let ?r = "try_io (page_with_links client r) (\<lambda>x s. (Inr (page_of_pair x), s))"
  have "into_response (try_io (page_with_links client r) (\<lambda>x s. (Inr (ok_json (PageBody (page_of_pair x))), s))) =
    into_response (try_io ?r (\<lambda>x s. (Inr (ok_json (PageBody x)), s)))"
    by (cases "page_with_links client r"; cases "fst (page_with_links client r)") auto
  from json_request_handled [OF assms(1,2) assms(3) [unfolded this] assms(4)]
  have j: "json_request c (loop_send c m client) hc (json_page c) meth path query bd s = map_err ?r"
    by (simp add: json_kind_def)
  obtain v s' where p: "page_with_links client r = (v, s')" by force
  show ?thesis
  proof (cases v)
    case (Inl e)
    then show ?thesis by (simp add: j p map_err_def)
  next
    case (Inr x)
    then obtain pg s1 where "r = (Inr pg, s1)" "fst x = pg"
      using p by (auto simp: page_with_links_def try_io_Inr_iff)
    then have "stable_path (page_path_of (fst x))" using assms(5) by simp
    then show ?thesis by (simp add: j p Inr map_err_def page_of_pair_def page_wire_round_trip stable_path_def)
  qed
qed

lemma http_read_loop:
  assumes "good_base hc" "stable_path p"
    and "\<And>pg s'. mc_read_page client p s = (Inr pg, s') \<Longrightarrow> page_path_of pg = p"
    and "carries c (json_page c) PageBody (try_io (page_with_links client (mc_read_page client p s)) (\<lambda>x s. (Inr (page_of_pair x), s)))"
  shows "http_read_page c (loop_send c m client) hc p s =
    map_err (try_io (page_with_links client (mc_read_page client p s)) (\<lambda>x s. (Inr (fst x), s)))"
proof -
  have "srv_read_page client \<lparr>cq_path = as_str p, cq_expected_revision = None\<rparr> s =
    try_io (page_with_links client (mc_read_page client p s)) (\<lambda>x s. (Inr (ok_json (PageBody (page_of_pair x))), s))"
    using assms(2,3)
    by (cases "mc_read_page client p s"; cases "fst (mc_read_page client p s)")
       (auto simp: srv_read_page_def page_with_links_def stable_path_def page_of_pair_def try_io_def split: sum.splits prod.splits)
  then show ?thesis
    unfolding http_read_page_def
    by (intro page_reply [where payload = None])
       (use assms in \<open>simp_all add: endpoint_path_ok serve_request_def handle_def route_simps content_query_of_def pairs_ok_def
          body_bytes_def\<close>)
qed

lemma http_write_loop:
  fixes req :: write_page_request
  defines "wire \<equiv> \<lparr>ww_title = wr_title req, ww_tags = wr_tags req, ww_body = wr_body req, ww_overwrite = wr_overwrite req,
                  ww_expected_revision = wr_expected_revision req, ww_actor = wr_actor req\<rparr>"
  assumes "good_base hc" "stable_path (wr_path req)"
    and "\<And>pg s'. mc_write_page client req s = (Inr pg, s') \<Longrightarrow> page_path_of pg = wr_path req"
    and "write_to_json c wire = Inr payload" "write_of_json c payload = Inr wire" "length payload \<le> m"
    and "carries c (json_page c) PageBody (try_io (page_with_links client (mc_write_page client req s)) (\<lambda>x s. (Inr (page_of_pair x), s)))"
  shows "http_write_page c (loop_send c m client) hc req s =
    map_err (try_io (page_with_links client (mc_write_page client req s)) (\<lambda>x s. (Inr (fst x), s)))"
proof -
  have sv: "srv_write_page client \<lparr>cq_path = as_str (wr_path req), cq_expected_revision = None\<rparr> wire s =
    try_io (page_with_links client (mc_write_page client req s)) (\<lambda>x s. (Inr (ok_json (PageBody (page_of_pair x))), s))"
    using assms(3)
    by (cases "mc_write_page client req s"; cases "fst (mc_write_page client req s)")
       (auto simp: srv_write_page_def page_with_links_def stable_path_def page_of_pair_def try_io_def wire_def request_eta
          split: sum.splits prod.splits)
  show ?thesis
    unfolding http_write_page_def Let_def wire_def [symmetric]
    by (intro page_reply [where payload = "Some payload"])
       (use assms(2-) sv in \<open>simp_all add: endpoint_path_ok serve_request_def handle_def route_simps content_query_of_def pairs_ok_def
          body_bytes_def\<close>)
qed

section \<open>Filters on the wire\<close>

lemma digit_val_char: "k < 10 \<Longrightarrow> digit_val (digit_char k) = Some k"
  by (simp add: digit_val_def digit_char_def in_range_def byte_val_def)

lemma digits_val_append:
  "digits_val acc (xs @ ys) = Option.bind (digits_val acc xs) (\<lambda>a. digits_val a ys)"
  by (induction acc xs rule: digits_val.induct) (auto split: option.splits)

lemma digits_val_show: "n < 2 ^ 64 \<Longrightarrow> digits_val 0 (show_nat n) = Some n"
proof (induction n rule: show_nat.induct)
  case (1 n)
  show ?case
  proof (cases "n < 10")
    case True
    then show ?thesis by (simp add: show_nat.simps [of n] digit_val_char)
  next
    case False
    have "n div 10 < 2 ^ 64" using 1(2) by (meson div_le_dividend le_less_trans)
    then have "digits_val 0 (show_nat (n div 10)) = Some (n div 10)" using 1(1) False by simp
    then show ?thesis using 1(2) False by (simp add: show_nat.simps [of n] digits_val_append digit_val_char)
  qed
qed

lemma show_nat_plus: "show_nat n \<noteq> [] \<and> hd (show_nat n) \<noteq> CHR ''+''"
proof (induction n rule: show_nat.induct)
  case (1 n)
  have "digit_char k \<noteq> CHR ''+''" if "k < 10" for k
    using digit_val_char [OF that] by (auto simp: digit_val_def in_range_def byte_val_def split: if_splits)
  then show ?case using 1 by (cases "n < 10") (simp_all add: show_nat.simps [of n])
qed

lemma parse_usize_show: "n < 2 ^ 64 \<Longrightarrow> parse_usize (show_nat n) = Some n"
  using show_nat_plus [of n] digits_val_show [of n] by (cases "show_nat n") (auto simp: parse_usize_def)

text \<open>Tags that survive the comma-separated form.\<close>

definition plain_tag :: "string \<Rightarrow> bool" where
  "plain_tag t \<longleftrightarrow> t \<noteq> [] \<and> CHR '','' \<notin> set t \<and> trim t = t"

definition wire_filter :: "list_filter \<Rightarrow> bool" where
  "wire_filter f \<longleftrightarrow> list_all plain_tag (lf_with_tags f) \<and> (case lf_limit f of Some n \<Rightarrow> n < 2 ^ 64 | None \<Rightarrow> True)"

lemma query_of_filter:
  assumes "wire_filter f"
  obtains q where "list_pages_query_of (list_filter_query f tx) = Some q" "lq_under q = map_option as_str (lf_under f)"
    "query_tags q = lf_with_tags f" "lq_limit q = lf_limit f" "lq_text q = (if tx = Some [] then None else tx)"
proof -
  have tags: "filter (\<lambda>t. t \<noteq> []) (map trim (split_on (CHR '','') (join_with '','' ts))) = ts" if "ts \<noteq> []" "list_all plain_tag ts" for ts
  proof -
    have "split_on (CHR '','') (join_with '','' ts) = ts" using that by (intro split_join) (auto simp: plain_tag_def list_all_iff)
    moreover have "map trim ts = ts" using that(2) by (intro map_idI) (auto simp: plain_tag_def list_all_iff)
    ultimately show ?thesis using that(2) by (auto simp: filter_id_conv list_all_iff plain_tag_def)
  qed
  show ?thesis
  proof
    let ?q = "\<lparr>lq_under = map_option as_str (lf_under f),
      lq_with_tag = (if lf_with_tags f = [] then None else Some (join_with '','' (lf_with_tags f))), lq_limit = lf_limit f,
      lq_text = (if tx = Some [] then None else tx)\<rparr>"
    show "list_pages_query_of (list_filter_query f tx) = Some ?q"
      using assms parse_usize_show
      by (cases "lf_under f"; cases "lf_limit f"; cases tx) (auto simp: list_pages_query_of_def list_filter_query_def pairs_ok_def wire_filter_def)
    show "query_tags ?q = lf_with_tags f" using tags [of "lf_with_tags f"] assms by (auto simp: query_tags_def wire_filter_def)
  qed simp_all
qed

end
