(* ===== verification/Memory_Cli.thy ===== *)
theory Memory_Cli
  imports Http_Client
begin

text \<open>
  The command line of the memory service (\<^verbatim>\<open>services/memory_rs/src/cli.rs\<close>): every command over an
  arbitrary client, with what it prints and the exit code it returns; and the choice of the backend
  (\<^verbatim>\<open>runtime.rs\<close>).  Environment variables, the body source and the command's sinks are arguments.
\<close>

section \<open>Arguments\<close>

record filter_args =
  fa_under :: "string option"
  fa_with_tag :: "string list"
  fa_limit :: "nat option"

datatype commands =
    CmdWrite string "string option" "string list" "string option" bool "string option"
  | CmdRead string
  | CmdMove string string "string option"
  | CmdRm string "string option"
  | CmdPagesLs filter_args
  | CmdQuery string filter_args
  | CmdTagsLs
  | CmdLinks string bool
  | CmdCheck
  | CmdRun "string list"

record memory_args =
  arg_root :: "string option"
  arg_uri :: "string option"
  arg_serve :: bool
  arg_host :: string
  arg_port :: "16 word"
  arg_command :: "commands option"

definition into_filter :: "filter_args \<Rightarrow> (memory_error, list_filter) result" where
  "into_filter fa =
     try_res (parse_opt (fa_under fa)) (\<lambda>u.
       Inr \<lparr>lf_under = u, lf_with_tags = fa_with_tag fa, lf_limit = fa_limit fa\<rparr>)"

section \<open>Output\<close>

record written_page =
  wp_path :: string
  wp_title :: string
  wp_tags :: "string list"
  wp_revision :: string

record read_view =
  rv_path :: string
  rv_title :: string
  rv_tags :: "string list"
  rv_revision :: string
  rv_created_at :: datetime
  rv_updated_at :: datetime
  rv_body :: string
  rv_outgoing_links :: "page_link list"

text \<open>The values printed as JSON.\<close>

datatype json_output =
    JWritten written_page
  | JRead read_view
  | JMove move_outcome
  | JRemoved string
  | JPages "page_summary list"
  | JTags "tag_count list"
  | JLinks links_report
  | JCheck check_report

datatype cli_output =
    Line message
  | Raw string
  | Json json_output
  | ErrLine message
  | ErrJson string message

definition print_error :: "memory_error \<Rightarrow> bool \<Rightarrow> cli_output list" where
  "print_error e json =
     (if json then [ErrJson (kind e) (display_error e)]
      else [ErrLine (Txt ''agentspace memory: '' # display_error e)])"

definition print_value :: "json_output \<Rightarrow> bool \<Rightarrow> cli_output list \<Rightarrow> cli_output list" where
  "print_value v json human = (if json then [Json v] else human)"

definition page_summary_json :: "page \<Rightarrow> written_page" where
  "page_summary_json pg = \<lparr>wp_path = as_str (page_path_of pg), wp_title = title (metadata pg), wp_tags = tags (metadata pg),
     wp_revision = page_revision pg\<rparr>"

definition print_summaries :: "page_summary list \<Rightarrow> bool \<Rightarrow> cli_output list" where
  "print_summaries ps json = print_value (JPages ps) json
     (if ps = [] then [Line (lit ''(no pages)'')]
      else map (\<lambda>p. Line [Txt (ps_path p), Txt [CHR 0x09], Txt (ps_title p), Txt [CHR 0x09], Txt ''['',
              Txt (join_with '', '' (ps_tags p)), Txt '']'']) ps)"

section \<open>Commands\<close>

text \<open>The environment a command reads: the body source (a file or standard input) and the actor.\<close>

record cli_env =
  read_body :: "string option \<Rightarrow> (io_error, string) result"
  agent_id :: "string option"

type_synonym 's cli_result = "(memory_error, int \<times> cli_output list, 's) outcome"

definition cli_write ::
  "cli_env \<Rightarrow> 's memory_client \<Rightarrow> bool \<Rightarrow> string \<Rightarrow> string option \<Rightarrow> string list \<Rightarrow> string option \<Rightarrow> bool \<Rightarrow> string option \<Rightarrow> 's \<Rightarrow> 's cli_result" where
  "cli_write env client json path ttl tgs file overwrite if_revision s =
     try_io (page_path_parse path, s) (\<lambda>page_path s.
     try_io (case read_body env file of Inl e \<Rightarrow> (Inl (Io e), s) | Inr b \<Rightarrow> (Inr b, s)) (\<lambda>b s.
     try_io (mc_write_page client \<lparr>wr_path = page_path, wr_title = ttl, wr_tags = (if tgs = [] then None else Some tgs),
               wr_body = b, wr_overwrite = overwrite, wr_expected_revision = if_revision, wr_actor = agent_id env\<rparr> s) (\<lambda>pg s.
     (Inr (0, print_value (JWritten (page_summary_json pg)) json
        [Line [Txt ''wrote '', Txt (as_str (page_path_of pg)), Txt '' (revision '', Txt (page_revision pg), Txt '')'']]), s))))"

definition cli_read :: "'s memory_client \<Rightarrow> bool \<Rightarrow> string \<Rightarrow> 's \<Rightarrow> 's cli_result" where
  "cli_read client json path s =
     try_io (page_path_parse path, s) (\<lambda>page_path s.
     try_io (mc_read_page client page_path s) (\<lambda>pg s.
     if json then
       try_io (mc_links client page_path False s) (\<lambda>rep s.
       (Inr (0, print_value (JRead \<lparr>rv_path = as_str (page_path_of pg), rv_title = title (metadata pg), rv_tags = tags (metadata pg),
           rv_revision = page_revision pg, rv_created_at = created_at (metadata pg), rv_updated_at = updated_at (metadata pg),
           rv_body = body pg, rv_outgoing_links = lr_outgoing rep\<rparr>) True []), s))
     else
       (Inr (0, [Line [Txt ''# '', Txt (title (metadata pg)), Txt '' ('', Txt (as_str (page_path_of pg)), Txt '')''],
                 Line [Txt ''tags: '', Txt (join_with '', '' (tags (metadata pg)))],
                 Line [Txt ''revision: '', Txt (page_revision pg)], Line [], Raw (body pg)]), s)))"

text \<open>\<^verbatim>\<open>move_page\<close>: the arguments of the request are parsed in order.\<close>

definition cli_move :: "cli_env \<Rightarrow> 's memory_client \<Rightarrow> bool \<Rightarrow> string \<Rightarrow> string \<Rightarrow> string option \<Rightarrow> 's \<Rightarrow> 's cli_result" where
  "cli_move env client json source destination if_revision s =
     try_io (page_path_parse source, s) (\<lambda>src s.
     try_io (page_path_parse destination, s) (\<lambda>dst s.
     try_io (mc_move_page client \<lparr>mv_source = src, mv_destination = dst, mv_expected_revision = if_revision,
               mv_actor = agent_id env\<rparr> s) (\<lambda>out s.
     (Inr (0, print_value (JMove out) json
        (Line [Txt ''moved '', Txt (mo_source out), Txt '' -> '', Txt (mo_destination out)] #
         (if mo_updated_referrers out = [] then []
          else [Line [Txt ''updated links in: '', Txt (join_with '', '' (mo_updated_referrers out))]]))), s))))"

definition cli_remove :: "'s memory_client \<Rightarrow> bool \<Rightarrow> string \<Rightarrow> string option \<Rightarrow> 's \<Rightarrow> 's cli_result" where
  "cli_remove client json path if_revision s =
     try_io (page_path_parse path, s) (\<lambda>page_path s.
     try_io (mc_remove_page client \<lparr>rm_path = page_path, rm_expected_revision = if_revision\<rparr> s) (\<lambda>_ s.
     (Inr (0, print_value (JRemoved (as_str page_path)) json [Line [Txt ''removed '', Txt path]]), s)))"

definition cli_list_pages :: "'s memory_client \<Rightarrow> bool \<Rightarrow> filter_args \<Rightarrow> 's \<Rightarrow> 's cli_result" where
  "cli_list_pages client json fa s =
     try_io (into_filter fa, s) (\<lambda>f s.
     try_io (mc_list_pages client f s) (\<lambda>ps s. (Inr (0, print_summaries ps json), s)))"

definition cli_query :: "'s memory_client \<Rightarrow> bool \<Rightarrow> string \<Rightarrow> filter_args \<Rightarrow> 's \<Rightarrow> 's cli_result" where
  "cli_query client json tx fa s =
     try_io (into_filter fa, s) (\<lambda>f s.
     try_io (mc_query_pages client \<lparr>qr_text = tx, qr_filter = f\<rparr> s) (\<lambda>ps s. (Inr (0, print_summaries ps json), s)))"

definition cli_list_tags :: "'s memory_client \<Rightarrow> bool \<Rightarrow> 's \<Rightarrow> 's cli_result" where
  "cli_list_tags client json s =
     try_io (mc_list_tags client s) (\<lambda>ts s.
     (Inr (0, print_value (JTags ts) json
        (if ts = [] then [Line (lit ''(no tags)'')]
         else map (\<lambda>t. Line [Txt (tc_tag t), Txt [CHR 0x09], Txt (show_nat (tc_count t))]) ts)), s))"

definition link_line :: "page_link \<Rightarrow> cli_output" where
  "link_line l = Line [Txt ''  ['', Txt (pl_text l), Txt '']('',
     Txt (case pl_resolved_path l of Some p \<Rightarrow> p | None \<Rightarrow> pl_raw_target l), Txt '')'',
     Txt (if pl_broken l then '' (broken)'' else [])]"

definition backlink_line :: "backlink \<Rightarrow> cli_output" where
  "backlink_line b = Line [Txt ''  '', Txt (bl_from b), Txt '' -> ['', Txt (bl_text b), Txt '']('', Txt (bl_raw_target b), Txt '')'']"

definition cli_links :: "'s memory_client \<Rightarrow> bool \<Rightarrow> string \<Rightarrow> bool \<Rightarrow> 's \<Rightarrow> 's cli_result" where
  "cli_links client json path back s =
     try_io (page_path_parse path, s) (\<lambda>page_path s.
     try_io (mc_links client page_path back s) (\<lambda>rep s.
     (Inr (0, print_value (JLinks rep) json
        (Line [Txt ''outgoing links for '', Txt (lr_path rep), Txt '':''] #
         (if lr_outgoing rep = [] then [Line (lit ''  (none)'')] else []) @ map link_line (lr_outgoing rep) @
         (if back then
            Line (lit ''backlinks:'') # (if lr_backlinks rep = [] then [Line (lit ''  (none)'')] else []) @
            map backlink_line (lr_backlinks rep)
          else []))), s)))"

definition cli_check :: "'s memory_client \<Rightarrow> bool \<Rightarrow> 's \<Rightarrow> 's cli_result" where
  "cli_check client json s =
     try_io (mc_check client s) (\<lambda>rep s.
     (Inr (if is_clean rep then 0 else 1, print_value (JCheck rep) json
        (if is_clean rep then [Line (lit ''no issues found'')]
         else map (\<lambda>i. case ci_path i of
             Some p \<Rightarrow> Line (Txt p # Txt '': '' # ci_message i) | None \<Rightarrow> Line (ci_message i)) (cr_issues rep))), s))"

text \<open>\<^verbatim>\<open>run_command\<close>: the outcome as an exit code or an error.\<close>

fun outcome_code :: "run_outcome \<Rightarrow> (memory_error, int) result" where
  "outcome_code (Exited code) = Inr (sint code)"
| "outcome_code TimedOut = Inl RunTimedOut"
| "outcome_code OutputLimitExceeded = Inl RunOutputLimitExceeded"
| "outcome_code Cancelled = Inl RunCancelled"
| "outcome_code (NotAllowed command) = Inl (CommandNotAllowed command)"
| "outcome_code (LaunchFailed message) = Inl (RunLaunchFailed [Txt message])"

definition cli_run_command :: "'s memory_client \<Rightarrow> string list \<Rightarrow> sinks \<Rightarrow> 's \<Rightarrow> (memory_error, int, sinks \<times> 's) outcome" where
  "cli_run_command client argv k s =
     (if argv = [] then (Inl (CommandNotAllowed MISSING_COMMAND), k, s)
      else try_io (mc_run_command client argv default_limits k s) (\<lambda>oc s. (outcome_code oc, s)))"

definition execute :: "cli_env \<Rightarrow> commands \<Rightarrow> 's memory_client \<Rightarrow> bool \<Rightarrow> sinks \<Rightarrow> 's \<Rightarrow> (memory_error, int \<times> cli_output list, sinks \<times> 's) outcome" where
  "execute env command client json k s =
     (let lift = (\<lambda>(r, s'). (r, k, s')) in
      case command of
        CmdWrite path ttl tgs file overwrite if_revision \<Rightarrow> lift (cli_write env client json path ttl tgs file overwrite if_revision s)
      | CmdRead path \<Rightarrow> lift (cli_read client json path s)
      | CmdMove source destination if_revision \<Rightarrow> lift (cli_move env client json source destination if_revision s)
      | CmdRm path if_revision \<Rightarrow> lift (cli_remove client json path if_revision s)
      | CmdPagesLs fa \<Rightarrow> lift (cli_list_pages client json fa s)
      | CmdQuery tx fa \<Rightarrow> lift (cli_query client json tx fa s)
      | CmdTagsLs \<Rightarrow> lift (cli_list_tags client json s)
      | CmdLinks path back \<Rightarrow> lift (cli_links client json path back s)
      | CmdCheck \<Rightarrow> lift (cli_check client json s)
      | CmdRun argv \<Rightarrow> try_io (cli_run_command client argv k s) (\<lambda>code s. (Inr (code, []), s)))"

definition cli_run :: "cli_env \<Rightarrow> memory_args \<Rightarrow> 's memory_client \<Rightarrow> bool \<Rightarrow> sinks \<Rightarrow> 's \<Rightarrow> int \<times> cli_output list \<times> sinks \<times> 's" where
  "cli_run env args client json k s =
     (case arg_command args of
        None \<Rightarrow> (2, [ErrLine (lit ''agentspace memory: no command given; see `agentspace memory --help`'')], k, s)
      | Some command \<Rightarrow>
          (case execute env command client json k s of
             (Inr (code, outp), st) \<Rightarrow> (code, outp, st)
           | (Inl e, st) \<Rightarrow> (exit_code_for e, print_error e json, st)))"

section \<open>Backend selection\<close>

datatype backend = Local string | Remote string

text \<open>\<open>env\<close> is \<^verbatim>\<open>std::env::var\<close>.\<close>

definition set_var :: "(string \<Rightarrow> string option) \<Rightarrow> string \<Rightarrow> string option" where
  "set_var env name = (case env name of Some v \<Rightarrow> (if v \<noteq> [] then Some v else None) | None \<Rightarrow> None)"

text \<open>\<^verbatim>\<open>PathBuf::join\<close> of a relative path.\<close>

definition join_path :: "string \<Rightarrow> string \<Rightarrow> string" where
  "join_path a b = (if a = [] \<or> last a = CHR ''/'' then a @ b else a @ ''/'' @ b)"

definition built_in_root :: "(string \<Rightarrow> string option) \<Rightarrow> string" where
  "built_in_root env =
     (case env ''HOME'' of None \<Rightarrow> ''.agentspace/memory'' | Some home \<Rightarrow> join_path home ''.local/share/agentspace/memory'')"

definition resolve_backend :: "(string \<Rightarrow> string option) \<Rightarrow> memory_args \<Rightarrow> backend" where
  "resolve_backend env args =
     (case arg_uri args of Some uri \<Rightarrow> Remote uri
      | None \<Rightarrow>
     (case arg_root args of Some root \<Rightarrow> Local root
      | None \<Rightarrow>
     (case set_var env ''AGENTSPACE_MEMORY_URI'' of Some uri \<Rightarrow> Remote uri
      | None \<Rightarrow>
     (case set_var env ''AGENTSPACE_MEMORY_DIR'' of Some dir \<Rightarrow> Local dir
      | None \<Rightarrow> Local (built_in_root env)))))"

definition resolve_serve_root :: "(string \<Rightarrow> string option) \<Rightarrow> memory_args \<Rightarrow> (message, string) result" where
  "resolve_serve_root env args =
     (case arg_root args of Some root \<Rightarrow> Inr root
      | None \<Rightarrow>
     (case set_var env ''AGENTSPACE_MEMORY_URI'' of
        Some uri \<Rightarrow> Inl [Txt ''--serve requires a local store, but AGENTSPACE_MEMORY_URI is set to '', Dbg uri,
          Txt ''; pass --root or set AGENTSPACE_MEMORY_DIR instead, or unset AGENTSPACE_MEMORY_URI'']
      | None \<Rightarrow>
     (case set_var env ''AGENTSPACE_MEMORY_DIR'' of Some dir \<Rightarrow> Inr dir
      | None \<Rightarrow> Inr (built_in_root env))))"

section \<open>Properties\<close>

text \<open>
  A failure is never reported as a success: the process exits with 0 exactly when a command was
  given and it succeeded with code 0.
\<close>

theorem cli_exit_zero:
  "fst (cli_run env args client json k s) = 0 \<longleftrightarrow>
     (\<exists>command outp st. arg_command args = Some command \<and> execute env command client json k s = (Inr (0, outp), st))"
  using exit_code_for_nonzero by (auto simp: cli_run_def split: option.splits sum.splits prod.splits)

lemma map_err_cases:
  "fst r = Inr x \<Longrightarrow> map_err r = r" "fst r = Inl e \<Longrightarrow> map_err r = (Inl (wire_error e), snd r)"
  by (cases r; simp add: map_err_def)+

text \<open>
  The served store is the one that one-shot commands use: without \<^verbatim>\<open>--uri\<close>, \<^verbatim>\<open>--serve\<close> resolves to
  a root exactly when the backend of a command is the local store at that root, and otherwise refuses.
\<close>

theorem serve_root_is_local_backend:
  assumes "arg_uri args = None"
  shows "resolve_serve_root env args = Inr root \<longleftrightarrow> resolve_backend env args = Local root"
  using assms by (auto simp: resolve_serve_root_def resolve_backend_def split: option.splits)

definition sample_args :: memory_args where
  "sample_args = \<lparr>arg_root = None, arg_uri = None, arg_serve = True, arg_host = ''127.0.0.1'', arg_port = 8005, arg_command = None\<rparr>"

theorem serve_root_is_local_backend_witness:
  "resolve_backend (\<lambda>_. None) sample_args = Local ''.agentspace/memory''"
  using serve_root_is_local_backend [of sample_args "\<lambda>_. None" "''.agentspace/memory''"]
  by (simp add: sample_args_def resolve_serve_root_def set_var_def built_in_root_def)

end
