(* ===== verification/Fs_Rollback.thy ===== *)
theory Fs_Rollback
  imports Memory_Store
begin

text \<open>
  The roll-back of \<^verbatim>\<open>commit_move\<close>: under a schedule with at most one failing rename and no failing
  stat or remove, a move that reports an error leaves every page as it was.  The proof follows the
  phases of the transaction: while originals are moved to their backups, and while staged files are
  installed, the state keeps enough to undo what has been done, and the one fault that is possible has
  been used up by the time the roll-back starts.
\<close>

section \<open>Schedules\<close>

definition no_faults :: "fs_op \<Rightarrow> fsys \<Rightarrow> bool" where
  "no_faults op s \<longleftrightarrow> (\<forall>n. faults s op n = None)"

definition one_fault :: "fs_op \<Rightarrow> fsys \<Rightarrow> bool" where
  "one_fault op s \<longleftrightarrow> (\<forall>m n. faults s op m \<noteq> None \<and> faults s op n \<noteq> None \<longrightarrow> m = n)"

definition recoverable :: "fsys \<Rightarrow> bool" where
  "recoverable s \<longleftrightarrow> no_faults OpStat s \<and> no_faults OpRemove s \<and> one_fault OpRename s"

text \<open>No rename from now on fails.\<close>

definition calm :: "fsys \<Rightarrow> bool" where
  "calm s \<longleftrightarrow> (\<forall>n \<ge> op_count s. faults s OpRename n = None)"

lemma recoverable_frame: "frame s s' \<Longrightarrow> recoverable s' = recoverable s"
  by (simp add: recoverable_def no_faults_def one_fault_def frame_def)

lemma calm_frame: "frame s s' \<Longrightarrow> calm s \<Longrightarrow> calm s'"
  by (simp add: calm_def frame_def)

section \<open>Calls that succeed\<close>

lemma strict_prefix_butlast: "p \<noteq> [] \<Longrightarrow> strict_prefix r p \<longleftrightarrow> prefix r (butlast p)"
  by (metis append_butlast_last_id prefix_snoc prefix_order.less_le strict_prefixI' prefix_snocD)

lemma sibling_parent:
  assumes "butlast p = butlast q" "p \<noteq> []" "q \<noteq> []"
  shows "parent_error s p = None \<longleftrightarrow> parent_error s q = None"
  using assms by (simp add: parent_error_None_iff strict_prefix_butlast)

text \<open>A rename whose structural conditions hold: it fails only by an injected fault.\<close>

definition can_rename :: "fpath \<Rightarrow> fpath \<Rightarrow> fsys \<Rightarrow> bool" where
  "can_rename p q s \<longleftrightarrow> (\<exists>b. lookup s p = Some (NFile b)) \<and> lookup s q \<noteq> Some NDir \<and> butlast p = butlast q"

lemma can_renameD:
  assumes "can_rename p q s" "fs_inv s"
  shows "p \<noteq> []" "q \<noteq> []" "lookup s q \<noteq> Some NDir" "parent_error s p = None" "parent_error s q = None"
proof -
  have l: "lookup s p \<noteq> None" "lookup s p \<noteq> Some NDir" "lookup s q \<noteq> Some NDir" "butlast p = butlast q"
    using assms(1) by (auto simp: can_rename_def)
  then show ne: "p \<noteq> []" "q \<noteq> []" and "lookup s q \<noteq> Some NDir" by auto
  show "parent_error s p = None" using assms(2) l(1) by (simp add: fs_inv_def)
  then show "parent_error s q = None" using sibling_parent [OF l(4) ne] by simp
qed

lemma rename_outcome:
  assumes "fs_rename p q s = (r, s')" "can_rename p q s" "fs_inv s"
  obtains (failed) e where "r = Inl e" "lookup s' = lookup s" "one_fault OpRename s \<Longrightarrow> calm s'"
    | (moved) b where "r = Inr ()" "lookup s p = Some (NFile b)" "lookup s' = (lookup s)(p := None, q \<mapsto> NFile b)"
proof -
  obtain b where b: "lookup s p = Some (NFile b)" using assms(2) by (auto simp: can_rename_def)
  note can = can_renameD [OF assms(2,3)]
  show thesis
  proof (cases "faults s OpRename (op_count s)")
    case None
    then have "r = Inr () \<and> lookup s' = (lookup s)(p := None, q \<mapsto> NFile b)"
      using assms(1) b can by (auto simp: fs_rename_def fs_prim_def under_dirs_def fun_eq_iff)
    then show thesis using moved b by blast
  next
    case (Some flt)
    then have "r = Inl (fault_error flt) \<and> s' = s\<lparr>op_count := Suc (op_count s)\<rparr>"
      using assms(1) by (simp add: fs_rename_def fs_prim_def Let_def)
    moreover have "calm s'" if "one_fault OpRename s"
      using Some that calculation by (auto simp: calm_def one_fault_def) (metis Suc_n_not_le_n option.exhaust)
    ultimately show thesis using failed by (metis lookup_op_count)
  qed
qed

lemma calm_rename:
  assumes "calm s" "can_rename p q s" "fs_inv s" "lookup s p = Some (NFile b)"
  shows "lookup (snd (fs_rename p q s)) = (lookup s)(p := None, q \<mapsto> NFile b)"
proof -
  have "faults s OpRename (op_count s) = None" using assms(1) by (simp add: calm_def)
  then show ?thesis using assms(4) can_renameD [OF assms(2,3)] by (auto simp: fs_rename_def fs_prim_def under_dirs_def fun_eq_iff)
qed

lemma quiet_remove:
  assumes "no_faults OpRemove s" "fs_inv s" "lookup s p = Some (NFile b)"
  shows "lookup (snd (fs_remove_file p s)) = (lookup s)(p := None)"
  using assms by (auto simp: no_faults_def fs_remove_file_def fs_prim_def under_dirs_def fun_eq_iff fs_inv_def)

lemma quiet_resolve_loop:
  assumes "no_faults OpStat s" "fs_inv s" "lookup s (cur @ cs) = Some (NFile b)"
  shows "\<exists>s'. resolve_loop cur cs s = (Inr (cur @ cs), s')"
  using assms
proof (induction cs arbitrary: cur s)
  case (Cons c cs)
  have look: "\<exists>n. lookup s (cur @ [c]) = Some n \<and> n \<noteq> NSymlink"
  proof (cases "cs = []")
    case False
    then have "strict_prefix (cur @ [c]) (cur @ c # cs)" by (simp add: strict_prefix_def)
    with fs_invD [OF Cons.prems(2), of "cur @ c # cs"] Cons.prems(3) show ?thesis by auto
  qed (use Cons.prems in auto)
  then obtain n where n: "lookup s (cur @ [c]) = Some n" "n \<noteq> NSymlink" by blast
  moreover have "parent_error s (cur @ [c]) = None" using Cons.prems(2) n by (simp add: fs_inv_def)
  ultimately have r: "reject_symlink (cur @ [c]) s = (Inr (), s\<lparr>op_count := Suc (op_count s)\<rparr>)"
    using Cons.prems(1)
    by (simp add: reject_symlink_def fs_symlink_metadata_def fs_prim_def under_dirs_def no_faults_def Let_def)
  have "\<exists>s'. resolve_loop (cur @ [c]) cs (s\<lparr>op_count := Suc (op_count s)\<rparr>) = (Inr ((cur @ [c]) @ cs), s')"
    using Cons.prems by (intro Cons.IH) (simp_all add: no_faults_def)
  then show ?case using r by simp
qed simp

lemma quiet_resolve:
  assumes "no_faults OpStat s" "fs_inv s" "lookup s (file_components p) = Some (NFile b)"
  obtains s' where "resolve_within p s = (Inr (file_components p), s')"
  using quiet_resolve_loop [of s "[]" "file_components p" b] assms by (auto simp: resolve_within_def)

section \<open>Undoing\<close>

text \<open>Names beside the files they stand for, none of them a Markdown file.\<close>

definition side_names :: "(fpath \<Rightarrow> fpath) \<Rightarrow> fpath set \<Rightarrow> bool" where
  "side_names B A \<longleftrightarrow> inj_on B A \<and> (\<forall>f \<in> A. md_path f \<and> \<not> md_path (B f) \<and> butlast (B f) = butlast f)"

lemma side_names_subset: "side_names B A \<Longrightarrow> A' \<subseteq> A \<Longrightarrow> side_names B A'"
  by (auto simp: side_names_def intro: inj_on_subset)

lemma side_names_apart:
  "side_names B A \<Longrightarrow> f \<in> A \<Longrightarrow> g \<in> A \<Longrightarrow> f \<noteq> g \<Longrightarrow> B f \<noteq> B g \<and> B f \<noteq> g \<and> f \<noteq> B g"
  unfolding side_names_def inj_on_def by metis

text \<open>What the roll-back needs: the files \<open>L\<close> are in their backups, the files \<open>K\<close> are installed, and
  everything else is as in the view \<open>V\<close> before the transaction.\<close>

definition undoable :: "(fpath \<Rightarrow> bytes option) \<Rightarrow> (fpath \<Rightarrow> fpath) \<Rightarrow> fpath set \<Rightarrow> fpath set \<Rightarrow> fsys \<Rightarrow> bool" where
  "undoable V B L K t \<longleftrightarrow> fs_inv t \<and>
     (\<forall>f \<in> L. (\<exists>b. V f = Some b \<and> lookup t (B f) = Some (NFile b)) \<and> lookup t f \<noteq> Some NDir) \<and>
     (\<forall>g \<in> K. md_path g \<and> (\<exists>b. lookup t g = Some (NFile b)) \<and> (g \<notin> L \<longrightarrow> V g = None)) \<and>
     (\<forall>q. q \<notin> L \<union> K \<longrightarrow> md_view t q = V q)"

lemma undoable_lookup: "undoable V B L K t \<Longrightarrow> lookup t' = lookup t \<Longrightarrow> fs_inv t' \<Longrightarrow> undoable V B L K t'"
  unfolding undoable_def using md_view_lookup [of t' t] by simp

lemma rename_md_view:
  assumes "lookup t' = (lookup t)(p := None, q \<mapsto> NFile b)"
  shows "md_view t' = (\<lambda>x. if x = q \<and> md_path q then Some b else if x = p then None else md_view t x)"
  using assms by (auto simp: md_view_def fun_eq_iff)

lemma undoable_backup:
  assumes "undoable V B L {} t" "side_names B (insert f L)" "f \<notin> L" "lookup t f = Some (NFile b)"
    and "lookup t' = (lookup t)(f := None, B f \<mapsto> NFile b)" "fs_inv t'"
  shows "undoable V B (insert f L) {} t'"
proof -
  have n: "md_path f" "\<not> md_path (B f)" "\<forall>g \<in> L. md_path g \<and> \<not> md_path (B g) \<and> B g \<noteq> B f \<and> g \<noteq> B f \<and> B g \<noteq> f"
    using assms(2,3) by (auto simp: side_names_def inj_on_def)
  have "V f = Some b" using assms(1,3,4) n(1) by (auto simp: undoable_def md_view_def)
  moreover have "md_view t' = (\<lambda>x. if x = f then None else md_view t x)"
    using rename_md_view [OF assms(5)] n by simp
  ultimately show ?thesis using assms(1,5,6) n by (auto simp: undoable_def)
qed

lemma undoable_install:
  assumes "undoable V B L K t" "side_names B L" "md_path g" "\<not> md_path x" "x \<notin> B ` L" "g \<notin> L \<longrightarrow> V g = None"
    and "lookup t' = (lookup t)(x := None, g \<mapsto> NFile b)" "fs_inv t'"
  shows "undoable V B L (insert g K) t'"
proof -
  have "md_view t' = (\<lambda>y. if y = g then Some b else md_view t y)"
    using rename_md_view [OF assms(7)] assms(3,4) by (auto simp: md_view_def)
  moreover have "\<forall>f \<in> L. B f \<noteq> g \<and> f \<noteq> x \<and> B f \<noteq> x" using assms(2-5) by (auto simp: side_names_def)
  ultimately show ?thesis using assms by (auto simp: undoable_def)
qed

lemma remove_all_undoable:
  assumes "undoable V B L (set K \<union> K') t" "side_names B L" "no_faults OpRemove t" "distinct K" "set K \<inter> K' = {}"
  shows "undoable V B L K' (remove_all_files K t)"
  using assms
proof (induction K arbitrary: t)
  case (Cons g K)
  let ?t = "snd (fs_remove_file g t)"
  obtain b where b: "lookup t g = Some (NFile b)" "g \<notin> L \<longrightarrow> V g = None" "fs_inv t" "md_path g"
    using Cons.prems(1) by (auto simp: undoable_def)
  note l = quiet_remove [OF Cons.prems(3) b(3,1)]
  have ok: "fs_ok t ?t" by (rule remove_file_snd(1))
  have v: "md_view ?t = (md_view t)(g := None)" using md_view_upd(1) [OF l] b(4) by simp
  have "\<forall>f \<in> L. B f \<noteq> g" using Cons.prems(2) b(4) by (auto simp: side_names_def)
  then have "undoable V B L (set K \<union> K') ?t"
    using Cons.prems(1,4,5) b l v ok by (auto simp: undoable_def fs_ok_def)
  moreover have "no_faults OpRemove ?t" using Cons.prems(3) ok by (simp add: no_faults_def fs_ok_def frame_def)
  ultimately show ?case using Cons by simp
qed simp

lemma rename_all_undoable:
  assumes "undoable V B (set L) {} t" "side_names B (set L)" "distinct L" "calm t"
  shows "md_view (rename_all (map (\<lambda>f. (B f, f)) L) t) = V"
  using assms
proof (induction L arbitrary: t)
  case (Cons f L)
  let ?t = "snd (fs_rename (B f) f t)"
  obtain b where b: "V f = Some b" "lookup t (B f) = Some (NFile b)" "lookup t f \<noteq> Some NDir" "fs_inv t"
    using Cons.prems(1) by (auto simp: undoable_def)
  have n: "md_path f" "\<not> md_path (B f)" "butlast (B f) = butlast f" "B f \<notin> B ` set L" "side_names B (set L)"
    using Cons.prems(2,3) by (auto simp: side_names_def inj_on_def)
  note l = calm_rename [OF Cons.prems(4) _ b(4,2), of f]
  have l: "lookup ?t = (lookup t)(B f := None, f \<mapsto> NFile b)" using b n by (intro l) (simp add: can_rename_def)
  have ok: "fs_ok t ?t" by (rule rename_snd_ok)
  have "md_view ?t = (\<lambda>x. if x = f then Some b else if x = B f then None else md_view t x)"
    using rename_md_view [OF l] n by auto
  moreover have "\<forall>g \<in> set L. B g \<noteq> f \<and> g \<noteq> f \<and> g \<noteq> B f" using n Cons.prems(3) by (auto simp: side_names_def)
  ultimately have "undoable V B (set L) {} ?t"
    using Cons.prems(1) b l ok n by (auto simp: undoable_def fs_ok_def md_view_def image_iff split: if_splits)
  then show ?case using Cons.IH [of ?t] n(5) Cons.prems(3,4) calm_frame [OF fs_ok_frame [OF ok]] by simp
qed (auto simp: undoable_def)

section \<open>The phases\<close>

lemma undo_backups:
  assumes "undoable V B (set L) {} t" "side_names B (set L)" "distinct L" "calm t" "\<forall>(x, f) \<in> set staged. \<not> md_path x"
  shows "md_view (cleanup_staged staged (restore_backups (map (\<lambda>f. (B f, f)) L) t)) = V"
proof -
  have "md_view (rename_all (map (\<lambda>f. (B f, f)) (rev L)) t) = V"
    using assms by (intro rename_all_undoable) simp_all
  then show ?thesis using cleanup_staged_effect [OF assms(5)] by (simp add: restore_backups_def rev_map)
qed

text \<open>Backing up the replacements: either everything is undone, or all originals are in their backups.\<close>

lemma backup_replacements_undo:
  assumes "backup_replacements reps tid staged (map (\<lambda>f. (B f, f)) L) t = (r, s')"
    and "undoable V B (set L) {} t" "side_names B (set L \<union> set R)" "distinct (L @ R)"
    and "recoverable t" "B = backup_path t tid" "R = map file_components (map fst reps)"
    and "\<forall>f \<in> set R. (\<exists>b. lookup t f = Some (NFile b)) \<and> lookup t (B f) \<noteq> Some NDir"
    and "\<forall>(x, f) \<in> set staged. \<not> md_path x"
  shows "case r of Inl _ \<Rightarrow> md_view s' = V
    | Inr bk \<Rightarrow> bk = map (\<lambda>f. (B f, f)) (L @ R) \<and> undoable V B (set (L @ R)) {} s' \<and> frame t s' \<and>
        (\<forall>q. q \<notin> set R \<union> B ` set R \<longrightarrow> lookup s' q = lookup t q)"
  using assms
proof (induction reps arbitrary: L R t)
  case (Cons x reps)
  obtain p bs where x: "x = (p, bs)" by (cases x)
  let ?f = "file_components p"
  obtain R' where R: "R = ?f # R'" "R' = map file_components (map fst reps)" using Cons.prems(7) by (simp add: x)
  obtain b where b: "lookup t ?f = Some (NFile b)" "lookup t (B ?f) \<noteq> Some NDir" using Cons.prems(8) R by auto
  have inv: "fs_inv t" and calm_stat: "no_faults OpStat t" using Cons.prems(2,5) by (simp_all add: undoable_def recoverable_def)
  obtain t1 where w: "resolve_within p t = (Inr ?f, t1)" using quiet_resolve [OF calm_stat inv b(1)] .
  note e1 = resolve_within_effect [OF w]
  have l1: "lookup t1 = lookup t" using e1(1) by (rule lookup_nodes)
  have inv1: "fs_inv t1" using fs_inv_nodes [OF e1(1)] inv by simp
  have u1: "undoable V B (set L) {} t1" using undoable_lookup [OF Cons.prems(2) l1 inv1] .
  have B1: "B = backup_path t1 tid" using Cons.prems(6) transaction_path_frame [OF e1(2)] by simp
  have side: "md_path ?f" "\<not> md_path (B ?f)" "butlast (B ?f) = butlast ?f" "?f \<notin> set L"
    using Cons.prems(3,4) by (auto simp: R side_names_def)
  have can: "can_rename ?f (B ?f) t1" using b side by (simp add: can_rename_def l1)
  obtain r2 t2 where n: "fs_rename ?f (B ?f) t1 = (r2, t2)" by force
  have inv2: "fs_inv t2" and f2: "frame t1 t2" using fs_rename_effect(1) [OF n] inv1 by (simp_all add: fs_ok_def)
  from n can inv1 show ?case
  proof (cases rule: rename_outcome)
    case (failed e)
    have "calm t2" using failed(3) Cons.prems(5) recoverable_frame [OF e1(2)] by (simp add: recoverable_def)
    moreover have "undoable V B (set L) {} t2" using undoable_lookup [OF u1 failed(2) inv2] .
    moreover have "side_names B (set L)" using Cons.prems(3) by (rule side_names_subset) simp
    ultimately have "md_view (cleanup_staged staged (restore_backups (map (\<lambda>f. (B f, f)) L) t2)) = V"
      using Cons.prems(4,9) by (intro undo_backups) simp_all
    moreover have "s' = cleanup_staged staged (restore_backups (map (\<lambda>f. (B f, f)) L) t2)" "\<exists>e. r = Inl e"
      using Cons.prems(1) n failed(1) by (auto simp: x w backup_file_def B1 Let_def io_res_def)
    ultimately show ?thesis by auto
  next
    case (moved c)
    have "side_names B (insert ?f (set L))" using Cons.prems(3) by (rule side_names_subset) (auto simp: R)
    from undoable_backup [OF u1 this side(4) moved(2,3) inv2] have "undoable V B (set (L @ [?f])) {} t2" by simp
    moreover have "backup_replacements reps tid staged (map (\<lambda>f. (B f, f)) (L @ [?f])) t2 = (r, s')"
      using Cons.prems(1) n moved(1) by (simp add: x w backup_file_def B1 Let_def io_res_def)
    moreover have "\<forall>f \<in> set R'. (\<exists>b. lookup t2 f = Some (NFile b)) \<and> lookup t2 (B f) \<noteq> Some NDir"
    proof
      fix f assume f: "f \<in> set R'"
      then have "f \<noteq> ?f" using Cons.prems(4) by (auto simp: R(1))
      with side_names_apart [OF Cons.prems(3), of f ?f] f
      have "f \<noteq> ?f" "f \<noteq> B ?f" "B f \<noteq> ?f" "B f \<noteq> B ?f" by (simp_all add: R(1))
      then show "(\<exists>b. lookup t2 f = Some (NFile b)) \<and> lookup t2 (B f) \<noteq> Some NDir"
        using Cons.prems(8) f moved(3) by (simp add: R(1) l1)
    qed
    moreover have "recoverable t2" "B = backup_path t2 tid"
      using Cons.prems(5) recoverable_frame frame_trans [OF e1(2) f2] B1 transaction_path_frame [OF f2] by simp_all
    ultimately have "case r of Inl _ \<Rightarrow> md_view s' = V
      | Inr bk \<Rightarrow> bk = map (\<lambda>f. (B f, f)) ((L @ [?f]) @ R') \<and> undoable V B (set ((L @ [?f]) @ R')) {} s' \<and> frame t2 s' \<and>
        (\<forall>q. q \<notin> set R' \<union> B ` set R' \<longrightarrow> lookup s' q = lookup t2 q)"
      using Cons.prems(3,4,9) by (intro Cons.IH) (simp_all add: R)
    then show ?thesis
      using frame_trans [OF frame_trans [OF e1(2) f2]] moved(3) l1 by (auto simp: R split: sum.splits)
  qed
qed auto

text \<open>Installing: when a rename fails, everything is undone.\<close>

lemma install_staged_undo:
  assumes "install_staged (map (\<lambda>g. (T g, g)) G) staged (map (\<lambda>f. (B f, f)) L) K t = (Inl e, s')"
    and "undoable V B (set L) (set K) t" "side_names B (set L)" "distinct L" "distinct (K @ G)"
    and "side_names T (set G)" "T ` set G \<inter> B ` set L = {}" "recoverable t"
    and "\<forall>g \<in> set G. (\<exists>b. lookup t (T g) = Some (NFile b)) \<and> lookup t g \<noteq> Some NDir \<and> (g \<notin> set L \<longrightarrow> V g = None)"
    and "\<forall>(x, f) \<in> set staged. \<not> md_path x"
  shows "md_view s' = V"
  using assms
proof (induction G arbitrary: K t)
  case (Cons g G)
  have inv: "fs_inv t" using Cons.prems(2) by (simp add: undoable_def)
  have side: "md_path g" "\<not> md_path (T g)" "butlast (T g) = butlast g" "side_names T (set G)" "\<forall>h \<in> set G. T h \<noteq> T g"
    using Cons.prems(5,6) by (auto simp: side_names_def inj_on_def)
  have can: "can_rename (T g) g t" using Cons.prems(9) side by (simp add: can_rename_def)
  obtain r1 t1 where n: "fs_rename (T g) g t = (r1, t1)" by force
  have inv1: "fs_inv t1" and f1: "frame t t1" using fs_rename_effect(1) [OF n] inv by (simp_all add: fs_ok_def)
  have rec: "recoverable t1" using recoverable_frame [OF f1] Cons.prems(8) by simp
  from n can inv show ?case
  proof (cases rule: rename_outcome)
    case (failed e1)
    have s': "s' = cleanup_staged staged (restore_backups (map (\<lambda>f. (B f, f)) L) (remove_installed K t1))"
      using Cons.prems(1) n failed(1) by simp
    have c: "calm t1" using failed(3) Cons.prems(8) by (simp add: recoverable_def)
    have "undoable V B (set L) {} (remove_all_files (rev K) t1)"
      using undoable_lookup [OF Cons.prems(2) failed(2) inv1] Cons.prems(3,5) rec
      by (intro remove_all_undoable) (simp_all add: recoverable_def)
    moreover have "calm (remove_all_files (rev K) t1)" using calm_frame [OF fs_ok_frame [OF remove_all_ok]] c .
    ultimately show ?thesis
      unfolding s' remove_installed_def using Cons.prems(3,4,10) by (intro undo_backups)
  next
    case (moved b)
    have "undoable V B (set L) (insert g (set K)) t1"
      using undoable_install [OF Cons.prems(2,3) side(1,2) _ _ moved(3) inv1] Cons.prems(7,9) by auto
    moreover have "install_staged (map (\<lambda>g. (T g, g)) G) staged (map (\<lambda>f. (B f, f)) L) (K @ [g]) t1 = (Inl e, s')"
      using Cons.prems(1) n moved(1) by simp
    moreover have "\<forall>h \<in> set G. (\<exists>b. lookup t1 (T h) = Some (NFile b)) \<and> lookup t1 h \<noteq> Some NDir \<and> (h \<notin> set L \<longrightarrow> V h = None)"
    proof
      fix h assume h: "h \<in> set G"
      then have "h \<noteq> g" "h \<noteq> T g" "T h \<noteq> g" "T h \<noteq> T g" using Cons.prems(5) side by (auto simp: side_names_def)
      then show "(\<exists>b. lookup t1 (T h) = Some (NFile b)) \<and> lookup t1 h \<noteq> Some NDir \<and> (h \<notin> set L \<longrightarrow> V h = None)"
        using Cons.prems(9) h moved(3) by simp
    qed
    ultimately show ?thesis using Cons.IH [of "K @ [g]" t1] Cons.prems(3,4,5,7,10) side(4) rec by simp
  qed
qed simp

text \<open>Staging creates no directory but the ancestors of the staged files.\<close>

lemma mkdir_from_new:
  "mkdir_from base cs s = (r, s') \<Longrightarrow> lookup s' q = Some NDir \<Longrightarrow> lookup s q = Some NDir \<or> prefix q (base @ cs)"
proof (induction cs arbitrary: base s)
  case (Cons c cs)
  obtain r1 s1 where m: "fs_mkdir (base @ [c]) s = (r1, s1)" by force
  note e = fs_mkdir_effect [OF m]
  show ?case
  proof (cases "lookup s (base @ [c]) = Some NDir")
    case True
    then show ?thesis using Cons.IH [of "base @ [c]" s] Cons.prems by simp
  next
    case False
    show ?thesis
    proof (cases r1)
      case (Inl a)
      then show ?thesis using Cons.prems False m e(3) [of a] by auto
    next
      case (Inr a)
      then have "lookup s1 q = Some NDir \<or> prefix q (base @ c # cs)"
        using Cons.IH [of "base @ [c]" s1] Cons.prems False m by simp
      moreover have "prefix (base @ [c]) (base @ c # cs)" by simp
      ultimately show ?thesis using e(2) Inr by (auto split: if_splits)
    qed
  qed
qed simp

lemma stage_change_new:
  assumes "stage_change f bs tid staged s = (Inr st, s')" "lookup s' q = Some NDir"
  shows "lookup s q = Some NDir \<or> prefix q (butlast f)"
proof -
  obtain s1 where 1: "mkdir_from [] (butlast f) s = (Inr (), s1)"
    and 2: "write_new_file (stage_path s1 tid f) bs s1 = (Inr (), s')"
    using assms(1) by (auto simp: stage_change_def fs_create_dir_all_def try_io_Inr_iff Let_def)
  have "lookup s1 q = Some NDir"
    using write_new_file_effect(3) [OF 2 temp_path_not_md(2,3)] assms(2) by (auto split: if_splits)
  with mkdir_from_new [OF 1] show ?thesis by simp
qed

lemma stage_replacements_new:
  assumes "stage_replacements reps tid staged s = (Inr st, s')" "lookup s' q = Some NDir"
  shows "lookup s q = Some NDir \<or> (\<exists>p \<in> fst ` set reps. prefix q (butlast (file_components p)))"
  using assms
proof (induction reps arbitrary: staged s)
  case (Cons x reps)
  obtain p bs where x: "x = (p, bs)" by (cases x)
  obtain f s1 where w: "resolve_within p s = (Inr f, s1)" using Cons.prems(1) by (auto simp: x try_io_Inr_iff)
  note e1 = resolve_within_effect [OF w]
  have f: "f = file_components p" using e1(3) by simp
  obtain st1 s2 where c: "stage_change f bs tid staged s1 = (Inr st1, s2)"
    and rest: "stage_replacements reps tid st1 s2 = (Inr st, s')"
    using Cons.prems(1) w by (auto simp: x split: prod.splits sum.splits)
  have "lookup s1 = lookup s" using e1(1) by (rule lookup_nodes)
  then show ?case using Cons.IH [OF rest Cons.prems(2)] stage_change_new [OF c] by (auto simp: x f)
qed simp

section \<open>The transaction\<close>

text \<open>No directory stands, or will be created, where a backup is going to be.\<close>

definition backups_free :: "page_path \<Rightarrow> page_path list \<Rightarrow> 64 word \<Rightarrow> fsys \<Rightarrow> bool" where
  "backups_free dst originals tid s \<longleftrightarrow>
     list_all (\<lambda>p. lookup s (backup_path s tid (file_components p)) \<noteq> Some NDir \<and>
       \<not> prefix (backup_path s tid (file_components p)) (file_components dst)) originals"

lemma side_names_transaction:
  assumes "\<forall>p \<in> P. utf8_page p"
  shows "side_names (\<lambda>f. transaction_path_for s f m tid) (file_components ` P)"
  using stage_path_inj [OF assms] temp_path_not_md(2)
  by (auto simp: side_names_def transaction_path_for_def with_file_name_def)

lemma backup_install_rollback:
  assumes run: "(case backup_file S tid [] t of
       (Inl e, s) \<Rightarrow> (Inl e, cleanup_staged st s)
     | (Inr backups, s) \<Rightarrow>
     try_io (backup_replacements reps tid st backups s) (\<lambda>backups s.
     try_io (install_staged st st backups [] s) (\<lambda>_ s. (Inr (), cleanup_staged backups s)))) = (Inl e, s')"
    and names: "st = map (\<lambda>g. (T g, g)) G" "T = stage_path t tid" "B = backup_path t tid" "R = map file_components (map fst reps)"
    and side: "side_names B (insert S (set R))" "side_names T (set G)" "distinct (S # R)" "distinct G"
    and ok: "fs_inv t" "recoverable t"
    and files: "\<forall>f \<in> insert S (set R). (\<exists>b. lookup t f = Some (NFile b)) \<and> lookup t (B f) \<noteq> Some NDir"
    and staged: "\<forall>g \<in> set G. (\<exists>b. lookup t (T g) = Some (NFile b)) \<and> lookup t g \<noteq> Some NDir \<and>
      (g \<notin> insert S (set R) \<longrightarrow> md_view t g = None)"
  shows "md_view s' = md_view t"
proof -
  let ?V = "md_view t"
  have st: "\<forall>(x, f) \<in> set st. \<not> md_path x" using side(2) by (auto simp: names(1) side_names_def)
  have S: "md_path S" "\<not> md_path (B S)" using side(1) by (simp_all add: side_names_def)
  obtain r8 s8 where 8: "backup_file S tid [] t = (r8, s8)" by force
  note e8 = backup_file_effect [OF 8 S(1)]
  show ?thesis
  proof (cases r8)
    case (Inl a)
    then have "s' = cleanup_staged st s8" "lookup s8 = lookup t" using run 8 e8(3) by auto
    then show ?thesis using cleanup_staged_effect [OF st] md_view_lookup by metis
  next
    case (Inr bk)
    have inv8: "fs_inv s8" and f8: "frame t s8" using e8(1) ok(1) by (simp_all add: fs_ok_def)
    have bk: "bk = map (\<lambda>f. (B f, f)) [S]" using e8(2) Inr by (simp add: names(3))
    obtain b where b: "lookup t S = Some (NFile b)" "lookup s8 = (lookup t)(S := None, B S \<mapsto> NFile b)"
      using e8(2) Inr files by (auto simp: names(3))
    have "undoable ?V B {} {} t" using ok(1) by (simp add: undoable_def)
    with side(1) b inv8 have u8: "undoable ?V B (set [S]) {} s8"
      using undoable_backup [of ?V B "{}" t S b s8] by (simp add: side_names_subset)
    have B8: "B = backup_path s8 tid" and rec8: "recoverable s8"
      using transaction_path_frame [OF f8] recoverable_frame [OF f8] ok(2) by (simp_all add: names(3))
    have apart: "g \<noteq> S \<and> g \<noteq> B S \<and> B g \<noteq> S \<and> B g \<noteq> B S" if "g \<in> set R" for g
    proof -
      have "g \<noteq> S" using that side(3) by auto
      with side_names_apart [OF side(1), of g S] that show ?thesis by simp
    qed
    have files8: "\<forall>f \<in> set R. (\<exists>b. lookup s8 f = Some (NFile b)) \<and> lookup s8 (B f) \<noteq> Some NDir"
      using files apart b(2) by simp
    obtain r9 s9 where 9: "backup_replacements reps tid st bk s8 = (r9, s9)" by force
    have "case r9 of Inl _ \<Rightarrow> md_view s9 = ?V
    | Inr bk \<Rightarrow> bk = map (\<lambda>f. (B f, f)) ([S] @ R) \<and> undoable ?V B (set ([S] @ R)) {} s9 \<and> frame s8 s9 \<and>
        (\<forall>q. q \<notin> set R \<union> B ` set R \<longrightarrow> lookup s9 q = lookup s8 q)"
      using 9 u8 side(1,3) rec8 B8 names(4) files8 st unfolding bk
      by (intro backup_replacements_undo [where t = s8 and reps = reps and tid = tid]) simp_all
    note e9 = this
    show ?thesis
    proof (cases r9)
      case (Inl a)
      then show ?thesis using run 8 9 e9 \<open>r8 = Inr bk\<close> by simp
    next
      case r9: (Inr bk9)
      have T9: "T g \<notin> insert S (set R) \<union> B ` insert S (set R)" if "g \<in> set G" for g
        using that side(1,2) stage_not_backup [of t g tid] by (auto simp: side_names_def names(2,3))
      have l9: "lookup s9 q = lookup t q" if "q \<notin> insert S (set R) \<union> B ` insert S (set R)" for q
        using e9 that b(2) by (simp add: r9)
      have "lookup s9 g \<noteq> Some NDir" if g: "g \<in> set G" for g
      proof (cases "g \<in> insert S (set R)")
        case True
        then show ?thesis using e9 by (auto simp: r9 undoable_def)
      next
        case False
        moreover have "g \<notin> B ` insert S (set R)" using g side(1,2) by (auto simp: side_names_def)
        ultimately show ?thesis using l9 [of g] staged g by simp
      qed
      then have st9: "\<forall>g \<in> set G. (\<exists>b. lookup s9 (T g) = Some (NFile b)) \<and> lookup s9 g \<noteq> Some NDir \<and>
        (g \<notin> set (S # R) \<longrightarrow> ?V g = None)"
        using l9 [OF T9] staged by simp
      have "install_staged (map (\<lambda>g. (T g, g)) G) st (map (\<lambda>f. (B f, f)) (S # R)) [] s9 = (Inl e, s')"
        using run 8 9 e9 \<open>r8 = Inr bk\<close> r9 by (auto simp: names(1) try_io_Inl_iff)
      then show ?thesis
      proof (rule install_staged_undo)
        show "undoable ?V B (set (S # R)) (set []) s9" using e9 by (simp add: r9)
        show "side_names B (set (S # R))" "distinct (S # R)" "distinct ([] @ G)" "side_names T (set G)"
          using side by simp_all
        show "T ` set G \<inter> B ` set (S # R) = {}" using T9 by (simp only: list.set) blast
        show "recoverable s9" using e9 rec8 recoverable_frame [of s8 s9] by (simp add: r9)
      qed (fact st9 st)+
    qed
  qed
qed

lemma run_transaction_rollback:
  assumes run: "run_transaction (file_components src) (file_components dst) bs reps tid s = (Inl e, s')"
    and P: "\<forall>p \<in> {src, dst} \<union> fst ` set reps. utf8_page p"
    and d: "distinct (map fst reps)" "src \<notin> fst ` set reps" "dst \<notin> fst ` set reps"
    and ok: "fs_inv s" "recoverable s" "backups_free dst (src # map fst reps) tid s"
    and files: "\<forall>p \<in> insert src (fst ` set reps). \<exists>b. lookup s (file_components p) = Some (NFile b)"
    and new: "lookup s (file_components dst) = None"
  shows "md_view s' = md_view s"
proof -
  let ?S = "file_components src" and ?D = "file_components dst" and ?R = "map file_components (map fst reps)"
  let ?B = "backup_path s tid" and ?T = "stage_path s tid"
  define items where "items = (?D, bs) # rep_files reps"
  have P': "\<forall>p \<in> insert dst (fst ` set reps). utf8_page p" using P by simp
  obtain r6 s6 where 6: "stage_change ?D bs tid [] s = (r6, s6)" by force
  note e6 = stage_change_effect [OF 6]
  show ?thesis
  proof (cases r6)
    case (Inl a)
    then show ?thesis using run 6 e6(2) by (simp add: run_transaction_def)
  next
    case r6: (Inr st)
    obtain r7 s7 where 7: "stage_replacements reps tid st s6 = (r7, s7)" by force
    show ?thesis
    proof (cases r7)
      case (Inl a)
      have "\<forall>(t, f) \<in> set st. \<not> md_path t" using e6(3) r6 temp_path_not_md(2) by simp
      moreover have "inj_on (stage_path s6 tid) (fst ` set (rep_files reps))"
        unfolding fst_rep_files using P by (intro stage_path_inj) auto
      moreover have "distinct (map fst (rep_files reps))" using distinct_items [OF P' d(1,3), of bs] by simp
      ultimately have "md_view s7 = md_view s6" using stage_replacements_effect [OF 7] by blast
      then show ?thesis using run 6 7 r6 Inl e6(2) by (simp add: run_transaction_def)
    next
      case r7: (Inr st')
      note stage = stage_phase [OF 6 [unfolded r6] 7 [unfolded r7] P' d(1,3) items_def]
      have fr: "frame s s7" "fs_inv s7" using stage ok(1) by (simp_all add: fs_ok_def)
      have G: "map fst items = ?D # ?R" by (simp add: items_def case_prod_unfold)
      have dirs: "lookup s q = Some NDir \<or> prefix q (butlast ?D)" if "lookup s7 q = Some NDir" for q
      proof -
        have "lookup s6 q = Some NDir \<or> (\<exists>p \<in> fst ` set reps. prefix q (butlast (file_components p)))"
          using stage_replacements_new [OF 7 [unfolded r7] that] .
        moreover have "lookup s q = Some NDir" if "p \<in> fst ` set reps" "prefix q (butlast (file_components p))" for p
        proof -
          have "strict_prefix q (file_components p)" using that(2) by (simp add: strict_prefix_butlast)
          moreover have "lookup s (file_components p) \<noteq> None" using files that(1) by fastforce
          ultimately show ?thesis using fs_invD [OF ok(1)] by blast
        qed
        ultimately show ?thesis using stage_change_new [OF 6 [unfolded r6]] by blast
      qed
      have keep: "lookup s7 (file_components p) = Some (NFile b)" if "lookup s (file_components p) = Some (NFile b)" for p b
      proof -
        have "md_view s7 (file_components p) = md_view s (file_components p)" using stage by simp
        with that show ?thesis by (simp add: md_view_def)
      qed
      have free: "lookup s7 (?B f) \<noteq> Some NDir" if "f \<in> insert ?S (set ?R)" for f
      proof -
        from that have "lookup s (?B f) \<noteq> Some NDir" "\<not> prefix (?B f) ?D"
          using ok(3) by (auto simp: backups_free_def list_all_iff)
        then show ?thesis using dirs [of "?B f"] prefix_order.trans [OF _ prefixeq_butlast] by blast
      qed
      have D: "lookup s7 ?D \<noteq> Some NDir" 
      proof
        assume "lookup s7 ?D = Some NDir"
        with dirs [of ?D] new have "prefix ?D (butlast ?D)" by simp
        from prefix_length_le [OF this] show False by (simp add: file_components_def)
      qed
      have path7: "transaction_path_for s7 f m tid = transaction_path_for s f m tid" for f m
        using fr(1) by (rule transaction_path_frame)
      have "(case backup_file ?S tid [] s7 of
         (Inl e, s) \<Rightarrow> (Inl e, cleanup_staged st' s)
       | (Inr backups, s) \<Rightarrow>
       try_io (backup_replacements reps tid st' backups s) (\<lambda>backups s.
       try_io (install_staged st' st' backups [] s) (\<lambda>_ s. (Inr (), cleanup_staged backups s)))) = (Inl e, s')"
        using run 6 7 by (simp add: run_transaction_def r6 r7)
      then have "md_view s' = md_view s7"
      proof (rule backup_install_rollback)
        show "st' = map (\<lambda>g. (?T g, g)) (?D # ?R)" using stage by (simp add: items_def case_prod_unfold)
        show "?T = stage_path s7 tid" "?B = backup_path s7 tid" by (simp_all add: path7)
        show "?R = map file_components (map fst reps)" ..
        show "side_names ?B (insert ?S (set ?R))" "side_names ?T (set (?D # ?R))"
          by (rule side_names_subset [OF side_names_transaction [OF P]], simp add: image_Un image_image subset_insertI2)+
        show "distinct (?D # ?R)" unfolding G [symmetric] items_def by (rule distinct_items [OF P' d(1,3)])
        show "fs_inv s7" "recoverable s7" using fr recoverable_frame [OF fr(1)] ok(2) by simp_all
        show "\<forall>f \<in> insert ?S (set ?R). (\<exists>b. lookup s7 f = Some (NFile b)) \<and> lookup s7 (?B f) \<noteq> Some NDir"
        proof
          fix f assume f: "f \<in> insert ?S (set ?R)"
          then obtain p where "p \<in> insert src (fst ` set reps)" "f = file_components p" by auto
          with files keep free [OF f]
          show "(\<exists>b. lookup s7 f = Some (NFile b)) \<and> lookup s7 (?B f) \<noteq> Some NDir" by blast
        qed
        show "distinct (?S # ?R)"
          using distinct_items [of src reps bs] P d(1,2) by (simp add: case_prod_unfold comp_def)
        show "\<forall>g \<in> set (?D # ?R). (\<exists>b. lookup s7 (?T g) = Some (NFile b)) \<and> lookup s7 g \<noteq> Some NDir \<and>
          (g \<notin> insert ?S (set ?R) \<longrightarrow> md_view s7 g = None)"
        proof
          fix g assume g: "g \<in> set (?D # ?R)"
          then have "g \<in> fst ` set items" using G by (metis set_map)
          then have "\<exists>b. lookup s7 (?T g) = Some (NFile b)" using stage by fastforce
          moreover have "lookup s7 g \<noteq> Some NDir"
          proof (cases "g = ?D")
            case False
            with g obtain p where "p \<in> insert src (fst ` set reps)" "g = file_components p" by auto
            with files keep show ?thesis by fastforce
          qed (use D in simp)
          moreover have "md_view s7 ?D = None" using stage new by (simp add: md_view_def)
          ultimately show "(\<exists>b. lookup s7 (?T g) = Some (NFile b)) \<and> lookup s7 g \<noteq> Some NDir \<and>
            (g \<notin> insert ?S (set ?R) \<longrightarrow> md_view s7 g = None)" using g by auto
        qed
      qed
      then show ?thesis using stage by simp
    qed
  qed
qed

end
