(* ===== verification/Fs_Progress.thy ===== *)
theory Fs_Progress
  imports Fs_Rollback
begin

text \<open>
  Progress of the filesystem store: without faults, and with nothing but directories and free names on
  the way, a page write succeeds and the page can be read back.
\<close>

definition quiet :: "fsys \<Rightarrow> bool" where
  "quiet s \<longleftrightarrow> (\<forall>op n. faults s op n = None)"

text \<open>Every proper ancestor of the file is a directory or missing, the file is a file or missing.\<close>

definition clear_path :: "fsys \<Rightarrow> fpath \<Rightarrow> bool" where
  "clear_path s f \<longleftrightarrow> list_all (\<lambda>q. lookup s q \<in> {None, Some NDir}) (ancestors f) \<and>
     (case lookup s f of None \<Rightarrow> True | Some (NFile _) \<Rightarrow> True | _ \<Rightarrow> False)"

definition writable :: "fsys \<Rightarrow> fpath \<Rightarrow> bool" where
  "writable s f \<longleftrightarrow> clear_path s f \<and> clear_path s (fst (temp_path_for f s))"

lemma quiet_frame: "frame s s' \<Longrightarrow> quiet s' = quiet s"
  by (simp add: quiet_def frame_def)

lemma clear_path_ancestor: "clear_path s f \<Longrightarrow> strict_prefix q f \<Longrightarrow> lookup s q \<in> {None, Some NDir}"
  using lookup_Nil [of s] by (auto simp: clear_path_def list_all_iff ancestors_iff)

text \<open>A symlink check on a path that meets only directories, files and missing names passes.\<close>

lemma reject_symlink_passes:
  assumes "quiet s" "\<forall>q. strict_prefix q p \<longrightarrow> lookup s q \<in> {None, Some NDir}" "lookup s p \<noteq> Some NSymlink"
  shows "reject_symlink p s = (Inr (), s\<lparr>op_count := Suc (op_count s)\<rparr>)"
proof (cases "parent_error s p")
  case None
  then show ?thesis
    using assms
    by (auto simp: reject_symlink_def fs_symlink_metadata_def fs_prim_def under_dirs_def quiet_def Let_def os_err_def
        split: option.split)
next
  case (Some k)
  then obtain q where q: "find (\<lambda>q. lookup s q \<noteq> Some NDir) (ancestors p) = Some q"
    by (auto simp: parent_error_def split: option.splits)
  then have "lookup s q \<noteq> Some NDir" "q \<in> set (ancestors p)" by (auto simp: find_Some_iff)
  with assms(2) have "lookup s q = None" by (auto simp: ancestors_iff)
  then have "k = IoNotFound" using Some q by (simp add: parent_error_def)
  with Some show ?thesis
    using assms(1)
    by (simp add: reject_symlink_def fs_symlink_metadata_def fs_prim_def under_dirs_def quiet_def Let_def os_err_def)
qed

lemma resolve_loop_succeeds:
  assumes "quiet s" "\<forall>q. strict_prefix q (cur @ cs) \<longrightarrow> lookup s q \<in> {None, Some NDir}" "lookup s (cur @ cs) \<noteq> Some NSymlink"
  shows "\<exists>s'. resolve_loop cur cs s = (Inr (cur @ cs), s')"
  using assms
proof (induction cs arbitrary: cur s)
  case (Cons c cs)
  have "lookup s (cur @ [c]) \<noteq> Some NSymlink"
  proof (cases "cs = []")
    case False
    then have "strict_prefix (cur @ [c]) (cur @ c # cs)" by (simp add: strict_prefix_def)
    then show ?thesis using Cons.prems(2) by auto
  qed (use Cons.prems in auto)
  moreover have "\<forall>q. strict_prefix q (cur @ [c]) \<longrightarrow> lookup s q \<in> {None, Some NDir}"
    using Cons.prems(2) by (metis append_Cons append_Nil append.assoc prefix_def prefix_order.less_le_trans)
  ultimately have r: "reject_symlink (cur @ [c]) s = (Inr (), s\<lparr>op_count := Suc (op_count s)\<rparr>)"
    using Cons.prems(1) by (intro reject_symlink_passes)
  have "\<exists>s'. resolve_loop (cur @ [c]) cs (s\<lparr>op_count := Suc (op_count s)\<rparr>) = (Inr ((cur @ [c]) @ cs), s')"
    using Cons.prems by (intro Cons.IH) (simp_all add: quiet_def)
  then show ?case using r by simp
qed simp

lemma resolve_within_succeeds:
  assumes "quiet s" "clear_path s (file_components p)"
  obtains s' where "resolve_within p s = (Inr (file_components p), s')"
proof -
  have "lookup s (file_components p) \<noteq> Some NSymlink" using assms(2) by (auto simp: clear_path_def)
  then show thesis
    using that resolve_loop_succeeds [of s "[]" "file_components p"] clear_path_ancestor [OF assms(2)] assms(1)
    by (auto simp: resolve_within_def)
qed

text \<open>\<^verbatim>\<open>create_dir_all\<close> creates what is missing.\<close>

lemma mkdir_from_succeeds:
  assumes "quiet s" "\<forall>q. prefix q base \<longrightarrow> lookup s q = Some NDir" "\<forall>q. prefix q (base @ cs) \<longrightarrow> lookup s q \<in> {None, Some NDir}"
  shows "\<exists>s'. mkdir_from base cs s = (Inr (), s') \<and>
    (\<forall>q. lookup s' q = (if prefix q (base @ cs) then Some NDir else lookup s q))"
  using assms
proof (induction cs arbitrary: base s)
  case (Cons c cs)
  let ?q = "base @ [c]"
  have pre: "prefix q ?q \<longleftrightarrow> q = ?q \<or> prefix q base" for q by auto
  show ?case
  proof (cases "lookup s ?q = Some NDir")
    case True
    then show ?thesis using Cons.IH [of s ?q] Cons.prems by (auto simp: pre)
  next
    case False
    then have none: "lookup s ?q = None" using Cons.prems(3) [rule_format, of ?q] by simp
    have "strict_prefix q ?q \<longleftrightarrow> prefix q base" for q by (simp add: strict_prefix_butlast)
    then have "parent_error s ?q = None" using Cons.prems(2) by (simp add: parent_error_None_iff)
    then have m: "fs_mkdir ?q s = (Inr (), put ?q NDir (s\<lparr>op_count := Suc (op_count s)\<rparr>))"
      using none Cons.prems(1) by (simp add: fs_mkdir_def fs_prim_def under_dirs_def quiet_def Let_def)
    note e = fs_mkdir_effect [OF m]
    let ?s = "put ?q NDir (s\<lparr>op_count := Suc (op_count s)\<rparr>)"
    have "frame s ?s" using e(1) by (simp add: fs_ok_def)
    moreover from this have "quiet ?s" using quiet_frame Cons.prems(1) by blast
    ultimately have "\<exists>s'. mkdir_from ?q cs ?s = (Inr (), s') \<and>
      (\<forall>q. lookup s' q = (if prefix q (?q @ cs) then Some NDir else lookup ?s q))"
      using Cons.prems e(2) by (intro Cons.IH) (auto simp: pre)
    then obtain s' where s': "mkdir_from ?q cs ?s = (Inr (), s')"
      "\<And>q. lookup s' q = (if prefix q (?q @ cs) then Some NDir else lookup ?s q)" by blast
    moreover have "prefix ?q (base @ c # cs)" by simp
    ultimately show ?thesis
      using m False e(2) by (intro exI [of _ s']) auto
  qed
qed auto

lemma write_atomically_succeeds:
  assumes "quiet s" "\<forall>q. prefix q (butlast f) \<longrightarrow> lookup s q = Some NDir" "f \<noteq> []" "t \<noteq> []" "butlast t = butlast f"
    and "lookup s f \<noteq> Some NDir" "case lookup s t of None \<Rightarrow> True | Some (NFile _) \<Rightarrow> True | _ \<Rightarrow> False"
  shows "\<exists>s'. write_atomically t f bs s = (Inr (), s') \<and> frame s s' \<and> lookup s' = (lookup s)(t := None, f \<mapsto> NFile bs)"
proof -
  let ?s1 = "put t (NFile []) (s\<lparr>op_count := Suc (op_count s)\<rparr>)"
  let ?s2 = "put t (NFile bs) (?s1\<lparr>op_count := Suc (op_count ?s1)\<rparr>)"
  let ?s3 = "?s2\<lparr>op_count := Suc (op_count ?s2)\<rparr>"
  let ?s4 = "put f (NFile bs) (del t (?s3\<lparr>op_count := Suc (op_count ?s3)\<rparr>))"
  have q: "faults s op n = None" for op n using assms(1) by (simp add: quiet_def)
  have f: "faults ?s1 = faults s" "faults ?s2 = faults s" "faults ?s3 = faults s" by (simp_all add: put_def)
  have pt: "strict_prefix q t \<longleftrightarrow> prefix q (butlast f)" "strict_prefix q f \<longleftrightarrow> prefix q (butlast f)" for q
    using strict_prefix_butlast [OF assms(4), of q] strict_prefix_butlast [OF assms(3), of q] assms(5) by simp_all
  have not_t: "\<not> prefix t (butlast f)" using assms(4) pt(1) [of t] by simp
  have "parent_error s t = None" using assms(2) by (simp add: parent_error_None_iff pt)
  then have 1: "fs_create t s = (Inr (), ?s1)"
    using assms(7) q by (auto simp: fs_create_def fs_prim_def under_dirs_def Let_def split: fs_splits)
  have 2: "fs_write_all t bs ?s1 = (Inr (), ?s2)" using q f by (simp add: fs_write_all_def Let_def)
  have 3: "fs_sync ?s2 = (Inr (), ?s3)" using q f by (simp add: fs_sync_def fs_prim_def Let_def)
  have l3: "lookup ?s3 = (lookup s)(t \<mapsto> NFile bs)" using assms(4) by (auto simp: fun_eq_iff)
  have "parent_error ?s3 t = None" "parent_error ?s3 f = None"
    using assms(2) not_t by (auto simp: parent_error_None_iff pt l3)
  moreover have "lookup ?s3 f \<noteq> Some NDir" using assms(6) by (auto simp: l3)
  ultimately have 4: "fs_rename t f ?s3 = (Inr (), ?s4)"
    using q f assms(4) by (simp add: fs_rename_def fs_prim_def under_dirs_def Let_def l3)
  have "lookup ?s4 = (lookup s)(t := None, f \<mapsto> NFile bs)" using assms(3,4) by (auto simp: fun_eq_iff)
  moreover have "frame s ?s4" by (simp add: frame_def put_def del_def)
  moreover have "write_atomically t f bs s = (Inr (), ?s4)"
    unfolding write_atomically_def write_new_file_def by (simp add: 1 2 3 4 del: frame_simps)
  ultimately show ?thesis by blast
qed

lemma write_read_succeeds:
  assumes "fs_inv s" "quiet s" "writable s (file_components p)"
  shows "\<exists>rv s'. fs_write_bytes d p bs s = (Inr rv, s') \<and> fst (fs_read_bytes d p s') = Inr (bs, rv) \<and>
    fst (fs_exists p s') = Inr True"
proof -
  let ?f = "file_components p"
  have clear: "clear_path s ?f" "clear_path s (fst (temp_path_for ?f s))" using assms(3) by (simp_all add: writable_def)
  obtain s1 where 1: "resolve_within p s = (Inr ?f, s1)" using resolve_within_succeeds [OF assms(2) clear(1)] .
  note e1 = resolve_within_effect [OF 1]
  have l1: "lookup s1 = lookup s" using e1(1) by (rule lookup_nodes)
  have q1: "quiet s1" using quiet_frame [OF e1(2)] assms(2) by simp
  have dirs: "prefix q (butlast ?f) \<Longrightarrow> lookup s q \<in> {None, Some NDir}" for q
    using clear_path_ancestor [OF clear(1), of q] by (simp add: strict_prefix_butlast)
  have "\<exists>s2. mkdir_from [] (butlast ?f) s1 = (Inr (), s2) \<and>
    (\<forall>q. lookup s2 q = (if prefix q ([] @ butlast ?f) then Some NDir else lookup s1 q))"
    using q1 dirs by (intro mkdir_from_succeeds) (auto simp: l1)
  then obtain s2 where 2: "mkdir_from [] (butlast ?f) s1 = (Inr (), s2)"
    and l2: "\<And>q. lookup s2 q = (if prefix q (butlast ?f) then Some NDir else lookup s q)" by (auto simp: l1)
  have f2: "frame s s2" using frame_trans [OF e1(2)] mkdir_from_effect [OF 2] fs_ok_frame by blast
  obtain t s3 where t: "temp_path_for ?f s2 = (t, s3)" by force
  note e3 = temp_path_for_effect [OF t]
  have tt: "t = fst (temp_path_for ?f s)" "butlast t = butlast ?f" "t \<noteq> []"
    using t f2 by (auto simp: temp_path_for_def Let_def with_file_name_def frame_def)
  have not_pre: "\<not> prefix x (butlast ?f)" if "butlast x = butlast ?f" "x \<noteq> []" for x
    using that strict_prefix_butlast [of x x] by simp
  have "\<exists>s4. write_atomically t ?f bs s3 = (Inr (), s4) \<and> frame s3 s4 \<and> lookup s4 = (lookup s3)(t := None, ?f \<mapsto> NFile bs)"
  proof (rule write_atomically_succeeds)
    show "quiet s3" using e3(3) quiet_frame [OF f2] assms(2) by (simp add: quiet_def)
    show "\<forall>q. prefix q (butlast ?f) \<longrightarrow> lookup s3 q = Some NDir" by (simp add: e3(1) l2)
    show "lookup s3 ?f \<noteq> Some NDir" using clear(1) not_pre [of ?f] by (auto simp: e3(1) l2 clear_path_def)
    show "case lookup s3 t of None \<Rightarrow> True | Some (NFile _) \<Rightarrow> True | _ \<Rightarrow> False"
      using clear(2) not_pre [of t] tt by (simp add: e3(1) l2 clear_path_def)
  qed (use tt in simp_all)
  then obtain s4 where 4: "write_atomically t ?f bs s3 = (Inr (), s4)" "frame s3 s4"
    and l4: "lookup s4 = (lookup s3)(t := None, ?f \<mapsto> NFile bs)" by blast
  have w: "fs_write_bytes d p bs s = (Inr (revision_of d bs), s4)"
    using 1 2 t 4 by (simp add: fs_write_bytes_def fs_create_dir_all_def io_res_def)
  have q4: "quiet s4" using quiet_frame [OF 4(2)] e3(3) quiet_frame [OF f2] assms(2) by (simp add: quiet_def)
  have inv4: "fs_inv s4" using fs_write_bytes_effect(1) [OF w] assms(1) by (simp add: store_ok_def)
  have there: "lookup s4 ?f = Some (NFile bs)" by (simp add: l4)
  then have c4: "clear_path s4 ?f"
    using fs_invD [OF inv4, of ?f] there by (auto simp: clear_path_def list_all_iff ancestors_iff)
  obtain s5 where 5: "resolve_within p s4 = (Inr ?f, s5)" using resolve_within_succeeds [OF q4 c4] .
  note e5 = resolve_within_effect [OF 5]
  have l5: "lookup s5 ?f = Some (NFile bs)" "parent_error s5 ?f = None" "quiet s5"
    using lookup_nodes [OF e5(1)] there fs_inv_nodes [OF e5(1)] inv4 quiet_frame [OF e5(2)] q4 by (auto simp: fs_inv_def)
  have "fst (fs_read_bytes d p s4) = Inr (bs, revision_of d bs)"
    using 5 l5 by (simp add: fs_read_bytes_def fs_read_def fs_prim_def under_dirs_def quiet_def Let_def)
  moreover have "fst (fs_exists p s4) = Inr True"
    using 5 l5 by (simp add: fs_exists_def path_is_file_def fs_symlink_metadata_def fs_prim_def under_dirs_def quiet_def Let_def)
  ultimately show ?thesis using w by blast
qed

end
