(* ===== verification/Memory_Claims.thy ===== *)
theory Memory_Claims
  imports Memory_Service Fs_Progress
begin

text \<open>
  The properties of the memory service over the filesystem store: the facts of the contract
  \<open>page_store\<close> at its interpretation \<open>fs\<close>, stated over the definitions of the store and the service,
  with a small concrete store on which they are exercised.
\<close>

section \<open>A concrete store\<close>

definition sample_front :: string where
  "sample_front = ''---'' @ [LF] @ sample_yaml @ ''---'' @ [LF]"

definition sample_fs :: fsys where
  "sample_fs = \<lparr>root_text = ''/memory'',
     nodes = [([''people''], NDir), ([''people'', ''alice.md''], NFile (sample_front @ ''hello'' @ [LF])),
       ([''index.md''], NFile (sample_front @ ''See [Alice](people/alice.md)'' @ [LF])),
       ([''notes.txt''], NFile ''x'')],
     temp_file_counter = 0, process_id = 7, op_count = 0, faults = (\<lambda>_ _. None), os_text = (\<lambda>_. ''os error'')\<rparr>"

definition alice_page :: page_path where "alice_page = PagePath [''people'', ''alice'']"
definition bob_page :: page_path where "bob_page = PagePath [''people'', ''bob'']"
definition index_page :: page_path where "index_page = PagePath [''index'']"

text \<open>Evaluation compares lengths with the megabyte limit as binary integers.\<close>

primrec int_length :: "'a list \<Rightarrow> int" where
  "int_length [] = 0"
| "int_length (x # xs) = 1 + int_length xs"

lemma int_length_eq: "int_length xs = int (length xs)"
  by (induction xs) auto

lemma body_limit_code [code_unfold]: "MAX_BODY_BYTES < length xs \<longleftrightarrow> 1048576 < int_length xs"
  by (simp add: MAX_BODY_BYTES_def int_length_eq)

text \<open>An executable test for the tree invariant.\<close>

lemma fs_inv_check:
  assumes "list_all (\<lambda>(p, _). parent_error s p = None) (nodes s)" "distinct (map fst (nodes s))" "[] \<notin> fst ` set (nodes s)"
  shows "fs_inv s"
proof -
  have "parent_error s p = None" if "lookup s p \<noteq> None" for p
  proof (cases "p = []")
    case True
    then show ?thesis by (simp add: parent_error_def ancestors_def)
  next
    case False
    with that obtain n where "(p, n) \<in> set (nodes s)" by (auto simp: lookup_def dest: map_of_SomeD)
    with assms(1) show ?thesis by (auto simp: list_all_iff)
  qed
  with assms(2,3) show ?thesis by (simp add: fs_inv_def)
qed

lemma sample_fs_good: "fs_good sample_fs"
proof -
  have "list_all (\<lambda>(p, _). parent_error sample_fs p = None) (nodes sample_fs)"
    "distinct (map fst (nodes sample_fs))" "[] \<notin> fst ` set (nodes sample_fs)" by code_simp+
  then show ?thesis by (auto simp: fs_good_def honest_def intro: fs_inv_check) (simp add: sample_fs_def)
qed

lemma sample_pages_utf8: "utf8_page alice_page" "utf8_page bob_page" "utf8_page index_page" by code_simp+

section \<open>Path resolution\<close>

text \<open>
  (C5) Path resolution is confined to the store: whatever string is parsed and resolved, under any
  schedule of I/O faults that does not fake a missing file, a successful resolution names a file whose
  components are plain names (no empty, dot or dot-dot component, no separator), ends in the Markdown
  extension, passes through no symbolic link at any level, and has changed nothing on disk.
\<close>

theorem resolve_within_confined:
  assumes "fs_good s" "page_path_parse input = Inr p" "resolve_within p s = (Inr f, s')"
  shows "f \<noteq> [] \<and> (\<forall>c \<in> set f. c \<notin> {[], ''.'', ''..''} \<and> CHR ''/'' \<notin> set c) \<and> suffix ''.md'' (last f) \<and>
    (\<forall>q. prefix q f \<longrightarrow> lookup s q \<noteq> Some NSymlink) \<and> nodes s' = nodes s"
proof -
  have wf: "wf_page_path p" using assms(2) parse_Inr_iff by blast
  note e = resolve_within_effect [OF assms(3)]
  have f: "f = file_components p" using e(3) by simp
  have "lookup s q \<noteq> Some NSymlink" if "prefix q f" for q
  proof (cases "q = []")
    case False
    then show ?thesis
      using resolve_loop_no_link [of "[]" "file_components p" s f s' q] assms(1,3) that f
      by (simp add: resolve_within_def fs_good_def)
  qed simp
  moreover have "\<forall>c \<in> set f. c \<notin> {[], ''.'', ''..''} \<and> CHR ''/'' \<notin> set c"
    using file_components_safe [OF wf] by (auto simp: f)
  moreover have "f \<noteq> [] \<and> suffix ''.md'' (last f)" using md_path_file_components [of p] by (auto simp: f md_path_def)
  ultimately show ?thesis using e(1) by blast
qed

theorem resolve_within_confined_witness:
  "fst (resolve_within alice_page sample_fs) = Inr [''people'', ''alice.md''] \<and>
   lookup sample_fs [''people''] \<noteq> Some NSymlink \<and> lookup sample_fs [''people'', ''alice.md''] \<noteq> Some NSymlink"
proof -
  have p: "page_path_parse ''people/alice.md'' = Inr alice_page" by code_simp
  have r: "fst (resolve_within alice_page sample_fs) = Inr [''people'', ''alice.md'']" by code_simp
  then have "resolve_within alice_page sample_fs = (Inr [''people'', ''alice.md''], snd (resolve_within alice_page sample_fs))"
    by (metis prod.collapse)
  from resolve_within_confined [OF sample_fs_good p this] r show ?thesis by simp
qed

section \<open>The store\<close>

text \<open>
  (C6) Atomicity of a page write under every schedule of I/O faults (also one that interrupts the
  write halfway): if the write reports success, exactly that page holds exactly the given bytes and the
  revision returned is theirs; if it reports an error, every Markdown file of the tree is as it was.
\<close>

theorem write_bytes_atomic:
  assumes "fs_write_bytes d p bs s = (r, s')"
  shows "(fs_inv s \<longrightarrow> fs_inv s') \<and>
    (case r of
       Inr rv \<Rightarrow> rv = revision_of d bs \<and> md_view s' = (md_view s)(file_components p \<mapsto> bs)
     | Inl _ \<Rightarrow> md_view s' = md_view s)"
  using fs_write_bytes_effect [OF assms] by (auto simp: store_ok_def split: sum.splits)

definition disk_full_fs :: fsys where
  "disk_full_fs = sample_fs\<lparr>faults := (\<lambda>op _. if op = OpWrite then Some (Fault (IoErr IoOther ''disk full'') 2) else None)\<rparr>"

theorem write_bytes_atomic_witness:
  "fst (fs_write_bytes sample_deps alice_page ''new text'' disk_full_fs) = Inl (Io (IoErr IoOther ''disk full'')) \<and>
   md_view (snd (fs_write_bytes sample_deps alice_page ''new text'' disk_full_fs)) = md_view disk_full_fs"
proof -
  let ?o = "fs_write_bytes sample_deps alice_page ''new text'' disk_full_fs"
  have r: "fst ?o = Inl (Io (IoErr IoOther ''disk full''))" by code_simp
  then have "?o = (Inl (Io (IoErr IoOther ''disk full'')), snd ?o)" by (metis prod.collapse)
  from write_bytes_atomic [OF this] r show ?thesis by simp
qed

text \<open>
  (C7) A write gets through: without faults, when the ancestors of the page file are directories or
  missing and the names of the page file and of its temporary file are files or missing, the write
  succeeds, missing directories are created, and the page then exists and reads back as the bytes
  written, with the revision the write returned.
\<close>

theorem write_then_read:
  assumes "fs_inv s" "quiet s" "writable s (file_components p)"
  shows "\<exists>rv s'. fs_write_bytes d p bs s = (Inr rv, s') \<and> fst (fs_read_bytes d p s') = Inr (bs, rv) \<and>
    fst (fs_exists p s') = Inr True"
  by (rule write_read_succeeds [OF assms])

definition new_page :: page_path where "new_page = PagePath [''projects'', ''plan'']"

theorem write_then_read_witness:
  "lookup sample_fs [''projects''] = None \<and>
   (\<exists>rv s'. fs_write_bytes sample_deps new_page ''text'' sample_fs = (Inr rv, s') \<and>
      fst (fs_read_bytes sample_deps new_page s') = Inr (''text'', rv) \<and> fst (fs_exists new_page s') = Inr True)"
proof -
  have "quiet sample_fs" by (simp add: quiet_def sample_fs_def)
  moreover have "writable sample_fs (file_components new_page)" by code_simp
  moreover have "lookup sample_fs [''projects''] = None" by code_simp
  ultimately show ?thesis using write_then_read [of sample_fs new_page] sample_fs_good by (simp add: fs_good_def)
qed

text \<open>
  (C8) A committed move: when \<^verbatim>\<open>commit_move\<close> reports success, whatever faults occurred on the way, the
  source page is gone, the destination holds the given bytes, every replacement page holds its new
  bytes and no other page changed; neither the source nor the destination was among the replacements.
\<close>

theorem commit_move_complete:
  assumes "fs_good s" "utf8_page src" "utf8_page dst" "\<forall>p \<in> fst ` set reps. utf8_page p"
    and "fs_commit_move src dst bs reps s = (Inr u, s')"
  shows "fs_good s' \<and> src \<notin> fst ` set reps \<and> dst \<notin> fst ` set reps \<and>
    pages s' = (pages s)(src := None, dst \<mapsto> bs) ++ map_of reps"
  using fs.move_page [OF assms(1-4), of d bs u s' for d] assms(5) by (simp add: fs_store_def)

theorem commit_move_complete_witness:
  "fst (fs_commit_move alice_page bob_page ''b'' [(index_page, ''i'')] sample_fs) = Inr () \<and>
   pages (snd (fs_commit_move alice_page bob_page ''b'' [(index_page, ''i'')] sample_fs)) =
     (pages sample_fs)(alice_page := None, bob_page \<mapsto> ''b'') ++ [index_page \<mapsto> ''i'']"
proof -
  let ?o = "fs_commit_move alice_page bob_page ''b'' [(index_page, ''i'')] sample_fs"
  have r: "fst ?o = Inr ()" by code_simp
  then have "?o = (Inr (), snd ?o)" by (metis prod.collapse)
  from commit_move_complete [OF sample_fs_good sample_pages_utf8(1,2) _ this] sample_pages_utf8 r
  show ?thesis by simp
qed

text \<open>
  (C9) A failed move is rolled back: when \<^verbatim>\<open>commit_move\<close> reports an error under a schedule with any
  number of failing writes, syncs, reads and directory creations, at most one failing rename and no
  failing stat or remove, every Markdown file of the tree, hence every page, is as it was.  The names the
  backups take must not be taken by a directory.
\<close>

theorem commit_move_rollback:
  assumes "fs_inv s" "recoverable s" "\<forall>p \<in> {src, dst} \<union> fst ` set reps. utf8_page p"
    and "backups_free dst (src # map fst reps) (temp_file_counter s) s"
    and "fs_commit_move src dst bs reps s = (Inl e, s')"
  shows "md_view s' = md_view s \<and> pages s' = pages s"
  using assms(5)
proof (cases rule: fs_commit_move_cases)
  case (rejected e)
  then show ?thesis using md_view_nodes pages_md_view by blast
next
  case (run s5)
  let ?s = "s5\<lparr>temp_file_counter := temp_file_counter s5 + 1\<rparr>"
  have n: "nodes ?s = nodes s" using run(1) by simp
  note l = lookup_nodes [OF n]
  have tp: "transaction_path_for ?s f m k = transaction_path_for s f m k" for f m k
    using run(2) by (intro transaction_path_cong) (simp add: frame_def)
  have "recoverable ?s" using assms(2) run(2) by (simp add: recoverable_def no_faults_def one_fault_def frame_def)
  moreover have "backups_free dst (src # map fst reps) (temp_file_counter s5) ?s"
    using assms(4) run(2) unfolding backups_free_def tp l by (simp add: frame_def)
  moreover have "lookup ?s (file_components dst) = None"
    using run(9) assms(1,2) by (simp add: l recoverable_def no_faults_def)
  ultimately have "md_view s' = md_view ?s"
    using run_transaction_rollback [OF run(3) assms(3) run(4-6)] run(7,8) assms(1) fs_inv_nodes [OF n] by (simp add: l)
  then show ?thesis using md_view_nodes [OF n] pages_md_view by metis
qed

text \<open>A store with two pages and one fault, and a move that updates the other page.\<close>

definition fault_fs :: "fs_op \<Rightarrow> nat \<Rightarrow> fsys" where
  "fault_fs op k = sample_fs\<lparr>nodes := [([''a.md''], NFile ''old a''), ([''b.md''], NFile ''old b'')],
     faults := (\<lambda>op' n. if op' = op \<and> n = k then Some (Fault (IoErr IoOther ''I/O error'') 0) else None)\<rparr>"

definition page_a :: page_path where "page_a = PagePath [''a'']"
definition page_b :: page_path where "page_b = PagePath [''b'']"
definition page_c :: page_path where "page_c = PagePath [''c'']"

definition faulty_move :: "fs_op \<Rightarrow> nat \<Rightarrow> (memory_error, unit, fsys) outcome" where
  "faulty_move op k = fs_commit_move page_a page_c ''new c'' [(page_b, ''new b'')] (fault_fs op k)"

lemma fault_fs_inv: "fs_inv (fault_fs op k)"
proof -
  have n: "nodes (fault_fs op k) = [([''a.md''], NFile ''old a''), ([''b.md''], NFile ''old b'')]"
    by (simp add: fault_fs_def)
  show ?thesis by (rule fs_inv_check) (simp_all add: n parent_error_def ancestors_def)
qed

theorem commit_move_rollback_witness:
  "fst (faulty_move OpRename 17) = Inl (Io (IoErr IoOther ''I/O error'')) \<and>
   pages (snd (faulty_move OpRename 17)) = pages (fault_fs OpRename 17)"
proof -
  have r: "fst (faulty_move OpRename 17) = Inl (Io (IoErr IoOther ''I/O error''))" by code_simp
  then have o: "faulty_move OpRename 17 = (Inl (Io (IoErr IoOther ''I/O error'')), snd (faulty_move OpRename 17))"
    by (metis prod.collapse)
  have "recoverable (fault_fs OpRename 17)"
    by (simp add: recoverable_def no_faults_def one_fault_def fault_fs_def)
  moreover have "backups_free page_c (page_a # map fst [(page_b, ''new b'')])
      (temp_file_counter (fault_fs OpRename 17)) (fault_fs OpRename 17)" by code_simp
  moreover have "\<forall>p \<in> {page_a, page_c} \<union> fst ` set [(page_b, ''new b'')]. utf8_page p" by code_simp
  ultimately show ?thesis
    using commit_move_rollback [OF fault_fs_inv _ _ _ o [unfolded faulty_move_def]] r by (simp add: faulty_move_def)
qed



section \<open>The service\<close>

text \<open>
  (C11) Optimistic concurrency of \<^verbatim>\<open>write_page\<close>, as a refinement of an update of the page map: a
  failed write leaves every page as it was; a successful one was allowed by the revision policy (the
  expected revision is that of the stored bytes, or no page is there, or overwriting was requested),
  stores the document rendered from the previous metadata and the request within the size limit,
  returns its revision, and changes no other page.
\<close>

theorem write_page_refines:
  assumes "fs_good s" "utf8_page (wr_path req)" "write_page d (fs_store d) now req s = (r, s')"
  shows "fs_good s' \<and> write_post d (revision_of d) now req (pages s) r (pages s')"
  using assms by (rule fs.write_page_spec)

definition sample_write :: write_page_request where
  "sample_write = \<lparr>wr_path = alice_page, wr_title = None, wr_tags = None, wr_body = ''bye'', wr_overwrite = False,
     wr_expected_revision = Some (revision_of sample_deps (sample_front @ ''hello'' @ [LF])), wr_actor = None\<rparr>"

theorem write_page_refines_witness:
  "(\<exists>pg. fst (write_page sample_deps (fs_store sample_deps) 5 sample_write sample_fs) = Inr pg \<and>
     metadata pg = sample_metadata) \<and>
   write_post sample_deps (revision_of sample_deps) 5 sample_write (pages sample_fs)
     (fst (write_page sample_deps (fs_store sample_deps) 5 sample_write sample_fs))
     (pages (snd (write_page sample_deps (fs_store sample_deps) 5 sample_write sample_fs)))"
proof -
  let ?o = "write_page sample_deps (fs_store sample_deps) 5 sample_write sample_fs"
  have p: "utf8_page (wr_path sample_write)" by code_simp
  have "fs_good (snd ?o) \<and> write_post sample_deps (revision_of sample_deps) 5 sample_write (pages sample_fs) (fst ?o) (pages (snd ?o))"
    by (rule write_page_refines [OF sample_fs_good p]) simp
  moreover have "(case fst ?o of Inr pg \<Rightarrow> metadata pg = sample_metadata | Inl _ \<Rightarrow> False)" by code_simp
  ultimately show ?thesis by (auto split: sum.splits)
qed

text \<open>
  (C12) Removing a page: a failed removal leaves every page as it was; a successful one removes exactly
  the requested page, which existed and had the expected revision if one was given.
\<close>

theorem remove_page_refines:
  assumes "fs_good s" "utf8_page (rm_path req)" "remove_page (fs_store d) req s = (r, s')"
  shows "fs_good s' \<and> (case r of Inl _ \<Rightarrow> pages s' = pages s
    | Inr _ \<Rightarrow> pages s' = (pages s)(rm_path req := None) \<and>
       (\<exists>bs. pages s (rm_path req) = Some bs \<and> (\<forall>e. rm_expected_revision req = Some e \<longrightarrow> e = revision_of d bs)))"
  using assms by (rule fs.remove_page_spec)

theorem remove_page_refines_witness:
  "fst (remove_page (fs_store sample_deps) \<lparr>rm_path = alice_page, rm_expected_revision = None\<rparr> sample_fs) = Inr () \<and>
   pages (snd (remove_page (fs_store sample_deps) \<lparr>rm_path = alice_page, rm_expected_revision = None\<rparr> sample_fs)) =
     (pages sample_fs)(alice_page := None)"
proof -
  let ?req = "\<lparr>rm_path = alice_page, rm_expected_revision = None\<rparr>"
  let ?o = "remove_page (fs_store sample_deps) ?req sample_fs"
  have r: "fst ?o = Inr ()" by code_simp
  then have "?o = (Inr (), snd ?o)" by (metis prod.collapse)
  from remove_page_refines [OF sample_fs_good _ this] r show ?thesis by (simp add: sample_pages_utf8)
qed

text \<open>
  (C13) A successful \<^verbatim>\<open>move_page\<close>: the page at the source had the expected revision, is now at the
  destination with the same bytes and gone from the source; every page the listing can show whose
  document links to the source now holds the same document with those links retargeted, and every other
  such page is unchanged.
\<close>

theorem move_page_refines:
  assumes "fs_good s" "utf8_page (mv_source req)" "utf8_page (mv_destination req)"
    and "move_page d (fs_store d) req s = (r, s')"
  shows "fs_good s' \<and> move_post d (revision_of d) listable req (pages s) r (pages s')"
  using assms by (rule fs.move_page_spec)

definition sample_move :: move_page_request where
  "sample_move = \<lparr>mv_source = alice_page, mv_destination = bob_page, mv_expected_revision = None, mv_actor = None\<rparr>"

theorem move_page_refines_witness:
  "(\<exists>out. fst (move_page sample_deps (fs_store sample_deps) sample_move sample_fs) = Inr out \<and>
     mo_updated_referrers out = [''index'']) \<and>
   move_post sample_deps (revision_of sample_deps) listable sample_move (pages sample_fs)
     (fst (move_page sample_deps (fs_store sample_deps) sample_move sample_fs))
     (pages (snd (move_page sample_deps (fs_store sample_deps) sample_move sample_fs)))"
proof -
  let ?o = "move_page sample_deps (fs_store sample_deps) sample_move sample_fs"
  have p: "utf8_page (mv_source sample_move)" "utf8_page (mv_destination sample_move)" by code_simp+
  have "fs_good (snd ?o) \<and> move_post sample_deps (revision_of sample_deps) listable sample_move (pages sample_fs) (fst ?o) (pages (snd ?o))"
    by (rule move_page_refines [OF sample_fs_good p]) simp
  moreover have "(case fst ?o of Inr out \<Rightarrow> mo_updated_referrers out = [''index''] | Inl _ \<Rightarrow> False)" by code_simp
  ultimately show ?thesis by (auto split: sum.splits)
qed

text \<open>
  A query returns the summaries of the matching pages in path order, cut at the limit (a limit of
  zero still returns one): every page a listing can show is considered, and a page is reported exactly
  when its document parses, lies under the requested prefix, carries every requested tag and contains
  the text.
\<close>

theorem query_pages_equiv:
  assumes "fs_good s" "query_pages d (fs_store d) req s = (Inr rs, s')"
  shows "pages s' = pages s \<and> (\<exists>ps. sorted ps \<and>
    (\<forall>p. listable p \<and> pages s p \<noteq> None \<longrightarrow> p \<in> set ps) \<and>
    rs = take (max 1 (case lf_limit (qr_filter req) of Some n \<Rightarrow> n | None \<Rightarrow> DEFAULT_LIST_LIMIT))
      (List.map_filter (hit d (pages s) (lf_under (qr_filter req)) (to_lowercase d (qr_text req))
         (map (normalize_tag d) (lf_with_tags (qr_filter req)))) ps))"
  using assms by (rule fs.query_pages_spec)

definition sample_query :: query_request where
  "sample_query = \<lparr>qr_text = ''alice'', qr_filter = \<lparr>lf_under = None, lf_with_tags = [''person''], lf_limit = Some 0\<rparr>\<rparr>"

theorem query_pages_equiv_witness:
  "\<exists>rs ps. fst (query_pages sample_deps (fs_store sample_deps) sample_query sample_fs) = Inr rs \<and>
     map ps_path rs = [''index''] \<and> alice_page \<in> set ps \<and> index_page \<in> set ps \<and>
     rs = take 1 (List.map_filter (hit sample_deps (pages sample_fs) None ''alice'' [''person'']) ps)"
proof -
  let ?o = "query_pages sample_deps (fs_store sample_deps) sample_query sample_fs"
  have "(case fst ?o of Inr rs \<Rightarrow> map ps_path rs = [''index''] | Inl _ \<Rightarrow> False)" by code_simp
  then obtain rs where r: "fst ?o = Inr rs" "map ps_path rs = [''index'']" by (auto split: sum.splits)
  then have "?o = (Inr rs, snd ?o)" by (metis prod.collapse)
  note q = query_pages_equiv [OF sample_fs_good this]
  have l: "listable alice_page" "pages sample_fs alice_page \<noteq> None" "listable index_page" "pages sample_fs index_page \<noteq> None"
    by code_simp+
  have e: "to_lowercase sample_deps (qr_text sample_query) = ''alice''" "lf_under (qr_filter sample_query) = None"
    "map (normalize_tag sample_deps) (lf_with_tags (qr_filter sample_query)) = [''person'']"
    "max 1 (case lf_limit (qr_filter sample_query) of Some n \<Rightarrow> n | None \<Rightarrow> DEFAULT_LIST_LIMIT) = 1" by code_simp+
  obtain ps where "\<forall>p. listable p \<and> pages sample_fs p \<noteq> None \<longrightarrow> p \<in> set ps"
    "rs = take 1 (List.map_filter (hit sample_deps (pages sample_fs) None ''alice'' [''person'']) ps)"
    using q unfolding e by blast
  with l r show ?thesis by (intro exI [of _ rs] exI [of _ ps]) blast
qed

text \<open>
  The tag index: \<^verbatim>\<open>list_tags\<close> reports each tag once, in order, with the number of its
  occurrences in the documents that parse, and reports no tag that occurs in none.
\<close>

theorem list_tags_counts:
  assumes "fs_good s" "list_tags d (fs_store d) s = (Inr ts, s')"
  shows "pages s' = pages s \<and> sorted_wrt (<) (map tc_tag ts) \<and>
    (\<exists>ps. sorted ps \<and> (\<forall>p. listable p \<and> pages s p \<noteq> None \<longrightarrow> p \<in> set ps) \<and>
      (\<forall>t n. \<lparr>tc_tag = t, tc_count = n\<rparr> \<in> set ts \<longleftrightarrow>
        n = count_list (concat (map (tags_of d (pages s)) ps)) t \<and> 0 < n))"
  using assms by (rule fs.list_tags_spec)

theorem list_tags_counts_witness:
  "fst (list_tags sample_deps (fs_store sample_deps) sample_fs) = Inr [\<lparr>tc_tag = ''person'', tc_count = 2\<rparr>] \<and>
   (\<exists>ps. 2 = count_list (concat (map (tags_of sample_deps (pages sample_fs)) ps)) ''person'')"
proof -
  let ?o = "list_tags sample_deps (fs_store sample_deps) sample_fs"
  have r: "fst ?o = Inr [\<lparr>tc_tag = ''person'', tc_count = 2\<rparr>]" by code_simp
  then have "?o = (Inr [\<lparr>tc_tag = ''person'', tc_count = 2\<rparr>], snd ?o)" by (metis prod.collapse)
  from list_tags_counts [OF sample_fs_good this]
  obtain ps where "\<forall>t n. \<lparr>tc_tag = t, tc_count = n\<rparr> \<in> set [\<lparr>tc_tag = ''person'', tc_count = 2 :: nat\<rparr>] \<longleftrightarrow>
      n = count_list (concat (map (tags_of sample_deps (pages sample_fs)) ps)) t \<and> 0 < n" by blast
  then have "2 = count_list (concat (map (tags_of sample_deps (pages sample_fs)) ps)) ''person''"
    by (metis list.set_intros(1))
  with r show ?thesis by blast
qed

text \<open>
  (C14) Soundness of the integrity check: after a clean report, every page a listing can show has a
  document that parses, whose tags are distinct and whose resolved links all lead to existing pages.
\<close>

theorem check_clean_sound:
  assumes "fs_good s" "check d (fs_store d) s = (Inr rep, s')" "is_clean rep" "listable p" "pages s p \<noteq> None"
  shows "page_clean d (pages s) {q. pages s q \<noteq> None} p"
  using assms by (rule fs.check_clean)

theorem check_clean_sound_witness:
  "page_clean sample_deps (pages sample_fs) {q. pages sample_fs q \<noteq> None} index_page"
proof -
  let ?o = "check sample_deps (fs_store sample_deps) sample_fs"
  have "(case fst ?o of Inr rep \<Rightarrow> is_clean rep | Inl _ \<Rightarrow> False)" by code_simp
  then obtain rep where r: "fst ?o = Inr rep" "is_clean rep" by (auto split: sum.splits)
  then have "?o = (Inr rep, snd ?o)" by (metis prod.collapse)
  moreover have "listable index_page" "pages sample_fs index_page \<noteq> None" by code_simp+
  ultimately show ?thesis using check_clean_sound [OF sample_fs_good] r(2) by blast
qed

text \<open>
  Stored tags are in normal form: strictly increasing, hence without duplicates, and exactly the
  trimmed lower-case forms of the requested ones.
\<close>

theorem normalize_tags_normal:
  "sorted_wrt (<) (normalize_tags d ts) \<and> set (normalize_tags d ts) = normalize_tag d ` set ts"
  by (rule normalize_tags_canonical)

end
