(* ===== verification/Remote_Claims.thy ===== *)
theory Remote_Claims
  imports Memory_Cli Memory_Claims
begin

text \<open>
  The transport is transparent: the HTTP client talking to the HTTP adapter over a client gives the
  results of that client, with errors as the wire carries them.  What is assumed of JSON is only that
  the values exchanged in the call are read back as they were written.
\<close>

section \<open>A concrete client and codec\<close>

definition sample_client :: "fsys memory_client" where
  "sample_client = direct_client sample_deps (fs_store sample_deps) 5 (\<lambda>_. Inl ''no processes'' :: (string, unit) result) (\<lambda>_ _ k. (TimedOut, k))"

definition sample_hc :: http_client where
  "sample_hc = \<lparr>hc_base = Inr \<lparr>url_text = ''http://memory'', url_is_base = True\<rparr>\<rparr>"

lemma sample_hc_good: "good_base sample_hc"
  by (simp add: good_base_def sample_hc_def)

text \<open>A codec that knows one value of each type.\<close>

definition table_codec ::
  "page_summary list \<Rightarrow> page_wire \<Rightarrow> move_outcome \<Rightarrow> error_envelope \<Rightarrow> write_page_wire \<Rightarrow> move_page_wire \<Rightarrow> codec" where
  "table_codec ps pw mo env ww mw = \<lparr>
     to_json = (\<lambda>_. ''json''), json_pages = (\<lambda>_. Inr ps), json_page = (\<lambda>_. Inr pw), json_move = (\<lambda>_. Inr mo),
     json_tags = (\<lambda>_. Inl ''none''), json_links = (\<lambda>_. Inl ''none''), json_check = (\<lambda>_. Inl ''none''),
     json_error = (\<lambda>_. Inr env), write_to_json = (\<lambda>_. Inr ''w''), write_of_json = (\<lambda>_. Inr ww),
     move_to_json = (\<lambda>_. Inr ''m''), move_of_json = (\<lambda>_. Inr mw),
     run_to_json = (\<lambda>_. Inl ''none''), run_of_json = (\<lambda>_. Inl ''none'')\<rparr>"

definition sample_move_wire :: move_page_wire where
  "sample_move_wire = \<lparr>mw_source = ''people/alice'', mw_destination = ''people/bob'', mw_expected_revision = None, mw_actor = None\<rparr>"

definition sample_write_wire :: write_page_wire where
  "sample_write_wire = \<lparr>ww_title = wr_title sample_write, ww_tags = wr_tags sample_write, ww_body = wr_body sample_write,
     ww_overwrite = wr_overwrite sample_write, ww_expected_revision = wr_expected_revision sample_write, ww_actor = wr_actor sample_write\<rparr>"

definition right :: "(memory_error, 'a, 's) outcome \<Rightarrow> 'a" where
  "right r = projr (fst r)"

definition sample_codec :: codec where
  "sample_codec = table_codec
     (right (list_pages sample_deps (fs_store sample_deps) \<lparr>lf_under = None, lf_with_tags = [''person''], lf_limit = Some 9\<rparr> sample_fs))
     (page_of_pair (right (page_with_links sample_client (write_page sample_deps (fs_store sample_deps) 5 sample_write sample_fs))))
     (right (move_page sample_deps (fs_store sample_deps) sample_move sample_fs))
     (from_error (NotFound ''people/bob'')) sample_write_wire sample_move_wire"

lemma small_json: "length ''json'' \<le> MAX_JSON_RESPONSE_BYTES"
  by (simp add: MAX_JSON_RESPONSE_BYTES_def)

lemma right_eq: "\<not> isl (fst r) \<Longrightarrow> fst r = Inr (right r)"
  by (cases "fst r") (simp_all add: right_def)

section \<open>Mutations\<close>

text \<open>
  (C21) Moving a page remotely is moving it locally: for pages named by their logical form, the HTTP
  client over the adapter returns what the client behind the adapter returns, leaves the same state,
  and an error arrives with the same kind-specific content, status and exit code.
\<close>

theorem remote_move_equals_local:
  assumes "good_base hc" "stable_path (mv_source req)" "stable_path (mv_destination req)"
    and "move_to_json c \<lparr>mw_source = as_str (mv_source req), mw_destination = as_str (mv_destination req),
           mw_expected_revision = mv_expected_revision req, mw_actor = mv_actor req\<rparr> = Inr payload"
    and "move_of_json c payload = Inr \<lparr>mw_source = as_str (mv_source req), mw_destination = as_str (mv_destination req),
           mw_expected_revision = mv_expected_revision req, mw_actor = mv_actor req\<rparr>"
    and "length payload \<le> m" "carries c (json_move c) MoveBody (mc_move_page client req s)"
  shows "http_move_page c (loop_send c m client) hc req s = map_err (mc_move_page client req s)"
  using assms by (rule http_move_loop)

theorem remote_move_equals_local_witness:
  "\<exists>out. fst (http_move_page sample_codec (loop_send sample_codec 100 sample_client) sample_hc sample_move sample_fs) = Inr out \<and>
     mo_updated_referrers out = [''index'']"
proof -
  let ?r = "mc_move_page sample_client sample_move sample_fs"
  have st: "stable_path (mv_source sample_move)" "stable_path (mv_destination sample_move)" by code_simp+
  have w: "\<lparr>mw_source = as_str (mv_source sample_move), mw_destination = as_str (mv_destination sample_move),
      mw_expected_revision = mv_expected_revision sample_move, mw_actor = mv_actor sample_move\<rparr> = sample_move_wire" by code_simp
  have "(case fst ?r of Inr out \<Rightarrow> mo_updated_referrers out = [''index''] | Inl _ \<Rightarrow> False)" by code_simp
  then obtain out where out: "fst ?r = Inr out" "mo_updated_referrers out = [''index'']" by (auto split: sum.splits)
  then have "carries sample_codec (json_move sample_codec) MoveBody ?r"
    using small_json by (simp add: carries_def carried_def sample_codec_def table_codec_def right_def sample_client_def direct_client_def)
  then have "http_move_page sample_codec (loop_send sample_codec 100 sample_client) sample_hc sample_move sample_fs = map_err ?r"
    using remote_move_equals_local [OF sample_hc_good st, unfolded w, of sample_codec "''m''" 100]
    by (simp add: sample_codec_def table_codec_def)
  with out show ?thesis by (simp add: map_err_def split: prod.splits)
qed

text \<open>
  (C22) Removing a page remotely is removing it locally, with the same result, the same state and, when it
  fails, the error the wire carries.
\<close>

theorem remote_remove_equals_local:
  assumes "good_base hc" "stable_path (rm_path req)"
    and "\<And>e s'. mc_remove_page client req s = (Inl e, s') \<Longrightarrow> carried c (json_error c) (ErrorResponse (from_error e)) (from_error e)"
  shows "http_remove_page c (loop_send c m client) hc req s = map_err (mc_remove_page client req s)"
  using assms by (rule http_remove_loop)

theorem remote_remove_equals_local_witness:
  "fst (http_remove_page sample_codec (loop_send sample_codec 100 sample_client) sample_hc \<lparr>rm_path = bob_page, rm_expected_revision = None\<rparr> sample_fs)
     = Inl (NotFound ''people/bob'')"
proof -
  let ?req = "\<lparr>rm_path = bob_page, rm_expected_revision = None\<rparr>"
  have st: "stable_path (rm_path ?req)" by code_simp
  have e: "fst (mc_remove_page sample_client ?req sample_fs) = Inl (NotFound ''people/bob'')" by code_simp
  have "carried sample_codec (json_error sample_codec) (ErrorResponse (from_error (NotFound ''people/bob''))) (from_error (NotFound ''people/bob''))"
    using small_json by (simp add: carried_def sample_codec_def table_codec_def)
  then have "http_remove_page sample_codec (loop_send sample_codec 100 sample_client) sample_hc ?req sample_fs =
      map_err (mc_remove_page sample_client ?req sample_fs)"
    using e by (intro remote_remove_equals_local [OF sample_hc_good st]) auto
  with e show ?thesis by (simp add: map_err_def wire_error_exact split: prod.splits)
qed

text \<open>
  Writing a page remotely is writing it locally and then computing its links: the same page and
  the same state, provided the links can be computed.
\<close>

theorem remote_write_equals_local:
  assumes "good_base hc" "stable_path (wr_path req)"
    and "\<And>pg s'. mc_write_page client req s = (Inr pg, s') \<Longrightarrow> page_path_of pg = wr_path req"
    and "write_to_json c \<lparr>ww_title = wr_title req, ww_tags = wr_tags req, ww_body = wr_body req, ww_overwrite = wr_overwrite req,
           ww_expected_revision = wr_expected_revision req, ww_actor = wr_actor req\<rparr> = Inr payload"
    and "write_of_json c payload = Inr \<lparr>ww_title = wr_title req, ww_tags = wr_tags req, ww_body = wr_body req,
           ww_overwrite = wr_overwrite req, ww_expected_revision = wr_expected_revision req, ww_actor = wr_actor req\<rparr>"
    and "length payload \<le> m"
    and "carries c (json_page c) PageBody (try_io (page_with_links client (mc_write_page client req s)) (\<lambda>x s. (Inr (page_of_pair x), s)))"
  shows "http_write_page c (loop_send c m client) hc req s =
    map_err (try_io (page_with_links client (mc_write_page client req s)) (\<lambda>x s. (Inr (fst x), s)))"
  using assms by (rule http_write_loop)

lemma with_lock_Inr: "with_lock st f s = (Inr x, s') \<Longrightarrow> \<exists>t t'. f t = (Inr x, t')"
  by (auto simp: with_lock_def try_io_Inr_iff split: prod.splits) (metis surj_pair)

lemma write_page_locked_path: "write_page_locked d st now req s = (Inr pg, s') \<Longrightarrow> page_path_of pg = wr_path req"
  by (auto simp: write_page_locked_def try_io_Inr_iff split: if_splits)

lemma write_page_path: "write_page d st now req s = (Inr pg, s') \<Longrightarrow> page_path_of pg = wr_path req"
  by (auto simp: write_page_def try_io_Inr_iff dest!: with_lock_Inr write_page_locked_path)

theorem remote_write_equals_local_witness:
  "\<exists>pg. fst (http_write_page sample_codec (loop_send sample_codec 100 sample_client) sample_hc sample_write sample_fs) = Inr pg \<and>
     body pg = ''bye'' @ [LF] \<and> metadata pg = sample_metadata"
proof -
  let ?w = "mc_write_page sample_client sample_write sample_fs"
  let ?r = "page_with_links sample_client ?w"
  have st: "stable_path (wr_path sample_write)" by code_simp
  have sw: "\<lparr>ww_title = wr_title sample_write, ww_tags = wr_tags sample_write, ww_body = wr_body sample_write,
      ww_overwrite = wr_overwrite sample_write, ww_expected_revision = wr_expected_revision sample_write,
      ww_actor = wr_actor sample_write\<rparr> = sample_write_wire" by (simp add: sample_write_wire_def)
  have w: "?w = write_page sample_deps (fs_store sample_deps) 5 sample_write sample_fs"
    by (simp add: sample_client_def direct_client_def)
  have "(case fst ?r of Inr x \<Rightarrow> body (fst x) = ''bye'' @ [LF] \<and> metadata (fst x) = sample_metadata | Inl _ \<Rightarrow> False)" by code_simp
  then obtain x where x: "fst ?r = Inr x" "body (fst x) = ''bye'' @ [LF]" "metadata (fst x) = sample_metadata"
    by (auto split: sum.splits)
  have "carries sample_codec (json_page sample_codec) PageBody (try_io ?r (\<lambda>x s. (Inr (page_of_pair x), s)))"
    using x(1) small_json
    by (cases ?r) (simp add: carries_def carried_def sample_codec_def table_codec_def right_def w [symmetric])
  then have "http_write_page sample_codec (loop_send sample_codec 100 sample_client) sample_hc sample_write sample_fs =
      map_err (try_io ?r (\<lambda>x s. (Inr (fst x), s)))"
    by (intro remote_write_equals_local [OF sample_hc_good st, unfolded sw, where payload = "''w''"])
       (auto simp: w sample_codec_def table_codec_def dest: write_page_path)
  with x show ?thesis by (cases ?r) (simp add: map_err_def)
qed

section \<open>Listings\<close>

lemma filter_eta:
  "\<lparr>lf_under = lf_under f, lf_with_tags = lf_with_tags f, lf_limit = lf_limit f\<rparr> = (f :: list_filter)"
  "\<lparr>qr_text = qr_text r, qr_filter = qr_filter r\<rparr> = (r :: query_request)"
  by (auto intro!: list_filter.equality query_request.equality)

lemma http_list_loop:
  assumes "good_base hc" "wire_filter f" "\<forall>u. lf_under f = Some u \<longrightarrow> stable_path u"
    and "carries c (json_pages c) PagesBody (mc_list_pages client f s)"
  shows "http_list_pages c (loop_send c m client) hc f s = map_err (mc_list_pages client f s)"
proof -
  obtain q where q: "list_pages_query_of (list_filter_query f None) = Some q" "lq_under q = map_option as_str (lf_under f)"
    "query_tags q = lf_with_tags f" "lq_limit q = lf_limit f" "lq_text q = None"
    using query_of_filter [OF assms(2), of None] by auto
  have "parse_opt (lq_under q) = Inr (lf_under f)"
    using assms(3) by (cases "lf_under f") (auto simp: q(2) parse_opt_def stable_path_def)
  then have "srv_list_pages client q s = try_io (mc_list_pages client f s) (\<lambda>ps s. (Inr (ok_json (PagesBody ps)), s))"
    by (simp add: srv_list_pages_def q(3-5) Let_def filter_eta)
  then show ?thesis
    unfolding http_list_pages_def
    by (intro json_request_handled [where payload = None and B = PagesBody])
       (simp_all add: assms(1,4) endpoint_path_ok serve_request_def handle_def route_simps q(1) body_bytes_def json_kind_def)
qed

lemma http_query_loop:
  assumes "good_base hc" "wire_filter (qr_filter req)" "\<forall>u. lf_under (qr_filter req) = Some u \<longrightarrow> stable_path u" "qr_text req \<noteq> []"
    and "carries c (json_pages c) PagesBody (mc_query_pages client req s)"
  shows "http_query_pages c (loop_send c m client) hc req s = map_err (mc_query_pages client req s)"
proof -
  let ?f = "qr_filter req"
  obtain q where q: "list_pages_query_of (list_filter_query ?f (Some (qr_text req))) = Some q" "lq_under q = map_option as_str (lf_under ?f)"
    "query_tags q = lf_with_tags ?f" "lq_limit q = lf_limit ?f" "lq_text q = Some (qr_text req)"
    using query_of_filter [OF assms(2), of "Some (qr_text req)"] assms(4) by auto
  have "parse_opt (lq_under q) = Inr (lf_under ?f)"
    using assms(3) by (cases "lf_under ?f") (auto simp: q(2) parse_opt_def stable_path_def)
  then have "srv_list_pages client q s = try_io (mc_query_pages client req s) (\<lambda>ps s. (Inr (ok_json (PagesBody ps)), s))"
    using assms(4) by (simp add: srv_list_pages_def q(3-5) Let_def filter_eta)
  then show ?thesis
    unfolding http_query_pages_def
    by (intro json_request_handled [where payload = None and B = PagesBody])
       (simp_all add: assms(1,5) endpoint_path_ok serve_request_def handle_def route_simps q(1) body_bytes_def json_kind_def)
qed

text \<open>
  (C23) Listing remotely is listing locally, for filters the query string can carry: tags that are
  trimmed, non-empty and free of commas, a limit that fits 64 bits and a subtree named by its logical
  form.
\<close>

theorem remote_list_equals_local:
  assumes "good_base hc" "wire_filter f" "\<forall>u. lf_under f = Some u \<longrightarrow> stable_path u"
    and "carries c (json_pages c) PagesBody (mc_list_pages client f s)"
  shows "http_list_pages c (loop_send c m client) hc f s = map_err (mc_list_pages client f s)"
  using assms by (rule http_list_loop)

theorem remote_list_equals_local_witness:
  "\<exists>ps. fst (http_list_pages sample_codec (loop_send sample_codec 100 sample_client) sample_hc
      \<lparr>lf_under = None, lf_with_tags = [''person''], lf_limit = Some 9\<rparr> sample_fs) = Inr ps \<and> map ps_path ps = [''index'', ''people/alice'']"
proof -
  let ?f = "\<lparr>lf_under = None, lf_with_tags = [''person''], lf_limit = Some 9\<rparr>"
  let ?r = "mc_list_pages sample_client ?f sample_fs"
  have r: "?r = list_pages sample_deps (fs_store sample_deps) ?f sample_fs" by (simp add: sample_client_def direct_client_def)
  have "(case fst ?r of Inr ps \<Rightarrow> map ps_path ps = [''index'', ''people/alice''] | Inl _ \<Rightarrow> False)" by code_simp
  then obtain ps where ps: "fst ?r = Inr ps" "map ps_path ps = [''index'', ''people/alice'']" by (auto split: sum.splits)
  have "carries sample_codec (json_pages sample_codec) PagesBody ?r"
    using ps(1) small_json by (simp add: carries_def carried_def sample_codec_def table_codec_def right_def r [symmetric])
  moreover have "plain_tag ''person''" by code_simp
  then have "wire_filter ?f" by (simp add: wire_filter_def)
  ultimately have "http_list_pages sample_codec (loop_send sample_codec 100 sample_client) sample_hc ?f sample_fs = map_err ?r"
    by (intro remote_list_equals_local [OF sample_hc_good]) simp_all
  with ps show ?thesis by (simp add: map_err_def split: prod.splits)
qed

section \<open>The command line\<close>

text \<open>
  The command line behaves the same over both transports: removing a page through the HTTP client
  and the adapter ends in the same exit code, prints the same on success and leaves the same state as
  removing it through the client behind the adapter.
\<close>

theorem cli_remove_same_remotely:
  assumes "good_base hc" "arg_command args = Some (CmdRm path if_revision)" "page_path_parse path = Inr p" "stable_path p"
    and "\<And>e s'. mc_remove_page client \<lparr>rm_path = p, rm_expected_revision = if_revision\<rparr> s = (Inl e, s') \<Longrightarrow>
      carried c (json_error c) (ErrorResponse (from_error e)) (from_error e)"
  shows "case (cli_run env args (http_memory_client c (loop_send c m client) hc cancel_at) json k s, cli_run env args client json k s) of
    ((code, outp, st), (code', outp', st')) \<Rightarrow> code = code' \<and> st = st' \<and> (code = 0 \<longrightarrow> outp = outp')"
proof -
  let ?req = "\<lparr>rm_path = p, rm_expected_revision = if_revision\<rparr>"
  have r: "mc_remove_page (http_memory_client c (loop_send c m client) hc cancel_at) ?req s = map_err (mc_remove_page client ?req s)"
    using http_remove_loop [of hc ?req client s c m] assms(1,4,5) by (simp add: http_memory_client_def)
  obtain v s' where v: "mc_remove_page client ?req s = (v, s')" by force
  show ?thesis
    using r v assms(2,3) wire_error_codes exit_code_for_nonzero
    by (cases v) (simp_all add: cli_run_def execute_def cli_remove_def map_err_def)
qed

definition sample_env :: cli_env where
  "sample_env = \<lparr>read_body = (\<lambda>_. Inr []), agent_id = None\<rparr>"

theorem cli_remove_same_remotely_witness:
  "fst (cli_run sample_env (sample_args\<lparr>arg_command := Some (CmdRm ''people/bob'' None)\<rparr>)
      (http_memory_client sample_codec (loop_send sample_codec 100 sample_client) sample_hc None) True sample_sinks sample_fs) = 3"
proof -
  let ?req = "\<lparr>rm_path = bob_page, rm_expected_revision = None\<rparr>" and ?args = "sample_args\<lparr>arg_command := Some (CmdRm ''people/bob'' None)\<rparr>"
  have p: "page_path_parse ''people/bob'' = Inr bob_page" "stable_path bob_page" by code_simp+
  have e: "fst (mc_remove_page sample_client ?req sample_fs) = Inl (NotFound ''people/bob'')" by code_simp
  have "carried sample_codec (json_error sample_codec) (ErrorResponse (from_error (NotFound ''people/bob''))) (from_error (NotFound ''people/bob''))"
    using small_json by (simp add: carried_def sample_codec_def table_codec_def)
  then have c: "carried sample_codec (json_error sample_codec) (ErrorResponse (from_error err)) (from_error err)"
    if "mc_remove_page sample_client ?req sample_fs = (Inl err, s')" for err s'
    using that e by simp
  have a: "arg_command ?args = Some (CmdRm ''people/bob'' None)" by simp
  have "fst (cli_run sample_env ?args sample_client True sample_sinks sample_fs) = 3"
    using e by (cases "mc_remove_page sample_client ?req sample_fs") (simp add: cli_run_def execute_def cli_remove_def p)
  moreover have "case (cli_run sample_env ?args (http_memory_client sample_codec (loop_send sample_codec 100 sample_client) sample_hc None)
        True sample_sinks sample_fs, cli_run sample_env ?args sample_client True sample_sinks sample_fs) of
      ((code, outp, st), (code', outp', st')) \<Rightarrow> code = code' \<and> st = st' \<and> (code = 0 \<longrightarrow> outp = outp')"
    by (rule cli_remove_same_remotely [OF sample_hc_good a p]) (rule c)
  ultimately show ?thesis by (auto split: prod.splits)
qed

end
