(* ===== verification/Host_Fs.thy ===== *)
theory Host_Fs
  imports Fs_Progress Rust_Map
begin

text \<open>
  The file interface of \<open>Fs_Model\<close> as the agent host uses it: whole-file writes, text, recursive removal,
  copies, and the directory tests that treat an error as \<^verbatim>\<open>false\<close>.

  The calls \<^verbatim>\<open>fs::write\<close>, \<^verbatim>\<open>fs::read\<close>, \<^verbatim>\<open>Path::is_dir\<close> and their like follow symbolic links, and a link has no
  target in this model: the calls here are those of a tree without symbolic links (\<open>no_links\<close>), and on a link
  itself the model gives an error or \<open>False\<close>.  None of them makes a link.
\<close>

definition no_links :: "fsys \<Rightarrow> bool" where
  "no_links s \<longleftrightarrow> (\<forall>q. lookup s q \<noteq> Some NSymlink)"

section \<open>Paths\<close>

text \<open>Where the system finds a relative path: in a tree without symbolic links \<^verbatim>\<open>..\<close> is the directory above.\<close>

fun resolve_from :: "fpath \<Rightarrow> bytes list \<Rightarrow> fpath" where
  "resolve_from p [] = p"
| "resolve_from p (c # cs) = resolve_from (if c = ''..'' then butlast p else p @ [c]) cs"

text \<open>The components of a path: empty ones and \<^verbatim>\<open>.\<close> do not count.\<close>

definition path_components :: "string \<Rightarrow> bytes list" where
  "path_components t = filter (\<lambda>c. c \<noteq> [] \<and> c \<noteq> ''.'') (split_on (CHR ''/'') t)"

text \<open>\<^verbatim>\<open>Path::join\<close>, resolved: an absolute path replaces the directory.\<close>

definition path_join :: "fpath \<Rightarrow> string \<Rightarrow> fpath" where
  "path_join dir t = resolve_from (if prefix ''/'' t then [] else dir) (path_components t)"

lemma resolve_from_plain: "''..'' \<notin> set cs \<Longrightarrow> resolve_from p cs = p @ cs"
  by (induction cs arbitrary: p) auto

lemma path_join_plain:
  assumes "t \<noteq> []" "CHR ''/'' \<notin> set t" "CHR ''.'' \<notin> set t"
  shows "path_join dir t = dir @ [t]"
proof -
  have "t \<noteq> ''.''" "t \<noteq> ''..''" using assms(3) by auto
  moreover have "\<not> prefix ''/'' t" using assms(2) by (cases t) auto
  ultimately show ?thesis using assms(1,2) by (simp add: path_join_def path_components_def split_on_free)
qed

section \<open>Calls\<close>

text \<open>\<^verbatim>\<open>fs::write\<close>: \<^verbatim>\<open>File::create\<close> and \<^verbatim>\<open>write_all\<close>.\<close>

definition fs_write :: "fpath \<Rightarrow> bytes \<Rightarrow> unit fs_call" where
  "fs_write p bs s = try_io (fs_create p s) (\<lambda>_. fs_write_all p bs)"

definition fs_read_to_string :: "fpath \<Rightarrow> string fs_call" where
  "fs_read_to_string p s =
     try_io (fs_read p s) (\<lambda>bs s. case from_utf8 bs of Some t \<Rightarrow> (Inr t, s) | None \<Rightarrow> fs_fail IoOther s)"

definition fs_copy :: "fpath \<Rightarrow> fpath \<Rightarrow> unit fs_call" where
  "fs_copy p q s = try_io (fs_read p s) (\<lambda>bs. fs_write q bs)"

text \<open>\<^verbatim>\<open>fs::create_dir_all\<close> on a path below \<open>dir\<close> that may contain \<^verbatim>\<open>..\<close>: the directories on the way are made.\<close>

fun mkdir_along :: "fpath \<Rightarrow> bytes list \<Rightarrow> unit fs_call" where
  "mkdir_along base [] s = (Inr (), s)"
| "mkdir_along base (c # cs) s =
     (if c = ''..'' then mkdir_along (butlast base) cs s
      else if lookup s (base @ [c]) = Some NDir then mkdir_along (base @ [c]) cs s
      else try_io (fs_mkdir (base @ [c]) s) (\<lambda>_. mkdir_along (base @ [c]) cs))"

definition fs_create_dir_all_in :: "fpath \<Rightarrow> bytes list \<Rightarrow> unit fs_call" where
  "fs_create_dir_all_in dir cs s = try_io (fs_create_dir_all dir s) (\<lambda>_. mkdir_along dir cs)"

lemma mkdir_along_plain: "''..'' \<notin> set cs \<Longrightarrow> mkdir_along base cs = mkdir_from base cs"
proof (induction cs arbitrary: base)
  case (Cons c cs)
  then have "c \<noteq> ''..''" "''..'' \<notin> set cs" by auto
  then show ?case using Cons.IH by (intro ext) simp
qed (simp add: fun_eq_iff)

lemma mkdir_from_append: "mkdir_from base (cs @ ds) s = try_io (mkdir_from base cs s) (\<lambda>_. mkdir_from (base @ cs) ds)"
proof (induction cs arbitrary: base s)
  case (Cons c cs)
  have assoc: "try_io (try_io r f) g = try_io r (\<lambda>x s. try_io (f x s) g)"
    for r :: "(io_error, unit, fsys) outcome" and f :: "unit \<Rightarrow> fsys \<Rightarrow> (io_error, unit, fsys) outcome" and g :: "unit \<Rightarrow> unit fs_call"
    by (cases r; cases "fst r") (auto simp: try_io_def split: sum.splits)
  have ih: "mkdir_from (base @ [c]) (cs @ ds) = (\<lambda>s. try_io (mkdir_from (base @ [c]) cs s) (\<lambda>_. mkdir_from (base @ c # cs) ds))"
    by (rule ext) (simp add: Cons.IH)
  show ?case by (simp only: append_Cons mkdir_from.simps ih assoc split: if_split) simp
qed simp

lemma create_dir_all_in_plain: "''..'' \<notin> set cs \<Longrightarrow> fs_create_dir_all_in dir cs = fs_create_dir_all (dir @ cs)"
  by (rule ext) (simp add: fs_create_dir_all_in_def fs_create_dir_all_def mkdir_along_plain mkdir_from_append)

text \<open>The tests of a path that follow links: \<open>False\<close> for a link in this model.\<close>

definition path_is_dir :: "fpath \<Rightarrow> fsys \<Rightarrow> bool \<times> fsys" where
  "path_is_dir p s = (case fs_symlink_metadata p s of (Inr NDir, s') \<Rightarrow> (True, s') | (_, s') \<Rightarrow> (False, s'))"

text \<open>\<^verbatim>\<open>fs::create_dir\<close> is \<open>fs_mkdir\<close>.  \<^verbatim>\<open>remove_dir_all\<close> removes what lies below a directory, the deepest
  entries first, and then the directory; a failure leaves the rest in place.\<close>

definition descendants :: "fsys \<Rightarrow> fpath \<Rightarrow> fpath list" where
  "descendants s p = filter (strict_prefix p) (map fst (nodes s))"

fun remove_paths :: "fpath list \<Rightarrow> unit fs_call" where
  "remove_paths [] s = (Inr (), s)"
| "remove_paths (p # ps) s = try_io (fs_prim OpRemove (\<lambda>s. (Inr (), del p s)) s) (\<lambda>_. remove_paths ps)"

definition fs_remove_dir_all :: "fpath \<Rightarrow> unit fs_call" where
  "fs_remove_dir_all p =
     fs_prim OpReadDir (under_dirs p (\<lambda>s.
       case lookup s p of
         None \<Rightarrow> fs_fail IoNotFound s
       | Some NDir \<Rightarrow> remove_paths (rev (sort_key length (descendants s p)) @ [p]) s
       | Some (NFile _) \<Rightarrow> fs_fail IoNotADirectory s
       | Some _ \<Rightarrow> fs_fail IoOther s))"

section \<open>What the calls change\<close>

lemma fs_write_effect:
  assumes "fs_write p bs s = (r, s')"
  shows "fs_ok s s'" "r = Inr () \<Longrightarrow> lookup s' = (lookup s)(p \<mapsto> NFile bs)"
    "\<And>q. q \<noteq> p \<Longrightarrow> lookup s' q = lookup s q"
proof -
  obtain r1 s1 where 1: "fs_create p s = (r1, s1)" by force
  note e1 = fs_create_effect [OF 1]
  have "fs_ok s s' \<and> (r = Inr () \<longrightarrow> lookup s' = (lookup s)(p \<mapsto> NFile bs)) \<and> (\<forall>q. q \<noteq> p \<longrightarrow> lookup s' q = lookup s q)"
  proof (cases r1)
    case (Inl e)
    then show ?thesis using assms 1 e1 by (auto simp: fs_write_def)
  next
    case (Inr u)
    then have c: "lookup s1 = (lookup s)(p \<mapsto> NFile [])" "lookup s p \<noteq> Some NDir" and p: "p \<noteq> []"
      and w: "fs_write_all p bs s1 = (r, s')"
      using assms 1 e1(2) by (auto simp: fs_write_def)
    note e2 = fs_write_all_effect [OF w p]
    have "fs_inv s1 \<Longrightarrow> fs_inv s'" using e2(4) [of "[]"] c(1) by simp
    then have "fs_ok s1 s'" using e2(1) by (simp add: fs_ok_def)
    then show ?thesis using e1(1) e2(2,3) c(1) by (auto intro: fs_ok_trans)
  qed
  then show "fs_ok s s'" "r = Inr () \<Longrightarrow> lookup s' = (lookup s)(p \<mapsto> NFile bs)"
    "\<And>q. q \<noteq> p \<Longrightarrow> lookup s' q = lookup s q" by auto
qed

text \<open>No call makes a link.\<close>

lemma fs_write_links:
  assumes "fs_write p bs s = (r, s')" "no_links s"
  shows "no_links s'"
proof -
  obtain r1 s1 where 1: "fs_create p s = (r1, s1)" by force
  note e1 = fs_create_effect [OF 1]
  show ?thesis
  proof (cases r1)
    case (Inl e)
    then show ?thesis using assms 1 e1(3) [OF Inl] by (auto simp: fs_write_def no_links_def)
  next
    case (Inr u)
    then have c: "lookup s1 = (lookup s)(p \<mapsto> NFile [])" "lookup s p \<noteq> Some NDir"
      and w: "fs_write_all p bs s1 = (r, s')" using assms(1) 1 e1(2) by (auto simp: fs_write_def)
    then have "p \<noteq> []" by auto
    from fs_write_all_effect(3) [OF w this] show ?thesis using assms(2) c(1) by (auto simp: no_links_def split: if_splits)
  qed
qed

lemma remove_paths_links: "remove_paths ps s = (r, s') \<Longrightarrow> no_links s \<Longrightarrow> no_links s'"
proof (induction ps arbitrary: s)
  case (Cons p ps)
  let ?s = "s\<lparr>op_count := Suc (op_count s)\<rparr>"
  have "no_links ?s" "no_links (del p ?s)" using Cons.prems(2) by (cases "p = []"; simp add: no_links_def)+
  then show ?case using Cons by (auto simp: fs_prim_def Let_def split: option.splits)
qed simp

lemma fs_remove_dir_all_links:
  assumes "fs_remove_dir_all p s = (r, s')" "no_links s"
  shows "no_links s'"
proof -
  have "no_links s1 = no_links s" if "nodes s1 = nodes s" for s1 using that by (simp add: no_links_def lookup_def)
  then show ?thesis using assms remove_paths_links unfolding fs_remove_dir_all_def
    by (auto elim!: fs_prim_cases under_dirs_cases split: fs_splits)
qed

lemma fs_read_to_string_effect:
  assumes "fs_read_to_string p s = (r, s')"
  shows "nodes s' = nodes s" "frame s s'" "r = Inr t \<Longrightarrow> lookup s p = Some (NFile t)"
  using assms fs_read_effect [of p s]
  by (auto simp: fs_read_to_string_def try_io_def from_utf8_def split: prod.splits sum.splits option.splits if_splits)

lemma path_is_dir_effect:
  assumes "path_is_dir p s = (b, s')"
  shows "nodes s' = nodes s" "frame s s'" "b \<Longrightarrow> lookup s p = Some NDir"
  using assms fs_symlink_metadata_effect [of p s]
  by (auto simp: path_is_dir_def split: prod.splits sum.splits node.splits)

text \<open>A list of paths is removable if each has nothing left below it when its turn comes.\<close>

fun removable :: "fsys \<Rightarrow> fpath list \<Rightarrow> bool" where
  "removable s [] \<longleftrightarrow> True"
| "removable s (p # ps) \<longleftrightarrow> p \<noteq> [] \<and> (\<forall>q. strict_prefix p q \<longrightarrow> lookup s q = None) \<and> removable (del p s) ps"

lemma removable_lookup: "lookup s' = lookup s \<Longrightarrow> removable s' ps = removable s ps"
proof (induction ps arbitrary: s s')
  case (Cons p ps)
  have "lookup (del p s') q = lookup (del p s) q" for q using Cons.prems by auto
  then show ?case using Cons.IH [of "del p s'" "del p s"] Cons.prems by (simp add: fun_eq_iff)
qed simp

lemma fs_inv_del_leaf:
  assumes "fs_inv s" "p \<noteq> []" "\<forall>q. strict_prefix p q \<longrightarrow> lookup s q = None"
  shows "fs_inv (del p s)"
proof -
  have "lookup (del p s) q = Some NDir" if "lookup (del p s) r \<noteq> None" "strict_prefix q r" for q r
    using that fs_invD [OF assms(1), of r q] assms(2,3) by (auto split: if_splits)
  moreover have "distinct (map fst (nodes (del p s)))" "[] \<notin> fst ` set (nodes (del p s))"
    using assms(1) by (auto simp: fs_inv_def del_def AList.delete_eq distinct_map_filter)
  ultimately show ?thesis by (simp add: fs_inv_def parent_error_None_iff)
qed

lemma remove_paths_effect:
  assumes "remove_paths ps s = (r, s')" "removable s ps"
  shows "fs_ok s s'" "r = Inr () \<Longrightarrow> lookup s' = (\<lambda>q. if q \<in> set ps then None else lookup s q)"
    "\<And>q. q \<notin> set ps \<Longrightarrow> lookup s' q = lookup s q"
proof -
  have "fs_ok s s' \<and> (r = Inr () \<longrightarrow> lookup s' = (\<lambda>q. if q \<in> set ps then None else lookup s q)) \<and>
    (\<forall>q. q \<notin> set ps \<longrightarrow> lookup s' q = lookup s q)"
    using assms
  proof (induction ps s arbitrary: r s' rule: remove_paths.induct)
    case (2 p ps s)
    let ?s = "s\<lparr>op_count := Suc (op_count s)\<rparr>"
    have p: "p \<noteq> []" using 2(3) by simp
    show ?case
    proof (cases "faults s OpRemove (op_count s)")
      case None
      then have 1: "fs_prim OpRemove (\<lambda>s. (Inr (), del p s)) s = (Inr (), del p ?s)" by (simp add: fs_prim_def)
      have l: "lookup (del p ?s) = lookup (del p s)" by (rule ext) auto
      have rest: "remove_paths ps (del p ?s) = (r, s')" using 2(2) by (simp add: 1)
      have ok: "fs_ok s (del p ?s)"
        using fs_inv_del_leaf [of ?s p] p 2(3) by (auto simp: fs_ok_def)
      have "removable (del p ?s) ps" using 2(3) removable_lookup [OF l] by simp
      from 2(1) [OF rest this] ok show ?thesis
        using p by (auto simp: fun_eq_iff intro: fs_ok_trans)
    next
      case (Some flt)
      then show ?thesis using 2(2) by (auto simp: fs_prim_def fs_ok_def)
    qed
  qed auto
  then show "fs_ok s s'" "r = Inr () \<Longrightarrow> lookup s' = (\<lambda>q. if q \<in> set ps then None else lookup s q)"
    "\<And>q. q \<notin> set ps \<Longrightarrow> lookup s' q = lookup s q" by auto
qed

lemma removableI:
  assumes "[] \<notin> set ps" "\<And>i q. i < length ps \<Longrightarrow> strict_prefix (ps ! i) q \<Longrightarrow> lookup s q \<noteq> None \<Longrightarrow> q \<in> set (take i ps)"
  shows "removable s ps"
  using assms
proof (induction ps arbitrary: s)
  case (Cons p ps)
  have "lookup s q = None" if "strict_prefix p q" for q
    using Cons.prems(2) [of 0 q] that by (cases "lookup s q") auto
  moreover have "removable (del p s) ps"
  proof (rule Cons.IH)
    fix i q
    assume i: "i < length ps" "strict_prefix (ps ! i) q" "lookup (del p s) q \<noteq> None"
    then have q: "q \<noteq> p" "lookup s q \<noteq> None" using Cons.prems(1) by (auto split: if_splits)
    then have "q \<in> set (take (Suc i) (p # ps))" using Cons.prems(2) [of "Suc i" q] i by simp
    then show "q \<in> set (take i ps)" using q(1) by simp
  qed (use Cons.prems in simp)
  ultimately show ?case using Cons.prems(1) by auto
qed simp

lemma set_descendants: "fs_inv s \<Longrightarrow> q \<in> set (descendants s p) \<longleftrightarrow> strict_prefix p q \<and> lookup s q \<noteq> None"
proof -
  assume "fs_inv s"
  then have "lookup s q \<noteq> None \<longleftrightarrow> q = [] \<or> q \<in> fst ` set (nodes s)"
    using map_of_eq_None_iff [of "nodes s" q] by (cases "map_of (nodes s) q") (simp_all add: lookup_def)
  then show ?thesis using \<open>fs_inv s\<close> by (auto simp: descendants_def fs_inv_def)
qed

lemma removable_descendants:
  assumes "fs_inv s" "p \<noteq> []"
  shows "removable s (rev (sort_key length (descendants s p)) @ [p])" (is "removable s ?L")
proof (rule removableI)
  have below: "strict_prefix p x" if "x \<in> set (descendants s p)" for x using that by (simp add: descendants_def)
  then show "[] \<notin> set ?L" using assms(2) by force
  have "sorted_wrt (\<lambda>x y. length y \<le> length x) (rev (sort_key length (descendants s p)))"
    using sorted_sort_key [of length "descendants s p"] by (simp add: sorted_wrt_rev sorted_wrt_map)
  moreover have "length p \<le> length x" if "x \<in> set (descendants s p)" for x
    using below [OF that] prefix_length_le by (auto simp: strict_prefix_def)
  ultimately have sorted: "sorted_wrt (\<lambda>x y. length y \<le> length x) ?L" by (simp add: sorted_wrt_append)
  fix i q
  assume i: "i < length ?L" "strict_prefix (?L ! i) q" "lookup s q \<noteq> None"
  have "?L ! i \<in> set ?L" using i(1) by (rule nth_mem)
  then have "prefix p (?L ! i)" using below by (auto simp: strict_prefix_def)
  then have "strict_prefix p q" using i(2) by (rule prefix_order.le_less_trans)
  then have "q \<in> set ?L" using i(3) set_descendants [OF assms(1)] by simp
  then obtain j where j: "j < length ?L" "?L ! j = q" by (auto simp only: in_set_conv_nth)
  have len: "length (?L ! i) < length q" using i(2) by (rule prefix_length_less)
  have "j < i"
  proof (rule ccontr)
    assume "\<not> j < i"
    then have "i = j \<or> length (?L ! j) \<le> length (?L ! i)"
      using sorted_wrt_nth_less [OF sorted, of i j] j(1) by (cases "i = j") auto
    then show False using len j(2) by auto
  qed
  then have "take i ?L ! j = q" "j < length (take i ?L)" using j i(1) by (simp_all only: nth_take length_take min_less_iff_conj)
  then show "q \<in> set (take i ?L)" using nth_mem by blast
qed

lemma fs_remove_dir_all_effect:
  assumes "fs_remove_dir_all p s = (r, s')" "fs_inv s" "p \<noteq> []"
  shows "fs_ok s s'" "r = Inr () \<Longrightarrow> lookup s' = (\<lambda>q. if prefix p q then None else lookup s q)"
    "\<And>q. \<not> prefix p q \<Longrightarrow> lookup s' q = lookup s q"
proof -
  have "fs_ok s s' \<and> (r = Inr () \<longrightarrow> lookup s' = (\<lambda>q. if prefix p q then None else lookup s q)) \<and>
    (\<forall>q. \<not> prefix p q \<longrightarrow> lookup s' q = lookup s q)"
  proof -
    let ?s = "s\<lparr>op_count := Suc (op_count s)\<rparr>"
    let ?L = "rev (sort_key length (descendants s p)) @ [p]"
    have d: "descendants ?s p = descendants s p" by (simp add: descendants_def)
    have step: "fs_ok s ?s" by (simp add: fs_ok_def)
    show ?thesis
    proof (cases "remove_paths ?L ?s = (r, s')")
      case True
      have "removable ?s ?L" using removable_descendants [of ?s p] assms(2,3) by (simp add: d)
      note e = remove_paths_effect [OF True this]
      have "q \<in> set ?L \<longleftrightarrow> prefix p q \<and> lookup s q \<noteq> None \<or> q = p" for q
        using set_descendants [OF assms(2), of q p] by (auto simp: strict_prefix_def)
      then show ?thesis using fs_ok_trans [OF step e(1)] e(2,3) by (auto simp: fun_eq_iff)
    next
      case False
      then show ?thesis
        using assms(1) step unfolding fs_remove_dir_all_def
        by (auto elim!: fs_prim_cases under_dirs_cases split: fs_splits simp: d)
    qed
  qed
  then show "fs_ok s s'" "r = Inr () \<Longrightarrow> lookup s' = (\<lambda>q. if prefix p q then None else lookup s q)"
    "\<And>q. \<not> prefix p q \<Longrightarrow> lookup s' q = lookup s q" by auto
qed

section \<open>Progress without faults\<close>

text \<open>A tree in which no call fails by itself.\<close>

definition calm_tree :: "fsys \<Rightarrow> bool" where
  "calm_tree s \<longleftrightarrow> fs_inv s \<and> quiet s"

lemma calm_tree_ok: "fs_ok s s' \<Longrightarrow> calm_tree s \<Longrightarrow> calm_tree s'"
  by (auto simp: calm_tree_def fs_ok_def quiet_frame)

lemma calm_tree_nodes: "nodes s' = nodes s \<Longrightarrow> frame s s' \<Longrightarrow> calm_tree s \<Longrightarrow> calm_tree s'"
  by (blast intro: calm_tree_ok fs_ok_nodes)

lemma quiet_prim: "quiet s \<Longrightarrow> fs_prim op f s = f (s\<lparr>op_count := Suc (op_count s)\<rparr>)"
  by (simp add: quiet_def fs_prim_run)

lemma quiet_op_count [simp]: "quiet (s\<lparr>op_count := k\<rparr>) = quiet s"
  by (simp add: quiet_def)

lemma calm_present: "calm_tree s \<Longrightarrow> lookup s p \<noteq> None \<Longrightarrow> parent_error s p = None"
  by (simp add: calm_tree_def fs_inv_def)

lemma calm_stat:
  assumes "calm_tree s"
  shows "path_is_dir p s = (lookup s p = Some NDir, s\<lparr>op_count := Suc (op_count s)\<rparr>)"
    "path_exists p s = (lookup s p \<noteq> None, s\<lparr>op_count := Suc (op_count s)\<rparr>)"
    "path_is_file p s = ((\<exists>b. lookup s p = Some (NFile b)), s\<lparr>op_count := Suc (op_count s)\<rparr>)"
proof -
  have q: "quiet s" and pe: "\<And>k. parent_error s p = Some k \<Longrightarrow> lookup s p = None"
    using assms calm_present [OF assms, of p] by (simp add: calm_tree_def, cases "lookup s p") auto
  show "path_is_dir p s = (lookup s p = Some NDir, s\<lparr>op_count := Suc (op_count s)\<rparr>)"
    "path_exists p s = (lookup s p \<noteq> None, s\<lparr>op_count := Suc (op_count s)\<rparr>)"
    "path_is_file p s = ((\<exists>b. lookup s p = Some (NFile b)), s\<lparr>op_count := Suc (op_count s)\<rparr>)"
    by (cases "parent_error s p"; auto simp: path_is_dir_def path_exists_def path_is_file_def fs_symlink_metadata_def
        quiet_prim [OF q] under_dirs_def pe split: option.split node.split)+
qed

lemma calm_read:
  "calm_tree s \<Longrightarrow> lookup s p = Some (NFile t) \<Longrightarrow> is_utf8 t \<Longrightarrow>
     fs_read_to_string p s = (Inr t, s\<lparr>op_count := Suc (op_count s)\<rparr>)"
  using calm_present [of s p]
  by (auto simp: fs_read_to_string_def fs_read_def quiet_prim under_dirs_def calm_tree_def from_utf8_def)

lemma calm_read_dir:
  "calm_tree s \<Longrightarrow> lookup s p = Some NDir \<Longrightarrow> fs_read_dir p s = (Inr (children s p), s\<lparr>op_count := Suc (op_count s)\<rparr>)"
  using calm_present [of s p]
  by (auto simp: fs_read_dir_def quiet_prim under_dirs_def calm_tree_def children_def)

lemma calm_mkdir:
  assumes "calm_tree s" "parent_error s p = None" "lookup s p = None"
  obtains s' where "fs_mkdir p s = (Inr (), s')" "calm_tree s'" "lookup s' = (lookup s)(p \<mapsto> NDir)"
proof -
  obtain r s' where m: "fs_mkdir p s = (r, s')" by force
  then have "r = Inr ()" using assms by (auto simp: fs_mkdir_def quiet_prim under_dirs_def calm_tree_def)
  with m that fs_mkdir_effect [OF m] assms(1) calm_tree_ok show thesis by blast
qed

lemma calm_mkdir_all:
  assumes "calm_tree s" "\<forall>q. prefix q p \<longrightarrow> lookup s q \<in> {None, Some NDir}"
  obtains s' where "fs_create_dir_all p s = (Inr (), s')" "calm_tree s'"
    "lookup s' = (\<lambda>q. if prefix q p then Some NDir else lookup s q)"
proof -
  have "\<exists>s'. mkdir_from [] p s = (Inr (), s') \<and> (\<forall>q. lookup s' q = (if prefix q ([] @ p) then Some NDir else lookup s q))"
    using assms by (intro mkdir_from_succeeds) (auto simp: calm_tree_def)
  then obtain s' where s': "mkdir_from [] p s = (Inr (), s')" "\<And>q. lookup s' q = (if prefix q p then Some NDir else lookup s q)"
    by auto
  moreover have "calm_tree s'" using mkdir_from_effect [OF s'(1)] assms(1) calm_tree_ok by blast
  ultimately show thesis using that by (auto simp: fs_create_dir_all_def fun_eq_iff)
qed

lemma calm_write:
  assumes "calm_tree s" "parent_error s p = None" "p \<noteq> []" "lookup s p = None \<or> (\<exists>b. lookup s p = Some (NFile b))"
  obtains s' where "fs_write p bs s = (Inr (), s')" "calm_tree s'" "lookup s' = (lookup s)(p \<mapsto> NFile bs)"
proof -
  obtain r s' where w: "fs_write p bs s = (r, s')" by force
  have "\<exists>s1. fs_create p s = (Inr (), s1) \<and> quiet s1"
    using assms by (auto simp: fs_create_def quiet_prim under_dirs_def calm_tree_def quiet_def put_def)
  then have "r = Inr ()" using w by (auto simp: fs_write_def fs_write_all_def quiet_def Let_def)
  with w that fs_write_effect [OF w] assms(1) calm_tree_ok show thesis by blast
qed

lemma calm_remove_paths:
  "quiet s \<Longrightarrow> fst (remove_paths ps s) = Inr ()"
proof (induction ps s rule: remove_paths.induct)
  case (2 p ps s)
  then show ?case by (simp add: quiet_prim) (simp add: quiet_def del_def)
qed simp

lemma calm_remove_dir_all:
  assumes "calm_tree s" "lookup s p = Some NDir" "p \<noteq> []"
  obtains s' where "fs_remove_dir_all p s = (Inr (), s')" "calm_tree s'"
    "lookup s' = (\<lambda>q. if prefix p q then None else lookup s q)"
proof -
  obtain r s' where m: "fs_remove_dir_all p s = (r, s')" by force
  have "r = fst (remove_paths (rev (sort_key length (descendants s p)) @ [p]) (s\<lparr>op_count := Suc (op_count s)\<rparr>))"
    using m assms calm_present [OF assms(1), of p]
    by (auto simp: fs_remove_dir_all_def quiet_prim under_dirs_def calm_tree_def descendants_def)
  then have "r = Inr ()" using calm_remove_paths assms(1) by (simp add: calm_tree_def)
  with m that fs_remove_dir_all_effect [OF m _ assms(3)] assms(1) calm_tree_ok show thesis
    by (auto simp: calm_tree_def)
qed

end
