(* ===== verification/Host_Skills.thy ===== *)
theory Host_Skills
  imports Host_Fs "HOL-Library.Word"
begin

text \<open>
  The skill service of the agent host (\<^verbatim>\<open>services/agent_host_rs/src/skills.rs\<close>): skills are directories of
  text files, every change of a user skill is recorded as a numbered snapshot, and the skills of the
  installation are copied in when the service starts.

  An operation runs under the lock of the registry, so it is a function on the file tree; JSON and ZIP
  are arguments (\<open>skill_libs\<close>).  Paths are component lists from the root of the tree; identifiers and file keys
  are joined to a directory as the code joins them (\<open>path_join\<close>, \<open>resolve_from\<close>), so that \<^verbatim>\<open>..\<close> leads to the
  directory above unless a check refuses it.  Recursion over directories is bounded by the depth of the tree.
\<close>

section \<open>Data\<close>

definition SKILL_VERSIONS_DIR :: string where "SKILL_VERSIONS_DIR = ''.skill-versions''"
definition HOST_MARKDOWN_FILE :: string where "HOST_MARKDOWN_FILE = ''SKILL.md''"
definition HOST_METADATA_FILE :: string where "HOST_METADATA_FILE = ''agentspace.json''"
definition MARKDOWN_CONTENT_TYPE :: string where "MARKDOWN_CONTENT_TYPE = ''text/markdown; charset=utf-8''"
definition ZIP_CONTENT_TYPE :: string where "ZIP_CONTENT_TYPE = ''application/zip''"

datatype host_volume_mode = VolumeRo | VolumeRw

fun host_volume_mode_str :: "host_volume_mode \<Rightarrow> string" where
  "host_volume_mode_str VolumeRo = ''ro''"
| "host_volume_mode_str VolumeRw = ''rw''"

record host_volume_declaration =
  hvd_id :: string
  hvd_mount_path :: string
  hvd_advertise :: bool
  hvd_mode :: host_volume_mode

record host_skill_metadata =
  hsm_schema_version :: "32 word"
  hsm_volumes :: "host_volume_declaration list"

record skill_volume_resource =
  svr_skill_id :: string
  svr_resource_id :: string
  svr_mount_path :: string
  svr_advertise :: bool
  svr_mode :: host_volume_mode

datatype skill_source = Builtin | User

fun skill_source_str :: "skill_source \<Rightarrow> string" where
  "skill_source_str Builtin = ''builtin''"
| "skill_source_str User = ''user''"

record host_skill =
  hs_skill_id :: string
  hs_files :: "string btree"
  hs_source :: skill_source

record skill_summary =
  ss_skill_id :: string
  ss_source :: skill_source
  ss_file_count :: nat

record skill_download =
  sdl_filename :: string
  sdl_content_type :: string
  sdl_body :: bytes

record skill_version =
  skv_skill_id :: string
  skv_version :: "64 word"
  skv_created_at :: string
  skv_files :: "string btree"

record skill_version_summary =
  svs_skill_id :: string
  svs_version :: "64 word"
  svs_created_at :: string
  svs_file_count :: nat

text \<open>A poisoned lock, a panicking task, an invalid header and a failing \<^verbatim>\<open>strip_prefix\<close> do not occur.\<close>

datatype skill_error =
    SkillNotFound string
  | SkillAlreadyExists string
  | HostInvalidSkillId string
  | InvalidSkillFilePath string
  | InvalidMetadata string message
  | BuiltinSkillReadOnly string
  | SkillVersionNotFound string "64 word"
  | SkillIo string fpath io_error
  | SkillJson string fpath string
  | SkillZip string string
  | ArchiveIo string io_error

definition path_text :: "fpath \<Rightarrow> string" where
  "path_text p = concat (map (\<lambda>c. CHR ''/'' # c) p)"

fun display_skill_error :: "skill_error \<Rightarrow> message" where
  "display_skill_error (SkillNotFound i) = [Txt ''skill not found: '', Txt i]"
| "display_skill_error (SkillAlreadyExists i) = [Txt ''skill already exists: '', Txt i]"
| "display_skill_error (HostInvalidSkillId i) =
     [Txt ''skill_id must use lowercase alphanumeric characters and single hyphens only: '', Txt i]"
| "display_skill_error (InvalidSkillFilePath p) = [Txt ''invalid skill file path: '', Txt p]"
| "display_skill_error (InvalidMetadata i m) =
     [Txt ''invalid metadata for builtin skill '', Txt (CHR 0x27 # i @ [CHR 0x27]), Txt '': ''] @ m"
| "display_skill_error (BuiltinSkillReadOnly i) = [Txt ''builtin skill '', Txt (CHR 0x27 # i @ [CHR 0x27]), Txt '' is read-only'']"
| "display_skill_error (SkillVersionNotFound i v) =
     [Txt ''skill version not found: '', Txt i, Txt ''@'', Txt (show_nat (unat v))]"
| "display_skill_error (SkillIo operation p e) =
     [Txt ''failed to '', Txt operation, Txt '' at '', Ext (path_text p), Txt '': '', Ext (io_error_text e)]"
| "display_skill_error (SkillJson operation p e) =
     [Txt ''failed to '', Txt operation, Txt '' at '', Ext (path_text p), Txt '': '', Ext e]"
| "display_skill_error (SkillZip operation e) = [Txt ''failed to '', Txt operation, Txt '': '', Ext e]"
| "display_skill_error (ArchiveIo operation e) = [Txt ''failed to '', Txt operation, Txt '': '', Ext (io_error_text e)]"

text \<open>The libraries: JSON of the version files and of the metadata, and the ZIP writer on its output.\<close>

record skill_libs =
  version_to_json :: "skill_version \<Rightarrow> (string, bytes) result"
  version_of_json :: "string \<Rightarrow> (string, skill_version) result"
  version_summary_of_json :: "bytes \<Rightarrow> (string, skill_version_summary) result"
  host_metadata_of_json :: "string \<Rightarrow> (string, host_skill_metadata) result"
  zip_start_file :: "string \<Rightarrow> bytes \<Rightarrow> (string, bytes) result"
  zip_write_all :: "string \<Rightarrow> bytes \<Rightarrow> (io_error, bytes) result"
  zip_finish :: "bytes \<Rightarrow> (string, bytes) result"

record skills_service =
  skills_dir :: fpath
  builtin_skills_dir :: fpath
  builtin_ids :: "string list"

type_synonym 'a skill_call = "fsys \<Rightarrow> (skill_error, 'a, fsys) outcome"

text \<open>\<^verbatim>\<open>map_err(|source| io_error(operation, path, source))\<close>.\<close>

definition with_io :: "string \<Rightarrow> fpath \<Rightarrow> (io_error, 'a, 's) outcome \<Rightarrow> (skill_error, 'a, 's) outcome" where
  "with_io operation p r = (case r of (Inl e, s) \<Rightarrow> (Inl (SkillIo operation p e), s) | (Inr x, s) \<Rightarrow> (Inr x, s))"

definition json_res :: "string \<Rightarrow> fpath \<Rightarrow> (string, 'a) result \<Rightarrow> (skill_error, 'a) result" where
  "json_res operation p r = (case r of Inl e \<Rightarrow> Inl (SkillJson operation p e) | Inr x \<Rightarrow> Inr x)"

section \<open>Validation\<close>

definition host_validate_skill_id :: "string \<Rightarrow> (skill_error, unit) result" where
  "host_validate_skill_id skill_id =
     (if skill_id \<noteq> [] \<and>
        list_all (\<lambda>part. part \<noteq> [] \<and> list_all (\<lambda>c. is_ascii_lowercase c \<or> is_ascii_digit c) part) (split_on (CHR ''-'') skill_id)
      then Inr () else Inl (HostInvalidSkillId skill_id))"

definition RESERVED_PATHS :: "string list" where
  "RESERVED_PATHS = [''/workspace'', ''/root/.copilot'', ''/mnt/all-skills'', ''/skills'', ''/root/.config/opencode/skills'']"

definition validate_skill_mount_path :: "string \<Rightarrow> string \<Rightarrow> (skill_error, unit) result" where
  "validate_skill_mount_path skill_id p =
     (if \<not> (prefix ''/'' p \<and> p \<noteq> ''/'' \<and> \<not> suffix ''/'' p \<and>
          list_all (\<lambda>c. c \<notin> {[], ''.'', ''..''}) (tl (split_on (CHR ''/'') p))) then
        Inl (InvalidMetadata skill_id [Txt ''volume mount_path '', Dbg p, Txt '' must be a normalized absolute path''])
      else if list_ex (\<lambda>r. p = r \<or> prefix (r @ ''/'') p) RESERVED_PATHS then
        Inl (InvalidMetadata skill_id [Txt ''volume mount_path '', Dbg p, Txt '' overlaps a reserved kernel path''])
      else Inr ())"

text \<open>No component is \<^verbatim>\<open>..\<close> and one names a file.\<close>

definition validate_file_path :: "string \<Rightarrow> (skill_error, unit) result" where
  "validate_file_path p =
     (let cs = split_on (CHR ''/'') p
      in if p \<noteq> [] \<and> \<not> prefix ''/'' p \<and> ''..'' \<notin> set cs \<and> list_ex (\<lambda>c. c \<noteq> [] \<and> c \<noteq> ''.'') cs then Inr ()
         else Inl (InvalidSkillFilePath p))"

fun validate_file_paths :: "string list \<Rightarrow> (skill_error, unit) result" where
  "validate_file_paths [] = Inr ()"
| "validate_file_paths (p # ps) = try_res (validate_file_path p) (\<lambda>_. validate_file_paths ps)"

definition normalize_posix_relative_path :: "string \<Rightarrow> fpath" where
  "normalize_posix_relative_path p = path_components p"

section \<open>Directories\<close>

text \<open>Reading a directory: the entries one by one, each of which may fail, then sorted by name.\<close>

fun collect_dir_entries :: "(bytes \<times> node) list \<Rightarrow> unit fs_call" where
  "collect_dir_entries [] s = (Inr (), s)"
| "collect_dir_entries (_ # es) s = try_io (fs_prim OpEntry (\<lambda>s. (Inr (), s)) s) (\<lambda>_. collect_dir_entries es)"

definition read_dir_sorted :: "string \<Rightarrow> fpath \<Rightarrow> (bytes \<times> node) list skill_call" where
  "read_dir_sorted operation p s =
     with_io operation p (try_io (fs_read_dir p s) (\<lambda>es s.
       try_io (collect_dir_entries es s) (\<lambda>_ s. (Inr (sort_key fst es), s))))"

definition entry_type :: "string \<Rightarrow> fpath \<Rightarrow> node \<Rightarrow> node skill_call" where
  "entry_type operation p t s = with_io operation p (fs_prim OpEntry (\<lambda>s. (Inr t, s)) s)"

definition remove_existing_path :: "string \<Rightarrow> fpath \<Rightarrow> unit skill_call" where
  "remove_existing_path operation p s =
     (case fs_symlink_metadata p s of
        (Inr NDir, s) \<Rightarrow> with_io operation p (fs_remove_dir_all p s)
      | (Inr _, s) \<Rightarrow> with_io operation p (fs_remove_file p s)
      | (Inl e, s) \<Rightarrow> if io_error_kind e = IoNotFound then (Inr (), s) else (Inl (SkillIo operation p e), s))"

definition posix_relative_path :: "fpath \<Rightarrow> fpath \<Rightarrow> (skill_error, string) result" where
  "posix_relative_path base p =
     (let rel = join_with ''/'' (drop (length base) p) in if is_utf8 rel then Inr rel else Inl (InvalidSkillFilePath rel))"

fun collect_skill_files :: "nat \<Rightarrow> fpath \<Rightarrow> fpath \<Rightarrow> string btree \<Rightarrow> string btree skill_call"
  and collect_entries :: "nat \<Rightarrow> fpath \<Rightarrow> fpath \<Rightarrow> (bytes \<times> node) list \<Rightarrow> string btree \<Rightarrow> string btree skill_call" where
  "collect_skill_files 0 base dir files s = (Inr files, s)"
| "collect_skill_files (Suc fuel) base dir files s =
     try_io (read_dir_sorted ''read skill files'' dir s) (\<lambda>es. collect_entries fuel base dir es files)"
| "collect_entries fuel base dir [] files s = (Inr files, s)"
| "collect_entries fuel base dir ((name, t) # es) files s =
     (let p = dir @ [name] in
      try_io (entry_type ''inspect skill file'' p t s) (\<lambda>t s.
        case t of
          NDir \<Rightarrow> try_io (collect_skill_files fuel base p files s) (\<lambda>files. collect_entries fuel base dir es files)
        | NFile _ \<Rightarrow> try_io (posix_relative_path base p, s) (\<lambda>rel s.
            try_io (with_io ''read skill file'' p (fs_read_to_string p s)) (\<lambda>content.
              collect_entries fuel base dir es (btree_insert rel content files)))
        | _ \<Rightarrow> collect_entries fuel base dir es files s))"

definition read_skill_files :: "fpath \<Rightarrow> string btree skill_call" where
  "read_skill_files dir s = collect_skill_files (Suc (tree_depth s)) dir dir [] s"

fun count_skill_files_in :: "nat \<Rightarrow> fpath \<Rightarrow> nat skill_call"
  and count_entries :: "nat \<Rightarrow> fpath \<Rightarrow> (bytes \<times> node) list \<Rightarrow> nat \<Rightarrow> nat skill_call" where
  "count_skill_files_in 0 dir s = (Inr 0, s)"
| "count_skill_files_in (Suc fuel) dir s =
     try_io (read_dir_sorted ''count skill files'' dir s) (\<lambda>es. count_entries fuel dir es 0)"
| "count_entries fuel dir [] n s = (Inr n, s)"
| "count_entries fuel dir ((name, t) # es) n s =
     try_io (entry_type ''inspect skill file'' (dir @ [name]) t s) (\<lambda>t s.
       case t of
         NDir \<Rightarrow> try_io (count_skill_files_in fuel (dir @ [name]) s) (\<lambda>m. count_entries fuel dir es (n + m))
       | NFile _ \<Rightarrow> count_entries fuel dir es (Suc n) s
       | _ \<Rightarrow> count_entries fuel dir es n s)"

definition count_skill_files :: "fpath \<Rightarrow> nat skill_call" where
  "count_skill_files dir s = count_skill_files_in (Suc (tree_depth s)) dir s"

fun copy_dir_all_in :: "nat \<Rightarrow> fpath \<Rightarrow> fpath \<Rightarrow> unit skill_call"
  and copy_entries :: "nat \<Rightarrow> fpath \<Rightarrow> fpath \<Rightarrow> (bytes \<times> node) list \<Rightarrow> unit skill_call" where
  "copy_dir_all_in 0 src dst s = (Inr (), s)"
| "copy_dir_all_in (Suc fuel) src dst s =
     try_io (with_io ''create builtin skill dir'' dst (fs_create_dir_all dst s)) (\<lambda>_ s.
     try_io (read_dir_sorted ''read builtin skill files'' src s) (\<lambda>es. copy_entries fuel src dst es))"
| "copy_entries fuel src dst [] s = (Inr (), s)"
| "copy_entries fuel src dst ((name, t) # es) s =
     try_io (entry_type ''inspect builtin skill file'' (src @ [name]) t s) (\<lambda>t s.
       case t of
         NDir \<Rightarrow> try_io (copy_dir_all_in fuel (src @ [name]) (dst @ [name]) s) (\<lambda>_. copy_entries fuel src dst es)
       | NFile _ \<Rightarrow> try_io (with_io ''copy builtin skill file'' (src @ [name]) (fs_copy (src @ [name]) (dst @ [name]) s)) (\<lambda>_.
           copy_entries fuel src dst es)
       | _ \<Rightarrow> copy_entries fuel src dst es s)"

definition copy_dir_all :: "fpath \<Rightarrow> fpath \<Rightarrow> unit skill_call" where
  "copy_dir_all src dst s = copy_dir_all_in (Suc (tree_depth s)) src dst s"

text \<open>The texts of the paths, as an error names them, keep the \<^verbatim>\<open>..\<close> components.\<close>

fun write_skill_files :: "fpath \<Rightarrow> (string \<times> string) list \<Rightarrow> unit skill_call" where
  "write_skill_files dir [] s = (Inr (), s)"
| "write_skill_files dir ((name, content) # files) s =
     (let cs = normalize_posix_relative_path name; p = dir @ cs; base = (if cs = [] then butlast dir else dir) in
      try_io (with_io ''create skill file parent dir'' (butlast p) (fs_create_dir_all_in base (butlast cs) s)) (\<lambda>_ s.
      try_io (with_io ''write skill file'' p (fs_write (resolve_from dir cs) content s)) (\<lambda>_. write_skill_files dir files)))"

section \<open>Versions\<close>

definition skill_path :: "skills_service \<Rightarrow> string \<Rightarrow> fpath" where
  "skill_path sv skill_id = path_join (skills_dir sv) skill_id"

definition skill_versions_dir :: "skills_service \<Rightarrow> string \<Rightarrow> fpath" where
  "skill_versions_dir sv skill_id = path_join (skills_dir sv @ [SKILL_VERSIONS_DIR]) skill_id"

text \<open>\<^verbatim>\<open>{version:020}\<close>.\<close>

definition pad20 :: "64 word \<Rightarrow> string" where
  "pad20 v = (let t = show_nat (unat v) in replicate (20 - length t) (CHR ''0'') @ t)"

definition skill_version_path :: "skills_service \<Rightarrow> string \<Rightarrow> 64 word \<Rightarrow> fpath" where
  "skill_version_path sv skill_id v = skill_versions_dir sv skill_id @ [pad20 v @ ''.json'']"

text \<open>\<^verbatim>\<open>Path::file_stem\<close> and \<^verbatim>\<open>Path::extension\<close> of a file name.\<close>

definition stem_extension :: "bytes \<Rightarrow> bytes \<times> bytes option" where
  "stem_extension name =
     (let parts = split_on (CHR ''.'') name; stem = join_with ''.'' (butlast parts)
      in if length parts = 1 \<or> stem = [] then (name, None) else (stem, Some (last parts)))"

text \<open>\<^verbatim>\<open>str::parse::<u64>\<close>.\<close>

definition digits_value :: "string \<Rightarrow> int" where
  "digits_value = foldl (\<lambda>n c. 10 * n + (int (byte_val c) - 48)) 0"

definition parse_u64 :: "string \<Rightarrow> (64 word) option" where
  "parse_u64 s =
     (let d = (case strip_prefix ''+'' s of Some t \<Rightarrow> t | None \<Rightarrow> s)
      in if d \<noteq> [] \<and> list_all is_ascii_digit d \<and> digits_value d < 2 ^ 64 then Some (of_int (digits_value d)) else None)"

definition entry_version :: "bytes \<Rightarrow> (64 word) option" where
  "entry_version name = Option.bind (from_utf8 (fst (stem_extension name))) parse_u64"

fun latest_version :: "fpath \<Rightarrow> (bytes \<times> node) list \<Rightarrow> 64 word \<Rightarrow> (64 word) skill_call" where
  "latest_version dir [] latest s = (Inr latest, s)"
| "latest_version dir ((name, t) # es) latest s =
     try_io (entry_type ''inspect skill version file'' (dir @ [name]) t s) (\<lambda>t.
       latest_version dir es
         (case (t, entry_version name) of (NFile _, Some v) \<Rightarrow> max latest v | _ \<Rightarrow> latest))"

definition next_skill_version :: "fpath \<Rightarrow> (64 word) skill_call" where
  "next_skill_version dir s =
     try_io (read_dir_sorted ''read skill versions dir'' dir s) (\<lambda>es s.
     try_io (latest_version dir es 0 s) (\<lambda>latest s. (Inr (latest + 1), s)))"

definition save_skill_version ::
  "skill_libs \<Rightarrow> string \<Rightarrow> skills_service \<Rightarrow> string \<Rightarrow> string btree \<Rightarrow> skill_version skill_call" where
  "save_skill_version lb now sv skill_id files s =
     (let dir = skill_versions_dir sv skill_id in
      try_io (with_io ''create skill versions dir'' dir (fs_create_dir_all dir s)) (\<lambda>_ s.
      try_io (next_skill_version dir s) (\<lambda>v s.
      let snap = \<lparr>skv_skill_id = skill_id, skv_version = v, skv_created_at = now, skv_files = files\<rparr>;
          p = skill_version_path sv skill_id v in
      try_io (json_res ''serialize skill version'' p (version_to_json lb snap), s) (\<lambda>content s.
      try_io (with_io ''write skill version'' p (fs_write p content s)) (\<lambda>_ s. (Inr snap, s))))))"

definition read_skill_version :: "skill_libs \<Rightarrow> fpath \<Rightarrow> skill_version skill_call" where
  "read_skill_version lb p s =
     try_io (with_io ''read skill version'' p (fs_read_to_string p s)) (\<lambda>content s.
       (json_res ''parse skill version'' p (version_of_json lb content), s))"

definition read_skill_version_summary :: "skill_libs \<Rightarrow> fpath \<Rightarrow> skill_version_summary skill_call" where
  "read_skill_version_summary lb p s =
     try_io (with_io ''open skill version'' p (fs_read p s)) (\<lambda>content s.
       (json_res ''parse skill version summary'' p (version_summary_of_json lb content), s))"

section \<open>The operations\<close>

definition is_builtin :: "skills_service \<Rightarrow> string \<Rightarrow> bool" where
  "is_builtin sv skill_id \<longleftrightarrow> skill_id \<in> set (builtin_ids sv)"

definition source_for :: "skills_service \<Rightarrow> string \<Rightarrow> skill_source" where
  "source_for sv skill_id = (if is_builtin sv skill_id then Builtin else User)"

definition ensure_base_dir :: "skills_service \<Rightarrow> unit skill_call" where
  "ensure_base_dir sv s = with_io ''create skills dir'' (skills_dir sv) (fs_create_dir_all (skills_dir sv) s)"

definition ensure_user_skill_exists :: "skills_service \<Rightarrow> string \<Rightarrow> unit skill_call" where
  "ensure_user_skill_exists sv skill_id s =
     (if is_builtin sv skill_id then (Inl (BuiltinSkillReadOnly skill_id), s)
      else (case path_is_dir (skill_path sv skill_id) s of
          (False, s) \<Rightarrow> (Inl (SkillNotFound skill_id), s)
        | (True, s) \<Rightarrow> (Inr (), s)))"

definition host_create_skill ::
  "skill_libs \<Rightarrow> string \<Rightarrow> skills_service \<Rightarrow> string \<Rightarrow> string btree \<Rightarrow> host_skill skill_call" where
  "host_create_skill lb now sv skill_id files s =
     try_io (host_validate_skill_id skill_id, s) (\<lambda>_ s.
     if is_builtin sv skill_id then (Inl (SkillAlreadyExists skill_id), s)
     else
       try_io (ensure_base_dir sv s) (\<lambda>_ s.
       let dir = skill_path sv skill_id in
       case path_exists dir s of
         (True, s) \<Rightarrow> (Inl (SkillAlreadyExists skill_id), s)
       | (False, s) \<Rightarrow>
           try_io (validate_file_paths (map fst files), s) (\<lambda>_ s.
           try_io (with_io ''create skill dir'' dir (fs_mkdir dir s)) (\<lambda>_ s.
           try_io (write_skill_files dir files s) (\<lambda>_ s.
           try_io (save_skill_version lb now sv skill_id files s) (\<lambda>_ s.
           try_io (read_skill_files dir s) (\<lambda>stored s.
             (Inr \<lparr>hs_skill_id = skill_id, hs_files = stored, hs_source = User\<rparr>, s))))))))"

definition host_get_skill :: "skills_service \<Rightarrow> string \<Rightarrow> host_skill skill_call" where
  "host_get_skill sv skill_id s =
     try_io (host_validate_skill_id skill_id, s) (\<lambda>_ s.
     case path_is_dir (skill_path sv skill_id) s of
       (False, s) \<Rightarrow> (Inl (SkillNotFound skill_id), s)
     | (True, s) \<Rightarrow> try_io (read_skill_files (skill_path sv skill_id) s) (\<lambda>files s.
         (Inr \<lparr>hs_skill_id = skill_id, hs_files = files, hs_source = source_for sv skill_id\<rparr>, s)))"

fun zip_entries :: "skill_libs \<Rightarrow> (string \<times> string) list \<Rightarrow> bytes \<Rightarrow> (skill_error, bytes) result" where
  "zip_entries lb [] w = Inr w"
| "zip_entries lb ((name, content) # files) w =
     (case zip_start_file lb name w of
        Inl e \<Rightarrow> Inl (SkillZip ''start zip file'' e)
      | Inr w \<Rightarrow> (case zip_write_all lb content w of
          Inl e \<Rightarrow> Inl (ArchiveIo ''write zip file'' e)
        | Inr w \<Rightarrow> zip_entries lb files w))"

definition build_skill_zip :: "skill_libs \<Rightarrow> string btree \<Rightarrow> (skill_error, bytes) result" where
  "build_skill_zip lb files =
     try_res (zip_entries lb files []) (\<lambda>w.
       case zip_finish lb w of Inl e \<Rightarrow> Inl (SkillZip ''finish zip'' e) | Inr bs \<Rightarrow> Inr bs)"

definition host_download_skill :: "skill_libs \<Rightarrow> skills_service \<Rightarrow> string \<Rightarrow> skill_download skill_call" where
  "host_download_skill lb sv skill_id s =
     try_io (host_get_skill sv skill_id s) (\<lambda>skill s.
       case hs_files skill of
         [(name, content)] \<Rightarrow>
           if name = HOST_MARKDOWN_FILE then
             (Inr \<lparr>sdl_filename = HOST_MARKDOWN_FILE, sdl_content_type = MARKDOWN_CONTENT_TYPE, sdl_body = content\<rparr>, s)
           else try_io (build_skill_zip lb (hs_files skill), s) (\<lambda>bs s.
             (Inr \<lparr>sdl_filename = skill_id @ ''.zip'', sdl_content_type = ZIP_CONTENT_TYPE, sdl_body = bs\<rparr>, s))
       | _ \<Rightarrow> try_io (build_skill_zip lb (hs_files skill), s) (\<lambda>bs s.
             (Inr \<lparr>sdl_filename = skill_id @ ''.zip'', sdl_content_type = ZIP_CONTENT_TYPE, sdl_body = bs\<rparr>, s)))"

fun list_skill_entries :: "skills_service \<Rightarrow> (bytes \<times> node) list \<Rightarrow> skill_summary list skill_call" where
  "list_skill_entries sv [] s = (Inr [], s)"
| "list_skill_entries sv ((name, t) # es) s =
     try_io (entry_type ''inspect skill entry'' (skills_dir sv @ [name]) t s) (\<lambda>t s.
       if t = NDir \<and> is_utf8 name \<and> host_validate_skill_id name = Inr () then
         try_io (count_skill_files (skills_dir sv @ [name]) s) (\<lambda>n s.
         try_io (list_skill_entries sv es s) (\<lambda>rest s.
           (Inr (\<lparr>ss_skill_id = name, ss_source = source_for sv name, ss_file_count = n\<rparr> # rest), s)))
       else list_skill_entries sv es s)"

definition host_list_skills :: "skills_service \<Rightarrow> skill_summary list skill_call" where
  "host_list_skills sv s =
     try_io (ensure_base_dir sv s) (\<lambda>_ s.
     try_io (read_dir_sorted ''read skills dir'' (skills_dir sv) s) (\<lambda>es. list_skill_entries sv es))"

fun version_entries :: "fpath \<Rightarrow> (bytes \<times> node) list \<Rightarrow> fpath list skill_call" where
  "version_entries dir [] s = (Inr [], s)"
| "version_entries dir ((name, t) # es) s =
     try_io (entry_type ''inspect skill version file'' (dir @ [name]) t s) (\<lambda>t s.
     try_io (version_entries dir es s) (\<lambda>rest s.
       (Inr (case t of
          NFile _ \<Rightarrow> if snd (stem_extension name) = Some ''json'' then (dir @ [name]) # rest else rest
        | _ \<Rightarrow> rest), s)))"

definition skill_version_paths :: "skills_service \<Rightarrow> string \<Rightarrow> fpath list skill_call" where
  "skill_version_paths sv skill_id s =
     try_io (host_validate_skill_id skill_id, s) (\<lambda>_ s.
     try_io (ensure_user_skill_exists sv skill_id s) (\<lambda>_ s.
     let dir = skill_versions_dir sv skill_id in
     case path_is_dir dir s of
       (False, s) \<Rightarrow> (Inr [], s)
     | (True, s) \<Rightarrow> try_io (read_dir_sorted ''read skill versions dir'' dir s) (\<lambda>es. version_entries dir es)))"

fun read_all :: "(fpath \<Rightarrow> 'a skill_call) \<Rightarrow> fpath list \<Rightarrow> 'a list skill_call" where
  "read_all f [] s = (Inr [], s)"
| "read_all f (p # ps) s = try_io (f p s) (\<lambda>x s. try_io (read_all f ps s) (\<lambda>xs s. (Inr (x # xs), s)))"

definition host_list_skill_versions :: "skill_libs \<Rightarrow> skills_service \<Rightarrow> string \<Rightarrow> skill_version list skill_call" where
  "host_list_skill_versions lb sv skill_id s =
     try_io (skill_version_paths sv skill_id s) (\<lambda>ps s.
     try_io (read_all (read_skill_version lb) ps s) (\<lambda>vs s. (Inr (sort_key skv_version vs), s)))"

definition list_skill_version_summaries ::
  "skill_libs \<Rightarrow> skills_service \<Rightarrow> string \<Rightarrow> skill_version_summary list skill_call" where
  "list_skill_version_summaries lb sv skill_id s =
     try_io (skill_version_paths sv skill_id s) (\<lambda>ps s.
     try_io (read_all (read_skill_version_summary lb) ps s) (\<lambda>vs s. (Inr (sort_key svs_version vs), s)))"

definition host_update_skill ::
  "skill_libs \<Rightarrow> string \<Rightarrow> skills_service \<Rightarrow> string \<Rightarrow> string btree \<Rightarrow> host_skill skill_call" where
  "host_update_skill lb now sv skill_id files s =
     try_io (host_validate_skill_id skill_id, s) (\<lambda>_ s.
     try_io (ensure_user_skill_exists sv skill_id s) (\<lambda>_ s.
     let dir = skill_path sv skill_id in
     try_io (validate_file_paths (map fst files), s) (\<lambda>_ s.
     try_io (host_list_skill_versions lb sv skill_id s) (\<lambda>versions s.
     try_io (if versions = [] then
         try_io (read_skill_files dir s) (\<lambda>existing s.
         try_io (save_skill_version lb now sv skill_id existing s) (\<lambda>_ s. (Inr (), s)))
       else (Inr (), s)) (\<lambda>_ s.
     try_io (with_io ''remove skill dir'' dir (fs_remove_dir_all dir s)) (\<lambda>_ s.
     try_io (with_io ''create skill dir'' dir (fs_create_dir_all dir s)) (\<lambda>_ s.
     try_io (write_skill_files dir files s) (\<lambda>_ s.
     try_io (save_skill_version lb now sv skill_id files s) (\<lambda>_ s.
     try_io (read_skill_files dir s) (\<lambda>stored s.
       (Inr \<lparr>hs_skill_id = skill_id, hs_files = stored, hs_source = User\<rparr>, s)))))))))))"

definition host_rollback_skill ::
  "skill_libs \<Rightarrow> string \<Rightarrow> skills_service \<Rightarrow> string \<Rightarrow> 64 word \<Rightarrow> host_skill skill_call" where
  "host_rollback_skill lb now sv skill_id v s =
     try_io (host_validate_skill_id skill_id, s) (\<lambda>_ s.
     try_io (ensure_user_skill_exists sv skill_id s) (\<lambda>_ s.
     case path_is_file (skill_version_path sv skill_id v) s of
       (False, s) \<Rightarrow> (Inl (SkillVersionNotFound skill_id v), s)
     | (True, s) \<Rightarrow>
         try_io (read_skill_version lb (skill_version_path sv skill_id v) s) (\<lambda>snap.
           host_update_skill lb now sv skill_id (skv_files snap))))"

definition host_delete_skill :: "skills_service \<Rightarrow> string \<Rightarrow> unit skill_call" where
  "host_delete_skill sv skill_id s =
     try_io (host_validate_skill_id skill_id, s) (\<lambda>_ s.
     if is_builtin sv skill_id then (Inl (BuiltinSkillReadOnly skill_id), s)
     else
       let dir = skill_path sv skill_id in
       case path_is_dir dir s of
         (False, s) \<Rightarrow> (Inl (SkillNotFound skill_id), s)
       | (True, s) \<Rightarrow>
           try_io (with_io ''remove skill dir'' dir (fs_remove_dir_all dir s)) (\<lambda>_.
             remove_existing_path ''remove skill version history'' (skill_versions_dir sv skill_id)))"

subsection \<open>Volumes and the skills of the installation\<close>

fun volume_resources :: "string \<Rightarrow> host_volume_declaration list \<Rightarrow> string list \<Rightarrow> string list
    \<Rightarrow> (skill_error, skill_volume_resource list) result" where
  "volume_resources skill_id [] resource_ids mount_paths = Inr []"
| "volume_resources skill_id (d # ds) resource_ids mount_paths =
     (if host_validate_skill_id (hvd_id d) \<noteq> Inr () then
        Inl (InvalidMetadata skill_id [Txt ''invalid volume resource id '', Dbg (hvd_id d)])
      else if hvd_id d \<in> set resource_ids then
        Inl (InvalidMetadata skill_id [Txt ''duplicate volume resource id '', Dbg (hvd_id d)])
      else try_res (validate_skill_mount_path skill_id (hvd_mount_path d)) (\<lambda>_.
        if hvd_mount_path d \<in> set mount_paths then
          Inl (InvalidMetadata skill_id [Txt ''duplicate volume mount_path '', Dbg (hvd_mount_path d)])
        else try_res (volume_resources skill_id ds (hvd_id d # resource_ids) (hvd_mount_path d # mount_paths)) (\<lambda>rest.
          Inr (\<lparr>svr_skill_id = skill_id, svr_resource_id = hvd_id d, svr_mount_path = hvd_mount_path d,
                svr_advertise = hvd_advertise d, svr_mode = hvd_mode d\<rparr> # rest))))"

definition skill_volume_resources :: "skill_libs \<Rightarrow> string \<Rightarrow> fpath \<Rightarrow> skill_volume_resource list skill_call" where
  "skill_volume_resources lb skill_id dir s =
     (let p = dir @ [HOST_METADATA_FILE] in
      case path_is_file p s of
        (False, s) \<Rightarrow> (Inr [], s)
      | (True, s) \<Rightarrow>
          try_io (with_io ''read skill metadata'' p (fs_read_to_string p s)) (\<lambda>content s.
          try_io (json_res ''parse skill metadata'' p (host_metadata_of_json lb content), s) (\<lambda>meta s.
          if hsm_schema_version meta \<noteq> 1 then
            (Inl (InvalidMetadata skill_id [Txt ''unsupported schema_version '', Txt (show_nat (unat (hsm_schema_version meta))),
               Txt ''; expected 1'']), s)
          else (volume_resources skill_id (hsm_volumes meta) [] [], s))))"

fun add_resources :: "string \<Rightarrow> skill_volume_resource list \<Rightarrow> string list \<Rightarrow> (skill_error, string list) result" where
  "add_resources skill_id [] mount_paths = Inr mount_paths"
| "add_resources skill_id (r # rs) mount_paths =
     (if svr_mount_path r \<in> set mount_paths then
        Inl (InvalidMetadata skill_id [Txt ''volume mount path '', Dbg (svr_mount_path r),
          Txt '' conflicts with another enabled skill''])
      else add_resources skill_id rs (svr_mount_path r # mount_paths))"

fun resolve_resources :: "skill_libs \<Rightarrow> skills_service \<Rightarrow> string list \<Rightarrow> string list \<Rightarrow> skill_volume_resource list skill_call" where
  "resolve_resources lb sv [] mount_paths s = (Inr [], s)"
| "resolve_resources lb sv (i # ids) mount_paths s =
     try_io (host_validate_skill_id i, s) (\<lambda>_ s.
     if \<not> is_builtin sv i then resolve_resources lb sv ids mount_paths s
     else
       try_io (skill_volume_resources lb i (skill_path sv i) s) (\<lambda>rs s.
       try_io (add_resources i rs mount_paths, s) (\<lambda>mount_paths s.
       try_io (resolve_resources lb sv ids mount_paths s) (\<lambda>rest s. (Inr (rs @ rest), s)))))"

definition resolve_volume_resources :: "skill_libs \<Rightarrow> skills_service \<Rightarrow> string list \<Rightarrow> skill_volume_resource list skill_call" where
  "resolve_volume_resources lb sv skill_ids = resolve_resources lb sv skill_ids []"

fun sync_entries :: "skill_libs \<Rightarrow> (bytes \<times> node) list \<Rightarrow> skills_service \<Rightarrow> skills_service skill_call" where
  "sync_entries lb [] sv s = (Inr sv, s)"
| "sync_entries lb ((name, t) # es) sv s =
     (let src = builtin_skills_dir sv @ [name] in
      try_io (entry_type ''inspect builtin skill entry'' src t s) (\<lambda>t s.
        if t \<noteq> NDir \<or> \<not> is_utf8 name \<or> host_validate_skill_id name \<noteq> Inr () then sync_entries lb es sv s
        else
          try_io (skill_volume_resources lb name src s) (\<lambda>_ s.
          try_io (remove_existing_path ''remove existing builtin skill'' (skill_path sv name) s) (\<lambda>_ s.
          try_io (copy_dir_all src (skill_path sv name) s) (\<lambda>_ s.
          try_io (remove_existing_path ''remove builtin skill versions'' (skill_versions_dir sv name) s) (\<lambda>_.
            sync_entries lb es (sv\<lparr>builtin_ids := insort_insert name (builtin_ids sv)\<rparr>)))))))"

definition sync_builtin_skills :: "skill_libs \<Rightarrow> skills_service \<Rightarrow> skills_service skill_call" where
  "sync_builtin_skills lb sv s =
     (case path_is_dir (builtin_skills_dir sv) s of
        (False, s) \<Rightarrow> (Inr sv, s)
      | (True, s) \<Rightarrow>
          try_io (ensure_base_dir sv s) (\<lambda>_ s.
          try_io (read_dir_sorted ''read builtin skills dir'' (builtin_skills_dir sv) s) (\<lambda>es. sync_entries lb es sv)))"

end
