(* ===== verification/Host_Skills_Facts.thy ===== *)
theory Host_Skills_Facts
  imports Host_Skills
begin

text \<open>
  Skill files on disk: a file map whose keys are normalized paths that do not conflict is written to a
  directory and read back unchanged when no call fails.  A skill operation, whether it fails or not,
  changes nothing but the directory and the history of its skill.
\<close>

section \<open>Reading\<close>

lemma with_io_simps [simp]:
  "with_io operation p (Inr x, s) = (Inr x, s)"
  "with_io operation p (Inl e, s) = (Inl (SkillIo operation p e), s)"
  by (simp_all add: with_io_def)

lemma calm_tree_op_count [simp]: "calm_tree (s\<lparr>op_count := n\<rparr>) = calm_tree s"
  by (simp add: calm_tree_def)

lemma tree_depth_op_count [simp]: "tree_depth (s\<lparr>op_count := n\<rparr>) = tree_depth s"
  by (simp add: tree_depth_def)

lemma children_op_count [simp]: "children (s\<lparr>op_count := n\<rparr>) = children s"
  by (simp add: children_def fun_eq_iff)

lemma collect_dir_entries_quiet: "quiet s \<Longrightarrow> \<exists>n. collect_dir_entries es s = (Inr (), s\<lparr>op_count := n\<rparr>)"
proof (induction es arbitrary: s)
  case (Cons e es)
  obtain name t where "e = (name, t)" by force
  then show ?case
    using Cons.IH [of "s\<lparr>op_count := Suc (op_count s)\<rparr>"] Cons.prems by (auto simp: quiet_prim)
next
  case Nil
  have "s = s\<lparr>op_count := op_count s\<rparr>" by simp
  then show ?case by (metis collect_dir_entries.simps(1))
qed

lemma calm_read_dir_sorted:
  assumes "calm_tree s" "lookup s p = Some NDir"
  obtains n where "read_dir_sorted operation p s = (Inr (sort_key fst (children s p)), s\<lparr>op_count := n\<rparr>)"
  using collect_dir_entries_quiet [of "s\<lparr>op_count := Suc (op_count s)\<rparr>" "children s p"] calm_read_dir [OF assms] assms(1) that
  by (auto simp: read_dir_sorted_def calm_tree_def)

lemma calm_entry_type: "calm_tree s \<Longrightarrow> entry_type operation p t s = (Inr t, s\<lparr>op_count := Suc (op_count s)\<rparr>)"
  by (simp add: entry_type_def quiet_prim calm_tree_def)

text \<open>The files below a directory, with the names under which they are read.\<close>

definition file_name :: "fpath \<Rightarrow> fpath \<Rightarrow> string" where
  "file_name base p = join_with ''/'' (drop (length base) p)"

definition files_below :: "fsys \<Rightarrow> fpath \<Rightarrow> fpath \<Rightarrow> (string \<times> string) set" where
  "files_below s base dir = {(file_name base p, c) |p c. prefix dir p \<and> lookup s p = Some (NFile c)}"

definition text_below :: "fsys \<Rightarrow> fpath \<Rightarrow> bool" where
  "text_below s dir \<longleftrightarrow> (\<forall>(k, c) \<in> files_below s dir dir. is_utf8 k \<and> is_utf8 c)"

lemma files_below_op_count [simp]: "files_below (s\<lparr>op_count := n\<rparr>) = files_below s"
  by (simp add: files_below_def fun_eq_iff)

text \<open>What a directory holds is what its entries hold.\<close>

lemma files_below_step:
  assumes "fs_inv s" "lookup s dir = Some NDir"
  shows "files_below s base dir = (\<Union>(n, t) \<in> set (children s dir). files_below s base (dir @ [n]))"
proof -
  have "\<exists>n t. (n, t) \<in> set (children s dir) \<and> prefix (dir @ [n]) p"
    if "prefix dir p" "lookup s p = Some (NFile c)" for p c
  proof -
    have "strict_prefix dir p" using that assms(2) by (auto simp: strict_prefix_def)
    then obtain n where n: "prefix (dir @ [n]) p" by (auto simp: strict_prefix_step)
    then have "lookup s (dir @ [n]) \<noteq> None"
      using fs_invD [OF assms(1), of p "dir @ [n]"] that(2) by (cases "p = dir @ [n]") (auto simp: strict_prefix_def)
    with n show ?thesis using children_iff [OF assms(1)] by blast
  qed
  moreover have "prefix (dir @ [n]) p \<Longrightarrow> prefix dir p" for n p by (auto simp: prefix_def)
  ultimately show ?thesis unfolding files_below_def by fast
qed

lemma files_below_leaf:
  assumes "fs_inv s" "lookup s q = Some t" "t \<noteq> NDir"
  shows "files_below s base q = (case t of NFile c \<Rightarrow> {(file_name base q, c)} | _ \<Rightarrow> {})"
proof -
  have "p = q" if "prefix q p" "lookup s p = Some n" for p n
    using fs_invD [OF assms(1), of p q] that assms(2,3) by (auto simp: strict_prefix_def)
  then have "prefix q p \<and> lookup s p = Some (NFile c) \<longleftrightarrow> p = q \<and> t = NFile c" for p c
    using assms(2) by fastforce
  then have "files_below s base q = {(file_name base q, c) |c. t = NFile c}" by (auto simp: files_below_def)
  then show ?thesis by (cases t) auto
qed

text \<open>Collecting extends the map by what lies below; first for the entries of one directory.\<close>

lemma collect_entries_calm:
  assumes dirs: "\<And>d files s. calm_tree s \<Longrightarrow> lookup s d = Some NDir \<Longrightarrow> tree_depth s < fuel + length d \<Longrightarrow>
      \<forall>(k, c) \<in> files_below s base d. is_utf8 k \<and> is_utf8 c \<Longrightarrow>
      \<exists>ws n. collect_skill_files fuel base d files s = (Inr (btree_extend files ws), s\<lparr>op_count := n\<rparr>) \<and>
        set ws = files_below s base d"
  shows "calm_tree s \<Longrightarrow> tree_depth s \<le> fuel + length dir \<Longrightarrow> \<forall>(n, t) \<in> set es. lookup s (dir @ [n]) = Some t \<Longrightarrow>
     \<forall>(k, c) \<in> (\<Union>(n, t) \<in> set es. files_below s base (dir @ [n])). is_utf8 k \<and> is_utf8 c \<Longrightarrow>
     \<exists>ws n. collect_entries fuel base dir es files s = (Inr (btree_extend files ws), s\<lparr>op_count := n\<rparr>) \<and>
       set ws = (\<Union>(n, t) \<in> set es. files_below s base (dir @ [n]))"
proof (induction es arbitrary: files s)
  case Nil
  have "collect_entries fuel base dir [] files s = (Inr (btree_extend files []), s\<lparr>op_count := op_count s\<rparr>)"
    by (simp add: btree_extend_def)
  then show ?case by fastforce
next
  case (Cons e es)
  obtain name t where e: "e = (name, t)" by force
  let ?p = "dir @ [name]"
  let ?U = "\<Union>(n, t) \<in> set es. files_below s base (dir @ [n])"
  have inv: "fs_inv s" and p: "lookup s ?p = Some t" using Cons.prems by (auto simp: calm_tree_def e)
  note et = calm_entry_type [OF Cons.prems(1), of "''inspect skill file''" ?p t]
  have here: "\<forall>(k, c) \<in> files_below s base ?p. is_utf8 k \<and> is_utf8 c" using Cons.prems(4) by (auto simp: e)
  have rest: "\<exists>ws n. collect_entries fuel base dir es files' (s\<lparr>op_count := m\<rparr>) =
      (Inr (btree_extend files' ws), s\<lparr>op_count := n\<rparr>) \<and> set ws = ?U" for files' m
    using Cons.IH [of "s\<lparr>op_count := m\<rparr>" files'] Cons.prems by (auto simp: e)
  have first: "\<exists>ws n. collect_entries fuel base dir ((name, t) # es) files s =
      collect_entries fuel base dir es (btree_extend files ws) (s\<lparr>op_count := n\<rparr>) \<and> set ws = files_below s base ?p"
  proof (cases "t = NDir")
    case True
    then obtain ws n where "collect_skill_files fuel base ?p files (s\<lparr>op_count := Suc (op_count s)\<rparr>) =
        (Inr (btree_extend files ws), s\<lparr>op_count := n\<rparr>)" "set ws = files_below s base ?p"
      using dirs [of "s\<lparr>op_count := Suc (op_count s)\<rparr>" ?p files] Cons.prems(1,2) p here by auto
    then show ?thesis using et True by (auto simp: Let_def)
  next
    case False
    note fb = files_below_leaf [OF inv p False, of base]
    show ?thesis
    proof (cases t)
      case (NFile c)
      then have u: "is_utf8 (file_name base ?p)" "is_utf8 c" using here fb by auto
      have "fs_read_to_string ?p (s\<lparr>op_count := Suc (op_count s)\<rparr>) = (Inr c, s\<lparr>op_count := Suc (Suc (op_count s))\<rparr>)"
        using calm_read [of "s\<lparr>op_count := Suc (op_count s)\<rparr>" ?p c] Cons.prems(1) p u(2) by (simp add: NFile)
      moreover have "posix_relative_path base ?p = Inr (file_name base ?p)"
        using u(1) by (simp add: posix_relative_path_def file_name_def)
      ultimately show ?thesis
        using et fb by (intro exI [of _ "[(file_name base ?p, c)]"]) (auto simp: NFile Let_def btree_extend_def)
    next
      case NSymlink
      then show ?thesis
        using et fb by (intro exI [of _ "[]"] exI [of _ "Suc (op_count s)"]) (simp add: btree_extend_def)
    next
      case NOther
      then show ?thesis
        using et fb by (intro exI [of _ "[]"] exI [of _ "Suc (op_count s)"]) (simp add: btree_extend_def)
    qed (use False in simp)
  qed
  then obtain ws1 n1 where 1: "collect_entries fuel base dir ((name, t) # es) files s =
      collect_entries fuel base dir es (btree_extend files ws1) (s\<lparr>op_count := n1\<rparr>)" "set ws1 = files_below s base ?p"
    by blast
  obtain ws2 n2 where 2: "collect_entries fuel base dir es (btree_extend files ws1) (s\<lparr>op_count := n1\<rparr>) =
      (Inr (btree_extend (btree_extend files ws1) ws2), s\<lparr>op_count := n2\<rparr>)" "set ws2 = ?U"
    using rest [of "btree_extend files ws1" n1] by (elim exE conjE) (rule that)
  have "collect_entries fuel base dir (e # es) files s = (Inr (btree_extend files (ws1 @ ws2)), s\<lparr>op_count := n2\<rparr>)"
    unfolding e 1(1) 2(1) btree_extend_append [symmetric] ..
  moreover have "set (ws1 @ ws2) = (\<Union>(n, t) \<in> set (e # es). files_below s base (dir @ [n]))"
    using 1(2) 2(2) by (simp add: e)
  ultimately show ?case by blast
qed

lemma collect_calm:
  "calm_tree s \<Longrightarrow> lookup s dir = Some NDir \<Longrightarrow> tree_depth s < fuel + length dir \<Longrightarrow>
     \<forall>(k, c) \<in> files_below s base dir. is_utf8 k \<and> is_utf8 c \<Longrightarrow>
     \<exists>ws n. collect_skill_files fuel base dir files s = (Inr (btree_extend files ws), s\<lparr>op_count := n\<rparr>) \<and>
       set ws = files_below s base dir"
proof (induction fuel arbitrary: dir files s)
  case 0
  then show ?case using tree_depth_bound [of s dir] by simp
next
  case (Suc fuel)
  obtain n where rd: "read_dir_sorted ''read skill files'' dir s = (Inr (sort_key fst (children s dir)), s\<lparr>op_count := n\<rparr>)"
    using calm_read_dir_sorted [OF Suc.prems(1,2)] .
  have inv: "fs_inv s" using Suc.prems(1) by (simp add: calm_tree_def)
  note fb = files_below_step [OF inv Suc.prems(2), of base]
  have "\<exists>ws m. collect_entries fuel base dir (sort_key fst (children s dir)) files (s\<lparr>op_count := n\<rparr>) =
      (Inr (btree_extend files ws), (s\<lparr>op_count := n\<rparr>)\<lparr>op_count := m\<rparr>) \<and>
      set ws = (\<Union>(x, t) \<in> set (sort_key fst (children s dir)). files_below (s\<lparr>op_count := n\<rparr>) base (dir @ [x]))"
    by (rule collect_entries_calm) (use Suc fb children_iff [OF inv] in auto)
  then show ?case by (auto simp: rd fb)
qed

section \<open>Writing\<close>

text \<open>A key that was validated has no \<^verbatim>\<open>..\<close>, so it is written below the directory of the skill.\<close>

lemma validate_keys_plain:
  "validate_file_paths ks = Inr () \<Longrightarrow> k \<in> set ks \<Longrightarrow> ''..'' \<notin> set (normalize_posix_relative_path k)"
  by (induction ks)
    (auto simp: validate_file_path_def normalize_posix_relative_path_def path_components_def try_res_Inr_iff Let_def split: if_splits)

lemma write_skill_files_plain:
  assumes "''..'' \<notin> set (normalize_posix_relative_path k)"
  shows "write_skill_files dir ((k, c) # files) s =
    (let p = dir @ normalize_posix_relative_path k; parent = butlast p in
     try_io (with_io ''create skill file parent dir'' parent (fs_create_dir_all parent s)) (\<lambda>_ s.
     try_io (with_io ''write skill file'' p (fs_write p c s)) (\<lambda>_. write_skill_files dir files)))"
proof -
  let ?cs = "normalize_posix_relative_path k"
  have "''..'' \<notin> set (butlast ?cs)" using assms by (auto dest: in_set_butlastD)
  then show ?thesis
    using assms by (cases "?cs = []") (simp_all add: Let_def create_dir_all_in_plain resolve_from_plain butlast_append)
qed

text \<open>A valid identifier names a directory below the skills and one below the histories.\<close>

lemma split_on_all: "\<forall>p \<in> set (split_on c s). list_all P p \<Longrightarrow> x \<in> set s \<Longrightarrow> x = c \<or> P x"
proof (induction s)
  case (Cons y s)
  then show ?case by (cases "split_on c s") (auto split: if_splits)
qed simp

lemma valid_id_chars:
  assumes "host_validate_skill_id i = Inr ()" "c \<in> set i"
  shows "c = CHR ''-'' \<or> is_ascii_lowercase c \<or> is_ascii_digit c"
proof -
  have "\<forall>p \<in> set (split_on (CHR ''-'') i). list_all (\<lambda>c. is_ascii_lowercase c \<or> is_ascii_digit c) p"
    using assms(1) by (auto simp: host_validate_skill_id_def list_all_iff split: if_splits)
  from split_on_all [OF this assms(2)] show ?thesis .
qed

lemma valid_id_plain:
  assumes "host_validate_skill_id i = Inr ()"
  shows "i \<noteq> [] \<and> CHR ''/'' \<notin> set i \<and> CHR ''.'' \<notin> set i"
proof -
  have "\<not> (CHR ''/'' = CHR ''-'' \<or> is_ascii_lowercase (CHR ''/'') \<or> is_ascii_digit (CHR ''/''))"
    "\<not> (CHR ''.'' = CHR ''-'' \<or> is_ascii_lowercase (CHR ''.'') \<or> is_ascii_digit (CHR ''.''))" by code_simp+
  then have "CHR ''/'' \<notin> set i" "CHR ''.'' \<notin> set i" using valid_id_chars [OF assms] by blast+
  then show ?thesis using assms by (simp add: host_validate_skill_id_def split: if_splits)
qed

lemma valid_paths:
  assumes "host_validate_skill_id i = Inr ()"
  shows "skill_path sv i = skills_dir sv @ [i]" "skill_versions_dir sv i = skills_dir sv @ [SKILL_VERSIONS_DIR, i]"
  using valid_id_plain [OF assms] by (simp_all add: skill_path_def skill_versions_dir_def path_join_plain)

text \<open>The tree that a file map describes, by path.\<close>

definition entries_of :: "string btree \<Rightarrow> (fpath \<times> string) list" where
  "entries_of files = map (\<lambda>(k, c). (normalize_posix_relative_path k, c)) files"

definition tree_of :: "(fpath \<times> string) list \<Rightarrow> fpath \<Rightarrow> node option" where
  "tree_of es p =
     (case map_of es p of
        Some c \<Rightarrow> Some (NFile c)
      | None \<Rightarrow> if list_ex (\<lambda>(q, _). strict_prefix p q) es then Some NDir else None)"

text \<open>Every key is the text of the path it stands for, and no file lies below another.\<close>

definition proper_files :: "string btree \<Rightarrow> bool" where
  "proper_files files \<longleftrightarrow> btree_ok files \<and> validate_file_paths (map fst files) = Inr () \<and>
     list_all (\<lambda>(k, c). is_utf8 k \<and> is_utf8 c \<and> join_with ''/'' (normalize_posix_relative_path k) = k) files \<and>
     list_all (\<lambda>(p, _). p \<noteq> [] \<and> list_all (\<lambda>(q, _). \<not> strict_prefix p q) (entries_of files)) (entries_of files)"

text \<open>Directory \<open>dir\<close> holds exactly the given entries.\<close>

definition holds_entries :: "fsys \<Rightarrow> fpath \<Rightarrow> (fpath \<times> string) list \<Rightarrow> bool" where
  "holds_entries s dir es \<longleftrightarrow> lookup s dir = Some NDir \<and> (\<forall>p. p \<noteq> [] \<longrightarrow> lookup s (dir @ p) = tree_of es p)"

lemma tree_of_Nil [simp]: "tree_of [] = (\<lambda>_. None)"
  by (simp add: tree_of_def fun_eq_iff)

lemma tree_of_snoc:
  assumes "p \<noteq> []" "p \<notin> fst ` set es" "\<forall>q \<in> fst ` set es. \<not> strict_prefix q p"
  shows "tree_of (es @ [(p, c)]) q =
    (if q = p then Some (NFile c) else if strict_prefix q p then Some NDir else tree_of es q)"
proof -
  have none: "map_of es p = None" "strict_prefix q p \<Longrightarrow> map_of es q = None"
    using assms(2,3) by (force simp: map_of_eq_None_iff)+
  then show ?thesis by (auto simp: tree_of_def map_add_def split: option.split)
qed

lemma write_one_calm:
  assumes "calm_tree s" "holds_entries s dir es" "p \<noteq> []" "p \<notin> fst ` set es" "\<forall>q \<in> fst ` set es. \<not> strict_prefix q p"
    and "\<forall>q \<in> fst ` set es. \<not> strict_prefix p q"
  obtains s1 s' where "fs_create_dir_all (butlast (dir @ p)) s = (Inr (), s1)" "fs_write (dir @ p) c s1 = (Inr (), s')"
    "calm_tree s'" "holds_entries s' dir (es @ [(p, c)])" "\<And>q. \<not> prefix dir q \<Longrightarrow> lookup s' q = lookup s q"
proof -
  have inv: "fs_inv s" using assms(1) by (simp add: calm_tree_def)
  have up: "lookup s q = Some NDir" if "prefix q dir" for q
    using fs_invD [OF inv, of dir q] assms(2) that by (auto simp: holds_entries_def strict_prefix_def)
  have at: "lookup s (dir @ r) = tree_of es r" if "r \<noteq> []" for r using assms(2) that by (simp add: holds_entries_def)
  have bp: "butlast (dir @ p) = dir @ butlast p" using assms(3) by (simp add: butlast_append)
  have sp: "strict_prefix r p \<longleftrightarrow> prefix r (butlast p)" for r using strict_prefix_butlast [OF assms(3)] .
  have way: "lookup s q \<in> {None, Some NDir}" if q: "prefix q (dir @ butlast p)" for q
  proof (cases "prefix q dir")
    case False
    then obtain r where r: "q = dir @ r" "r \<noteq> []" "strict_prefix r p" using q sp by (auto simp: prefix_append)
    then have "map_of es r = None" using assms(5) by (auto simp: map_of_eq_None_iff)
    then show ?thesis using at r by (simp add: tree_of_def)
  qed (simp add: up)
  obtain s1 where s1: "fs_create_dir_all (dir @ butlast p) s = (Inr (), s1)" "calm_tree s1"
    and l1: "lookup s1 = (\<lambda>q. if prefix q (dir @ butlast p) then Some NDir else lookup s q)"
    using calm_mkdir_all [OF assms(1), of "dir @ butlast p"] way by blast
  have "map_of es p = None" using assms(4) by (simp add: map_of_eq_None_iff)
  then have "tree_of es p = None" using assms(6) by (auto simp: tree_of_def list_ex_iff)
  moreover have np: "\<not> prefix (dir @ p) (dir @ butlast p)" using sp [of p] by simp
  ultimately have "lookup s1 (dir @ p) = None" using at [OF assms(3)] by (simp add: l1)
  moreover have "parent_error s1 (dir @ p) = None"
    using assms(3) by (simp add: parent_error_None_iff strict_prefix_butlast bp l1)
  ultimately obtain s' where s': "fs_write (dir @ p) c s1 = (Inr (), s')" "calm_tree s'"
    "lookup s' = (lookup s1)(dir @ p \<mapsto> NFile c)"
    using calm_write [OF s1(2), of "dir @ p" c] assms(3) by auto
  have "lookup s' (dir @ q) = tree_of (es @ [(p, c)]) q" if "q \<noteq> []" for q
    unfolding tree_of_snoc [OF assms(3,4,5)] s'(3) l1 using at [OF that] sp [of q] by simp
  moreover have "lookup s' dir = Some NDir" using assms(3) by (simp add: s'(3) l1)
  ultimately have "holds_entries s' dir (es @ [(p, c)])" by (simp add: holds_entries_def)
  moreover have "lookup s' q = lookup s q" if "\<not> prefix dir q" for q
  proof -
    have "q \<noteq> dir @ p" using that by auto
    moreover have "lookup s q = Some NDir" if "prefix q (dir @ butlast p)" using \<open>\<not> prefix dir q\<close> up that
      by (auto simp: prefix_append)
    ultimately show ?thesis by (simp add: s'(3) l1)
  qed
  ultimately show thesis using that s1(1) s'(1,2) bp by metis
qed

text \<open>Entries that may be written one after the other.\<close>

definition no_conflicts :: "(fpath \<times> string) list \<Rightarrow> bool" where
  "no_conflicts es \<longleftrightarrow> distinct (map fst es) \<and> (\<forall>p \<in> fst ` set es. p \<noteq> [] \<and> (\<forall>q \<in> fst ` set es. \<not> strict_prefix p q))"

lemma write_files_calm:
  assumes "calm_tree s" "holds_entries s dir es" "no_conflicts (es @ entries_of files)"
    and "validate_file_paths (map fst files) = Inr ()"
  shows "\<exists>s'. write_skill_files dir files s = (Inr (), s') \<and> calm_tree s' \<and> holds_entries s' dir (es @ entries_of files) \<and>
    (\<forall>q. \<not> prefix dir q \<longrightarrow> lookup s' q = lookup s q)"
  using assms
proof (induction files arbitrary: es s)
  case Nil
  then show ?case by (simp add: entries_of_def)
next
  case (Cons f files)
  obtain k c where f: "f = (k, c)" by force
  let ?p = "normalize_posix_relative_path k"
  have es: "es @ entries_of (f # files) = (es @ [(?p, c)]) @ entries_of files" by (simp add: entries_of_def f)
  have nc: "no_conflicts ((es @ [(?p, c)]) @ entries_of files)" using Cons.prems(3) unfolding es .
  then have "?p \<noteq> []" "?p \<notin> fst ` set es" "\<forall>q \<in> fst ` set es. \<not> strict_prefix q ?p" "\<forall>q \<in> fst ` set es. \<not> strict_prefix ?p q"
    by (auto simp: no_conflicts_def)
  from write_one_calm [OF Cons.prems(1,2) this]
  obtain s1 s2 where s2: "fs_create_dir_all (butlast (dir @ ?p)) s = (Inr (), s1)" "fs_write (dir @ ?p) c s1 = (Inr (), s2)"
    "calm_tree s2" "holds_entries s2 dir (es @ [(?p, c)])" and out: "\<And>q. \<not> prefix dir q \<Longrightarrow> lookup s2 q = lookup s q" by blast
  have v: "validate_file_paths (map fst files) = Inr ()" "''..'' \<notin> set ?p"
    using Cons.prems(4) validate_keys_plain [of "map fst (f # files)" k] by (simp_all add: f try_res_Inr_iff)
  from Cons.IH [OF s2(3,4) nc v(1)] obtain s' where s': "write_skill_files dir files s2 = (Inr (), s')" "calm_tree s'"
    "holds_entries s' dir (es @ entries_of (f # files))" "\<forall>q. \<not> prefix dir q \<longrightarrow> lookup s' q = lookup s2 q"
    unfolding es by blast
  moreover have "write_skill_files dir (f # files) s = (Inr (), s')"
    using s2(1,2) s'(1) by (simp add: f write_skill_files_plain [OF v(2)] Let_def del: write_skill_files.simps)
  ultimately show ?case using out by auto
qed

lemma set_entries_of: "(p, c) \<in> set (entries_of files) \<longleftrightarrow> (\<exists>k. (k, c) \<in> set files \<and> normalize_posix_relative_path k = p)"
  by (auto simp: entries_of_def)

lemma proper_filesD:
  assumes "proper_files files"
  shows "no_conflicts (entries_of files)" "btree_ok files" "validate_file_paths (map fst files) = Inr ()"
    "(k, c) \<in> set files \<Longrightarrow> is_utf8 k \<and> is_utf8 c \<and> join_with ''/'' (normalize_posix_relative_path k) = k"
proof -
  have keys: "join_with ''/'' (normalize_posix_relative_path k) = k" if "k \<in> fst ` set files" for k
    using assms that by (auto simp: proper_files_def list_all_iff)
  have "distinct (map fst files)" using assms by (simp add: proper_files_def btree_ok_distinct)
  moreover have "inj_on normalize_posix_relative_path (set (map fst files))"
    by (rule inj_on_inverseI [where g = "join_with ''/''"]) (use keys in simp)
  moreover have "map fst (entries_of files) = map normalize_posix_relative_path (map fst files)"
    by (simp add: entries_of_def case_prod_beta)
  ultimately have "distinct (map fst (entries_of files))" by (simp only: distinct_map)
  then show "no_conflicts (entries_of files)"
    using assms by (force simp: proper_files_def no_conflicts_def list_all_iff)
qed (use assms in \<open>auto simp: proper_files_def list_all_iff\<close>)

lemma tree_of_file: "no_conflicts es \<Longrightarrow> tree_of es p = Some (NFile c) \<longleftrightarrow> (p, c) \<in> set es"
proof -
  assume "no_conflicts es"
  then have "map_of es p = Some c \<longleftrightarrow> (p, c) \<in> set es" by (simp add: no_conflicts_def)
  then show ?thesis by (auto simp: tree_of_def split: option.split)
qed

lemma read_files_calm:
  assumes "calm_tree s" "holds_entries s dir (entries_of files)" "proper_files files"
  obtains n where "read_skill_files dir s = (Inr files, s\<lparr>op_count := n\<rparr>)"
proof -
  note pf = proper_filesD [OF assms(3)]
  have dir: "lookup s dir = Some NDir" and at: "\<And>p. p \<noteq> [] \<Longrightarrow> lookup s (dir @ p) = tree_of (entries_of files) p"
    using assms(2) by (auto simp: holds_entries_def)
  have "p \<noteq> []" if "(k, c) \<in> set files" "p = normalize_posix_relative_path k" for k c p
    using pf(1) that set_entries_of [of p c files] by (force simp: no_conflicts_def)
  then have there: "lookup s (dir @ p) = Some (NFile c) \<longleftrightarrow> (\<exists>k. (k, c) \<in> set files \<and> normalize_posix_relative_path k = p)" for p c
    using at [of p] dir tree_of_file [OF pf(1)] set_entries_of [of p c files] by (cases "p = []") auto
  have "files_below s dir dir = {(join_with ''/'' p, c) |p c. lookup s (dir @ p) = Some (NFile c)}"
    by (auto simp: files_below_def prefix_def file_name_def) (metis append_eq_conv_conj)
  also have "\<dots> = set files" unfolding there using pf(4) by force
  finally have fb: "files_below s dir dir = set files" .
  obtain ws n where ws: "collect_skill_files (Suc (tree_depth s)) dir dir [] s = (Inr (btree_extend [] ws), s\<lparr>op_count := n\<rparr>)"
    "set ws = set files"
    using collect_calm [OF assms(1) dir, of "Suc (tree_depth s)" dir "[]"] pf(4) by (fastforce simp: fb)
  have d: "distinct (map fst files)" using pf(2) by (rule btree_ok_distinct)
  have "map_of (rev ws) k = map_of files k" for k
  proof (cases "map_of (rev ws) k")
    case None
    then have "k \<notin> fst ` set ws" by (simp add: map_of_eq_None_iff)
    then show ?thesis using None ws(2) by (simp add: map_of_eq_None_iff [symmetric])
  next
    case (Some c)
    then have "(k, c) \<in> set files" using ws(2) map_of_SomeD by fastforce
    then show ?thesis using Some d by simp
  qed
  then have "btree_extend [] ws = files"
    by (intro btree_eqI) (auto simp: btree_ok_extend pf(2) map_of_btree_extend fun_eq_iff)
  then show thesis using that ws(1) by (simp add: read_skill_files_def)
qed

end
