(* ===== verification/Host_Skill_History.thy ===== *)
theory Host_Skill_History
  imports Host_Skills_Facts
begin

text \<open>
  The history of a skill: one numbered JSON file per change.  When no call fails, the operations of the
  skill service act on a pair of a file map and a list of snapshots, which \<open>skill_holds\<close> relates to the tree.
\<close>

section \<open>Version numbers in file names\<close>

lemma byte_val_digit: "d < 10 \<Longrightarrow> byte_val (digit_char d) = 48 + d"
  by (simp add: byte_val_def digit_char_def)

lemma is_ascii_digit_char: "d < 10 \<Longrightarrow> is_ascii_digit (digit_char d)"
  by (simp add: is_ascii_digit_def in_range_def byte_val_digit)

lemma digits_value_snoc: "digits_value (xs @ [c]) = 10 * digits_value xs + (int (byte_val c) - 48)"
  by (simp add: digits_value_def)

lemma show_nat_digits: "list_all is_ascii_digit (show_nat n) \<and> digits_value (show_nat n) = int n"
proof (induction n rule: show_nat.induct)
  case (1 n)
  show ?case
  proof (cases "n < 10")
    case True
    then show ?thesis
      using digits_value_snoc [of "[]" "digit_char n"]
      by (subst (1 2) show_nat.simps) (simp add: is_ascii_digit_char byte_val_digit digits_value_def)
  next
    case False
    have "10 * int (n div 10) + int (n mod 10) = int n" by presburger
    with False show ?thesis
      using 1 by (subst (1 2) show_nat.simps)
        (simp add: is_ascii_digit_char byte_val_digit digits_value_snoc list_all_iff ball_Un)
  qed
qed

lemma digits_value_zeros: "digits_value (replicate k (CHR ''0'') @ xs) = digits_value xs"
  by (induction k) (simp_all add: digits_value_def byte_val_def)

lemma pad20_digits: "list_all is_ascii_digit (pad20 v)" "digits_value (pad20 v) = uint v" "pad20 v \<noteq> []"
  using show_nat_digits [of "unat v"]
  by (auto simp: pad20_def Let_def digits_value_zeros list_all_iff is_ascii_digit_def in_range_def byte_val_def)

definition version_file_name :: "64 word \<Rightarrow> bytes" where
  "version_file_name v = pad20 v @ ''.json''"

lemma digit_bytes: "is_ascii_digit c \<Longrightarrow> byte_val c < 0x80 \<and> c \<noteq> CHR ''.'' \<and> c \<noteq> CHR ''+''"
  by (auto simp: is_ascii_digit_def in_range_def byte_val_def)

lemma stem_extension_version: "stem_extension (version_file_name v) = (pad20 v, Some ''json'')"
proof -
  have "CHR ''.'' \<notin> set (pad20 v)" using pad20_digits(1) [of v] digit_bytes by (auto simp: list_all_iff)
  then have "split_on (CHR ''.'') (version_file_name v) = [pad20 v, ''json'']"
    using split_on_append [of "CHR ''.''" "pad20 v" "''json''"] by (simp add: version_file_name_def)
  then show ?thesis by (simp add: stem_extension_def pad20_digits(3))
qed

lemma uint_less: "uint (v :: 64 word) < 2 ^ 64"
  using unsigned_less [where ?'a = int, of v] by simp

lemma pad20_utf8: "is_utf8 (pad20 v)"
  using pad20_digits(1) [of v] digit_bytes by (intro is_utf8_ascii) (auto simp: list_all_iff)

lemma parse_pad20: "parse_u64 (pad20 v) = Some v"
proof -
  have "hd (pad20 v) \<noteq> CHR ''+''" using pad20_digits(1,3) [of v] digit_bytes by (cases "pad20 v") auto
  then have "strip_prefix ''+'' (pad20 v) = None"
    using pad20_digits(3) [of v] by (cases "pad20 v") (auto simp: strip_prefix_None_iff)
  then show ?thesis using pad20_digits [of v] uint_less by (simp add: parse_u64_def)
qed

lemma entry_version_name [simp]: "entry_version (version_file_name v) = Some v"
  by (simp add: entry_version_def stem_extension_version from_utf8_def pad20_utf8 parse_pad20)

lemma version_file_name_inj [simp]: "version_file_name v = version_file_name w \<longleftrightarrow> v = w"
  using entry_version_name by (metis option.inject)

section \<open>The history on disk\<close>

definition version_json :: "skill_libs \<Rightarrow> skill_version \<Rightarrow> bytes" where
  "version_json lb h = (case version_to_json lb h of Inr c \<Rightarrow> c | Inl _ \<Rightarrow> [])"

text \<open>What is relied on of the JSON library: the snapshot is written and read back.\<close>

definition version_kept :: "skill_libs \<Rightarrow> skill_version \<Rightarrow> bool" where
  "version_kept lb h \<longleftrightarrow>
     (case version_to_json lb h of Inr c \<Rightarrow> is_utf8 c \<and> version_of_json lb c = Inr h | Inl _ \<Rightarrow> False)"

definition holds_history :: "skill_libs \<Rightarrow> fsys \<Rightarrow> fpath \<Rightarrow> skill_version list \<Rightarrow> bool" where
  "holds_history lb s dir hist \<longleftrightarrow>
     (\<forall>q. prefix q dir \<longrightarrow> lookup s q \<in> {None, Some NDir}) \<and> (hist \<noteq> [] \<longrightarrow> lookup s dir = Some NDir) \<and>
     (\<forall>x. lookup s (dir @ [x]) =
        map_option (\<lambda>h. NFile (version_json lb h)) (find (\<lambda>h. version_file_name (skv_version h) = x) hist)) \<and>
     sorted_wrt (<) (map skv_version hist) \<and> list_all (version_kept lb) hist"

definition last_version :: "skill_version list \<Rightarrow> 64 word" where
  "last_version hist = (if hist = [] then 0 else skv_version (last hist))"

lemma find_version:
  "sorted_wrt (<) (map skv_version hist) \<Longrightarrow>
     find (\<lambda>h. version_file_name (skv_version h) = x) hist = Some h \<longleftrightarrow> h \<in> set hist \<and> x = version_file_name (skv_version h)"
  by (induction hist) auto

lemma holds_historyD:
  assumes "holds_history lb s dir hist"
  shows "prefix q dir \<Longrightarrow> lookup s q \<in> {None, Some NDir}" "hist \<noteq> [] \<Longrightarrow> lookup s dir = Some NDir"
    "sorted_wrt (<) (map skv_version hist)" "h \<in> set hist \<Longrightarrow> version_kept lb h"
    "lookup s (dir @ [x]) = Some t \<longleftrightarrow> (\<exists>h \<in> set hist. x = version_file_name (skv_version h) \<and> t = NFile (version_json lb h))"
proof -
  have s: "sorted_wrt (<) (map skv_version hist)" and at: "lookup s (dir @ [x]) =
        map_option (\<lambda>h. NFile (version_json lb h)) (find (\<lambda>h. version_file_name (skv_version h) = x) hist)"
    using assms by (simp_all add: holds_history_def)
  show "lookup s (dir @ [x]) = Some t \<longleftrightarrow> (\<exists>h \<in> set hist. x = version_file_name (skv_version h) \<and> t = NFile (version_json lb h))"
    unfolding at map_option_eq_Some find_version [OF s] by blast
  show "sorted_wrt (<) (map skv_version hist)" by fact
qed (use assms in \<open>auto simp: holds_history_def list_all_iff\<close>)

text \<open>Numbers of the files in a directory, and the number that comes next.\<close>

definition versions_of :: "(bytes \<times> node) list \<Rightarrow> (64 word) list" where
  "versions_of es = List.map_filter (\<lambda>(x, t). case t of NFile _ \<Rightarrow> entry_version x | _ \<Rightarrow> None) es"

lemma latest_version_calm:
  "calm_tree s \<Longrightarrow> \<exists>n. latest_version dir es v s = (Inr (foldl max v (versions_of es)), s\<lparr>op_count := n\<rparr>)"
proof (induction es arbitrary: v s)
  case Nil
  have "latest_version dir [] v s = (Inr (foldl max v (versions_of [])), s\<lparr>op_count := op_count s\<rparr>)"
    by (simp add: versions_of_def map_filter_simps)
  then show ?case by blast
next
  case (Cons e es)
  obtain x t where e: "e = (x, t)" by force
  have "(case t of NFile _ \<Rightarrow> entry_version x | _ \<Rightarrow> None) = None \<or> (\<exists>b w. t = NFile b \<and> entry_version x = Some w)"
    by (cases t; cases "entry_version x") auto
  then have v: "foldl max v (versions_of (e # es)) =
      foldl max (case (t, entry_version x) of (NFile _, Some w) \<Rightarrow> max v w | _ \<Rightarrow> v) (versions_of es)"
    by (cases t; cases "entry_version x") (auto simp: versions_of_def map_filter_simps e)
  show ?case
    using Cons.IH [of "s\<lparr>op_count := Suc (op_count s)\<rparr>"] Cons.prems
      calm_entry_type [OF Cons.prems, of "''inspect skill version file''" "dir @ [x]" t]
    unfolding v by (simp add: e)
qed

lemma foldl_max: "foldl max (v :: 64 word) vs \<in> insert v (set vs) \<and> (\<forall>w \<in> insert v (set vs). w \<le> foldl max v vs)"
proof (induction vs arbitrary: v)
  case (Cons w vs)
  let ?m = "foldl max (max v w) vs"
  have m: "?m \<in> insert (max v w) (set vs)" "max v w \<le> ?m" "\<forall>u \<in> set vs. u \<le> ?m" using Cons.IH [of "max v w"] by auto
  then have "v \<le> ?m" "w \<le> ?m" by simp_all
  moreover have "max v w \<in> {v, w}" by (simp add: max_def)
  ultimately show ?case using m by auto
qed simp

lemma last_version_max: "sorted_wrt (<) (map skv_version hist) \<Longrightarrow> h \<in> set hist \<Longrightarrow> skv_version h \<le> last_version hist"
  by (induction hist rule: rev_induct) (auto simp: last_version_def sorted_wrt_append intro: less_imp_le)

lemma next_version_calm:
  assumes "calm_tree s" "holds_history lb s dir hist" "lookup s dir = Some NDir"
  obtains n where "next_skill_version dir s = (Inr (last_version hist + 1), s\<lparr>op_count := n\<rparr>)"
proof -
  note hh = holds_historyD [OF assms(2)]
  have inv: "fs_inv s" using assms(1) by (simp add: calm_tree_def)
  let ?es = "sort_key fst (children s dir)"
  obtain n where rd: "read_dir_sorted ''read skill versions dir'' dir s = (Inr ?es, s\<lparr>op_count := n\<rparr>)"
    using calm_read_dir_sorted [OF assms(1,3)] .
  obtain m where lv: "latest_version dir ?es 0 (s\<lparr>op_count := n\<rparr>) = (Inr (foldl max 0 (versions_of ?es)), s\<lparr>op_count := m\<rparr>)"
    using latest_version_calm [of "s\<lparr>op_count := n\<rparr>" dir ?es 0] assms(1) by auto
  have "set (versions_of ?es) = skv_version ` set hist" (is "?V = _")
  proof -
    have "v \<in> ?V \<longleftrightarrow> (\<exists>x b. lookup s (dir @ [x]) = Some (NFile b) \<and> entry_version x = Some v)" for v
      using children_iff [OF inv, of _ _ dir]
      by (force simp: versions_of_def map_filter_def split: node.splits)
    moreover have "(\<exists>x b. (\<exists>h \<in> set hist. x = version_file_name (skv_version h) \<and> NFile b = NFile (version_json lb h)) \<and>
        entry_version x = Some v) \<longleftrightarrow> v \<in> skv_version ` set hist" for v
      by force
    ultimately show ?thesis unfolding hh(5) by blast
  qed
  moreover have "last_version hist \<in> insert 0 (skv_version ` set hist)" by (simp add: last_version_def)
  moreover have "\<forall>w \<in> insert 0 (skv_version ` set hist). w \<le> last_version hist" using last_version_max [OF hh(3)] by auto
  ultimately have "foldl max 0 (versions_of ?es) = last_version hist"
    using foldl_max [of 0 "versions_of ?es"] by (metis order.antisym)
  then show thesis using that rd lv by (simp add: next_skill_version_def)
qed

definition snapshot :: "string \<Rightarrow> string \<Rightarrow> 64 word \<Rightarrow> string btree \<Rightarrow> skill_version" where
  "snapshot now skill_id v files =
     \<lparr>skv_skill_id = skill_id, skv_version = v, skv_created_at = now, skv_files = files\<rparr>"

lemma find_app: "find P (xs @ ys) = (case find P xs of None \<Rightarrow> find P ys | Some x \<Rightarrow> Some x)"
  by (induction xs) auto

lemma save_version_calm:
  assumes "calm_tree s" "holds_history lb s (skill_versions_dir sv i) hist" "last_version hist < last_version hist + 1"
    and "version_kept lb (snapshot now i (last_version hist + 1) files)"
  obtains s' where "save_skill_version lb now sv i files s = (Inr (snapshot now i (last_version hist + 1) files), s')"
    "calm_tree s'" "holds_history lb s' (skill_versions_dir sv i) (hist @ [snapshot now i (last_version hist + 1) files])"
    "\<And>q. \<not> prefix (skill_versions_dir sv i) q \<Longrightarrow> lookup s' q = (if prefix q (skill_versions_dir sv i) then Some NDir else lookup s q)"
proof -
  let ?dir = "skill_versions_dir sv i" and ?v = "last_version hist + 1"
  let ?h = "snapshot now i ?v files"
  note hh = holds_historyD [OF assms(2)]
  obtain s1 where s1: "fs_create_dir_all ?dir s = (Inr (), s1)" "calm_tree s1"
    and l1: "lookup s1 = (\<lambda>q. if prefix q ?dir then Some NDir else lookup s q)"
    using calm_mkdir_all [OF assms(1), of ?dir] hh(1) by blast
  have d1: "lookup s1 ?dir = Some NDir" by (simp add: l1)
  have h1: "holds_history lb s1 ?dir hist" using assms(2) by (simp add: holds_history_def l1)
  obtain n where nv: "next_skill_version ?dir s1 = (Inr ?v, s1\<lparr>op_count := n\<rparr>)"
    using next_version_calm [OF s1(2) h1] by (auto simp: l1)
  obtain c where c: "version_to_json lb ?h = Inr c" using assms(4) by (auto simp: version_kept_def split: sum.splits)
  let ?p = "?dir @ [version_file_name ?v]"
  have fresh: "skv_version h \<noteq> ?v" if "h \<in> set hist" for h
    using last_version_max [OF hh(3) that] assms(3) by auto
  then have "lookup s1 ?p \<noteq> Some t" for t unfolding holds_historyD(5) [OF h1] version_file_name_inj by metis
  then have "lookup s1 ?p = None" by (cases "lookup s1 ?p") auto
  moreover have "parent_error s1 ?p = None" by (simp add: parent_error_None_iff strict_prefix_butlast l1)
  ultimately obtain s2 where s2: "fs_write ?p c (s1\<lparr>op_count := n\<rparr>) = (Inr (), s2)" "calm_tree s2"
    and l2: "lookup s2 = (lookup s1)(?p \<mapsto> NFile c)"
    using calm_write [of "s1\<lparr>op_count := n\<rparr>" ?p c] s1(2) by auto
  have "save_skill_version lb now sv i files s = (Inr ?h, s2)"
    using s1 nv c s2 by (simp add: save_skill_version_def Let_def snapshot_def json_res_def skill_version_path_def version_file_name_def)
  moreover have "holds_history lb s2 ?dir (hist @ [?h])"
  proof -
    have "sorted_wrt (<) (map skv_version (hist @ [?h]))"
      using hh(3) last_version_max [OF hh(3)] assms(3) by (auto simp: sorted_wrt_append snapshot_def intro: le_less_trans)
    moreover have "find (\<lambda>h. version_file_name (skv_version h) = version_file_name ?v) hist = None"
      using fresh by (simp add: find_None_iff)
    then have "find (\<lambda>h. version_file_name (skv_version h) = x) (hist @ [?h]) =
        (if x = version_file_name ?v then Some ?h else find (\<lambda>h. version_file_name (skv_version h) = x) hist)" for x
      by (auto simp: find_app snapshot_def simp del: version_file_name_inj split: option.split)
    ultimately show ?thesis
      using h1 d1 assms(4) c by (auto simp: holds_history_def l2 version_json_def prefix_def split: if_splits)
  qed
  moreover have "lookup s2 q = (if prefix q ?dir then Some NDir else lookup s q)" if "\<not> prefix ?dir q" for q
    using that by (auto simp: l2 l1)
  ultimately show thesis using that s2(2) by blast
qed

text \<open>Listing the history.\<close>

lemma version_entries_calm:
  "calm_tree s \<Longrightarrow> \<forall>(x, t) \<in> set es. \<exists>v b. x = version_file_name v \<and> t = NFile b \<Longrightarrow>
     \<exists>n. version_entries dir es s = (Inr (map (\<lambda>(x, _). dir @ [x]) es), s\<lparr>op_count := n\<rparr>)"
proof (induction es arbitrary: s)
  case Nil
  have "version_entries dir [] s = (Inr [], s\<lparr>op_count := op_count s\<rparr>)" by simp
  then show ?case by (simp only: list.map) blast
next
  case (Cons e es)
  obtain x t where e: "e = (x, t)" by force
  obtain v b where x: "x = version_file_name v" "t = NFile b" using Cons.prems(2) by (auto simp: e)
  have "snd (stem_extension x) = Some ''json''" by (simp add: x stem_extension_version)
  then show ?case
    using Cons.IH [of "s\<lparr>op_count := Suc (op_count s)\<rparr>"] Cons.prems
      calm_entry_type [OF Cons.prems(1), of "''inspect skill version file''" "dir @ [x]" t]
    by (auto simp: e x(2))
qed

lemma read_all_calm:
  "calm_tree s \<Longrightarrow> list_all (version_kept lb) hs \<Longrightarrow> \<forall>h \<in> set hs. lookup s (f h) = Some (NFile (version_json lb h)) \<Longrightarrow>
     \<exists>n. read_all (read_skill_version lb) (map f hs) s = (Inr hs, s\<lparr>op_count := n\<rparr>)"
proof (induction hs arbitrary: s)
  case Nil
  have "read_all (read_skill_version lb) [] s = (Inr [], s\<lparr>op_count := op_count s\<rparr>)" by simp
  then show ?case by (simp only: list.map) blast
next
  case (Cons h hs)
  obtain c where c: "version_to_json lb h = Inr c" "is_utf8 c" "version_of_json lb c = Inr h"
    using Cons.prems(2) by (auto simp: version_kept_def split: sum.splits)
  then have "fs_read_to_string (f h) s = (Inr c, s\<lparr>op_count := Suc (op_count s)\<rparr>)"
    using Cons.prems(1,3) by (intro calm_read) (auto simp: version_json_def)
  then show ?case
    using Cons.IH [of "s\<lparr>op_count := Suc (op_count s)\<rparr>"] Cons.prems c(3)
    by (auto simp: read_skill_version_def json_res_def)
qed

lemma distinct_children: "fs_inv s \<Longrightarrow> distinct (map fst (children s p))"
proof -
  assume inv: "fs_inv s"
  let ?ns = "filter (\<lambda>(q, _). q \<noteq> [] \<and> butlast q = p) (nodes s)"
  have "inj_on last (set (map fst ?ns))"
    by (auto simp: inj_on_def) (metis append_butlast_last_id)
  moreover have "distinct (map fst ?ns)" using inv by (auto simp: fs_inv_def intro: distinct_map_filter)
  ultimately have "distinct (map last (map fst ?ns))" by (simp only: distinct_map)
  moreover have "map last (map fst ?ns) = map fst (children s p)" by (simp add: children_def case_prod_beta)
  ultimately show ?thesis by simp
qed

text \<open>The entries of a history directory, in any order, are those of the history.\<close>

lemma entries_history:
  assumes "\<And>x t. (x, t) \<in> set es \<longleftrightarrow> (\<exists>h \<in> set hist. x = version_file_name (skv_version h) \<and> t = NFile (version_json lb h))"
    and "distinct (map fst es)" and s: "sorted_wrt (<) (map skv_version hist)"
  obtains hs where "map fst es = map (\<lambda>h. version_file_name (skv_version h)) hs" "set hs = set hist"
    "sort_key skv_version hs = hist"
proof -
  let ?of = "\<lambda>x. the (find (\<lambda>h. version_file_name (skv_version h) = x) hist)"
  have of_name: "?of (version_file_name (skv_version h)) = h" if "h \<in> set hist" for h
    using find_version [OF s, of "version_file_name (skv_version h)" h] that by simp
  have names: "set (map fst es) = (\<lambda>h. version_file_name (skv_version h)) ` set hist"
  proof (intro set_eqI)
    fix x
    have "x \<in> set (map fst es) \<longleftrightarrow> (\<exists>t. (x, t) \<in> set es)" by force
    then show "x \<in> set (map fst es) \<longleftrightarrow> x \<in> (\<lambda>h. version_file_name (skv_version h)) ` set hist"
      unfolding assms(1) by blast
  qed
  let ?hs = "map ?of (map fst es)"
  have "?of ` (\<lambda>h. version_file_name (skv_version h)) ` set hist = set hist" using of_name by (simp add: image_image)
  then have set: "set ?hs = set hist" unfolding set_map [of ?of] names .
  have "version_file_name (skv_version (?of x)) = x" if "x \<in> set (map fst es)" for x
    using that of_name unfolding names by auto
  then have fst: "map (\<lambda>h. version_file_name (skv_version h)) ?hs = map fst es" by (simp add: map_idI)
  have "map version_file_name (map skv_version ?hs) = map (\<lambda>h. version_file_name (skv_version h)) ?hs" by simp
  then have "distinct (map version_file_name (map skv_version ?hs))" using assms(2) fst by (simp only:)
  then have d: "distinct (map skv_version ?hs)" by (simp only: distinct_map [of version_file_name])
  have "sort_key skv_version ?hs = hist"
  proof (rule map_sorted_distinct_set_unique [where f = skv_version])
    show "distinct (map skv_version (sort_key skv_version ?hs))" using d by (simp only: distinct_map distinct_sort set_sort)
    show "inj_on skv_version (set (sort_key skv_version ?hs) \<union> set hist)"
      using s unfolding set_sort set by (simp add: strict_sorted_iff distinct_map)
  qed (use set s in \<open>simp_all add: strict_sorted_iff\<close>)
  then show thesis using that fst set by metis
qed

text \<open>The state of a user skill: its files and its history.\<close>

definition skill_holds ::
  "skill_libs \<Rightarrow> skills_service \<Rightarrow> fsys \<Rightarrow> string \<Rightarrow> string btree \<Rightarrow> skill_version list \<Rightarrow> bool" where
  "skill_holds lb sv s skill_id files hist \<longleftrightarrow>
     calm_tree s \<and> host_validate_skill_id skill_id = Inr () \<and> \<not> is_builtin sv skill_id \<and> proper_files files \<and>
     holds_entries s (skill_path sv skill_id) (entries_of files) \<and> holds_history lb s (skill_versions_dir sv skill_id) hist"

lemma user_skill_exists_calm:
  assumes "calm_tree s" "lookup s (skill_path sv i) = Some NDir" "\<not> is_builtin sv i"
  obtains n where "ensure_user_skill_exists sv i s = (Inr (), s\<lparr>op_count := n\<rparr>)"
  using assms calm_stat(1) [OF assms(1), of "skill_path sv i"] that by (auto simp: ensure_user_skill_exists_def)

lemma list_versions_calm:
  assumes "skill_holds lb sv s i files hist"
  obtains n where "host_list_skill_versions lb sv i s = (Inr hist, s\<lparr>op_count := n\<rparr>)"
proof -
  let ?dir = "skill_versions_dir sv i"
  have calm: "calm_tree s" and hist: "holds_history lb s ?dir hist" and id: "host_validate_skill_id i = Inr ()"
    using assms by (simp_all add: skill_holds_def)
  note hh = holds_historyD [OF hist]
  have inv: "fs_inv s" using calm by (simp add: calm_tree_def)
  obtain n where ex: "ensure_user_skill_exists sv i s = (Inr (), s\<lparr>op_count := n\<rparr>)"
    using user_skill_exists_calm [OF calm, of sv i] assms by (auto simp: skill_holds_def holds_entries_def)
  note st = calm_stat(1) [of "s\<lparr>op_count := n\<rparr>" ?dir]
  show thesis
  proof (cases "lookup s ?dir = Some NDir")
    case False
    then have "hist = []" using hh(2) by auto
    then show thesis
      using that [of "Suc n"] id ex st calm False
      by (simp add: host_list_skill_versions_def skill_version_paths_def Let_def)
  next
    case True
    let ?es = "sort_key fst (children s ?dir)"
    obtain m where rd: "read_dir_sorted ''read skill versions dir'' ?dir (s\<lparr>op_count := Suc n\<rparr>) = (Inr ?es, s\<lparr>op_count := m\<rparr>)"
      using calm_read_dir_sorted [of "s\<lparr>op_count := Suc n\<rparr>" ?dir] calm True by auto
    have es: "(x, t) \<in> set ?es \<longleftrightarrow> (\<exists>h \<in> set hist. x = version_file_name (skv_version h) \<and> t = NFile (version_json lb h))" for x t
      using children_iff [OF inv] hh(5) by simp
    obtain k where ve: "version_entries ?dir ?es (s\<lparr>op_count := m\<rparr>) = (Inr (map (\<lambda>(x, _). ?dir @ [x]) ?es), s\<lparr>op_count := k\<rparr>)"
      using version_entries_calm [of "s\<lparr>op_count := m\<rparr>" ?es ?dir] calm es by fastforce
    have "distinct (map fst ?es)" using distinct_children [OF inv] by (simp add: distinct_map inj_on_def)
    then obtain hs where hs: "map fst ?es = map (\<lambda>h. version_file_name (skv_version h)) hs" "set hs = set hist"
      "sort_key skv_version hs = hist"
      using entries_history [OF _ _ hh(3), of ?es] es by blast
    have "map (\<lambda>(x, _). ?dir @ [x]) ?es = map (\<lambda>x. ?dir @ [x]) (map fst ?es)" by (simp add: case_prod_beta)
    also have "\<dots> = map (\<lambda>h. skill_version_path sv i (skv_version h)) hs"
      unfolding hs(1) by (simp add: skill_version_path_def version_file_name_def)
    finally have paths: "map (\<lambda>(x, _). ?dir @ [x]) ?es = map (\<lambda>h. skill_version_path sv i (skv_version h)) hs" .
    have stored: "\<forall>h \<in> set hs. lookup s (skill_version_path sv i (skv_version h)) = Some (NFile (version_json lb h))"
      using hh(5) by (auto simp: hs(2) skill_version_path_def version_file_name_def)
    have "list_all (version_kept lb) hs" using hh(4) by (simp add: list_all_iff hs(2))
    then obtain j where ra: "read_all (read_skill_version lb) (map (\<lambda>h. skill_version_path sv i (skv_version h)) hs) (s\<lparr>op_count := k\<rparr>) =
        (Inr hs, s\<lparr>op_count := j\<rparr>)"
      using read_all_calm [of "s\<lparr>op_count := k\<rparr>" lb hs "\<lambda>h. skill_version_path sv i (skv_version h)"] calm stored by auto
    then show thesis
      using that id ex st calm True rd ve ra paths hs(3)
      by (auto simp: host_list_skill_versions_def skill_version_paths_def Let_def)
  qed
qed

section \<open>The operations without faults\<close>

text \<open>Where the data of a skill lies: in the directory of its name and in the one below the histories.\<close>

definition skill_area :: "skills_service \<Rightarrow> string \<Rightarrow> fpath \<Rightarrow> bool" where
  "skill_area sv skill_id q \<longleftrightarrow>
     prefix (skills_dir sv @ [skill_id]) q \<or> prefix (skills_dir sv @ [SKILL_VERSIONS_DIR, skill_id]) q"

lemma skill_area_valid:
  "host_validate_skill_id i = Inr () \<Longrightarrow>
    skill_area sv i q \<longleftrightarrow> prefix (skill_path sv i) q \<or> prefix (skill_versions_dir sv i) q"
  by (simp add: skill_area_def valid_paths)

lemma valid_id_no_versions: "host_validate_skill_id i = Inr () \<Longrightarrow> i \<noteq> SKILL_VERSIONS_DIR"
proof
  assume "host_validate_skill_id i = Inr ()" "i = SKILL_VERSIONS_DIR"
  moreover have "host_validate_skill_id SKILL_VERSIONS_DIR \<noteq> Inr ()" by code_simp
  ultimately show False by simp
qed

lemma paths_apart:
  assumes "host_validate_skill_id i = Inr ()"
  shows "\<not> prefix (skill_path sv i) (skill_versions_dir sv i @ q)" "\<not> prefix (skill_versions_dir sv i) (skill_path sv i @ q)"
    "prefix q (skill_versions_dir sv i) \<Longrightarrow> \<not> prefix (skill_path sv i) q"
  using valid_id_no_versions [OF assms] by (auto simp: valid_paths [OF assms] prefix_def)

lemma holds_history_cong:
  "\<forall>q. prefix q dir \<or> prefix dir q \<longrightarrow> lookup s' q = lookup s q \<Longrightarrow> holds_history lb s' dir hist = holds_history lb s dir hist"
  by (simp add: holds_history_def)

lemma holds_entries_cong:
  "\<forall>q. prefix dir q \<longrightarrow> lookup s' q = lookup s q \<Longrightarrow> holds_entries s' dir es = holds_entries s dir es"
  by (simp add: holds_entries_def)

text \<open>Replacing the content of a skill directory.\<close>

lemma empty_dir_calm:
  assumes "calm_tree s" "lookup s dir = Some NDir" "dir \<noteq> []"
  obtains s1 s2 where "fs_remove_dir_all dir s = (Inr (), s1)" "fs_create_dir_all dir s1 = (Inr (), s2)" "calm_tree s2"
    "holds_entries s2 dir []" "\<forall>q. \<not> prefix dir q \<longrightarrow> lookup s2 q = lookup s q"
proof -
  obtain s1 where s1: "fs_remove_dir_all dir s = (Inr (), s1)" "calm_tree s1"
    and l1: "lookup s1 = (\<lambda>q. if prefix dir q then None else lookup s q)"
    using calm_remove_dir_all [OF assms(1-3)] .
  have up: "lookup s q = Some NDir" if "prefix q dir" for q
    using fs_invD [of s dir q] assms(1,2) that by (auto simp: calm_tree_def strict_prefix_def)
  have way: "\<forall>q. prefix q dir \<longrightarrow> lookup s1 q \<in> {None, Some NDir}" using up by (auto simp: l1)
  obtain s2 where s2: "fs_create_dir_all dir s1 = (Inr (), s2)" "calm_tree s2"
    and l2: "lookup s2 = (\<lambda>q. if prefix q dir then Some NDir else lookup s1 q)"
    using calm_mkdir_all [OF s1(2), of dir] way by blast
  have "holds_entries s2 dir []" by (auto simp: holds_entries_def l1 l2)
  moreover have "\<forall>q. \<not> prefix dir q \<longrightarrow> lookup s2 q = lookup s q" using up by (auto simp: l1 l2)
  ultimately show thesis using that s1(1) s2(1,2) by blast
qed

lemma rewrite_files_calm:
  assumes "calm_tree s" "lookup s dir = Some NDir" "dir \<noteq> []" "proper_files files"
  obtains s1 s2 s' where "fs_remove_dir_all dir s = (Inr (), s1)" "fs_create_dir_all dir s1 = (Inr (), s2)"
    "write_skill_files dir files s2 = (Inr (), s')" "calm_tree s'" "holds_entries s' dir (entries_of files)"
    "\<forall>q. \<not> prefix dir q \<longrightarrow> lookup s' q = lookup s q"
proof -
  obtain s1 s2 where s: "fs_remove_dir_all dir s = (Inr (), s1)" "fs_create_dir_all dir s1 = (Inr (), s2)" "calm_tree s2"
    "holds_entries s2 dir []" "\<forall>q. \<not> prefix dir q \<longrightarrow> lookup s2 q = lookup s q"
    using empty_dir_calm [OF assms(1-3)] .
  then show thesis
    using that write_files_calm [OF s(3,4), of files] proper_filesD(1,3) [OF assms(4)] by auto
qed

text \<open>An update: an empty history first receives the files that are there.\<close>

definition seen_history :: "string \<Rightarrow> string \<Rightarrow> string btree \<Rightarrow> skill_version list \<Rightarrow> skill_version list" where
  "seen_history now skill_id files hist = (if hist = [] then [snapshot now skill_id 1 files] else hist)"

definition extended_history ::
  "string \<Rightarrow> string \<Rightarrow> string btree \<Rightarrow> string btree \<Rightarrow> skill_version list \<Rightarrow> skill_version list" where
  "extended_history now skill_id files files' hist =
     (let old = seen_history now skill_id files hist in old @ [snapshot now skill_id (last_version old + 1) files'])"

text \<open>Every number is below the largest and every snapshot can be stored.\<close>

definition history_fits :: "skill_libs \<Rightarrow> skill_version list \<Rightarrow> bool" where
  "history_fits lb hist \<longleftrightarrow> sorted_wrt (<) (map skv_version hist) \<and> list_all (version_kept lb) hist"

lemma seen_history_calm:
  assumes "skill_holds lb sv s i files hist" "hist = [] \<Longrightarrow> version_kept lb (snapshot now i 1 files)"
  obtains s' where
    "try_io (host_list_skill_versions lb sv i s) (\<lambda>versions s.
       if versions = [] then
         try_io (read_skill_files (skill_path sv i) s) (\<lambda>existing s.
         try_io (save_skill_version lb now sv i existing s) (\<lambda>_ s. (Inr (), s)))
       else (Inr (), s)) = (Inr (), s')"
    "skill_holds lb sv s' i files (seen_history now i files hist)"
    "\<forall>q. \<not> prefix (skill_versions_dir sv i) q \<longrightarrow>
       lookup s' q = (if prefix q (skill_versions_dir sv i) \<and> hist = [] then Some NDir else lookup s q)"
proof (cases "hist = []")
  case False
  obtain n where "host_list_skill_versions lb sv i s = (Inr hist, s\<lparr>op_count := n\<rparr>)" using list_versions_calm [OF assms(1)] .
  moreover have "skill_holds lb sv (s\<lparr>op_count := n\<rparr>) i files hist"
    using assms(1) by (simp add: skill_holds_def holds_entries_def holds_history_def)
  ultimately show thesis using that [of "s\<lparr>op_count := n\<rparr>"] False by (simp add: seen_history_def)
next
  case True
  let ?dir = "skill_path sv i" and ?vd = "skill_versions_dir sv i"
  have id: "host_validate_skill_id i = Inr ()" using assms(1) by (simp add: skill_holds_def)
  obtain n where lv: "host_list_skill_versions lb sv i s = (Inr [], s\<lparr>op_count := n\<rparr>)"
    using list_versions_calm [OF assms(1)] True by blast
  have sh: "skill_holds lb sv (s\<lparr>op_count := n\<rparr>) i files hist" for n
    using assms(1) by (simp add: skill_holds_def holds_entries_def holds_history_def)
  obtain m where rd: "read_skill_files ?dir (s\<lparr>op_count := n\<rparr>) = (Inr files, s\<lparr>op_count := m\<rparr>)"
    using read_files_calm [of "s\<lparr>op_count := n\<rparr>" ?dir files] sh by (auto simp: skill_holds_def)
  have l0: "last_version [] + 1 = 1" "last_version [] < last_version [] + (1 :: 64 word)" by (simp_all add: last_version_def)
  have "calm_tree (s\<lparr>op_count := m\<rparr>)" "holds_history lb (s\<lparr>op_count := m\<rparr>) ?vd []"
    using sh [of m] True by (simp_all add: skill_holds_def)
  from save_version_calm [OF this l0(2), of now files]
  obtain s' where s': "save_skill_version lb now sv i files (s\<lparr>op_count := m\<rparr>) = (Inr (snapshot now i 1 files), s')"
    "calm_tree s'" "holds_history lb s' ?vd [snapshot now i 1 files]"
    "\<And>q. \<not> prefix ?vd q \<Longrightarrow> lookup s' q = (if prefix q ?vd then Some NDir else lookup s q)"
    using assms(2) [OF True] unfolding l0(1) by (metis append_Nil lookup_op_count)
  have "lookup s' q = lookup s q" if "prefix ?dir q" for q
    using s'(4) [of q] that paths_apart(2,3) [OF id] by (metis prefix_def)
  then have "holds_entries s' ?dir (entries_of files)"
    using holds_entries_cong [of ?dir s' s "entries_of files"] assms(1) by (simp add: skill_holds_def)
  then have "skill_holds lb sv s' i files [snapshot now i 1 files]"
    using sh s'(2,3) by (simp add: skill_holds_def)
  then show thesis using that [of s'] lv rd s'(1,4) True by (simp add: seen_history_def)
qed

text \<open>Update, rollback, reading and listing.\<close>

definition untouched :: "skills_service \<Rightarrow> string \<Rightarrow> fsys \<Rightarrow> fsys \<Rightarrow> bool" where
  "untouched sv skill_id s s' \<longleftrightarrow>
     (\<forall>q. \<not> skill_area sv skill_id q \<longrightarrow> lookup s' q = lookup s q \<or>
        prefix q (skill_versions_dir sv skill_id) \<and> lookup s q = None \<and> lookup s' q = Some NDir)"

lemma untouchedI:
  assumes "\<And>q. \<not> prefix (skill_path sv i) q \<Longrightarrow> \<not> prefix (skill_versions_dir sv i) q \<Longrightarrow>
      lookup s' q = lookup s q \<or> prefix q (skill_versions_dir sv i) \<and> lookup s' q = Some NDir"
    and "holds_history lb s (skill_versions_dir sv i) hist" "host_validate_skill_id i = Inr ()"
  shows "untouched sv i s s'"
  using assms(1) holds_historyD(1) [OF assms(2)] by (force simp: untouched_def skill_area_valid [OF assms(3)])

text \<open>The paths of another skill, and what keeps a skill as it is.\<close>

lemma untouched_paths:
  assumes "untouched sv i s s'" "j \<noteq> i" "host_validate_skill_id i = Inr ()" "host_validate_skill_id j = Inr ()"
  shows "prefix (skill_path sv j) q \<or> prefix (skill_versions_dir sv j) q \<Longrightarrow> lookup s' q = lookup s q"
    "prefix q (skill_versions_dir sv j) \<Longrightarrow> lookup s' q \<in> {lookup s q, Some NDir}"
proof -
  note ij = valid_id_no_versions [OF assms(3)] valid_id_no_versions [OF assms(4)] assms(2)
  show "lookup s' q = lookup s q" if "prefix (skill_path sv j) q \<or> prefix (skill_versions_dir sv j) q"
  proof -
    have "\<not> skill_area sv i q \<and> \<not> prefix q (skill_versions_dir sv i)"
      using that ij by (auto simp: skill_area_def valid_paths [OF assms(3)] valid_paths [OF assms(4)] prefix_def)
    then show ?thesis using assms(1) by (auto simp: untouched_def)
  qed
  show "lookup s' q \<in> {lookup s q, Some NDir}" if "prefix q (skill_versions_dir sv j)"
  proof -
    have "\<not> skill_area sv i q"
      using that ij by (auto simp: skill_area_def valid_paths [OF assms(4)] prefix_def append_eq_append_conv2 Cons_eq_append_conv)
    then show ?thesis using assms(1) by (auto simp: untouched_def)
  qed
qed

lemma holds_history_frame:
  assumes "holds_history lb s dir hist" "\<And>q. prefix dir q \<Longrightarrow> lookup s' q = lookup s q"
    and "\<And>q. prefix q dir \<Longrightarrow> lookup s' q \<in> {lookup s q, Some NDir}"
  shows "holds_history lb s' dir hist"
proof -
  have "lookup s' q \<in> {None, Some NDir}" if "prefix q dir" for q
    using assms(3) [OF that] holds_historyD(1) [OF assms(1) that] by auto
  then show ?thesis using assms(1,2) by (simp add: holds_history_def)
qed

lemma skill_holds_frame:
  assumes "skill_holds lb sv s j files hist" "calm_tree s'"
    "\<And>q. prefix (skill_path sv j) q \<or> prefix (skill_versions_dir sv j) q \<Longrightarrow> lookup s' q = lookup s q"
    "\<And>q. prefix q (skill_versions_dir sv j) \<Longrightarrow> lookup s' q \<in> {lookup s q, Some NDir}"
  shows "skill_holds lb sv s' j files hist"
  using assms(1,2) holds_history_frame [OF _ assms(3) assms(4)] holds_entries_cong [of "skill_path sv j" s' s] assms(3)
  by (auto simp: skill_holds_def)

lemma untouched_other:
  assumes "untouched sv i s s'" "skill_holds lb sv s j files hist" "j \<noteq> i" "calm_tree s'" "host_validate_skill_id i = Inr ()"
  shows "skill_holds lb sv s' j files hist"
proof -
  have "host_validate_skill_id j = Inr ()" using assms(2) by (simp add: skill_holds_def)
  note u = untouched_paths [OF assms(1,3,5) this]
  show ?thesis by (rule skill_holds_frame [OF assms(2,4) u])
qed

lemma try_io_assoc: "try_io (try_io r f) g = try_io r (\<lambda>x s. try_io (f x s) g)"
  by (cases r; cases "fst r") (auto simp: try_io_def split: sum.splits)

lemma update_calm:
  assumes "skill_holds lb sv s i files hist" "proper_files files'" "history_fits lb (extended_history now i files files' hist)"
  obtains s' where "host_update_skill lb now sv i files' s = (Inr \<lparr>hs_skill_id = i, hs_files = files', hs_source = User\<rparr>, s')"
    "skill_holds lb sv s' i files' (extended_history now i files files' hist)" "untouched sv i s s'"
proof -
  let ?dir = "skill_path sv i" and ?vd = "skill_versions_dir sv i" and ?old = "seen_history now i files hist"
  have calm: "calm_tree s" and id: "host_validate_skill_id i = Inr ()" and nb: "\<not> is_builtin sv i"
    and dir: "lookup s ?dir = Some NDir" and hist: "holds_history lb s ?vd hist"
    using assms(1) by (simp_all add: skill_holds_def holds_entries_def)
  note sh = assms(1) [unfolded skill_holds_def]
  obtain n where ex: "ensure_user_skill_exists sv i s = (Inr (), s\<lparr>op_count := n\<rparr>)"
    using user_skill_exists_calm [OF calm dir nb] .
  let ?s = "s\<lparr>op_count := n\<rparr>"
  have shn: "skill_holds lb sv ?s i files hist" using sh by (simp add: skill_holds_def holds_entries_def holds_history_def)
  have "version_kept lb (snapshot now i 1 files)" if "hist = []"
    using assms(3) that by (simp add: history_fits_def extended_history_def seen_history_def Let_def)
  from seen_history_calm [OF shn this]
  obtain s1 where s1: "try_io (host_list_skill_versions lb sv i ?s) (\<lambda>versions s.
       if versions = [] then
         try_io (read_skill_files ?dir s) (\<lambda>existing s.
         try_io (save_skill_version lb now sv i existing s) (\<lambda>_ s. (Inr (), s)))
       else (Inr (), s)) = (Inr (), s1)" "skill_holds lb sv s1 i files ?old"
    "\<forall>q. \<not> prefix ?vd q \<longrightarrow> lookup s1 q = (if prefix q ?vd \<and> hist = [] then Some NDir else lookup s q)"
    unfolding lookup_op_count by blast
  have "?dir \<noteq> []" by (simp add: valid_paths [OF id])
  moreover have "calm_tree s1" "lookup s1 ?dir = Some NDir" using s1(2) by (simp_all add: skill_holds_def holds_entries_def)
  ultimately obtain s2 s3 s4 where w: "fs_remove_dir_all ?dir s1 = (Inr (), s2)" "fs_create_dir_all ?dir s2 = (Inr (), s3)"
    "write_skill_files ?dir files' s3 = (Inr (), s4)" "calm_tree s4" "holds_entries s4 ?dir (entries_of files')"
    and l4: "\<forall>q. \<not> prefix ?dir q \<longrightarrow> lookup s4 q = lookup s1 q"
    using rewrite_files_calm [of s1 ?dir files'] assms(2) by metis
  have "\<forall>q. prefix q ?vd \<or> prefix ?vd q \<longrightarrow> lookup s4 q = lookup s1 q"
    using l4 paths_apart(1,3) [OF id] by (metis prefix_def)
  then have h4: "holds_history lb s4 ?vd ?old" using holds_history_cong [of ?vd s4 s1] s1(2) by (simp add: skill_holds_def)
  have fits: "history_fits lb (?old @ [snapshot now i (last_version ?old + 1) files'])"
    using assms(3) by (simp add: extended_history_def Let_def)
  have "?old \<noteq> []" by (simp add: seen_history_def)
  then have lt: "last_version ?old < last_version ?old + 1"
    using fits by (auto simp: history_fits_def sorted_wrt_append snapshot_def last_version_def)
  have kept: "version_kept lb (snapshot now i (last_version ?old + 1) files')" using fits by (simp add: history_fits_def)
  obtain s5 where s5: "save_skill_version lb now sv i files' s4 = (Inr (snapshot now i (last_version ?old + 1) files'), s5)"
    "calm_tree s5" "holds_history lb s5 ?vd (extended_history now i files files' hist)"
    and l5: "\<And>q. \<not> prefix ?vd q \<Longrightarrow> lookup s5 q = (if prefix q ?vd then Some NDir else lookup s4 q)"
    using save_version_calm [OF w(4) h4 lt kept] unfolding extended_history_def Let_def by blast
  have "lookup s5 q = lookup s4 q" if "prefix ?dir q" for q
    using l5 [of q] that paths_apart(2,3) [OF id] by (metis prefix_def)
  then have e5: "holds_entries s5 ?dir (entries_of files')"
    using holds_entries_cong [of ?dir s5 s4 "entries_of files'"] w(5) by simp
  obtain m where rd: "read_skill_files ?dir s5 = (Inr files', s5\<lparr>op_count := m\<rparr>)"
    using read_files_calm [OF s5(2) e5 assms(2)] .
  have "host_update_skill lb now sv i files' s = (Inr \<lparr>hs_skill_id = i, hs_files = files', hs_source = User\<rparr>, s5\<lparr>op_count := m\<rparr>)"
  proof -
    let ?F = "\<lambda>versions s. if versions = [] then
        try_io (read_skill_files ?dir s) (\<lambda>existing s.
        try_io (save_skill_version lb now sv i existing s) (\<lambda>_ s. (Inr (), s)))
      else (Inr (), s)"
    have "host_update_skill lb now sv i files' s = try_io (try_io (host_list_skill_versions lb sv i ?s) ?F) (\<lambda>_ s.
       try_io (with_io ''remove skill dir'' ?dir (fs_remove_dir_all ?dir s)) (\<lambda>_ s.
       try_io (with_io ''create skill dir'' ?dir (fs_create_dir_all ?dir s)) (\<lambda>_ s.
       try_io (write_skill_files ?dir files' s) (\<lambda>_ s.
       try_io (save_skill_version lb now sv i files' s) (\<lambda>_ s.
       try_io (read_skill_files ?dir s) (\<lambda>stored s.
         (Inr \<lparr>hs_skill_id = i, hs_files = stored, hs_source = User\<rparr>, s)))))))"
      by (simp only: host_update_skill_def Let_def id ex proper_filesD(3) [OF assms(2)] try_io_simps try_io_assoc)
    then show ?thesis unfolding s1(1) using w(1-3) s5(1) rd by simp
  qed
  moreover have "skill_holds lb sv (s5\<lparr>op_count := m\<rparr>) i files' (extended_history now i files files' hist)"
    using s5(2,3) e5 assms(2) id nb by (simp add: skill_holds_def holds_entries_def holds_history_def)
  moreover have "untouched sv i s (s5\<lparr>op_count := m\<rparr>)"
    using l5 l4 s1(3) by (intro untouchedI [OF _ hist id]) auto
  ultimately show thesis using that by blast
qed

lemma get_calm:
  assumes "skill_holds lb sv s i files hist"
  obtains n where "host_get_skill sv i s = (Inr \<lparr>hs_skill_id = i, hs_files = files, hs_source = User\<rparr>, s\<lparr>op_count := n\<rparr>)"
proof -
  have calm: "calm_tree s" and dir: "lookup s (skill_path sv i) = Some NDir"
    using assms by (simp_all add: skill_holds_def holds_entries_def)
  obtain n where "read_skill_files (skill_path sv i) (s\<lparr>op_count := Suc (op_count s)\<rparr>) = (Inr files, s\<lparr>op_count := n\<rparr>)"
    using read_files_calm [of "s\<lparr>op_count := Suc (op_count s)\<rparr>" "skill_path sv i" files] assms
    by (auto simp: skill_holds_def holds_entries_def)
  then show thesis
    using that assms calm_stat(1) [OF calm, of "skill_path sv i"] dir
    by (simp add: host_get_skill_def skill_holds_def source_for_def)
qed

lemma rollback_calm:
  assumes "skill_holds lb sv s i files hist" "h \<in> set hist" "proper_files (skv_files h)"
    and "history_fits lb (extended_history now i files (skv_files h) hist)"
  obtains s' where "host_rollback_skill lb now sv i (skv_version h) s =
      (Inr \<lparr>hs_skill_id = i, hs_files = skv_files h, hs_source = User\<rparr>, s')"
    "skill_holds lb sv s' i (skv_files h) (extended_history now i files (skv_files h) hist)" "untouched sv i s s'"
proof -
  let ?p = "skill_version_path sv i (skv_version h)"
  have calm: "calm_tree s" and id: "host_validate_skill_id i = Inr ()" and nb: "\<not> is_builtin sv i"
    and dir: "lookup s (skill_path sv i) = Some NDir" and hist: "holds_history lb s (skill_versions_dir sv i) hist"
    using assms(1) by (simp_all add: skill_holds_def holds_entries_def)
  note hh = holds_historyD [OF hist]
  obtain n where ex: "ensure_user_skill_exists sv i s = (Inr (), s\<lparr>op_count := n\<rparr>)"
    using user_skill_exists_calm [OF calm dir nb] .
  obtain c where c: "version_to_json lb h = Inr c" "is_utf8 c" "version_of_json lb c = Inr h"
    using hh(4) [OF assms(2)] by (auto simp: version_kept_def split: sum.splits)
  then have p: "lookup s ?p = Some (NFile c)"
    using hh(5) assms(2) by (auto simp: skill_version_path_def version_file_name_def version_json_def)
  have st: "path_is_file ?p (s\<lparr>op_count := n\<rparr>) = (True, s\<lparr>op_count := Suc n\<rparr>)"
    using calm_stat(3) [of "s\<lparr>op_count := n\<rparr>" ?p] calm p by simp
  have rd: "read_skill_version lb ?p (s\<lparr>op_count := Suc n\<rparr>) = (Inr h, s\<lparr>op_count := Suc (Suc n)\<rparr>)"
    using calm_read [of "s\<lparr>op_count := Suc n\<rparr>" ?p c] calm p c by (simp add: read_skill_version_def json_res_def)
  have "skill_holds lb sv (s\<lparr>op_count := Suc (Suc n)\<rparr>) i files hist"
    using assms(1) by (simp add: skill_holds_def holds_entries_def holds_history_def)
  from update_calm [OF this assms(3,4)]
  obtain s' where s': "host_update_skill lb now sv i (skv_files h) (s\<lparr>op_count := Suc (Suc n)\<rparr>) =
      (Inr \<lparr>hs_skill_id = i, hs_files = skv_files h, hs_source = User\<rparr>, s')"
    "skill_holds lb sv s' i (skv_files h) (extended_history now i files (skv_files h) hist)"
    "untouched sv i (s\<lparr>op_count := Suc (Suc n)\<rparr>) s'" .
  then show thesis using that [of s'] id ex st rd by (simp add: host_rollback_skill_def untouched_def)
qed

text \<open>Creation: nothing is at the place of the skill; an old history that was left there goes on.\<close>

definition skill_absent :: "skill_libs \<Rightarrow> skills_service \<Rightarrow> fsys \<Rightarrow> string \<Rightarrow> skill_version list \<Rightarrow> bool" where
  "skill_absent lb sv s skill_id hist \<longleftrightarrow>
     calm_tree s \<and> host_validate_skill_id skill_id = Inr () \<and> \<not> is_builtin sv skill_id \<and>
     lookup s (skill_path sv skill_id) = None \<and> holds_history lb s (skill_versions_dir sv skill_id) hist"

lemma create_calm:
  assumes "skill_absent lb sv s i hist" "proper_files files"
    and "history_fits lb (hist @ [snapshot now i (last_version hist + 1) files])" "last_version hist < last_version hist + 1"
  obtains s' where "host_create_skill lb now sv i files s = (Inr \<lparr>hs_skill_id = i, hs_files = files, hs_source = User\<rparr>, s')"
    "skill_holds lb sv s' i files (hist @ [snapshot now i (last_version hist + 1) files])" "untouched sv i s s'"
proof -
  let ?dir = "skill_path sv i" and ?vd = "skill_versions_dir sv i"
  have calm: "calm_tree s" and id: "host_validate_skill_id i = Inr ()" and nb: "\<not> is_builtin sv i"
    and none: "lookup s ?dir = None" and hist: "holds_history lb s ?vd hist"
    using assms(1) by (simp_all add: skill_absent_def)
  have pre: "prefix q (skills_dir sv) \<Longrightarrow> prefix q ?vd" for q by (auto simp: valid_paths [OF id] prefix_def)
  have base: "\<forall>q. prefix q (skills_dir sv) \<longrightarrow> lookup s q \<in> {None, Some NDir}" using holds_historyD(1) [OF hist pre] by blast
  obtain s1 where s1: "fs_create_dir_all (skills_dir sv) s = (Inr (), s1)" "calm_tree s1"
    and l1: "lookup s1 = (\<lambda>q. if prefix q (skills_dir sv) then Some NDir else lookup s q)"
    using calm_mkdir_all [OF calm base] .
  have not_base: "\<not> prefix ?dir (skills_dir sv)" by (auto simp: valid_paths [OF id] prefix_def)
  have ex: "path_exists ?dir s1 = (False, s1\<lparr>op_count := Suc (op_count s1)\<rparr>)"
    using calm_stat(2) [OF s1(2), of ?dir] none not_base by (simp add: l1)
  let ?s1 = "s1\<lparr>op_count := Suc (op_count s1)\<rparr>"
  have "parent_error ?s1 ?dir = None" by (simp add: parent_error_None_iff strict_prefix_butlast valid_paths [OF id] l1)
  then obtain s2 where s2: "fs_mkdir ?dir ?s1 = (Inr (), s2)" "calm_tree s2" "lookup s2 = (lookup s1)(?dir \<mapsto> NDir)"
    using calm_mkdir [of ?s1 ?dir] s1(2) none not_base by (auto simp: l1)
  have "lookup s2 (?dir @ p) = None" if "p \<noteq> []" for p
  proof -
    have "strict_prefix ?dir (?dir @ p)" using that by (simp add: strict_prefix_def)
    then have "lookup s (?dir @ p) = None"
      using fs_invD [of s "?dir @ p" ?dir] calm none by (cases "lookup s (?dir @ p)") (auto simp: calm_tree_def)
    moreover have "\<not> prefix (?dir @ p) (skills_dir sv)" by (auto simp: valid_paths [OF id] prefix_def)
    ultimately show ?thesis using that by (simp add: s2(3) l1)
  qed
  then have "holds_entries s2 ?dir []" by (simp add: holds_entries_def s2(3))
  then obtain s3 where w: "write_skill_files ?dir files s2 = (Inr (), s3)" "calm_tree s3" "holds_entries s3 ?dir (entries_of files)"
    and l3: "\<forall>q. \<not> prefix ?dir q \<longrightarrow> lookup s3 q = lookup s2 q"
    using write_files_calm [OF s2(2), of ?dir "[]" files] proper_filesD(1,3) [OF assms(2)] by auto
  have at: "lookup s3 q = (if prefix q (skills_dir sv) then Some NDir else lookup s q)" if "\<not> prefix ?dir q" for q
  proof -
    have "q \<noteq> ?dir" using that by auto
    then show ?thesis using l3 that by (simp add: s2(3) l1)
  qed
  have "lookup s3 q = lookup s q" if "prefix ?vd q" for q
    using at [of q] paths_apart(1) [OF id, of sv] that
    by (auto simp: prefix_def valid_paths [OF id])
  moreover have "lookup s3 q \<in> {None, Some NDir}" if "prefix q ?vd" for q
    using at [OF paths_apart(3) [OF id that]] holds_historyD(1) [OF hist that] by simp
  ultimately have h3: "holds_history lb s3 ?vd hist" using hist by (simp add: holds_history_def)
  have kept: "version_kept lb (snapshot now i (last_version hist + 1) files)" using assms(3) by (simp add: history_fits_def)
  from save_version_calm [OF w(2) h3 assms(4) kept]
  obtain s5 where s5: "save_skill_version lb now sv i files s3 = (Inr (snapshot now i (last_version hist + 1) files), s5)"
    "calm_tree s5" "holds_history lb s5 ?vd (hist @ [snapshot now i (last_version hist + 1) files])"
    and l5: "\<And>q. \<not> prefix ?vd q \<Longrightarrow> lookup s5 q = (if prefix q ?vd then Some NDir else lookup s3 q)" by blast
  have "lookup s5 q = lookup s3 q" if "prefix ?dir q" for q
    using l5 [of q] that paths_apart(2,3) [OF id] by (metis prefix_def)
  then have e5: "holds_entries s5 ?dir (entries_of files)"
    using holds_entries_cong [of ?dir s5 s3 "entries_of files"] w(3) by simp
  obtain m where rd: "read_skill_files ?dir s5 = (Inr files, s5\<lparr>op_count := m\<rparr>)"
    using read_files_calm [OF s5(2) e5 assms(2)] .
  have "host_create_skill lb now sv i files s = (Inr \<lparr>hs_skill_id = i, hs_files = files, hs_source = User\<rparr>, s5\<lparr>op_count := m\<rparr>)"
    using id nb s1(1) ex proper_filesD(3) [OF assms(2)] s2(1) w(1) s5(1) rd
    by (simp add: host_create_skill_def ensure_base_dir_def Let_def)
  moreover have "skill_holds lb sv (s5\<lparr>op_count := m\<rparr>) i files (hist @ [snapshot now i (last_version hist + 1) files])"
    using s5(2,3) e5 assms(2) id nb by (simp add: skill_holds_def holds_entries_def holds_history_def)
  moreover have "untouched sv i s (s5\<lparr>op_count := m\<rparr>)"
    using l5 at pre by (intro untouchedI [OF _ hist id]) auto
  ultimately show thesis using that by blast
qed

lemma remove_existing_calm:
  assumes "calm_tree s" "\<forall>q. prefix q p \<longrightarrow> lookup s q \<in> {None, Some NDir}" "p \<noteq> []"
  obtains s' where "remove_existing_path operation p s = (Inr (), s')" "calm_tree s'"
    "lookup s' = (\<lambda>q. if prefix p q then None else lookup s q)"
proof -
  let ?s = "s\<lparr>op_count := Suc (op_count s)\<rparr>"
  have inv: "fs_inv s" and q: "quiet s" using assms(1) by (simp_all add: calm_tree_def)
  show thesis
  proof (cases "lookup s p = Some NDir")
    case True
    then have m: "fs_symlink_metadata p s = (Inr NDir, ?s)"
      using calm_present [OF assms(1), of p] by (simp add: fs_symlink_metadata_def quiet_prim [OF q] under_dirs_def)
    have "calm_tree ?s" "lookup ?s p = Some NDir" using assms(1) True by simp_all
    from calm_remove_dir_all [OF this assms(3)]
    obtain s' where "fs_remove_dir_all p ?s = (Inr (), s')" "calm_tree s'"
      "lookup s' = (\<lambda>q. if prefix p q then None else lookup ?s q)" .
    then show thesis using that [of s'] m unfolding lookup_op_count by (simp add: remove_existing_path_def)
  next
    case False
    then have none: "lookup s p = None" using assms(2) [rule_format, of p] by simp
    have "fs_symlink_metadata p s = (Inl (os_err s IoNotFound), ?s)"
    proof (cases "parent_error s p")
      case None
      then show ?thesis using none by (simp add: fs_symlink_metadata_def quiet_prim [OF q] under_dirs_def os_err_def)
    next
      case (Some k)
      then obtain a where a: "find (\<lambda>q. lookup s q \<noteq> Some NDir) (ancestors p) = Some a"
        by (auto simp: parent_error_def split: option.splits)
      then have "lookup s a \<noteq> Some NDir" "prefix a p"
        by (auto simp: find_Some_iff ancestors_iff strict_prefix_def dest!: nth_mem)
      then have "k = IoNotFound" using assms(2) [rule_format, of a] a Some by (simp add: parent_error_def)
      then show ?thesis using Some by (simp add: fs_symlink_metadata_def quiet_prim [OF q] under_dirs_def os_err_def)
    qed
    moreover have "lookup s r = None" if "prefix p r" for r
      using fs_invD [OF inv, of r p] none that by (cases "r = p"; cases "lookup s r") (auto simp: strict_prefix_def)
    then have "lookup s = (\<lambda>q. if prefix p q then None else lookup s q)" by auto
    ultimately show thesis using that [of ?s] assms(1) by (simp add: remove_existing_path_def os_err_def)
  qed
qed

lemma delete_calm:
  assumes "skill_holds lb sv s i files hist"
  obtains s' where "host_delete_skill sv i s = (Inr (), s')" "skill_absent lb sv s' i []" "untouched sv i s s'"
proof -
  let ?dir = "skill_path sv i" and ?vd = "skill_versions_dir sv i"
  have calm: "calm_tree s" and id: "host_validate_skill_id i = Inr ()" and nb: "\<not> is_builtin sv i"
    and dir: "lookup s ?dir = Some NDir" and hist: "holds_history lb s ?vd hist"
    using assms by (simp_all add: skill_holds_def holds_entries_def)
  have ne: "?dir \<noteq> []" "?vd \<noteq> []" by (simp_all add: valid_paths [OF id])
  note st = calm_stat(1) [OF calm, of ?dir]
  have c: "calm_tree (s\<lparr>op_count := Suc (op_count s)\<rparr>)" "lookup (s\<lparr>op_count := Suc (op_count s)\<rparr>) ?dir = Some NDir"
    using calm dir by simp_all
  obtain s1 where s1: "fs_remove_dir_all ?dir (s\<lparr>op_count := Suc (op_count s)\<rparr>) = (Inr (), s1)" "calm_tree s1"
    and l1: "lookup s1 = (\<lambda>q. if prefix ?dir q then None else lookup s q)"
    using calm_remove_dir_all [OF c ne(1)] unfolding lookup_op_count .
  have "\<forall>q. prefix q ?vd \<longrightarrow> lookup s1 q \<in> {None, Some NDir}"
    using holds_historyD(1) [OF hist] by (auto simp: l1)
  from remove_existing_calm [OF s1(2) this ne(2), of "''remove skill version history''"]
  obtain s2 where s2: "remove_existing_path ''remove skill version history'' ?vd s1 = (Inr (), s2)" "calm_tree s2"
    and l2: "lookup s2 = (\<lambda>q. if prefix ?vd q then None else lookup s1 q)" .
  have "host_delete_skill sv i s = (Inr (), s2)"
    using id nb st dir s1(1) s2(1) by (simp add: host_delete_skill_def Let_def)
  moreover have "skill_absent lb sv s2 i []"
    using s2(2) id nb holds_historyD(1) [OF hist] by (auto simp: skill_absent_def holds_history_def l2 l1)
  moreover have "untouched sv i s s2" by (intro untouchedI [OF _ hist id]) (simp add: l2 l1)
  ultimately show thesis using that by blast
qed

end
