(* ===== verification/Host_Skill_Frame.thy ===== *)
theory Host_Skill_Frame
  imports Host_Skill_History
begin

text \<open>
  What a skill operation may touch, under every schedule of faults: \<open>confined A B f\<close> says that \<open>f\<close> changes
  the tree only at paths in \<open>A\<close>, and creates directories only at paths in \<open>B\<close>.  None of the calls makes a
  symbolic link, so that a tree without links stays one.
\<close>

named_theorems confining \<open>what a call may touch\<close>

definition within :: "(fpath \<Rightarrow> bool) \<Rightarrow> (fpath \<Rightarrow> bool) \<Rightarrow> fsys \<Rightarrow> fsys \<Rightarrow> bool" where
  "within A B s s' \<longleftrightarrow> fs_ok s s' \<and> (no_links s \<longrightarrow> no_links s') \<and>
     (\<forall>q. \<not> A q \<longrightarrow> lookup s' q = lookup s q \<or> B q \<and> lookup s q = None \<and> lookup s' q = Some NDir)"

definition confined :: "(fpath \<Rightarrow> bool) \<Rightarrow> (fpath \<Rightarrow> bool) \<Rightarrow> (fsys \<Rightarrow> 'a \<times> fsys) \<Rightarrow> bool" where
  "confined A B f \<longleftrightarrow> (\<forall>s r s'. f s = (r, s') \<longrightarrow> fs_inv s \<longrightarrow> within A B s s')"

lemma within_refl [simp]: "within A B s s"
  by (simp add: within_def)

lemma within_trans:
  assumes "within A B s t" "within A B t u"
  shows "within A B s u"
proof -
  have "fs_ok s u" "no_links s \<Longrightarrow> no_links u" using assms fs_ok_trans by (auto simp: within_def)
  moreover have "lookup u q = lookup s q \<or> B q \<and> lookup s q = None \<and> lookup u q = Some NDir" if "\<not> A q" for q
    using assms that unfolding within_def by (metis option.distinct(1))
  ultimately show ?thesis by (simp add: within_def)
qed

lemma within_inv: "within A B s s' \<Longrightarrow> fs_inv s \<Longrightarrow> fs_inv s'"
  by (simp add: within_def fs_ok_def)

lemma within_mono: "within A B s s' \<Longrightarrow> (\<And>q. A q \<Longrightarrow> A' q) \<Longrightarrow> (\<And>q. B q \<Longrightarrow> A' q \<or> B' q) \<Longrightarrow> within A' B' s s'"
  unfolding within_def by blast

lemma confinedI: "(\<And>s r s'. f s = (r, s') \<Longrightarrow> fs_inv s \<Longrightarrow> within A B s s') \<Longrightarrow> confined A B f"
  by (simp add: confined_def)

lemma confinedD: "confined A B f \<Longrightarrow> f s = (r, s') \<Longrightarrow> fs_inv s \<Longrightarrow> within A B s s'"
  by (simp add: confined_def)

lemma confined_mono: "confined A B f \<Longrightarrow> (\<And>q. A q \<Longrightarrow> A' q) \<Longrightarrow> (\<And>q. B q \<Longrightarrow> A' q \<or> B' q) \<Longrightarrow> confined A' B' f"
  unfolding confined_def using within_mono by blast

section \<open>Composition\<close>

lemma confined_const [confining]: "confined A B (\<lambda>s. (r, s))" "confined A B (Pair r)"
  by (simp_all add: confined_def)

lemma confined_try [confining]:
  assumes "confined A B f" "\<And>x. confined A B (g x)"
  shows "confined A B (\<lambda>s. try_io (f s) g)" "confined A B (\<lambda>s. try_io (f s) (\<lambda>x s. g x s))"
proof -
  have "within A B s s'" if r: "try_io (f s) g = (r, s')" and inv: "fs_inv s" for s r s'
  proof -
    obtain r1 s1 where f: "f s = (r1, s1)" by force
    note w = confinedD [OF assms(1) f inv]
    show ?thesis
    proof (cases r1)
      case (Inl e)
      then show ?thesis using r f w by simp
    next
      case (Inr x)
      then have "g x s1 = (r, s')" using r f by simp
      from within_trans [OF w confinedD [OF assms(2) this within_inv [OF w inv]]] show ?thesis .
    qed
  qed
  then show "confined A B (\<lambda>s. try_io (f s) g)" "confined A B (\<lambda>s. try_io (f s) (\<lambda>x s. g x s))"
    by (simp_all add: confined_def)
qed

lemma confined_case [confining]:
  assumes "confined A B f" "\<And>b. confined A B (g b)"
  shows "confined A B (\<lambda>s. case f s of (b, s) \<Rightarrow> g b s)"
proof (rule confinedI)
  fix s r s'
  assume r: "(case f s of (b, s) \<Rightarrow> g b s) = (r, s')" and inv: "fs_inv s"
  obtain b s1 where f: "f s = (b, s1)" by force
  note w = confinedD [OF assms(1) f inv]
  have "g b s1 = (r, s')" using r f by simp
  from within_trans [OF w confinedD [OF assms(2) this within_inv [OF w inv]]] show "within A B s s'" .
qed

lemma confined_with_io [confining]: "confined A B f \<Longrightarrow> confined A B (\<lambda>s. with_io operation p (f s))"
  unfolding confined_def with_io_def by (fastforce split: prod.splits sum.splits)

lemma confined_if [confining]:
  "(b \<Longrightarrow> confined A B f) \<Longrightarrow> (\<not> b \<Longrightarrow> confined A B g) \<Longrightarrow> confined A B (\<lambda>s. if b then f s else g s)"
  "(b \<Longrightarrow> confined A B f) \<Longrightarrow> (\<not> b \<Longrightarrow> confined A B g) \<Longrightarrow> confined A B (\<lambda>s. (if b then f else g) s)"
  "(b \<Longrightarrow> confined A B f) \<Longrightarrow> (\<not> b \<Longrightarrow> confined A B g) \<Longrightarrow> confined A B (if b then f else g)"
  by (cases b; simp)+

lemma confined_bool [confining]:
  "confined A B f \<Longrightarrow> confined A B g \<Longrightarrow> confined A B (\<lambda>s. case b of True \<Rightarrow> f s | False \<Rightarrow> g s)"
  by (cases b) simp_all

lemma confined_node [confining]:
  "(\<And>c. confined A B (f c)) \<Longrightarrow> confined A B g \<Longrightarrow> confined A B h \<Longrightarrow> confined A B k \<Longrightarrow>
     confined A B (\<lambda>s. case t of NFile c \<Rightarrow> f c s | NDir \<Rightarrow> g s | NSymlink \<Rightarrow> h s | NOther \<Rightarrow> k s)"
  by (cases t) simp_all

section \<open>Calls\<close>

lemma confined_prim_read: "(\<And>s. nodes (snd (f s)) = nodes s \<and> frame s (snd (f s))) \<Longrightarrow> confined A B f"
  by (rule confinedI) (metis fs_ok_nodes lookup_nodes no_links_def snd_conv within_def)

lemma confined_reads [confining]:
  "confined A B (fs_read_to_string p)" "confined A B (path_is_dir p)" "confined A B (path_is_file p)"
  "confined A B (path_exists p)" "confined A B (fs_read_dir p)" "confined A B (fs_symlink_metadata p)" "confined A B (fs_read p)"
proof -
  show "confined A B (fs_read_to_string p)" by (rule confined_prim_read) (metis fs_read_to_string_effect(1,2) prod.collapse)
  show "confined A B (path_is_dir p)" by (rule confined_prim_read) (metis path_is_dir_effect(1,2) prod.collapse)
  show "confined A B (path_is_file p)" by (rule confined_prim_read) (metis path_is_file_effect(1,2) prod.collapse)
  show "confined A B (path_exists p)" by (rule confined_prim_read) (metis path_exists_effect(1,2) prod.collapse)
  show "confined A B (fs_read_dir p)" by (rule confined_prim_read) (metis fs_read_dir_keeps prod.collapse)
  show "confined A B (fs_symlink_metadata p)" by (rule confined_prim_read) (metis fs_symlink_metadata_effect(1,2) prod.collapse)
  show "confined A B (fs_read p)" by (rule confined_prim_read) (metis fs_read_effect(1,2) prod.collapse)
qed

lemma confined_entry [confining]: "confined A B (fs_prim OpEntry (\<lambda>s. (Inr x, s)))"
  by (rule confined_prim_read) (auto simp: fs_prim_def Let_def split: option.split)

lemma confined_entry_type [confining]: "confined A B (entry_type operation p t)"
  unfolding entry_type_def by (intro confining)

lemma confined_mkdir: "A p \<or> B p \<Longrightarrow> confined A B (fs_mkdir p)"
proof (rule confinedI)
  fix s r s'
  assume p: "A p \<or> B p" and m: "fs_mkdir p s = (r, s')"
  show "within A B s s'"
    using fs_mkdir_effect [OF m] p by (cases r) (auto simp: within_def no_links_def split: if_splits)
qed

lemma confined_mkdir_from: "(\<And>q. prefix q (base @ cs) \<Longrightarrow> A q \<or> B q) \<Longrightarrow> confined A B (mkdir_from base cs)"
proof (induction cs arbitrary: base)
  case (Cons c cs)
  have q: "A (base @ [c]) \<or> B (base @ [c])" using Cons.prems [of "base @ [c]"] by simp
  have 2: "confined A B (mkdir_from (base @ [c]) cs)" using Cons.prems by (intro Cons.IH) simp
  have 1: "confined A B (\<lambda>s. try_io (fs_mkdir (base @ [c]) s) (\<lambda>_. mkdir_from (base @ [c]) cs))"
    by (intro confined_try confined_mkdir [of A _ B, OF q] 2)
  show ?case
    by (rule confinedI) (use confinedD [OF 1] confinedD [OF 2] in \<open>auto split: if_splits\<close>)
qed (simp add: confined_def)

lemma confined_create_dir_all: "(\<And>q. prefix q p \<Longrightarrow> A q \<or> B q) \<Longrightarrow> confined A B (fs_create_dir_all p)"
  unfolding fs_create_dir_all_def by (rule confined_mkdir_from) simp

lemma confined_write: "A p \<Longrightarrow> confined A B (fs_write p bs)"
proof (rule confinedI)
  fix s r s'
  assume p: "A p" and m: "fs_write p bs s = (r, s')"
  show "within A B s s'"
    using fs_write_effect(1,3) [OF m] fs_write_links [OF m] p by (simp add: within_def) metis
qed

lemma confined_remove_dir_all: "p \<noteq> [] \<Longrightarrow> (\<And>q. prefix p q \<Longrightarrow> A q) \<Longrightarrow> confined A B (fs_remove_dir_all p)"
proof (rule confinedI)
  fix s r s'
  assume p: "p \<noteq> []" "\<And>q. prefix p q \<Longrightarrow> A q" and m: "fs_remove_dir_all p s = (r, s')" and inv: "fs_inv s"
  show "within A B s s'"
    using fs_remove_dir_all_effect(1,3) [OF m inv p(1)] fs_remove_dir_all_links [OF m] p(2) by (auto simp: within_def)
qed

lemma confined_remove_file: "A p \<Longrightarrow> confined A B (fs_remove_file p)"
proof (rule confinedI)
  fix s r s'
  assume p: "A p" and m: "fs_remove_file p s = (r, s')"
  show "within A B s s'" using fs_remove_file_effect [OF m] p by (cases r) (auto simp: within_def no_links_def split: if_splits)
qed

section \<open>Reading operations\<close>

lemma confined_collect_dir [confining]: "confined A B (collect_dir_entries es)"
proof (induction es)
  case (Cons e es)
  obtain x t where e: "e = (x, t)" by force
  have "collect_dir_entries (e # es) = (\<lambda>s. try_io (fs_prim OpEntry (\<lambda>s. (Inr (), s)) s) (\<lambda>_. collect_dir_entries es))"
    by (simp add: e fun_eq_iff)
  then show ?case using Cons by (simp add: confining)
qed (simp add: confined_def)

lemma confined_read_dir_sorted [confining]: "confined A B (read_dir_sorted operation p)"
  unfolding read_dir_sorted_def by (intro confining)

lemma confined_collect_aux:
  assumes "\<And>d files. confined A B (collect_skill_files fuel base d files)"
  shows "confined A B (collect_entries fuel base dir es files)"
proof (induction es arbitrary: files)
  case (Cons e es)
  obtain x t where e: "e = (x, t)" by force
  have "confined A B (\<lambda>s. let p = dir @ [x] in
      try_io (entry_type ''inspect skill file'' p t s) (\<lambda>t s.
        case t of
          NDir \<Rightarrow> try_io (collect_skill_files fuel base p files s) (\<lambda>files. collect_entries fuel base dir es files)
        | NFile _ \<Rightarrow> try_io (posix_relative_path base p, s) (\<lambda>rel s.
            try_io (with_io ''read skill file'' p (fs_read_to_string p s)) (\<lambda>content.
              collect_entries fuel base dir es (btree_insert rel content files)))
        | _ \<Rightarrow> collect_entries fuel base dir es files s))"
    unfolding Let_def by (intro confining Cons.IH assms)
  moreover have "collect_entries fuel base dir (e # es) files = (\<lambda>s. let p = dir @ [x] in
      try_io (entry_type ''inspect skill file'' p t s) (\<lambda>t s.
        case t of
          NDir \<Rightarrow> try_io (collect_skill_files fuel base p files s) (\<lambda>files. collect_entries fuel base dir es files)
        | NFile _ \<Rightarrow> try_io (posix_relative_path base p, s) (\<lambda>rel s.
            try_io (with_io ''read skill file'' p (fs_read_to_string p s)) (\<lambda>content.
              collect_entries fuel base dir es (btree_insert rel content files)))
        | _ \<Rightarrow> collect_entries fuel base dir es files s))"
    by (rule ext) (simp only: e collect_entries.simps)
  ultimately show ?case by simp
qed (simp add: confined_def)

lemma confined_collect [confining]: "confined A B (collect_skill_files fuel base dir files)"
proof (induction fuel arbitrary: dir files)
  case (Suc fuel)
  have "collect_skill_files (Suc fuel) base dir files =
      (\<lambda>s. try_io (read_dir_sorted ''read skill files'' dir s) (\<lambda>es. collect_entries fuel base dir es files))"
    by (rule ext) simp
  then show ?case using confined_collect_aux [OF Suc] by (simp add: confining)
qed (simp add: confined_def)

lemma confined_read_skill_files [confining]: "confined A B (read_skill_files dir)"
  by (rule confinedI) (simp only: read_skill_files_def confinedD [OF confined_collect])

lemma confined_latest [confining]: "confined A B (latest_version dir es v)"
proof (induction es arbitrary: v)
  case (Cons e es)
  obtain x t where e: "e = (x, t)" by force
  have "latest_version dir (e # es) v = (\<lambda>s. try_io (entry_type ''inspect skill version file'' (dir @ [x]) t s) (\<lambda>t.
       latest_version dir es (case (t, entry_version x) of (NFile _, Some w) \<Rightarrow> max v w | _ \<Rightarrow> v)))"
    by (rule ext) (simp add: e)
  then show ?case using Cons by (simp add: confining)
qed (simp add: confined_def)

lemma confined_version_entries [confining]: "confined A B (version_entries dir es)"
proof (induction es)
  case (Cons e es)
  obtain x t where e: "e = (x, t)" by force
  have "confined A B (\<lambda>s. try_io (entry_type ''inspect skill version file'' (dir @ [x]) t s) (\<lambda>t s.
     try_io (version_entries dir es s) (\<lambda>rest s.
       (Inr (case t of NFile _ \<Rightarrow> if snd (stem_extension x) = Some ''json'' then (dir @ [x]) # rest else rest | _ \<Rightarrow> rest), s))))"
    by (intro confining Cons.IH)
  moreover have "version_entries dir (e # es) = (\<lambda>s. try_io (entry_type ''inspect skill version file'' (dir @ [x]) t s) (\<lambda>t s.
     try_io (version_entries dir es s) (\<lambda>rest s.
       (Inr (case t of NFile _ \<Rightarrow> if snd (stem_extension x) = Some ''json'' then (dir @ [x]) # rest else rest | _ \<Rightarrow> rest), s))))"
    by (rule ext) (simp only: e version_entries.simps)
  ultimately show ?case by simp
qed (simp add: confined_def)

lemma confined_read_all [confining]: "(\<And>p. confined A B (f p)) \<Longrightarrow> confined A B (read_all f ps)"
proof (induction ps)
  case (Cons p ps)
  have "read_all f (p # ps) = (\<lambda>s. try_io (f p s) (\<lambda>x s. try_io (read_all f ps s) (\<lambda>xs s. (Inr (x # xs), s))))"
    by (rule ext) simp
  then show ?case using Cons by (simp add: confining)
qed (simp add: confined_def)

lemma confined_read_version [confining]: "confined A B (read_skill_version lb p)"
  unfolding read_skill_version_def by (intro confining)

lemma confined_user_exists [confining]: "confined A B (ensure_user_skill_exists sv i)"
  unfolding ensure_user_skill_exists_def by (intro confining)

lemma confined_list_versions [confining]: "confined A B (host_list_skill_versions lb sv i)"
  unfolding host_list_skill_versions_def skill_version_paths_def Let_def by (intro confining)

section \<open>Changing operations\<close>

lemma confined_write_files:
  "(\<And>q. prefix q dir \<Longrightarrow> A q \<or> B q) \<Longrightarrow> (\<And>q. prefix dir q \<Longrightarrow> A q) \<Longrightarrow>
    validate_file_paths (map fst files) = Inr () \<Longrightarrow> confined A B (write_skill_files dir files)"
proof (induction files)
  case (Cons f files)
  obtain k c where f: "f = (k, c)" by force
  let ?p = "dir @ normalize_posix_relative_path k"
  have plain: "''..'' \<notin> set (normalize_posix_relative_path k)" and rest: "validate_file_paths (map fst files) = Inr ()"
    using Cons.prems(3) validate_keys_plain [OF Cons.prems(3), of k] by (simp_all add: f try_res_Inr_iff)
  have way: "A q \<or> B q" if "prefix q (butlast ?p)" for q
  proof -
    have "prefix q ?p" using that prefixeq_butlast [of ?p] prefix_order.trans by blast
    then show ?thesis using Cons.prems(1,2) by (auto simp: prefix_append)
  qed
  have "confined A B (\<lambda>s. try_io (with_io ''create skill file parent dir'' (butlast ?p) (fs_create_dir_all (butlast ?p) s)) (\<lambda>_ s.
      try_io (with_io ''write skill file'' ?p (fs_write ?p c s)) (\<lambda>_. write_skill_files dir files)))"
    by (intro confining confined_create_dir_all way confined_write Cons.IH Cons.prems(1,2) rest) simp_all
  moreover have "write_skill_files dir (f # files) = (\<lambda>s. try_io (with_io ''create skill file parent dir'' (butlast ?p) (fs_create_dir_all (butlast ?p) s)) (\<lambda>_ s.
      try_io (with_io ''write skill file'' ?p (fs_write ?p c s)) (\<lambda>_. write_skill_files dir files)))"
    by (rule ext) (simp only: f write_skill_files_plain [OF plain] Let_def)
  ultimately show ?case by simp
qed (simp add: confined_def)

text \<open>Directories above the history of a skill.\<close>

abbreviation above_history :: "skills_service \<Rightarrow> string \<Rightarrow> fpath \<Rightarrow> bool" where
  "above_history sv i q \<equiv> prefix q (skills_dir sv @ [SKILL_VERSIONS_DIR, i])"

lemma area_facts:
  assumes "host_validate_skill_id i = Inr ()"
  shows "prefix (skill_path sv i) q \<Longrightarrow> skill_area sv i q"
    "prefix q (skill_path sv i) \<Longrightarrow> skill_area sv i q \<or> above_history sv i q"
    "prefix (skill_versions_dir sv i) q \<Longrightarrow> skill_area sv i q"
    "prefix q (skills_dir sv) \<Longrightarrow> skill_area sv i q \<or> above_history sv i q"
    "prefix q (skill_versions_dir sv i) \<Longrightarrow> above_history sv i q"
  by (auto simp: skill_area_def valid_paths [OF assms] prefix_append prefix_Cons)

lemma paths_not_Nil:
  assumes "host_validate_skill_id i = Inr ()"
  shows "skill_path sv i \<noteq> []" "skill_versions_dir sv i \<noteq> []"
  by (simp_all add: valid_paths [OF assms])

lemma confined_save_version:
  assumes "host_validate_skill_id i = Inr ()"
  shows "confined (skill_area sv i) (above_history sv i) (save_skill_version lb now sv i files)"
proof -
  have "skill_area sv i (skill_version_path sv i v)" for v by (simp add: area_facts [OF assms] skill_version_path_def)
  then show ?thesis
    unfolding save_skill_version_def next_skill_version_def Let_def
    by (intro confining confined_create_dir_all confined_write disjI2 [OF area_facts(5) [OF assms]]) simp_all
qed

text \<open>An identifier that is refused changes nothing.\<close>

lemma invalid_id_calls:
  assumes "host_validate_skill_id i = Inl e"
  shows "snd (host_create_skill lb now sv i files s) = s" "snd (host_update_skill lb now sv i files s) = s"
    "snd (host_rollback_skill lb now sv i v s) = s" "snd (host_delete_skill sv i s) = s"
  by (simp_all add: host_create_skill_def host_update_skill_def host_rollback_skill_def host_delete_skill_def Let_def assms)

text \<open>
  The operations: what comes after the checks of the identifier and of the file keys touches only the
  directories of the skill, and without those checks nothing is touched.
\<close>

lemma confined_update: "confined (skill_area sv i) (above_history sv i) (host_update_skill lb now sv i files)"
proof (cases "host_validate_skill_id i")
  case (Inl e)
  show ?thesis unfolding host_update_skill_def Let_def Inl try_io_simps by (intro confining)
next
  case (Inr u)
  then have id: "host_validate_skill_id i = Inr ()" by simp
  show ?thesis
  proof (cases "validate_file_paths (map fst files)")
    case (Inl e)
    show ?thesis unfolding host_update_skill_def Let_def id Inl try_io_simps by (intro confining)
  next
    case (Inr v)
    then have keys: "validate_file_paths (map fst files) = Inr ()" by simp
    show ?thesis
      unfolding host_update_skill_def Let_def id keys try_io_simps
      by (intro confining confined_save_version [OF id] confined_write_files keys confined_create_dir_all
          confined_remove_dir_all paths_not_Nil [OF id] area_facts [OF id])
  qed
qed

lemma confined_create: "confined (skill_area sv i) (above_history sv i) (host_create_skill lb now sv i files)"
proof (cases "host_validate_skill_id i")
  case (Inl e)
  show ?thesis unfolding host_create_skill_def Let_def Inl try_io_simps by (intro confining)
next
  case (Inr u)
  then have id: "host_validate_skill_id i = Inr ()" by simp
  show ?thesis
  proof (cases "validate_file_paths (map fst files)")
    case (Inl e)
    show ?thesis
      unfolding host_create_skill_def ensure_base_dir_def Let_def id Inl try_io_simps
      by (intro confining confined_create_dir_all area_facts [OF id])
  next
    case (Inr v)
    then have keys: "validate_file_paths (map fst files) = Inr ()" by simp
    show ?thesis
      unfolding host_create_skill_def ensure_base_dir_def Let_def id keys try_io_simps
      by (intro confining confined_save_version [OF id] confined_write_files keys confined_create_dir_all confined_mkdir
          disjI1 [OF area_facts(1) [OF id]] paths_not_Nil [OF id] area_facts [OF id]) simp_all
  qed
qed

lemma confined_rollback: "confined (skill_area sv i) (above_history sv i) (host_rollback_skill lb now sv i v)"
  unfolding host_rollback_skill_def by (intro confining confined_update)

lemma confined_remove_existing:
  "p \<noteq> [] \<Longrightarrow> (\<And>q. prefix p q \<Longrightarrow> A q) \<Longrightarrow> confined A B (remove_existing_path operation p)"
proof (rule confinedI)
  fix s r s'
  assume p: "p \<noteq> []" "\<And>q. prefix p q \<Longrightarrow> A q" and r: "remove_existing_path operation p s = (r, s')" and inv: "fs_inv s"
  obtain r1 s1 where 1: "fs_symlink_metadata p s = (r1, s1)" by force
  note w = confinedD [OF confined_reads(6) 1 inv]
  have d: "confined A B (\<lambda>s. with_io operation p (fs_remove_dir_all p s))"
    and f: "confined A B (\<lambda>s. with_io operation p (fs_remove_file p s))"
    using p by (auto intro!: confining confined_remove_dir_all confined_remove_file)
  have "with_io operation p (fs_remove_dir_all p s1) = (r, s') \<or> with_io operation p (fs_remove_file p s1) = (r, s') \<or> s' = s1"
    using r by (auto simp: remove_existing_path_def 1 split: sum.splits node.splits if_splits)
  then show "within A B s s'"
    using within_trans [OF w] confinedD [OF d _ within_inv [OF w inv]] confinedD [OF f _ within_inv [OF w inv]] w by blast
qed

lemma confined_delete: "confined (skill_area sv i) (above_history sv i) (host_delete_skill sv i)"
proof (cases "host_validate_skill_id i")
  case (Inl e)
  show ?thesis unfolding host_delete_skill_def Let_def Inl try_io_simps by (intro confining)
next
  case (Inr u)
  then have id: "host_validate_skill_id i = Inr ()" by simp
  show ?thesis
    unfolding host_delete_skill_def Let_def id try_io_simps
    by (intro confining confined_remove_existing confined_remove_dir_all paths_not_Nil [OF id] area_facts [OF id])
qed

section \<open>Updates whose keys clash\<close>

lemma create_dirs_lookup:
  assumes "fs_create_dir_all p s = (r, s')" "calm_tree s"
  shows "calm_tree s' \<and> (lookup s' q = lookup s q \<or> lookup s q = None \<and> lookup s' q = Some NDir)"
proof -
  have "fs_inv s" using assms(2) by (simp add: calm_tree_def)
  then have "within (\<lambda>_. False) (\<lambda>_. True) s s'"
    using confinedD [OF confined_create_dir_all [of p "\<lambda>_. False" "\<lambda>_. True"] assms(1)] by simp
  then show ?thesis using calm_tree_ok [OF _ assms(2)] by (auto simp: within_def)
qed

lemma write_lookup:
  assumes "fs_write p c s = (r, s')" "calm_tree s"
  shows "calm_tree s' \<and> (q \<noteq> p \<longrightarrow> lookup s' q = lookup s q) \<and>
    (case r of Inl _ \<Rightarrow> lookup s' p = lookup s p | Inr _ \<Rightarrow> lookup s' p = Some (NFile c))"
proof -
  note e = fs_write_effect [OF assms(1)]
  obtain r1 s1 where 1: "fs_create p s = (r1, s1)" by force
  have "frame s s1" using fs_create_effect(1) [OF 1] by (simp add: fs_ok_def)
  then have "quiet s1" using quiet_frame [of s s1] assms(2) by (simp add: calm_tree_def)
  then have ok: "fst (fs_write_all p c s1) = Inr ()" by (simp add: fs_write_all_def quiet_def Let_def)
  have "lookup s' p = lookup s p" if "r = Inl err" for err
  proof (cases r1)
    case (Inl err1)
    then have "s' = s1" using assms(1) 1 by (simp add: fs_write_def)
    then show ?thesis using fs_create_effect(3) [OF 1 [unfolded Inl]] by simp
  next
    case (Inr u)
    then show ?thesis using assms(1) 1 ok that by (simp add: fs_write_def)
  qed
  moreover have "lookup s' p = Some (NFile c)" if "r = Inr u" for u using e(2) that by simp
  ultimately show ?thesis using e(1,3) calm_tree_ok [OF e(1) assms(2)] by (auto split: sum.splits)
qed

text \<open>Writing files without failing calls: nothing but directories and the given files appears, files stay files,
  and each of the files is there if the writing succeeds.\<close>

lemma write_files_outcome:
  assumes "write_skill_files dir files s = (r, s')" "validate_file_paths (map fst files) = Inr ()" "calm_tree s"
  shows "calm_tree s' \<and>
    (\<forall>q c. lookup s' q = Some (NFile c) \<longrightarrow>
       lookup s q = Some (NFile c) \<or> (\<exists>p. q = dir @ p \<and> (p, c) \<in> set (entries_of files))) \<and>
    (\<forall>q c. lookup s q = Some (NFile c) \<longrightarrow> (\<exists>c'. lookup s' q = Some (NFile c'))) \<and>
    (r = Inr () \<longrightarrow> (\<forall>p \<in> fst ` set (entries_of files). \<exists>c'. lookup s' (dir @ p) = Some (NFile c')))"
  using assms
proof (induction files arbitrary: s)
  case Nil
  then show ?case by (simp add: entries_of_def)
next
  case (Cons f files)
  obtain k c where f: "f = (k, c)" by force
  let ?p = "normalize_posix_relative_path k"
  have plain: "''..'' \<notin> set ?p" and rest: "validate_file_paths (map fst files) = Inr ()"
    using Cons.prems(2) validate_keys_plain [OF Cons.prems(2), of k] by (simp_all add: f try_res_Inr_iff)
  have es: "entries_of (f # files) = (?p, c) # entries_of files" by (simp add: entries_of_def f)
  obtain r1 s1 where 1: "fs_create_dir_all (butlast (dir @ ?p)) s = (r1, s1)" by force
  note e1 = create_dirs_lookup [OF 1 Cons.prems(3)]
  obtain r2 s2 where 2: "fs_write (dir @ ?p) c s1 = (r2, s2)" by force
  have c1: "calm_tree s1" using e1 by blast
  note e2 = write_lookup [OF 2 c1]
  have run: "(case r1 of Inl e \<Rightarrow> (\<exists>e'. r = Inl e') \<and> s' = s1
      | Inr _ \<Rightarrow> (case r2 of Inl e \<Rightarrow> (\<exists>e'. r = Inl e') \<and> s' = s2 | Inr _ \<Rightarrow> write_skill_files dir files s2 = (r, s')))"
    using Cons.prems(1) 1 2
    by (cases r1; cases r2) (auto simp: f write_skill_files_plain [OF plain] with_io_def Let_def simp del: write_skill_files.simps)
  have s1: "lookup s1 q = Some (NFile x) \<longleftrightarrow> lookup s q = Some (NFile x)" for q x using e1 [of q] by auto
  consider (made) "s' = s1" "\<exists>e. r = Inl e" | (tried) e where "r2 = Inl e" "s' = s2" "\<exists>e. r = Inl e"
    | (written) "r2 = Inr ()" "write_skill_files dir files s2 = (r, s')"
    using run by (cases r1; cases r2) auto
  then show ?case
  proof cases
    case made
    then show ?thesis using c1 s1 by auto
  next
    case tried
    then have "lookup s2 q = lookup s1 q" for q using e2 [of q] by (cases "q = dir @ ?p") auto
    then show ?thesis using tried e2 s1 by auto
  next
    case written
    have c2: "calm_tree s2" and at: "lookup s2 (dir @ ?p) = Some (NFile c)"
      and off: "\<And>q. q \<noteq> dir @ ?p \<Longrightarrow> lookup s2 q = lookup s1 q" using e2 written(1) by auto
    note ih = Cons.IH [OF written(2) rest c2]
    have old: "\<exists>c'. lookup s' q = Some (NFile c')" if "lookup s2 q = Some (NFile x)" for q x using ih that by blast
    have "lookup s q = Some (NFile x) \<or> (\<exists>p. q = dir @ p \<and> (p, x) \<in> set (entries_of (f # files)))"
      if "lookup s' q = Some (NFile x)" for q x
    proof -
      have "lookup s2 q = Some (NFile x) \<or> (\<exists>p. q = dir @ p \<and> (p, x) \<in> set (entries_of files))" using ih that by blast
      then show ?thesis using at off [of q] s1 [of q x] by (cases "q = dir @ ?p") (auto simp: es)
    qed
    moreover have "\<exists>c'. lookup s' q = Some (NFile c')" if "lookup s q = Some (NFile x)" for q x
      using at off [of q] s1 [of q x] that old by (cases "q = dir @ ?p") auto
    moreover have "\<exists>c'. lookup s' (dir @ p) = Some (NFile c')" if "r = Inr ()" "p \<in> fst ` set (entries_of (f # files))" for p
      using that old [OF at] ih by (auto simp: es)
    ultimately show ?thesis using ih by blast
  qed
qed

text \<open>Keys of which one names the directory of another cannot all be written.\<close>

lemma write_clash_fails:
  assumes "write_skill_files dir files s = (r, s')" "validate_file_paths (map fst files) = Inr ()" "calm_tree s"
    and "p \<in> fst ` set (entries_of files)" "q \<in> fst ` set (entries_of files)" "strict_prefix p q"
  shows "\<exists>e. r = Inl e"
proof (cases r)
  case (Inr u)
  note w = write_files_outcome [OF assms(1-3)]
  have "\<forall>x \<in> fst ` set (entries_of files). \<exists>c'. lookup s' (dir @ x) = Some (NFile c')" using w Inr by simp
  then obtain c d where "lookup s' (dir @ p) = Some (NFile c)" "lookup s' (dir @ q) = Some (NFile d)"
    using assms(4,5) by meson
  moreover have "fs_inv s'" using w by (simp add: calm_tree_def)
  moreover have "strict_prefix (dir @ p) (dir @ q)" using assms(6) by (simp add: strict_prefix_def)
  ultimately show ?thesis using fs_invD [of s' "dir @ q" "dir @ p"] by simp
qed simp

lemma holds_entry:
  assumes "skill_holds lb sv s i f hist" "(x, c) \<in> set (entries_of f)"
  shows "lookup s (skill_path sv i @ x) = Some (NFile c)"
proof -
  have nc: "no_conflicts (entries_of f)" using assms(1) by (simp add: skill_holds_def proper_filesD)
  then have "x \<noteq> []" using assms(2) by (force simp: no_conflicts_def)
  then show ?thesis using assms tree_of_file [OF nc] by (simp add: skill_holds_def holds_entries_def)
qed

lemma update_clash:
  assumes holds: "skill_holds lb sv s i f hist" "hist = [] \<Longrightarrow> version_kept lb (snapshot now i 1 f)"
    and keys: "validate_file_paths (map fst files) = Inr ()"
    and clash: "p \<in> fst ` set (entries_of files)" "q \<in> fst ` set (entries_of files)" "strict_prefix p q"
  obtains e s' where "host_update_skill lb now sv i files s = (Inl e, s')"
    "\<forall>p c. lookup s' (skill_path sv i @ p) = Some (NFile c) \<longrightarrow> (p, c) \<in> set (entries_of files)"
    "holds_history lb s' (skill_versions_dir sv i) (seen_history now i f hist)"
proof -
  let ?dir = "skill_path sv i" and ?vd = "skill_versions_dir sv i"
  have calm: "calm_tree s" and id: "host_validate_skill_id i = Inr ()" and nb: "\<not> is_builtin sv i" and dir: "lookup s ?dir = Some NDir"
    using holds(1) by (simp_all add: skill_holds_def holds_entries_def)
  obtain n where ex: "ensure_user_skill_exists sv i s = (Inr (), s\<lparr>op_count := n\<rparr>)"
    using user_skill_exists_calm [OF calm dir nb] .
  have "skill_holds lb sv (s\<lparr>op_count := n\<rparr>) i f hist"
    using holds(1) by (simp add: skill_holds_def holds_entries_def holds_history_def)
  from seen_history_calm [OF this holds(2)]
  obtain s1 where s1: "try_io (host_list_skill_versions lb sv i (s\<lparr>op_count := n\<rparr>)) (\<lambda>versions s.
       if versions = [] then
         try_io (read_skill_files ?dir s) (\<lambda>existing s.
         try_io (save_skill_version lb now sv i existing s) (\<lambda>_ s. (Inr (), s)))
       else (Inr (), s)) = (Inr (), s1)" "skill_holds lb sv s1 i f (seen_history now i f hist)" by blast
  have "calm_tree s1" "lookup s1 ?dir = Some NDir" using s1(2) by (simp_all add: skill_holds_def holds_entries_def)
  from empty_dir_calm [OF this paths_not_Nil(1) [OF id]]
  obtain s2 s3 where s3: "fs_remove_dir_all ?dir s1 = (Inr (), s2)" "fs_create_dir_all ?dir s2 = (Inr (), s3)" "calm_tree s3"
    "holds_entries s3 ?dir []" "\<forall>q. \<not> prefix ?dir q \<longrightarrow> lookup s3 q = lookup s1 q" by blast
  obtain r s4 where w: "write_skill_files ?dir files s3 = (r, s4)" by force
  obtain e where e: "r = Inl e" using write_clash_fails [OF w keys s3(3) clash] ..
  have none: "lookup s3 (?dir @ p) \<noteq> Some (NFile c)" for p c
    using s3(4) by (cases "p = []") (simp_all add: holds_entries_def)
  have "host_update_skill lb now sv i files s = (Inl e, s4)"
  proof -
    let ?F = "\<lambda>versions s. if versions = [] then
        try_io (read_skill_files ?dir s) (\<lambda>existing s.
        try_io (save_skill_version lb now sv i existing s) (\<lambda>_ s. (Inr (), s)))
      else (Inr (), s)"
    have "host_update_skill lb now sv i files s = try_io (try_io (host_list_skill_versions lb sv i (s\<lparr>op_count := n\<rparr>)) ?F) (\<lambda>_ s.
       try_io (with_io ''remove skill dir'' ?dir (fs_remove_dir_all ?dir s)) (\<lambda>_ s.
       try_io (with_io ''create skill dir'' ?dir (fs_create_dir_all ?dir s)) (\<lambda>_ s.
       try_io (write_skill_files ?dir files s) (\<lambda>_ s.
       try_io (save_skill_version lb now sv i files s) (\<lambda>_ s.
       try_io (read_skill_files ?dir s) (\<lambda>stored s.
         (Inr \<lparr>hs_skill_id = i, hs_files = stored, hs_source = User\<rparr>, s)))))))"
      by (simp only: host_update_skill_def Let_def id ex keys try_io_simps try_io_assoc)
    then show ?thesis unfolding s1(1) using s3(1,2) w e by simp
  qed
  moreover have "\<forall>p c. lookup s4 (?dir @ p) = Some (NFile c) \<longrightarrow> (p, c) \<in> set (entries_of files)"
    using write_files_outcome [OF w keys s3(3)] none by fastforce
  moreover have "holds_history lb s4 ?vd (seen_history now i f hist)"
  proof -
    have inv: "fs_inv s3" and d3: "lookup s3 ?dir = Some NDir" using s3(3,4) by (simp_all add: calm_tree_def holds_entries_def)
    have "confined (prefix ?dir) (\<lambda>q. prefix q ?dir) (write_skill_files ?dir files)"
      by (rule confined_write_files [OF _ _ keys]) simp_all
    note within = confinedD [OF this w inv]
    have "lookup s4 q = lookup s1 q" if q: "\<not> prefix ?dir q" for q
    proof -
      have "prefix q ?dir \<Longrightarrow> lookup s3 q = Some NDir" using fs_invD [OF inv, of ?dir q] d3 q by (auto simp: strict_prefix_def)
      then show ?thesis using within s3(5) q by (auto simp: within_def)
    qed
    then have "\<forall>q. prefix q ?vd \<or> prefix ?vd q \<longrightarrow> lookup s4 q = lookup s1 q"
      using paths_apart(1,3) [OF id] by (metis prefix_def)
    then show ?thesis using holds_history_cong [of ?vd s4 s1] s1(2) by (simp add: skill_holds_def)
  qed
  ultimately show thesis using that by blast
qed

end
