(* ===== verification/Skill_Claims.thy ===== *)
theory Skill_Claims
  imports Host_Skill_Frame
begin

text \<open>
  What the skill service of the agent host guarantees: the life of a skill over its operations, what an
  operation may touch, and what a failed update leaves behind.
\<close>

section \<open>Sample data\<close>

definition sample_host :: fsys where
  "sample_host = \<lparr>root_text = ''/'', nodes = [], temp_file_counter = 0, process_id = 7, op_count = 0,
     faults = (\<lambda>_ _. None), os_text = (\<lambda>_. ''os error'')\<rparr>"

definition sample_service :: skills_service where
  "sample_service = \<lparr>skills_dir = [''skills''], builtin_skills_dir = [''builtin''], builtin_ids = [''todo'']\<rparr>"

definition notes_files :: "string btree" where
  "notes_files = [(''SKILL.md'', ''take notes''), (''lib/a.py'', ''pass'')]"

definition notes_files' :: "string btree" where
  "notes_files' = [(''SKILL.md'', ''take better notes'')]"

text \<open>A codec for three snapshots.\<close>

definition notes_version :: "64 word \<Rightarrow> skill_version" where
  "notes_version v =
     (if v = 1 then snapshot ''t1'' ''notes'' 1 notes_files
      else if v = 2 then snapshot ''t2'' ''notes'' 2 notes_files'
      else snapshot ''t3'' ''notes'' 3 notes_files)"

definition sample_libs :: skill_libs where
  "sample_libs = \<lparr>version_to_json = (\<lambda>h. Inr (pad20 (skv_version h))),
     version_of_json = (\<lambda>t. case parse_u64 t of Some v \<Rightarrow> Inr (notes_version v) | None \<Rightarrow> Inl ''not a snapshot''),
     version_summary_of_json = (\<lambda>_. Inl ''not a summary''), host_metadata_of_json = (\<lambda>_. Inl ''no metadata''),
     zip_start_file = (\<lambda>_ w. Inr w), zip_write_all = (\<lambda>c w. Inr (w @ c)), zip_finish = Inr\<rparr>"

abbreviation notes_history :: "skill_version list" where
  "notes_history \<equiv> [snapshot ''t1'' ''notes'' 1 notes_files, snapshot ''t2'' ''notes'' 2 notes_files',
     snapshot ''t3'' ''notes'' 3 notes_files]"

lemma sample_absent: "skill_absent sample_libs sample_service sample_host ''notes'' []"
proof -
  have id: "host_validate_skill_id ''notes'' = Inr ()" by code_simp
  have "lookup sample_host q = (if q = [] then Some NDir else None)" for q by (simp add: lookup_def sample_host_def)
  then have "holds_history sample_libs sample_host (skill_versions_dir sample_service ''notes'') []"
    "lookup sample_host (skill_path sample_service ''notes'') = None"
    by (simp_all add: holds_history_def valid_paths [OF id])
  moreover have "calm_tree sample_host"
    by (simp add: calm_tree_def quiet_def fs_inv_def sample_host_def lookup_def parent_error_None_iff)
  moreover have "\<not> is_builtin sample_service ''notes''" by code_simp
  ultimately show ?thesis using id by (simp add: skill_absent_def)
qed

lemma sample_files: "proper_files notes_files" "proper_files notes_files'"
  by code_simp+

lemma sample_kept: "version_kept sample_libs h \<longleftrightarrow> notes_version (skv_version h) = h"
  by (simp add: version_kept_def sample_libs_def pad20_utf8 parse_pad20)

lemma sample_history: "history_fits sample_libs notes_history"
  by (simp add: history_fits_def sample_kept notes_version_def snapshot_def)

section \<open>The life of a skill\<close>

text \<open>
  (C33) Round trip of a skill over its history, when no call fails: a skill that is created, updated and
  rolled back to its first version reads back as the files it was created with, the operations answer with
  the files they stored, and the listing shows the three versions in order with their content.
\<close>

theorem skill_rollback_restores:
  assumes "skill_absent lb sv s i []" "proper_files f" "proper_files f'"
    and "history_fits lb [snapshot t1 i 1 f, snapshot t2 i 2 f', snapshot t3 i 3 f]"
  shows "\<exists>s1 s2 s3. host_create_skill lb t1 sv i f s = (Inr \<lparr>hs_skill_id = i, hs_files = f, hs_source = User\<rparr>, s1) \<and>
    host_update_skill lb t2 sv i f' s1 = (Inr \<lparr>hs_skill_id = i, hs_files = f', hs_source = User\<rparr>, s2) \<and>
    host_rollback_skill lb t3 sv i 1 s2 = (Inr \<lparr>hs_skill_id = i, hs_files = f, hs_source = User\<rparr>, s3) \<and>
    fst (host_get_skill sv i s3) = Inr \<lparr>hs_skill_id = i, hs_files = f, hs_source = User\<rparr> \<and>
    fst (host_list_skill_versions lb sv i s3) = Inr [snapshot t1 i 1 f, snapshot t2 i 2 f', snapshot t3 i 3 f]"
proof -
  let ?h1 = "[snapshot t1 i 1 f]" and ?h2 = "[snapshot t1 i 1 f, snapshot t2 i 2 f']"
    and ?h3 = "[snapshot t1 i 1 f, snapshot t2 i 2 f', snapshot t3 i 3 f]"
  have v0: "last_version [] = 0" and vs: "last_version ?h1 = 1" "last_version ?h2 = 2"
    by (simp_all add: last_version_def snapshot_def)
  have fits: "history_fits lb ?h1" "history_fits lb ?h2" using assms(4) by (simp_all add: history_fits_def snapshot_def)
  have e1: "extended_history t2 i f f' ?h1 = ?h2" and e2: "extended_history t3 i f' f ?h2 = ?h3"
    by (simp_all add: extended_history_def seen_history_def vs)
  have lt: "last_version [] < last_version [] + (1 :: 64 word)" and f1: "history_fits lb ([] @ [snapshot t1 i (last_version [] + 1) f])"
    using fits(1) by (simp_all add: v0)
  obtain s1 where s1: "host_create_skill lb t1 sv i f s = (Inr \<lparr>hs_skill_id = i, hs_files = f, hs_source = User\<rparr>, s1)"
    "skill_holds lb sv s1 i f ?h1"
    using create_calm [OF assms(1,2) f1 lt] by (auto simp: v0)
  have f2: "history_fits lb (extended_history t2 i f f' ?h1)" using fits(2) by (simp add: e1)
  obtain s2 where s2: "host_update_skill lb t2 sv i f' s1 = (Inr \<lparr>hs_skill_id = i, hs_files = f', hs_source = User\<rparr>, s2)"
    "skill_holds lb sv s2 i f' ?h2"
    using update_calm [OF s1(2) assms(3) f2] unfolding e1 by blast
  have m: "snapshot t1 i 1 f \<in> set ?h2" by simp
  have p: "skv_files (snapshot t1 i 1 f) = f" "skv_version (snapshot t1 i 1 f) = 1" by (simp_all add: snapshot_def)
  note rollback_calm [OF s2(2) m, of t3, unfolded p e2, OF assms(2,4)]
  then obtain s3 where s3: "host_rollback_skill lb t3 sv i 1 s2 = (Inr \<lparr>hs_skill_id = i, hs_files = f, hs_source = User\<rparr>, s3)"
    "skill_holds lb sv s3 i f ?h3" by blast
  show ?thesis using s1(1) s2(1) s3(1) get_calm [OF s3(2)] list_versions_calm [OF s3(2)] by (metis fst_conv)
qed

theorem skill_rollback_restores_witness:
  "\<exists>s1 s2 s3. host_create_skill sample_libs ''t1'' sample_service ''notes'' notes_files sample_host =
      (Inr \<lparr>hs_skill_id = ''notes'', hs_files = notes_files, hs_source = User\<rparr>, s1) \<and>
    host_update_skill sample_libs ''t2'' sample_service ''notes'' notes_files' s1 =
      (Inr \<lparr>hs_skill_id = ''notes'', hs_files = notes_files', hs_source = User\<rparr>, s2) \<and>
    host_rollback_skill sample_libs ''t3'' sample_service ''notes'' 1 s2 =
      (Inr \<lparr>hs_skill_id = ''notes'', hs_files = notes_files, hs_source = User\<rparr>, s3) \<and>
    fst (host_get_skill sample_service ''notes'' s3) =
      Inr \<lparr>hs_skill_id = ''notes'', hs_files = notes_files, hs_source = User\<rparr> \<and>
    fst (host_list_skill_versions sample_libs sample_service ''notes'' s3) = Inr notes_history"
  by (rule skill_rollback_restores [OF sample_absent sample_files sample_history])

text \<open>
  (C34) The service refines a map from skills to their files and histories: when no call fails, an update
  of a skill stores exactly the given files, extends its history by them under the next number (after
  recording the files that were there when there was no history), and every other skill keeps its files and
  its history.
\<close>

theorem skill_update_refines:
  assumes "skill_holds lb sv s i f hist" "proper_files f'" "history_fits lb (extended_history now i f f' hist)"
  shows "\<exists>s'. host_update_skill lb now sv i f' s = (Inr \<lparr>hs_skill_id = i, hs_files = f', hs_source = User\<rparr>, s') \<and>
    skill_holds lb sv s' i f' (extended_history now i f f' hist) \<and>
    (\<forall>j g h. j \<noteq> i \<longrightarrow> skill_holds lb sv s j g h \<longrightarrow> skill_holds lb sv s' j g h)"
proof -
  obtain s' where s': "host_update_skill lb now sv i f' s = (Inr \<lparr>hs_skill_id = i, hs_files = f', hs_source = User\<rparr>, s')"
    "skill_holds lb sv s' i f' (extended_history now i f f' hist)" "untouched sv i s s'"
    using update_calm [OF assms] .
  have "host_validate_skill_id i = Inr ()" "calm_tree s'" using s'(2) by (simp_all add: skill_holds_def)
  then show ?thesis using s' untouched_other [OF s'(3)] by blast
qed

theorem skill_update_refines_witness:
  "\<exists>s s'. skill_holds sample_libs sample_service s ''notes'' notes_files [snapshot ''t1'' ''notes'' 1 notes_files] \<and>
    host_update_skill sample_libs ''t2'' sample_service ''notes'' notes_files' s =
      (Inr \<lparr>hs_skill_id = ''notes'', hs_files = notes_files', hs_source = User\<rparr>, s') \<and>
    skill_holds sample_libs sample_service s' ''notes'' notes_files'
      [snapshot ''t1'' ''notes'' 1 notes_files, snapshot ''t2'' ''notes'' 2 notes_files']"
proof -
  have fits: "history_fits sample_libs ([] @ [snapshot ''t1'' ''notes'' (last_version [] + 1) notes_files])"
    "last_version [] < last_version [] + (1 :: 64 word)"
    "history_fits sample_libs (extended_history ''t2'' ''notes'' notes_files notes_files' [snapshot ''t1'' ''notes'' 1 notes_files])"
    by (simp_all add: history_fits_def sample_kept notes_version_def snapshot_def last_version_def extended_history_def
        seen_history_def)
  have h: "extended_history ''t2'' ''notes'' notes_files notes_files' [snapshot ''t1'' ''notes'' 1 notes_files] =
      [snapshot ''t1'' ''notes'' 1 notes_files, snapshot ''t2'' ''notes'' 2 notes_files']"
    and v: "last_version [] + 1 = 1"
    by (simp_all add: extended_history_def seen_history_def last_version_def snapshot_def)
  obtain s where s: "skill_holds sample_libs sample_service s ''notes'' notes_files [snapshot ''t1'' ''notes'' 1 notes_files]"
    using create_calm [OF sample_absent sample_files(1) fits(1,2)] unfolding v append_Nil by blast
  from skill_update_refines [OF s sample_files(2) fits(3)] s show ?thesis unfolding h by blast
qed

section \<open>Under faults\<close>

text \<open>
  (C35) Whatever call fails on the way, and whether the operation reports success or not: creating,
  updating, rolling back or deleting a skill with a valid identifier changes nothing outside the directory of
  the skill and its history, except that missing directories above the history are created; with an identifier
  that is refused nothing changes at all.  Neither an identifier nor the key of a file can lead out of these
  directories with \<^verbatim>\<open>..\<close>, which the file system resolves to the directory above.  The statement is about trees without
  symbolic links, which the calls of the service would follow, and the operations make none.
\<close>

theorem skill_operations_confined:
  assumes "fs_inv s" "no_links s"
    and "s' \<in> {snd (host_create_skill lb now sv i files s), snd (host_update_skill lb now sv i files s),
      snd (host_rollback_skill lb now sv i v s), snd (host_delete_skill sv i s)}"
  shows "fs_inv s' \<and> no_links s' \<and> (host_validate_skill_id i \<noteq> Inr () \<longrightarrow> s' = s) \<and>
    (\<forall>q. \<not> prefix (skills_dir sv @ [i]) q \<longrightarrow> \<not> prefix (skills_dir sv @ [SKILL_VERSIONS_DIR, i]) q \<longrightarrow>
       lookup s' q = lookup s q \<or>
       prefix q (skills_dir sv @ [SKILL_VERSIONS_DIR, i]) \<and> lookup s q = None \<and> lookup s' q = Some NDir)"
proof -
  have "within (skill_area sv i) (above_history sv i) s s'"
    using assms(3) confinedD [OF confined_create prod.collapse [symmetric] assms(1)]
      confinedD [OF confined_update prod.collapse [symmetric] assms(1)]
      confinedD [OF confined_rollback prod.collapse [symmetric] assms(1)]
      confinedD [OF confined_delete prod.collapse [symmetric] assms(1)]
    by blast
  moreover have "s' = s" if "host_validate_skill_id i \<noteq> Inr ()"
    using that assms(3) invalid_id_calls by (cases "host_validate_skill_id i") auto
  ultimately show ?thesis using assms(1,2) by (auto simp: within_def fs_ok_def skill_area_def)
qed

text \<open>The hypotheses hold for a creation and for an update whose key leads out of the directory, which is refused.\<close>

theorem skill_operations_confined_witness:
  "lookup (snd (host_create_skill sample_libs ''t1'' sample_service ''notes'' notes_files sample_host)) [''other''] = None \<and>
   lookup (snd (host_update_skill sample_libs ''t1'' sample_service ''..'' notes_files sample_host)) [''other''] = None"
proof -
  have a: "fs_inv sample_host" using sample_absent by (simp add: skill_absent_def calm_tree_def)
  have n: "no_links sample_host" by (simp add: no_links_def lookup_def sample_host_def)
  have b: "\<not> prefix (skills_dir sample_service @ [''notes'']) [''other'']"
    "\<not> prefix (skills_dir sample_service @ [SKILL_VERSIONS_DIR, ''notes'']) [''other'']"
    "\<not> prefix [''other''] (skills_dir sample_service @ [SKILL_VERSIONS_DIR, ''notes''])" by code_simp+
  have c: "lookup sample_host [''other''] = None" by (simp add: lookup_def sample_host_def)
  have d: "host_validate_skill_id ''..'' \<noteq> Inr ()" by code_simp
  let ?s1 = "snd (host_create_skill sample_libs ''t1'' sample_service ''notes'' notes_files sample_host)"
    and ?s2 = "snd (host_update_skill sample_libs ''t1'' sample_service ''..'' notes_files sample_host)"
  have "lookup ?s1 [''other''] = None"
    using skill_operations_confined [OF a n, of ?s1 sample_libs "''t1''" sample_service "''notes''" notes_files 1] b c by auto
  moreover have "?s2 = sample_host"
    using skill_operations_confined [OF a n, of ?s2 sample_libs "''t1''" sample_service "''..''" notes_files 1] d by simp
  ultimately show ?thesis using c by simp
qed

text \<open>
  (C36) What a failed update leaves behind, when no call fails: file keys that pass validation may still clash,
  one naming a directory above another.  An update with such keys always fails, and it fails after the directory
  of the skill was emptied: of the files of the skill only those remain that the update carries too, nothing but
  files of the update is there, and the old content survives only in the history, which received it first if
  there was no history.
\<close>

theorem update_clash_loses_content:
  assumes "skill_holds lb sv s i f hist" "hist = [] \<Longrightarrow> version_kept lb (snapshot now i 1 f)"
    and "validate_file_paths (map fst files) = Inr ()"
    and "p \<in> fst ` set (entries_of files)" "q \<in> fst ` set (entries_of files)" "strict_prefix p q"
  shows "\<exists>e s'. host_update_skill lb now sv i files s = (Inl e, s') \<and>
    (\<forall>x c. (x, c) \<in> set (entries_of f) - set (entries_of files) \<longrightarrow>
       lookup s (skill_path sv i @ x) = Some (NFile c) \<and> lookup s' (skill_path sv i @ x) \<noteq> Some (NFile c)) \<and>
    (\<forall>x c. lookup s' (skill_path sv i @ x) = Some (NFile c) \<longrightarrow> (x, c) \<in> set (entries_of files)) \<and>
    holds_history lb s' (skill_versions_dir sv i) (seen_history now i f hist)"
proof -
  obtain e s' where s': "host_update_skill lb now sv i files s = (Inl e, s')"
    "\<forall>x c. lookup s' (skill_path sv i @ x) = Some (NFile c) \<longrightarrow> (x, c) \<in> set (entries_of files)"
    "holds_history lb s' (skill_versions_dir sv i) (seen_history now i f hist)"
    using update_clash [OF assms] by blast
  have "lookup s (skill_path sv i @ x) = Some (NFile c)" if "(x, c) \<in> set (entries_of f)" for x c
    by (rule holds_entry [OF assms(1) that])
  then show ?thesis using s' by blast
qed

text \<open>Two files where one stands for the directory of the other.\<close>

definition clashing_files :: "string btree" where
  "clashing_files = [(''a'', ''x''), (''a/b'', ''y'')]"

theorem update_clash_loses_content_witness:
  "\<exists>s e s'. skill_holds sample_libs sample_service s ''notes'' notes_files [snapshot ''t1'' ''notes'' 1 notes_files] \<and>
    host_update_skill sample_libs ''t2'' sample_service ''notes'' clashing_files s = (Inl e, s') \<and>
    lookup s (skill_path sample_service ''notes'' @ [''SKILL.md'']) = Some (NFile ''take notes'') \<and>
    lookup s' (skill_path sample_service ''notes'' @ [''SKILL.md'']) \<noteq> Some (NFile ''take notes'')"
proof -
  have fits: "history_fits sample_libs ([] @ [snapshot ''t1'' ''notes'' (last_version [] + 1) notes_files])"
    "last_version [] < last_version [] + (1 :: 64 word)"
    by (simp_all add: history_fits_def sample_kept notes_version_def snapshot_def last_version_def)
  have v: "last_version [] + 1 = 1" by (simp add: last_version_def)
  obtain s where s: "skill_holds sample_libs sample_service s ''notes'' notes_files [snapshot ''t1'' ''notes'' 1 notes_files]"
    using create_calm [OF sample_absent sample_files(1) fits(1,2)] unfolding v append_Nil by blast
  have keys: "validate_file_paths (map fst clashing_files) = Inr ()" by code_simp
  have pq: "[''a''] \<in> fst ` set (entries_of clashing_files)" "[''a'', ''b''] \<in> fst ` set (entries_of clashing_files)"
    "strict_prefix [''a''] [''a'', ''b'']" by code_simp+
  have old: "([''SKILL.md''], ''take notes'') \<in> set (entries_of notes_files) - set (entries_of clashing_files)" by code_simp
  have h: "[snapshot ''t1'' ''notes'' 1 notes_files] = [] \<Longrightarrow> version_kept sample_libs (snapshot ''t2'' ''notes'' 1 notes_files)" by simp
  show ?thesis using update_clash_loses_content [OF s h keys pq] s old by blast
qed

end
