(* ===== verification/Agent_Client.thy ===== *)
theory Agent_Client
  imports Config_Resolver
begin

text \<open>
  The client of the agent host (\<^verbatim>\<open>client_service_rs/src/agent_host.rs\<close>), as far as skills and gateways need it,
  and the errors of the client service's HTTP interface (\<^verbatim>\<open>ApiError\<close> in \<^verbatim>\<open>api.rs\<close>).

  The transport is an argument: an \<open>exchange\<close> sends a request, may change the other side, and gives a reply
  or none.  Logging and the URL syntax of a path are left out; a path is the list of its decoded segments.
\<close>

section \<open>JSON objects\<close>

type_synonym json_object = "(string \<times> json) list"

fun value_str :: "json \<Rightarrow> string option" where
  "value_str (JStr s) = Some s" | "value_str _ = None"

fun value_object :: "json \<Rightarrow> json_object option" where
  "value_object (JObj ms) = Some ms" | "value_object _ = None"

definition str_field :: "json_object \<Rightarrow> string \<Rightarrow> string option" where
  "str_field ms k = Option.bind (map_of ms k) value_str"

definition strings_json :: "string btree \<Rightarrow> json" where
  "strings_json m = JObj (map (\<lambda>(k, v). (k, JStr v)) m)"

section \<open>Errors of the client\<close>

text \<open>A body is JSON, or something else with the error that reading it as JSON gives.\<close>

datatype http_body = JsonBody json | BadBody string

datatype agent_host_error =
    InvalidBaseUrl string string
  | InvalidTimeout string string
  | InvalidWebSocketScheme string
  | InvalidProxyPath string
  | InitialResponseTimeout string
  | WebSocketTimeout string
  | UrlCannotBeBase string
  | BuildClient string
  | HttpFailed string
  | WebSocketFailed string
  | HttpStatus nat http_body
  | AgentJson string
  | AgentHeader string string
  | AgentUtf8 string
  | UnexpectedJson string json
  | MissingField string
  | MissingHeader string
  | InvalidField string string

definition TIMEOUT_ENV :: string where "TIMEOUT_ENV = ''CLIENT_SERVICE_AGENT_HOST_TIMEOUT''"

fun display_agent_host_error :: "agent_host_error \<Rightarrow> message" where
  "display_agent_host_error (InvalidBaseUrl raw m) = [Txt ''invalid agent_host base URL '', Dbg raw, Txt '': '', Ext m]"
| "display_agent_host_error (InvalidTimeout raw m) =
     [Txt ''invalid '', Txt TIMEOUT_ENV, Txt '' timeout value '', Dbg raw, Txt '': '', Ext m]"
| "display_agent_host_error (InvalidWebSocketScheme s) =
     [Txt ''agent_host WebSocket requires an HTTP(S) base URL, got scheme '', Dbg s]"
| "display_agent_host_error (InvalidProxyPath p) = [Txt ''invalid VS Code proxy path '', Dbg p]"
| "display_agent_host_error (InitialResponseTimeout t) = [Txt ''agent_host response did not start within '', Ext t]"
| "display_agent_host_error (WebSocketTimeout t) = [Txt ''agent_host terminal WebSocket did not connect within '', Ext t]"
| "display_agent_host_error (UrlCannotBeBase u) = [Txt ''agent_host base URL cannot be a base: '', Txt u]"
| "display_agent_host_error (BuildClient e) = [Txt ''failed to build agent_host HTTP client: '', Ext e]"
| "display_agent_host_error (HttpFailed e) = [Txt ''agent_host HTTP error: '', Ext e]"
| "display_agent_host_error (WebSocketFailed e) = [Txt ''agent_host WebSocket error: '', Ext e]"
| "display_agent_host_error (HttpStatus status _) = [Txt ''agent_host returned HTTP '', Ext (show_nat status)]"
| "display_agent_host_error (AgentJson e) = [Txt ''agent_host JSON error: '', Ext e]"
| "display_agent_host_error (AgentHeader h e) =
     [Txt ''agent_host response header '', Dbg h, Txt '' was not valid text: '', Ext e]"
| "display_agent_host_error (AgentUtf8 e) = [Txt ''agent_host stream was not UTF-8: '', Ext e]"
| "display_agent_host_error (UnexpectedJson expected _) =
     [Txt ''agent_host returned unexpected JSON; expected '', Txt expected]"
| "display_agent_host_error (MissingField f) = [Txt ''agent_host response is missing field '', Dbg f]"
| "display_agent_host_error (MissingHeader h) = [Txt ''agent_host response is missing header '', Dbg h]"
| "display_agent_host_error (InvalidField f expected) =
     [Txt ''agent_host response field '', Dbg f, Txt '' must be '', Txt expected]"

section \<open>Requests\<close>

record agent_request =
  rq_method :: string
  rq_path :: "string list"
  rq_body :: "json option"

text \<open>\<^verbatim>\<open>endpoint\<close>: \<^verbatim>\<open>PathSegmentsMut::extend\<close> passes over the segments that mean a directory.\<close>

definition url_path :: "string list \<Rightarrow> string list" where
  "url_path segs = filter (\<lambda>s. s \<noteq> ''.'' \<and> s \<noteq> ''..'') segs"

datatype agent_reply = NoReply string | HttpReply nat http_body

type_synonym 'h exchange = "agent_request \<Rightarrow> 'h \<Rightarrow> agent_reply \<times> 'h"

type_synonym ('h, 'a) ah_call = "'h \<Rightarrow> (agent_host_error, 'a, 'h) outcome"

definition success_status :: "nat \<Rightarrow> bool" where "success_status status \<longleftrightarrow> 200 \<le> status \<and> status < 300"
definition is_client_error :: "nat \<Rightarrow> bool" where "is_client_error status \<longleftrightarrow> 400 \<le> status \<and> status < 500"
definition is_server_error :: "nat \<Rightarrow> bool" where "is_server_error status \<longleftrightarrow> 500 \<le> status \<and> status < 600"

text \<open>\<^verbatim>\<open>send\<close> followed by \<^verbatim>\<open>ensure_success\<close>.\<close>

definition send_request :: "'h exchange \<Rightarrow> agent_request \<Rightarrow> ('h, http_body) ah_call" where
  "send_request ex rq h =
     (case ex rq h of
        (NoReply e, h) \<Rightarrow> (Inl (HttpFailed e), h)
      | (HttpReply status bd, h) \<Rightarrow>
          if success_status status then (Inr bd, h) else (Inl (HttpStatus status bd), h))"

definition request_json :: "'h exchange \<Rightarrow> string \<Rightarrow> string list \<Rightarrow> json_object option \<Rightarrow> ('h, json) ah_call" where
  "request_json ex method path payload h =
     try_io (send_request ex \<lparr>rq_method = method, rq_path = path, rq_body = map_option JObj payload\<rparr> h) (\<lambda>bd h.
       (case bd of
          JsonBody j \<Rightarrow> Inr j
        | BadBody e \<Rightarrow> Inl (HttpFailed e), h))"

definition object_from_value :: "json \<Rightarrow> (agent_host_error, json_object) result" where
  "object_from_value j = (case j of JObj ms \<Rightarrow> Inr ms | _ \<Rightarrow> Inl (UnexpectedJson ''object'' j))"

fun objects_from_values :: "json list \<Rightarrow> (agent_host_error, json_object list) result" where
  "objects_from_values [] = Inr []"
| "objects_from_values (j # js) =
     try_res (object_from_value j) (\<lambda>ms. try_res (objects_from_values js) (\<lambda>mss. Inr (ms # mss)))"

definition request_object :: "'h exchange \<Rightarrow> string \<Rightarrow> string list \<Rightarrow> json_object option \<Rightarrow> ('h, json_object) ah_call" where
  "request_object ex method path payload h =
     try_io (request_json ex method path payload h) (\<lambda>j h. (object_from_value j, h))"

definition request_array :: "'h exchange \<Rightarrow> string \<Rightarrow> string list \<Rightarrow> json_object option \<Rightarrow> ('h, json_object list) ah_call" where
  "request_array ex method path payload h =
     try_io (request_json ex method path payload h) (\<lambda>j h.
       (case j of JArr js \<Rightarrow> objects_from_values js | _ \<Rightarrow> Inl (UnexpectedJson ''array of objects'' j), h))"

definition request_empty :: "'h exchange \<Rightarrow> string \<Rightarrow> string list \<Rightarrow> ('h, unit) ah_call" where
  "request_empty ex method path h =
     try_io (send_request ex \<lparr>rq_method = method, rq_path = path, rq_body = None\<rparr> h) (\<lambda>_ h. (Inr (), h))"

section \<open>Skills and gateways of the agent host\<close>

definition ah_create_skill :: "'h exchange \<Rightarrow> string \<Rightarrow> string btree \<Rightarrow> ('h, json_object) ah_call" where
  "ah_create_skill ex skill_id files =
     request_object ex ''POST'' (url_path [''skills'']) (Some [(''skill_id'', JStr skill_id), (''files'', strings_json files)])"

definition ah_get_skill :: "'h exchange \<Rightarrow> string \<Rightarrow> ('h, json_object) ah_call" where
  "ah_get_skill ex skill_id = request_object ex ''GET'' (url_path [''skills'', skill_id]) None"

definition ah_list_skills :: "'h exchange \<Rightarrow> ('h, json_object list) ah_call" where
  "ah_list_skills ex = request_array ex ''GET'' (url_path [''skills'']) None"

definition ah_update_skill :: "'h exchange \<Rightarrow> string \<Rightarrow> string btree \<Rightarrow> ('h, json_object) ah_call" where
  "ah_update_skill ex skill_id files =
     request_object ex ''PUT'' (url_path [''skills'', skill_id]) (Some [(''files'', strings_json files)])"

definition ah_list_skill_versions :: "'h exchange \<Rightarrow> string \<Rightarrow> ('h, json_object list) ah_call" where
  "ah_list_skill_versions ex skill_id = request_array ex ''GET'' (url_path [''skills'', skill_id, ''versions'']) None"

definition ah_rollback_skill :: "'h exchange \<Rightarrow> string \<Rightarrow> 64 word \<Rightarrow> ('h, json_object) ah_call" where
  "ah_rollback_skill ex skill_id v =
     request_object ex ''POST'' (url_path [''skills'', skill_id, ''versions'', show_nat (unat v), ''rollback'']) None"

definition ah_delete_skill :: "'h exchange \<Rightarrow> string \<Rightarrow> ('h, unit) ah_call" where
  "ah_delete_skill ex skill_id = request_empty ex ''DELETE'' (url_path [''skills'', skill_id])"

definition ah_create_gateway ::
  "'h exchange \<Rightarrow> string \<Rightarrow> string \<Rightarrow> string \<Rightarrow> string btree \<Rightarrow> ('h, json_object) ah_call" where
  "ah_create_gateway ex gateway_id gateway_type agent_id env =
     request_object ex ''POST'' (url_path [''gateways''])
       (Some [(''gateway_id'', JStr gateway_id), (''gateway_type'', JStr gateway_type), (''agent_id'', JStr agent_id),
         (''env'', strings_json env)])"

definition ah_list_gateways :: "'h exchange \<Rightarrow> ('h, json_object list) ah_call" where
  "ah_list_gateways ex = request_array ex ''GET'' (url_path [''gateways'']) None"

definition ah_get_gateway :: "'h exchange \<Rightarrow> string \<Rightarrow> ('h, json_object) ah_call" where
  "ah_get_gateway ex gateway_id = request_object ex ''GET'' (url_path [''gateways'', gateway_id]) None"

text \<open>A gateway that is gone counts as destroyed.\<close>

definition ah_destroy_gateway :: "'h exchange \<Rightarrow> string \<Rightarrow> ('h, unit) ah_call" where
  "ah_destroy_gateway ex gateway_id h =
     (case send_request ex \<lparr>rq_method = ''DELETE'', rq_path = url_path [''gateways'', gateway_id], rq_body = None\<rparr> h of
        (Inl (HttpStatus status bd), h) \<Rightarrow> if status = 404 then (Inr (), h) else (Inl (HttpStatus status bd), h)
      | (Inl e, h) \<Rightarrow> (Inl e, h)
      | (Inr _, h) \<Rightarrow> (Inr (), h))"

fun string_items :: "string \<Rightarrow> json list \<Rightarrow> (agent_host_error, string list) result" where
  "string_items field [] = Inr []"
| "string_items field (j # js) =
     (case j of
        JStr s \<Rightarrow> try_res (string_items field js) (\<lambda>ss. Inr (s # ss))
      | _ \<Rightarrow> Inl (InvalidField field ''an array of strings''))"

definition string_list_field :: "json_object \<Rightarrow> string \<Rightarrow> (agent_host_error, string list) result" where
  "string_list_field ms field =
     try_res (ok_or (MissingField field) (map_of ms field)) (\<lambda>j.
       case j of JArr js \<Rightarrow> string_items field js | _ \<Rightarrow> Inl (InvalidField field ''an array of strings''))"

definition ah_gateway_logs :: "'h exchange \<Rightarrow> string \<Rightarrow> ('h, string list) ah_call" where
  "ah_gateway_logs ex gateway_id h =
     try_io (request_object ex ''GET'' (url_path [''gateways'', gateway_id, ''logs'']) None h) (\<lambda>ms h.
       (string_list_field ms ''lines'', h))"

section \<open>Errors of the interface\<close>

record api_error =
  ae_status :: nat
  ae_detail :: message
  ae_extra :: "json option"

definition api_error_of :: "nat \<Rightarrow> message \<Rightarrow> api_error" where
  "api_error_of status detail = \<lparr>ae_status = status, ae_detail = detail, ae_extra = None\<rparr>"

abbreviation forbidden :: "message \<Rightarrow> api_error" where "forbidden \<equiv> api_error_of 403"
abbreviation not_found :: "message \<Rightarrow> api_error" where "not_found \<equiv> api_error_of 404"
abbreviation conflict_error :: "message \<Rightarrow> api_error" where "conflict_error \<equiv> api_error_of 409"
abbreviation unprocessable :: "message \<Rightarrow> api_error" where "unprocessable \<equiv> api_error_of 422"
abbreviation bad_gateway :: "message \<Rightarrow> api_error" where "bad_gateway \<equiv> api_error_of 502"
abbreviation internal_error :: "message \<Rightarrow> api_error" where "internal_error \<equiv> api_error_of 500"
abbreviation not_implemented :: "message \<Rightarrow> api_error" where "not_implemented \<equiv> api_error_of 501"

definition with_extra :: "json \<Rightarrow> api_error \<Rightarrow> api_error" where
  "with_extra j e = e\<lparr>ae_extra := Some j\<rparr>"

definition error_kind :: "api_error \<Rightarrow> string" where
  "error_kind e =
     (let s = ae_status e in
      if s = 403 then ''forbidden'' else if s = 404 then ''not_found'' else if s = 409 then ''conflict''
      else if s = 422 then ''validation'' else if s = 502 then ''bad_gateway'' else if s = 503 then ''service_unavailable''
      else if s = 504 then ''gateway_timeout'' else if s = 413 then ''payload_too_large'' else if s = 500 then ''internal''
      else if is_client_error s then ''client_error'' else if is_server_error s then ''server_error'' else ''error'')"

text \<open>\<^verbatim>\<open>into_response\<close>: the members of an extra object are added to the detail.\<close>

definition api_error_response :: "(message \<Rightarrow> string) \<Rightarrow> api_error \<Rightarrow> nat \<times> json" where
  "api_error_response rd e =
     (ae_status e,
      JObj ((''detail'', JStr (rd (ae_detail e))) # (case ae_extra e of Some (JObj ms) \<Rightarrow> ms | _ \<Rightarrow> [])))"

definition of_validation_error :: "validation_error \<Rightarrow> api_error" where
  "of_validation_error e = unprocessable (display_validation_error e)"

fun of_store_error :: "store_error \<Rightarrow> api_error" where
  "of_store_error (LockPoisoned s) = internal_error (display_store_error (LockPoisoned s))"
| "of_store_error (Persistence s m) = internal_error (display_store_error (Persistence s m))"
| "of_store_error (AgentNotFound i) = not_found (display_store_error (AgentNotFound i))"
| "of_store_error (ConnectionNotFound i) = not_found (display_store_error (ConnectionNotFound i))"
| "of_store_error (GatewayNotFound i) = not_found (display_store_error (GatewayNotFound i))"
| "of_store_error (WorkspaceNotFound i) = not_found (display_store_error (WorkspaceNotFound i))"
| "of_store_error (SessionNotFound i) = not_found (display_store_error (SessionNotFound i))"
| "of_store_error e = conflict_error (display_store_error e)"

definition of_secret_store_error :: "secret_store_error \<Rightarrow> api_error" where
  "of_secret_store_error e = internal_error (display_secret_store_error e)"

definition strings_array :: "string list \<Rightarrow> json" where
  "strings_array xs = JArr (map JStr xs)"

text \<open>\<open>rd\<close> renders a message as text.\<close>

definition issue_json :: "(message \<Rightarrow> string) \<Rightarrow> validation_issue \<Rightarrow> json" where
  "issue_json rd i = JObj [(''code'', JStr (vi_code i)), (''detail'', JStr (rd (vi_detail i))), (''resource'', json_opt JStr (vi_resource i)),
     (''field'', json_opt JStr (vi_field i))]"

fun of_config_error :: "(message \<Rightarrow> string) \<Rightarrow> config_error \<Rightarrow> api_error" where
  "of_config_error rd (Validation issues) =
     with_extra (JObj [(''issues'', JArr (map (issue_json rd) issues))])
       (unprocessable [Txt ''configuration is invalid: '', Txt (show_nat (length issues)), Txt '' issue(s)''])"
| "of_config_error rd UnsupportedBundle = not_implemented (display_config_error UnsupportedBundle)"
| "of_config_error rd (SecretDeclarationRemovalBlocked names) =
     with_extra (JObj [(''blocked_secrets'', strings_array names)])
       (conflict_error (display_config_error (SecretDeclarationRemovalBlocked names)))"
| "of_config_error rd (GenerationConflict expected actual) =
     with_extra (JObj [(''error'', JStr ''generation_conflict''), (''expected_generation'', JNum expected),
         (''active_generation'', json_opt JNum actual)])
       (conflict_error (display_config_error (GenerationConflict expected actual)))"
| "of_config_error rd (SerializeError m) = internal_error (display_config_error (SerializeError m))"
| "of_config_error rd CanonicalDrift = internal_error (display_config_error CanonicalDrift)"
| "of_config_error rd e = unprocessable (display_config_error e)"

fun resolve_error_to_api :: "resolve_error \<Rightarrow> api_error" where
  "resolve_error_to_api (MissingSecrets missing) =
     (let names = collect_set (map mi_name missing) in
      with_extra (JObj [(''error'', JStr ''secret_values_unset''),
          (''missing_secrets'', JArr (map (\<lambda>m. JObj [(''name'', JStr (mi_name m)), (''field'', JStr (mi_field m))]) missing))])
        (conflict_error [Txt ''cannot resolve configuration: '', Txt (show_nat (length names)),
          Txt '' secret value(s) are not set: '', Txt (join_with '', '' names)]))"
| "resolve_error_to_api (ResolveStore e) = internal_error (display_secret_store_error e)"

definition of_agent_host_error :: "agent_host_error \<Rightarrow> api_error" where
  "of_agent_host_error e =
     (case e of
        HttpStatus status _ \<Rightarrow>
          if is_client_error status then api_error_of status (display_agent_host_error e)
          else bad_gateway (display_agent_host_error e)
      | _ \<Rightarrow> bad_gateway (display_agent_host_error e))"

end
