(* ===== verification/Client_Gateways.thy ===== *)
theory Client_Gateways
  imports Agent_Client Config_Adapter
begin

text \<open>
  The gateways of the client service (\<^verbatim>\<open>api.rs\<close>): the handlers that create, change, start and stop them, and the
  reconciliation of the gateways of the agent host with the document at start and after an apply.

  A handler works on the configuration and on the other side of the transport \<open>ex\<close>.  Waiting between attempts and
  logging are left out, except that the skills whose restoration failed are recorded in \<open>cl_warned\<close>.
\<close>

section \<open>State\<close>

record 'h client_state =
  cl_config :: config_state
  cl_host :: 'h
  cl_warned :: "string list"

text \<open>The libraries, the rendering of a message, and the time at which the handler runs.\<close>

record client_env =
  ce_libs :: libs
  ce_render :: "message \<Rightarrow> string"
  ce_now :: string

type_synonym ('h, 'a) handler = "'h client_state \<Rightarrow> (api_error, 'a, 'h client_state) outcome"

definition on_host :: "('h, 'a) ah_call \<Rightarrow> 'h client_state \<Rightarrow> (agent_host_error, 'a, 'h client_state) outcome" where
  "on_host call st = (case call (cl_host st) of (r, h) \<Rightarrow> (r, st\<lparr>cl_host := h\<rparr>))"

definition on_config :: "('e, 'a) config_op \<Rightarrow> 'h client_state \<Rightarrow> ('e, 'a, 'h client_state) outcome" where
  "on_config op st = (case op (cl_config st) of (r, c) \<Rightarrow> (r, st\<lparr>cl_config := c\<rparr>))"

definition on_store :: "(store_error, 'a) config_op \<Rightarrow> ('h, 'a) handler" where
  "on_store op st = map_err of_store_error (on_config op st)"

definition require_agent :: "client_env \<Rightarrow> string \<Rightarrow> ('h, agent_record) handler" where
  "require_agent ce i st =
     try_io (on_store (get_agent (ce_now ce) i) st) (\<lambda>r st.
       (ok_or (not_found [Txt ''agent '', Dbg i, Txt '' not found'']) r, st))"

definition require_gateway :: "client_env \<Rightarrow> string \<Rightarrow> ('h, gateway_record) handler" where
  "require_gateway ce i st =
     try_io (on_store (get_gateway (ce_now ce) i) st) (\<lambda>r st.
       (ok_or (not_found [Txt ''gateway '', Dbg i, Txt '' not found'']) r, st))"

definition set_runtime_status :: "gateway_record \<Rightarrow> 'h client_state \<Rightarrow> 'h client_state" where
  "set_runtime_status g st =
     st\<lparr>cl_config := set_gateway_runtime (gr_gateway_id g) (record_runtime g) (cl_config st)\<rparr>"

section \<open>Starting and stopping\<close>

datatype start_failure_mode = Propagate | ReturnRecord

definition create_agent_host_gateway ::
  "'h exchange \<Rightarrow> gateway_record \<Rightarrow> string btree \<Rightarrow> ('h, json_object) ah_call" where
  "create_agent_host_gateway ex g env h =
     (let create = ah_create_gateway ex (gr_gateway_id g) (gateway_type_str (gr_gateway_type g)) (gr_agent_id g) env in
      case create h of
        (Inl (HttpStatus status bd), h) \<Rightarrow>
          if status = 409 then try_io (ah_destroy_gateway ex (gr_gateway_id g) h) (\<lambda>_. create)
          else (Inl (HttpStatus status bd), h)
      | r \<Rightarrow> r)"

definition is_gateway_status :: "string \<Rightarrow> bool" where
  "is_gateway_status s \<longleftrightarrow> s \<in> {''stopped'', ''starting'', ''running'', ''error''}"

definition apply_gateway_start_response :: "gateway_record \<Rightarrow> json_object \<Rightarrow> gateway_record" where
  "apply_gateway_start_response g response =
     g\<lparr>gr_status := (case str_field response ''status'' of
           Some s \<Rightarrow> if is_gateway_status s then s else ''running'' | None \<Rightarrow> ''running''),
       gr_last_error := str_field response ''last_error'',
       gr_container_name := str_field response ''container_name''\<rparr>"

definition start_gateway_by_id ::
  "'h exchange \<Rightarrow> client_env \<Rightarrow> string \<Rightarrow> start_failure_mode \<Rightarrow> ('h, json) handler" where
  "start_gateway_by_id ex ce i mode st =
     try_io (require_gateway ce i st) (\<lambda>g st.
     try_io (map_err resolve_error_to_api (on_config (resolve_gateway_env (lib_crypto (ce_libs ce)) i) st)) (\<lambda>env st.
     let g = g\<lparr>gr_status := ''starting'', gr_last_error := None\<rparr>; st = set_runtime_status g st in
     case on_host (create_agent_host_gateway ex g env) st of
       (Inr response, st) \<Rightarrow>
         (let g = apply_gateway_start_response g response
          in (Inr (gateway_summary g False), set_runtime_status g st))
     | (Inl e, st) \<Rightarrow>
         (let g = g\<lparr>gr_status := ''error'', gr_last_error := Some (ce_render ce (display_agent_host_error e))\<rparr>
          in (if mode = Propagate then Inl (of_agent_host_error e) else Inr (gateway_summary g False),
              set_runtime_status g st))))"

definition stop_gateway_by_id :: "'h exchange \<Rightarrow> client_env \<Rightarrow> string \<Rightarrow> ('h, json) handler" where
  "stop_gateway_by_id ex ce i st =
     try_io (require_gateway ce i st) (\<lambda>g st.
     case on_host (ah_destroy_gateway ex i) st of (r, st) \<Rightarrow>
       (let g = (case r of Inl e \<Rightarrow> g\<lparr>gr_last_error := Some (ce_render ce (display_agent_host_error e))\<rparr> | Inr _ \<Rightarrow> g);
            g = g\<lparr>gr_status := ''stopped'', gr_container_name := None\<rparr>
        in (Inr (gateway_summary g False), set_runtime_status g st)))"

section \<open>Handlers\<close>

record create_gateway_request =
  cgr_gateway_id :: string
  cgr_name :: string
  cgr_gateway_type :: gateway_type
  cgr_agent_id :: string
  cgr_enabled :: bool
  cgr_env_vars :: string
  cgr_secrets :: "string btree"

definition new_gateway_record :: "string \<Rightarrow> create_gateway_request \<Rightarrow> gateway_record" where
  "new_gateway_record now p =
     \<lparr>gr_gateway_id = cgr_gateway_id p, gr_name = cgr_name p, gr_gateway_type = cgr_gateway_type p,
      gr_agent_id = cgr_agent_id p, gr_enabled = cgr_enabled p, gr_env_vars = cgr_env_vars p,
      gr_secrets = cgr_secrets p, gr_status = ''stopped'', gr_last_error = None, gr_container_name = None,
      gr_created_at = now, gr_updated_at = now\<rparr>"

definition create_gateway_handler :: "'h exchange \<Rightarrow> client_env \<Rightarrow> create_gateway_request \<Rightarrow> ('h, json) handler" where
  "create_gateway_handler ex ce p st =
     try_io (res_map_err of_validation_error (validate_gateway_id (cgr_gateway_id p)), st) (\<lambda>_ st.
     try_io (require_agent ce (cgr_agent_id p) st) (\<lambda>_ st.
     let g = new_gateway_record (ce_now ce) p; i = gr_gateway_id g in
     try_io (on_store (insert_gateway (ce_libs ce) (ce_now ce) g) st) (\<lambda>_ st.
     if cgr_enabled p then start_gateway_by_id ex ce i ReturnRecord st
     else try_io (require_gateway ce i st) (\<lambda>g st. (Inr (gateway_summary g False), st)))))"

record update_gateway_request =
  ugr_name :: "string option"
  ugr_agent_id :: "string option"
  ugr_enabled :: "bool option"
  ugr_env_vars :: "string option"
  ugr_secrets :: "string btree option"

text \<open>The fields one after another; a change of the agent, the environment or the secrets is remembered.\<close>

definition update_gateway_agent :: "client_env \<Rightarrow> string option \<Rightarrow> gateway_record \<Rightarrow> ('h, gateway_record \<times> bool) handler" where
  "update_gateway_agent ce agent_id g st =
     (case agent_id of
        Some a \<Rightarrow>
          if a \<noteq> gr_agent_id g then try_io (require_agent ce a st) (\<lambda>_ st. (Inr (g\<lparr>gr_agent_id := a\<rparr>, True), st))
          else (Inr (g, False), st)
      | None \<Rightarrow> (Inr (g, False), st))"

definition update_gateway_texts :: "update_gateway_request \<Rightarrow> gateway_record \<Rightarrow> gateway_record \<times> bool" where
  "update_gateway_texts p g =
     (let g = (case ugr_enabled p of Some b \<Rightarrow> g\<lparr>gr_enabled := b\<rparr> | None \<Rightarrow> g);
          env = (case ugr_env_vars p of Some t \<Rightarrow> t | None \<Rightarrow> gr_env_vars g);
          secrets = (case ugr_secrets p of Some m \<Rightarrow> btree_extend (gr_secrets g) m | None \<Rightarrow> gr_secrets g)
      in (g\<lparr>gr_env_vars := env, gr_secrets := secrets\<rparr>, env \<noteq> gr_env_vars g \<or> secrets \<noteq> gr_secrets g))"

definition update_gateway_handler ::
  "'h exchange \<Rightarrow> client_env \<Rightarrow> string \<Rightarrow> update_gateway_request \<Rightarrow> ('h, json) handler" where
  "update_gateway_handler ex ce i p st =
     try_io (require_gateway ce i st) (\<lambda>old st.
     let g = (case ugr_name p of Some t \<Rightarrow> old\<lparr>gr_name := t\<rparr> | None \<Rightarrow> old) in
     try_io (update_gateway_agent ce (ugr_agent_id p) g st) (\<lambda>(g, agent_changed) st.
     let (g, text_changed) = update_gateway_texts p g; g = g\<lparr>gr_updated_at := ce_now ce\<rparr> in
     try_io (on_store (update_gateway (ce_libs ce) (ce_now ce) g) st) (\<lambda>_ st.
     if gr_enabled g \<and> \<not> gr_enabled old then start_gateway_by_id ex ce i ReturnRecord st
     else if \<not> gr_enabled g \<and> gr_enabled old then stop_gateway_by_id ex ce i st
     else if (agent_changed \<or> text_changed) \<and> gr_status old = ''running'' then
       try_io (stop_gateway_by_id ex ce i st) (\<lambda>_. start_gateway_by_id ex ce i ReturnRecord)
     else try_io (require_gateway ce i st) (\<lambda>g st. (Inr (gateway_summary g False), st)))))"

definition delete_gateway_handler :: "'h exchange \<Rightarrow> client_env \<Rightarrow> string \<Rightarrow> ('h, unit) handler" where
  "delete_gateway_handler ex ce i st =
     try_io (require_gateway ce i st) (\<lambda>g st.
     let st = (if gr_status g \<in> {''stopped'', ''error''} then st else snd (on_host (ah_destroy_gateway ex i) st)) in
     try_io (on_store (delete_gateway (ce_libs ce) (ce_now ce) i) st) (\<lambda>_ st. (Inr (), st)))"

definition list_gateways_handler :: "client_env \<Rightarrow> ('h, json list) handler" where
  "list_gateways_handler ce st =
     try_io (on_store (list_gateways (ce_now ce)) st) (\<lambda>gs st. (Inr (map (\<lambda>g. gateway_summary g False) gs), st))"

definition get_gateway_handler :: "client_env \<Rightarrow> string \<Rightarrow> ('h, json) handler" where
  "get_gateway_handler ce i st = try_io (require_gateway ce i st) (\<lambda>g st. (Inr (gateway_summary g False), st))"

definition start_gateway_handler :: "'h exchange \<Rightarrow> client_env \<Rightarrow> string \<Rightarrow> ('h, json) handler" where
  "start_gateway_handler ex ce i = start_gateway_by_id ex ce i Propagate"

definition stop_gateway_handler :: "'h exchange \<Rightarrow> client_env \<Rightarrow> string \<Rightarrow> ('h, json) handler" where
  "stop_gateway_handler = stop_gateway_by_id"

definition gateway_logs_handler :: "'h exchange \<Rightarrow> client_env \<Rightarrow> string \<Rightarrow> ('h, json) handler" where
  "gateway_logs_handler ex ce i st =
     try_io (require_gateway ce i st) (\<lambda>_ st.
     try_io (map_err of_agent_host_error (on_host (ah_gateway_logs ex i) st)) (\<lambda>ls st.
       (Inr (JObj [(''lines'', strings_array ls)]), st)))"

section \<open>Reconciliation at start\<close>

definition GATEWAY_AUTOSTART_ATTEMPTS :: nat where "GATEWAY_AUTOSTART_ATTEMPTS = 5"

text \<open>Up to \<open>n\<close> attempts of a call; the last result counts.\<close>

fun with_retries :: "nat \<Rightarrow> ('s \<Rightarrow> ('e, 'a, 's) outcome) \<Rightarrow> 's \<Rightarrow> 'a option \<times> 's" where
  "with_retries 0 f s = (None, s)"
| "with_retries (Suc n) f s = (case f s of (Inr x, s) \<Rightarrow> (Some x, s) | (Inl _, s) \<Rightarrow> with_retries n f s)"

definition start_enabled_gateway_with_retries ::
  "'h exchange \<Rightarrow> client_env \<Rightarrow> string \<Rightarrow> 'h client_state \<Rightarrow> 'h client_state" where
  "start_enabled_gateway_with_retries ex ce i st =
     snd (with_retries GATEWAY_AUTOSTART_ATTEMPTS (start_gateway_by_id ex ce i Propagate) st)"

definition start_enabled_gateways :: "'h exchange \<Rightarrow> client_env \<Rightarrow> 'h client_state \<Rightarrow> 'h client_state" where
  "start_enabled_gateways ex ce st =
     (case on_store (list_gateways (ce_now ce)) st of
        (Inl _, st) \<Rightarrow> st
      | (Inr gs, st) \<Rightarrow>
          fold (\<lambda>g. start_enabled_gateway_with_retries ex ce (gr_gateway_id g)) (filter gr_enabled gs) st)"

definition destroy_orphan_gateway_with_retries :: "'h exchange \<Rightarrow> string \<Rightarrow> 'h client_state \<Rightarrow> 'h client_state" where
  "destroy_orphan_gateway_with_retries ex i st =
     snd (with_retries GATEWAY_AUTOSTART_ATTEMPTS (on_host (ah_destroy_gateway ex i)) st)"

definition gateway_ids :: "json_object list \<Rightarrow> string list" where
  "gateway_ids ms = collect_set (List.map_filter (\<lambda>m. str_field m ''gateway_id'') ms)"

definition reconcile_gateways_locked :: "'h exchange \<Rightarrow> client_env \<Rightarrow> 'h client_state \<Rightarrow> 'h client_state" where
  "reconcile_gateways_locked ex ce st =
     (case on_store (list_gateways (ce_now ce)) st of
        (Inl _, st) \<Rightarrow> st
      | (Inr desired, st) \<Rightarrow>
          (case on_host (ah_list_gateways ex) st of
             (Inl _, st) \<Rightarrow>
               fold (\<lambda>g. start_enabled_gateway_with_retries ex ce (gr_gateway_id g)) (filter gr_enabled desired) st
           | (Inr observed, st) \<Rightarrow>
               (let st = fold (\<lambda>g st.
                      if gr_enabled g then start_enabled_gateway_with_retries ex ce (gr_gateway_id g) st
                      else if gr_gateway_id g \<in> set (gateway_ids observed) then
                        snd (stop_gateway_by_id ex ce (gr_gateway_id g) st)
                      else st) desired st
                in fold (destroy_orphan_gateway_with_retries ex)
                     (filter (\<lambda>i. i \<notin> gr_gateway_id ` set desired) (gateway_ids observed)) st)))"

section \<open>Reconciliation after an apply\<close>

record reconciliation =
  rc_skills :: "string list"
  rc_gateways :: "string list"
  rc_failures :: "(string \<times> string) list"

definition empty_reconciliation :: reconciliation where
  "empty_reconciliation = \<lparr>rc_skills = [], rc_gateways = [], rc_failures = []\<rparr>"

definition reconciled_gateway :: "string \<Rightarrow> reconciliation \<Rightarrow> reconciliation" where
  "reconciled_gateway i rc = rc\<lparr>rc_gateways := rc_gateways rc @ [i]\<rparr>"

definition reconcile_failed :: "string \<Rightarrow> string \<Rightarrow> reconciliation \<Rightarrow> reconciliation" where
  "reconcile_failed resource detail rc = rc\<lparr>rc_failures := rc_failures rc @ [(resource, detail)]\<rparr>"

definition reconciliation_to_json :: "reconciliation \<Rightarrow> json" where
  "reconciliation_to_json rc = JObj
     [(''ok'', JBool (rc_failures rc = [])), (''reconciled_skills'', strings_array (rc_skills rc)),
      (''reconciled_gateways'', strings_array (rc_gateways rc)),
      (''failures'', JArr (map (\<lambda>(resource, detail). JObj [(''resource'', JStr resource), (''detail'', JStr detail)])
         (rc_failures rc)))]"

definition record_gateway_result ::
  "client_env \<Rightarrow> ('e \<Rightarrow> message) \<Rightarrow> string \<Rightarrow> ('e, 'a, 'h client_state) outcome \<Rightarrow> reconciliation
     \<Rightarrow> reconciliation \<times> 'h client_state" where
  "record_gateway_result ce text_of i r rc =
     (case r of
        (Inr _, st) \<Rightarrow> (reconciled_gateway i rc, st)
      | (Inl e, st) \<Rightarrow> (reconcile_failed (''gateway/'' @ i) (ce_render ce (text_of e)) rc, st))"

fun destroy_stale_gateways ::
  "'h exchange \<Rightarrow> client_env \<Rightarrow> string list \<Rightarrow> reconciliation \<times> 'h client_state \<Rightarrow> reconciliation \<times> 'h client_state" where
  "destroy_stale_gateways ex ce [] s = s"
| "destroy_stale_gateways ex ce (i # is) (rc, st) =
     destroy_stale_gateways ex ce is
       (record_gateway_result ce display_agent_host_error i (on_host (ah_destroy_gateway ex i) st) rc)"

definition reconcile_planned_gateway ::
  "'h exchange \<Rightarrow> client_env \<Rightarrow> config_document \<Rightarrow> string list \<Rightarrow> plan_entry
     \<Rightarrow> reconciliation \<times> 'h client_state \<Rightarrow> reconciliation \<times> 'h client_state" where
  "reconcile_planned_gateway ex ce doc upstream entry s =
     (case s of (rc, st) \<Rightarrow>
        if pe_kind entry \<noteq> ''gateway'' \<or> pe_action entry \<notin> {Create, Update} then (rc, st)
        else case find_gateway doc (pe_id entry) of
          None \<Rightarrow> (rc, st)
        | Some g \<Rightarrow>
            if gw_enabled g then
              record_gateway_result ce ae_detail (gw_id g) (start_gateway_by_id ex ce (gw_id g) Propagate st) rc
            else if gw_id g \<in> set upstream then
              record_gateway_result ce ae_detail (gw_id g) (stop_gateway_by_id ex ce (gw_id g) st) rc
            else (rc, st))"

definition reconcile_gateways ::
  "'h exchange \<Rightarrow> client_env \<Rightarrow> apply_outcome \<Rightarrow> reconciliation \<times> 'h client_state \<Rightarrow> reconciliation \<times> 'h client_state" where
  "reconcile_gateways ex ce outcome s =
     (let doc = ao_document outcome in
      case s of (rc, st) \<Rightarrow>
      case (case on_host (ah_list_gateways ex) st of
          (Inr observed, st) \<Rightarrow> (gateway_ids observed, (rc, st))
        | (Inl e, st) \<Rightarrow> ([], (reconcile_failed ''gateways'' (ce_render ce (display_agent_host_error e)) rc, st))) of
        (upstream, s) \<Rightarrow>
          (let s = destroy_stale_gateways ex ce
                     (filter (\<lambda>i. i \<notin> gw_id ` set (cs_gateways (spec doc))) upstream) s
           in fold (reconcile_planned_gateway ex ce doc upstream) (ao_plan outcome) s))"

end
