(* ===== verification/Skill_Sync.thy ===== *)
theory Skill_Sync
  imports Client_Gateways
begin

text \<open>
  Skills between the configuration document and the agent host (\<^verbatim>\<open>api.rs\<close>): the handlers that change a skill on both
  sides, \<^verbatim>\<open>apply_config\<close>, which stages the skills of a new document before it is committed and takes them back when it is
  not, and the reconciliation at start.

  A handler that changes something holds the lock on applies, so it is a function on the state.
\<close>

section \<open>Reading the host\<close>

definition is_builtin_entry :: "json_object \<Rightarrow> bool" where
  "is_builtin_entry ms \<longleftrightarrow> str_field ms ''source'' = Some ''builtin''"

definition builtin_ids_of :: "json_object list \<Rightarrow> string list" where
  "builtin_ids_of mss = collect_set (List.map_filter (\<lambda>ms. str_field ms ''skill_id'') (filter is_builtin_entry mss))"

definition user_ids_of :: "json_object list \<Rightarrow> string list" where
  "user_ids_of mss = List.map_filter (\<lambda>ms. str_field ms ''skill_id'') (filter (\<lambda>ms. \<not> is_builtin_entry ms) mss)"

definition builtin_skill_ids :: "'h exchange \<Rightarrow> 'h client_state \<Rightarrow> string list \<times> 'h client_state" where
  "builtin_skill_ids ex st =
     (case on_host (ah_list_skills ex) st of
        (Inr entries, st) \<Rightarrow> (builtin_ids_of entries, st)
      | (Inl _, st) \<Rightarrow> ([], st))"

text \<open>The members whose value is a text.\<close>

definition text_members :: "json_object \<Rightarrow> string btree" where
  "text_members ms = btree_of (List.map_filter (\<lambda>(k, j). map_option (Pair k) (value_str j)) ms)"

definition skill_files_from_object :: "json_object \<Rightarrow> string btree" where
  "skill_files_from_object ms =
     (case Option.bind (map_of ms ''files'') value_object of Some fs \<Rightarrow> text_members fs | None \<Rightarrow> [])"

fun fetch_user_skills :: "'h exchange \<Rightarrow> string list \<Rightarrow> string btree btree \<Rightarrow> ('h, string btree btree) handler" where
  "fetch_user_skills ex [] user st = (Inr user, st)"
| "fetch_user_skills ex (i # is) user st =
     (case on_host (ah_get_skill ex i) st of
        (Inl e, st) \<Rightarrow>
          (Inl (bad_gateway ([Txt ''could not fetch skill '', Dbg i,
             Txt '' details from agent_host to reconcile the apply: ''] @ display_agent_host_error e)), st)
      | (Inr detail, st) \<Rightarrow>
          (case Option.bind (map_of detail ''files'') value_object of
             None \<Rightarrow>
               (Inl (bad_gateway [Txt ''agent_host skill '', Dbg i,
                  Txt '' details did not include a files map; refusing to treat it as empty'']), st)
           | Some fs \<Rightarrow> fetch_user_skills ex is (btree_insert i (text_members fs) user) st))"

definition agent_host_user_skills :: "'h exchange \<Rightarrow> ('h, string btree btree) handler" where
  "agent_host_user_skills ex st =
     (case on_host (ah_list_skills ex) st of
        (Inl e, st) \<Rightarrow>
          (Inl (bad_gateway ([Txt ''could not list agent_host skills to reconcile the apply: ''] @ display_agent_host_error e)), st)
      | (Inr entries, st) \<Rightarrow> fetch_user_skills ex (user_ids_of entries) [] st)"

definition agent_host_user_skills_with_retries ::
  "'h exchange \<Rightarrow> 'h client_state \<Rightarrow> string btree btree option \<times> 'h client_state" where
  "agent_host_user_skills_with_retries ex = with_retries GATEWAY_AUTOSTART_ATTEMPTS (agent_host_user_skills ex)"

section \<open>Staging\<close>

datatype staged_skill_op = StCreated string | StUpdated string "string btree" | StDeleted string "string btree"

fun staged_id :: "staged_skill_op \<Rightarrow> string" where
  "staged_id (StCreated i) = i" | "staged_id (StUpdated i _) = i" | "staged_id (StDeleted i _) = i"

definition no_value :: "('h, 'a) ah_call \<Rightarrow> ('h, unit) ah_call" where
  "no_value call h = try_io (call h) (\<lambda>_ h. (Inr (), h))"

fun restore_call :: "'h exchange \<Rightarrow> staged_skill_op \<Rightarrow> ('h, unit) ah_call" where
  "restore_call ex (StCreated i) = ah_delete_skill ex i"
| "restore_call ex (StUpdated i files) = no_value (ah_update_skill ex i files)"
| "restore_call ex (StDeleted i files) = no_value (ah_create_skill ex i files)"

definition compensate_one :: "'h exchange \<Rightarrow> staged_skill_op \<Rightarrow> 'h client_state \<Rightarrow> 'h client_state" where
  "compensate_one ex op st =
     (case on_host (restore_call ex op) st of
        (Inr _, st) \<Rightarrow> st
      | (Inl _, st) \<Rightarrow> st\<lparr>cl_warned := cl_warned st @ [staged_id op]\<rparr>)"

definition compensate_skills :: "'h exchange \<Rightarrow> staged_skill_op list \<Rightarrow> 'h client_state \<Rightarrow> 'h client_state" where
  "compensate_skills ex performed = fold (compensate_one ex) (rev performed)"

definition stage_one :: "'h exchange \<Rightarrow> string btree btree \<Rightarrow> skill \<Rightarrow> 'h client_state
    \<Rightarrow> (agent_host_error, staged_skill_op option, 'h client_state) outcome" where
  "stage_one ex host_user sk st =
     (case btree_get host_user (sk_id sk) of
        None \<Rightarrow> try_io (on_host (ah_create_skill ex (sk_id sk) (sk_files sk)) st) (\<lambda>_ st. (Inr (Some (StCreated (sk_id sk))), st))
      | Some existing \<Rightarrow>
          if existing \<noteq> sk_files sk then
            try_io (on_host (ah_update_skill ex (sk_id sk) (sk_files sk)) st) (\<lambda>_ st.
              (Inr (Some (StUpdated (sk_id sk) existing)), st))
          else (Inr None, st))"

fun stage_declared :: "'h exchange \<Rightarrow> string btree btree \<Rightarrow> skill list \<Rightarrow> staged_skill_op list
    \<Rightarrow> ('h, staged_skill_op list) handler" where
  "stage_declared ex host_user [] performed st = (Inr performed, st)"
| "stage_declared ex host_user (sk # sks) performed st =
     (case stage_one ex host_user sk st of
        (Inr (Some op), st) \<Rightarrow> stage_declared ex host_user sks (performed @ [op]) st
      | (Inr None, st) \<Rightarrow> stage_declared ex host_user sks performed st
      | (Inl e, st) \<Rightarrow>
          (Inl (bad_gateway ([Txt ''failed to materialize skill '', Dbg (sk_id sk),
             Txt '' in agent_host; apply aborted and staged skills were rolled back: ''] @ display_agent_host_error e)),
           compensate_skills ex performed st))"

fun stage_removed :: "'h exchange \<Rightarrow> string list \<Rightarrow> (string \<times> string btree) list \<Rightarrow> staged_skill_op list
    \<Rightarrow> ('h, staged_skill_op list) handler" where
  "stage_removed ex desired [] performed st = (Inr performed, st)"
| "stage_removed ex desired ((i, files) # rest) performed st =
     (if i \<in> set desired then stage_removed ex desired rest performed st
      else case on_host (ah_delete_skill ex i) st of
        (Inl e, st) \<Rightarrow>
          (Inl (bad_gateway ([Txt ''failed to remove stale skill '', Dbg i,
             Txt '' from agent_host; apply aborted and staged skills were rolled back: ''] @ display_agent_host_error e)),
           compensate_skills ex performed st)
      | (Inr _, st) \<Rightarrow> stage_removed ex desired rest (performed @ [StDeleted i files]) st)"

definition stage_against :: "'h exchange \<Rightarrow> string btree btree \<Rightarrow> skill list \<Rightarrow> ('h, staged_skill_op list) handler" where
  "stage_against ex host_user skills st =
     try_io (stage_declared ex host_user skills [] st) (\<lambda>performed.
       stage_removed ex (map sk_id skills) host_user performed)"

text \<open>The names that \<^verbatim>\<open>stage_skills\<close> records are those of the operations it performed, in their order.\<close>

definition stage_skills ::
  "'h exchange \<Rightarrow> config_document \<Rightarrow> reconciliation \<Rightarrow> ('h, reconciliation \<times> staged_skill_op list) handler" where
  "stage_skills ex doc rc st =
     try_io (agent_host_user_skills ex st) (\<lambda>host_user st.
     try_io (stage_against ex host_user (skills_of doc) st) (\<lambda>performed st.
       (Inr (rc\<lparr>rc_skills := rc_skills rc @ map staged_id performed\<rparr>, performed), st)))"

section \<open>Applying a document\<close>

text \<open>The header as text, when it is text.\<close>

definition source_kind_from_headers :: "string option \<Rightarrow> source_kind" where
  "source_kind_from_headers content_type =
     (let t = (case content_type of Some t \<Rightarrow> t | None \<Rightarrow> [])
      in if contains_sub ''zip'' t \<or> contains_sub ''octet-stream'' t then SourceBundle else SourceYaml)"

definition trim_quotes :: "string \<Rightarrow> string" where
  "trim_quotes t = (let u = dropWhile (\<lambda>c. c = CHR 0x22) t in List.rev (dropWhile (\<lambda>c. c = CHR 0x22) (List.rev u)))"

text \<open>\<^verbatim>\<open>str::parse::<i64>\<close>.\<close>

definition parse_i64 :: "string \<Rightarrow> int option" where
  "parse_i64 t =
     (let neg = (case t of c # _ \<Rightarrow> c = CHR ''-'' | [] \<Rightarrow> False);
          d = (case t of c # cs \<Rightarrow> if c = CHR ''-'' \<or> c = CHR ''+'' then cs else t | [] \<Rightarrow> []);
          v = foldl (\<lambda>n c. 10 * n + (int (byte_val c) - 48)) 0 d;
          n = (if neg then - v else v)
      in if d \<noteq> [] \<and> list_all is_ascii_digit d \<and> - (2 ^ 63) \<le> n \<and> n < 2 ^ 63 then Some n else None)"

text \<open>A header value is text, or bytes that are not.\<close>

definition parse_if_match_generation :: "(unit, string) result option \<Rightarrow> (api_error, int option) result" where
  "parse_if_match_generation header =
     (case header of
        None \<Rightarrow> Inr None
      | Some (Inl _) \<Rightarrow> Inl (unprocessable [Txt ''If-Match header is not valid text''])
      | Some (Inr t) \<Rightarrow>
          (let raw = trim_quotes (trim t)
           in if raw = [] \<or> raw = ''*'' then Inr None
              else case parse_i64 raw of
                Some n \<Rightarrow> Inr (Some n)
              | None \<Rightarrow> Inl (unprocessable [Txt ''If-Match must be the expected integer generation, got '', Dbg raw])))"

record apply_response =
  ap_outcome :: apply_outcome
  ap_reconciliation :: reconciliation

definition apply_response_json :: "apply_response \<Rightarrow> json" where
  "apply_response_json r =
     (let o1 = ap_outcome r in JObj
       [(''generation'', JNum (sn_generation (ao_snapshot o1))),
        (''source_sha256'', JStr (sn_source_sha256 (ao_snapshot o1))),
        (''semantic_sha256'', JStr (sn_semantic_sha256 (ao_snapshot o1))),
        (''plan'', plan_to_json (ao_plan o1)), (''unset_secrets'', strings_array (ao_unset_secrets o1)),
        (''reconciliation'', reconciliation_to_json (ap_reconciliation r))])"

definition apply_config_handler ::
  "'h exchange \<Rightarrow> client_env \<Rightarrow> string option \<Rightarrow> (unit, string) result option \<Rightarrow> bytes \<Rightarrow> ('h, apply_response) handler" where
  "apply_config_handler ex ce content_type if_match source st =
     (let lb = ce_libs ce; config_err = of_config_error (ce_render ce) in
      try_io (parse_if_match_generation if_match, st) (\<lambda>expected st.
      case builtin_skill_ids ex st of (builtins, st) \<Rightarrow>
      try_io (map_err config_err (on_config
          (prepare lb source (source_kind_from_headers content_type) builtins expected) st)) (\<lambda>prepared st.
      try_io (stage_skills ex (pa_document prepared) empty_reconciliation st) (\<lambda>(rc, staged) st.
      case on_config (commit lb (ce_now ce) prepared) st of
        (Inl e, st) \<Rightarrow> (Inl (config_err e), compensate_skills ex staged st)
      | (Inr result, st) \<Rightarrow>
          (case reconcile_gateways ex ce result (rc, st) of (rc, st) \<Rightarrow>
            (Inr \<lparr>ap_outcome = result, ap_reconciliation = rc\<rparr>, st))))))"

section \<open>Reconciliation at start\<close>

text \<open>The loops are those of \<^verbatim>\<open>stage_skills\<close>; an error is only logged.\<close>

definition reconcile_skills_locked :: "'h exchange \<Rightarrow> 'h client_state \<Rightarrow> 'h client_state" where
  "reconcile_skills_locked ex st =
     (let doc = cf_active (cl_config st) in
      case agent_host_user_skills_with_retries ex st of
        (None, st) \<Rightarrow> st
      | (Some host_user, st) \<Rightarrow> snd (stage_against ex host_user (skills_of doc) st))"

definition reconcile_on_startup :: "'h exchange \<Rightarrow> client_env \<Rightarrow> 'h client_state \<Rightarrow> 'h client_state" where
  "reconcile_on_startup ex ce st = reconcile_gateways_locked ex ce (reconcile_skills_locked ex st)"

section \<open>Handlers\<close>

text \<open>References of agents.\<close>

fun check_skill_refs :: "string list \<Rightarrow> string list \<Rightarrow> config_state \<Rightarrow> (api_error, unit) result" where
  "check_skill_refs builtins [] c = Inr ()"
| "check_skill_refs builtins (i # is) c =
     (if \<not> skill_exists i c \<and> i \<notin> set builtins then
        Inl (unprocessable [Txt ''agent references unknown skill '', Dbg i,
          Txt ''; it is neither a declared user skill nor an installation-owned builtin''])
      else check_skill_refs builtins is c)"

definition validate_agent_skill_refs :: "'h exchange \<Rightarrow> string list \<Rightarrow> ('h, unit) handler" where
  "validate_agent_skill_refs ex skills st =
     (if skills = [] then (Inr (), st)
      else case on_host (ah_list_skills ex) st of
        (Inl _, st) \<Rightarrow> (Inr (), st)
      | (Inr entries, st) \<Rightarrow> (check_skill_refs (builtin_ids_of entries) skills (cl_config st), st))"

definition agent_referencing_skill :: "string \<Rightarrow> config_state \<Rightarrow> string option" where
  "agent_referencing_skill i c = map_option ag_id (find (\<lambda>a. i \<in> set (ag_skills a)) (agents_of (cf_active c)))"

text \<open>A call whose result is dropped.\<close>

definition ignore_host :: "('h, 'a) ah_call \<Rightarrow> 'h client_state \<Rightarrow> 'h client_state" where
  "ignore_host call st = snd (on_host call st)"

definition host_or_fail :: "('h, 'a) ah_call \<Rightarrow> ('h, 'a) handler" where
  "host_or_fail call st = map_err of_agent_host_error (on_host call st)"

definition valid_skill_id :: "string \<Rightarrow> ('h, unit) handler" where
  "valid_skill_id i st = (res_map_err of_validation_error (validate_skill_id i), st)"

definition require_creator :: "client_env \<Rightarrow> string option \<Rightarrow> ('h, unit) handler" where
  "require_creator ce creator st =
     (case creator of
        None \<Rightarrow> (Inr (), st)
      | Some a \<Rightarrow>
          try_io (res_map_err of_validation_error (validate_agent_id a), st) (\<lambda>_ st.
          try_io (require_agent ce a st) (\<lambda>_ st. (Inr (), st))))"

definition create_skill_handler ::
  "'h exchange \<Rightarrow> client_env \<Rightarrow> string \<Rightarrow> string btree \<Rightarrow> string option \<Rightarrow> ('h, json_object) handler" where
  "create_skill_handler ex ce i files creator st =
     (let lb = ce_libs ce; now = ce_now ce in
      try_io (valid_skill_id i st) (\<lambda>_ st.
      case builtin_skill_ids ex st of (builtins, st) \<Rightarrow>
      if i \<in> set builtins then
        (Inl (conflict_error [Txt ''skill id '', Dbg i, Txt '' collides with an installation-owned builtin skill'']), st)
      else
        try_io (require_creator ce creator st) (\<lambda>_ st.
        try_io (host_or_fail (ah_create_skill ex i files) st) (\<lambda>sk st.
        case on_config (upsert_skill lb now i files) st of
          (Inl e, st) \<Rightarrow> (Inl (of_store_error e), ignore_host (ah_delete_skill ex i) st)
        | (Inr _, st) \<Rightarrow>
            (case creator of
               None \<Rightarrow> (Inr sk, st)
             | Some a \<Rightarrow> try_io (on_store (add_agent_skill lb now a i) st) (\<lambda>_ st. (Inr sk, st)))))))"

definition skill_entry_json :: "skill \<Rightarrow> json" where
  "skill_entry_json k = JObj [(''skill_id'', JStr (sk_id k)), (''source'', JStr ''user''),
     (''file_count'', JNum (int (length (sk_files k))))]"

definition list_skills_handler :: "'h exchange \<Rightarrow> ('h, json list) handler" where
  "list_skills_handler ex st =
     (let user = map skill_entry_json (skills_of (cf_active (cl_config st))) in
      case on_host (ah_list_skills ex) st of
        (Inr entries, st) \<Rightarrow> (Inr (user @ map JObj (filter is_builtin_entry entries)), st)
      | (Inl _, st) \<Rightarrow> (Inr user, st))"

definition get_skill_handler :: "'h exchange \<Rightarrow> string \<Rightarrow> ('h, json_object) handler" where
  "get_skill_handler ex i st =
     (case get_skill i (cl_config st) of
        Some k \<Rightarrow> (Inr [(''skill_id'', JStr (sk_id k)), (''source'', JStr ''user''), (''files'', strings_json (sk_files k))], st)
      | None \<Rightarrow> host_or_fail (ah_get_skill ex i) st)"

definition list_skill_versions_handler :: "'h exchange \<Rightarrow> string \<Rightarrow> ('h, json_object list) handler" where
  "list_skill_versions_handler ex i = host_or_fail (ah_list_skill_versions ex i)"

text \<open>The files of the document are put back on the host when the document could not be changed.\<close>

definition restore_previous :: "'h exchange \<Rightarrow> string \<Rightarrow> string btree option \<Rightarrow> 'h client_state \<Rightarrow> 'h client_state" where
  "restore_previous ex i previous st =
     (case previous of None \<Rightarrow> st | Some files \<Rightarrow> ignore_host (ah_update_skill ex i files) st)"

definition update_skill_handler ::
  "'h exchange \<Rightarrow> client_env \<Rightarrow> string \<Rightarrow> string btree \<Rightarrow> ('h, json_object) handler" where
  "update_skill_handler ex ce i files st =
     try_io (valid_skill_id i st) (\<lambda>_ st.
     let previous = map_option sk_files (get_skill i (cl_config st)) in
     try_io (host_or_fail (ah_update_skill ex i files) st) (\<lambda>sk st.
     case on_config (upsert_skill (ce_libs ce) (ce_now ce) i files) st of
       (Inl e, st) \<Rightarrow> (Inl (of_store_error e), restore_previous ex i previous st)
     | (Inr _, st) \<Rightarrow> (Inr sk, st)))"

definition rollback_skill_handler :: "'h exchange \<Rightarrow> client_env \<Rightarrow> string \<Rightarrow> 64 word \<Rightarrow> ('h, json_object) handler" where
  "rollback_skill_handler ex ce i v st =
     try_io (valid_skill_id i st) (\<lambda>_ st.
     let previous = map_option sk_files (get_skill i (cl_config st)) in
     try_io (host_or_fail (ah_rollback_skill ex i v) st) (\<lambda>sk st.
     if previous = None then (Inr sk, st)
     else case on_config (upsert_skill (ce_libs ce) (ce_now ce) i (skill_files_from_object sk)) st of
       (Inl e, st) \<Rightarrow> (Inl (of_store_error e), restore_previous ex i previous st)
     | (Inr _, st) \<Rightarrow> (Inr sk, st)))"

definition delete_skill_handler :: "'h exchange \<Rightarrow> client_env \<Rightarrow> string \<Rightarrow> ('h, unit) handler" where
  "delete_skill_handler ex ce i st =
     try_io (valid_skill_id i st) (\<lambda>_ st.
     case agent_referencing_skill i (cl_config st) of
       Some a \<Rightarrow>
         (Inl (conflict_error [Txt ''skill '', Dbg i, Txt '' is referenced by agent '', Dbg a, Txt '' and cannot be deleted'']), st)
     | None \<Rightarrow>
         (let previous = map_option sk_files (get_skill i (cl_config st)) in
          try_io (host_or_fail (ah_delete_skill ex i) st) (\<lambda>_ st.
          case on_config (delete_skill (ce_libs ce) (ce_now ce) i) st of
            (Inl e, st) \<Rightarrow>
              (Inl (of_store_error e), case previous of None \<Rightarrow> st | Some files \<Rightarrow> ignore_host (ah_create_skill ex i files) st)
          | (Inr _, st) \<Rightarrow> (Inr (), st))))"

text \<open>The requests that change a skill, as one operation, and a sequence of them with their answers.\<close>

datatype skill_change =
    CreateSkill string "string btree" "string option"
  | UpdateSkill string "string btree"
  | RollbackSkill string "64 word"
  | DeleteSkill string

fun changed_id :: "skill_change \<Rightarrow> string" where
  "changed_id (CreateSkill i _ _) = i"
| "changed_id (UpdateSkill i _) = i"
| "changed_id (RollbackSkill i _) = i"
| "changed_id (DeleteSkill i) = i"

definition without_value :: "('h, 'a) handler \<Rightarrow> ('h, unit) handler" where
  "without_value f st = try_io (f st) (\<lambda>_ st. (Inr (), st))"

fun change_skill :: "'h exchange \<Rightarrow> client_env \<Rightarrow> skill_change \<Rightarrow> ('h, unit) handler" where
  "change_skill ex ce (CreateSkill i files creator) = without_value (create_skill_handler ex ce i files creator)"
| "change_skill ex ce (UpdateSkill i files) = without_value (update_skill_handler ex ce i files)"
| "change_skill ex ce (RollbackSkill i v) = without_value (rollback_skill_handler ex ce i v)"
| "change_skill ex ce (DeleteSkill i) = delete_skill_handler ex ce i"

fun change_skills :: "'h exchange \<Rightarrow> client_env \<Rightarrow> skill_change list \<Rightarrow> 'h client_state
    \<Rightarrow> (skill_change \<times> (api_error, unit) result) list \<times> 'h client_state" where
  "change_skills ex ce [] st = ([], st)"
| "change_skills ex ce (ch # chs) st =
     (case change_skill ex ce ch st of (r, st) \<Rightarrow>
      case change_skills ex ce chs st of (rs, st) \<Rightarrow> ((ch, r) # rs, st))"

end
