(* ===== verification/Skill_Config.thy ===== *)
theory Skill_Config
  imports Skill_Sync Config_Protocol Config_Resolver
begin

text \<open>
  What the operations on the configuration that \<open>Skill_Sync\<close> and \<open>Client_Gateways\<close> use do to the skills of the
  document: an operation that fails leaves the document as it was, one that succeeds changes the files of one skill, or
  none.
\<close>

definition skill_files_of :: "config_document \<Rightarrow> string \<Rightarrow> string btree option" where
  "skill_files_of doc = map_of (map (\<lambda>k. (sk_id k, sk_files k)) (skills_of doc))"

lemma skill_files_find: "skill_files_of doc i = map_option sk_files (find (\<lambda>k. sk_id k = i) (skills_of doc))"
proof -
  have "map_of (map (\<lambda>k. (sk_id k, sk_files k)) ks) i = map_option sk_files (find (\<lambda>k. sk_id k = i) ks)" for ks
    by (induction ks) auto
  then show ?thesis by (simp add: skill_files_of_def)
qed

lemma skill_files_get: "skill_files_of (cf_active c) i = map_option sk_files (get_skill i c)"
  by (simp add: skill_files_find get_skill_def)

section \<open>The skills of a document\<close>

lemma skill_files_typed_equal:
  assumes "typed_equal d d'" "unique_ids d" "unique_ids d'"
  shows "skill_files_of d = skill_files_of d'"
proof -
  have u: "skill_files_of doc = skill_files_of (canonical_document doc)" if "unique_ids doc" for doc
    unfolding skill_files_of_def using that
    by (subst map_of_inject_set) (auto simp: unique_ids_def o_def)
  show ?thesis using u [OF assms(2)] u [OF assms(3)] assms(1) by (simp add: typed_equal_def)
qed

lemma skill_files_upsert:
  assumes "upsert_skill_mutation i files d = Inr (x, d')"
  shows "skill_files_of d' = (skill_files_of d)(i \<mapsto> files)"
proof -
  let ?pairs = "map (\<lambda>k. (sk_id k, sk_files k))"
  have upd: "map_of (?pairs (update_first (\<lambda>k. sk_id k = i) (\<lambda>k. k\<lparr>sk_files := files\<rparr>) ks)) = (map_of (?pairs ks))(i \<mapsto> files)"
    if "list_ex (\<lambda>k. sk_id k = i) ks" for ks
    using that by (induction ks) (auto simp: fun_eq_iff)
  have new: "map_of (?pairs (ks @ [\<lparr>sk_id = i, sk_files = files\<rparr>])) = (map_of (?pairs ks))(i \<mapsto> files)"
    if "\<not> list_ex (\<lambda>k. sk_id k = i) ks" for ks
    using that by (induction ks) (auto simp: fun_eq_iff)
  show ?thesis using assms upd new by (auto simp: upsert_skill_mutation_def skill_files_of_def split: if_splits)
qed

lemma skill_files_delete:
  assumes "delete_skill_mutation i d = Inr (x, d')"
  shows "skill_files_of d' = (skill_files_of d)(i := None)"
proof -
  have "map_of (map (\<lambda>k. (sk_id k, sk_files k)) (filter (\<lambda>k. sk_id k \<noteq> i) ks)) =
      (map_of (map (\<lambda>k. (sk_id k, sk_files k)) ks))(i := None)" for ks
    by (induction ks) (auto simp: fun_eq_iff)
  then show ?thesis using assms by (auto simp: delete_skill_mutation_def skill_files_of_def)
qed

lemma skill_files_add_agent_skill: "add_agent_skill_mutation a i d = Inr (x, d') \<Longrightarrow> skill_files_of d' = skill_files_of d"
  by (auto simp: add_agent_skill_mutation_def skill_files_of_def split: option.splits if_splits)

section \<open>Operations on the configuration\<close>

lemma mutate_active_cases:
  assumes "mutate lb now m c = (r, c')"
  shows "case r of
      Inl e \<Rightarrow> cf_active c' = cf_active c
    | Inr x \<Rightarrow> \<exists>d. m (cf_active c) = Inr (x, d) \<and> (cf_active c' = d \<or> typed_equal d (cf_active c) \<and> cf_active c' = cf_active c)"
  using assms
  by (cases "m (cf_active c)")
    (auto simp: mutate_def Let_def try_io_def res_map_err_def on_snapshots_def split: prod.splits sum.splits if_splits)

lemma mutate_skills:
  assumes "mutate lb now m c = (r, c')" "unique_ids (cf_active c)" "mutation_ok m"
    and "\<And>x d. m (cf_active c) = Inr (x, d) \<Longrightarrow> skill_files_of d = f (skill_files_of (cf_active c))"
  shows "unique_ids (cf_active c') \<and>
    (case r of Inl e \<Rightarrow> cf_active c' = cf_active c | Inr x \<Rightarrow> skill_files_of (cf_active c') = f (skill_files_of (cf_active c)))"
proof (cases r)
  case (Inl e)
  then show ?thesis using mutate_active_cases [OF assms(1)] assms(2) by simp
next
  case (Inr x)
  obtain d where d: "m (cf_active c) = Inr (x, d)"
    "cf_active c' = d \<or> typed_equal d (cf_active c) \<and> cf_active c' = cf_active c"
    using mutate_active_cases [OF assms(1)] by (auto simp: Inr)
  have u: "unique_ids d" using assms(2,3) d(1) by (auto simp: mutation_ok_def)
  show ?thesis using d(2) u assms(2) assms(4) [OF d(1)] skill_files_typed_equal [OF _ u assms(2)] by (auto simp: Inr)
qed

lemma upsert_skill_skills:
  assumes "upsert_skill lb now i files c = (r, c')" "unique_ids (cf_active c)"
  shows "unique_ids (cf_active c')" "r = Inl e \<Longrightarrow> cf_active c' = cf_active c"
    "r = Inr x \<Longrightarrow> skill_files_of (cf_active c') = (skill_files_of (cf_active c))(i \<mapsto> files)"
  using mutate_skills [OF assms(1) [unfolded upsert_skill_def] assms(2) mutations_ok(16),
      of "\<lambda>u. u(i \<mapsto> files)"] skill_files_upsert
  by (auto split: sum.splits)

lemma add_agent_skill_skills:
  assumes "add_agent_skill lb now a i c = (r, c')" "unique_ids (cf_active c)"
  shows "unique_ids (cf_active c') \<and> skill_files_of (cf_active c') = skill_files_of (cf_active c)"
proof -
  obtain q c1 where q: "mutate lb now (add_agent_skill_mutation a i) c = (q, c1)" by fastforce
  have "cf_active c' = cf_active c1"
    using assms(1) q by (cases q) (auto simp: add_agent_skill_def mark_updated_def on_runtime_def split: if_splits)
  then show ?thesis
    using mutate_skills [OF q assms(2) mutations_ok(4), of "\<lambda>u. u"] skill_files_add_agent_skill by (auto split: sum.splits)
qed

lemma delete_skill_skills:
  assumes "delete_skill lb now i c = (r, c')" "unique_ids (cf_active c)"
  shows "unique_ids (cf_active c')" "r = Inl e \<Longrightarrow> cf_active c' = cf_active c"
    "r = Inr x \<Longrightarrow> skill_files_of (cf_active c') = (skill_files_of (cf_active c))(i := None)"
proof -
  let ?u = "skill_files_of (cf_active c)"
  obtain q c1 where q: "mutate lb now (delete_skill_mutation i) c = (q, c1)" by fastforce
  have none: "?u i = None" if "\<not> skill_exists i c"
    using that by (auto simp: skill_files_find skill_exists_def list_ex_iff find_None_iff)
  have m: "unique_ids (cf_active c1) \<and> (case q of Inl e \<Rightarrow> cf_active c1 = cf_active c
      | Inr x \<Rightarrow> skill_files_of (cf_active c1) = ?u(i := None))"
    using mutate_skills [OF q assms(2) mutations_ok(17), of "\<lambda>u. u(i := None)"] skill_files_delete by blast
  have "unique_ids (cf_active c') \<and> (\<forall>e. r = Inl e \<longrightarrow> cf_active c' = cf_active c) \<and>
      (\<forall>x. r = Inr x \<longrightarrow> skill_files_of (cf_active c') = ?u(i := None))"
    using assms m none q by (cases q) (auto simp: delete_skill_def fun_upd_idem split: if_splits)
  then show "unique_ids (cf_active c')" "r = Inl e \<Longrightarrow> cf_active c' = cf_active c"
    "r = Inr x \<Longrightarrow> skill_files_of (cf_active c') = ?u(i := None)" by auto
qed

lemma commit_active:
  assumes "commit lb now p c = (r, c')"
  shows "case r of Inl e \<Rightarrow> cf_active c' = cf_active c | Inr a \<Rightarrow> cf_active c' = pa_document p \<and> ao_document a = pa_document p"
proof -
  obtain q c1 where q: "check_secret_removal (pa_document p) c = (q, c1)" by fastforce
  have a1: "cf_active c1 = cf_active c" using check_secret_removal_alike [OF q] by (simp add: alike_def)
  obtain g c2 where g: "check_generation (pa_expected_generation p) c1 = (g, c2)" by fastforce
  have a2: "cf_active c2 = cf_active c1" using check_generation_alike [OF g] by (simp add: alike_def)
  show ?thesis using assms q g a1 a2
    by (cases q; cases g)
      (auto simp: commit_def commit_check_def commit_install_def Let_def try_io_def map_err_def on_snapshots_def
        split: prod.splits sum.splits)
qed

lemma get_agent_active: "get_agent now i c = (r, c') \<Longrightarrow> cf_active c' = cf_active c"
  by (auto simp: get_agent_def agent_to_record_def same_config_def split: option.splits prod.splits dest: timestamps_config)

lemma get_gateway_active: "get_gateway now i c = (r, c') \<Longrightarrow> cf_active c' = cf_active c"
  by (auto simp: get_gateway_def gateway_to_record_def same_config_def Let_def split: option.splits prod.splits dest: timestamps_config)

lemma set_gateway_runtime_active [simp]: "cf_active (set_gateway_runtime i r c) = cf_active c"
  by (simp add: set_gateway_runtime_def on_runtime_def)

lemma resolve_gateway_env_active:
  assumes "resolve_gateway_env k i c = (r, c')"
  shows "cf_active c' = cf_active c"
proof (cases "find_gateway (cf_active c) i")
  case (Some g)
  obtain q m1 c1 where q: "resolve_entries k (''gateways/'' @ i @ ''/env'') (env_entries (gw_env g))
      (parse_env_vars (env_to_text (gw_env g) (gw_env_text g))) ([], c) = (q, (m1, c1))" by (metis surj_pair)
  have a1: "cf_active c1 = cf_active c" using resolve_entries_ok [OF q] by simp
  show ?thesis
  proof (cases q)
    case (Inl e)
    then show ?thesis using assms Some q a1 by (simp add: resolve_gateway_env_def)
  next
    case (Inr env)
    obtain s m2 c2 where s: "resolve_entries k (''gateways/'' @ i @ ''/secrets'') (gw_secrets g) env (m1, c1) = (s, (m2, c2))"
      by (metis surj_pair)
    have "cf_active c2 = cf_active c1" using resolve_entries_ok [OF s] by simp
    then show ?thesis using assms Some q s a1
      by (cases s) (auto simp: Inr resolve_gateway_env_def split: if_splits)
  qed
qed (use assms in \<open>simp add: resolve_gateway_env_def\<close>)

end
