(* ===== verification/Skill_Contract.thy ===== *)
theory Skill_Contract
  imports Skill_Config Host_Skills_Facts
begin

text \<open>
  What the client service relies on of the agent host, as the locale \<open>skill_host\<close>, and what the synchronisation of
  skills guarantees under it.

  The contract is about the map of user skills behind the transport.  A call that answers has its effect and a call
  that fails has it or not, since a reply may be lost; nothing else changes.  \<open>inv n\<close> says that the host is in order
  and that \<open>n\<close> more writes fit the version numbers of its skills.
\<close>

type_synonym skill_map = "string \<Rightarrow> string btree option"

section \<open>Undoing staged operations\<close>

fun undo_op :: "staged_skill_op \<Rightarrow> skill_map \<Rightarrow> skill_map" where
  "undo_op (StCreated i) u = u(i := None)"
| "undo_op (StUpdated i files) u = u(i \<mapsto> files)"
| "undo_op (StDeleted i files) u = u(i \<mapsto> files)"

definition undo_ops :: "staged_skill_op list \<Rightarrow> skill_map \<Rightarrow> skill_map" where
  "undo_ops ops u = fold undo_op (rev ops) u"

lemma undo_ops_simps [simp]: "undo_ops [] u = u" "undo_ops (ops @ [op]) u = undo_ops ops (undo_op op u)"
  by (simp_all add: undo_ops_def)

definition agree_off :: "string set \<Rightarrow> skill_map \<Rightarrow> skill_map \<Rightarrow> bool" where
  "agree_off d u u' \<longleftrightarrow> (\<forall>j. j \<notin> d \<longrightarrow> u j = u' j)"

lemma agree_off_refl [simp]: "agree_off d u u"
  by (simp add: agree_off_def)

lemma agree_off_mono: "agree_off d u u' \<Longrightarrow> d \<subseteq> d' \<Longrightarrow> agree_off d' u u'"
  by (auto simp: agree_off_def)

lemma agree_off_insert: "agree_off d u u' \<Longrightarrow> \<exists>i. agree_off (insert i d) u u'"
  by (auto simp: agree_off_def)

lemma agree_off_undo_op: "agree_off d u u' \<Longrightarrow> agree_off d (undo_op op u) (undo_op op u')"
  by (cases op) (auto simp: agree_off_def)

fun op_ok :: "staged_skill_op \<Rightarrow> bool" where
  "op_ok (StCreated i) = True"
| "op_ok (StUpdated i files) = proper_files files"
| "op_ok (StDeleted i files) = proper_files files"

lemma restrict_map_dom: "m |` dom m = m"
proof
  show "(m |` dom m) x = m x" for x by (cases "m x") (simp_all add: restrict_map_def dom_def)
qed

fun change_ok :: "skill_change \<Rightarrow> bool" where
  "change_ok (CreateSkill i files creator) = proper_files files"
| "change_ok (UpdateSkill i files) = proper_files files"
| "change_ok (RollbackSkill i v) = True"
| "change_ok (DeleteSkill i) = True"

text \<open>The skills named by the changes that were answered with an error.\<close>

definition failed_ids :: "(skill_change \<times> (api_error, unit) result) list \<Rightarrow> string set" where
  "failed_ids rs = {changed_id ch |ch e. (ch, Inl e) \<in> set rs}"

section \<open>The contract\<close>

locale skill_host =
  fixes ex :: "'h exchange" and users :: "'h \<Rightarrow> skill_map" and inv :: "nat \<Rightarrow> 'h \<Rightarrow> bool"
  assumes inv_less: "inv (Suc n) h \<Longrightarrow> inv n h"
    and users_proper: "inv n h \<Longrightarrow> users h i = Some files \<Longrightarrow> proper_files files"
    and listing: "inv n h \<Longrightarrow> ah_list_skills ex h = (rl, h') \<Longrightarrow>
      inv n h' \<and> users h' = users h \<and> (\<forall>mss. rl = Inr mss \<longrightarrow> set (user_ids_of mss) = dom (users h))"
    and fetching: "inv n h \<Longrightarrow> ah_get_skill ex i h = (r, h') \<Longrightarrow>
      inv n h' \<and> users h' = users h \<and>
      (\<forall>ms files. r = Inr ms \<longrightarrow> users h i = Some files \<longrightarrow> map_of ms ''files'' = Some (strings_json files))"
    and creating: "inv (Suc n) h \<Longrightarrow> proper_files files \<Longrightarrow> ah_create_skill ex i files h = (r, h') \<Longrightarrow>
      inv n h' \<and> (users h i = None \<and> users h' = (users h)(i \<mapsto> files) \<or> (\<exists>e. r = Inl e) \<and> users h' = users h)"
    and updating: "inv (Suc n) h \<Longrightarrow> proper_files files \<Longrightarrow> ah_update_skill ex i files h = (r, h') \<Longrightarrow>
      inv n h' \<and> (users h i \<noteq> None \<and> users h' = (users h)(i \<mapsto> files) \<or> (\<exists>e. r = Inl e) \<and> users h' = users h)"
    and deleting: "inv n h \<Longrightarrow> ah_delete_skill ex i h = (rd, h') \<Longrightarrow>
      inv n h' \<and> (users h i \<noteq> None \<and> users h' = (users h)(i := None) \<or> (\<exists>e. rd = Inl e) \<and> users h' = users h)"
    and rolling_back: "inv (Suc n) h \<Longrightarrow> ah_rollback_skill ex i v h = (r, h') \<Longrightarrow>
      inv n h' \<and> ((\<exists>files. users h i \<noteq> None \<and> users h' = (users h)(i \<mapsto> files) \<and>
          (\<forall>ms. r = Inr ms \<longrightarrow> map_of ms ''files'' = Some (strings_json files))) \<or>
        (\<exists>e. r = Inl e) \<and> users h' = users h)"
    and elsewhere: "inv n h \<Longrightarrow> rq_path rq = p # ps \<Longrightarrow> p \<noteq> ''skills'' \<Longrightarrow> ex rq h = (ra, h') \<Longrightarrow>
      inv n h' \<and> users h' = users h"
begin

lemma inv_mono: "inv n h \<Longrightarrow> m \<le> n \<Longrightarrow> inv m h"
  by (induction n) (auto simp: le_Suc_eq dest: inv_less)

text \<open>The host of a client.\<close>

abbreviation host_of :: "'h client_state \<Rightarrow> skill_map" where
  "host_of st \<equiv> users (cl_host st)"

definition warned_since :: "'h client_state \<Rightarrow> 'h client_state \<Rightarrow> string set" where
  "warned_since st st' = set (drop (length (cl_warned st)) (cl_warned st'))"

text \<open>The calls on the state of the client.\<close>

lemma host_listing:
  assumes "inv n (cl_host st)" "on_host (ah_list_skills ex) st = (rl, st')"
  shows "inv n (cl_host st')" "host_of st' = host_of st" "rl = Inr mss \<Longrightarrow> set (user_ids_of mss) = dom (host_of st)"
    "cl_config st' = cl_config st" "cl_warned st' = cl_warned st"
  using assms(2) listing [OF assms(1)] by (auto simp: on_host_def split: prod.splits)

lemma host_fetching:
  assumes "inv n (cl_host st)" "on_host (ah_get_skill ex i) st = (r, st')"
  shows "inv n (cl_host st')" "host_of st' = host_of st" "cl_config st' = cl_config st" "cl_warned st' = cl_warned st"
    "r = Inr ms \<Longrightarrow> host_of st i = Some files \<Longrightarrow> map_of ms ''files'' = Some (strings_json files)"
  using assms(2) fetching [OF assms(1)] by (auto simp: on_host_def split: prod.splits)

text \<open>A call that writes: its effect, or none and an error.\<close>

definition writes :: "('h, 'a) ah_call \<Rightarrow> string \<Rightarrow> string btree option \<Rightarrow> bool" where
  "writes call i x \<longleftrightarrow> (\<forall>n h r h'. inv (Suc n) h \<longrightarrow> call h = (r, h') \<longrightarrow>
     inv n h' \<and> (users h' = (users h)(i := x) \<or> (\<exists>e. r = Inl e) \<and> users h' = users h))"

lemma writes_calls:
  "proper_files files \<Longrightarrow> writes (ah_create_skill ex i files) i (Some files)"
  "proper_files files \<Longrightarrow> writes (ah_update_skill ex i files) i (Some files)"
  "writes (ah_delete_skill ex i) i None"
  unfolding writes_def using creating updating deleting inv_less by blast+

lemma writes_no_value: "writes call i x \<Longrightarrow> writes (no_value call) i x"
  unfolding writes_def no_value_def by (fastforce simp: try_io_def split: sum.splits prod.splits)

lemma writes_restore: "op_ok op \<Longrightarrow> \<exists>x. writes (restore_call ex op) (staged_id op) x \<and> (\<forall>u. undo_op op u = u(staged_id op := x))"
  by (cases op) (auto intro!: writes_calls writes_no_value)

lemma on_host_writes:
  assumes "writes call i x" "inv (Suc n) (cl_host st)" "on_host call st = (r, st')"
  shows "inv n (cl_host st')" "cl_config st' = cl_config st" "cl_warned st' = cl_warned st"
    "host_of st' = (host_of st)(i := x) \<or> (\<exists>e. r = Inl e) \<and> host_of st' = host_of st"
proof -
  obtain h where h: "call (cl_host st) = (r, h)" "st' = st\<lparr>cl_host := h\<rparr>"
    using assms(3) by (auto simp: on_host_def split: prod.splits)
  have "inv n h \<and> (users h = (host_of st)(i := x) \<or> (\<exists>e. r = Inl e) \<and> users h = host_of st)"
    using assms(1,2) h(1) unfolding writes_def by blast
  then show "inv n (cl_host st')" "cl_config st' = cl_config st" "cl_warned st' = cl_warned st"
    "host_of st' = (host_of st)(i := x) \<or> (\<exists>e. r = Inl e) \<and> host_of st' = host_of st"
    by (auto simp: h(2))
qed

section \<open>Compensation\<close>

lemma compensate_one_off:
  assumes "inv (Suc n) (cl_host st)" "op_ok op" "agree_off d (host_of st) u"
  shows "\<exists>st' w. compensate_one ex op st = st' \<and> inv n (cl_host st') \<and> cl_config st' = cl_config st \<and>
    cl_warned st' = cl_warned st @ w \<and> agree_off (d \<union> set w) (host_of st') (undo_op op u)"
proof -
  obtain x where x: "writes (restore_call ex op) (staged_id op) x" "\<And>u. undo_op op u = u(staged_id op := x)"
    using writes_restore [OF assms(2)] by blast
  obtain r st' where r: "on_host (restore_call ex op) st = (r, st')" by fastforce
  note w = on_host_writes [OF x(1) assms(1) r]
  show ?thesis
  proof (cases r)
    case (Inl e)
    have "agree_off (d \<union> {staged_id op}) (host_of st') (undo_op op u)"
      using w(4) assms(3) by (auto simp: agree_off_def x(2))
    then show ?thesis using w(1-3) by (auto simp: compensate_one_def r Inl intro!: exI [of _ "[staged_id op]"])
  next
    case (Inr y)
    then have "host_of st' = undo_op op (host_of st)" using w(4) by (auto simp: x(2))
    then show ?thesis using w(1-3) agree_off_undo_op [OF assms(3)]
      by (auto simp: compensate_one_def r Inr intro!: exI [of _ "[]"])
  qed
qed

lemma compensate_off:
  assumes "inv (n + length ops) (cl_host st)" "list_all op_ok ops" "agree_off d (host_of st) u"
  shows "\<exists>w. inv n (cl_host (compensate_skills ex ops st)) \<and>
    cl_config (compensate_skills ex ops st) = cl_config st \<and> cl_warned (compensate_skills ex ops st) = cl_warned st @ w \<and>
    agree_off (d \<union> set w) (host_of (compensate_skills ex ops st)) (undo_ops ops u)"
  using assms
proof (induction ops arbitrary: st d u rule: rev_induct)
  case Nil
  then show ?case by (auto simp: compensate_skills_def intro!: exI [of _ "[]"])
next
  case (snoc op ops)
  obtain st1 w1 where st1: "compensate_one ex op st = st1" "inv (n + length ops) (cl_host st1)" "cl_config st1 = cl_config st"
    "cl_warned st1 = cl_warned st @ w1" "agree_off (d \<union> set w1) (host_of st1) (undo_op op u)"
    using compensate_one_off [of "n + length ops" st op d u] snoc.prems by auto
  have "list_all op_ok ops" using snoc.prems(2) by simp
  from snoc.IH [OF st1(2) this st1(5)] show ?case
    using st1(1,3,4) by (auto simp: compensate_skills_def Un_assoc)
qed

section \<open>Reading the user skills\<close>

lemma text_members_strings: "btree_ok files \<Longrightarrow> text_members (case strings_json files of JObj ms \<Rightarrow> ms | _ \<Rightarrow> []) = files"
proof -
  assume ok: "btree_ok files"
  have "List.map_filter (\<lambda>(k, j). map_option (Pair k) (value_str j)) (map (\<lambda>(k, v). (k, JStr v)) files) = files"
    by (induction files) (auto simp: map_filter_simps)
  moreover have "btree_of files = files"
    using btree_ok_distinct [OF ok] ok by (intro btree_eqI) (simp_all add: map_of_btree_of map_of_rev_distinct)
  ultimately show ?thesis by (simp add: text_members_def strings_json_def)
qed

lemma fetch_off:
  assumes "inv n (cl_host st)" "set is \<subseteq> dom (host_of st)" "btree_ok user"
    and "fetch_user_skills ex is user st = (r, st')"
  shows "inv n (cl_host st') \<and> host_of st' = host_of st \<and> cl_config st' = cl_config st \<and> cl_warned st' = cl_warned st \<and>
    (\<forall>m. r = Inr m \<longrightarrow> btree_ok m \<and> map_of m = map_of user ++ (host_of st |` set is))"
  using assms
proof (induction "is" arbitrary: st user)
  case Nil
  then show ?case by auto
next
  case (Cons i "is")
  obtain d st1 where d: "on_host (ah_get_skill ex i) st = (d, st1)" by fastforce
  note f = host_fetching [OF Cons.prems(1) d]
  obtain files where files: "host_of st i = Some files" using Cons.prems(2) by auto
  have ok: "btree_ok files" using proper_filesD(2) [OF users_proper [OF Cons.prems(1) files]] .
  show ?case
  proof (cases d)
    case (Inl e)
    then show ?thesis using Cons.prems(4) d f(1-4) by auto
  next
    case (Inr ms)
    let ?user = "btree_insert i files user"
    have next_step: "fetch_user_skills ex is ?user st1 = (r, st')"
      using Cons.prems(4) d f(5) [OF Inr files] text_members_strings [OF ok] by (simp add: Inr strings_json_def)
    have sub: "set is \<subseteq> dom (host_of st1)" using Cons.prems(2) f(2) by simp
    note IH = Cons.IH [OF f(1) sub btree_ok_insert [OF Cons.prems(3)] next_step]
    have e: "map_of ?user ++ (host_of st |` set is) = map_of user ++ (host_of st |` set (i # is))"
      using files by (auto simp: fun_eq_iff map_add_def restrict_map_def split: option.splits)
    show ?thesis using IH unfolding f(2-4) e .
  qed
qed

lemma user_skills_off:
  assumes "inv n (cl_host st)" "agent_host_user_skills ex st = (r, st')"
  shows "inv n (cl_host st') \<and> host_of st' = host_of st \<and> cl_config st' = cl_config st \<and> cl_warned st' = cl_warned st \<and>
    (\<forall>m. r = Inr m \<longrightarrow> btree_ok m \<and> map_of m = host_of st)"
proof -
  obtain rl st1 where l: "on_host (ah_list_skills ex) st = (rl, st1)" by fastforce
  note f = host_listing [OF assms(1) l]
  show ?thesis
  proof (cases rl)
    case (Inl e)
    then show ?thesis using assms(2) l f by (auto simp: agent_host_user_skills_def)
  next
    case (Inr mss)
    have ids: "set (user_ids_of mss) = dom (host_of st1)" using f(2,3) Inr by simp
    have "fetch_user_skills ex (user_ids_of mss) [] st1 = (r, st')"
      using assms(2) l by (simp add: agent_host_user_skills_def Inr)
    from fetch_off [OF f(1) _ _ this] show ?thesis using ids f(2,4,5) by (simp add: restrict_map_dom)
  qed
qed

section \<open>Staging\<close>

abbreviation file_map :: "skill list \<Rightarrow> skill_map" where
  "file_map sks \<equiv> map_of (map (\<lambda>k. (sk_id k, sk_files k)) sks)"

lemma stage_one_off:
  assumes "inv (Suc n) (cl_host st)" "proper_files (sk_files k)" "map_of user (sk_id k) = host_of st (sk_id k)"
    and "stage_one ex user k st = (r, st')"
  shows "inv n (cl_host st')" "cl_config st' = cl_config st" "cl_warned st' = cl_warned st"
    "r = Inr None \<Longrightarrow> host_of st' = host_of st \<and> host_of st (sk_id k) = Some (sk_files k)"
    "r = Inr (Some op) \<Longrightarrow> host_of st' = (host_of st)(sk_id k \<mapsto> sk_files k) \<and> op_ok op \<and> undo_op op (host_of st') = host_of st"
    "r = Inl e \<Longrightarrow> agree_off {sk_id k} (host_of st') (host_of st)"
proof -
  let ?i = "sk_id k" and ?new = "(host_of st)(sk_id k \<mapsto> sk_files k)"
  have "inv n (cl_host st') \<and> cl_config st' = cl_config st \<and> cl_warned st' = cl_warned st \<and>
    (r = Inr None \<longrightarrow> host_of st' = host_of st \<and> host_of st ?i = Some (sk_files k)) \<and>
    (\<forall>op. r = Inr (Some op) \<longrightarrow> host_of st' = ?new \<and> op_ok op \<and> undo_op op ?new = host_of st) \<and>
    (\<forall>e. r = Inl e \<longrightarrow> agree_off {?i} (host_of st') (host_of st))"
  proof (cases "host_of st ?i")
    case None
    obtain c st1 where c: "on_host (ah_create_skill ex ?i (sk_files k)) st = (c, st1)" by fastforce
    have s: "stage_one ex user k st = try_io (c, st1) (\<lambda>_ st. (Inr (Some (StCreated ?i)), st))"
      using None assms(3) c by (simp add: stage_one_def)
    have undone: "undo_op (StCreated ?i) ?new = host_of st" using None by (auto simp: fun_eq_iff)
    show ?thesis using on_host_writes [OF writes_calls(1) [OF assms(2)] assms(1) c] assms(4) undone
      by (cases c) (auto simp: s agree_off_def)
  next
    case (Some files)
    show ?thesis
    proof (cases "files = sk_files k")
      case True
      then show ?thesis using assms(1,3,4) Some by (auto simp: stage_one_def intro: inv_less)
    next
      case False
      obtain c st1 where c: "on_host (ah_update_skill ex ?i (sk_files k)) st = (c, st1)" by fastforce
      have s: "stage_one ex user k st = try_io (c, st1) (\<lambda>_ st. (Inr (Some (StUpdated ?i files)), st))"
        using Some False assms(3) c by (simp add: stage_one_def)
      have undone: "undo_op (StUpdated ?i files) ?new = host_of st" "op_ok (StUpdated ?i files)"
        using Some users_proper [OF assms(1) Some] by (auto simp: fun_eq_iff)
      show ?thesis using on_host_writes [OF writes_calls(2) [OF assms(2)] assms(1) c] assms(4) undone
        by (cases c) (auto simp: s agree_off_def)
    qed
  qed
  then show "inv n (cl_host st')" "cl_config st' = cl_config st" "cl_warned st' = cl_warned st"
    "r = Inr None \<Longrightarrow> host_of st' = host_of st \<and> host_of st (sk_id k) = Some (sk_files k)"
    "r = Inr (Some op) \<Longrightarrow> host_of st' = (host_of st)(sk_id k \<mapsto> sk_files k) \<and> op_ok op \<and> undo_op op (host_of st') = host_of st"
    "r = Inl e \<Longrightarrow> agree_off {sk_id k} (host_of st') (host_of st)"
    by auto
qed

text \<open>An aborted stage: the operations are taken back, except where that failed and at the operation that failed.\<close>

definition taken_back :: "nat \<Rightarrow> 'h client_state \<Rightarrow> 'h client_state \<Rightarrow> skill_map \<Rightarrow> bool" where
  "taken_back n st st' u \<longleftrightarrow> inv n (cl_host st') \<and> cl_config st' = cl_config st \<and>
     (\<exists>i w. cl_warned st' = cl_warned st @ w \<and> agree_off (insert i (set w)) (host_of st') u)"

lemma taken_back_compensated:
  assumes "inv (n + length ops) (cl_host st1)" "list_all op_ok ops" "agree_off {i} (host_of st1) u"
    and "cl_config st1 = cl_config st" "cl_warned st1 = cl_warned st"
  shows "taken_back n st (compensate_skills ex ops st1) (undo_ops ops u)"
  using compensate_off [OF assms(1-3)] assms(4,5) by (auto simp: taken_back_def)

definition staged :: "nat \<Rightarrow> 'h client_state \<Rightarrow> 'h client_state \<Rightarrow> skill_map \<Rightarrow> skill_map \<Rightarrow> staged_skill_op list \<Rightarrow> bool" where
  "staged n st st' old new ops \<longleftrightarrow> inv (length ops + n) (cl_host st') \<and> cl_config st' = cl_config st \<and>
     cl_warned st' = cl_warned st \<and> list_all op_ok ops \<and> host_of st' = new \<and> undo_ops ops new = old"

definition stage_result ::
  "nat \<Rightarrow> 'h client_state \<Rightarrow> skill_map \<Rightarrow> skill_map \<Rightarrow> (api_error, staged_skill_op list) result \<Rightarrow> 'h client_state \<Rightarrow> bool" where
  "stage_result n st old new r st' \<longleftrightarrow>
     (case r of Inr ops \<Rightarrow> staged n st st' old new ops | Inl e \<Rightarrow> taken_back n st st' old)"

lemma stage_result_later:
  "stage_result n st1 old new r st' \<Longrightarrow> cl_config st1 = cl_config st \<Longrightarrow> cl_warned st1 = cl_warned st \<Longrightarrow>
     stage_result n st old new r st'"
  by (auto simp: stage_result_def staged_def taken_back_def split: sum.splits)

lemma stage_declared_off:
  assumes "distinct (map sk_id sks)" "\<forall>k \<in> set sks. proper_files (sk_files k) \<and> map_of user (sk_id k) = host_of st (sk_id k)"
    and "list_all op_ok performed" "inv (2 * length sks + length performed + n) (cl_host st)"
    and "stage_declared ex user sks performed st = (r, st')"
  shows "stage_result n st (undo_ops performed (host_of st)) (host_of st ++ file_map sks) r st'"
  using assms
proof (induction sks arbitrary: st performed)
  case Nil
  then show ?case by (auto simp: stage_result_def staged_def)
next
  case (Cons k sks)
  obtain c st1 where c: "stage_one ex user k st = (c, st1)" by fastforce
  let ?m = "2 * length sks + Suc (length performed) + n"
  have b: "inv (Suc ?m) (cl_host st)" using Cons.prems(4) by (simp add: add.commute add.left_commute)
  have k: "proper_files (sk_files k)" "map_of user (sk_id k) = host_of st (sk_id k)" using Cons.prems(2) by simp_all
  note one = stage_one_off [OF b k c]
  have rest: "distinct (map sk_id sks)" using Cons.prems(1) by simp
  have new: "sk_id k \<notin> dom (file_map sks)" using Cons.prems(1) by (auto simp: dom_map_of_conv_image_fst)
  have add: "(host_of st)(sk_id k \<mapsto> sk_files k) ++ file_map sks = host_of st ++ file_map (k # sks)"
    using new by (simp add: map_add_upd_left)
  show ?case
  proof (cases c)
    case (Inl e)
    have r: "st' = compensate_skills ex performed st1" "\<exists>e. r = Inl e" using Cons.prems(5) c by (auto simp: Inl)
    have "inv (n + length performed) (cl_host st1)" using inv_mono [OF one(1), of "n + length performed"] by simp
    from taken_back_compensated [OF this Cons.prems(3) one(6) [OF Inl] one(2,3)] show ?thesis using r by (auto simp: stage_result_def)
  next
    case (Inr x)
    show ?thesis
    proof (cases x)
      case None
      note same = one(4) [OF Inr [unfolded None], THEN conjunct1] one(4) [OF Inr [unfolded None], THEN conjunct2]
      have m: "\<forall>k \<in> set sks. proper_files (sk_files k) \<and> map_of user (sk_id k) = host_of st1 (sk_id k)"
        using Cons.prems(2) same(1) by simp
      have b1: "inv (2 * length sks + length performed + n) (cl_host st1)" using inv_mono [OF one(1)] by simp
      have s: "stage_declared ex user sks performed st1 = (r, st')" using Cons.prems(5) c by (simp add: Inr None)
      have a: "host_of st ++ file_map sks = host_of st ++ file_map (k # sks)"
        using add same(2) by (simp add: fun_upd_idem)
      show ?thesis
        using stage_result_later [OF Cons.IH [OF rest m Cons.prems(3) b1 s] one(2,3)] unfolding same(1) a .
    next
      case (Some op)
      note upd = one(5) [OF Inr [unfolded Some]]
      have m: "\<forall>k \<in> set sks. proper_files (sk_files k) \<and> map_of user (sk_id k) = host_of st1 (sk_id k)"
      proof
        fix k' assume k': "k' \<in> set sks"
        then have "sk_id k' \<noteq> sk_id k" using Cons.prems(1) by (metis distinct.simps(2) image_eqI list.map(2) set_map)
        then show "proper_files (sk_files k') \<and> map_of user (sk_id k') = host_of st1 (sk_id k')"
          using Cons.prems(2) upd k' by simp
      qed
      have ops: "list_all op_ok (performed @ [op])" using Cons.prems(3) upd by simp
      have b1: "inv (2 * length sks + length (performed @ [op]) + n) (cl_host st1)" using one(1) by simp
      have s: "stage_declared ex user sks (performed @ [op]) st1 = (r, st')" using Cons.prems(5) c by (simp add: Inr Some)
      have u: "undo_ops (performed @ [op]) (host_of st1) = undo_ops performed (host_of st)"
        by (simp only: undo_ops_simps upd [THEN conjunct2, THEN conjunct2])
      have a: "host_of st1 ++ file_map sks = host_of st ++ file_map (k # sks)" using upd add by simp
      show ?thesis
        using stage_result_later [OF Cons.IH [OF rest m ops b1 s] one(2,3)] unfolding u a .
    qed
  qed
qed

lemma stage_removed_off:
  assumes "distinct (map fst es)" "\<forall>(i, files) \<in> set es. i \<notin> set desired \<longrightarrow> host_of st i = Some files"
    and "list_all op_ok performed" "inv (2 * length es + length performed + n) (cl_host st)"
    and "stage_removed ex desired es performed st = (r, st')"
  shows "stage_result n st (undo_ops performed (host_of st))
    (\<lambda>i. if i \<in> fst ` set es - set desired then None else host_of st i) r st'"
  using assms
proof (induction es arbitrary: st performed)
  case Nil
  then show ?case by (auto simp: stage_result_def staged_def)
next
  case (Cons e es)
  obtain i files where e: "e = (i, files)" by (cases e)
  let ?m = "2 * length es + Suc (length performed) + n"
  have b: "inv (Suc ?m) (cl_host st)" using Cons.prems(4) by (simp add: add.commute add.left_commute)
  have rest: "distinct (map fst es)" and new: "i \<notin> fst ` set es" using Cons.prems(1) by (auto simp: e)
  show ?case
  proof (cases "i \<in> set desired")
    case True
    have b1: "inv (2 * length es + length performed + n) (cl_host st)" using inv_mono [OF b] by simp
    have m: "\<forall>(i, files) \<in> set es. i \<notin> set desired \<longrightarrow> host_of st i = Some files" using Cons.prems(2) by auto
    have s: "stage_removed ex desired es performed st = (r, st')" using Cons.prems(5) True by (simp add: e)
    have "fst ` set (e # es) - set desired = fst ` set es - set desired" using True by (auto simp: e)
    then show ?thesis using Cons.IH [OF rest m Cons.prems(3) b1 s] by simp
  next
    case False
    then have files: "host_of st i = Some files" using Cons.prems(2) by (auto simp: e)
    obtain c st1 where c: "on_host (ah_delete_skill ex i) st = (c, st1)" by fastforce
    note w = on_host_writes [OF writes_calls(3) b c]
    show ?thesis
    proof (cases c)
      case (Inl err)
      have r: "st' = compensate_skills ex performed st1" "\<exists>e. r = Inl e" using Cons.prems(5) c False by (auto simp: Inl e)
      have "inv (n + length performed) (cl_host st1)" using inv_mono [OF w(1), of "n + length performed"] by simp
      moreover have "agree_off {i} (host_of st1) (host_of st)" using w(4) by (auto simp: agree_off_def)
      ultimately show ?thesis using taken_back_compensated [OF _ Cons.prems(3) _ w(2,3)] r by (auto simp: stage_result_def)
    next
      case (Inr x)
      then have upd: "host_of st1 = (host_of st)(i := None)" using w(4) by auto
      let ?ops = "performed @ [StDeleted i files]"
      have ops: "list_all op_ok ?ops" using Cons.prems(3) users_proper [OF b files] by simp
      have m: "\<forall>(i, files) \<in> set es. i \<notin> set desired \<longrightarrow> host_of st1 i = Some files"
      proof (clarify)
        fix j fs assume j: "(j, fs) \<in> set es" "j \<notin> set desired"
        then have "j \<noteq> i" using new by force
        then show "host_of st1 j = Some fs" using Cons.prems(2) j upd by auto
      qed
      have b1: "inv (2 * length es + length ?ops + n) (cl_host st1)" using w(1) by simp
      have s: "stage_removed ex desired es ?ops st1 = (r, st')" using Cons.prems(5) c False by (simp add: Inr e)
      have u: "undo_ops ?ops (host_of st1) = undo_ops performed (host_of st)"
        using files by (simp add: upd fun_upd_idem)
      have a: "(\<lambda>j. if j \<in> fst ` set es - set desired then None else host_of st1 j) =
          (\<lambda>j. if j \<in> fst ` set (e # es) - set desired then None else host_of st j)"
        using False by (auto simp: upd e fun_eq_iff)
      show ?thesis using stage_result_later [OF Cons.IH [OF rest m ops b1 s] w(2,3)] unfolding u a .
    qed
  qed
qed

lemma stage_against_off:
  assumes "distinct (map sk_id sks)" "\<forall>k \<in> set sks. proper_files (sk_files k)" "btree_ok user" "map_of user = host_of st"
    and "inv (2 * length sks + 2 * length user + n) (cl_host st)" "stage_against ex user sks st = (r, st')"
  shows "stage_result n st (host_of st) (file_map sks) r st'"
proof -
  obtain c st1 where c: "stage_declared ex user sks [] st = (c, st1)" by fastforce
  have m: "\<forall>k \<in> set sks. proper_files (sk_files k) \<and> map_of user (sk_id k) = host_of st (sk_id k)"
    using assms(2,4) by simp
  have b: "inv (2 * length sks + length ([] :: staged_skill_op list) + (2 * length user + n)) (cl_host st)"
    using assms(5) by (simp add: add.assoc)
  note one = stage_declared_off [OF assms(1) m _ b c, simplified]
  show ?thesis
  proof (cases c)
    case (Inl e)
    have "inv n (cl_host st1)" if "inv (2 * length user + n) (cl_host st1)" using inv_mono [OF that] by simp
    then show ?thesis using one assms(6) c by (auto simp: Inl stage_against_def stage_result_def taken_back_def)
  next
    case (Inr ops)
    have s1: "staged (2 * length user + n) st st1 (host_of st) (host_of st ++ file_map sks) ops"
      using one by (simp add: Inr stage_result_def)
    have s: "stage_removed ex (map sk_id sks) user ops st1 = (r, st')" using assms(6) c by (simp add: Inr stage_against_def)
    have d: "distinct (map fst user)" by (rule btree_ok_distinct [OF assms(3)])
    have ids: "dom (file_map sks) = set (map sk_id sks)" by (simp add: dom_map_of_conv_image_fst image_image)
    have there: "\<forall>(i, files) \<in> set user. i \<notin> set (map sk_id sks) \<longrightarrow> host_of st1 i = Some files"
    proof (clarify)
      fix i files assume "(i, files) \<in> set user" and new: "i \<notin> set (map sk_id sks)"
      then have "host_of st i = Some files" using d assms(4) by (metis map_of_eq_Some_iff)
      moreover have "file_map sks i = None" using new ids by auto
      ultimately show "host_of st1 i = Some files" using s1 by (simp add: staged_def map_add_def)
    qed
    have b1: "inv (2 * length user + length ops + n) (cl_host st1)"
      using s1 by (simp add: staged_def add.commute add.left_commute)
    have final: "(\<lambda>i. if i \<in> fst ` set user - set (map sk_id sks) then None else host_of st1 i) = file_map sks"
    proof
      fix i
      have "i \<in> fst ` set user \<longleftrightarrow> host_of st i \<noteq> None"
        using assms(4) by (metis dom_map_of_conv_image_fst domIff)
      moreover have "file_map sks i = None \<longleftrightarrow> i \<notin> set (map sk_id sks)" using ids by auto
      ultimately show "(if i \<in> fst ` set user - set (map sk_id sks) then None else host_of st1 i) = file_map sks i"
        using s1 by (auto simp: staged_def map_add_def split: option.split)
    qed
    have old: "undo_ops ops (host_of st1) = host_of st" using s1 by (simp add: staged_def)
    have ok: "list_all op_ok ops" "cl_config st1 = cl_config st" "cl_warned st1 = cl_warned st"
      using s1 by (simp_all add: staged_def)
    show ?thesis using stage_result_later [OF stage_removed_off [OF d there ok(1) b1 s] ok(2,3)] unfolding old final .
  qed
qed

section \<open>The gateways\<close>

text \<open>What has to do with gateways leaves the skills alone, on the host and in the document.\<close>

definition spares :: "('h, 'a) ah_call \<Rightarrow> bool" where
  "spares call \<longleftrightarrow> (\<forall>n h. inv n h \<longrightarrow> inv n (snd (call h)) \<and> users (snd (call h)) = users h)"

lemma sparesI: "(\<And>n h r h'. inv n h \<Longrightarrow> call h = (r, h') \<Longrightarrow> inv n h' \<and> users h' = users h) \<Longrightarrow> spares call"
  unfolding spares_def by (metis prod.collapse)

lemma sparesD: "spares call \<Longrightarrow> inv n h \<Longrightarrow> call h = (r, h') \<Longrightarrow> inv n h' \<and> users h' = users h"
  unfolding spares_def by (metis snd_conv)

lemma spares_try: "spares call \<Longrightarrow> (\<And>x. spares (f x)) \<Longrightarrow> spares (\<lambda>h. try_io (call h) f)"
proof (rule sparesI)
  fix n h r h' assume call: "spares call" and f: "\<And>x. spares (f x)" and inv: "inv n h" and run: "try_io (call h) f = (r, h')"
  obtain c h1 where c: "call h = (c, h1)" by fastforce
  note one = sparesD [OF call inv c]
  show "inv n h' \<and> users h' = users h"
  proof (cases c)
    case (Inr x)
    then show ?thesis using run c sparesD [OF f conjunct1 [OF one], of x r h'] one by simp
  qed (use run c one in simp)
qed

lemma spares_const: "spares (\<lambda>h. (r, h))"
  by (simp add: spares_def)

lemma spares_send: "p \<noteq> ''skills'' \<Longrightarrow> spares (send_request ex \<lparr>rq_method = m, rq_path = p # ps, rq_body = bd\<rparr>)"
proof (rule sparesI)
  fix n h r h' assume p: "p \<noteq> ''skills''" and inv: "inv n h"
    and run: "send_request ex \<lparr>rq_method = m, rq_path = p # ps, rq_body = bd\<rparr> h = (r, h')"
  obtain c h1 where c: "ex \<lparr>rq_method = m, rq_path = p # ps, rq_body = bd\<rparr> h = (c, h1)" by fastforce
  have "h' = h1" using run c by (cases c) (auto simp: send_request_def split: if_splits)
  then show "inv n h' \<and> users h' = users h" using elsewhere [OF inv _ p c] by simp
qed

lemma spares_json: "p \<noteq> ''skills'' \<Longrightarrow> spares (request_json ex m (p # ps) bd)"
  unfolding request_json_def by (intro spares_try spares_send spares_const)

lemma spares_object: "p \<noteq> ''skills'' \<Longrightarrow> spares (request_object ex m (p # ps) bd)"
  unfolding request_object_def by (intro spares_try spares_json spares_const)

lemma spares_array: "p \<noteq> ''skills'' \<Longrightarrow> spares (request_array ex m (p # ps) bd)"
  unfolding request_array_def by (intro spares_try spares_json spares_const)

lemma spares_gateways:
  "spares (ah_create_gateway ex i ty a env)" "spares (ah_list_gateways ex)"
  by (simp_all add: ah_create_gateway_def ah_list_gateways_def url_path_def spares_object spares_array)

lemma spares_destroy: "spares (ah_destroy_gateway ex i)"
proof -
  have "spares (send_request ex \<lparr>rq_method = ''DELETE'', rq_path = url_path [''gateways'', i], rq_body = None\<rparr>)"
    by (simp add: url_path_def spares_send)
  moreover have "snd (ah_destroy_gateway ex i h) =
      snd (send_request ex \<lparr>rq_method = ''DELETE'', rq_path = url_path [''gateways'', i], rq_body = None\<rparr> h)" for h
    by (auto simp: ah_destroy_gateway_def split: prod.splits sum.splits agent_host_error.splits)
  ultimately show ?thesis unfolding spares_def by simp
qed

lemma spares_create_gateway: "spares (create_agent_host_gateway ex g env)"
proof -
  let ?c = "ah_create_gateway ex (gr_gateway_id g) (gateway_type_str (gr_gateway_type g)) (gr_agent_id g) env"
  have c: "spares ?c" by (rule spares_gateways)
  have d: "spares (\<lambda>h. try_io (ah_destroy_gateway ex (gr_gateway_id g) h) (\<lambda>_. ?c))"
    by (intro spares_try spares_destroy spares_gateways)
  show ?thesis
  proof (rule sparesI)
    fix n h r h' assume inv: "inv n h" and run: "create_agent_host_gateway ex g env h = (r, h')"
    obtain q h1 where q: "?c h = (q, h1)" by fastforce
    have one: "inv n h1 \<and> users h1 = users h" by (rule sparesD [OF c inv q])
    have "h' = h1 \<or> try_io (ah_destroy_gateway ex (gr_gateway_id g) h1) (\<lambda>_. ?c) = (r, h')"
      using run q by (auto simp: create_agent_host_gateway_def Let_def split: sum.splits agent_host_error.splits if_splits)
    then show "inv n h' \<and> users h' = users h" using one sparesD [OF d, of n h1 r h'] by auto
  qed
qed

definition apart :: "nat \<Rightarrow> 'h client_state \<Rightarrow> 'h client_state \<Rightarrow> bool" where
  "apart n st st' \<longleftrightarrow> inv n (cl_host st') \<and> host_of st' = host_of st \<and>
     cf_active (cl_config st') = cf_active (cl_config st) \<and> cl_warned st' = cl_warned st"

lemma apart_refl: "inv n (cl_host st) \<Longrightarrow> apart n st st"
  by (simp add: apart_def)

lemma apart_trans: "apart n st st1 \<Longrightarrow> apart n st1 st2 \<Longrightarrow> apart n st st2"
  by (auto simp: apart_def)

lemma apart_inv: "apart n st st' \<Longrightarrow> inv n (cl_host st')"
  by (simp add: apart_def)

lemma apart_status: "apart n st st1 \<Longrightarrow> apart n st (set_runtime_status g st1)"
  by (simp add: apart_def set_runtime_status_def)

lemma apart_host: "spares call \<Longrightarrow> inv n (cl_host st) \<Longrightarrow> on_host call st = (r, st') \<Longrightarrow> apart n st st'"
  using sparesD [of call n "cl_host st"] unfolding on_host_def apart_def by (auto split: prod.splits)

lemma apart_config:
  assumes "on_config f st = (r, st')" "\<And>c r c'. f c = (r, c') \<Longrightarrow> cf_active c' = cf_active c" "inv n (cl_host st)"
  shows "apart n st st'"
  using assms by (auto simp: on_config_def apart_def split: prod.splits)

lemma apart_require_gateway: "require_gateway ce i st = (r, st') \<Longrightarrow> inv n (cl_host st) \<Longrightarrow> apart n st st'"
  using get_gateway_active
  by (auto simp: require_gateway_def on_store_def map_err_def on_config_def apart_def try_io_def split: prod.splits sum.splits)

lemma apart_start:
  assumes "start_gateway_by_id ex ce i mode st = (r, st')" "inv n (cl_host st)"
  shows "apart n st st'"
proof -
  obtain g st1 where g: "require_gateway ce i st = (g, st1)" by fastforce
  have a1: "apart n st st1" by (rule apart_require_gateway [OF g assms(2)])
  show ?thesis
  proof (cases g)
    case (Inr rec)
    obtain e st2 where e: "on_config (resolve_gateway_env (lib_crypto (ce_libs ce)) i) st1 = (e, st2)" by fastforce
    have a2: "apart n st st2"
      by (rule apart_trans [OF a1 apart_config [OF e resolve_gateway_env_active apart_inv [OF a1]]])
    show ?thesis
    proof (cases e)
      case (Inr env)
      let ?g = "rec\<lparr>gr_status := ''starting'', gr_last_error := None\<rparr>"
      let ?st = "set_runtime_status ?g st2"
      have a3: "apart n st ?st" by (rule apart_status [OF a2])
      obtain c st4 where c: "on_host (create_agent_host_gateway ex ?g env) ?st = (c, st4)" by fastforce
      have a4: "apart n st st4" by (rule apart_trans [OF a3 apart_host [OF spares_create_gateway apart_inv [OF a3] c]])
      have "\<exists>g'. st' = set_runtime_status g' st4"
        using assms(1) g e c by (cases c) (auto simp: start_gateway_by_id_def \<open>g = Inr rec\<close> Inr map_err_def Let_def)
      then show ?thesis using apart_status [OF a4] by blast
    qed (use assms(1) g e a2 Inr in \<open>auto simp: start_gateway_by_id_def map_err_def\<close>)
  qed (use assms(1) g a1 in \<open>simp add: start_gateway_by_id_def\<close>)
qed

lemma apart_stop:
  assumes "stop_gateway_by_id ex ce i st = (r, st')" "inv n (cl_host st)"
  shows "apart n st st'"
proof -
  obtain g st1 where g: "require_gateway ce i st = (g, st1)" by fastforce
  have a1: "apart n st st1" by (rule apart_require_gateway [OF g assms(2)])
  show ?thesis
  proof (cases g)
    case (Inr rec)
    obtain c st2 where c: "on_host (ah_destroy_gateway ex i) st1 = (c, st2)" by fastforce
    have a2: "apart n st st2" by (rule apart_trans [OF a1 apart_host [OF spares_destroy apart_inv [OF a1] c]])
    have "\<exists>g'. st' = set_runtime_status g' st2"
      using assms(1) g c by (auto simp: stop_gateway_by_id_def Inr Let_def)
    then show ?thesis using apart_status [OF a2] by blast
  qed (use assms(1) g a1 in \<open>simp add: stop_gateway_by_id_def\<close>)
qed

lemma record_result_state: "snd (record_gateway_result ce f i (r, st) rc) = st"
  by (cases r) (simp_all add: record_gateway_result_def)

lemma apart_destroy_stale:
  "inv n (cl_host st) \<Longrightarrow> apart n st (snd (destroy_stale_gateways ex ce is (rc, st)))"
proof (induction "is" arbitrary: rc st)
  case (Cons i "is")
  obtain r st1 where r: "on_host (ah_destroy_gateway ex i) st = (r, st1)" by fastforce
  have a: "apart n st st1" by (rule apart_host [OF spares_destroy Cons.prems r])
  obtain rc1 where rc1: "record_gateway_result ce display_agent_host_error i (r, st1) rc = (rc1, st1)"
    using record_result_state by (metis prod.collapse)
  show ?case using apart_trans [OF a Cons.IH [OF apart_inv [OF a]]] by (simp add: r rc1)
qed (simp add: apart_refl)

lemma apart_planned:
  assumes "inv n (cl_host st)"
  shows "apart n st (snd (reconcile_planned_gateway ex ce doc up entry (rc, st)))"
proof -
  have s: "apart n st (snd (record_gateway_result ce ae_detail i (start_gateway_by_id ex ce i mode st) rc))" for i mode
    by (metis apart_start [OF _ assms] record_result_state surj_pair)
  have t: "apart n st (snd (record_gateway_result ce ae_detail i (stop_gateway_by_id ex ce i st) rc))" for i
    by (metis apart_stop [OF _ assms] record_result_state surj_pair)
  show ?thesis using s t apart_refl [OF assms] by (auto simp: reconcile_planned_gateway_def split: option.split)
qed

lemma apart_fold:
  assumes "\<And>x s. inv n (cl_host (snd s)) \<Longrightarrow> apart n (snd s) (snd (f x s))" "inv n (cl_host (snd s))"
  shows "apart n (snd s) (snd (fold f xs s))"
  using assms(2)
proof (induction xs arbitrary: s)
  case (Cons x xs)
  have a: "apart n (snd s) (snd (f x s))" by (rule assms(1) [OF Cons.prems])
  show ?case using apart_trans [OF a Cons.IH [OF apart_inv [OF a]]] by simp
qed (simp add: apart_refl)

lemma apart_reconcile:
  assumes "inv n (cl_host st)"
  shows "apart n st (snd (reconcile_gateways ex ce result (rc, st)))"
proof -
  let ?gone = "\<lambda>up. filter (\<lambda>i. i \<notin> gw_id ` set (cs_gateways (spec (ao_document result)))) up"
  obtain r st1 where r: "on_host (ah_list_gateways ex) st = (r, st1)" by fastforce
  have a: "apart n st st1" by (rule apart_host [OF spares_gateways(2) assms r])
  obtain up rc1 where u: "reconcile_gateways ex ce result (rc, st) =
      fold (reconcile_planned_gateway ex ce (ao_document result) up) (ao_plan result)
        (destroy_stale_gateways ex ce (?gone up) (rc1, st1))"
  proof (cases r)
    case (Inl e)
    have "destroy_stale_gateways ex ce (?gone []) s = s" for s by simp
    then show thesis using that [of "[]"] by (simp add: reconcile_gateways_def r Let_def Inl)
  next
    case (Inr ms)
    then show thesis using that by (simp add: reconcile_gateways_def r Let_def)
  qed
  have d: "apart n st (snd (destroy_stale_gateways ex ce (?gone up) (rc1, st1)))"
    by (rule apart_trans [OF a apart_destroy_stale [OF apart_inv [OF a]]])
  have step: "apart n (snd s) (snd (reconcile_planned_gateway ex ce doc up x s))" if "inv n (cl_host (snd s))" for doc x s
    using apart_planned [OF that, of ce doc up x "fst s"] by simp
  show ?thesis unfolding u using apart_trans [OF d apart_fold [OF step apart_inv [OF d]]] .
qed

section \<open>Applying a document\<close>

lemma length_user_skills:
  fixes m :: "string btree btree"
  shows "btree_ok m \<Longrightarrow> map_of m = u \<Longrightarrow> length m = card (dom u)"
  using distinct_card [OF btree_ok_distinct] by (fastforce simp: dom_map_of_conv_image_fst)

text \<open>What an aborted apply leaves: the document, and the skills but for the one that failed and those with a warning.\<close>

definition aborted :: "'h client_state \<Rightarrow> 'h client_state \<Rightarrow> bool" where
  "aborted st st' \<longleftrightarrow> cf_active (cl_config st') = cf_active (cl_config st) \<and>
     (\<exists>i w. cl_warned st' = cl_warned st @ w \<and> agree_off (insert i (set w)) (host_of st') (host_of st))"

lemma aborted_apart: "apart n st st' \<Longrightarrow> aborted st st'"
  by (auto simp: aborted_def apart_def)

lemma apart_list: "inv n (cl_host st) \<Longrightarrow> on_host (ah_list_skills ex) st = (r, st') \<Longrightarrow> apart n st st'"
proof -
  assume "inv n (cl_host st)" "on_host (ah_list_skills ex) st = (r, st')"
  note l = host_listing [OF this]
  show "apart n st st'" using l(1,2,4,5) by (simp add: apart_def)
qed

lemma apart_builtin: "inv n (cl_host st) \<Longrightarrow> builtin_skill_ids ex st = (is, st') \<Longrightarrow> apart n st st'"
proof -
  assume inv: "inv n (cl_host st)" and b: "builtin_skill_ids ex st = (is, st')"
  obtain r st1 where r: "on_host (ah_list_skills ex) st = (r, st1)" by fastforce
  have "st' = st1" using b r by (cases r) (simp_all add: builtin_skill_ids_def)
  then show "apart n st st'" using apart_list [OF inv r] by simp
qed

lemma stage_skills_off:
  assumes "inv (2 * length (skills_of doc) + 2 * card (dom (host_of st)) + n) (cl_host st)"
    and "distinct (map sk_id (skills_of doc))" "\<forall>k \<in> set (skills_of doc). proper_files (sk_files k)"
    and "stage_skills ex doc rc st = (r, st')"
  shows "stage_result n st (host_of st) (skill_files_of doc) (case r of Inl e \<Rightarrow> Inl e | Inr (rc, ops) \<Rightarrow> Inr ops) st'"
proof -
  let ?b = "2 * length (skills_of doc) + 2 * card (dom (host_of st)) + n"
  obtain u st1 where u: "agent_host_user_skills ex st = (u, st1)" by fastforce
  note off = user_skills_off [OF assms(1) u]
  show ?thesis
  proof (cases u)
    case (Inl e)
    have "inv n (cl_host st1)" using inv_mono off by force
    then have "taken_back n st st1 (host_of st)" using off by (auto simp: taken_back_def)
    then show ?thesis using assms(4) u by (auto simp: stage_skills_def Inl stage_result_def)
  next
    case (Inr m)
    then have m: "btree_ok m" "map_of m = host_of st1" "host_of st1 = host_of st" using off by auto
    have b: "inv (2 * length (skills_of doc) + 2 * length m + n) (cl_host st1)"
      using off length_user_skills [OF m(1,2)] m(3) by simp
    obtain s st2 where s: "stage_against ex m (skills_of doc) st1 = (s, st2)" by fastforce
    have "stage_result n st1 (host_of st1) (skill_files_of doc) s st2"
      unfolding skill_files_of_def by (rule stage_against_off [OF assms(2,3) m(1,2) b s])
    then have res: "stage_result n st (host_of st) (skill_files_of doc) s st2"
      using stage_result_later [of n st1] off m(3) by metis
    have "st' = st2 \<and> (case r of Inl e \<Rightarrow> Inl e | Inr (rc, ops) \<Rightarrow> Inr ops) = s"
      using assms(4) u s by (cases s) (auto simp: stage_skills_def Inr)
    then show ?thesis using res by simp
  qed
qed

lemma apply_off:
  assumes inv: "inv (2 * k + 2 * card (dom (host_of st)) + n) (cl_host st)"
    and source: "\<And>doc. parse_source (ce_libs ce) (source_kind_from_headers ct) src = Inr doc \<Longrightarrow>
        length (skills_of doc) \<le> k \<and> (\<forall>sk \<in> set (skills_of doc). proper_files (sk_files sk))"
    and run: "apply_config_handler ex ce ct im src st = (r, st')"
  shows "inv n (cl_host st')" "r = Inl e \<Longrightarrow> aborted st st'"
    "r = Inr a \<Longrightarrow> parse_source (ce_libs ce) (source_kind_from_headers ct) src = Inr (cf_active (cl_config st')) \<and>
       host_of st' = skill_files_of (cf_active (cl_config st')) \<and> cl_warned st' = cl_warned st"
proof -
  let ?b = "2 * k + 2 * card (dom (host_of st)) + n" and ?lb = "ce_libs ce" and ?kind = "source_kind_from_headers ct"
  let ?goal = "inv n (cl_host st') \<and> (case r of
      Inl e \<Rightarrow> aborted st st'
    | Inr a \<Rightarrow> parse_source ?lb ?kind src = Inr (cf_active (cl_config st')) \<and>
        host_of st' = skill_files_of (cf_active (cl_config st')) \<and> cl_warned st' = cl_warned st)"
  have early: ?goal if "apart ?b st st'" "\<exists>e. r = Inl e"
  proof -
    have "inv n (cl_host st')" using apart_inv [OF that(1)] inv_mono by force
    then show ?thesis using aborted_apart [OF that(1)] that(2) by auto
  qed
  have ?goal
  proof (cases "parse_if_match_generation im")
    case (Inl e)
    then have "st' = st" "r = Inl e" using run by (simp_all add: apply_config_handler_def)
    then show ?thesis using early apart_refl [OF inv] by blast
  next
    case (Inr expected)
    obtain builtins st1 where b: "builtin_skill_ids ex st = (builtins, st1)" by fastforce
    have a1: "apart ?b st st1" by (rule apart_builtin [OF inv b])
    obtain p st2 where p: "on_config (prepare ?lb src ?kind builtins expected) st1 = (p, st2)" by fastforce
    have "cf_active c' = cf_active c" if "prepare ?lb src ?kind builtins expected c = (x, c')" for c x c'
      using prepare_alike [OF that] by (simp add: alike_def)
    then have a2: "apart ?b st st2" by (rule apart_trans [OF a1 apart_config [OF p _ apart_inv [OF a1]]])
    show ?thesis
    proof (cases p)
      case (Inl e)
      then have "st' = st2" "\<exists>e. r = Inl e" using run Inr b p by (auto simp: apply_config_handler_def map_err_def)
      then show ?thesis using early a2 by blast
    next
      case prepared: (Inr prep)
      let ?doc = "pa_document prep"
      obtain c' where c': "prepare ?lb src ?kind builtins expected (cl_config st1) = (Inr prep, c')"
        using p by (auto simp: prepared on_config_def split: prod.splits)
      have parse: "parse_source ?lb ?kind src = Inr ?doc" using prepare_Inr [OF c'] by simp
      have ids: "distinct (map sk_id (skills_of ?doc))" using parse_source_unique [OF parse] by (simp add: unique_ids_def)
      have same: "host_of st2 = host_of st" using a2 by (simp add: apart_def)
      have b2: "inv (2 * length (skills_of ?doc) + 2 * card (dom (host_of st2)) + n) (cl_host st2)"
        using inv_mono [OF apart_inv [OF a2]] source [OF parse] same by simp
      obtain s st3 where s: "stage_skills ex ?doc empty_reconciliation st2 = (s, st3)" by fastforce
      note staged = stage_skills_off [OF b2 ids _ s]
      have sk: "\<forall>sk \<in> set (skills_of ?doc). proper_files (sk_files sk)" using source [OF parse] by blast
      note staged = staged [OF sk, unfolded same]
      have act: "cf_active (cl_config st2) = cf_active (cl_config st)" "cl_warned st2 = cl_warned st"
        using a2 by (simp_all add: apart_def)
      show ?thesis
      proof (cases s)
        case (Inl e)
        have "st' = st3" "r = Inl e"
          using run Inr b p s by (simp_all add: apply_config_handler_def map_err_def prepared Inl)
        then show ?thesis using staged act by (auto simp: Inl stage_result_def taken_back_def aborted_def)
      next
        case staged_ok: (Inr x)
        obtain rc ops where x: "x = (rc, ops)" by (cases x)
        have st3: "staged n st2 st3 (host_of st) (skill_files_of ?doc) ops"
          using staged by (simp add: staged_ok x stage_result_def)
        obtain c st4 where c: "on_config (commit ?lb (ce_now ce) prep) st3 = (c, st4)" by fastforce
        have host4: "cl_host st4 = cl_host st3" "cl_warned st4 = cl_warned st3"
          and commit: "commit ?lb (ce_now ce) prep (cl_config st3) = (c, cl_config st4)"
          using c by (auto simp: on_config_def split: prod.splits)
        note cm = commit_active [OF commit]
        show ?thesis
        proof (cases c)
          case (Inl e)
          have st': "st' = compensate_skills ex ops st4" "\<exists>e. r = Inl e"
            using run Inr b p s c by (auto simp: apply_config_handler_def map_err_def prepared staged_ok x Inl)
          have "inv (n + length ops) (cl_host st4)" "list_all op_ok ops" "agree_off {} (host_of st4) (skill_files_of ?doc)"
            using st3 host4 by (simp_all add: staged_def add.commute)
          from compensate_off [OF this] obtain w where "inv n (cl_host st')" "cl_config st' = cl_config st4"
              "cl_warned st' = cl_warned st4 @ w" "agree_off (set w) (host_of st') (undo_ops ops (skill_files_of ?doc))"
            unfolding st'(1) by auto
          moreover have "undo_ops ops (skill_files_of ?doc) = host_of st" using st3 by (simp add: staged_def)
          ultimately show ?thesis using st'(2) st3 cm host4 act agree_off_insert
            by (auto simp: aborted_def Inl staged_def)
        next
          case committed: (Inr result)
          obtain rc' where rc': "reconcile_gateways ex ce result (rc, st4) = (rc', st')" and r: "\<exists>a. r = Inr a"
            using run Inr b p s c
            by (auto simp: apply_config_handler_def map_err_def prepared staged_ok x committed split: prod.splits)
          have "inv n (cl_host st4)" using st3 host4 inv_mono [of "length ops + n"] by (simp add: staged_def)
          from apart_reconcile [OF this, of ce result rc] have "apart n st4 st'" unfolding rc' by simp
          then show ?thesis using cm st3 host4 act r parse by (auto simp: committed apart_def staged_def)
        qed
      qed
    qed
  qed
  then show "inv n (cl_host st')" "r = Inl e \<Longrightarrow> aborted st st'"
    "r = Inr a \<Longrightarrow> parse_source ?lb ?kind src = Inr (cf_active (cl_config st')) \<and>
       host_of st' = skill_files_of (cf_active (cl_config st')) \<and> cl_warned st' = cl_warned st" by auto
qed

section \<open>Changing one skill\<close>

abbreviation doc_of :: "'h client_state \<Rightarrow> skill_map" where
  "doc_of st \<equiv> skill_files_of (cf_active (cl_config st))"

definition tidy :: "'h client_state \<Rightarrow> bool" where
  "tidy st \<longleftrightarrow> unique_ids (cf_active (cl_config st)) \<and> (\<forall>i files. doc_of st i = Some files \<longrightarrow> proper_files files)"

text \<open>Only the skill \<open>i\<close> is touched.\<close>

definition touches :: "string \<Rightarrow> nat \<Rightarrow> 'h client_state \<Rightarrow> 'h client_state \<Rightarrow> bool" where
  "touches i n st st' \<longleftrightarrow> inv n (cl_host st') \<and> tidy st' \<and> (\<forall>j. j \<noteq> i \<longrightarrow> host_of st' j = host_of st j \<and> doc_of st' j = doc_of st j)"

lemma touches_refl: "tidy st \<Longrightarrow> inv n (cl_host st) \<Longrightarrow> touches i n st st"
  by (simp add: touches_def)

lemma touches_trans: "touches i n st st1 \<Longrightarrow> touches i m st1 st2 \<Longrightarrow> touches i m st st2"
  by (simp add: touches_def)

lemma touches_mono: "touches i n st st' \<Longrightarrow> m \<le> n \<Longrightarrow> touches i m st st'"
  by (auto simp: touches_def intro: inv_mono)

lemma touchesD: "touches i n st st' \<Longrightarrow> inv n (cl_host st') \<and> tidy st'"
  by (simp add: touches_def)

lemma touches_apart: "apart n st st' \<Longrightarrow> tidy st \<Longrightarrow> touches i n st st'"
  by (simp add: touches_def apart_def tidy_def)

lemma touches_write:
  assumes "writes call i x" "inv (Suc n) (cl_host st)" "tidy st" "on_host call st = (r, st')"
  shows "touches i n st st'"
  using on_host_writes [OF assms(1,2,4)] assms(3) by (auto simp: touches_def tidy_def)

lemma touches_ignore: "writes call i x \<Longrightarrow> inv (Suc n) (cl_host st) \<Longrightarrow> tidy st \<Longrightarrow> touches i n st (ignore_host call st)"
  unfolding ignore_host_def by (rule touches_write [OF _ _ _ prod.collapse [symmetric]])

lemma touches_upsert:
  assumes "on_config (upsert_skill lb now i files) st = (r, st')" "tidy st" "proper_files files" "inv n (cl_host st)"
  shows "touches i n st st'" "host_of st' = host_of st" "r = Inl e \<Longrightarrow> doc_of st' = doc_of st"
    "r = Inr x \<Longrightarrow> doc_of st' = (doc_of st)(i \<mapsto> files)"
proof -
  have c: "upsert_skill lb now i files (cl_config st) = (r, cl_config st')" and h: "cl_host st' = cl_host st"
    using assms(1) by (auto simp: on_config_def split: prod.splits)
  note u = upsert_skill_skills [OF c]
  have t: "unique_ids (cf_active (cl_config st))" using assms(2) by (simp add: tidy_def)
  show "host_of st' = host_of st" "r = Inl e \<Longrightarrow> doc_of st' = doc_of st"
    "r = Inr x \<Longrightarrow> doc_of st' = (doc_of st)(i \<mapsto> files)" using u(2,3) [OF t] h by simp_all
  show "touches i n st st'"
    using u [OF t] h assms(2-4) by (cases r) (auto simp: touches_def tidy_def split: if_splits)
qed

lemma touches_restore:
  assumes "\<And>files. previous = Some files \<Longrightarrow> proper_files files" "inv (Suc n) (cl_host st)" "tidy st"
  shows "touches i n st (restore_previous ex i previous st)"
proof (cases previous)
  case None
  then show ?thesis using touches_refl [OF assms(3) inv_less [OF assms(2)]] by (simp add: restore_previous_def)
next
  case (Some files)
  show ?thesis using touches_ignore [OF writes_calls(2) [OF assms(1) [OF Some]] assms(2,3)]
    by (simp add: restore_previous_def Some)
qed

lemma apart_creator:
  assumes "require_creator ce creator st = (r, st')" "inv n (cl_host st)"
  shows "apart n st st'"
proof (cases creator)
  case (Some a)
  obtain q st1 where q: "on_config (get_agent (ce_now ce) a) st = (q, st1)" by fastforce
  have a1: "apart n st st1" by (rule apart_config [OF q get_agent_active assms(2)])
  have "st' = st \<or> st' = st1"
    using assms(1) q Some
    by (cases "validate_agent_id a"; cases q)
      (auto simp: require_creator_def require_agent_def on_store_def map_err_def res_map_err_def try_io_def split: sum.splits)
  then show ?thesis using a1 apart_refl [OF assms(2)] by auto
qed (use assms in \<open>simp add: require_creator_def apart_refl\<close>)

lemma host_or_fail_cases:
  assumes "host_or_fail call st = (r, st')"
  obtains e e' where "on_host call st = (Inl e, st')" "r = Inl e'" | x where "on_host call st = (Inr x, st')" "r = Inr x"
  using assms by (auto simp: host_or_fail_def map_err_def split: prod.splits sum.splits)

text \<open>The two sides agree on a skill after a change that is answered.\<close>

definition settled :: "string \<Rightarrow> 'h client_state \<Rightarrow> bool" where
  "settled i st \<longleftrightarrow> host_of st i = doc_of st i"

lemma valid_id_cases:
  assumes "try_io (valid_skill_id i st) f = (r, st')"
  obtains e where "r = Inl e" "st' = st" | "f () st = (r, st')"
  using assms by (cases "validate_skill_id i") (auto simp: valid_skill_id_def res_map_err_def)

lemma update_off:
  assumes "inv (Suc (Suc n)) (cl_host st)" "tidy st" "proper_files files" "update_skill_handler ex ce i files st = (r, st')"
  shows "touches i n st st' \<and> (\<forall>x. r = Inr x \<longrightarrow> settled i st')"
proof -
  have same: "touches i n st st" using touches_refl [OF assms(2)] inv_mono [OF assms(1)] by simp
  let ?previous = "map_option sk_files (get_skill i (cl_config st))"
  from assms(4) [unfolded update_skill_handler_def] show ?thesis
  proof (cases rule: valid_id_cases)
    case 2
    obtain h st1 where h: "host_or_fail (ah_update_skill ex i files) st = (h, st1)" by fastforce
    then show ?thesis
    proof (cases rule: host_or_fail_cases)
      case (1 e e')
      have "touches i n st st1" using touches_mono [OF touches_write [OF writes_calls(2) [OF assms(3)] assms(1,2) 1(1)]] by simp
      then show ?thesis using 2 h 1 by (auto simp: Let_def)
    next
      case (2 sk)
      note t1 = touches_write [OF writes_calls(2) [OF assms(3)] assms(1,2) 2(1)]
      have host: "host_of st1 = (host_of st)(i \<mapsto> files)" using on_host_writes(4) [OF writes_calls(2) [OF assms(3)] assms(1) 2(1)] by simp
      obtain c st2 where c: "on_config (upsert_skill (ce_libs ce) (ce_now ce) i files) st1 = (c, st2)" by fastforce
      note u = touches_upsert [OF c conjunct2 [OF touchesD [OF t1]] assms(3) conjunct1 [OF touchesD [OF t1]]]
      have t2: "touches i (Suc n) st st2" by (rule touches_trans [OF t1 u(1)])
      show ?thesis
      proof (cases c)
        case (Inl e)
        have st': "st' = restore_previous ex i ?previous st2" "\<exists>e. r = Inl e"
          using \<open>(let _ = _ in _) = (r, st')\<close> h 2(2) c by (auto simp: Inl Let_def)
        have "proper_files fs" if "?previous = Some fs" for fs
          using that assms(2) by (simp add: tidy_def skill_files_get)
        from touches_restore [OF this conjunct1 [OF touchesD [OF t2]] conjunct2 [OF touchesD [OF t2]]]
        show ?thesis using touches_trans [OF t2] st' by auto
      next
        case (Inr x)
        have "st' = st2" using \<open>(let _ = _ in _) = (r, st')\<close> h 2(2) c by (auto simp: Inr Let_def)
        then show ?thesis using touches_mono [OF t2] u(2) u(4) [OF Inr] host by (simp add: settled_def)
      qed
    qed
  qed (use same in auto)
qed

lemma create_off:
  assumes "inv (Suc (Suc n)) (cl_host st)" "tidy st" "proper_files files" "create_skill_handler ex ce i files creator st = (r, st')"
  shows "touches i n st st' \<and> (\<forall>x. r = Inr x \<longrightarrow> settled i st')"
proof -
  have early: ?thesis if "apart (Suc (Suc n)) st st'" "\<exists>e. r = Inl e"
    using touches_mono [OF touches_apart [OF that(1) assms(2)], of n] that(2) by auto
  from assms(4) [unfolded create_skill_handler_def Let_def] show ?thesis
  proof (cases rule: valid_id_cases)
    case (1 e)
    then show ?thesis using early apart_refl [OF assms(1)] by blast
  next
    case body: 2
    obtain bs st1 where b: "builtin_skill_ids ex st = (bs, st1)" by fastforce
    have a1: "apart (Suc (Suc n)) st st1" by (rule apart_builtin [OF assms(1) b])
    show ?thesis
    proof (cases "i \<in> set bs")
      case True
      then have "st' = st1" "\<exists>e. r = Inl e" using body b by auto
      then show ?thesis using early a1 by blast
    next
      case False
      obtain q st2 where q: "require_creator ce creator st1 = (q, st2)" by fastforce
      have a2: "apart (Suc (Suc n)) st st2" by (rule apart_trans [OF a1 apart_creator [OF q apart_inv [OF a1]]])
      show ?thesis
      proof (cases q)
        case (Inl e)
        then have "st' = st2" "\<exists>e. r = Inl e" using body b q False by auto
        then show ?thesis using early a2 by blast
      next
        case (Inr u)
        have t2: "touches i (Suc (Suc n)) st st2" by (rule touches_apart [OF a2 assms(2)])
        note d2 = touchesD [OF t2]
        obtain h st3 where h: "host_or_fail (ah_create_skill ex i files) st2 = (h, st3)" by fastforce
        then show ?thesis
        proof (cases rule: host_or_fail_cases)
          case (1 e e')
          note t3 = touches_write [OF writes_calls(1) [OF assms(3)] conjunct1 [OF d2] conjunct2 [OF d2] 1(1)]
          have "st' = st3" "\<exists>e. r = Inl e" using body b q Inr False h 1 by auto
          then show ?thesis using touches_mono [OF touches_trans [OF t2 t3], of n] by auto
        next
          case (2 sk)
          note t3 = touches_trans [OF t2 touches_write [OF writes_calls(1) [OF assms(3)] conjunct1 [OF d2] conjunct2 [OF d2] 2(1)]]
          note d3 = touchesD [OF t3]
          have host: "host_of st3 i = Some files"
            using on_host_writes(4) [OF writes_calls(1) [OF assms(3)] conjunct1 [OF d2] 2(1)] by simp
          obtain c st4 where c: "on_config (upsert_skill (ce_libs ce) (ce_now ce) i files) st3 = (c, st4)" by fastforce
          note up = touches_upsert [OF c conjunct2 [OF d3] assms(3) conjunct1 [OF d3]]
          have t4: "touches i (Suc n) st st4" by (rule touches_trans [OF t3 up(1)])
          note d4 = touchesD [OF t4]
          show ?thesis
          proof (cases c)
            case c': (Inl e)
            have st': "st' = ignore_host (ah_delete_skill ex i) st4" "\<exists>e. r = Inl e"
              using body b q Inr False h 2(2) c by (auto simp: c')
            show ?thesis
              using touches_trans [OF t4 touches_ignore [OF writes_calls(3) conjunct1 [OF d4] conjunct2 [OF d4]]] st' by auto
          next
            case c': (Inr x)
            have s4: "settled i st4" using up(2) up(4) [OF c'] host by (simp add: settled_def)
            show ?thesis
            proof (cases creator)
              case None
              then have "st' = st4" using body b q Inr False h 2(2) c by (auto simp: c')
              then show ?thesis using touches_mono [OF t4] s4 by simp
            next
              case (Some a)
              obtain k st5 where k: "on_config (add_agent_skill (ce_libs ce) (ce_now ce) a i) st4 = (k, st5)" by fastforce
              have k': "add_agent_skill (ce_libs ce) (ce_now ce) a i (cl_config st4) = (k, cl_config st5)" "cl_host st5 = cl_host st4"
                using k by (auto simp: on_config_def split: prod.splits)
              have "unique_ids (cf_active (cl_config st4))" using d4 by (simp add: tidy_def)
              note same = add_agent_skill_skills [OF k'(1) this]
              have "st' = st5" using body b q Inr False h 2(2) c k Some
                by (cases k) (auto simp: c' on_store_def map_err_def)
              then show ?thesis using touches_mono [OF t4, of n] s4 same k'(2)
                by (auto simp: touches_def settled_def tidy_def)
            qed
          qed
        qed
      qed
    qed
  qed
qed

lemma delete_off:
  assumes "inv (Suc (Suc n)) (cl_host st)" "tidy st" "delete_skill_handler ex ce i st = (r, st')"
  shows "touches i n st st' \<and> (\<forall>x. r = Inr x \<longrightarrow> settled i st')"
proof -
  have same: "touches i n st st" using touches_refl [OF assms(2)] inv_mono [OF assms(1)] by simp
  let ?previous = "map_option sk_files (get_skill i (cl_config st))"
  from assms(3) [unfolded delete_skill_handler_def] show ?thesis
  proof (cases rule: valid_id_cases)
    case body: 2
    show ?thesis
    proof (cases "agent_referencing_skill i (cl_config st)")
      case (Some a)
      then show ?thesis using body same by auto
    next
      case None
      obtain h st1 where h: "host_or_fail (ah_delete_skill ex i) st = (h, st1)" by fastforce
      then show ?thesis
      proof (cases rule: host_or_fail_cases)
        case (1 e e')
        have "touches i n st st1" using touches_mono [OF touches_write [OF writes_calls(3) assms(1,2) 1(1)]] by simp
        then show ?thesis using body None h 1 by (auto simp: Let_def)
      next
        case (2 sk)
        note t1 = touches_write [OF writes_calls(3) assms(1,2) 2(1)]
        note d1 = touchesD [OF t1]
        have host: "host_of st1 i = None" using on_host_writes(4) [OF writes_calls(3) assms(1) 2(1)] by simp
        obtain c st2 where c: "on_config (delete_skill (ce_libs ce) (ce_now ce) i) st1 = (c, st2)" by fastforce
        have c1: "delete_skill (ce_libs ce) (ce_now ce) i (cl_config st1) = (c, cl_config st2)" and h2: "cl_host st2 = cl_host st1"
          using c by (auto simp: on_config_def split: prod.splits)
        have "unique_ids (cf_active (cl_config st1))" using d1 by (simp add: tidy_def)
        note del = delete_skill_skills [OF c1 this]
        have "touches i (Suc n) st1 st2"
          using d1 del h2 by (cases c) (auto simp: touches_def tidy_def split: if_splits)
        then have t2: "touches i (Suc n) st st2" by (rule touches_trans [OF t1])
        note d2 = touchesD [OF t2]
        show ?thesis
        proof (cases c)
          case (Inl e)
          have st': "st' = (case ?previous of None \<Rightarrow> st2 | Some files \<Rightarrow> ignore_host (ah_create_skill ex i files) st2)"
              "\<exists>e. r = Inl e"
            using body None h 2(2) c by (auto simp: Inl Let_def)
          show ?thesis
          proof (cases ?previous)
            case None
            then show ?thesis using st' touches_mono [OF t2] by auto
          next
            case (Some fs)
            then have "proper_files fs" using assms(2) by (simp add: tidy_def skill_files_get)
            from touches_ignore [OF writes_calls(1) [OF this] conjunct1 [OF d2] conjunct2 [OF d2]]
            show ?thesis using touches_trans [OF t2] st' Some by auto
          qed
        next
          case (Inr x)
          have "st' = st2" using body None h 2(2) c by (auto simp: Inr Let_def)
          then show ?thesis using touches_mono [OF t2] del(3) [OF Inr] host h2 by (simp add: settled_def)
        qed
      qed
    qed
  qed (use same in auto)
qed

lemma rollback_off:
  assumes "inv (Suc (Suc n)) (cl_host st)" "tidy st" "rollback_skill_handler ex ce i v st = (r, st')"
  shows "touches i n st st' \<and> (\<forall>x. r = Inr x \<longrightarrow> settled i st \<longrightarrow> settled i st')"
proof -
  have same: "touches i n st st" using touches_refl [OF assms(2)] inv_mono [OF assms(1)] by simp
  let ?previous = "map_option sk_files (get_skill i (cl_config st))"
  from assms(3) [unfolded rollback_skill_handler_def] show ?thesis
  proof (cases rule: valid_id_cases)
    case body: 2
    obtain h st1 where h: "host_or_fail (ah_rollback_skill ex i v) st = (h, st1)" by fastforce
    obtain q where q: "on_host (ah_rollback_skill ex i v) st = (q, st1)"
      using h by (auto simp: host_or_fail_def map_err_def split: prod.splits sum.splits)
    then have call: "ah_rollback_skill ex i v (cl_host st) = (q, cl_host st1)" and conf: "cl_config st1 = cl_config st"
      by (auto simp: on_host_def split: prod.splits)
    note law = rolling_back [OF assms(1) call]
    have t1: "touches i (Suc n) st st1" using law assms(2) conf by (auto simp: touches_def tidy_def)
    note d1 = touchesD [OF t1]
    from h show ?thesis
    proof (cases rule: host_or_fail_cases)
      case (1 e e')
      then show ?thesis using body h touches_mono [OF t1] by (auto simp: Let_def)
    next
      case (2 sk)
      then have "q = Inr sk" using q by simp
      then obtain files where files: "host_of st i \<noteq> None" "host_of st1 = (host_of st)(i \<mapsto> files)"
          "map_of sk ''files'' = Some (strings_json files)"
        using law by auto
      have proper: "proper_files files" using users_proper [OF conjunct1 [OF d1], of i files] files(2) by simp
      have read: "skill_files_from_object sk = files"
        using text_members_strings [OF proper_filesD(2) [OF proper]] files(3) by (simp add: skill_files_from_object_def strings_json_def)
      show ?thesis
      proof (cases ?previous)
        case None
        then have "st' = st1" using body h 2(2) by (auto simp: Let_def)
        moreover have "\<not> settled i st" using None files(1) by (auto simp: settled_def skill_files_get)
        ultimately show ?thesis using touches_mono [OF t1] by simp
      next
        case (Some fs)
        obtain c st2 where c: "on_config (upsert_skill (ce_libs ce) (ce_now ce) i files) st1 = (c, st2)" by fastforce
        note up = touches_upsert [OF c conjunct2 [OF d1] proper conjunct1 [OF d1]]
        have t2: "touches i (Suc n) st st2" by (rule touches_trans [OF t1 up(1)])
        note d2 = touchesD [OF t2]
        show ?thesis
        proof (cases c)
          case (Inl e)
          have st': "st' = restore_previous ex i ?previous st2" "\<exists>e. r = Inl e"
            using body h 2(2) c Some by (auto simp: Inl Let_def read)
          have "proper_files fs'" if "?previous = Some fs'" for fs'
            using that assms(2) by (simp add: tidy_def skill_files_get)
          from touches_restore [OF this conjunct1 [OF d2] conjunct2 [OF d2]]
          show ?thesis using touches_trans [OF t2] st' by auto
        next
          case (Inr x)
          have "st' = st2" using body h 2(2) c Some by (auto simp: Inr Let_def read)
          then show ?thesis using touches_mono [OF t2] up(2) up(4) [OF Inr] files(2) by (simp add: settled_def)
        qed
      qed
    qed
  qed (use same in auto)
qed

lemma without_value_off:
  "without_value f st = (r, st') \<Longrightarrow> \<exists>q. f st = (q, st') \<and> (r = Inr u \<longrightarrow> (\<exists>x. q = Inr x))"
  by (cases "f st"; cases "fst (f st)") (auto simp: without_value_def)

lemma change_off:
  assumes "inv (Suc (Suc n)) (cl_host st)" "tidy st" "change_ok ch" "change_skill ex ce ch st = (r, st')"
  shows "touches (changed_id ch) n st st'" "r = Inr () \<Longrightarrow> settled (changed_id ch) st \<Longrightarrow> settled (changed_id ch) st'"
proof -
  have "touches (changed_id ch) n st st' \<and> (r = Inr () \<longrightarrow> settled (changed_id ch) st \<longrightarrow> settled (changed_id ch) st')"
  proof (cases ch)
    case (CreateSkill i files creator)
    obtain q where "create_skill_handler ex ce i files creator st = (q, st')" "r = Inr () \<longrightarrow> (\<exists>x. q = Inr x)"
      using assms(4) without_value_off by (fastforce simp: CreateSkill)
    then show ?thesis using create_off [OF assms(1,2)] assms(3) by (auto simp: CreateSkill)
  next
    case (UpdateSkill i files)
    obtain q where "update_skill_handler ex ce i files st = (q, st')" "r = Inr () \<longrightarrow> (\<exists>x. q = Inr x)"
      using assms(4) without_value_off by (fastforce simp: UpdateSkill)
    then show ?thesis using update_off [OF assms(1,2)] assms(3) by (auto simp: UpdateSkill)
  next
    case (RollbackSkill i v)
    obtain q where "rollback_skill_handler ex ce i v st = (q, st')" "r = Inr () \<longrightarrow> (\<exists>x. q = Inr x)"
      using assms(4) without_value_off by (fastforce simp: RollbackSkill)
    then show ?thesis using rollback_off [OF assms(1,2)] by (auto simp: RollbackSkill)
  next
    case (DeleteSkill i)
    then show ?thesis using delete_off [OF assms(1,2)] assms(4) by auto
  qed
  then show "touches (changed_id ch) n st st'"
    "r = Inr () \<Longrightarrow> settled (changed_id ch) st \<Longrightarrow> settled (changed_id ch) st'" by auto
qed

text \<open>After any sequence of changes the two sides differ at most at skills whose change failed.\<close>

lemma changes_off:
  assumes "inv (2 * length chs + n) (cl_host st)" "tidy st" "list_all change_ok chs" "agree_off d (host_of st) (doc_of st)"
    and "change_skills ex ce chs st = (rs, st')"
  shows "inv n (cl_host st') \<and> tidy st' \<and> agree_off (d \<union> failed_ids rs) (host_of st') (doc_of st')"
  using assms
proof (induction chs arbitrary: st d rs)
  case Nil
  then show ?case by (simp add: failed_ids_def)
next
  case (Cons ch chs)
  let ?i = "changed_id ch"
  obtain r st1 where r: "change_skill ex ce ch st = (r, st1)" by fastforce
  obtain rs' where rs': "change_skills ex ce chs st1 = (rs', st')" "rs = (ch, r) # rs'"
    using Cons.prems(5) r by (auto split: prod.splits)
  have b: "inv (Suc (Suc (2 * length chs + n))) (cl_host st)" using Cons.prems(1) by simp
  have ok: "change_ok ch" "list_all change_ok chs" using Cons.prems(3) by simp_all
  note one = change_off [OF b Cons.prems(2) ok(1) r]
  let ?d = "d \<union> (if \<exists>e. r = Inl e then {?i} else {})"
  have "agree_off ?d (host_of st1) (doc_of st1)"
  proof (cases r)
    case (Inl e)
    then show ?thesis using one(1) Cons.prems(4) by (auto simp: touches_def agree_off_def)
  next
    case (Inr u)
    show ?thesis unfolding agree_off_def
    proof (intro allI impI)
      fix j assume j: "j \<notin> ?d"
      show "host_of st1 j = doc_of st1 j"
      proof (cases "j = ?i")
        case True
        then have "settled ?i st" using Cons.prems(4) j by (auto simp: settled_def agree_off_def)
        then show ?thesis using one(2) True by (simp add: Inr settled_def)
      next
        case False
        then show ?thesis using one(1) Cons.prems(4) j by (simp add: touches_def agree_off_def)
      qed
    qed
  qed
  from Cons.IH [OF conjunct1 [OF touchesD [OF one(1)]] conjunct2 [OF touchesD [OF one(1)]] ok(2) this rs'(1)]
  show ?case by (cases r) (auto simp: rs'(2) failed_ids_def elim!: agree_off_mono)
qed

end

section \<open>A host that answers\<close>

locale answering_host = skill_host +
  fixes calm :: "'a \<Rightarrow> bool" and writable :: "string \<Rightarrow> bool"
  assumes list_answers: "inv n h \<Longrightarrow> calm h \<Longrightarrow> \<exists>mss h'. ah_list_skills ex h = (Inr mss, h') \<and> calm h'"
    and get_answers: "inv n h \<Longrightarrow> calm h \<Longrightarrow> users h i \<noteq> None \<Longrightarrow> \<exists>ms h'. ah_get_skill ex i h = (Inr ms, h') \<and> calm h'"
    and create_answers: "inv (Suc n) h \<Longrightarrow> calm h \<Longrightarrow> users h i = None \<Longrightarrow> writable i \<Longrightarrow> proper_files files \<Longrightarrow>
      \<exists>ms h'. ah_create_skill ex i files h = (Inr ms, h') \<and> calm h'"
    and update_answers: "inv (Suc n) h \<Longrightarrow> calm h \<Longrightarrow> users h i \<noteq> None \<Longrightarrow> proper_files files \<Longrightarrow>
      \<exists>ms h'. ah_update_skill ex i files h = (Inr ms, h') \<and> calm h'"
    and delete_answers: "inv n h \<Longrightarrow> calm h \<Longrightarrow> users h i \<noteq> None \<Longrightarrow> \<exists>u h'. ah_delete_skill ex i h = (Inr u, h') \<and> calm h'"
begin

lemma on_host_answers:
  "\<exists>x h'. call (cl_host st) = (Inr x, h') \<and> calm h' \<Longrightarrow> \<exists>x st'. on_host call st = (Inr x, st') \<and> calm (cl_host st')"
  by (auto simp: on_host_def)

lemma fetch_answers:
  assumes "inv n (cl_host st)" "calm (cl_host st)" "set is \<subseteq> dom (host_of st)"
  shows "\<exists>m st'. fetch_user_skills ex is user st = (Inr m, st') \<and> calm (cl_host st')"
  using assms
proof (induction "is" arbitrary: st user)
  case (Cons i "is")
  obtain files where files: "host_of st i = Some files" using Cons.prems(3) by auto
  obtain ms st1 where g: "on_host (ah_get_skill ex i) st = (Inr ms, st1)" "calm (cl_host st1)"
    using on_host_answers [of "ah_get_skill ex i" st] get_answers [OF Cons.prems(1,2)] files by blast
  note f = host_fetching [OF Cons.prems(1) g(1)]
  have "set is \<subseteq> dom (host_of st1)" using Cons.prems(3) f(2) by simp
  from Cons.IH [OF f(1) g(2) this] show ?case using f(5) [OF refl files] g(1) by (simp add: strings_json_def)
qed simp

lemma user_skills_answers:
  assumes "inv n (cl_host st)" "calm (cl_host st)"
  shows "\<exists>m st'. agent_host_user_skills ex st = (Inr m, st') \<and> calm (cl_host st')"
proof -
  obtain mss st1 where l: "on_host (ah_list_skills ex) st = (Inr mss, st1)" "calm (cl_host st1)"
    using on_host_answers [of "ah_list_skills ex" st] list_answers [OF assms] by blast
  note f = host_listing [OF assms(1) l(1)]
  have "set (user_ids_of mss) \<subseteq> dom (host_of st1)" using f(2) f(3) [OF refl] by simp
  from fetch_answers [OF f(1) l(2) this] show ?thesis by (simp add: agent_host_user_skills_def l(1))
qed

lemma stage_one_answers:
  assumes "inv (Suc n) (cl_host st)" "calm (cl_host st)" "proper_files (sk_files k)" "writable (sk_id k)"
    and "map_of user (sk_id k) = host_of st (sk_id k)"
  shows "\<exists>x st'. stage_one ex user k st = (Inr x, st') \<and> calm (cl_host st')"
proof (cases "host_of st (sk_id k)")
  case None
  obtain x st1 where c: "on_host (ah_create_skill ex (sk_id k) (sk_files k)) st = (Inr x, st1)" "calm (cl_host st1)"
    using on_host_answers [of "ah_create_skill ex (sk_id k) (sk_files k)" st] create_answers [OF assms(1,2) None assms(4,3)] by blast
  then show ?thesis using None assms(5) by (simp add: stage_one_def)
next
  case (Some files)
  obtain x st1 where c: "on_host (ah_update_skill ex (sk_id k) (sk_files k)) st = (Inr x, st1)" "calm (cl_host st1)"
    using on_host_answers [of "ah_update_skill ex (sk_id k) (sk_files k)" st] update_answers [OF assms(1,2) _ assms(3)] Some by blast
  then show ?thesis using Some assms(2,5) by (simp add: stage_one_def)
qed

lemma stage_declared_answers:
  assumes "distinct (map sk_id sks)"
    "\<forall>k \<in> set sks. proper_files (sk_files k) \<and> writable (sk_id k) \<and> map_of user (sk_id k) = host_of st (sk_id k)"
    and "inv (length sks + n) (cl_host st)" "calm (cl_host st)"
  shows "\<exists>ops st'. stage_declared ex user sks performed st = (Inr ops, st') \<and> calm (cl_host st')"
  using assms
proof (induction sks arbitrary: st performed)
  case (Cons k sks)
  have b: "inv (Suc (length sks + n)) (cl_host st)" using Cons.prems(3) by simp
  have k: "proper_files (sk_files k)" "writable (sk_id k)" "map_of user (sk_id k) = host_of st (sk_id k)"
    using Cons.prems(2) by simp_all
  obtain x st1 where s: "stage_one ex user k st = (Inr x, st1)" "calm (cl_host st1)"
    using stage_one_answers [OF b Cons.prems(4) k] by blast
  note one = stage_one_off [OF b k(1,3) s(1)]
  have off: "host_of st1 j = host_of st j" if "j \<noteq> sk_id k" for j
    using one(4,5) that by (cases x) auto
  have m: "\<forall>k \<in> set sks. proper_files (sk_files k) \<and> writable (sk_id k) \<and> map_of user (sk_id k) = host_of st1 (sk_id k)"
  proof
    fix k' assume k': "k' \<in> set sks"
    then have "sk_id k' \<noteq> sk_id k" using Cons.prems(1) by (metis distinct.simps(2) image_eqI list.map(2) set_map)
    then show "proper_files (sk_files k') \<and> writable (sk_id k') \<and> map_of user (sk_id k') = host_of st1 (sk_id k')"
      using Cons.prems(2) off k' by simp
  qed
  have d: "distinct (map sk_id sks)" using Cons.prems(1) by simp
  show ?case using Cons.IH [OF d m one(1) s(2)] s(1) by (cases x) simp_all
qed simp

lemma stage_removed_answers:
  assumes "distinct (map fst es)" "\<forall>(i, files) \<in> set es. i \<notin> set desired \<longrightarrow> host_of st i = Some files"
    and "inv (length es + n) (cl_host st)" "calm (cl_host st)"
  shows "\<exists>ops st'. stage_removed ex desired es performed st = (Inr ops, st') \<and> calm (cl_host st')"
  using assms
proof (induction es arbitrary: st performed)
  case (Cons e es)
  obtain i files where e: "e = (i, files)" by (cases e)
  have rest: "distinct (map fst es)" and new: "i \<notin> fst ` set es" using Cons.prems(1) by (auto simp: e)
  have b: "inv (Suc (length es + n)) (cl_host st)" using Cons.prems(3) by simp
  show ?case
  proof (cases "i \<in> set desired")
    case True
    have m: "\<forall>(i, files) \<in> set es. i \<notin> set desired \<longrightarrow> host_of st i = Some files" using Cons.prems(2) by auto
    show ?thesis using Cons.IH [OF rest m inv_less [OF b] Cons.prems(4)] True by (simp add: e)
  next
    case False
    then have files: "host_of st i = Some files" using Cons.prems(2) by (auto simp: e)
    obtain x st1 where c: "on_host (ah_delete_skill ex i) st = (Inr x, st1)" "calm (cl_host st1)"
      using on_host_answers [of "ah_delete_skill ex i" st] delete_answers [OF b Cons.prems(4)] files by blast
    note w = on_host_writes [OF writes_calls(3) b c(1)]
    have m: "\<forall>(j, fs) \<in> set es. j \<notin> set desired \<longrightarrow> host_of st1 j = Some fs"
    proof (clarify)
      fix j fs assume j: "(j, fs) \<in> set es" "j \<notin> set desired"
      then have "j \<noteq> i" using new by force
      then show "host_of st1 j = Some fs" using Cons.prems(2) j w(4) by auto
    qed
    show ?thesis using Cons.IH [OF rest m w(1) c(2)] c(1) False by (simp add: e)
  qed
qed simp

lemma stage_against_answers:
  assumes "distinct (map sk_id sks)" "\<forall>k \<in> set sks. proper_files (sk_files k) \<and> writable (sk_id k)"
    and "btree_ok user" "map_of user = host_of st" "calm (cl_host st)"
    and "inv (2 * length sks + 2 * length user + n) (cl_host st)"
  shows "\<exists>ops st'. stage_against ex user sks st = (Inr ops, st') \<and> calm (cl_host st')"
proof -
  have m: "\<forall>k \<in> set sks. proper_files (sk_files k) \<and> writable (sk_id k) \<and> map_of user (sk_id k) = host_of st (sk_id k)"
    using assms(2,4) by simp
  have b: "inv (length sks + (length sks + 2 * length user + n)) (cl_host st)" using inv_mono [OF assms(6)] by simp
  obtain ops st1 where s: "stage_declared ex user sks [] st = (Inr ops, st1)" "calm (cl_host st1)"
    using stage_declared_answers [OF assms(1) m b assms(5)] by blast
  have m': "\<forall>k \<in> set sks. proper_files (sk_files k) \<and> map_of user (sk_id k) = host_of st (sk_id k)" using m by blast
  have b': "inv (2 * length sks + length ([] :: staged_skill_op list) + (2 * length user + n)) (cl_host st)"
    using assms(6) by (simp add: add.assoc)
  have s1: "staged (2 * length user + n) st st1 (host_of st) (host_of st ++ file_map sks) ops"
    using stage_declared_off [OF assms(1) m' _ b' s(1)] by (simp add: stage_result_def)
  have there: "\<forall>(i, files) \<in> set user. i \<notin> set (map sk_id sks) \<longrightarrow> host_of st1 i = Some files"
  proof (clarify)
    fix i files assume "(i, files) \<in> set user" and new: "i \<notin> set (map sk_id sks)"
    then have "host_of st i = Some files" using btree_ok_distinct [OF assms(3)] assms(4) by (metis map_of_eq_Some_iff)
    moreover have "file_map sks i = None" using new by (simp add: map_of_eq_None_iff image_image)
    ultimately show "host_of st1 i = Some files" using s1 by (simp add: staged_def map_add_def)
  qed
  have b1: "inv (length user + n) (cl_host st1)" using s1 inv_mono [of "length ops + (2 * length user + n)"] by (simp add: staged_def)
  show ?thesis using stage_removed_answers [OF btree_ok_distinct [OF assms(3)] there b1 s(2)] s(1) by (simp add: stage_against_def)
qed

text \<open>The reconciliation at start makes the host what the document says.\<close>

lemma startup_off:
  assumes "inv (2 * length (skills_of (cf_active (cl_config st))) + 2 * card (dom (host_of st)) + n) (cl_host st)"
    and "calm (cl_host st)" "unique_ids (cf_active (cl_config st))"
    and "\<forall>k \<in> set (skills_of (cf_active (cl_config st))). proper_files (sk_files k) \<and> writable (sk_id k)"
  shows "host_of (reconcile_skills_locked ex st) = skill_files_of (cf_active (cl_config st)) \<and>
    cl_config (reconcile_skills_locked ex st) = cl_config st \<and> inv n (cl_host (reconcile_skills_locked ex st))"
proof -
  let ?ks = "skills_of (cf_active (cl_config st))"
  obtain m st1 where m: "agent_host_user_skills ex st = (Inr m, st1)" "calm (cl_host st1)"
    using user_skills_answers [OF assms(1,2)] by blast
  note off = user_skills_off [OF assms(1) m(1)]
  have mm: "btree_ok m" "map_of m = host_of st1" "host_of st1 = host_of st" using off by auto
  have b: "inv (2 * length ?ks + 2 * length m + n) (cl_host st1)" using off length_user_skills [OF mm(1,2)] mm(3) by simp
  have ids: "distinct (map sk_id ?ks)" using assms(3) by (simp add: unique_ids_def)
  have p: "\<forall>k \<in> set ?ks. proper_files (sk_files k)" using assms(4) by blast
  obtain ops st2 where s: "stage_against ex m ?ks st1 = (Inr ops, st2)"
    using stage_against_answers [OF ids assms(4) mm(1,2) m(2) b] by blast
  have "staged n st1 st2 (host_of st1) (skill_files_of (cf_active (cl_config st))) ops"
    using stage_against_off [OF ids p mm(1,2) b s] by (simp add: stage_result_def skill_files_of_def)
  moreover have "inv n (cl_host st2)" if "inv (length ops + n) (cl_host st2)" using inv_mono [OF that] by simp
  ultimately show ?thesis using off s m(1)
    by (auto simp: reconcile_skills_locked_def agent_host_user_skills_with_retries_def GATEWAY_AUTOSTART_ATTEMPTS_def
        eval_nat_numeral staged_def Let_def)
qed

end

end
