(* ===== verification/Host_Api.thy ===== *)
theory Host_Api
  imports Agent_Client Host_Skills
begin

text \<open>
  The skill routes of the agent host (the second half of \<^verbatim>\<open>agent_host_rs/src/skills.rs\<close>), and the agent host as
  the other side of the client's transport: an \<open>exchange\<close> that answers from the skill store, over a network that
  loses requests and replies.

  The host is used by this client alone, so requests are handled one after another.  What is behind the routes that
  are not about skills is an argument.
\<close>

section \<open>Bodies\<close>

definition host_skill_json :: "host_skill \<Rightarrow> json" where
  "host_skill_json k = JObj [(''skill_id'', JStr (hs_skill_id k)), (''files'', strings_json (hs_files k)),
     (''source'', JStr (skill_source_str (hs_source k)))]"

definition skill_summary_json :: "skill_summary \<Rightarrow> json" where
  "skill_summary_json k = JObj [(''skill_id'', JStr (ss_skill_id k)), (''source'', JStr (skill_source_str (ss_source k))),
     (''file_count'', JNum (int (ss_file_count k)))]"

definition version_summary_json :: "skill_version_summary \<Rightarrow> json" where
  "version_summary_json k = JObj [(''skill_id'', JStr (svs_skill_id k)), (''version'', JNum (uint (svs_version k))),
     (''created_at'', JStr (svs_created_at k)), (''file_count'', JNum (int (svs_file_count k)))]"

fun string_members :: "json_object \<Rightarrow> (string \<times> string) list option" where
  "string_members [] = Some []"
| "string_members ((k, j) # ms) =
     (case j of JStr v \<Rightarrow> map_option (Cons (k, v)) (string_members ms) | _ \<Rightarrow> None)"

definition files_of_json :: "json \<Rightarrow> string btree option" where
  "files_of_json j = (case j of JObj ms \<Rightarrow> map_option btree_of (string_members ms) | _ \<Rightarrow> None)"

definition create_skill_request :: "json \<Rightarrow> (string \<times> string btree) option" where
  "create_skill_request j =
     (case j of
        JObj ms \<Rightarrow> (case (str_field ms ''skill_id'', Option.bind (map_of ms ''files'') files_of_json) of
            (Some i, Some files) \<Rightarrow> Some (i, files)
          | _ \<Rightarrow> None)
      | _ \<Rightarrow> None)"

definition update_skill_request :: "json \<Rightarrow> string btree option" where
  "update_skill_request j = (case j of JObj ms \<Rightarrow> Option.bind (map_of ms ''files'') files_of_json | _ \<Rightarrow> None)"

section \<open>Answers\<close>

fun skill_error_status :: "skill_error \<Rightarrow> nat" where
  "skill_error_status (SkillNotFound _) = 404"
| "skill_error_status (SkillVersionNotFound _ _) = 404"
| "skill_error_status (SkillAlreadyExists _) = 409"
| "skill_error_status (HostInvalidSkillId _) = 422"
| "skill_error_status (InvalidSkillFilePath _) = 422"
| "skill_error_status (BuiltinSkillReadOnly _) = 403"
| "skill_error_status _ = 500"

definition skill_http_error :: "(message \<Rightarrow> string) \<Rightarrow> skill_error \<Rightarrow> agent_reply" where
  "skill_http_error rd e =
     HttpReply (skill_error_status e) (JsonBody (JObj [(''detail'', JStr (rd (display_skill_error e)))]))"

definition answer ::
  "(message \<Rightarrow> string) \<Rightarrow> ('a \<Rightarrow> agent_reply) \<Rightarrow> (skill_error, 'a, fsys) outcome \<Rightarrow> agent_reply \<times> fsys" where
  "answer rd f r = (case r of (Inl e, s) \<Rightarrow> (skill_http_error rd e, s) | (Inr x, s) \<Rightarrow> (f x, s))"

definition json_reply :: "json \<Rightarrow> agent_reply" where
  "json_reply j = HttpReply 200 (JsonBody j)"

text \<open>Answers of the router itself: no route, another method, a body or a path that does not parse.\<close>

definition routing_error :: "nat \<Rightarrow> agent_reply" where
  "routing_error status = HttpReply status (BadBody ''not JSON'')"

definition with_body :: "(json \<Rightarrow> 'a option) \<Rightarrow> json option \<Rightarrow> ('a \<Rightarrow> 's \<Rightarrow> agent_reply \<times> 's) \<Rightarrow> 's \<Rightarrow> agent_reply \<times> 's" where
  "with_body decode bd f s =
     (case bd of
        None \<Rightarrow> (routing_error 415, s)
      | Some j \<Rightarrow> (case decode j of None \<Rightarrow> (routing_error 422, s) | Some x \<Rightarrow> f x s))"

section \<open>Routes\<close>

definition skills_route ::
  "skill_libs \<Rightarrow> (message \<Rightarrow> string) \<Rightarrow> string \<Rightarrow> skills_service \<Rightarrow> string \<Rightarrow> json option \<Rightarrow> fsys \<Rightarrow> agent_reply \<times> fsys" where
  "skills_route lb rd now sv method bd s =
     (if method = ''POST'' then
        with_body create_skill_request bd (\<lambda>(i, files) s.
          answer rd (\<lambda>k. json_reply (host_skill_json k)) (host_create_skill lb now sv i files s)) s
      else if method = ''GET'' then
        answer rd (\<lambda>ks. json_reply (JArr (map skill_summary_json ks))) (host_list_skills sv s)
      else (routing_error 405, s))"

definition skill_route ::
  "skill_libs \<Rightarrow> (message \<Rightarrow> string) \<Rightarrow> string \<Rightarrow> skills_service \<Rightarrow> string \<Rightarrow> string \<Rightarrow> json option \<Rightarrow> fsys \<Rightarrow> agent_reply \<times> fsys" where
  "skill_route lb rd now sv method i bd s =
     (if method = ''GET'' then answer rd (\<lambda>k. json_reply (host_skill_json k)) (host_get_skill sv i s)
      else if method = ''PUT'' then
        with_body update_skill_request bd (\<lambda>files s.
          answer rd (\<lambda>k. json_reply (host_skill_json k)) (host_update_skill lb now sv i files s)) s
      else if method = ''DELETE'' then
        answer rd (\<lambda>_. HttpReply 204 (BadBody ''no body'')) (host_delete_skill sv i s)
      else (routing_error 405, s))"

definition versions_route ::
  "skill_libs \<Rightarrow> (message \<Rightarrow> string) \<Rightarrow> skills_service \<Rightarrow> string \<Rightarrow> string \<Rightarrow> fsys \<Rightarrow> agent_reply \<times> fsys" where
  "versions_route lb rd sv method i s =
     (if method = ''GET'' then
        answer rd (\<lambda>vs. json_reply (JArr (map version_summary_json vs))) (list_skill_version_summaries lb sv i s)
      else (routing_error 405, s))"

definition download_route ::
  "skill_libs \<Rightarrow> (message \<Rightarrow> string) \<Rightarrow> skills_service \<Rightarrow> string \<Rightarrow> string \<Rightarrow> fsys \<Rightarrow> agent_reply \<times> fsys" where
  "download_route lb rd sv method i s =
     (if method = ''GET'' then answer rd (\<lambda>d. HttpReply 200 (BadBody (sdl_body d))) (host_download_skill lb sv i s)
      else (routing_error 405, s))"

definition rollback_route ::
  "skill_libs \<Rightarrow> (message \<Rightarrow> string) \<Rightarrow> string \<Rightarrow> skills_service \<Rightarrow> string \<Rightarrow> string \<Rightarrow> string \<Rightarrow> fsys \<Rightarrow> agent_reply \<times> fsys" where
  "rollback_route lb rd now sv method i v s =
     (if method = ''POST'' then
        (case parse_u64 v of
           None \<Rightarrow> (routing_error 400, s)
         | Some n \<Rightarrow> answer rd (\<lambda>k. json_reply (host_skill_json k)) (host_rollback_skill lb now sv i n s))
      else (routing_error 405, s))"

definition host_skill_routes ::
  "skill_libs \<Rightarrow> (message \<Rightarrow> string) \<Rightarrow> string \<Rightarrow> skills_service \<Rightarrow> agent_request \<Rightarrow> fsys \<Rightarrow> agent_reply \<times> fsys" where
  "host_skill_routes lb rd now sv rq s =
     (let method = rq_method rq; bd = rq_body rq in
      if [] \<in> set (rq_path rq) then (routing_error 404, s)
      else case rq_path rq of
        [_] \<Rightarrow> skills_route lb rd now sv method bd s
      | [_, i] \<Rightarrow> skill_route lb rd now sv method i bd s
      | [_, i, op] \<Rightarrow>
          if op = ''versions'' then versions_route lb rd sv method i s
          else if op = ''download'' then download_route lb rd sv method i s
          else (routing_error 404, s)
      | [_, i, op, v, op'] \<Rightarrow>
          if op = ''versions'' \<and> op' = ''rollback'' then rollback_route lb rd now sv method i v s
          else (routing_error 404, s)
      | _ \<Rightarrow> (routing_error 404, s))"

section \<open>The host behind a network\<close>

datatype delivery = Delivered | NotSent string | ReplyLost string | BodyLost string

record 'g host_env =
  he_libs :: skill_libs
  he_render :: "message \<Rightarrow> string"
  he_service :: skills_service
  he_clock :: "nat \<Rightarrow> string"
  he_net :: "nat \<Rightarrow> delivery"
  he_other :: "agent_request \<Rightarrow> 'g \<Rightarrow> agent_reply \<times> 'g"

text \<open>The number of the request says when it comes and what the network does with it.\<close>

record 'g host_world =
  hw_fs :: fsys
  hw_count :: nat
  hw_other :: 'g

definition host_handle :: "'g host_env \<Rightarrow> agent_request \<Rightarrow> 'g host_world \<Rightarrow> agent_reply \<times> 'g host_world" where
  "host_handle env rq w =
     (case rq_path rq of
        p # _ \<Rightarrow>
          if p = ''skills'' then
            (case host_skill_routes (he_libs env) (he_render env) (he_clock env (hw_count w)) (he_service env) rq (hw_fs w) of
               (r, s) \<Rightarrow> (r, w\<lparr>hw_fs := s\<rparr>))
          else (case he_other env rq (hw_other w) of (r, g) \<Rightarrow> (r, w\<lparr>hw_other := g\<rparr>))
      | [] \<Rightarrow> (case he_other env rq (hw_other w) of (r, g) \<Rightarrow> (r, w\<lparr>hw_other := g\<rparr>)))"

fun spoil_body :: "string \<Rightarrow> agent_reply \<Rightarrow> agent_reply" where
  "spoil_body e (HttpReply status _) = HttpReply status (BadBody e)"
| "spoil_body e (NoReply e') = NoReply e'"

definition host_exchange :: "'g host_env \<Rightarrow> 'g host_world exchange" where
  "host_exchange env rq w =
     (let (r, w') = host_handle env rq w; done = (\<lambda>w. w\<lparr>hw_count := Suc (hw_count w)\<rparr>) in
      case he_net env (hw_count w) of
        Delivered \<Rightarrow> (r, done w')
      | NotSent e \<Rightarrow> (NoReply e, done w)
      | ReplyLost e \<Rightarrow> (NoReply e, done w')
      | BodyLost e \<Rightarrow> (spoil_body e r, done w'))"

end
