(* ===== verification/Skill_Host.thy ===== *)
theory Skill_Host
  imports Skill_Contract Host_Api Host_Skill_Frame
begin

text \<open>
  The agent host keeps the contract of \<open>Skill_Contract\<close>: the interpretation of \<open>skill_host\<close> and \<open>answering_host\<close> on the
  skill store behind its routes.  The file system answers every call; the network may lose any request or reply.
\<close>

section \<open>The skills of the host\<close>

text \<open>What the host itself answers for a skill of the user.\<close>

definition fs_users :: "'g host_env \<Rightarrow> fsys \<Rightarrow> skill_map" where
  "fs_users env s i =
     (case fst (host_get_skill (he_service env) i s) of
        Inr k \<Rightarrow> if hs_source k = User then Some (hs_files k) else None
      | Inl _ \<Rightarrow> None)"

definition host_users :: "'g host_env \<Rightarrow> 'g host_world \<Rightarrow> skill_map" where
  "host_users env w = fs_users env (hw_fs w)"

definition host_writable :: "'g host_env \<Rightarrow> string \<Rightarrow> bool" where
  "host_writable env i \<longleftrightarrow> host_validate_skill_id i = Inr () \<and> \<not> is_builtin (he_service env) i"

text \<open>Room for \<open>n\<close> more changes: an update may record two versions.\<close>

definition history_room :: "nat \<Rightarrow> skill_version list \<Rightarrow> bool" where
  "history_room n hist \<longleftrightarrow> list_all (\<lambda>h. proper_files (skv_files h)) hist \<and> uint (last_version hist) + 2 * int n < 2 ^ 64 - 1"

text \<open>Snapshots with proper files are written and read back by the JSON library.\<close>

definition versions_kept :: "'g host_env \<Rightarrow> bool" where
  "versions_kept env \<longleftrightarrow> (\<forall>k i v files. proper_files files \<longrightarrow> version_kept (he_libs env) (snapshot (he_clock env k) i v files))"

abbreviation holds_skill :: "'g host_env \<Rightarrow> fsys \<Rightarrow> string \<Rightarrow> string btree \<Rightarrow> skill_version list \<Rightarrow> bool" where
  "holds_skill env \<equiv> skill_holds (he_libs env) (he_service env)"

abbreviation lacks_skill :: "'g host_env \<Rightarrow> fsys \<Rightarrow> string \<Rightarrow> skill_version list \<Rightarrow> bool" where
  "lacks_skill env \<equiv> skill_absent (he_libs env) (he_service env)"

definition skill_slot :: "'g host_env \<Rightarrow> nat \<Rightarrow> fsys \<Rightarrow> string \<Rightarrow> bool" where
  "skill_slot env n s i \<longleftrightarrow> (\<exists>hist. history_room n hist \<and> ((\<exists>files. holds_skill env s i files hist) \<or> lacks_skill env s i hist))"

definition skills_good :: "'g host_env \<Rightarrow> nat \<Rightarrow> fsys \<Rightarrow> bool" where
  "skills_good env n s \<longleftrightarrow> versions_kept env \<and> calm_tree s \<and>
     (\<forall>q. prefix q (skills_dir (he_service env)) \<longrightarrow> lookup s q \<in> {None, Some NDir}) \<and>
     (\<forall>i. host_writable env i \<longrightarrow> skill_slot env n s i)"

definition host_inv :: "'g host_env \<Rightarrow> nat \<Rightarrow> 'g host_world \<Rightarrow> bool" where
  "host_inv env n w \<longleftrightarrow> skills_good env n (hw_fs w)"

lemma skills_goodD:
  assumes "skills_good env n s"
  shows "versions_kept env" "calm_tree s" "prefix q (skills_dir (he_service env)) \<Longrightarrow> lookup s q \<in> {None, Some NDir}"
    "host_writable env i \<Longrightarrow> skill_slot env n s i"
  using assms by (auto simp: skills_good_def)

lemma slot_less: "skill_slot env (Suc n) s i \<Longrightarrow> skill_slot env n s i"
  by (auto simp: skill_slot_def history_room_def)

lemma skills_good_less: "skills_good env (Suc n) s \<Longrightarrow> skills_good env n s"
  by (auto simp: skills_good_def intro: slot_less)

lemma users_held: "holds_skill env s i files hist \<Longrightarrow> fs_users env s i = Some files"
  by (elim get_calm) (simp add: fs_users_def)

lemma users_lacking:
  assumes "lacks_skill env s i hist"
  shows "fs_users env s i = None"
  using assms calm_stat(1) [of s "skill_path (he_service env) i"]
  by (simp add: fs_users_def host_get_skill_def skill_absent_def)

lemma users_unwritable: "\<not> host_writable env i \<Longrightarrow> fs_users env s i = None"
  by (auto simp: fs_users_def host_writable_def host_get_skill_def source_for_def try_io_def
      split: sum.splits prod.splits bool.splits)

lemma slot_cases:
  assumes "skills_good env n s" "host_writable env i"
  obtains files hist where "fs_users env s i = Some files" "holds_skill env s i files hist" "history_room n hist"
  | hist where "fs_users env s i = None" "lacks_skill env s i hist" "history_room n hist"
  using skills_goodD(4) [OF assms] users_held users_lacking unfolding skill_slot_def by metis

lemma users_Some:
  assumes "skills_good env n s" "fs_users env s i = Some files"
  obtains hist where "host_writable env i" "holds_skill env s i files hist" "history_room n hist"
proof -
  have w: "host_writable env i" using assms(2) users_unwritable by fastforce
  show thesis using slot_cases [OF assms(1) w] that [OF w] assms(2) by (metis option.distinct(1) option.inject)
qed

section \<open>Frames\<close>

lemma lacks_frame:
  assumes "lacks_skill env s j hist" "calm_tree s'"
    "\<And>q. prefix (skill_path (he_service env) j) q \<or> prefix (skill_versions_dir (he_service env) j) q \<Longrightarrow> lookup s' q = lookup s q"
    "\<And>q. prefix q (skill_versions_dir (he_service env) j) \<Longrightarrow> lookup s' q \<in> {lookup s q, Some NDir}"
  shows "lacks_skill env s' j hist"
  using assms(1,2) holds_history_frame [OF _ assms(3) assms(4)] assms(3) by (auto simp: skill_absent_def)

lemma slot_frame:
  assumes "skill_slot env n s j" "calm_tree s'"
    "\<And>q. prefix (skill_path (he_service env) j) q \<or> prefix (skill_versions_dir (he_service env) j) q \<Longrightarrow> lookup s' q = lookup s q"
    "\<And>q. prefix q (skill_versions_dir (he_service env) j) \<Longrightarrow> lookup s' q \<in> {lookup s q, Some NDir}"
  shows "skill_slot env n s' j \<and> fs_users env s' j = fs_users env s j"
proof -
  obtain hist where h: "history_room n hist" "(\<exists>files. holds_skill env s j files hist) \<or> lacks_skill env s j hist"
    using assms(1) by (auto simp: skill_slot_def)
  from h(2) show ?thesis
  proof
    assume "\<exists>files. holds_skill env s j files hist"
    then obtain files where f: "holds_skill env s j files hist" by blast
    have f': "holds_skill env s' j files hist" by (rule skill_holds_frame [OF f assms(2-4)])
    show ?thesis using users_held [OF f] users_held [OF f'] f' h(1) by (auto simp: skill_slot_def)
  next
    assume l: "lacks_skill env s j hist"
    have l': "lacks_skill env s' j hist" by (rule lacks_frame [OF l assms(2-4)])
    show ?thesis using users_lacking [OF l] users_lacking [OF l'] l' h(1) by (auto simp: skill_slot_def)
  qed
qed

text \<open>A step that only makes directories above the skills, or counts a call.\<close>

lemma skills_good_grown:
  assumes "skills_good env n s" "calm_tree s'"
    "\<And>q. lookup s' q = lookup s q \<or> prefix q (skills_dir (he_service env)) \<and> lookup s' q = Some NDir"
  shows "skills_good env n s' \<and> fs_users env s' = fs_users env s"
proof -
  note g = skills_goodD [OF assms(1)]
  let ?sv = "he_service env"
  have slot: "skill_slot env n s' j \<and> fs_users env s' j = fs_users env s j" if "host_writable env j" for j
  proof (rule slot_frame [OF g(4) [OF that] assms(2)])
    fix q assume "prefix (skill_path ?sv j) q \<or> prefix (skill_versions_dir ?sv j) q"
    moreover have "host_validate_skill_id j = Inr ()" using that by (simp add: host_writable_def)
    ultimately have "\<not> prefix q (skills_dir ?sv)" by (auto simp: valid_paths prefix_def)
    then show "lookup s' q = lookup s q" using assms(3) [of q] by blast
  next
    fix q
    show "lookup s' q \<in> {lookup s q, Some NDir}" using assms(3) [of q] by auto
  qed
  moreover have "lookup s' q \<in> {None, Some NDir}" if "prefix q (skills_dir ?sv)" for q
    using assms(3) [of q] g(3) [OF that] by auto
  moreover have "fs_users env s' j = fs_users env s j" for j
    using slot [of j] users_unwritable [of env j] by (cases "host_writable env j") simp_all
  ultimately show ?thesis using g(1) assms(2) by (auto simp: skills_good_def fun_eq_iff)
qed

lemma skills_good_count: "skills_good env n s \<Longrightarrow> skills_good env n (s\<lparr>op_count := k\<rparr>) \<and> fs_users env (s\<lparr>op_count := k\<rparr>) = fs_users env s"
  by (rule skills_good_grown) (auto simp: skills_goodD(2))

text \<open>A step on one skill.\<close>

lemma skills_good_touched:
  assumes "skills_good env n s" "calm_tree s'" "untouched (he_service env) i s s'" "host_writable env i" "m \<le> n"
    and "skill_slot env m s' i"
  shows "skills_good env m s' \<and> (\<forall>j. j \<noteq> i \<longrightarrow> fs_users env s' j = fs_users env s j)"
proof -
  note g = skills_goodD [OF assms(1)]
  let ?sv = "he_service env"
  have i: "host_validate_skill_id i = Inr ()" using assms(4) by (simp add: host_writable_def)
  have less: "skill_slot env m s j" if "host_writable env j" for j
    using g(4) [OF that] assms(5) by (auto simp: skill_slot_def history_room_def)
  have slot: "skill_slot env m s' j \<and> fs_users env s' j = fs_users env s j" if "host_writable env j" "j \<noteq> i" for j
    by (rule slot_frame [OF less [OF that(1)] assms(2) untouched_paths [OF assms(3) that(2) i]])
      (use that(1) in \<open>simp_all add: host_writable_def\<close>)
  have "skill_slot env m s' j" if "host_writable env j" for j
    using slot [OF that] assms(6) by (cases "j = i") auto
  moreover have "lookup s' q \<in> {None, Some NDir}" if q: "prefix q (skills_dir ?sv)" for q
  proof -
    have "\<not> skill_area ?sv i q" using q by (auto simp: skill_area_def prefix_def)
    then show ?thesis using assms(3) g(3) [OF q] by (auto simp: untouched_def)
  qed
  moreover have "fs_users env s' j = fs_users env s j" if "j \<noteq> i" for j
    using slot [of j] that users_unwritable [of env j] by (cases "host_writable env j") simp_all
  ultimately show ?thesis using g(1) assms(2) by (auto simp: skills_good_def)
qed

section \<open>Version numbers\<close>

lemma uint_next: "uint (v :: 64 word) < 2 ^ 64 - 1 \<Longrightarrow> uint (v + 1) = uint v + 1"
proof -
  assume "uint v < 2 ^ 64 - 1"
  then have "uint v + 1 < 2 ^ LENGTH(64)" by simp
  then show ?thesis by (simp add: uint_word_ariths mod_pos_pos_trivial)
qed

lemma last_version_Nil: "last_version [] = 0"
  by (simp add: last_version_def)

lemma history_snoc:
  assumes "history_fits lb hist" "uint (last_version hist) < 2 ^ 64 - 1" "version_kept lb (snapshot now i (last_version hist + 1) files)"
  shows "history_fits lb (hist @ [snapshot now i (last_version hist + 1) files])"
    "uint (last_version (hist @ [snapshot now i (last_version hist + 1) files])) = uint (last_version hist) + 1"
    "last_version hist < last_version hist + 1"
proof -
  let ?v = "last_version hist"
  have lt: "?v < ?v + 1" using uint_next [OF assms(2)] by (simp add: word_less_def)
  have "skv_version h < ?v + 1" if "h \<in> set hist" for h
    using last_version_max [of hist h] that assms(1) lt by (auto simp: history_fits_def)
  then show "history_fits lb (hist @ [snapshot now i (?v + 1) files])"
    using assms(1,3) by (auto simp: history_fits_def sorted_wrt_append snapshot_def)
  show "uint (last_version (hist @ [snapshot now i (?v + 1) files])) = uint ?v + 1"
    using uint_next [OF assms(2)] by (simp add: last_version_def snapshot_def)
  show "?v < ?v + 1" by (rule lt)
qed

lemma held_history: "skill_holds lb sv s i files hist \<Longrightarrow> history_fits lb hist" "skill_absent lb sv s i hist \<Longrightarrow> history_fits lb hist"
  by (auto simp: skill_holds_def skill_absent_def holds_history_def history_fits_def)

lemma room_snoc:
  assumes "history_room (Suc n) hist" "history_fits lb hist" "version_kept lb (snapshot now i (last_version hist + 1) files)"
    and "proper_files files"
  shows "history_fits lb (hist @ [snapshot now i (last_version hist + 1) files])"
    "history_room n (hist @ [snapshot now i (last_version hist + 1) files])" "last_version hist < last_version hist + 1"
proof -
  have "uint (last_version hist) < 2 ^ 64 - 1" using assms(1) by (simp add: history_room_def)
  note h = history_snoc [OF assms(2) this assms(3)]
  show "history_fits lb (hist @ [snapshot now i (last_version hist + 1) files])" "last_version hist < last_version hist + 1"
    by (rule h)+
  show "history_room n (hist @ [snapshot now i (last_version hist + 1) files])"
    using assms(1,4) h(2) by (simp add: history_room_def snapshot_def)
qed

lemma room_extended:
  assumes "history_room (Suc n) hist" "history_fits lb hist" "proper_files files" "proper_files files'"
    and kept: "\<And>v f. proper_files f \<Longrightarrow> version_kept lb (snapshot now i v f)"
  shows "history_fits lb (extended_history now i files files' hist)" "history_room n (extended_history now i files files' hist)"
proof -
  let ?old = "seen_history now i files hist"
  have old: "history_fits lb ?old \<and> list_all (\<lambda>h. proper_files (skv_files h)) ?old \<and> uint (last_version ?old) + 2 * int n + 1 < 2 ^ 64 - 1"
  proof (cases "hist = []")
    case True
    then show ?thesis using assms(1,3) kept [OF assms(3), of 1]
      by (simp add: seen_history_def history_fits_def last_version_def snapshot_def history_room_def)
  next
    case False
    then show ?thesis using assms(1,2) by (simp add: seen_history_def history_room_def)
  qed
  then have lt: "uint (last_version ?old) < 2 ^ 64 - 1" by simp
  note h = history_snoc [OF conjunct1 [OF old] lt kept [OF assms(4)]]
  show "history_fits lb (extended_history now i files files' hist)" using h(1) by (simp add: extended_history_def Let_def)
  show "history_room n (extended_history now i files files' hist)"
    using h(2) old assms(4) by (simp add: extended_history_def Let_def history_room_def snapshot_def)
qed

section \<open>What the operations do to the skills\<close>

abbreviation user_skill :: "string \<Rightarrow> string btree \<Rightarrow> host_skill" where
  "user_skill i files \<equiv> \<lparr>hs_skill_id = i, hs_files = files, hs_source = User\<rparr>"

lemma kept_snapshot: "skills_good env n s \<Longrightarrow> proper_files f \<Longrightarrow> version_kept (he_libs env) (snapshot (he_clock env k) i v f)"
  by (simp add: skills_good_def versions_kept_def)

lemma create_effect:
  assumes "skills_good env (Suc n) s" "proper_files files" "host_create_skill (he_libs env) (he_clock env k) (he_service env) i files s = (r, s')"
  shows "if host_writable env i \<and> fs_users env s i = None
    then r = Inr (user_skill i files) \<and> skills_good env n s' \<and> fs_users env s' = (fs_users env s)(i \<mapsto> files)
    else (\<exists>e. r = Inl e) \<and> skills_good env n s' \<and> fs_users env s' = fs_users env s"
proof (cases "host_writable env i")
  case False
  then have "s' = s" "\<exists>e. r = Inl e"
    using assms(3) by (auto simp: host_writable_def host_create_skill_def try_io_def split: sum.splits if_splits)
  then show ?thesis using False skills_good_less [OF assms(1)] by simp
next
  case True
  let ?sv = "he_service env" and ?lb = "he_libs env" and ?now = "he_clock env k"
  show ?thesis
  proof (cases rule: slot_cases [OF assms(1) True])
    case (1 old hist)
    have calm: "calm_tree s" by (rule skills_goodD(2) [OF assms(1)])
    have base: "\<forall>q. prefix q (skills_dir ?sv) \<longrightarrow> lookup s q \<in> {None, Some NDir}" using skills_goodD(3) [OF assms(1)] by blast
    obtain s1 where s1: "fs_create_dir_all (skills_dir ?sv) s = (Inr (), s1)" "calm_tree s1"
      "lookup s1 = (\<lambda>q. if prefix q (skills_dir ?sv) then Some NDir else lookup s q)"
      using calm_mkdir_all [OF calm base] .
    have "lookup s1 (skill_path ?sv i) \<noteq> None"
      using 1(2) by (auto simp: s1(3) skill_holds_def holds_entries_def)
    then have "path_exists (skill_path ?sv i) s1 = (True, s1\<lparr>op_count := Suc (op_count s1)\<rparr>)"
      using calm_stat(2) [OF s1(2)] by simp
    then have s': "s' = s1\<lparr>op_count := Suc (op_count s1)\<rparr>" "\<exists>e. r = Inl e"
      using assms(3) True s1(1) by (auto simp: host_create_skill_def host_writable_def ensure_base_dir_def Let_def)
    have "skills_good env n s' \<and> fs_users env s' = fs_users env s"
      by (rule skills_good_grown [OF skills_good_less [OF assms(1)]]) (use s1(2) in \<open>auto simp: s' s1(3)\<close>)
    then show ?thesis using 1(1) s'(2) by simp
  next
    case (2 hist)
    note fits = room_snoc [OF 2(3) held_history(2) [OF 2(2)] kept_snapshot [OF assms(1,2)] assms(2)]
    obtain s2 where s2: "host_create_skill ?lb ?now ?sv i files s = (Inr (user_skill i files), s2)"
      "holds_skill env s2 i files (hist @ [snapshot ?now i (last_version hist + 1) files])" "untouched ?sv i s s2"
      using create_calm [OF 2(2) assms(2) fits(1,3)] .
    have "skill_slot env n s2 i" using s2(2) fits(2) by (auto simp: skill_slot_def)
    moreover have "calm_tree s2" using s2(2) by (simp add: skill_holds_def)
    ultimately have "skills_good env n s2 \<and> (\<forall>j. j \<noteq> i \<longrightarrow> fs_users env s2 j = fs_users env s j)"
      using skills_good_touched [OF assms(1) _ s2(3) True, of n] by simp
    then show ?thesis using 2(1) True s2(1) assms(3) users_held [OF s2(2)] by (auto simp: fun_eq_iff)
  qed
qed

lemma update_effect:
  assumes "skills_good env (Suc n) s" "proper_files files" "host_update_skill (he_libs env) (he_clock env k) (he_service env) i files s = (r, s')"
  shows "if fs_users env s i \<noteq> None
    then r = Inr (user_skill i files) \<and> skills_good env n s' \<and> fs_users env s' = (fs_users env s)(i \<mapsto> files)
    else (\<exists>e. r = Inl e) \<and> skills_good env n s' \<and> fs_users env s' = fs_users env s"
proof (cases "host_writable env i")
  case False
  then have "s' = s" "\<exists>e. r = Inl e"
    using assms(3) by (auto simp: host_writable_def host_update_skill_def ensure_user_skill_exists_def try_io_def split: sum.splits if_splits)
  then show ?thesis using users_unwritable [OF False, of s] skills_good_less [OF assms(1)] by simp
next
  case True
  let ?sv = "he_service env" and ?lb = "he_libs env" and ?now = "he_clock env k"
  show ?thesis
  proof (cases rule: slot_cases [OF assms(1) True])
    case (1 old hist)
    have "proper_files old" using 1(2) by (simp add: skill_holds_def)
    note fits = room_extended [OF 1(3) held_history(1) [OF 1(2)] this assms(2) kept_snapshot [OF assms(1)]]
    obtain s2 where s2: "host_update_skill ?lb ?now ?sv i files s = (Inr (user_skill i files), s2)"
      "holds_skill env s2 i files (extended_history ?now i old files hist)" "untouched ?sv i s s2"
      using update_calm [OF 1(2) assms(2) fits(1)] .
    have "skill_slot env n s2 i" using s2(2) fits(2) by (auto simp: skill_slot_def)
    moreover have "calm_tree s2" using s2(2) by (simp add: skill_holds_def)
    ultimately have "skills_good env n s2 \<and> (\<forall>j. j \<noteq> i \<longrightarrow> fs_users env s2 j = fs_users env s j)"
      using skills_good_touched [OF assms(1) _ s2(3) True, of n] by simp
    then show ?thesis using 1(1) s2(1) assms(3) users_held [OF s2(2)] by (auto simp: fun_eq_iff)
  next
    case (2 hist)
    have "path_is_dir (skill_path ?sv i) s = (False, s\<lparr>op_count := Suc (op_count s)\<rparr>)"
      using calm_stat(1) [of s] 2(2) by (simp add: skill_absent_def)
    then have "s' = s\<lparr>op_count := Suc (op_count s)\<rparr>" "\<exists>e. r = Inl e"
      using assms(3) True by (auto simp: host_update_skill_def host_writable_def ensure_user_skill_exists_def)
    then show ?thesis using 2(1) skills_good_count [OF skills_good_less [OF assms(1)]] by simp
  qed
qed

lemma rollback_effect:
  assumes "skills_good env (Suc n) s" "host_rollback_skill (he_libs env) (he_clock env k) (he_service env) i v s = (r, s')"
  shows "(\<exists>files. fs_users env s i \<noteq> None \<and> r = Inr (user_skill i files) \<and> skills_good env n s' \<and>
      fs_users env s' = (fs_users env s)(i \<mapsto> files)) \<or>
    (\<exists>e. r = Inl e) \<and> skills_good env n s' \<and> fs_users env s' = fs_users env s"
proof (cases "host_writable env i")
  case False
  then have "s' = s" "\<exists>e. r = Inl e"
    using assms(2) by (auto simp: host_writable_def host_rollback_skill_def ensure_user_skill_exists_def try_io_def split: sum.splits if_splits)
  then show ?thesis using skills_good_less [OF assms(1)] by simp
next
  case True
  let ?sv = "he_service env" and ?lb = "he_libs env" and ?now = "he_clock env k"
  show ?thesis
  proof (cases rule: slot_cases [OF assms(1) True])
    case (1 old hist)
    have calm: "calm_tree s" and nb: "\<not> is_builtin ?sv i" and dir: "lookup s (skill_path ?sv i) = Some NDir"
      and hist: "holds_history ?lb s (skill_versions_dir ?sv i) hist" and id: "host_validate_skill_id i = Inr ()"
      using 1(2) by (simp_all add: skill_holds_def holds_entries_def)
    show ?thesis
    proof (cases "\<exists>h \<in> set hist. skv_version h = v")
      case True
      then obtain h where h: "h \<in> set hist" "skv_version h = v" by blast
      have pf: "proper_files old" "proper_files (skv_files h)"
        using 1(2,3) h(1) by (auto simp: skill_holds_def history_room_def list_all_iff)
      note fits = room_extended [OF 1(3) held_history(1) [OF 1(2)] pf kept_snapshot [OF assms(1)]]
      obtain s2 where s2: "host_rollback_skill ?lb ?now ?sv i v s = (Inr (user_skill i (skv_files h)), s2)"
        "holds_skill env s2 i (skv_files h) (extended_history ?now i old (skv_files h) hist)" "untouched ?sv i s s2"
        using rollback_calm [OF 1(2) h(1) pf(2) fits(1)] h(2) by metis
      have "skill_slot env n s2 i" using s2(2) fits(2) by (auto simp: skill_slot_def)
      moreover have "calm_tree s2" using s2(2) by (simp add: skill_holds_def)
      ultimately have "skills_good env n s2 \<and> (\<forall>j. j \<noteq> i \<longrightarrow> fs_users env s2 j = fs_users env s j)"
        using skills_good_touched [OF assms(1) _ s2(3) \<open>host_writable env i\<close>, of n] by simp
      then show ?thesis using 1(1) s2(1) assms(2) users_held [OF s2(2)] by (auto simp: fun_eq_iff)
    next
      case False
      obtain m where ex: "ensure_user_skill_exists ?sv i s = (Inr (), s\<lparr>op_count := m\<rparr>)"
        using user_skill_exists_calm [OF calm dir nb] .
      have "lookup s (skill_version_path ?sv i v) \<noteq> Some (NFile b)" for b
        using holds_historyD(5) [OF hist, of "version_file_name v"] False
        by (auto simp: skill_version_path_def version_file_name_def [symmetric])
      then have "path_is_file (skill_version_path ?sv i v) (s\<lparr>op_count := m\<rparr>) = (False, s\<lparr>op_count := Suc m\<rparr>)"
        using calm_stat(3) [of "s\<lparr>op_count := m\<rparr>" "skill_version_path ?sv i v"] calm by simp
      then have "s' = s\<lparr>op_count := Suc m\<rparr>" "\<exists>e. r = Inl e"
        using assms(2) id ex by (auto simp: host_rollback_skill_def)
      then show ?thesis using skills_good_count [OF skills_good_less [OF assms(1)]] by simp
    qed
  next
    case (2 hist)
    have "path_is_dir (skill_path ?sv i) s = (False, s\<lparr>op_count := Suc (op_count s)\<rparr>)"
      using calm_stat(1) [of s] 2(2) by (simp add: skill_absent_def)
    then have "s' = s\<lparr>op_count := Suc (op_count s)\<rparr>" "\<exists>e. r = Inl e"
      using assms(2) True by (auto simp: host_rollback_skill_def host_writable_def ensure_user_skill_exists_def)
    then show ?thesis using 2(1) skills_good_count [OF skills_good_less [OF assms(1)]] by simp
  qed
qed

lemma delete_effect:
  assumes "skills_good env n s" "host_delete_skill (he_service env) i s = (r, s')"
  shows "if fs_users env s i \<noteq> None
    then r = Inr () \<and> skills_good env n s' \<and> fs_users env s' = (fs_users env s)(i := None)
    else (\<exists>e. r = Inl e) \<and> skills_good env n s' \<and> fs_users env s' = fs_users env s"
proof (cases "host_writable env i")
  case False
  then have "s' = s" "\<exists>e. r = Inl e"
    using assms(2) by (cases "host_validate_skill_id i"; auto simp: host_writable_def host_delete_skill_def try_io_def split: if_splits)+
  then show ?thesis using users_unwritable [OF False, of s] assms(1) by simp
next
  case True
  let ?sv = "he_service env"
  show ?thesis
  proof (cases rule: slot_cases [OF assms(1) True])
    case (1 old hist)
    obtain s2 where s2: "host_delete_skill ?sv i s = (Inr (), s2)" "lacks_skill env s2 i []" "untouched ?sv i s s2"
      using delete_calm [OF 1(2)] .
    have lt: "uint (last_version hist) + 2 * int n < 2 ^ 64 - 1" using 1(3) by (simp only: history_room_def)
    have "2 * int n \<le> uint (last_version hist) + 2 * int n" by simp
    from le_less_trans [OF this lt] have "history_room n []" by (simp add: history_room_def last_version_Nil)
    then have "skill_slot env n s2 i" using s2(2) by (auto simp: skill_slot_def)
    moreover have "calm_tree s2" using s2(2) by (simp add: skill_absent_def)
    ultimately have "skills_good env n s2 \<and> (\<forall>j. j \<noteq> i \<longrightarrow> fs_users env s2 j = fs_users env s j)"
      using skills_good_touched [OF assms(1) _ s2(3) True, of n] by simp
    then show ?thesis using 1(1) s2(1) assms(2) users_lacking [OF s2(2)] by (auto simp: fun_eq_iff)
  next
    case (2 hist)
    have "path_is_dir (skill_path ?sv i) s = (False, s\<lparr>op_count := Suc (op_count s)\<rparr>)"
      using calm_stat(1) [of s] 2(2) by (simp add: skill_absent_def)
    then have "s' = s\<lparr>op_count := Suc (op_count s)\<rparr>" "\<exists>e. r = Inl e"
      using assms(2) True by (auto simp: host_delete_skill_def host_writable_def Let_def)
    then show ?thesis using 2(1) skills_good_count [OF assms(1)] by simp
  qed
qed

section \<open>Reading the skills\<close>

lemma skills_good_read:
  assumes "skills_good env n s" "within (\<lambda>_. False) (\<lambda>_. False) s s'"
  shows "skills_good env n s' \<and> fs_users env s' = fs_users env s"
proof (rule skills_good_grown [OF assms(1)])
  show "calm_tree s'" using assms(2) calm_tree_ok [OF _ skills_goodD(2) [OF assms(1)]] by (simp add: within_def)
  show "lookup s' q = lookup s q \<or> prefix q (skills_dir (he_service env)) \<and> lookup s' q = Some NDir" for q
    using assms(2) by (simp add: within_def)
qed

lemma confined_get: "confined A B (host_get_skill sv i)"
  unfolding host_get_skill_def by (intro confining)

lemma get_effect:
  assumes "skills_good env n s" "host_get_skill (he_service env) i s = (r, s')"
  shows "skills_good env n s' \<and> fs_users env s' = fs_users env s \<and>
    (\<forall>files. fs_users env s i = Some files \<longrightarrow> r = Inr (user_skill i files))"
proof -
  have inv: "fs_inv s" using skills_goodD(2) [OF assms(1)] by (simp add: calm_tree_def)
  have "r = Inr (user_skill i files)" if files: "fs_users env s i = Some files" for files
  proof -
    obtain hist where h: "holds_skill env s i files hist" using users_Some [OF assms(1) files] .
    obtain m where "host_get_skill (he_service env) i s = (Inr (user_skill i files), s\<lparr>op_count := m\<rparr>)" using get_calm [OF h] .
    then show ?thesis using assms(2) by simp
  qed
  then show ?thesis using skills_good_read [OF assms(1) confinedD [OF confined_get assms(2) inv]] by blast
qed

lemma count_entries_calm:
  assumes dirs: "\<And>d s. calm_tree s \<Longrightarrow> lookup s d = Some NDir \<Longrightarrow> \<exists>m k. count_skill_files_in fuel d s = (Inr m, s\<lparr>op_count := k\<rparr>)"
  shows "calm_tree s \<Longrightarrow> \<forall>(x, t) \<in> set es. lookup s (dir @ [x]) = Some t \<Longrightarrow>
    \<exists>m k. count_entries fuel dir es c s = (Inr m, s\<lparr>op_count := k\<rparr>)"
proof (induction es arbitrary: c s)
  case Nil
  have "s = s\<lparr>op_count := op_count s\<rparr>" by simp
  then show ?case by (metis count_entries.simps(1))
next
  case (Cons e es)
  obtain x t where e: "e = (x, t)" by force
  have calm: "calm_tree (s\<lparr>op_count := k\<rparr>)" for k using Cons.prems(1) by simp
  have rest: "\<forall>(x, t) \<in> set es. lookup (s\<lparr>op_count := k\<rparr>) (dir @ [x]) = Some t" for k using Cons.prems(2) by simp
  have IH: "\<exists>m k'. count_entries fuel dir es c (s\<lparr>op_count := k\<rparr>) = (Inr m, s\<lparr>op_count := k'\<rparr>)" for c k
    using Cons.IH [OF calm [of k] rest [of k], of c] by simp
  show ?case
  proof (cases "t = NDir")
    case True
    then have "lookup (s\<lparr>op_count := Suc (op_count s)\<rparr>) (dir @ [x]) = Some NDir" using Cons.prems(2) by (simp add: e)
    from dirs [OF calm this] obtain m k where
      "count_skill_files_in fuel (dir @ [x]) (s\<lparr>op_count := Suc (op_count s)\<rparr>) = (Inr m, s\<lparr>op_count := k\<rparr>)" by auto
    then show ?thesis using IH [of "c + m" k] by (simp add: e True calm_entry_type [OF Cons.prems(1)])
  next
    case False
    then show ?thesis using IH [of c "Suc (op_count s)"] IH [of "Suc c" "Suc (op_count s)"]
      by (cases t) (simp_all add: e calm_entry_type [OF Cons.prems(1)])
  qed
qed

lemma count_calm:
  "calm_tree s \<Longrightarrow> lookup s dir = Some NDir \<Longrightarrow> \<exists>m k. count_skill_files_in fuel dir s = (Inr m, s\<lparr>op_count := k\<rparr>)"
proof (induction fuel arbitrary: dir s)
  case 0
  have "s = s\<lparr>op_count := op_count s\<rparr>" by simp
  then show ?case by (metis count_skill_files_in.simps(1))
next
  case (Suc fuel)
  obtain n where rd: "read_dir_sorted ''count skill files'' dir s = (Inr (sort_key fst (children s dir)), s\<lparr>op_count := n\<rparr>)"
    using calm_read_dir_sorted [OF Suc.prems] .
  have inv: "fs_inv s" using Suc.prems(1) by (simp add: calm_tree_def)
  have "\<exists>m k. count_entries fuel dir (sort_key fst (children s dir)) 0 (s\<lparr>op_count := n\<rparr>) = (Inr m, s\<lparr>op_count := n\<rparr>\<lparr>op_count := k\<rparr>)"
    by (rule count_entries_calm [OF Suc.IH]) (use Suc.prems children_iff [OF inv] in auto)
  then show ?case by (simp add: rd)
qed

definition skill_entry :: "(bytes \<times> node) \<Rightarrow> bool" where
  "skill_entry e \<longleftrightarrow> snd e = NDir \<and> is_utf8 (fst e) \<and> host_validate_skill_id (fst e) = Inr ()"

lemma list_entries_calm:
  "calm_tree s \<Longrightarrow> \<forall>(x, t) \<in> set es. lookup s (skills_dir sv @ [x]) = Some t \<Longrightarrow>
    \<exists>ks k. list_skill_entries sv es s = (Inr ks, s\<lparr>op_count := k\<rparr>) \<and>
      map (\<lambda>k. (ss_skill_id k, ss_source k)) ks = map (\<lambda>e. (fst e, source_for sv (fst e))) (filter skill_entry es)"
proof (induction es arbitrary: s)
  case Nil
  have "s = s\<lparr>op_count := op_count s\<rparr>" by simp
  then show ?case by (metis list_skill_entries.simps(1) filter.simps(1) list.simps(8))
next
  case (Cons e es)
  obtain x t where e: "e = (x, t)" by force
  have calm: "calm_tree (s\<lparr>op_count := k\<rparr>)" for k using Cons.prems(1) by simp
  have rest: "\<forall>(x, t) \<in> set es. lookup (s\<lparr>op_count := k\<rparr>) (skills_dir sv @ [x]) = Some t" for k using Cons.prems(2) by simp
  have IH: "\<exists>ks k'. list_skill_entries sv es (s\<lparr>op_count := k\<rparr>) = (Inr ks, s\<lparr>op_count := k'\<rparr>) \<and>
      map (\<lambda>k. (ss_skill_id k, ss_source k)) ks = map (\<lambda>e. (fst e, source_for sv (fst e))) (filter skill_entry es)" for k
    using Cons.IH [OF calm [of k] rest [of k]] by simp
  show ?case
  proof (cases "skill_entry e")
    case True
    then have x: "t = NDir" "is_utf8 x" "host_validate_skill_id x = Inr ()" by (simp_all add: skill_entry_def e)
    have "lookup (s\<lparr>op_count := Suc (op_count s)\<rparr>) (skills_dir sv @ [x]) = Some NDir" using Cons.prems(2) x(1) by (simp add: e)
    from count_calm [OF calm this, of "Suc (tree_depth (s\<lparr>op_count := Suc (op_count s)\<rparr>))"] obtain m k where
      c: "count_skill_files (skills_dir sv @ [x]) (s\<lparr>op_count := Suc (op_count s)\<rparr>) = (Inr m, s\<lparr>op_count := k\<rparr>)"
      unfolding count_skill_files_def by (auto simp del: count_skill_files_in.simps)
    obtain ks k' where ks: "list_skill_entries sv es (s\<lparr>op_count := k\<rparr>) = (Inr ks, s\<lparr>op_count := k'\<rparr>)"
      "map (\<lambda>k. (ss_skill_id k, ss_source k)) ks = map (\<lambda>e. (fst e, source_for sv (fst e))) (filter skill_entry es)"
      using IH by blast
    show ?thesis using True ks(2) by (simp add: e x calm_entry_type [OF Cons.prems(1)] c ks(1)) (rule exI [of _ k'], simp)
  next
    case False
    then have "\<not> (t = NDir \<and> is_utf8 x \<and> host_validate_skill_id x = Inr ())" by (simp add: skill_entry_def e)
    then have "list_skill_entries sv (e # es) s = list_skill_entries sv es (s\<lparr>op_count := Suc (op_count s)\<rparr>)"
      unfolding e list_skill_entries.simps calm_entry_type [OF Cons.prems(1)] try_io_simps by (rule if_not_P)
    then show ?thesis using IH [of "Suc (op_count s)"] False by simp
  qed
qed

lemma valid_id_bytes: "c = CHR ''-'' \<or> is_ascii_lowercase c \<or> is_ascii_digit c \<Longrightarrow> byte_val c < 0x80"
proof -
  have "byte_val (CHR ''-'') < 0x80" by code_simp
  then show "c = CHR ''-'' \<or> is_ascii_lowercase c \<or> is_ascii_digit c \<Longrightarrow> byte_val c < 0x80"
    by (auto simp: is_ascii_lowercase_def is_ascii_digit_def in_range_def)
qed

lemma valid_id_utf8: "host_validate_skill_id i = Inr () \<Longrightarrow> is_utf8 i"
  using valid_id_chars valid_id_bytes by (intro is_utf8_ascii ballI) blast

lemma valid_id_segment: "host_validate_skill_id i = Inr () \<Longrightarrow> i \<notin> {[], ''.'', ''..''}"
proof
  assume v: "host_validate_skill_id i = Inr ()" and "i \<in> {[], ''.'', ''..''}"
  moreover have "host_validate_skill_id [] \<noteq> Inr ()" "host_validate_skill_id ''.'' \<noteq> Inr ()"
    "host_validate_skill_id ''..'' \<noteq> Inr ()" by code_simp+
  ultimately show False by auto
qed

lemma writable_dir:
  assumes "skills_good env n s" "host_writable env i"
  shows "lookup s (skill_path (he_service env) i) = Some NDir \<longleftrightarrow> fs_users env s i \<noteq> None"
  by (cases rule: slot_cases [OF assms]) (simp_all add: skill_holds_def holds_entries_def skill_absent_def)

lemma list_effect:
  assumes "skills_good env n s" "host_list_skills (he_service env) s = (r, s')"
  shows "skills_good env n s' \<and> fs_users env s' = fs_users env s \<and>
    (\<exists>ks. r = Inr ks \<and> ss_skill_id ` {k \<in> set ks. ss_source k \<noteq> Builtin} = dom (fs_users env s))"
proof -
  let ?sv = "he_service env"
  have calm: "calm_tree s" by (rule skills_goodD(2) [OF assms(1)])
  have base: "\<forall>q. prefix q (skills_dir ?sv) \<longrightarrow> lookup s q \<in> {None, Some NDir}" using skills_goodD(3) [OF assms(1)] by blast
  obtain s1 where s1: "fs_create_dir_all (skills_dir ?sv) s = (Inr (), s1)" "calm_tree s1"
    "lookup s1 = (\<lambda>q. if prefix q (skills_dir ?sv) then Some NDir else lookup s q)"
    using calm_mkdir_all [OF calm base] .
  have dir: "lookup s1 (skills_dir ?sv) = Some NDir" by (simp add: s1(3))
  obtain m where rd: "read_dir_sorted ''read skills dir'' (skills_dir ?sv) s1 = (Inr (sort_key fst (children s1 (skills_dir ?sv))), s1\<lparr>op_count := m\<rparr>)"
    using calm_read_dir_sorted [OF s1(2) dir] .
  let ?es = "sort_key fst (children s1 (skills_dir ?sv))"
  have inv: "fs_inv s1" using s1(2) by (simp add: calm_tree_def)
  have c1: "calm_tree (s1\<lparr>op_count := m\<rparr>)" using s1(2) by simp
  have es: "\<forall>(x, t) \<in> set ?es. lookup (s1\<lparr>op_count := m\<rparr>) (skills_dir ?sv @ [x]) = Some t"
    using children_iff [OF inv] by auto
  obtain ks k where ks: "list_skill_entries ?sv ?es (s1\<lparr>op_count := m\<rparr>) = (Inr ks, s1\<lparr>op_count := m\<rparr>\<lparr>op_count := k\<rparr>)"
    "map (\<lambda>k. (ss_skill_id k, ss_source k)) ks = map (\<lambda>e. (fst e, source_for ?sv (fst e))) (filter skill_entry ?es)"
    using list_entries_calm [OF c1 es] by blast
  have run: "r = Inr ks" "s' = s1\<lparr>op_count := k\<rparr>"
    using assms(2) s1(1) rd ks(1) by (simp_all add: host_list_skills_def ensure_base_dir_def)
  have good: "skills_good env n s' \<and> fs_users env s' = fs_users env s"
    by (rule skills_good_grown [OF assms(1)]) (use s1(2) in \<open>auto simp: run(2) s1(3)\<close>)
  have entry: "skill_entry e \<and> e \<in> set ?es \<longleftrightarrow> snd e = NDir \<and> lookup s (skill_path ?sv (fst e)) = Some NDir \<and> host_validate_skill_id (fst e) = Inr ()"
    for e
  proof -
    have "e \<in> set ?es \<longleftrightarrow> lookup s1 (skills_dir ?sv @ [fst e]) = Some (snd e)"
      using children_iff [OF inv, of "fst e" "snd e"] by simp
    then show ?thesis by (auto simp: skill_entry_def s1(3) valid_paths valid_id_utf8)
  qed
  have pairs: "(i, src) \<in> (\<lambda>k. (ss_skill_id k, ss_source k)) ` set ks \<longleftrightarrow>
      lookup s (skill_path ?sv i) = Some NDir \<and> host_validate_skill_id i = Inr () \<and> src = source_for ?sv i" for i src
  proof -
    have "(\<lambda>k. (ss_skill_id k, ss_source k)) ` set ks = (\<lambda>e. (fst e, source_for ?sv (fst e))) ` {e. skill_entry e \<and> e \<in> set ?es}"
      using arg_cong [OF ks(2), of set] by (simp add: conj_commute)
    then show ?thesis unfolding entry by (auto simp: image_iff)
  qed
  have "src \<noteq> Builtin \<longleftrightarrow> src = User" for src by (cases src) simp_all
  then have "ss_skill_id ` {k \<in> set ks. ss_source k \<noteq> Builtin} = {i. (i, User) \<in> (\<lambda>k. (ss_skill_id k, ss_source k)) ` set ks}"
    by (auto simp: image_iff)
  also have "\<dots> = {i. lookup s (skill_path ?sv i) = Some NDir \<and> host_writable env i}"
    unfolding pairs by (auto simp: source_for_def host_writable_def)
  also have "\<dots> = dom (fs_users env s)"
  proof (rule set_eqI)
    fix i
    show "i \<in> {i. lookup s (skill_path ?sv i) = Some NDir \<and> host_writable env i} \<longleftrightarrow> i \<in> dom (fs_users env s)"
      by (cases "host_writable env i") (simp_all add: writable_dir [OF assms(1)] users_unwritable dom_def)
  qed
  finally have "ss_skill_id ` {k \<in> set ks. ss_source k \<noteq> Builtin} = dom (fs_users env s)" .
  then show ?thesis using good run(1) by blast
qed

end
