(* ===== verification/Skill_Network.thy ===== *)
theory Skill_Network
  imports Skill_Host
begin

text \<open>
  The routes of the skills as the client uses them, and the network between the two: the agent host behind
  \<open>host_exchange\<close> meets the contract of \<open>Skill_Contract\<close>.
\<close>

section \<open>Bodies\<close>

lemma string_members_strings [simp]: "string_members (map (\<lambda>(k, v). (k, JStr v)) m) = Some m"
  by (induction m) auto

lemma btree_of_ok: "btree_ok m \<Longrightarrow> btree_of m = m"
  using btree_ok_distinct [of m] by (intro btree_eqI) (simp_all add: map_of_btree_of map_of_rev_distinct)

lemma files_of_strings: "btree_ok files \<Longrightarrow> files_of_json (strings_json files) = Some files"
  by (simp add: files_of_json_def strings_json_def btree_of_ok)

lemma create_body: "btree_ok files \<Longrightarrow>
    create_skill_request (JObj [(''skill_id'', JStr i), (''files'', strings_json files)]) = Some (i, files)"
  by (simp add: create_skill_request_def str_field_def files_of_strings)

lemma update_body: "btree_ok files \<Longrightarrow> update_skill_request (JObj [(''files'', strings_json files)]) = Some files"
  by (simp add: update_skill_request_def files_of_strings)

lemma host_skill_files: "map_of (case host_skill_json k of JObj ms \<Rightarrow> ms | _ \<Rightarrow> []) ''files'' = Some (strings_json (hs_files k))"
  by (simp add: host_skill_json_def)

lemma host_skill_object: "\<exists>ms. host_skill_json k = JObj ms \<and> map_of ms ''files'' = Some (strings_json (hs_files k))"
  by (simp add: host_skill_json_def)

lemma summaries_objects: "\<exists>mss. objects_from_values (map skill_summary_json ks) = Inr mss \<and>
    user_ids_of mss = map ss_skill_id (filter (\<lambda>k. ss_source k \<noteq> Builtin) ks)"
proof (induction ks)
  case (Cons k ks)
  then obtain mss where mss: "objects_from_values (map skill_summary_json ks) = Inr mss"
    "user_ids_of mss = map ss_skill_id (filter (\<lambda>k. ss_source k \<noteq> Builtin) ks)" by blast
  let ?k = "[(''skill_id'', JStr (ss_skill_id k)), (''source'', JStr (skill_source_str (ss_source k))),
    (''file_count'', JNum (int (ss_file_count k)))]"
  have "is_builtin_entry ?k \<longleftrightarrow> ss_source k = Builtin"
    by (cases "ss_source k") (simp_all add: is_builtin_entry_def str_field_def)
  then have "user_ids_of (?k # mss) = map ss_skill_id (filter (\<lambda>k. ss_source k \<noteq> Builtin) (k # ks))"
    using mss(2) by (simp add: user_ids_of_def str_field_def map_filter_simps)
  moreover have "objects_from_values (map skill_summary_json (k # ks)) = Inr (?k # mss)"
    using mss(1) by (simp add: skill_summary_json_def object_from_value_def)
  ultimately show ?case by blast
qed (simp add: user_ids_of_def map_filter_simps)

section \<open>Replies\<close>

definition refused :: "agent_reply \<Rightarrow> bool" where
  "refused rep \<longleftrightarrow> (case rep of NoReply _ \<Rightarrow> True | HttpReply status _ \<Rightarrow> \<not> success_status status)"

lemma refused_simps [simp]:
  "refused (NoReply e)" "refused (HttpReply status bd) \<longleftrightarrow> \<not> success_status status" "refused (spoil_body e rep) \<longleftrightarrow> refused rep"
  by (cases rep; simp add: refused_def)+

lemma skill_error_refused [simp]: "refused (skill_http_error rd e)"
  by (cases e) (simp_all add: skill_http_error_def success_status_def)

lemma routing_refused [simp]: "300 \<le> status \<Longrightarrow> refused (routing_error status)"
  by (simp add: routing_error_def success_status_def)

lemma answer_simps [simp]: "answer rd f (Inl e, s) = (skill_http_error rd e, s)" "answer rd f (Inr x, s) = (f x, s)"
  by (simp_all add: answer_def)

lemma send_refused: "ex rq h = (rep, h') \<Longrightarrow> refused rep \<Longrightarrow> \<exists>e. send_request ex rq h = (Inl e, h')"
  by (cases rep) (simp_all add: send_request_def)

lemma send_state: "ex rq h = (rep, h') \<Longrightarrow> send_request ex rq h = (r, h2) \<Longrightarrow> h2 = h'"
  by (cases rep) (auto simp: send_request_def split: if_splits)

lemma send_ok: "ex rq h = (HttpReply status bd, h') \<Longrightarrow> success_status status \<Longrightarrow> send_request ex rq h = (Inr bd, h')"
  by (simp add: send_request_def)

text \<open>A call through the transport: what it did, and what its answer says.\<close>

lemma call_object:
  assumes "request_object ex method path pl h = (r, h')"
  obtains rep where "ex \<lparr>rq_method = method, rq_path = path, rq_body = map_option JObj pl\<rparr> h = (rep, h')"
    "refused rep \<longrightarrow> (\<exists>e. r = Inl e)" "\<forall>ms. r = Inr ms \<longrightarrow> (\<exists>status. rep = HttpReply status (JsonBody (JObj ms)))"
proof -
  obtain rep h1 where 1: "ex \<lparr>rq_method = method, rq_path = path, rq_body = map_option JObj pl\<rparr> h = (rep, h1)" by force
  show thesis
  proof (cases rep)
    case (NoReply e)
    then show ?thesis using that [of rep] assms 1 by (auto simp: request_object_def request_json_def send_request_def)
  next
    case (HttpReply status bd)
    then show ?thesis using that [of rep] assms 1
      by (auto simp: request_object_def request_json_def send_request_def object_from_value_def
          split: if_splits http_body.splits json.splits)
  qed
qed

lemma call_array:
  assumes "request_array ex method path pl h = (r, h')"
  obtains rep where "ex \<lparr>rq_method = method, rq_path = path, rq_body = map_option JObj pl\<rparr> h = (rep, h')"
    "refused rep \<longrightarrow> (\<exists>e. r = Inl e)"
    "\<forall>mss. r = Inr mss \<longrightarrow> (\<exists>status js. rep = HttpReply status (JsonBody (JArr js)) \<and> objects_from_values js = Inr mss)"
proof -
  obtain rep h1 where 1: "ex \<lparr>rq_method = method, rq_path = path, rq_body = map_option JObj pl\<rparr> h = (rep, h1)" by force
  show thesis
  proof (cases rep)
    case (NoReply e)
    then show ?thesis using that [of rep] assms 1 by (auto simp: request_array_def request_json_def send_request_def)
  next
    case (HttpReply status bd)
    then show ?thesis using that [of rep] assms 1
      by (auto simp: request_array_def request_json_def send_request_def split: if_splits http_body.splits json.splits)
  qed
qed

lemma call_empty:
  assumes "request_empty ex method path h = (r, h')"
  obtains rep where "ex \<lparr>rq_method = method, rq_path = path, rq_body = None\<rparr> h = (rep, h')" "refused rep \<longrightarrow> (\<exists>e. r = Inl e)"
proof -
  obtain rep h1 where 1: "ex \<lparr>rq_method = method, rq_path = path, rq_body = None\<rparr> h = (rep, h1)" by force
  show thesis
    by (cases rep) (use that [of rep] assms 1 in \<open>auto simp: request_empty_def send_request_def split: if_splits\<close>)
qed

lemma answered_object:
  "ex \<lparr>rq_method = method, rq_path = path, rq_body = map_option JObj pl\<rparr> h = (json_reply (JObj ms), h') \<Longrightarrow>
   request_object ex method path pl h = (Inr ms, h')"
  by (simp add: request_object_def request_json_def send_request_def json_reply_def success_status_def object_from_value_def)

lemma answered_array:
  "ex \<lparr>rq_method = method, rq_path = path, rq_body = map_option JObj pl\<rparr> h = (json_reply (JArr js), h') \<Longrightarrow>
   objects_from_values js = Inr mss \<Longrightarrow> request_array ex method path pl h = (Inr mss, h')"
  by (simp add: request_array_def request_json_def send_request_def json_reply_def success_status_def)

section \<open>The network\<close>

lemma exchange_cases:
  assumes "host_exchange env rq w = (rep, w')" "host_handle env rq w = (r0, w0)"
  obtains e k where "rep = NoReply e" "w' = w\<lparr>hw_count := k\<rparr>"
  | k where "w' = w0\<lparr>hw_count := k\<rparr>" "refused r0 \<Longrightarrow> refused rep"
    "\<And>status j. rep = HttpReply status (JsonBody j) \<Longrightarrow> r0 = rep"
proof (cases "he_net env (hw_count w)")
  case Delivered
  then show ?thesis using that(2) [of "Suc (hw_count w0)"] assms by (simp add: host_exchange_def)
next
  case (NotSent e)
  then show ?thesis using that(1) [of e] assms by (auto simp: host_exchange_def)
next
  case (ReplyLost e)
  then show ?thesis using that(2) [of "Suc (hw_count w0)"] assms by (auto simp: host_exchange_def)
next
  case (BodyLost e)
  then have "rep = spoil_body e r0" "w' = w0\<lparr>hw_count := Suc (hw_count w0)\<rparr>" using assms by (simp_all add: host_exchange_def)
  then show ?thesis using that(2) [of "Suc (hw_count w0)"] by (cases r0) simp_all
qed

definition host_calm :: "'g host_env \<Rightarrow> 'g host_world \<Rightarrow> bool" where
  "host_calm env w \<longleftrightarrow> (\<forall>k \<ge> hw_count w. he_net env k = Delivered)"

lemma exchange_calm:
  assumes "host_calm env w" "host_handle env rq w = (r0, w0)" "hw_count w0 = hw_count w"
  obtains w' where "host_exchange env rq w = (r0, w')" "host_calm env w'"
  using assms by (auto simp: host_exchange_def host_calm_def)

lemma inv_count [simp]: "host_inv env n (w\<lparr>hw_count := k\<rparr>) = host_inv env n w" "host_users env (w\<lparr>hw_count := k\<rparr>) = host_users env w"
  by (simp_all add: host_inv_def host_users_def)

text \<open>What the network makes of an effect.\<close>

lemma exchange_effect:
  assumes "host_exchange env rq w = (rep, w')" "host_handle env rq w = (r0, w0)"
    and "host_inv env m w" "host_inv env m w0"
    and "P (host_users env w0) \<or> refused r0 \<and> host_users env w0 = host_users env w"
  shows "host_inv env m w' \<and> (P (host_users env w') \<or> refused rep \<and> host_users env w' = host_users env w)"
  by (rule exchange_cases [OF assms(1,2)]) (use assms(3-5) in auto)

lemma host_inv_less: "host_inv env (Suc n) w \<Longrightarrow> host_inv env n w"
  by (simp add: host_inv_def skills_good_less)

section \<open>The routes\<close>

abbreviation skill_request :: "string \<Rightarrow> string list \<Rightarrow> json option \<Rightarrow> agent_request" where
  "skill_request method path bd \<equiv> \<lparr>rq_method = method, rq_path = url_path path, rq_body = bd\<rparr>"

text \<open>The reply and the skills after the request.\<close>

definition handled :: "'g host_env \<Rightarrow> agent_request \<Rightarrow> 'g host_world \<Rightarrow> agent_reply \<times> fsys \<Rightarrow> bool" where
  "handled env rq w = (\<lambda>(r, s). host_handle env rq w = (r, w\<lparr>hw_fs := s\<rparr>))"

lemma handled_routes: "rq_path rq = ''skills'' # ps \<Longrightarrow>
    handled env rq w (host_skill_routes (he_libs env) (he_render env) (he_clock env (hw_count w)) (he_service env) rq (hw_fs w))"
  by (auto simp: handled_def host_handle_def split: prod.splits)

lemma answer_pair: "answer rd f (r, s) = (case r of Inl e \<Rightarrow> skill_http_error rd e | Inr x \<Rightarrow> f x, s)"
  by (cases r) simp_all

abbreviation skill_reply :: "'g host_env \<Rightarrow> (skill_error, host_skill) result \<Rightarrow> agent_reply" where
  "skill_reply env r \<equiv> (case r of Inl e \<Rightarrow> skill_http_error (he_render env) e | Inr k \<Rightarrow> json_reply (host_skill_json k))"

lemma Nil_eq: "([] = xs) = (xs = [])"
  by auto

lemmas route_simps = Nil_eq url_path_def host_skill_routes_def Let_def answer_pair

lemma handled_create:
  assumes "btree_ok files"
    and "host_create_skill (he_libs env) (he_clock env (hw_count w)) (he_service env) i files (hw_fs w) = (r, s)"
  shows "handled env (skill_request ''POST'' [''skills''] (Some (JObj [(''skill_id'', JStr i), (''files'', strings_json files)]))) w (skill_reply env r, s)"
  using handled_routes [of "skill_request ''POST'' [''skills''] (Some (JObj [(''skill_id'', JStr i), (''files'', strings_json files)]))" "[]" env w]
  by (simp add: route_simps skills_route_def with_body_def create_body [OF assms(1)] assms(2))

lemma handled_list:
  assumes "host_list_skills (he_service env) (hw_fs w) = (r, s)"
  shows "handled env \<lparr>rq_method = ''GET'', rq_path = [''skills''], rq_body = None\<rparr> w
    (case r of Inl e \<Rightarrow> skill_http_error (he_render env) e | Inr ks \<Rightarrow> json_reply (JArr (map skill_summary_json ks)), s)"
  using handled_routes [of "\<lparr>rq_method = ''GET'', rq_path = [''skills''], rq_body = None\<rparr>" "[]" env w]
  by (simp add: route_simps skills_route_def assms)

abbreviation plain_segment :: "string \<Rightarrow> bool" where
  "plain_segment i \<equiv> i \<notin> {[], ''.'', ''..''}"

lemma handled_get:
  assumes "plain_segment i" "host_get_skill (he_service env) i (hw_fs w) = (r, s)"
  shows "handled env (skill_request ''GET'' [''skills'', i] None) w (skill_reply env r, s)"
  using handled_routes [of "skill_request ''GET'' [''skills'', i] None" "[i]" env w] assms
  by (simp add: route_simps skill_route_def)

lemma handled_update:
  assumes "plain_segment i" "btree_ok files"
    and "host_update_skill (he_libs env) (he_clock env (hw_count w)) (he_service env) i files (hw_fs w) = (r, s)"
  shows "handled env (skill_request ''PUT'' [''skills'', i] (Some (JObj [(''files'', strings_json files)]))) w (skill_reply env r, s)"
  using handled_routes [of "skill_request ''PUT'' [''skills'', i] (Some (JObj [(''files'', strings_json files)]))" "[i]" env w] assms
  by (simp add: route_simps skill_route_def with_body_def update_body)

lemma handled_delete:
  assumes "plain_segment i" "host_delete_skill (he_service env) i (hw_fs w) = (r, s)"
  shows "handled env (skill_request ''DELETE'' [''skills'', i] None) w
    (case r of Inl e \<Rightarrow> skill_http_error (he_render env) e | Inr u \<Rightarrow> HttpReply 204 (BadBody ''no body''), s)"
  using handled_routes [of "skill_request ''DELETE'' [''skills'', i] None" "[i]" env w] assms
  by (simp add: route_simps skill_route_def)

text \<open>A segment that a URL cannot carry is answered by the router.\<close>

lemma handled_odd:
  assumes "\<not> plain_segment i" "method = ''PUT'' \<or> method = ''DELETE''"
  obtains k where "300 \<le> k" "handled env (skill_request method [''skills'', i] bd) w (routing_error k, hw_fs w)"
proof (cases "i = []")
  case True
  then show ?thesis using that [of 404] handled_routes [of "skill_request method [''skills'', i] bd" "[i]" env w]
    by (simp add: route_simps)
next
  case False
  then show ?thesis using that [of 405] handled_routes [of "skill_request method [''skills'', i] bd" "[]" env w] assms
    by (auto simp: route_simps skills_route_def)
qed

lemma show_nat_plain: "plain_segment (show_nat n)"
proof -
  have "c \<noteq> CHR ''.''" if "c \<in> set (show_nat n)" for c
    using that show_nat_digits [of n] digit_bytes by (auto simp: list_all_iff)
  then show ?thesis by auto
qed

lemma handled_rollback:
  obtains k where "300 \<le> k"
    "handled env (skill_request ''POST'' [''skills'', i, ''versions'', show_nat (unat v), ''rollback''] None) w (routing_error k, hw_fs w)"
  | u where "\<And>r s. host_rollback_skill (he_libs env) (he_clock env (hw_count w)) (he_service env) i u (hw_fs w) = (r, s) \<Longrightarrow>
     handled env (skill_request ''POST'' [''skills'', i, ''versions'', show_nat (unat v), ''rollback''] None) w (skill_reply env r, s)"
proof -
  let ?rq = "skill_request ''POST'' [''skills'', i, ''versions'', show_nat (unat v), ''rollback''] None"
  show thesis
  proof (cases "plain_segment i")
    case True
    have h: "handled env ?rq w (rollback_route (he_libs env) (he_render env) (he_clock env (hw_count w)) (he_service env) ''POST'' i
        (show_nat (unat v)) (hw_fs w))"
      using handled_routes [of ?rq "[i, ''versions'', show_nat (unat v), ''rollback'']" env w] True show_nat_plain [of "unat v"]
      by (simp add: route_simps)
    show ?thesis
    proof (cases "parse_u64 (show_nat (unat v))")
      case None
      then show ?thesis using h that(1) [of 400] by (simp add: rollback_route_def answer_pair)
    next
      case (Some u)
      show ?thesis by (rule that(2) [of u]) (use h Some in \<open>simp add: rollback_route_def answer_pair\<close>)
    qed
  next
    case False
    then have "handled env ?rq w (routing_error 404, hw_fs w)"
      using handled_routes [of ?rq "tl (url_path [''skills'', i, ''versions'', show_nat (unat v), ''rollback''])" env w] show_nat_plain [of "unat v"]
      by (auto simp: route_simps)
    then show ?thesis using that(1) [of 404] by simp
  qed
qed

section \<open>The contract\<close>

lemma handled_effect:
  assumes "host_exchange env rq w = (rep, w')" "handled env rq w (r0, s)" "host_inv env m w" "skills_good env m s"
    and "P (fs_users env s) \<or> refused r0 \<and> fs_users env s = host_users env w"
  shows "host_inv env m w' \<and> (P (host_users env w') \<or> refused rep \<and> host_users env w' = host_users env w)"
  by (rule exchange_effect [OF assms(1) _ assms(3), of r0 "w\<lparr>hw_fs := s\<rparr>"])
    (use assms(2,4,5) in \<open>simp_all add: handled_def host_inv_def host_users_def\<close>)

lemma handled_json:
  assumes "host_exchange env rq w = (HttpReply status (JsonBody j), w')" "handled env rq w (r0, s)"
  shows "r0 = HttpReply status (JsonBody j)"
  by (rule exchange_cases [OF assms(1), of r0 "w\<lparr>hw_fs := s\<rparr>"]) (use assms(2) in \<open>auto simp: handled_def\<close>)

lemma law_create:
  assumes "host_inv env (Suc n) w" "proper_files files" "ah_create_skill (host_exchange env) i files w = (r, w')"
  shows "host_inv env n w' \<and> (host_users env w i = None \<and> host_users env w' = (host_users env w)(i \<mapsto> files) \<or>
    (\<exists>e. r = Inl e) \<and> host_users env w' = host_users env w)"
proof -
  obtain rep where rep: "host_exchange env (skill_request ''POST'' [''skills''] (Some (JObj [(''skill_id'', JStr i), (''files'', strings_json files)]))) w = (rep, w')"
    "refused rep \<longrightarrow> (\<exists>e. r = Inl e)"
    by (rule call_object [OF assms(3) [unfolded ah_create_skill_def]]) auto
  obtain r0 s where c: "host_create_skill (he_libs env) (he_clock env (hw_count w)) (he_service env) i files (hw_fs w) = (r0, s)" by force
  note eff = create_effect [OF assms(1) [unfolded host_inv_def] assms(2) c]
  have "host_inv env n w' \<and> ((\<lambda>u. host_users env w i = None \<and> u = (host_users env w)(i \<mapsto> files)) (host_users env w') \<or>
      refused rep \<and> host_users env w' = host_users env w)"
    by (rule handled_effect [OF rep(1) handled_create [OF proper_filesD(2) [OF assms(2)] c] host_inv_less [OF assms(1)]])
      (use eff in \<open>auto simp: host_users_def split: if_splits\<close>)
  then show ?thesis using rep(2) by blast
qed

lemma law_update:
  assumes "host_inv env (Suc n) w" "proper_files files" "ah_update_skill (host_exchange env) i files w = (r, w')"
  shows "host_inv env n w' \<and> (host_users env w i \<noteq> None \<and> host_users env w' = (host_users env w)(i \<mapsto> files) \<or>
    (\<exists>e. r = Inl e) \<and> host_users env w' = host_users env w)"
proof -
  let ?rq = "skill_request ''PUT'' [''skills'', i] (Some (JObj [(''files'', strings_json files)]))"
  obtain rep where rep: "host_exchange env ?rq w = (rep, w')" "refused rep \<longrightarrow> (\<exists>e. r = Inl e)"
    by (rule call_object [OF assms(3) [unfolded ah_update_skill_def]]) auto
  have "host_inv env n w' \<and> ((\<lambda>u. host_users env w i \<noteq> None \<and> u = (host_users env w)(i \<mapsto> files)) (host_users env w') \<or>
      refused rep \<and> host_users env w' = host_users env w)"
  proof (cases "plain_segment i")
    case True
    obtain r0 s where c: "host_update_skill (he_libs env) (he_clock env (hw_count w)) (he_service env) i files (hw_fs w) = (r0, s)" by force
    note eff = update_effect [OF assms(1) [unfolded host_inv_def] assms(2) c]
    show ?thesis
      by (rule handled_effect [OF rep(1) handled_update [OF True proper_filesD(2) [OF assms(2)] c] host_inv_less [OF assms(1)]])
        (use eff in \<open>auto simp: host_users_def split: if_splits\<close>)
  next
    case False
    obtain k where k: "300 \<le> k" "handled env ?rq w (routing_error k, hw_fs w)" by (rule handled_odd [OF False, of "''PUT''"]) simp
    show ?thesis by (rule handled_effect [OF rep(1) k(2) host_inv_less [OF assms(1)]])
        (use k(1) host_inv_less [OF assms(1)] in \<open>simp_all add: host_users_def host_inv_def\<close>)
  qed
  then show ?thesis using rep(2) by blast
qed

lemma law_delete:
  assumes "host_inv env n w" "ah_delete_skill (host_exchange env) i w = (r, w')"
  shows "host_inv env n w' \<and> (host_users env w i \<noteq> None \<and> host_users env w' = (host_users env w)(i := None) \<or>
    (\<exists>e. r = Inl e) \<and> host_users env w' = host_users env w)"
proof -
  let ?rq = "skill_request ''DELETE'' [''skills'', i] None"
  obtain rep where rep: "host_exchange env ?rq w = (rep, w')" "refused rep \<longrightarrow> (\<exists>e. r = Inl e)"
    by (rule call_empty [OF assms(2) [unfolded ah_delete_skill_def]]) auto
  have "host_inv env n w' \<and> ((\<lambda>u. host_users env w i \<noteq> None \<and> u = (host_users env w)(i := None)) (host_users env w') \<or>
      refused rep \<and> host_users env w' = host_users env w)"
  proof (cases "plain_segment i")
    case True
    obtain r0 s where c: "host_delete_skill (he_service env) i (hw_fs w) = (r0, s)" by force
    note eff = delete_effect [OF assms(1) [unfolded host_inv_def] c]
    show ?thesis
      by (rule handled_effect [OF rep(1) handled_delete [OF True c] assms(1)])
        (use eff in \<open>auto simp: host_users_def split: if_splits\<close>)
  next
    case False
    obtain k where k: "300 \<le> k" "handled env ?rq w (routing_error k, hw_fs w)" by (rule handled_odd [OF False, of "''DELETE''"]) simp
    show ?thesis by (rule handled_effect [OF rep(1) k(2) assms(1)])
        (use k(1) assms(1) in \<open>simp_all add: host_users_def host_inv_def\<close>)
  qed
  then show ?thesis using rep(2) by blast
qed

abbreviation list_request :: agent_request where
  "list_request \<equiv> \<lparr>rq_method = ''GET'', rq_path = [''skills''], rq_body = None\<rparr>"

lemma listed:
  assumes "host_exchange env list_request w = (rep, w')" "host_inv env n w"
  obtains ks where "host_inv env n w'" "host_users env w' = host_users env w"
    "handled env list_request w (json_reply (JArr (map skill_summary_json ks)), snd (host_list_skills (he_service env) (hw_fs w)))"
    "ss_skill_id ` {k \<in> set ks. ss_source k \<noteq> Builtin} = dom (host_users env w)"
proof -
  obtain r0 s where c: "host_list_skills (he_service env) (hw_fs w) = (r0, s)" by force
  obtain ks where ks: "r0 = Inr ks" "skills_good env n s" "fs_users env s = host_users env w"
    "ss_skill_id ` {k \<in> set ks. ss_source k \<noteq> Builtin} = dom (host_users env w)"
    using list_effect [OF assms(2) [unfolded host_inv_def] c] by (auto simp: host_users_def)
  have h: "handled env list_request w (json_reply (JArr (map skill_summary_json ks)), s)"
    using handled_list [OF c] by (simp add: ks(1))
  have "host_inv env n w' \<and> ((\<lambda>u. u = host_users env w) (host_users env w') \<or> refused rep \<and> host_users env w' = host_users env w)"
    by (rule handled_effect [OF assms(1) h assms(2) ks(2)]) (simp add: ks(3))
  then show ?thesis using that h ks(4) c by auto
qed

lemma law_list:
  assumes "host_inv env n w" "ah_list_skills (host_exchange env) w = (r, w')"
  shows "host_inv env n w' \<and> host_users env w' = host_users env w \<and>
    (\<forall>mss. r = Inr mss \<longrightarrow> set (user_ids_of mss) = dom (host_users env w))"
proof -
  obtain rep where rep: "host_exchange env list_request w = (rep, w')"
    "\<forall>mss. r = Inr mss \<longrightarrow> (\<exists>status js. rep = HttpReply status (JsonBody (JArr js)) \<and> objects_from_values js = Inr mss)"
    by (rule call_array [OF assms(2) [unfolded ah_list_skills_def]]) (auto simp: url_path_def)
  obtain ks where ks: "host_inv env n w'" "host_users env w' = host_users env w"
    "handled env list_request w (json_reply (JArr (map skill_summary_json ks)), snd (host_list_skills (he_service env) (hw_fs w)))"
    "ss_skill_id ` {k \<in> set ks. ss_source k \<noteq> Builtin} = dom (host_users env w)"
    using listed [OF rep(1) assms(1)] .
  have "set (user_ids_of mss) = dom (host_users env w)" if "r = Inr mss" for mss
  proof -
    obtain status js where j: "rep = HttpReply status (JsonBody (JArr js))" "objects_from_values js = Inr mss"
      using rep(2) \<open>r = Inr mss\<close> by blast
    have "js = map skill_summary_json ks"
      using handled_json [OF rep(1) [unfolded j(1)] ks(3)] by (simp add: json_reply_def)
    moreover obtain mss' where "objects_from_values (map skill_summary_json ks) = Inr mss'"
      "user_ids_of mss' = map ss_skill_id (filter (\<lambda>k. ss_source k \<noteq> Builtin) ks)" using summaries_objects by blast
    ultimately have "user_ids_of mss = map ss_skill_id (filter (\<lambda>k. ss_source k \<noteq> Builtin) ks)" using j(2) by simp
    then show ?thesis using ks(4) by simp
  qed
  then show ?thesis using ks(1,2) by blast
qed

lemma users_plain:
  assumes "host_users env w i \<noteq> None"
  shows "plain_segment i"
proof -
  have "host_writable env i" using assms users_unwritable [of env i "hw_fs w"] unfolding host_users_def by (cases "host_writable env i") simp_all
  then show ?thesis unfolding host_writable_def by (rule valid_id_segment [OF conjunct1])
qed

lemma law_get:
  assumes "host_inv env n w" "ah_get_skill (host_exchange env) i w = (r, w')"
  shows "host_inv env n w' \<and> host_users env w' = host_users env w \<and>
    (\<forall>ms files. r = Inr ms \<longrightarrow> host_users env w i = Some files \<longrightarrow> map_of ms ''files'' = Some (strings_json files))"
proof -
  let ?rq = "skill_request ''GET'' [''skills'', i] None"
  obtain rep where rep: "host_exchange env ?rq w = (rep, w')"
    "\<forall>ms. r = Inr ms \<longrightarrow> (\<exists>status. rep = HttpReply status (JsonBody (JObj ms)))"
    by (rule call_object [OF assms(2) [unfolded ah_get_skill_def]]) auto
  show ?thesis
  proof (cases "plain_segment i")
    case True
    obtain r0 s where c: "host_get_skill (he_service env) i (hw_fs w) = (r0, s)" by force
    note eff = get_effect [OF assms(1) [unfolded host_inv_def] c]
    note h = handled_get [OF True c]
    have "host_inv env n w' \<and> ((\<lambda>u. u = host_users env w) (host_users env w') \<or> refused rep \<and> host_users env w' = host_users env w)"
      by (rule handled_effect [OF rep(1) h assms(1)]) (use eff in \<open>simp_all add: host_users_def\<close>)
    moreover have "map_of ms ''files'' = Some (strings_json files)" if ms: "r = Inr ms" and files: "host_users env w i = Some files" for ms files
    proof -
      obtain status where j: "rep = HttpReply status (JsonBody (JObj ms))" using rep(2) ms by blast
      have "r0 = Inr (user_skill i files)" using eff files by (simp add: host_users_def)
      then have "JObj ms = host_skill_json (user_skill i files)"
        using handled_json [OF rep(1) [unfolded j] h] by (simp add: json_reply_def)
      then show ?thesis using host_skill_object [of "user_skill i files"] by auto
    qed
    ultimately show ?thesis by blast
  next
    case False
    have none: "host_users env w i = None"
      using False users_plain [of env w i] by blast
    show ?thesis
    proof (cases "i = []")
      case True
      have h: "handled env ?rq w (routing_error 404, hw_fs w)"
        using handled_routes [of ?rq "[i]" env w] by (simp add: route_simps True)
      have "host_inv env n w' \<and> ((\<lambda>u. u = host_users env w) (host_users env w') \<or> refused rep \<and> host_users env w' = host_users env w)"
        by (rule handled_effect [OF rep(1) h assms(1)]) (use assms(1) in \<open>simp_all add: host_users_def host_inv_def\<close>)
      then show ?thesis using none by auto
    next
      case False
      then have "?rq = list_request" using \<open>\<not> plain_segment i\<close> by (auto simp: url_path_def)
      then have x: "host_exchange env list_request w = (rep, w')" using rep(1) by simp
      show ?thesis by (rule listed [OF x assms(1)]) (simp add: none)
    qed
  qed
qed

lemma law_rollback:
  assumes "host_inv env (Suc n) w" "ah_rollback_skill (host_exchange env) i v w = (r, w')"
  shows "host_inv env n w' \<and> ((\<exists>files. host_users env w i \<noteq> None \<and> host_users env w' = (host_users env w)(i \<mapsto> files) \<and>
      (\<forall>ms. r = Inr ms \<longrightarrow> map_of ms ''files'' = Some (strings_json files))) \<or>
    (\<exists>e. r = Inl e) \<and> host_users env w' = host_users env w)"
proof -
  let ?rq = "skill_request ''POST'' [''skills'', i, ''versions'', show_nat (unat v), ''rollback''] None"
  note less = host_inv_less [OF assms(1)]
  obtain rep where rep: "host_exchange env ?rq w = (rep, w')" "refused rep \<longrightarrow> (\<exists>e. r = Inl e)"
    "\<forall>ms. r = Inr ms \<longrightarrow> (\<exists>status. rep = HttpReply status (JsonBody (JObj ms)))"
    by (rule call_object [OF assms(2) [unfolded ah_rollback_skill_def]]) auto
  show ?thesis
  proof (cases rule: handled_rollback [of env i v w])
    case (1 k)
    have "host_inv env n w' \<and> ((\<lambda>_. False) (host_users env w') \<or> refused rep \<and> host_users env w' = host_users env w)"
      by (rule handled_effect [OF rep(1) 1(2) less]) (use 1(1) less in \<open>simp_all add: host_users_def host_inv_def\<close>)
    then show ?thesis using rep(2) by blast
  next
    case (2 u)
    obtain r0 s where c: "host_rollback_skill (he_libs env) (he_clock env (hw_count w)) (he_service env) i u (hw_fs w) = (r0, s)" by force
    note h = 2 [OF c]
    from rollback_effect [OF assms(1) [unfolded host_inv_def] c] show ?thesis
    proof
      assume "\<exists>files. fs_users env (hw_fs w) i \<noteq> None \<and> r0 = Inr (user_skill i files) \<and> skills_good env n s \<and>
        fs_users env s = (fs_users env (hw_fs w))(i \<mapsto> files)"
      then obtain files where f: "fs_users env (hw_fs w) i \<noteq> None" "r0 = Inr (user_skill i files)" "skills_good env n s"
        "fs_users env s = (fs_users env (hw_fs w))(i \<mapsto> files)" by blast
      have "host_inv env n w' \<and> ((\<lambda>u. u = (host_users env w)(i \<mapsto> files)) (host_users env w') \<or>
          refused rep \<and> host_users env w' = host_users env w)"
        by (rule handled_effect [OF rep(1) h less f(3)]) (simp add: host_users_def f(4))
      moreover have "map_of ms ''files'' = Some (strings_json files)" if ms: "r = Inr ms" for ms
      proof -
        obtain status where j: "rep = HttpReply status (JsonBody (JObj ms))" using rep(3) ms by blast
        have "JObj ms = host_skill_json (user_skill i files)"
          using handled_json [OF rep(1) [unfolded j] h] by (simp add: json_reply_def f(2))
        then show ?thesis using host_skill_object [of "user_skill i files"] by auto
      qed
      ultimately show ?thesis using rep(2) f(1) by (auto simp: host_users_def)
    next
      assume f: "(\<exists>e. r0 = Inl e) \<and> skills_good env n s \<and> fs_users env s = fs_users env (hw_fs w)"
      have "host_inv env n w' \<and> ((\<lambda>_. False) (host_users env w') \<or> refused rep \<and> host_users env w' = host_users env w)"
        by (rule handled_effect [OF rep(1) h less]) (use f in \<open>auto simp: host_users_def\<close>)
      then show ?thesis using rep(2) by blast
    qed
  qed
qed

lemma law_elsewhere:
  assumes "host_inv env n w" "rq_path rq = p # ps" "p \<noteq> ''skills''" "host_exchange env rq w = (rep, w')"
  shows "host_inv env n w' \<and> host_users env w' = host_users env w"
proof -
  obtain r g where g: "he_other env rq (hw_other w) = (r, g)" by force
  then have "host_handle env rq w = (r, w\<lparr>hw_other := g\<rparr>)" using assms(2,3) by (simp add: host_handle_def)
  from exchange_cases [OF assms(4) this] show ?thesis
    by cases (use assms(1) in \<open>simp_all add: host_inv_def host_users_def\<close>)
qed

section \<open>Answers on a quiet network\<close>

lemma handled_calm:
  assumes "host_calm env w" "handled env rq w (r0, s)"
  obtains w' where "host_exchange env rq w = (r0, w')" "host_calm env w'"
  by (rule exchange_calm [OF assms(1), of rq r0 "w\<lparr>hw_fs := s\<rparr>"]) (use assms(2) that in \<open>auto simp: handled_def\<close>)

lemma handled_object:
  assumes "host_calm env w" "handled env (skill_request method path (map_option JObj pl)) w (json_reply (host_skill_json k), s)"
  shows "\<exists>ms w'. request_object (host_exchange env) method (url_path path) pl w = (Inr ms, w') \<and> host_calm env w'"
proof -
  obtain w' where w': "host_exchange env (skill_request method path (map_option JObj pl)) w = (json_reply (host_skill_json k), w')" "host_calm env w'"
    using handled_calm [OF assms] .
  obtain ms where "host_skill_json k = JObj ms" using host_skill_object by blast
  then show ?thesis using answered_object [of "host_exchange env"] w' by metis
qed

lemma answers_list:
  assumes "host_inv env n w" "host_calm env w"
  shows "\<exists>mss w'. ah_list_skills (host_exchange env) w = (Inr mss, w') \<and> host_calm env w'"
proof -
  obtain rep w1 where x: "host_exchange env list_request w = (rep, w1)" by force
  obtain ks where ks: "handled env list_request w (json_reply (JArr (map skill_summary_json ks)), snd (host_list_skills (he_service env) (hw_fs w)))"
    using listed [OF x assms(1)] .
  obtain w' where w': "host_exchange env list_request w = (json_reply (JArr (map skill_summary_json ks)), w')" "host_calm env w'"
    using handled_calm [OF assms(2) ks] .
  obtain mss where "objects_from_values (map skill_summary_json ks) = Inr mss" using summaries_objects by blast
  from answered_array [of "host_exchange env" "''GET''" "[''skills'']" None, simplified, OF w'(1) this] show ?thesis
    using w'(2) by (simp add: ah_list_skills_def url_path_def)
qed

lemma answers_get:
  assumes "host_inv env n w" "host_calm env w" "host_users env w i \<noteq> None"
  shows "\<exists>ms w'. ah_get_skill (host_exchange env) i w = (Inr ms, w') \<and> host_calm env w'"
proof -
  have plain: "plain_segment i"
    by (rule users_plain [OF assms(3)])
  obtain files where files: "fs_users env (hw_fs w) i = Some files" using assms(3) by (auto simp: host_users_def)
  obtain r0 s where c: "host_get_skill (he_service env) i (hw_fs w) = (r0, s)" by force
  have "r0 = Inr (user_skill i files)" using get_effect [OF assms(1) [unfolded host_inv_def] c] files by blast
  then have "handled env (skill_request ''GET'' [''skills'', i] (map_option JObj None)) w (json_reply (host_skill_json (user_skill i files)), s)"
    using handled_get [OF plain c] by simp
  from handled_object [OF assms(2) this] show ?thesis by (simp add: ah_get_skill_def)
qed

lemma answers_create:
  assumes "host_inv env (Suc n) w" "host_calm env w" "host_users env w i = None" "host_writable env i" "proper_files files"
  shows "\<exists>ms w'. ah_create_skill (host_exchange env) i files w = (Inr ms, w') \<and> host_calm env w'"
proof -
  obtain r0 s where c: "host_create_skill (he_libs env) (he_clock env (hw_count w)) (he_service env) i files (hw_fs w) = (r0, s)" by force
  have "r0 = Inr (user_skill i files)"
    using create_effect [OF assms(1) [unfolded host_inv_def] assms(5) c] assms(3,4) by (simp add: host_users_def)
  then have "handled env (skill_request ''POST'' [''skills''] (map_option JObj (Some [(''skill_id'', JStr i), (''files'', strings_json files)]))) w
      (json_reply (host_skill_json (user_skill i files)), s)"
    using handled_create [OF proper_filesD(2) [OF assms(5)] c] by simp
  from handled_object [OF assms(2) this] show ?thesis by (simp add: ah_create_skill_def)
qed

lemma answers_update:
  assumes "host_inv env (Suc n) w" "host_calm env w" "host_users env w i \<noteq> None" "proper_files files"
  shows "\<exists>ms w'. ah_update_skill (host_exchange env) i files w = (Inr ms, w') \<and> host_calm env w'"
proof -
  have plain: "plain_segment i"
    by (rule users_plain [OF assms(3)])
  obtain r0 s where c: "host_update_skill (he_libs env) (he_clock env (hw_count w)) (he_service env) i files (hw_fs w) = (r0, s)" by force
  have "r0 = Inr (user_skill i files)"
    using update_effect [OF assms(1) [unfolded host_inv_def] assms(4) c] assms(3) by (simp add: host_users_def)
  then have "handled env (skill_request ''PUT'' [''skills'', i] (map_option JObj (Some [(''files'', strings_json files)]))) w
      (json_reply (host_skill_json (user_skill i files)), s)"
    using handled_update [OF plain proper_filesD(2) [OF assms(4)] c] by simp
  from handled_object [OF assms(2) this] show ?thesis by (simp add: ah_update_skill_def)
qed

lemma answers_delete:
  assumes "host_inv env n w" "host_calm env w" "host_users env w i \<noteq> None"
  shows "\<exists>u w'. ah_delete_skill (host_exchange env) i w = (Inr u, w') \<and> host_calm env w'"
proof -
  have plain: "plain_segment i"
    by (rule users_plain [OF assms(3)])
  obtain r0 s where c: "host_delete_skill (he_service env) i (hw_fs w) = (r0, s)" by force
  have "r0 = Inr ()"
    using delete_effect [OF assms(1) [unfolded host_inv_def] c] assms(3) by (simp add: host_users_def)
  then have h: "handled env (skill_request ''DELETE'' [''skills'', i] None) w (HttpReply 204 (BadBody ''no body''), s)"
    using handled_delete [OF plain c] by simp
  obtain w' where "host_exchange env (skill_request ''DELETE'' [''skills'', i] None) w = (HttpReply 204 (BadBody ''no body''), w')" "host_calm env w'"
    using handled_calm [OF assms(2) h] .
  then show ?thesis by (simp add: ah_delete_skill_def request_empty_def send_request_def success_status_def)
qed

section \<open>The interpretation\<close>

lemma law_proper: "host_inv env n w \<Longrightarrow> host_users env w i = Some files \<Longrightarrow> proper_files files"
  unfolding host_inv_def host_users_def by (erule users_Some) (auto simp: skill_holds_def)

interpretation hk: answering_host "host_exchange env" "host_users env" "host_inv env" "host_calm env" "host_writable env"
  for env :: "'g host_env"
proof unfold_locales
qed (fact host_inv_less law_proper law_list law_get law_create law_update law_delete law_rollback law_elsewhere
  answers_list answers_get answers_create answers_update answers_delete)+

end
