(* ===== verification/Sync_Claims.thy ===== *)
theory Sync_Claims
  imports Skill_Network Config_Claims Skill_Claims
begin

text \<open>
  What holds between the configuration document of the client service and the skills of the agent host, when the two
  talk over a network that may lose any request or reply and the disk of the host answers every call.
\<close>

section \<open>Sample data\<close>

text \<open>A codec for every snapshot: its texts in hexadecimal, separated by commas.\<close>

fun hex_text :: "string \<Rightarrow> string" where
  "hex_text [] = []"
| "hex_text (c # s) = char_of (97 + byte_val c div 16) # char_of (97 + byte_val c mod 16) # hex_text s"

fun unhex_text :: "string \<Rightarrow> string" where
  "unhex_text (a # b # s) = char_of (16 * (byte_val a - 97) + (byte_val b - 97)) # unhex_text s"
| "unhex_text _ = []"

fun file_texts :: "(string \<times> string) list \<Rightarrow> string list" where
  "file_texts [] = []" | "file_texts ((k, c) # fs) = k # c # file_texts fs"

fun text_files :: "string list \<Rightarrow> (string \<times> string) list" where
  "text_files (k # c # xs) = (k, c) # text_files xs" | "text_files _ = []"

definition version_text :: "skill_version \<Rightarrow> string" where
  "version_text h = join_with '','' (map hex_text (skv_created_at h # skv_skill_id h # pad20 (skv_version h) # file_texts (skv_files h)))"

definition text_version :: "string \<Rightarrow> (string, skill_version) result" where
  "text_version t =
     (case map unhex_text (split_on (CHR '','') t) of
        created # i # v # fs \<Rightarrow>
          (case parse_u64 v of
             Some n \<Rightarrow> Inr \<lparr>skv_skill_id = i, skv_version = n, skv_created_at = created, skv_files = text_files fs\<rparr>
           | None \<Rightarrow> Inl ''no version'')
      | _ \<Rightarrow> Inl ''not a snapshot'')"

definition hex_libs :: skill_libs where
  "hex_libs = sample_libs\<lparr>version_to_json := \<lambda>h. Inr (version_text h), version_of_json := text_version\<rparr>"

lemma hex_bytes: "byte_val (char_of (97 + byte_val c div 16)) = 97 + byte_val c div 16"
    "byte_val (char_of (97 + byte_val c mod 16)) = 97 + byte_val c mod 16" "byte_val c < 256"
proof -
  show b: "byte_val c < 256" by (simp add: byte_val_def)
  show "byte_val (char_of (97 + byte_val c div 16)) = 97 + byte_val c div 16"
    "byte_val (char_of (97 + byte_val c mod 16)) = 97 + byte_val c mod 16"
  proof -
    have "97 + byte_val c div 16 < 256" "97 + byte_val c mod 16 < 256" using b by (simp_all add: less_mult_imp_div_less)
    then show "byte_val (char_of (97 + byte_val c div 16)) = 97 + byte_val c div 16"
      "byte_val (char_of (97 + byte_val c mod 16)) = 97 + byte_val c mod 16"
      by (simp_all only: byte_val_def of_char_of mod_less)
  qed
qed

lemma unhex_hex [simp]: "unhex_text (hex_text s) = s"
proof (induction s)
  case (Cons c s)
  have "16 * (byte_val c div 16) + byte_val c mod 16 = byte_val c" by simp
  then show ?case using Cons by (simp add: hex_bytes) (simp add: byte_val_def)
qed simp

lemma hex_ascii: "x \<in> set (hex_text s) \<Longrightarrow> 97 \<le> byte_val x \<and> byte_val x < 128"
proof (induction s)
  case (Cons c s)
  have "byte_val c div 16 < 16" using hex_bytes(3) [of c] by simp
  moreover have "byte_val c mod 16 < 16" by simp
  ultimately show ?case using Cons hex_bytes(1,2) [of c] by auto
qed simp

lemma text_files_texts [simp]: "text_files (file_texts fs) = fs"
  by (induction fs rule: file_texts.induct) simp_all

lemma hex_kept: "version_kept hex_libs h"
proof -
  let ?xs = "skv_created_at h # skv_skill_id h # pad20 (skv_version h) # file_texts (skv_files h)"
  have comma: "byte_val (CHR '','') = 44" by code_simp
  have free: "CHR '','' \<notin> set x" if x: "x \<in> set (map hex_text ?xs)" for x
  proof
    assume "CHR '','' \<in> set x"
    then show False using x hex_ascii [of "CHR '',''"] comma by auto
  qed
  have split: "split_on (CHR '','') (version_text h) = map hex_text ?xs"
    unfolding version_text_def by (rule split_join) (use free in auto)
  have "is_utf8 (version_text h)"
  proof (rule is_utf8_ascii, rule ballI)
    fix c assume c: "c \<in> set (version_text h)"
    have "\<forall>p \<in> set (split_on (CHR '','') (version_text h)). list_all (\<lambda>c. byte_val c < 128) p"
      unfolding split using hex_ascii by (auto simp: list_all_iff)
    from split_on_all [OF this c] show "byte_val c < 0x80" using comma by auto
  qed
  moreover have "text_version (version_text h) = Inr h"
    unfolding text_version_def split by (simp add: parse_pad20 o_def)
  ultimately show ?thesis by (simp add: version_kept_def hex_libs_def)
qed

text \<open>A host without user skills behind a network that loses the reply to one request.\<close>

definition sync_env :: "nat \<Rightarrow> unit host_env" where
  "sync_env lost = \<lparr>he_libs = hex_libs, he_render = (\<lambda>_. ''error''), he_service = sample_service, he_clock = (\<lambda>_. ''now''),
     he_net = (\<lambda>k. if k = lost then ReplyLost ''timeout'' else Delivered),
     he_other = (\<lambda>_ g. (json_reply (JArr []), g))\<rparr>"

definition sync_world :: "nat \<Rightarrow> unit host_world" where
  "sync_world k = \<lparr>hw_fs = sample_host, hw_count = k, hw_other = ()\<rparr>"

lemma sample_lookup: "lookup sample_host q = (if q = [] then Some NDir else None)"
  by (simp add: lookup_def sample_host_def)

lemma sync_lacks: "host_writable (sync_env lost) i \<Longrightarrow> lacks_skill (sync_env lost) sample_host i []"
  using sample_absent
  by (auto simp: skill_absent_def host_writable_def sync_env_def holds_history_def sample_lookup valid_paths)

lemma sync_inv: "n < 1000 \<Longrightarrow> host_inv (sync_env lost) n (sync_world k)"
proof -
  assume n: "n < 1000"
  have "2 * int n < 2 ^ 64 - 1" using n by simp
  then have "history_room n []" by (simp add: history_room_def last_version_Nil)
  then have "skill_slot (sync_env lost) n sample_host i" if "host_writable (sync_env lost) i" for i
    using sync_lacks [OF that] by (auto simp: skill_slot_def)
  moreover have "versions_kept (sync_env lost)" by (simp add: versions_kept_def sync_env_def hex_kept)
  moreover have "calm_tree sample_host" using sample_absent by (simp add: skill_absent_def)
  ultimately show ?thesis by (simp add: host_inv_def skills_good_def sync_world_def sample_lookup)
qed

lemma sync_users: "host_users (sync_env lost) (sync_world k) = (\<lambda>_. None)"
proof
  fix i
  show "host_users (sync_env lost) (sync_world k) i = None"
    using users_lacking [OF sync_lacks [of lost i]] users_unwritable [of "sync_env lost" i]
    by (cases "host_writable (sync_env lost) i") (simp_all add: host_users_def sync_world_def)
qed

text \<open>A document with one skill, and libraries that know it.\<close>

definition s_files :: "string btree" where "s_files = [(''SKILL.md'', ''b'')]"

lemma s_files_proper: "proper_files s_files"
  by code_simp

definition s_doc :: config_document where
  "s_doc = \<lparr>metadata_name = DEFAULT_METADATA_NAME,
     spec = default_spec\<lparr>cs_skills := [\<lparr>sk_id = ''notes'', sk_files = s_files\<rparr>]\<rparr>\<rparr>"

definition s_libs :: libs where
  "s_libs = w_libs\<lparr>lib_codecs := w_codecs\<lparr>
     aggregate_of_yaml := (\<lambda>v. case yaml_get v ''text'' of
        Some (YString t) \<Rightarrow> if t = ''2'' then Inr (into_aggregate s_doc) else Inl ''unknown''
      | _ \<Rightarrow> Inl ''no text''),
     aggregate_to_yaml := (\<lambda>m. if m = into_aggregate s_doc then Inr ''2''
        else if m = into_aggregate default_document then Inr ''0'' else Inl ''too large'')\<rparr>\<rparr>"

definition s_client :: client_env where
  "s_client = \<lparr>ce_libs = s_libs, ce_render = (\<lambda>_. ''error''), ce_now = ''t''\<rparr>"

definition s_state :: "config_document \<Rightarrow> nat \<Rightarrow> unit host_world client_state" where
  "s_state doc k = \<lparr>cl_config = w_0\<lparr>cf_active := doc\<rparr>, cl_host = sync_world k, cl_warned = []\<rparr>"

section \<open>Skills that stay in step\<close>

text \<open>
  (C37) A document is applied to the skills of the host entirely or not at all: when the request is answered with
  success, the document is the one that was sent and the skills of the user on the host are exactly its skills; when it
  is answered with an error, the document is the old one, and every skill of the host is as before, except for the one
  whose operation failed without an answer and those whose restoration failed as well, which are recorded as warnings.
  This holds whatever the network loses.
\<close>

theorem apply_all_or_nothing:
  assumes "host_inv env (2 * k + 2 * card (dom (host_users env (cl_host st))) + n) (cl_host st)"
    and "\<And>doc. parse_source (ce_libs ce) (source_kind_from_headers ct) src = Inr doc \<Longrightarrow>
      length (skills_of doc) \<le> k \<and> (\<forall>sk \<in> set (skills_of doc). proper_files (sk_files sk))"
  shows "case apply_config_handler (host_exchange env) ce ct im src st of
      (Inr a, st') \<Rightarrow>
        parse_source (ce_libs ce) (source_kind_from_headers ct) src = Inr (cf_active (cl_config st')) \<and>
        host_users env (cl_host st') = skill_files_of (cf_active (cl_config st')) \<and> cl_warned st' = cl_warned st
    | (Inl e, st') \<Rightarrow>
        cf_active (cl_config st') = cf_active (cl_config st) \<and>
        (\<exists>i w. cl_warned st' = cl_warned st @ w \<and>
          agree_off (insert i (set w)) (host_users env (cl_host st')) (host_users env (cl_host st)))"
proof -
  obtain r st' where run: "apply_config_handler (host_exchange env) ce ct im src st = (r, st')" by force
  note off = hk.apply_off [OF assms run]
  show ?thesis using off(2,3) by (cases r) (auto simp: run hk.aborted_def)
qed

theorem apply_all_or_nothing_witness:
  "\<exists>a st'. apply_config_handler (host_exchange (sync_env 99)) s_client None None ''2'' (s_state default_document 0) = (Inr a, st') \<and>
    cf_active (cl_config st') = s_doc \<and> host_users (sync_env 99) (cl_host st') = [''notes'' \<mapsto> s_files]"
proof -
  let ?st = "s_state default_document 0" and ?run = "apply_config_handler (host_exchange (sync_env 99)) s_client None None ''2''"
  have parse: "parse_source (ce_libs s_client) (source_kind_from_headers None) ''2'' = Inr s_doc" by code_simp
  have d: "skills_of s_doc = [\<lparr>sk_id = ''notes'', sk_files = s_files\<rparr>]" by (simp add: s_doc_def)
  have ok: "case fst (?run ?st) of Inr _ \<Rightarrow> True | Inl _ \<Rightarrow> False" by code_simp
  obtain a st' where run: "?run ?st = (Inr a, st')" using ok by (cases "?run ?st") (auto split: sum.splits)
  have h: "cl_host ?st = sync_world 0" by (simp add: s_state_def)
  have b: "host_inv (sync_env 99) (2 * 1 + 2 * card (dom (host_users (sync_env 99) (cl_host ?st))) + 0) (cl_host ?st)"
    unfolding h sync_users by (rule sync_inv) simp
  have "length (skills_of doc) \<le> 1 \<and> (\<forall>sk \<in> set (skills_of doc). proper_files (sk_files sk))"
    if "parse_source (ce_libs s_client) (source_kind_from_headers None) ''2'' = Inr doc" for doc
    using that parse d s_files_proper by simp
  from apply_all_or_nothing [OF b, where ce = s_client and ct = None and src = "''2''" and im = None, OF this] show ?thesis
    by (simp add: run parse skill_files_of_def d)
qed

text \<open>
  (C38) The reconciliation at start converges: when the network delivers everything, the skills of the user on the host
  become exactly those of the document, whatever they were, and the configuration does not change.
\<close>

theorem startup_converges:
  assumes "host_inv env (2 * length (skills_of (cf_active (cl_config st))) + 2 * card (dom (host_users env (cl_host st))) + n) (cl_host st)"
    and "host_calm env (cl_host st)" "unique_ids (cf_active (cl_config st))"
    and "\<forall>k \<in> set (skills_of (cf_active (cl_config st))). proper_files (sk_files k) \<and> host_writable env (sk_id k)"
  shows "host_users env (cl_host (reconcile_skills_locked (host_exchange env) st)) = skill_files_of (cf_active (cl_config st)) \<and>
    cl_config (reconcile_skills_locked (host_exchange env) st) = cl_config st"
  using hk.startup_off [OF assms] by blast

theorem startup_converges_witness:
  "host_users (sync_env 99) (cl_host (reconcile_skills_locked (host_exchange (sync_env 99)) (s_state s_doc 100))) =
    skill_files_of s_doc \<and> skill_files_of s_doc = [''notes'' \<mapsto> s_files]"
proof -
  have d: "cf_active (cl_config (s_state s_doc 100)) = s_doc" "cl_host (s_state s_doc 100) = sync_world 100"
    "skills_of s_doc = [\<lparr>sk_id = ''notes'', sk_files = s_files\<rparr>]"
    by (simp_all add: s_state_def s_doc_def)
  have "host_validate_skill_id ''notes'' = Inr ()" "\<not> is_builtin sample_service ''notes''" by code_simp+
  then have w: "host_writable (sync_env 99) ''notes''" by (simp add: host_writable_def sync_env_def)
  have u: "unique_ids s_doc" by (simp add: unique_ids_def s_doc_def default_spec_def)
  have b: "host_inv (sync_env 99) (2 * length (skills_of s_doc) + 2 * card (dom (\<lambda>_. None :: string btree option)) + 0) (sync_world 100)"
    by (rule sync_inv) (simp add: d(3))
  have c: "host_calm (sync_env 99) (sync_world 100)" by (simp add: host_calm_def sync_env_def sync_world_def)
  have "skill_files_of s_doc = [''notes'' \<mapsto> s_files]" by (simp add: skill_files_of_def d(3))
  then show ?thesis using startup_converges [of "sync_env 99" "s_state s_doc 100" 0] b c u w s_files_proper by (simp add: d sync_users)
qed

text \<open>
  (C39) Single changes keep the two sides together: after any sequence of requests that create, change, roll back or
  delete skills, the document and the host hold the same files for every skill, except for skills named by a request
  that was answered with an error and skills that differed before.  This holds whatever the network loses.
\<close>

theorem changes_differ_at_failures:
  assumes "host_inv env (2 * length chs + n) (cl_host st)" "list_all change_ok chs" "unique_ids (cf_active (cl_config st))"
    and "\<forall>i files. skill_files_of (cf_active (cl_config st)) i = Some files \<longrightarrow> proper_files files"
    and "agree_off d (host_users env (cl_host st)) (skill_files_of (cf_active (cl_config st)))"
  shows "case change_skills (host_exchange env) ce chs st of (rs, st') \<Rightarrow>
    agree_off (d \<union> failed_ids rs) (host_users env (cl_host st')) (skill_files_of (cf_active (cl_config st')))"
proof -
  obtain rs st' where run: "change_skills (host_exchange env) ce chs st = (rs, st')" by force
  have "hk.tidy st" using assms(3,4) by (simp add: hk.tidy_def)
  from hk.changes_off [OF assms(1) this assms(2,5) run] show ?thesis by (simp add: run)
qed

lemma failed_ids_flags: "failed_ids rs = set (map fst (filter snd (map (\<lambda>(ch, r). (changed_id ch, case r of Inl _ \<Rightarrow> True | Inr _ \<Rightarrow> False)) rs)))"
  by (force simp: failed_ids_def split: sum.splits)

theorem changes_differ_at_failures_witness:
  "\<exists>rs st'. change_skills (host_exchange (sync_env 1)) s_client [CreateSkill ''notes'' s_files None] (s_state default_document 0) = (rs, st') \<and>
    failed_ids rs = {''notes''} \<and>
    agree_off {''notes''} (host_users (sync_env 1) (cl_host st')) (skill_files_of (cf_active (cl_config st')))"
proof -
  let ?st = "s_state default_document 0" and ?chs = "[CreateSkill ''notes'' s_files None]"
  obtain rs st' where run: "change_skills (host_exchange (sync_env 1)) s_client ?chs ?st = (rs, st')" by force
  have "map (\<lambda>(ch, r). (changed_id ch, case r of Inl _ \<Rightarrow> True | Inr _ \<Rightarrow> False))
      (fst (change_skills (host_exchange (sync_env 1)) s_client ?chs ?st)) = [(''notes'', True)]" by code_simp
  then have flags: "map (\<lambda>(ch, r). (changed_id ch, case r of Inl _ \<Rightarrow> True | Inr _ \<Rightarrow> False)) rs = [(''notes'', True)]"
    unfolding run fst_conv .
  have f: "failed_ids rs = {''notes''}" unfolding failed_ids_flags flags by simp
  have d: "cf_active (cl_config ?st) = default_document" "cl_host ?st = sync_world 0" by (simp_all add: s_state_def)
  have e: "skill_files_of default_document = (\<lambda>_. None)" "unique_ids default_document"
    by (simp_all add: skill_files_of_def unique_ids_def default_document_def default_spec_def fun_eq_iff)
  have b: "host_inv (sync_env 1) (2 * length ?chs + 0) (cl_host ?st)" unfolding d by (rule sync_inv) simp
  have "list_all change_ok ?chs" using s_files_proper by simp
  from changes_differ_at_failures [OF b this, where d = "{}" and ce = s_client] show ?thesis
    using f run e by (simp add: d sync_users)
qed

text \<open>
  (C40) Staging is idempotent: against a host that already has the skills of the document nothing is sent, over any
  transport, so that a repeated apply or restart costs no version of any skill.
\<close>

theorem staging_idle:
  assumes "distinct (map sk_id sks)" "map_of user = map_of (map (\<lambda>k. (sk_id k, sk_files k)) sks)"
  shows "stage_against ex user sks st = (Inr [], st)"
proof -
  have same: "btree_get user (sk_id k) = Some (sk_files k)" if "k \<in> set sks" for k
    using assms that by (simp add: o_def)
  have "stage_declared ex user ks [] st = (Inr [], st)" if "set ks \<subseteq> set sks" for ks
    using that by (induction ks) (simp_all add: stage_one_def same)
  moreover have "fst ` set user = sk_id ` set sks"
    using arg_cong [OF assms(2), of dom] by (simp add: dom_map_of_conv_image_fst image_image)
  then have "stage_removed ex (map sk_id sks) es [] st = (Inr [], st)" if "set es \<subseteq> set user" for es
    using that by (induction es) force+
  ultimately show ?thesis by (simp add: stage_against_def)
qed

theorem staging_idle_witness:
  "stage_against (host_exchange (sync_env 0)) [(''notes'', s_files)] (skills_of s_doc) (s_state s_doc 0) = (Inr [], s_state s_doc 0)"
  by (rule staging_idle) (simp_all add: s_doc_def)

end
