(* ===== verification/Spec2Isabelle.thy ===== *)
theory Spec2Isabelle
  imports Config_Claims Remote_Claims Skill_Claims Sync_Claims
begin

text \<open>
  A verification library for agentspace.  It covers three programs of the repository: the memory service
  (\<^verbatim>\<open>src/services/memory_rs\<close>), which keeps Markdown pages in a directory; the configuration core of the client
  service (\<^verbatim>\<open>src/services/client_service_rs/src/config\<close>), which keeps the declarative configuration of agents,
  connections, skills, kernels and gateways together with its secrets; and the skill store of the agent host
  (\<^verbatim>\<open>src/services/agent_host_rs/src/skills.rs\<close>), which keeps the files of skills and their versions on disk.  The
  last two meet where the client service keeps the skills of the host in step with its document.

  \<^bold>\<open>Conventions.\<close>  A string is the list of the bytes of its UTF-8 form.  \<^verbatim>\<open>Result<T, E>\<close> is \<open>(E, T) result\<close>, with
  \<open>Inl\<close> the error; an operation on a state gives an \<open>outcome\<close>, the result with the state after it on every path, and
  \<open>try_res\<close> and \<open>try_io\<close> are the \<^verbatim>\<open>?\<close> operator (\<open>Prelude\<close>, with the collection \<open>result_iff\<close>).  An error text is
  a \<open>message\<close>, a list of literal, interpolated and external parts (\<open>Memory_Error\<close>).  \<open>Rust_Str\<close> and \<open>Rust_Map\<close> hold
  the functions of the standard library on text and on sorted maps that the programs use.

  \<^bold>\<open>The memory service\<close>, from the bottom up.
  \<^item> \<open>Page_Path\<close> (\<^verbatim>\<open>path.rs\<close>) parses logical paths; the property says which strings are accepted, except for those that
    exceed the limit by their extension alone, where documentation and code differ.  \<open>Links\<close> (\<^verbatim>\<open>links.rs\<close>) scans, resolves and rewrites Markdown links; the scanner over a byte index
    is proved equal to one on the rest of the text.  \<open>Frontmatter\<close> (\<^verbatim>\<open>frontmatter.rs\<close>, \<^verbatim>\<open>model.rs\<close>) holds the
    documents with their YAML header.
  \<^item> \<open>Fs_Model\<close> is the file interface of the operating system: a tree of nodes, a schedule that says which call
    fails, and a log of attempts.  \<open>Fs_Store\<close> (\<^verbatim>\<open>fs_store.rs\<close>) is the store on it: path resolution that refuses
    symbolic links, atomic writes through a temporary file, the move transaction with its backups, and the scan.
    \<open>Fs_Scan\<close> shows what a scan finds, \<open>Fs_Rollback\<close> what a failed move restores, \<open>Fs_Progress\<close> that a write gets
    through when nothing fails.
  \<^item> \<open>Memory_Store\<close> (\<^verbatim>\<open>store.rs\<close>) states what the service relies on as the locale \<open>page_store\<close> over an abstract map of
    pages, and interprets it on \<open>Fs_Store\<close>.  \<open>Memory_Service\<close> (\<^verbatim>\<open>service.rs\<close>) proves its operations inside that
    locale; \<open>Memory_Claims\<close> states the results for the filesystem store.
  \<^item> \<open>Run_Stream\<close> (\<^verbatim>\<open>run_stream.rs\<close>) frames the output of a command; \<open>Command_Runner\<close> (\<^verbatim>\<open>command_runner.rs\<close>) runs
    it.  Its step relation \<open>run_step\<close> has the steps of the driver (\<open>drive_step\<close>: the two copying tasks, the timer,
    the kill, the ends of the pipes) and what the child and the caller may do or not (\<open>env_step\<close>); a child may keep its
    pipes open without writing and need not exit.
  \<^item> \<open>Memory_Wire\<close> (\<^verbatim>\<open>wire.rs\<close>, \<^verbatim>\<open>client.rs\<close>, \<^verbatim>\<open>direct_client.rs\<close>), \<open>Memory_Server\<close> (\<^verbatim>\<open>server.rs\<close>),
    \<open>Http_Client\<close> (\<^verbatim>\<open>http_client.rs\<close>) and \<open>Memory_Cli\<close> (\<^verbatim>\<open>cli.rs\<close>, part of \<^verbatim>\<open>runtime.rs\<close>) are the layers above;
    \<open>Remote_Claims\<close> shows that the HTTP client on the server behaves as the client behind the server.

  \<^bold>\<open>The configuration core\<close>, from the bottom up.
  \<^item> \<open>Client_Models\<close> (\<^verbatim>\<open>errors.rs\<close>, part of \<^verbatim>\<open>models.rs\<close>): names, identifiers, environment text, records and their
    summaries.
  \<^item> \<open>Config_Document\<close> (\<^verbatim>\<open>value.rs\<close>, \<^verbatim>\<open>document.rs\<close>, \<^verbatim>\<open>canonical.rs\<close>, \<^verbatim>\<open>error.rs\<close>): the document, its canonical order,
    its YAML form and hash.  \<open>unique_ids\<close> is the well-formedness of a document.
  \<^item> \<open>Config_Loader\<close> (\<^verbatim>\<open>loader.rs\<close>) merges the documents of a source; \<open>Config_Validate\<close> (\<^verbatim>\<open>validate.rs\<close>,
    \<^verbatim>\<open>skill_validation.rs\<close>) collects the issues of the graph; \<open>Config_Plan\<close> (\<^verbatim>\<open>plan.rs\<close>) compares two documents, with
    the serialised forms of the resources, which are proved injective; \<open>Config_Bundle\<close> (\<^verbatim>\<open>bundle.rs\<close>) reads a
    source from an archive.
  \<^item> \<open>Config_Snapshot\<close> (\<^verbatim>\<open>snapshot.rs\<close>) and \<open>Config_Secrets\<close> (\<^verbatim>\<open>secrets.rs\<close>) are the two stores, each in memory and in
    SQLite.  A connection to SQLite is its tables with a schedule of failing statements; a transaction that does not
    commit is rolled back.  The locale \<open>envelope\<close> states the contract of the snapshot store; it is interpreted on the
    store in memory, on the one in SQLite and on their sum.
  \<^item> \<open>Config_State\<close> (\<^verbatim>\<open>state.rs\<close>) combines document and stores; \<open>Config_Adapter\<close> (\<^verbatim>\<open>adapter.rs\<close>) projects the document
    to the records of the web client and back; \<open>Config_Resolver\<close> (\<^verbatim>\<open>resolver.rs\<close>) resolves secrets when a
    configuration is used.
  \<^item> \<open>Config_Protocol\<close> is the state under concurrent tasks: the step relation \<open>cfg_step\<close>, whose steps are the critical
    sections of the locks of \<^verbatim>\<open>state.rs\<close>.  A task that holds the lock on secret operations first checks and later
    acts, and mutations may come between; a restart opens the service again on the files.  The invariant \<open>cfg_inv\<close>
    holds in every reachable state.  \<open>Config_Prepare\<close> adds \<^verbatim>\<open>prepare\<close>, which holds no lock from one access to the
    next: each of its accesses is a step of \<open>prep_step\<close> and any steps of other tasks come between.
    \<open>Config_Claims\<close> states the properties.

  \<^bold>\<open>The skill store of the agent host\<close>, from the bottom up.
  \<^item> \<open>Host_Fs\<close> adds directory listings and recursive removal and creation to \<open>Fs_Model\<close>; \<open>Host_Skills\<close> (\<^verbatim>\<open>skills.rs\<close>)
    is the service on it: validation of names and paths, reading and writing the files of a skill, its numbered
    snapshots, and every operation on skills.  The walks over directories have the depth of the tree as fuel.
    Paths are resolved as the system does it, \<^verbatim>\<open>..\<close> being the directory above (\<open>path_join\<close>, \<open>resolve_from\<close>), so that the
    checks of identifiers and keys matter; a symbolic link has no target in the model, and the service, whose calls follow
    links, is modelled for trees without them (\<open>no_links\<close>).
  \<^item> \<open>Host_Skills_Facts\<close> shows what reading and writing do in a tree where no call fails; \<open>Host_Skill_History\<close>
    states with \<open>skill_holds\<close> which files and which history a skill has on disk and proves one lemma per operation;
    \<open>Host_Skill_Frame\<close> bounds what an operation may touch under every schedule of faults, shows that it makes no
    links, and says what an update leaves behind whose keys clash.
    \<open>Skill_Claims\<close> states the properties.

  \<^bold>\<open>The client service and the agent host together\<close>, from the bottom up.
  \<^item> \<open>Agent_Client\<close> (part of \<^verbatim>\<open>client_service_rs/src/agent_host.rs\<close> and \<^verbatim>\<open>api.rs\<close>) is the client of the agent host
    over a transport argument, for skills and gateways, and the errors of the client service.  \<open>Host_Api\<close> is the other
    side: the skill routes of the agent host with their JSON bodies, and \<open>host_exchange\<close>, which answers from the skill
    store over a network that may lose a request, a reply or a body.
  \<^item> \<open>Client_Gateways\<close> and \<open>Skill_Sync\<close> (part of \<^verbatim>\<open>client_service_rs/src/api.rs\<close>) are the handlers of gateways and
    skills, the application of a document (prepare, stage the skills on the host, commit, reconcile the gateways, take
    staged skills back on failure) and the reconciliation at start.  The state is that of the configuration, that of
    the other side, and the identifiers of the skills whose restoration failed, which the code only logs.  The lock on applies
    makes each of these a function on the state.
  \<^item> \<open>Skill_Config\<close> shows what the operations on the configuration do to the skills of the document.
    \<open>Skill_Contract\<close> states what the client relies on of a host as the locale \<open>skill_host\<close> (a call that answers with
    success has its effect, one that fails has it or not, nothing else changes), extended by \<open>answering_host\<close> for a quiet
    network, and proves the synchronisation inside it.  Its \<open>inv n\<close> carries a budget of \<open>n\<close> writes, because the version
    numbers of the host have 64 bits.
  \<^item> \<open>Skill_Host\<close> shows the effect of every operation of the skill store on the map of user skills, \<open>Skill_Network\<close>
    carries it through routes, JSON and network and interprets both locales on \<open>host_exchange\<close>; \<open>Sync_Claims\<close> states the
    properties.  There the disk of the host answers every call, the JSON library reads back the snapshots it wrote,
    the host is used by this client alone, and the files are \<open>proper_files\<close>: their keys are in normal form and
    no file lies below another.  What the agent host does behind its other routes is an argument.

  \<^bold>\<open>What is assumed.\<close>  Code outside the repository is an argument.  The memory service takes the YAML and JSON codecs,
  the hash, the clock, the operating system's process and the HTTP transport; where a property needs a law it is a
  hypothesis about the values exchanged (a codec reads back what it wrote; for the YAML header of a page, also without the
  final newline, which the code takes for that of the closing marker).  The configuration core takes \<open>codecs\<close>
  (YAML, JSON of skill metadata, SHA-256), \<open>zip_lib\<close> (the entries of an archive with the result of every read) and
  \<open>crypto\<close> (AES-GCM, base64, the random numbers).  The hypotheses are \<open>libs_ok\<close> (YAML output is text and reads back as the
  same document, what was sealed opens again) and \<open>collision_free\<close> (the sources that are applied have different
  hashes).  Each property with a hypothesis is followed by a theorem that applies it to concrete libraries and states.

  \<^bold>\<open>Bounds and loops.\<close>  Loops are structural recursions on the list they consume, or functions with a termination
  proof: the scanners by the remaining length, the frame loop by the length of the buffer, the discovery of skill sources by
  the number of directories still to be found.  The only fuel is the depth of the walks over directories, for the memory store (\<open>walk\<close>) one more than the
  depth of the tree, which \<open>Fs_Scan\<close> proves sufficient, and likewise for the skill store (\<open>Host_Skills_Facts\<close>).  The limits of the code are its constants (512 bytes of a path, one MiB of a
  frame, 4096 entries and 32 MiB of a bundle); sums that could overflow are written with their saturation, and
  the length field of a frame, the modes of archive entries, the counter of temporary files and the version numbers of
  skills are words.  Generations are integers: in SQLite the sum that leaves the 64 bits is an error (\<open>next_generation\<close>), in
  memory they are bounded by the number of snapshots, which is far from the limit (\<open>generations_bounded\<close>).

  \<^bold>\<open>Not modelled.\<close>  In the modelled files: a poisoned lock (it needs a panic in a critical section), tracing, the opening of the
  store's root directory, sockets and signals, argument parsing by clap, the debug forms.  In the client service: the
  records of sessions, workspaces, files and Git, the stores of sessions and workspaces, the HTTP routes other than those of
  skills, gateways and the application of a document, the proxy to the agent host's sessions and to the memory service.  The agent host, which drives Docker, kernels, terminals and gateways, is mostly
  input and output against daemons; only its skill store and the routes to it are modelled.  The Python
  kernels, gateways and channels and the web interface are not modelled.
\<close>

end
